(* ===== verification/Prelude.thy ===== *)
theory Prelude
  imports Main "HOL-Library.Word"
begin

unbundle bit_operations_syntax

section \<open>Bytes, C characters and shared automation\<close>

text \<open>
  What every component shares: the types of the C code (an \<^verbatim>\<open>u_char\<close> is a
  \<^typ>\<open>8 word\<close>, an \<^verbatim>\<open>ngx_uint_t\<close>, \<^verbatim>\<open>size_t\<close> or \<^verbatim>\<open>uint64_t\<close> of the 64-bit
  build a \<^typ>\<open>64 word\<close>), names for the character literals the source writes, the collections of
  rewrite rules the component proofs use, and generic lemmas on bytes, words and lists.
  A pointer and a length are modelled by the list of the bytes they delimit.
\<close>

type_synonym byte = "8 word"
type_synonym u32 = "32 word"
type_synonym u64 = "64 word"

subsection \<open>Collections\<close>

named_theorems byte_simps \<open>moving byte arithmetic to the naturals\<close>
named_theorems table_simps \<open>values of the constant tables of the source, entry by entry\<close>

subsection \<open>Return codes\<close>

text \<open>The return codes of \<^verbatim>\<open>src/core/ngx_core.h\<close>.\<close>

datatype ngx_rc =
    NGX_OK | NGX_ERROR | NGX_AGAIN | NGX_BUSY | NGX_DONE | NGX_DECLINED | NGX_ABORT

subsection \<open>Character literals\<close>

text \<open>The bytes of the C character literals, by name.\<close>

abbreviation chr_nul :: byte where "chr_nul \<equiv> 0x00"
abbreviation chr_tab :: byte where "chr_tab \<equiv> 0x09"
abbreviation chr_lf :: byte where "chr_lf \<equiv> 0x0a"
abbreviation chr_cr :: byte where "chr_cr \<equiv> 0x0d"
abbreviation chr_space :: byte where "chr_space \<equiv> 0x20"
abbreviation chr_quot :: byte where "chr_quot \<equiv> 0x22"
abbreviation chr_hash :: byte where "chr_hash \<equiv> 0x23"
abbreviation chr_percent :: byte where "chr_percent \<equiv> 0x25"
abbreviation chr_amp :: byte where "chr_amp \<equiv> 0x26"
abbreviation chr_plus :: byte where "chr_plus \<equiv> 0x2b"
abbreviation chr_minus :: byte where "chr_minus \<equiv> 0x2d"
abbreviation chr_dot :: byte where "chr_dot \<equiv> 0x2e"
abbreviation chr_slash :: byte where "chr_slash \<equiv> 0x2f"
abbreviation chr_0 :: byte where "chr_0 \<equiv> 0x30"
abbreviation chr_9 :: byte where "chr_9 \<equiv> 0x39"
abbreviation chr_colon :: byte where "chr_colon \<equiv> 0x3a"
abbreviation chr_semi :: byte where "chr_semi \<equiv> 0x3b"
abbreviation chr_lt :: byte where "chr_lt \<equiv> 0x3c"
abbreviation chr_eq :: byte where "chr_eq \<equiv> 0x3d"
abbreviation chr_gt :: byte where "chr_gt \<equiv> 0x3e"
abbreviation chr_quest :: byte where "chr_quest \<equiv> 0x3f"
abbreviation chr_A :: byte where "chr_A \<equiv> 0x41"
abbreviation chr_F :: byte where "chr_F \<equiv> 0x46"
abbreviation chr_Z :: byte where "chr_Z \<equiv> 0x5a"
abbreviation chr_backslash :: byte where "chr_backslash \<equiv> 0x5c"
abbreviation chr_underscore :: byte where "chr_underscore \<equiv> 0x5f"
abbreviation chr_a :: byte where "chr_a \<equiv> 0x61"
abbreviation chr_f :: byte where "chr_f \<equiv> 0x66"
abbreviation chr_z :: byte where "chr_z \<equiv> 0x7a"

text \<open>A C string literal, as the bytes before its terminating zero.\<close>

definition bytes_of :: "string \<Rightarrow> byte list" where
  "bytes_of s = map of_char s"

subsection \<open>Bytes and words\<close>

lemma unat_byte_less [simp]: "unat (b :: byte) < 256"
  using unsigned_less [of b] by simp

lemma byte_cases_less:
  assumes "\<And>n. n < 256 \<Longrightarrow> P (word_of_nat n :: byte)"
  shows "P b"
  using assms [of "unat b"] by simp

text \<open>A property of all bytes, checked one by one.\<close>

lemma byte_all:
  assumes "P 0" and "P 1" and "list_all (\<lambda>n. P (word_of_nat n :: byte)) [2..<256]"
  shows "P b"
proof (rule byte_cases_less)
  fix n :: nat assume "n < 256"
  consider "n = 0" | "n = 1" | "2 \<le> n" by linarith
  then show "P (word_of_nat n)"
  proof cases
    case 3
    with assms(3) \<open>n < 256\<close> show ?thesis by (simp only: list_all_iff set_upt atLeastLessThan_iff)
  qed (use assms(1,2) in simp_all)
qed

lemma unat_byte_diff [byte_simps]: "(c :: byte) \<le> b \<Longrightarrow> unat (b - c) = unat b - unat c"
  by (simp add: unat_sub)

lemma byte_le_unat [byte_simps]: "(a :: byte) \<le> b \<longleftrightarrow> unat a \<le> unat b"
  by (rule word_le_nat_alt)

lemma byte_less_unat [byte_simps]: "(a :: byte) < b \<longleftrightarrow> unat a < unat b"
  by (rule word_less_nat_alt)

lemma byte_eq_unat: "(a :: byte) = b \<longleftrightarrow> unat a = unat b"
  by (rule word_unat_eq_iff)

lemma byte_compare_1 [simp]:
  "(numeral n :: byte) \<le> 1 \<longleftrightarrow> (numeral n :: byte) = 0 \<or> (numeral n :: byte) = 1"
  "(numeral n :: byte) < 1 \<longleftrightarrow> (numeral n :: byte) = 0"
  "1 \<le> (numeral n :: byte) \<longleftrightarrow> (numeral n :: byte) \<noteq> 0"
  "1 < (numeral n :: byte) \<longleftrightarrow> (numeral n :: byte) \<noteq> 0 \<and> (numeral n :: byte) \<noteq> 1"
  by (unat_arith | simp add: word_less_1)+

text \<open>Shifting, masking and combining words, read as naturals.\<close>

lemma or_shift_add: "w < 2 ^ k \<Longrightarrow> (v * 2 ^ k) OR w = v * 2 ^ k + (w :: nat)"
proof -
  assume "w < 2 ^ k"
  then have w: "take_bit k w = w" by (simp add: take_bit_eq_mod)
  have "push_bit k v AND w = 0"
  proof (rule bit_eqI)
    fix n
    from w have "bit w n \<longleftrightarrow> n < k \<and> bit w n" by (metis bit_take_bit_iff)
    then show "bit (push_bit k v AND w) n \<longleftrightarrow> bit 0 n" by (auto simp: bit_and_iff bit_push_bit_iff)
  qed
  from disjunctive_add_eq_or [OF this] show ?thesis by (simp add: push_bit_eq_mult)
qed

lemma unat_push_bit_u64: "unat (push_bit n (w :: u64)) = (unat w * 2 ^ n) mod 2 ^ 64"
  by (subst unsigned_push_bit_eq) (simp add: take_bit_eq_mod push_bit_eq_mult)

lemma unat_drop_bit: "unat (drop_bit n w) = unat w div 2 ^ n"
  by (subst unat_drop_bit_eq) (simp add: drop_bit_eq_div)

lemma unat_ucast_u32_u64: "unat (ucast (w :: u32) :: u64) = unat w"
proof -
  have "unat w < 2 ^ 64" using unsigned_less [of w, where ?'a = nat] by simp
  then show ?thesis by (subst unsigned_ucast_eq) (simp add: take_bit_eq_mod)
qed

lemma word_eq_of_natI: "unat w = n \<Longrightarrow> w = word_of_nat n"
  by auto

lemma byte_bit_high: "8 \<le> n \<Longrightarrow> \<not> bit (b :: byte) n"
  by (auto dest: bit_imp_le_length)

lemma unat_ucast_byte: "unat (ucast (x :: u64) :: byte) = unat x mod 256"
  by (subst unsigned_ucast_eq) (simp add: take_bit_eq_mod)

lemma unat_ucast_u64: "unat (ucast (b :: byte) :: u64) = unat b"
proof -
  have "unat b < 2 ^ 64" by (rule less_trans [OF unat_byte_less]) simp
  then show ?thesis by (subst unsigned_ucast_eq) (simp add: take_bit_eq_mod)
qed

lemma unat_ucast_u32: "unat (ucast (b :: byte) :: u32) = unat b"
proof -
  have "unat b < 2 ^ 32" by (rule less_trans [OF unat_byte_less]) simp
  then show ?thesis by (subst unsigned_ucast_eq) (simp add: take_bit_eq_mod)
qed

lemma and_not_mask_push_drop: "(w :: 'a :: len word) AND NOT (mask n) = push_bit n (drop_bit n w)"
  by (rule bit_word_eqI) (auto simp: bit_simps)

lemma int_div_less_iff:
  assumes "0 < k"
  shows "a div k < n \<longleftrightarrow> a < n * (k :: int)"
proof
  have a: "a < a div k * k + k" "a div k * k \<le> a"
    using pos_mod_bound [OF assms, of a] pos_mod_sign [OF assms, of a] minus_div_mult_eq_mod [of a k]
    by linarith+
  show "a < n * k" if "a div k < n"
    using that assms mult_right_mono [of "a div k + 1" n k] a(1) by (simp add: distrib_right)
  show "a div k < n" if "a < n * k"
    using that assms mult_less_cancel_right_pos [of k "a div k" n] a(2) by linarith
qed

subsection \<open>Lists\<close>

lemma list_all_append_enumerate:
  "list_all P (enumerate n (xs @ ys)) \<longleftrightarrow>
     list_all P (enumerate n xs) \<and> list_all P (enumerate (n + length xs) ys)"
  by (simp add: enumerate_append_eq)

lemma list_all_enumerate_nth:
  "list_all P (enumerate n xs) \<Longrightarrow> i < length xs \<Longrightarrow> P (n + i, xs ! i)"
  by (force simp: list_all_length nth_enumerate_eq)

subsection \<open>Constant tables\<close>

text \<open>
  \<open>table_rows f g i xs\<close> says that \<open>f\<close> at the indices \<open>i, i + 1, \<dots>\<close> has the values
  \<open>g x\<close> of the entries of \<open>xs\<close>. Rewriting with its equations turns the literal of a constant
  table into one equation per entry.
\<close>

fun table_rows :: "(nat \<Rightarrow> 'b) \<Rightarrow> ('a \<Rightarrow> 'b) \<Rightarrow> nat \<Rightarrow> 'a list \<Rightarrow> bool" where
  "table_rows f g i [] = True"
| "table_rows f g i (x # xs) = (f i = g x \<and> table_rows f g (i + 1) xs)"

lemma table_rows_nth:
  "(\<And>k. k < length xs \<Longrightarrow> f (i + k) = g (xs ! k)) \<Longrightarrow> table_rows f g i xs"
proof (induction xs arbitrary: i)
  case Nil
  then show ?case by simp
next
  case (Cons x xs)
  from Cons.prems [of 0] have "f i = g x" by simp
  moreover have "table_rows f g (i + 1) xs"
  proof (rule Cons.IH)
    fix k assume "k < length xs"
    with Cons.prems [of "Suc k"] show "f (i + 1 + k) = g (xs ! k)" by simp
  qed
  ultimately show ?case by simp
qed

lemma table_rowsD: "table_rows f g i xs \<Longrightarrow> k < length xs \<Longrightarrow> f (i + k) = g (xs ! k)"
proof (induction xs arbitrary: i k)
  case Nil
  then show ?case by simp
next
  case (Cons x xs)
  then show ?case by (cases k) force+
qed

end
