(* ===== verification/Prefix_Code.thy ===== *)
theory Prefix_Code
  imports Prelude "HOL-Library.Sublist"
begin

section \<open>Bit strings, prefix codes and table-driven decoders\<close>

text \<open>
  The bits of a number, most significant first, and the two interfaces of the HTTP/2 Huffman
  coder: a prefix code, and a decoder that consumes its input in fixed groups of bits and keeps,
  between two groups, the bits read since the last complete symbol.
\<close>

subsection \<open>Bits of a number, most significant first\<close>

definition bits_of :: "nat \<Rightarrow> nat \<Rightarrow> bool list" where
  "bits_of n v = rev (map (\<lambda>i. odd (v div 2 ^ i)) [0..<n])"

lemma length_bits_of [simp]: "length (bits_of n v) = n"
  by (simp add: bits_of_def)

lemma bits_of_0 [simp]: "bits_of 0 v = []"
  by (simp add: bits_of_def)

lemma bits_of_append:
  assumes "w < 2 ^ m"
  shows "bits_of (n + m) (v * 2 ^ m + w) = bits_of n v @ bits_of m w"
proof -
  have lo: "odd ((v * 2 ^ m + w) div 2 ^ i) = odd (w div 2 ^ i)" if "i < m" for i
  proof -
    have "v * 2 ^ m = 2 ^ i * (2 * (v * 2 ^ (m - i - 1)))"
      using that by (simp add: power_add [symmetric] power_Suc [symmetric] del: power_Suc)
    then have "(v * 2 ^ m + w) div 2 ^ i = 2 * (v * 2 ^ (m - i - 1)) + w div 2 ^ i"
      by (metis div_mult_self4 power_not_zero zero_neq_numeral add.commute)
    then show ?thesis by simp
  qed
  have hi: "(v * 2 ^ m + w) div 2 ^ (m + i) = v div 2 ^ i" for i
    using assms by (simp add: power_add div_mult2_eq)
  have "[0..<n + m] = [0..<m] @ map (\<lambda>i. m + i) [0..<n]"
    by (rule nth_equalityI) (auto simp: nth_append)
  then show ?thesis
    by (simp add: bits_of_def comp_def hi lo cong: map_cong)
qed

lemma bits_of_Suc:
  "bits_of (Suc n) v = bits_of n (v div 2) @ [odd v]"
  using bits_of_append [of "v mod 2" 1 n "v div 2"]
  by (simp add: bits_of_def parity_cases)

lemma bits_of_inject:
  "bits_of n v = bits_of n w \<Longrightarrow> v < 2 ^ n \<Longrightarrow> w < 2 ^ n \<Longrightarrow> v = w"
proof (induction n arbitrary: v w)
  case 0
  then show ?case by simp
next
  case (Suc n)
  from Suc.prems(1) have "bits_of n (v div 2) = bits_of n (w div 2)" and "odd v = odd w"
    by (simp_all add: bits_of_Suc)
  with Suc.IH [of "v div 2" "w div 2"] Suc.prems have "v div 2 = w div 2" by simp
  with \<open>odd v = odd w\<close> show ?case by (metis dvd_mult_div_cancel odd_two_times_div_two_succ)
qed

lemma bits_of_ones: "bits_of n (2 ^ n - 1) = replicate n True"
proof (induction n)
  case 0
  then show ?case by simp
next
  case (Suc n)
  have "2 ^ Suc n - 1 = (2 ^ n - 1) * 2 ^ 1 + (1::nat)"
    by (cases "2 ^ n :: nat") simp_all
  then have "bits_of (Suc n) (2 ^ Suc n - 1) = bits_of n (2 ^ n - 1) @ bits_of 1 1"
    using bits_of_append [of 1 1 n "2 ^ n - 1"] by simp
  with Suc.IH show ?case
    by (simp add: bits_of_def replicate_append_same)
qed

lemma bits_of_div_append:
  assumes "n \<le> m"
  shows "bits_of m w = bits_of n (w div 2 ^ (m - n)) @ bits_of (m - n) (w mod 2 ^ (m - n))"
  using bits_of_append [of "w mod 2 ^ (m - n)" "m - n" n "w div 2 ^ (m - n)"] assms
  by (simp add: div_mult_mod_eq)

lemma bits_of_mod: "bits_of n (v mod 2 ^ n) = bits_of n v"
  using bits_of_div_append [of 0 n v] bits_of_append [of "v mod 2 ^ n" n 0 0] by simp

lemma prefix_bits_of:
  assumes "prefix (bits_of n v) (bits_of m w)" and "v < 2 ^ n" and "w < 2 ^ m"
  shows "n \<le> m \<and> w div 2 ^ (m - n) = v"
proof -
  from assms(1) have le: "n \<le> m" by (auto dest: prefix_length_le)
  from assms(1) obtain r where "bits_of m w = bits_of n v @ r" by (rule prefixE)
  with bits_of_div_append [OF le, of w] have "bits_of n (w div 2 ^ (m - n)) = bits_of n v"
    by (metis append_eq_append_conv length_bits_of)
  moreover from assms(3) le have "w div 2 ^ (m - n) < 2 ^ n"
    by (simp add: less_mult_imp_div_less flip: power_add)
  ultimately show ?thesis using le assms(2) bits_of_inject by blast
qed

text \<open>The bits of a byte string, in the order they are sent.\<close>

definition byte_bits :: "byte \<Rightarrow> bool list" where
  "byte_bits b = bits_of 8 (unat b)"

definition bytes_bits :: "byte list \<Rightarrow> bool list" where
  "bytes_bits bs = concat (map byte_bits bs)"

lemma bytes_bits_simps [simp]:
  "bytes_bits [] = []"
  "bytes_bits (b # bs) = byte_bits b @ bytes_bits bs"
  "bytes_bits (bs @ cs) = bytes_bits bs @ bytes_bits cs"
  by (simp_all add: bytes_bits_def)

lemma length_bytes_bits [simp]: "length (bytes_bits bs) = 8 * length bs"
  by (induction bs) (simp_all add: byte_bits_def)

lemma byte_bits_nibbles:
  "byte_bits b = bits_of 4 (unat (drop_bit 4 b)) @ bits_of 4 (unat (b AND 0xf))"
proof -
  have "b AND 0xf = take_bit 4 b"
    by (simp add: take_bit_eq_mask mask_eq_exp_minus_1)
  then have "unat (b AND 0xf) = unat b mod 16"
    by (simp add: take_bit_eq_mod unat_mod)
  moreover have "unat (drop_bit 4 b) = unat b div 16"
    by (simp add: drop_bit_eq_div unat_div)
  ultimately show ?thesis
    using bits_of_append [of "unat b mod 16" 4 4 "unat b div 16"]
    by (simp add: byte_bits_def)
qed

lemma bits_of_mult_add_ones:
  "bits_of (n + m) (v * 2 ^ m + (2 ^ m - 1)) = bits_of n v @ replicate m True"
  using bits_of_append [of "2 ^ m - 1" m n v] unfolding bits_of_ones by simp

subsection \<open>Prefix codes\<close>

locale prefix_code =
  fixes code :: "'s \<Rightarrow> bool list"
    and eos :: "bool list"
  assumes prefix_free: "prefix (code a) (code b) \<Longrightarrow> a = b"
    and code_eos: "\<not> prefix (code a) eos" "\<not> prefix eos (code a)"
begin

lemma code_comparable: "code a @ xs = code b @ ys \<Longrightarrow> a = b"
  by (metis prefix_free prefix_same_cases prefixI)

lemma code_eos_append: "code a @ xs \<noteq> eos @ ys"
  by (metis code_eos prefix_same_cases prefixI)

text \<open>
  A string of codes followed by a proper prefix of the end-of-string code starts with the codes
  of any symbols read off it.
\<close>

lemma codes_append_eq:
  assumes "concat (map code out) @ rest = concat (map code s) @ pad"
    and "prefix pad eos"
  shows "\<exists>s'. s = out @ s' \<and> rest = concat (map code s') @ pad"
  using assms(1)
proof (induction out arbitrary: s)
  case Nil
  then show ?case by simp
next
  case (Cons c out)
  show ?case
  proof (cases s)
    case Nil
    with Cons.prems have "pad = code c @ (concat (map code out) @ rest)" by simp
    then have "prefix (code c) pad" by (rule prefixI)
    with assms(2) code_eos(1) [of c] show ?thesis
      by (meson prefix_order.order_trans)
  next
    case (Cons d s')
    with Cons.prems have "code c @ (concat (map code out) @ rest) =
        code d @ (concat (map code s') @ pad)" by simp
    moreover from this have "c = d" by (rule code_comparable)
    ultimately have "concat (map code out) @ rest = concat (map code s') @ pad" by simp
    then obtain s'' where "s' = out @ s''" and "rest = concat (map code s'') @ pad"
      using Cons.IH by blast
    with \<open>c = d\<close> Cons show ?thesis by simp
  qed
qed

theorem codes_unique:
  assumes "concat (map code s) @ p = concat (map code t) @ q"
    and "prefix p eos" and "prefix q eos"
  shows "s = t \<and> p = q"
proof -
  from codes_append_eq [OF assms(1,3)] obtain u
    where "t = s @ u" and p: "p = concat (map code u) @ q" by blast
  moreover have "u = []"
  proof (cases u)
    case (Cons c u')
    with p have "prefix (code c) p" by simp
    with assms(2) code_eos(1) [of c] show ?thesis by (meson prefix_order.order_trans)
  qed
  ultimately show ?thesis by simp
qed

end

subsection \<open>Decoders driven by a table\<close>

text \<open>
  One step reads an input unit in a state and either fails or gives the next state and the
  symbols completed by the unit.
\<close>

fun decode_run :: "('q \<Rightarrow> 'i \<Rightarrow> ('q \<times> 's list) option) \<Rightarrow> 'q \<Rightarrow> 'i list \<Rightarrow> ('q \<times> 's list) option"
where
  "decode_run step q [] = Some (q, [])"
| "decode_run step q (x # xs) =
     (case step q x of
        None \<Rightarrow> None
      | Some (q', out) \<Rightarrow> map_option (apsnd ((@) out)) (decode_run step q' xs))"

locale table_decoder = prefix_code code eos
  for code :: "'s \<Rightarrow> bool list" and eos +
  fixes unit_bits :: "'i \<Rightarrow> bool list"
    and pending :: "'q \<Rightarrow> bool list"
    and step :: "'q \<Rightarrow> 'i \<Rightarrow> ('q \<times> 's list) option"
  assumes step_Some:
      "step q x = Some (q', out) \<Longrightarrow> pending q @ unit_bits x = concat (map code out) @ pending q'"
    and step_None:
      "step q x = None \<Longrightarrow> \<exists>out. prefix (concat (map code out) @ eos) (pending q @ unit_bits x)"
    and pending_incomplete: "\<not> prefix (code s) (pending q)"
begin

lemma decode_sound:
  "decode_run step q xs = Some (q', s) \<Longrightarrow>
     pending q @ concat (map unit_bits xs) = concat (map code s) @ pending q'"
proof (induction xs arbitrary: q s)
  case Nil
  then show ?case by simp
next
  case (Cons x xs)
  from Cons.prems obtain q1 out s1 where st: "step q x = Some (q1, out)"
    and run: "decode_run step q1 xs = Some (q', s1)" and s: "s = out @ s1"
    by (auto split: option.splits)
  from step_Some [OF st] Cons.IH [OF run] s show ?case
    by (metis append.assoc concat.simps(2) concat_append list.simps(9) map_append)
qed

lemma decode_complete:
  assumes "pending q @ concat (map unit_bits xs) = concat (map code s) @ pad"
    and "strict_prefix pad eos"
  shows "\<exists>q'. decode_run step q xs = Some (q', s) \<and> pending q' = pad"
  using assms(1)
proof (induction xs arbitrary: q s)
  case Nil
  then have "s = []"
    using pending_incomplete by (cases s) (auto simp: prefix_def)
  with Nil show ?case by simp
next
  case (Cons x xs)
  have pad: "prefix pad eos" using assms(2) by simp
  have eq: "(pending q @ unit_bits x) @ concat (map unit_bits xs) = concat (map code s) @ pad"
    using Cons.prems by simp
  show ?case
  proof (cases "step q x")
    case None
    then obtain out r where "pending q @ unit_bits x = (concat (map code out) @ eos) @ r"
      using step_None [of q x] by (auto elim!: prefixE)
    with eq have "concat (map code out) @ (eos @ (r @ concat (map unit_bits xs))) =
        concat (map code s) @ pad" by simp
    from codes_append_eq [OF this pad] obtain s'
      where s': "eos @ (r @ concat (map unit_bits xs)) = concat (map code s') @ pad" by blast
    then have False
    proof (cases s')
      case Nil
      with s' assms(2) show False
        by (metis append_Nil concat.simps(1) list.simps(8) prefixI prefix_order.leD)
    next
      case (Cons c u)
      with s' have "code c @ (concat (map code u) @ pad) = eos @ (r @ concat (map unit_bits xs))"
        by simp
      then show False by (simp only: code_eos_append)
    qed
    then show ?thesis ..
  next
    case (Some r)
    obtain q1 out where r: "r = (q1, out)" by (cases r)
    with Some step_Some have "pending q @ unit_bits x = concat (map code out) @ pending q1" by simp
    with eq have "concat (map code out) @ (pending q1 @ concat (map unit_bits xs)) =
        concat (map code s) @ pad" by simp
    from codes_append_eq [OF this pad] obtain s1 where "s = out @ s1"
      and rest: "pending q1 @ concat (map unit_bits xs) = concat (map code s1) @ pad" by blast
    with Cons.IH [OF rest] Some r show ?thesis by auto
  qed
qed

end

end
