(* ===== verification/Http_V2_Huff_Decode_Table.thy ===== *)
theory Http_V2_Huff_Decode_Table
  imports Prelude
begin

section \<open>The HTTP/2 Huffman decoding table\<close>

text \<open>
  The table \<^verbatim>\<open>ngx_http_v2_huff_decode_codes[256][16]\<close> of
  \<^verbatim>\<open>src/http/v2/ngx_http_v2_huff_decode.c\<close>: for each state of the decoder (the bits read since
  the last complete symbol) and each four-bit group, the next state, whether a symbol is emitted,
  the symbol, and whether the input may end there. The initialiser is transcribed eight states at a
  time; \<open>HD n e s d\<close> is the C initialiser \<^verbatim>\<open>{n, e, s, d}\<close>.
\<close>

record huff_decode_code =
  hd_next :: byte
  hd_emit :: byte
  hd_sym :: byte
  hd_ending :: byte

abbreviation HD :: "byte \<Rightarrow> byte \<Rightarrow> byte \<Rightarrow> byte \<Rightarrow> huff_decode_code" where
  "HD n e s d \<equiv> \<lparr>hd_next = n, hd_emit = e, hd_sym = s, hd_ending = d\<rparr>"

definition huff_decode_codes_0 :: "huff_decode_code list list" where
  "huff_decode_codes_0 = [
    [HD 0x04 0x00 0x00 0x00, HD 0x05 0x00 0x00 0x00, HD 0x07 0x00 0x00 0x00, HD 0x08 0x00 0x00 0x00,
     HD 0x0b 0x00 0x00 0x00, HD 0x0c 0x00 0x00 0x00, HD 0x10 0x00 0x00 0x00, HD 0x13 0x00 0x00 0x00,
     HD 0x19 0x00 0x00 0x00, HD 0x1c 0x00 0x00 0x00, HD 0x20 0x00 0x00 0x00, HD 0x23 0x00 0x00 0x00,
     HD 0x2a 0x00 0x00 0x00, HD 0x31 0x00 0x00 0x00, HD 0x39 0x00 0x00 0x00, HD 0x40 0x00 0x00 0x01],
    [HD 0x00 0x01 0x30 0x01, HD 0x00 0x01 0x31 0x01, HD 0x00 0x01 0x32 0x01, HD 0x00 0x01 0x61 0x01,
     HD 0x00 0x01 0x63 0x01, HD 0x00 0x01 0x65 0x01, HD 0x00 0x01 0x69 0x01, HD 0x00 0x01 0x6f 0x01,
     HD 0x00 0x01 0x73 0x01, HD 0x00 0x01 0x74 0x01, HD 0x0d 0x00 0x00 0x00, HD 0x0e 0x00 0x00 0x00,
     HD 0x11 0x00 0x00 0x00, HD 0x12 0x00 0x00 0x00, HD 0x14 0x00 0x00 0x00, HD 0x15 0x00 0x00 0x00],
    [HD 0x01 0x01 0x30 0x00, HD 0x16 0x01 0x30 0x01, HD 0x01 0x01 0x31 0x00, HD 0x16 0x01 0x31 0x01,
     HD 0x01 0x01 0x32 0x00, HD 0x16 0x01 0x32 0x01, HD 0x01 0x01 0x61 0x00, HD 0x16 0x01 0x61 0x01,
     HD 0x01 0x01 0x63 0x00, HD 0x16 0x01 0x63 0x01, HD 0x01 0x01 0x65 0x00, HD 0x16 0x01 0x65 0x01,
     HD 0x01 0x01 0x69 0x00, HD 0x16 0x01 0x69 0x01, HD 0x01 0x01 0x6f 0x00, HD 0x16 0x01 0x6f 0x01],
    [HD 0x02 0x01 0x30 0x00, HD 0x09 0x01 0x30 0x00, HD 0x17 0x01 0x30 0x00, HD 0x28 0x01 0x30 0x01,
     HD 0x02 0x01 0x31 0x00, HD 0x09 0x01 0x31 0x00, HD 0x17 0x01 0x31 0x00, HD 0x28 0x01 0x31 0x01,
     HD 0x02 0x01 0x32 0x00, HD 0x09 0x01 0x32 0x00, HD 0x17 0x01 0x32 0x00, HD 0x28 0x01 0x32 0x01,
     HD 0x02 0x01 0x61 0x00, HD 0x09 0x01 0x61 0x00, HD 0x17 0x01 0x61 0x00, HD 0x28 0x01 0x61 0x01],
    [HD 0x03 0x01 0x30 0x00, HD 0x06 0x01 0x30 0x00, HD 0x0a 0x01 0x30 0x00, HD 0x0f 0x01 0x30 0x00,
     HD 0x18 0x01 0x30 0x00, HD 0x1f 0x01 0x30 0x00, HD 0x29 0x01 0x30 0x00, HD 0x38 0x01 0x30 0x01,
     HD 0x03 0x01 0x31 0x00, HD 0x06 0x01 0x31 0x00, HD 0x0a 0x01 0x31 0x00, HD 0x0f 0x01 0x31 0x00,
     HD 0x18 0x01 0x31 0x00, HD 0x1f 0x01 0x31 0x00, HD 0x29 0x01 0x31 0x00, HD 0x38 0x01 0x31 0x01],
    [HD 0x03 0x01 0x32 0x00, HD 0x06 0x01 0x32 0x00, HD 0x0a 0x01 0x32 0x00, HD 0x0f 0x01 0x32 0x00,
     HD 0x18 0x01 0x32 0x00, HD 0x1f 0x01 0x32 0x00, HD 0x29 0x01 0x32 0x00, HD 0x38 0x01 0x32 0x01,
     HD 0x03 0x01 0x61 0x00, HD 0x06 0x01 0x61 0x00, HD 0x0a 0x01 0x61 0x00, HD 0x0f 0x01 0x61 0x00,
     HD 0x18 0x01 0x61 0x00, HD 0x1f 0x01 0x61 0x00, HD 0x29 0x01 0x61 0x00, HD 0x38 0x01 0x61 0x01],
    [HD 0x02 0x01 0x63 0x00, HD 0x09 0x01 0x63 0x00, HD 0x17 0x01 0x63 0x00, HD 0x28 0x01 0x63 0x01,
     HD 0x02 0x01 0x65 0x00, HD 0x09 0x01 0x65 0x00, HD 0x17 0x01 0x65 0x00, HD 0x28 0x01 0x65 0x01,
     HD 0x02 0x01 0x69 0x00, HD 0x09 0x01 0x69 0x00, HD 0x17 0x01 0x69 0x00, HD 0x28 0x01 0x69 0x01,
     HD 0x02 0x01 0x6f 0x00, HD 0x09 0x01 0x6f 0x00, HD 0x17 0x01 0x6f 0x00, HD 0x28 0x01 0x6f 0x01],
    [HD 0x03 0x01 0x63 0x00, HD 0x06 0x01 0x63 0x00, HD 0x0a 0x01 0x63 0x00, HD 0x0f 0x01 0x63 0x00,
     HD 0x18 0x01 0x63 0x00, HD 0x1f 0x01 0x63 0x00, HD 0x29 0x01 0x63 0x00, HD 0x38 0x01 0x63 0x01,
     HD 0x03 0x01 0x65 0x00, HD 0x06 0x01 0x65 0x00, HD 0x0a 0x01 0x65 0x00, HD 0x0f 0x01 0x65 0x00,
     HD 0x18 0x01 0x65 0x00, HD 0x1f 0x01 0x65 0x00, HD 0x29 0x01 0x65 0x00, HD 0x38 0x01 0x65 0x01]]"

definition huff_decode_codes_8 :: "huff_decode_code list list" where
  "huff_decode_codes_8 = [
    [HD 0x03 0x01 0x69 0x00, HD 0x06 0x01 0x69 0x00, HD 0x0a 0x01 0x69 0x00, HD 0x0f 0x01 0x69 0x00,
     HD 0x18 0x01 0x69 0x00, HD 0x1f 0x01 0x69 0x00, HD 0x29 0x01 0x69 0x00, HD 0x38 0x01 0x69 0x01,
     HD 0x03 0x01 0x6f 0x00, HD 0x06 0x01 0x6f 0x00, HD 0x0a 0x01 0x6f 0x00, HD 0x0f 0x01 0x6f 0x00,
     HD 0x18 0x01 0x6f 0x00, HD 0x1f 0x01 0x6f 0x00, HD 0x29 0x01 0x6f 0x00, HD 0x38 0x01 0x6f 0x01],
    [HD 0x01 0x01 0x73 0x00, HD 0x16 0x01 0x73 0x01, HD 0x01 0x01 0x74 0x00, HD 0x16 0x01 0x74 0x01,
     HD 0x00 0x01 0x20 0x01, HD 0x00 0x01 0x25 0x01, HD 0x00 0x01 0x2d 0x01, HD 0x00 0x01 0x2e 0x01,
     HD 0x00 0x01 0x2f 0x01, HD 0x00 0x01 0x33 0x01, HD 0x00 0x01 0x34 0x01, HD 0x00 0x01 0x35 0x01,
     HD 0x00 0x01 0x36 0x01, HD 0x00 0x01 0x37 0x01, HD 0x00 0x01 0x38 0x01, HD 0x00 0x01 0x39 0x01],
    [HD 0x02 0x01 0x73 0x00, HD 0x09 0x01 0x73 0x00, HD 0x17 0x01 0x73 0x00, HD 0x28 0x01 0x73 0x01,
     HD 0x02 0x01 0x74 0x00, HD 0x09 0x01 0x74 0x00, HD 0x17 0x01 0x74 0x00, HD 0x28 0x01 0x74 0x01,
     HD 0x01 0x01 0x20 0x00, HD 0x16 0x01 0x20 0x01, HD 0x01 0x01 0x25 0x00, HD 0x16 0x01 0x25 0x01,
     HD 0x01 0x01 0x2d 0x00, HD 0x16 0x01 0x2d 0x01, HD 0x01 0x01 0x2e 0x00, HD 0x16 0x01 0x2e 0x01],
    [HD 0x03 0x01 0x73 0x00, HD 0x06 0x01 0x73 0x00, HD 0x0a 0x01 0x73 0x00, HD 0x0f 0x01 0x73 0x00,
     HD 0x18 0x01 0x73 0x00, HD 0x1f 0x01 0x73 0x00, HD 0x29 0x01 0x73 0x00, HD 0x38 0x01 0x73 0x01,
     HD 0x03 0x01 0x74 0x00, HD 0x06 0x01 0x74 0x00, HD 0x0a 0x01 0x74 0x00, HD 0x0f 0x01 0x74 0x00,
     HD 0x18 0x01 0x74 0x00, HD 0x1f 0x01 0x74 0x00, HD 0x29 0x01 0x74 0x00, HD 0x38 0x01 0x74 0x01],
    [HD 0x02 0x01 0x20 0x00, HD 0x09 0x01 0x20 0x00, HD 0x17 0x01 0x20 0x00, HD 0x28 0x01 0x20 0x01,
     HD 0x02 0x01 0x25 0x00, HD 0x09 0x01 0x25 0x00, HD 0x17 0x01 0x25 0x00, HD 0x28 0x01 0x25 0x01,
     HD 0x02 0x01 0x2d 0x00, HD 0x09 0x01 0x2d 0x00, HD 0x17 0x01 0x2d 0x00, HD 0x28 0x01 0x2d 0x01,
     HD 0x02 0x01 0x2e 0x00, HD 0x09 0x01 0x2e 0x00, HD 0x17 0x01 0x2e 0x00, HD 0x28 0x01 0x2e 0x01],
    [HD 0x03 0x01 0x20 0x00, HD 0x06 0x01 0x20 0x00, HD 0x0a 0x01 0x20 0x00, HD 0x0f 0x01 0x20 0x00,
     HD 0x18 0x01 0x20 0x00, HD 0x1f 0x01 0x20 0x00, HD 0x29 0x01 0x20 0x00, HD 0x38 0x01 0x20 0x01,
     HD 0x03 0x01 0x25 0x00, HD 0x06 0x01 0x25 0x00, HD 0x0a 0x01 0x25 0x00, HD 0x0f 0x01 0x25 0x00,
     HD 0x18 0x01 0x25 0x00, HD 0x1f 0x01 0x25 0x00, HD 0x29 0x01 0x25 0x00, HD 0x38 0x01 0x25 0x01],
    [HD 0x03 0x01 0x2d 0x00, HD 0x06 0x01 0x2d 0x00, HD 0x0a 0x01 0x2d 0x00, HD 0x0f 0x01 0x2d 0x00,
     HD 0x18 0x01 0x2d 0x00, HD 0x1f 0x01 0x2d 0x00, HD 0x29 0x01 0x2d 0x00, HD 0x38 0x01 0x2d 0x01,
     HD 0x03 0x01 0x2e 0x00, HD 0x06 0x01 0x2e 0x00, HD 0x0a 0x01 0x2e 0x00, HD 0x0f 0x01 0x2e 0x00,
     HD 0x18 0x01 0x2e 0x00, HD 0x1f 0x01 0x2e 0x00, HD 0x29 0x01 0x2e 0x00, HD 0x38 0x01 0x2e 0x01],
    [HD 0x01 0x01 0x2f 0x00, HD 0x16 0x01 0x2f 0x01, HD 0x01 0x01 0x33 0x00, HD 0x16 0x01 0x33 0x01,
     HD 0x01 0x01 0x34 0x00, HD 0x16 0x01 0x34 0x01, HD 0x01 0x01 0x35 0x00, HD 0x16 0x01 0x35 0x01,
     HD 0x01 0x01 0x36 0x00, HD 0x16 0x01 0x36 0x01, HD 0x01 0x01 0x37 0x00, HD 0x16 0x01 0x37 0x01,
     HD 0x01 0x01 0x38 0x00, HD 0x16 0x01 0x38 0x01, HD 0x01 0x01 0x39 0x00, HD 0x16 0x01 0x39 0x01]]"

definition huff_decode_codes_16 :: "huff_decode_code list list" where
  "huff_decode_codes_16 = [
    [HD 0x02 0x01 0x2f 0x00, HD 0x09 0x01 0x2f 0x00, HD 0x17 0x01 0x2f 0x00, HD 0x28 0x01 0x2f 0x01,
     HD 0x02 0x01 0x33 0x00, HD 0x09 0x01 0x33 0x00, HD 0x17 0x01 0x33 0x00, HD 0x28 0x01 0x33 0x01,
     HD 0x02 0x01 0x34 0x00, HD 0x09 0x01 0x34 0x00, HD 0x17 0x01 0x34 0x00, HD 0x28 0x01 0x34 0x01,
     HD 0x02 0x01 0x35 0x00, HD 0x09 0x01 0x35 0x00, HD 0x17 0x01 0x35 0x00, HD 0x28 0x01 0x35 0x01],
    [HD 0x03 0x01 0x2f 0x00, HD 0x06 0x01 0x2f 0x00, HD 0x0a 0x01 0x2f 0x00, HD 0x0f 0x01 0x2f 0x00,
     HD 0x18 0x01 0x2f 0x00, HD 0x1f 0x01 0x2f 0x00, HD 0x29 0x01 0x2f 0x00, HD 0x38 0x01 0x2f 0x01,
     HD 0x03 0x01 0x33 0x00, HD 0x06 0x01 0x33 0x00, HD 0x0a 0x01 0x33 0x00, HD 0x0f 0x01 0x33 0x00,
     HD 0x18 0x01 0x33 0x00, HD 0x1f 0x01 0x33 0x00, HD 0x29 0x01 0x33 0x00, HD 0x38 0x01 0x33 0x01],
    [HD 0x03 0x01 0x34 0x00, HD 0x06 0x01 0x34 0x00, HD 0x0a 0x01 0x34 0x00, HD 0x0f 0x01 0x34 0x00,
     HD 0x18 0x01 0x34 0x00, HD 0x1f 0x01 0x34 0x00, HD 0x29 0x01 0x34 0x00, HD 0x38 0x01 0x34 0x01,
     HD 0x03 0x01 0x35 0x00, HD 0x06 0x01 0x35 0x00, HD 0x0a 0x01 0x35 0x00, HD 0x0f 0x01 0x35 0x00,
     HD 0x18 0x01 0x35 0x00, HD 0x1f 0x01 0x35 0x00, HD 0x29 0x01 0x35 0x00, HD 0x38 0x01 0x35 0x01],
    [HD 0x02 0x01 0x36 0x00, HD 0x09 0x01 0x36 0x00, HD 0x17 0x01 0x36 0x00, HD 0x28 0x01 0x36 0x01,
     HD 0x02 0x01 0x37 0x00, HD 0x09 0x01 0x37 0x00, HD 0x17 0x01 0x37 0x00, HD 0x28 0x01 0x37 0x01,
     HD 0x02 0x01 0x38 0x00, HD 0x09 0x01 0x38 0x00, HD 0x17 0x01 0x38 0x00, HD 0x28 0x01 0x38 0x01,
     HD 0x02 0x01 0x39 0x00, HD 0x09 0x01 0x39 0x00, HD 0x17 0x01 0x39 0x00, HD 0x28 0x01 0x39 0x01],
    [HD 0x03 0x01 0x36 0x00, HD 0x06 0x01 0x36 0x00, HD 0x0a 0x01 0x36 0x00, HD 0x0f 0x01 0x36 0x00,
     HD 0x18 0x01 0x36 0x00, HD 0x1f 0x01 0x36 0x00, HD 0x29 0x01 0x36 0x00, HD 0x38 0x01 0x36 0x01,
     HD 0x03 0x01 0x37 0x00, HD 0x06 0x01 0x37 0x00, HD 0x0a 0x01 0x37 0x00, HD 0x0f 0x01 0x37 0x00,
     HD 0x18 0x01 0x37 0x00, HD 0x1f 0x01 0x37 0x00, HD 0x29 0x01 0x37 0x00, HD 0x38 0x01 0x37 0x01],
    [HD 0x03 0x01 0x38 0x00, HD 0x06 0x01 0x38 0x00, HD 0x0a 0x01 0x38 0x00, HD 0x0f 0x01 0x38 0x00,
     HD 0x18 0x01 0x38 0x00, HD 0x1f 0x01 0x38 0x00, HD 0x29 0x01 0x38 0x00, HD 0x38 0x01 0x38 0x01,
     HD 0x03 0x01 0x39 0x00, HD 0x06 0x01 0x39 0x00, HD 0x0a 0x01 0x39 0x00, HD 0x0f 0x01 0x39 0x00,
     HD 0x18 0x01 0x39 0x00, HD 0x1f 0x01 0x39 0x00, HD 0x29 0x01 0x39 0x00, HD 0x38 0x01 0x39 0x01],
    [HD 0x1a 0x00 0x00 0x00, HD 0x1b 0x00 0x00 0x00, HD 0x1d 0x00 0x00 0x00, HD 0x1e 0x00 0x00 0x00,
     HD 0x21 0x00 0x00 0x00, HD 0x22 0x00 0x00 0x00, HD 0x24 0x00 0x00 0x00, HD 0x25 0x00 0x00 0x00,
     HD 0x2b 0x00 0x00 0x00, HD 0x2e 0x00 0x00 0x00, HD 0x32 0x00 0x00 0x00, HD 0x35 0x00 0x00 0x00,
     HD 0x3a 0x00 0x00 0x00, HD 0x3d 0x00 0x00 0x00, HD 0x41 0x00 0x00 0x00, HD 0x44 0x00 0x00 0x01],
    [HD 0x00 0x01 0x3d 0x01, HD 0x00 0x01 0x41 0x01, HD 0x00 0x01 0x5f 0x01, HD 0x00 0x01 0x62 0x01,
     HD 0x00 0x01 0x64 0x01, HD 0x00 0x01 0x66 0x01, HD 0x00 0x01 0x67 0x01, HD 0x00 0x01 0x68 0x01,
     HD 0x00 0x01 0x6c 0x01, HD 0x00 0x01 0x6d 0x01, HD 0x00 0x01 0x6e 0x01, HD 0x00 0x01 0x70 0x01,
     HD 0x00 0x01 0x72 0x01, HD 0x00 0x01 0x75 0x01, HD 0x26 0x00 0x00 0x00, HD 0x27 0x00 0x00 0x00]]"

definition huff_decode_codes_24 :: "huff_decode_code list list" where
  "huff_decode_codes_24 = [
    [HD 0x01 0x01 0x3d 0x00, HD 0x16 0x01 0x3d 0x01, HD 0x01 0x01 0x41 0x00, HD 0x16 0x01 0x41 0x01,
     HD 0x01 0x01 0x5f 0x00, HD 0x16 0x01 0x5f 0x01, HD 0x01 0x01 0x62 0x00, HD 0x16 0x01 0x62 0x01,
     HD 0x01 0x01 0x64 0x00, HD 0x16 0x01 0x64 0x01, HD 0x01 0x01 0x66 0x00, HD 0x16 0x01 0x66 0x01,
     HD 0x01 0x01 0x67 0x00, HD 0x16 0x01 0x67 0x01, HD 0x01 0x01 0x68 0x00, HD 0x16 0x01 0x68 0x01],
    [HD 0x02 0x01 0x3d 0x00, HD 0x09 0x01 0x3d 0x00, HD 0x17 0x01 0x3d 0x00, HD 0x28 0x01 0x3d 0x01,
     HD 0x02 0x01 0x41 0x00, HD 0x09 0x01 0x41 0x00, HD 0x17 0x01 0x41 0x00, HD 0x28 0x01 0x41 0x01,
     HD 0x02 0x01 0x5f 0x00, HD 0x09 0x01 0x5f 0x00, HD 0x17 0x01 0x5f 0x00, HD 0x28 0x01 0x5f 0x01,
     HD 0x02 0x01 0x62 0x00, HD 0x09 0x01 0x62 0x00, HD 0x17 0x01 0x62 0x00, HD 0x28 0x01 0x62 0x01],
    [HD 0x03 0x01 0x3d 0x00, HD 0x06 0x01 0x3d 0x00, HD 0x0a 0x01 0x3d 0x00, HD 0x0f 0x01 0x3d 0x00,
     HD 0x18 0x01 0x3d 0x00, HD 0x1f 0x01 0x3d 0x00, HD 0x29 0x01 0x3d 0x00, HD 0x38 0x01 0x3d 0x01,
     HD 0x03 0x01 0x41 0x00, HD 0x06 0x01 0x41 0x00, HD 0x0a 0x01 0x41 0x00, HD 0x0f 0x01 0x41 0x00,
     HD 0x18 0x01 0x41 0x00, HD 0x1f 0x01 0x41 0x00, HD 0x29 0x01 0x41 0x00, HD 0x38 0x01 0x41 0x01],
    [HD 0x03 0x01 0x5f 0x00, HD 0x06 0x01 0x5f 0x00, HD 0x0a 0x01 0x5f 0x00, HD 0x0f 0x01 0x5f 0x00,
     HD 0x18 0x01 0x5f 0x00, HD 0x1f 0x01 0x5f 0x00, HD 0x29 0x01 0x5f 0x00, HD 0x38 0x01 0x5f 0x01,
     HD 0x03 0x01 0x62 0x00, HD 0x06 0x01 0x62 0x00, HD 0x0a 0x01 0x62 0x00, HD 0x0f 0x01 0x62 0x00,
     HD 0x18 0x01 0x62 0x00, HD 0x1f 0x01 0x62 0x00, HD 0x29 0x01 0x62 0x00, HD 0x38 0x01 0x62 0x01],
    [HD 0x02 0x01 0x64 0x00, HD 0x09 0x01 0x64 0x00, HD 0x17 0x01 0x64 0x00, HD 0x28 0x01 0x64 0x01,
     HD 0x02 0x01 0x66 0x00, HD 0x09 0x01 0x66 0x00, HD 0x17 0x01 0x66 0x00, HD 0x28 0x01 0x66 0x01,
     HD 0x02 0x01 0x67 0x00, HD 0x09 0x01 0x67 0x00, HD 0x17 0x01 0x67 0x00, HD 0x28 0x01 0x67 0x01,
     HD 0x02 0x01 0x68 0x00, HD 0x09 0x01 0x68 0x00, HD 0x17 0x01 0x68 0x00, HD 0x28 0x01 0x68 0x01],
    [HD 0x03 0x01 0x64 0x00, HD 0x06 0x01 0x64 0x00, HD 0x0a 0x01 0x64 0x00, HD 0x0f 0x01 0x64 0x00,
     HD 0x18 0x01 0x64 0x00, HD 0x1f 0x01 0x64 0x00, HD 0x29 0x01 0x64 0x00, HD 0x38 0x01 0x64 0x01,
     HD 0x03 0x01 0x66 0x00, HD 0x06 0x01 0x66 0x00, HD 0x0a 0x01 0x66 0x00, HD 0x0f 0x01 0x66 0x00,
     HD 0x18 0x01 0x66 0x00, HD 0x1f 0x01 0x66 0x00, HD 0x29 0x01 0x66 0x00, HD 0x38 0x01 0x66 0x01],
    [HD 0x03 0x01 0x67 0x00, HD 0x06 0x01 0x67 0x00, HD 0x0a 0x01 0x67 0x00, HD 0x0f 0x01 0x67 0x00,
     HD 0x18 0x01 0x67 0x00, HD 0x1f 0x01 0x67 0x00, HD 0x29 0x01 0x67 0x00, HD 0x38 0x01 0x67 0x01,
     HD 0x03 0x01 0x68 0x00, HD 0x06 0x01 0x68 0x00, HD 0x0a 0x01 0x68 0x00, HD 0x0f 0x01 0x68 0x00,
     HD 0x18 0x01 0x68 0x00, HD 0x1f 0x01 0x68 0x00, HD 0x29 0x01 0x68 0x00, HD 0x38 0x01 0x68 0x01],
    [HD 0x01 0x01 0x6c 0x00, HD 0x16 0x01 0x6c 0x01, HD 0x01 0x01 0x6d 0x00, HD 0x16 0x01 0x6d 0x01,
     HD 0x01 0x01 0x6e 0x00, HD 0x16 0x01 0x6e 0x01, HD 0x01 0x01 0x70 0x00, HD 0x16 0x01 0x70 0x01,
     HD 0x01 0x01 0x72 0x00, HD 0x16 0x01 0x72 0x01, HD 0x01 0x01 0x75 0x00, HD 0x16 0x01 0x75 0x01,
     HD 0x00 0x01 0x3a 0x01, HD 0x00 0x01 0x42 0x01, HD 0x00 0x01 0x43 0x01, HD 0x00 0x01 0x44 0x01]]"

definition huff_decode_codes_32 :: "huff_decode_code list list" where
  "huff_decode_codes_32 = [
    [HD 0x02 0x01 0x6c 0x00, HD 0x09 0x01 0x6c 0x00, HD 0x17 0x01 0x6c 0x00, HD 0x28 0x01 0x6c 0x01,
     HD 0x02 0x01 0x6d 0x00, HD 0x09 0x01 0x6d 0x00, HD 0x17 0x01 0x6d 0x00, HD 0x28 0x01 0x6d 0x01,
     HD 0x02 0x01 0x6e 0x00, HD 0x09 0x01 0x6e 0x00, HD 0x17 0x01 0x6e 0x00, HD 0x28 0x01 0x6e 0x01,
     HD 0x02 0x01 0x70 0x00, HD 0x09 0x01 0x70 0x00, HD 0x17 0x01 0x70 0x00, HD 0x28 0x01 0x70 0x01],
    [HD 0x03 0x01 0x6c 0x00, HD 0x06 0x01 0x6c 0x00, HD 0x0a 0x01 0x6c 0x00, HD 0x0f 0x01 0x6c 0x00,
     HD 0x18 0x01 0x6c 0x00, HD 0x1f 0x01 0x6c 0x00, HD 0x29 0x01 0x6c 0x00, HD 0x38 0x01 0x6c 0x01,
     HD 0x03 0x01 0x6d 0x00, HD 0x06 0x01 0x6d 0x00, HD 0x0a 0x01 0x6d 0x00, HD 0x0f 0x01 0x6d 0x00,
     HD 0x18 0x01 0x6d 0x00, HD 0x1f 0x01 0x6d 0x00, HD 0x29 0x01 0x6d 0x00, HD 0x38 0x01 0x6d 0x01],
    [HD 0x03 0x01 0x6e 0x00, HD 0x06 0x01 0x6e 0x00, HD 0x0a 0x01 0x6e 0x00, HD 0x0f 0x01 0x6e 0x00,
     HD 0x18 0x01 0x6e 0x00, HD 0x1f 0x01 0x6e 0x00, HD 0x29 0x01 0x6e 0x00, HD 0x38 0x01 0x6e 0x01,
     HD 0x03 0x01 0x70 0x00, HD 0x06 0x01 0x70 0x00, HD 0x0a 0x01 0x70 0x00, HD 0x0f 0x01 0x70 0x00,
     HD 0x18 0x01 0x70 0x00, HD 0x1f 0x01 0x70 0x00, HD 0x29 0x01 0x70 0x00, HD 0x38 0x01 0x70 0x01],
    [HD 0x02 0x01 0x72 0x00, HD 0x09 0x01 0x72 0x00, HD 0x17 0x01 0x72 0x00, HD 0x28 0x01 0x72 0x01,
     HD 0x02 0x01 0x75 0x00, HD 0x09 0x01 0x75 0x00, HD 0x17 0x01 0x75 0x00, HD 0x28 0x01 0x75 0x01,
     HD 0x01 0x01 0x3a 0x00, HD 0x16 0x01 0x3a 0x01, HD 0x01 0x01 0x42 0x00, HD 0x16 0x01 0x42 0x01,
     HD 0x01 0x01 0x43 0x00, HD 0x16 0x01 0x43 0x01, HD 0x01 0x01 0x44 0x00, HD 0x16 0x01 0x44 0x01],
    [HD 0x03 0x01 0x72 0x00, HD 0x06 0x01 0x72 0x00, HD 0x0a 0x01 0x72 0x00, HD 0x0f 0x01 0x72 0x00,
     HD 0x18 0x01 0x72 0x00, HD 0x1f 0x01 0x72 0x00, HD 0x29 0x01 0x72 0x00, HD 0x38 0x01 0x72 0x01,
     HD 0x03 0x01 0x75 0x00, HD 0x06 0x01 0x75 0x00, HD 0x0a 0x01 0x75 0x00, HD 0x0f 0x01 0x75 0x00,
     HD 0x18 0x01 0x75 0x00, HD 0x1f 0x01 0x75 0x00, HD 0x29 0x01 0x75 0x00, HD 0x38 0x01 0x75 0x01],
    [HD 0x02 0x01 0x3a 0x00, HD 0x09 0x01 0x3a 0x00, HD 0x17 0x01 0x3a 0x00, HD 0x28 0x01 0x3a 0x01,
     HD 0x02 0x01 0x42 0x00, HD 0x09 0x01 0x42 0x00, HD 0x17 0x01 0x42 0x00, HD 0x28 0x01 0x42 0x01,
     HD 0x02 0x01 0x43 0x00, HD 0x09 0x01 0x43 0x00, HD 0x17 0x01 0x43 0x00, HD 0x28 0x01 0x43 0x01,
     HD 0x02 0x01 0x44 0x00, HD 0x09 0x01 0x44 0x00, HD 0x17 0x01 0x44 0x00, HD 0x28 0x01 0x44 0x01],
    [HD 0x03 0x01 0x3a 0x00, HD 0x06 0x01 0x3a 0x00, HD 0x0a 0x01 0x3a 0x00, HD 0x0f 0x01 0x3a 0x00,
     HD 0x18 0x01 0x3a 0x00, HD 0x1f 0x01 0x3a 0x00, HD 0x29 0x01 0x3a 0x00, HD 0x38 0x01 0x3a 0x01,
     HD 0x03 0x01 0x42 0x00, HD 0x06 0x01 0x42 0x00, HD 0x0a 0x01 0x42 0x00, HD 0x0f 0x01 0x42 0x00,
     HD 0x18 0x01 0x42 0x00, HD 0x1f 0x01 0x42 0x00, HD 0x29 0x01 0x42 0x00, HD 0x38 0x01 0x42 0x01],
    [HD 0x03 0x01 0x43 0x00, HD 0x06 0x01 0x43 0x00, HD 0x0a 0x01 0x43 0x00, HD 0x0f 0x01 0x43 0x00,
     HD 0x18 0x01 0x43 0x00, HD 0x1f 0x01 0x43 0x00, HD 0x29 0x01 0x43 0x00, HD 0x38 0x01 0x43 0x01,
     HD 0x03 0x01 0x44 0x00, HD 0x06 0x01 0x44 0x00, HD 0x0a 0x01 0x44 0x00, HD 0x0f 0x01 0x44 0x00,
     HD 0x18 0x01 0x44 0x00, HD 0x1f 0x01 0x44 0x00, HD 0x29 0x01 0x44 0x00, HD 0x38 0x01 0x44 0x01]]"

definition huff_decode_codes_40 :: "huff_decode_code list list" where
  "huff_decode_codes_40 = [
    [HD 0x2c 0x00 0x00 0x00, HD 0x2d 0x00 0x00 0x00, HD 0x2f 0x00 0x00 0x00, HD 0x30 0x00 0x00 0x00,
     HD 0x33 0x00 0x00 0x00, HD 0x34 0x00 0x00 0x00, HD 0x36 0x00 0x00 0x00, HD 0x37 0x00 0x00 0x00,
     HD 0x3b 0x00 0x00 0x00, HD 0x3c 0x00 0x00 0x00, HD 0x3e 0x00 0x00 0x00, HD 0x3f 0x00 0x00 0x00,
     HD 0x42 0x00 0x00 0x00, HD 0x43 0x00 0x00 0x00, HD 0x45 0x00 0x00 0x00, HD 0x48 0x00 0x00 0x01],
    [HD 0x00 0x01 0x45 0x01, HD 0x00 0x01 0x46 0x01, HD 0x00 0x01 0x47 0x01, HD 0x00 0x01 0x48 0x01,
     HD 0x00 0x01 0x49 0x01, HD 0x00 0x01 0x4a 0x01, HD 0x00 0x01 0x4b 0x01, HD 0x00 0x01 0x4c 0x01,
     HD 0x00 0x01 0x4d 0x01, HD 0x00 0x01 0x4e 0x01, HD 0x00 0x01 0x4f 0x01, HD 0x00 0x01 0x50 0x01,
     HD 0x00 0x01 0x51 0x01, HD 0x00 0x01 0x52 0x01, HD 0x00 0x01 0x53 0x01, HD 0x00 0x01 0x54 0x01],
    [HD 0x01 0x01 0x45 0x00, HD 0x16 0x01 0x45 0x01, HD 0x01 0x01 0x46 0x00, HD 0x16 0x01 0x46 0x01,
     HD 0x01 0x01 0x47 0x00, HD 0x16 0x01 0x47 0x01, HD 0x01 0x01 0x48 0x00, HD 0x16 0x01 0x48 0x01,
     HD 0x01 0x01 0x49 0x00, HD 0x16 0x01 0x49 0x01, HD 0x01 0x01 0x4a 0x00, HD 0x16 0x01 0x4a 0x01,
     HD 0x01 0x01 0x4b 0x00, HD 0x16 0x01 0x4b 0x01, HD 0x01 0x01 0x4c 0x00, HD 0x16 0x01 0x4c 0x01],
    [HD 0x02 0x01 0x45 0x00, HD 0x09 0x01 0x45 0x00, HD 0x17 0x01 0x45 0x00, HD 0x28 0x01 0x45 0x01,
     HD 0x02 0x01 0x46 0x00, HD 0x09 0x01 0x46 0x00, HD 0x17 0x01 0x46 0x00, HD 0x28 0x01 0x46 0x01,
     HD 0x02 0x01 0x47 0x00, HD 0x09 0x01 0x47 0x00, HD 0x17 0x01 0x47 0x00, HD 0x28 0x01 0x47 0x01,
     HD 0x02 0x01 0x48 0x00, HD 0x09 0x01 0x48 0x00, HD 0x17 0x01 0x48 0x00, HD 0x28 0x01 0x48 0x01],
    [HD 0x03 0x01 0x45 0x00, HD 0x06 0x01 0x45 0x00, HD 0x0a 0x01 0x45 0x00, HD 0x0f 0x01 0x45 0x00,
     HD 0x18 0x01 0x45 0x00, HD 0x1f 0x01 0x45 0x00, HD 0x29 0x01 0x45 0x00, HD 0x38 0x01 0x45 0x01,
     HD 0x03 0x01 0x46 0x00, HD 0x06 0x01 0x46 0x00, HD 0x0a 0x01 0x46 0x00, HD 0x0f 0x01 0x46 0x00,
     HD 0x18 0x01 0x46 0x00, HD 0x1f 0x01 0x46 0x00, HD 0x29 0x01 0x46 0x00, HD 0x38 0x01 0x46 0x01],
    [HD 0x03 0x01 0x47 0x00, HD 0x06 0x01 0x47 0x00, HD 0x0a 0x01 0x47 0x00, HD 0x0f 0x01 0x47 0x00,
     HD 0x18 0x01 0x47 0x00, HD 0x1f 0x01 0x47 0x00, HD 0x29 0x01 0x47 0x00, HD 0x38 0x01 0x47 0x01,
     HD 0x03 0x01 0x48 0x00, HD 0x06 0x01 0x48 0x00, HD 0x0a 0x01 0x48 0x00, HD 0x0f 0x01 0x48 0x00,
     HD 0x18 0x01 0x48 0x00, HD 0x1f 0x01 0x48 0x00, HD 0x29 0x01 0x48 0x00, HD 0x38 0x01 0x48 0x01],
    [HD 0x02 0x01 0x49 0x00, HD 0x09 0x01 0x49 0x00, HD 0x17 0x01 0x49 0x00, HD 0x28 0x01 0x49 0x01,
     HD 0x02 0x01 0x4a 0x00, HD 0x09 0x01 0x4a 0x00, HD 0x17 0x01 0x4a 0x00, HD 0x28 0x01 0x4a 0x01,
     HD 0x02 0x01 0x4b 0x00, HD 0x09 0x01 0x4b 0x00, HD 0x17 0x01 0x4b 0x00, HD 0x28 0x01 0x4b 0x01,
     HD 0x02 0x01 0x4c 0x00, HD 0x09 0x01 0x4c 0x00, HD 0x17 0x01 0x4c 0x00, HD 0x28 0x01 0x4c 0x01],
    [HD 0x03 0x01 0x49 0x00, HD 0x06 0x01 0x49 0x00, HD 0x0a 0x01 0x49 0x00, HD 0x0f 0x01 0x49 0x00,
     HD 0x18 0x01 0x49 0x00, HD 0x1f 0x01 0x49 0x00, HD 0x29 0x01 0x49 0x00, HD 0x38 0x01 0x49 0x01,
     HD 0x03 0x01 0x4a 0x00, HD 0x06 0x01 0x4a 0x00, HD 0x0a 0x01 0x4a 0x00, HD 0x0f 0x01 0x4a 0x00,
     HD 0x18 0x01 0x4a 0x00, HD 0x1f 0x01 0x4a 0x00, HD 0x29 0x01 0x4a 0x00, HD 0x38 0x01 0x4a 0x01]]"

definition huff_decode_codes_48 :: "huff_decode_code list list" where
  "huff_decode_codes_48 = [
    [HD 0x03 0x01 0x4b 0x00, HD 0x06 0x01 0x4b 0x00, HD 0x0a 0x01 0x4b 0x00, HD 0x0f 0x01 0x4b 0x00,
     HD 0x18 0x01 0x4b 0x00, HD 0x1f 0x01 0x4b 0x00, HD 0x29 0x01 0x4b 0x00, HD 0x38 0x01 0x4b 0x01,
     HD 0x03 0x01 0x4c 0x00, HD 0x06 0x01 0x4c 0x00, HD 0x0a 0x01 0x4c 0x00, HD 0x0f 0x01 0x4c 0x00,
     HD 0x18 0x01 0x4c 0x00, HD 0x1f 0x01 0x4c 0x00, HD 0x29 0x01 0x4c 0x00, HD 0x38 0x01 0x4c 0x01],
    [HD 0x01 0x01 0x4d 0x00, HD 0x16 0x01 0x4d 0x01, HD 0x01 0x01 0x4e 0x00, HD 0x16 0x01 0x4e 0x01,
     HD 0x01 0x01 0x4f 0x00, HD 0x16 0x01 0x4f 0x01, HD 0x01 0x01 0x50 0x00, HD 0x16 0x01 0x50 0x01,
     HD 0x01 0x01 0x51 0x00, HD 0x16 0x01 0x51 0x01, HD 0x01 0x01 0x52 0x00, HD 0x16 0x01 0x52 0x01,
     HD 0x01 0x01 0x53 0x00, HD 0x16 0x01 0x53 0x01, HD 0x01 0x01 0x54 0x00, HD 0x16 0x01 0x54 0x01],
    [HD 0x02 0x01 0x4d 0x00, HD 0x09 0x01 0x4d 0x00, HD 0x17 0x01 0x4d 0x00, HD 0x28 0x01 0x4d 0x01,
     HD 0x02 0x01 0x4e 0x00, HD 0x09 0x01 0x4e 0x00, HD 0x17 0x01 0x4e 0x00, HD 0x28 0x01 0x4e 0x01,
     HD 0x02 0x01 0x4f 0x00, HD 0x09 0x01 0x4f 0x00, HD 0x17 0x01 0x4f 0x00, HD 0x28 0x01 0x4f 0x01,
     HD 0x02 0x01 0x50 0x00, HD 0x09 0x01 0x50 0x00, HD 0x17 0x01 0x50 0x00, HD 0x28 0x01 0x50 0x01],
    [HD 0x03 0x01 0x4d 0x00, HD 0x06 0x01 0x4d 0x00, HD 0x0a 0x01 0x4d 0x00, HD 0x0f 0x01 0x4d 0x00,
     HD 0x18 0x01 0x4d 0x00, HD 0x1f 0x01 0x4d 0x00, HD 0x29 0x01 0x4d 0x00, HD 0x38 0x01 0x4d 0x01,
     HD 0x03 0x01 0x4e 0x00, HD 0x06 0x01 0x4e 0x00, HD 0x0a 0x01 0x4e 0x00, HD 0x0f 0x01 0x4e 0x00,
     HD 0x18 0x01 0x4e 0x00, HD 0x1f 0x01 0x4e 0x00, HD 0x29 0x01 0x4e 0x00, HD 0x38 0x01 0x4e 0x01],
    [HD 0x03 0x01 0x4f 0x00, HD 0x06 0x01 0x4f 0x00, HD 0x0a 0x01 0x4f 0x00, HD 0x0f 0x01 0x4f 0x00,
     HD 0x18 0x01 0x4f 0x00, HD 0x1f 0x01 0x4f 0x00, HD 0x29 0x01 0x4f 0x00, HD 0x38 0x01 0x4f 0x01,
     HD 0x03 0x01 0x50 0x00, HD 0x06 0x01 0x50 0x00, HD 0x0a 0x01 0x50 0x00, HD 0x0f 0x01 0x50 0x00,
     HD 0x18 0x01 0x50 0x00, HD 0x1f 0x01 0x50 0x00, HD 0x29 0x01 0x50 0x00, HD 0x38 0x01 0x50 0x01],
    [HD 0x02 0x01 0x51 0x00, HD 0x09 0x01 0x51 0x00, HD 0x17 0x01 0x51 0x00, HD 0x28 0x01 0x51 0x01,
     HD 0x02 0x01 0x52 0x00, HD 0x09 0x01 0x52 0x00, HD 0x17 0x01 0x52 0x00, HD 0x28 0x01 0x52 0x01,
     HD 0x02 0x01 0x53 0x00, HD 0x09 0x01 0x53 0x00, HD 0x17 0x01 0x53 0x00, HD 0x28 0x01 0x53 0x01,
     HD 0x02 0x01 0x54 0x00, HD 0x09 0x01 0x54 0x00, HD 0x17 0x01 0x54 0x00, HD 0x28 0x01 0x54 0x01],
    [HD 0x03 0x01 0x51 0x00, HD 0x06 0x01 0x51 0x00, HD 0x0a 0x01 0x51 0x00, HD 0x0f 0x01 0x51 0x00,
     HD 0x18 0x01 0x51 0x00, HD 0x1f 0x01 0x51 0x00, HD 0x29 0x01 0x51 0x00, HD 0x38 0x01 0x51 0x01,
     HD 0x03 0x01 0x52 0x00, HD 0x06 0x01 0x52 0x00, HD 0x0a 0x01 0x52 0x00, HD 0x0f 0x01 0x52 0x00,
     HD 0x18 0x01 0x52 0x00, HD 0x1f 0x01 0x52 0x00, HD 0x29 0x01 0x52 0x00, HD 0x38 0x01 0x52 0x01],
    [HD 0x03 0x01 0x53 0x00, HD 0x06 0x01 0x53 0x00, HD 0x0a 0x01 0x53 0x00, HD 0x0f 0x01 0x53 0x00,
     HD 0x18 0x01 0x53 0x00, HD 0x1f 0x01 0x53 0x00, HD 0x29 0x01 0x53 0x00, HD 0x38 0x01 0x53 0x01,
     HD 0x03 0x01 0x54 0x00, HD 0x06 0x01 0x54 0x00, HD 0x0a 0x01 0x54 0x00, HD 0x0f 0x01 0x54 0x00,
     HD 0x18 0x01 0x54 0x00, HD 0x1f 0x01 0x54 0x00, HD 0x29 0x01 0x54 0x00, HD 0x38 0x01 0x54 0x01]]"

definition huff_decode_codes_56 :: "huff_decode_code list list" where
  "huff_decode_codes_56 = [
    [HD 0x00 0x01 0x55 0x01, HD 0x00 0x01 0x56 0x01, HD 0x00 0x01 0x57 0x01, HD 0x00 0x01 0x59 0x01,
     HD 0x00 0x01 0x6a 0x01, HD 0x00 0x01 0x6b 0x01, HD 0x00 0x01 0x71 0x01, HD 0x00 0x01 0x76 0x01,
     HD 0x00 0x01 0x77 0x01, HD 0x00 0x01 0x78 0x01, HD 0x00 0x01 0x79 0x01, HD 0x00 0x01 0x7a 0x01,
     HD 0x46 0x00 0x00 0x00, HD 0x47 0x00 0x00 0x00, HD 0x49 0x00 0x00 0x00, HD 0x4a 0x00 0x00 0x01],
    [HD 0x01 0x01 0x55 0x00, HD 0x16 0x01 0x55 0x01, HD 0x01 0x01 0x56 0x00, HD 0x16 0x01 0x56 0x01,
     HD 0x01 0x01 0x57 0x00, HD 0x16 0x01 0x57 0x01, HD 0x01 0x01 0x59 0x00, HD 0x16 0x01 0x59 0x01,
     HD 0x01 0x01 0x6a 0x00, HD 0x16 0x01 0x6a 0x01, HD 0x01 0x01 0x6b 0x00, HD 0x16 0x01 0x6b 0x01,
     HD 0x01 0x01 0x71 0x00, HD 0x16 0x01 0x71 0x01, HD 0x01 0x01 0x76 0x00, HD 0x16 0x01 0x76 0x01],
    [HD 0x02 0x01 0x55 0x00, HD 0x09 0x01 0x55 0x00, HD 0x17 0x01 0x55 0x00, HD 0x28 0x01 0x55 0x01,
     HD 0x02 0x01 0x56 0x00, HD 0x09 0x01 0x56 0x00, HD 0x17 0x01 0x56 0x00, HD 0x28 0x01 0x56 0x01,
     HD 0x02 0x01 0x57 0x00, HD 0x09 0x01 0x57 0x00, HD 0x17 0x01 0x57 0x00, HD 0x28 0x01 0x57 0x01,
     HD 0x02 0x01 0x59 0x00, HD 0x09 0x01 0x59 0x00, HD 0x17 0x01 0x59 0x00, HD 0x28 0x01 0x59 0x01],
    [HD 0x03 0x01 0x55 0x00, HD 0x06 0x01 0x55 0x00, HD 0x0a 0x01 0x55 0x00, HD 0x0f 0x01 0x55 0x00,
     HD 0x18 0x01 0x55 0x00, HD 0x1f 0x01 0x55 0x00, HD 0x29 0x01 0x55 0x00, HD 0x38 0x01 0x55 0x01,
     HD 0x03 0x01 0x56 0x00, HD 0x06 0x01 0x56 0x00, HD 0x0a 0x01 0x56 0x00, HD 0x0f 0x01 0x56 0x00,
     HD 0x18 0x01 0x56 0x00, HD 0x1f 0x01 0x56 0x00, HD 0x29 0x01 0x56 0x00, HD 0x38 0x01 0x56 0x01],
    [HD 0x03 0x01 0x57 0x00, HD 0x06 0x01 0x57 0x00, HD 0x0a 0x01 0x57 0x00, HD 0x0f 0x01 0x57 0x00,
     HD 0x18 0x01 0x57 0x00, HD 0x1f 0x01 0x57 0x00, HD 0x29 0x01 0x57 0x00, HD 0x38 0x01 0x57 0x01,
     HD 0x03 0x01 0x59 0x00, HD 0x06 0x01 0x59 0x00, HD 0x0a 0x01 0x59 0x00, HD 0x0f 0x01 0x59 0x00,
     HD 0x18 0x01 0x59 0x00, HD 0x1f 0x01 0x59 0x00, HD 0x29 0x01 0x59 0x00, HD 0x38 0x01 0x59 0x01],
    [HD 0x02 0x01 0x6a 0x00, HD 0x09 0x01 0x6a 0x00, HD 0x17 0x01 0x6a 0x00, HD 0x28 0x01 0x6a 0x01,
     HD 0x02 0x01 0x6b 0x00, HD 0x09 0x01 0x6b 0x00, HD 0x17 0x01 0x6b 0x00, HD 0x28 0x01 0x6b 0x01,
     HD 0x02 0x01 0x71 0x00, HD 0x09 0x01 0x71 0x00, HD 0x17 0x01 0x71 0x00, HD 0x28 0x01 0x71 0x01,
     HD 0x02 0x01 0x76 0x00, HD 0x09 0x01 0x76 0x00, HD 0x17 0x01 0x76 0x00, HD 0x28 0x01 0x76 0x01],
    [HD 0x03 0x01 0x6a 0x00, HD 0x06 0x01 0x6a 0x00, HD 0x0a 0x01 0x6a 0x00, HD 0x0f 0x01 0x6a 0x00,
     HD 0x18 0x01 0x6a 0x00, HD 0x1f 0x01 0x6a 0x00, HD 0x29 0x01 0x6a 0x00, HD 0x38 0x01 0x6a 0x01,
     HD 0x03 0x01 0x6b 0x00, HD 0x06 0x01 0x6b 0x00, HD 0x0a 0x01 0x6b 0x00, HD 0x0f 0x01 0x6b 0x00,
     HD 0x18 0x01 0x6b 0x00, HD 0x1f 0x01 0x6b 0x00, HD 0x29 0x01 0x6b 0x00, HD 0x38 0x01 0x6b 0x01],
    [HD 0x03 0x01 0x71 0x00, HD 0x06 0x01 0x71 0x00, HD 0x0a 0x01 0x71 0x00, HD 0x0f 0x01 0x71 0x00,
     HD 0x18 0x01 0x71 0x00, HD 0x1f 0x01 0x71 0x00, HD 0x29 0x01 0x71 0x00, HD 0x38 0x01 0x71 0x01,
     HD 0x03 0x01 0x76 0x00, HD 0x06 0x01 0x76 0x00, HD 0x0a 0x01 0x76 0x00, HD 0x0f 0x01 0x76 0x00,
     HD 0x18 0x01 0x76 0x00, HD 0x1f 0x01 0x76 0x00, HD 0x29 0x01 0x76 0x00, HD 0x38 0x01 0x76 0x01]]"

definition huff_decode_codes_64 :: "huff_decode_code list list" where
  "huff_decode_codes_64 = [
    [HD 0x01 0x01 0x77 0x00, HD 0x16 0x01 0x77 0x01, HD 0x01 0x01 0x78 0x00, HD 0x16 0x01 0x78 0x01,
     HD 0x01 0x01 0x79 0x00, HD 0x16 0x01 0x79 0x01, HD 0x01 0x01 0x7a 0x00, HD 0x16 0x01 0x7a 0x01,
     HD 0x00 0x01 0x26 0x01, HD 0x00 0x01 0x2a 0x01, HD 0x00 0x01 0x2c 0x01, HD 0x00 0x01 0x3b 0x01,
     HD 0x00 0x01 0x58 0x01, HD 0x00 0x01 0x5a 0x01, HD 0x4b 0x00 0x00 0x00, HD 0x4e 0x00 0x00 0x01],
    [HD 0x02 0x01 0x77 0x00, HD 0x09 0x01 0x77 0x00, HD 0x17 0x01 0x77 0x00, HD 0x28 0x01 0x77 0x01,
     HD 0x02 0x01 0x78 0x00, HD 0x09 0x01 0x78 0x00, HD 0x17 0x01 0x78 0x00, HD 0x28 0x01 0x78 0x01,
     HD 0x02 0x01 0x79 0x00, HD 0x09 0x01 0x79 0x00, HD 0x17 0x01 0x79 0x00, HD 0x28 0x01 0x79 0x01,
     HD 0x02 0x01 0x7a 0x00, HD 0x09 0x01 0x7a 0x00, HD 0x17 0x01 0x7a 0x00, HD 0x28 0x01 0x7a 0x01],
    [HD 0x03 0x01 0x77 0x00, HD 0x06 0x01 0x77 0x00, HD 0x0a 0x01 0x77 0x00, HD 0x0f 0x01 0x77 0x00,
     HD 0x18 0x01 0x77 0x00, HD 0x1f 0x01 0x77 0x00, HD 0x29 0x01 0x77 0x00, HD 0x38 0x01 0x77 0x01,
     HD 0x03 0x01 0x78 0x00, HD 0x06 0x01 0x78 0x00, HD 0x0a 0x01 0x78 0x00, HD 0x0f 0x01 0x78 0x00,
     HD 0x18 0x01 0x78 0x00, HD 0x1f 0x01 0x78 0x00, HD 0x29 0x01 0x78 0x00, HD 0x38 0x01 0x78 0x01],
    [HD 0x03 0x01 0x79 0x00, HD 0x06 0x01 0x79 0x00, HD 0x0a 0x01 0x79 0x00, HD 0x0f 0x01 0x79 0x00,
     HD 0x18 0x01 0x79 0x00, HD 0x1f 0x01 0x79 0x00, HD 0x29 0x01 0x79 0x00, HD 0x38 0x01 0x79 0x01,
     HD 0x03 0x01 0x7a 0x00, HD 0x06 0x01 0x7a 0x00, HD 0x0a 0x01 0x7a 0x00, HD 0x0f 0x01 0x7a 0x00,
     HD 0x18 0x01 0x7a 0x00, HD 0x1f 0x01 0x7a 0x00, HD 0x29 0x01 0x7a 0x00, HD 0x38 0x01 0x7a 0x01],
    [HD 0x01 0x01 0x26 0x00, HD 0x16 0x01 0x26 0x01, HD 0x01 0x01 0x2a 0x00, HD 0x16 0x01 0x2a 0x01,
     HD 0x01 0x01 0x2c 0x00, HD 0x16 0x01 0x2c 0x01, HD 0x01 0x01 0x3b 0x00, HD 0x16 0x01 0x3b 0x01,
     HD 0x01 0x01 0x58 0x00, HD 0x16 0x01 0x58 0x01, HD 0x01 0x01 0x5a 0x00, HD 0x16 0x01 0x5a 0x01,
     HD 0x4c 0x00 0x00 0x00, HD 0x4d 0x00 0x00 0x00, HD 0x4f 0x00 0x00 0x00, HD 0x51 0x00 0x00 0x01],
    [HD 0x02 0x01 0x26 0x00, HD 0x09 0x01 0x26 0x00, HD 0x17 0x01 0x26 0x00, HD 0x28 0x01 0x26 0x01,
     HD 0x02 0x01 0x2a 0x00, HD 0x09 0x01 0x2a 0x00, HD 0x17 0x01 0x2a 0x00, HD 0x28 0x01 0x2a 0x01,
     HD 0x02 0x01 0x2c 0x00, HD 0x09 0x01 0x2c 0x00, HD 0x17 0x01 0x2c 0x00, HD 0x28 0x01 0x2c 0x01,
     HD 0x02 0x01 0x3b 0x00, HD 0x09 0x01 0x3b 0x00, HD 0x17 0x01 0x3b 0x00, HD 0x28 0x01 0x3b 0x01],
    [HD 0x03 0x01 0x26 0x00, HD 0x06 0x01 0x26 0x00, HD 0x0a 0x01 0x26 0x00, HD 0x0f 0x01 0x26 0x00,
     HD 0x18 0x01 0x26 0x00, HD 0x1f 0x01 0x26 0x00, HD 0x29 0x01 0x26 0x00, HD 0x38 0x01 0x26 0x01,
     HD 0x03 0x01 0x2a 0x00, HD 0x06 0x01 0x2a 0x00, HD 0x0a 0x01 0x2a 0x00, HD 0x0f 0x01 0x2a 0x00,
     HD 0x18 0x01 0x2a 0x00, HD 0x1f 0x01 0x2a 0x00, HD 0x29 0x01 0x2a 0x00, HD 0x38 0x01 0x2a 0x01],
    [HD 0x03 0x01 0x2c 0x00, HD 0x06 0x01 0x2c 0x00, HD 0x0a 0x01 0x2c 0x00, HD 0x0f 0x01 0x2c 0x00,
     HD 0x18 0x01 0x2c 0x00, HD 0x1f 0x01 0x2c 0x00, HD 0x29 0x01 0x2c 0x00, HD 0x38 0x01 0x2c 0x01,
     HD 0x03 0x01 0x3b 0x00, HD 0x06 0x01 0x3b 0x00, HD 0x0a 0x01 0x3b 0x00, HD 0x0f 0x01 0x3b 0x00,
     HD 0x18 0x01 0x3b 0x00, HD 0x1f 0x01 0x3b 0x00, HD 0x29 0x01 0x3b 0x00, HD 0x38 0x01 0x3b 0x01]]"

definition huff_decode_codes_72 :: "huff_decode_code list list" where
  "huff_decode_codes_72 = [
    [HD 0x02 0x01 0x58 0x00, HD 0x09 0x01 0x58 0x00, HD 0x17 0x01 0x58 0x00, HD 0x28 0x01 0x58 0x01,
     HD 0x02 0x01 0x5a 0x00, HD 0x09 0x01 0x5a 0x00, HD 0x17 0x01 0x5a 0x00, HD 0x28 0x01 0x5a 0x01,
     HD 0x00 0x01 0x21 0x01, HD 0x00 0x01 0x22 0x01, HD 0x00 0x01 0x28 0x01, HD 0x00 0x01 0x29 0x01,
     HD 0x00 0x01 0x3f 0x01, HD 0x50 0x00 0x00 0x00, HD 0x52 0x00 0x00 0x00, HD 0x54 0x00 0x00 0x01],
    [HD 0x03 0x01 0x58 0x00, HD 0x06 0x01 0x58 0x00, HD 0x0a 0x01 0x58 0x00, HD 0x0f 0x01 0x58 0x00,
     HD 0x18 0x01 0x58 0x00, HD 0x1f 0x01 0x58 0x00, HD 0x29 0x01 0x58 0x00, HD 0x38 0x01 0x58 0x01,
     HD 0x03 0x01 0x5a 0x00, HD 0x06 0x01 0x5a 0x00, HD 0x0a 0x01 0x5a 0x00, HD 0x0f 0x01 0x5a 0x00,
     HD 0x18 0x01 0x5a 0x00, HD 0x1f 0x01 0x5a 0x00, HD 0x29 0x01 0x5a 0x00, HD 0x38 0x01 0x5a 0x01],
    [HD 0x01 0x01 0x21 0x00, HD 0x16 0x01 0x21 0x01, HD 0x01 0x01 0x22 0x00, HD 0x16 0x01 0x22 0x01,
     HD 0x01 0x01 0x28 0x00, HD 0x16 0x01 0x28 0x01, HD 0x01 0x01 0x29 0x00, HD 0x16 0x01 0x29 0x01,
     HD 0x01 0x01 0x3f 0x00, HD 0x16 0x01 0x3f 0x01, HD 0x00 0x01 0x27 0x01, HD 0x00 0x01 0x2b 0x01,
     HD 0x00 0x01 0x7c 0x01, HD 0x53 0x00 0x00 0x00, HD 0x55 0x00 0x00 0x00, HD 0x58 0x00 0x00 0x01],
    [HD 0x02 0x01 0x21 0x00, HD 0x09 0x01 0x21 0x00, HD 0x17 0x01 0x21 0x00, HD 0x28 0x01 0x21 0x01,
     HD 0x02 0x01 0x22 0x00, HD 0x09 0x01 0x22 0x00, HD 0x17 0x01 0x22 0x00, HD 0x28 0x01 0x22 0x01,
     HD 0x02 0x01 0x28 0x00, HD 0x09 0x01 0x28 0x00, HD 0x17 0x01 0x28 0x00, HD 0x28 0x01 0x28 0x01,
     HD 0x02 0x01 0x29 0x00, HD 0x09 0x01 0x29 0x00, HD 0x17 0x01 0x29 0x00, HD 0x28 0x01 0x29 0x01],
    [HD 0x03 0x01 0x21 0x00, HD 0x06 0x01 0x21 0x00, HD 0x0a 0x01 0x21 0x00, HD 0x0f 0x01 0x21 0x00,
     HD 0x18 0x01 0x21 0x00, HD 0x1f 0x01 0x21 0x00, HD 0x29 0x01 0x21 0x00, HD 0x38 0x01 0x21 0x01,
     HD 0x03 0x01 0x22 0x00, HD 0x06 0x01 0x22 0x00, HD 0x0a 0x01 0x22 0x00, HD 0x0f 0x01 0x22 0x00,
     HD 0x18 0x01 0x22 0x00, HD 0x1f 0x01 0x22 0x00, HD 0x29 0x01 0x22 0x00, HD 0x38 0x01 0x22 0x01],
    [HD 0x03 0x01 0x28 0x00, HD 0x06 0x01 0x28 0x00, HD 0x0a 0x01 0x28 0x00, HD 0x0f 0x01 0x28 0x00,
     HD 0x18 0x01 0x28 0x00, HD 0x1f 0x01 0x28 0x00, HD 0x29 0x01 0x28 0x00, HD 0x38 0x01 0x28 0x01,
     HD 0x03 0x01 0x29 0x00, HD 0x06 0x01 0x29 0x00, HD 0x0a 0x01 0x29 0x00, HD 0x0f 0x01 0x29 0x00,
     HD 0x18 0x01 0x29 0x00, HD 0x1f 0x01 0x29 0x00, HD 0x29 0x01 0x29 0x00, HD 0x38 0x01 0x29 0x01],
    [HD 0x02 0x01 0x3f 0x00, HD 0x09 0x01 0x3f 0x00, HD 0x17 0x01 0x3f 0x00, HD 0x28 0x01 0x3f 0x01,
     HD 0x01 0x01 0x27 0x00, HD 0x16 0x01 0x27 0x01, HD 0x01 0x01 0x2b 0x00, HD 0x16 0x01 0x2b 0x01,
     HD 0x01 0x01 0x7c 0x00, HD 0x16 0x01 0x7c 0x01, HD 0x00 0x01 0x23 0x01, HD 0x00 0x01 0x3e 0x01,
     HD 0x56 0x00 0x00 0x00, HD 0x57 0x00 0x00 0x00, HD 0x59 0x00 0x00 0x00, HD 0x5a 0x00 0x00 0x01],
    [HD 0x03 0x01 0x3f 0x00, HD 0x06 0x01 0x3f 0x00, HD 0x0a 0x01 0x3f 0x00, HD 0x0f 0x01 0x3f 0x00,
     HD 0x18 0x01 0x3f 0x00, HD 0x1f 0x01 0x3f 0x00, HD 0x29 0x01 0x3f 0x00, HD 0x38 0x01 0x3f 0x01,
     HD 0x02 0x01 0x27 0x00, HD 0x09 0x01 0x27 0x00, HD 0x17 0x01 0x27 0x00, HD 0x28 0x01 0x27 0x01,
     HD 0x02 0x01 0x2b 0x00, HD 0x09 0x01 0x2b 0x00, HD 0x17 0x01 0x2b 0x00, HD 0x28 0x01 0x2b 0x01]]"

definition huff_decode_codes_80 :: "huff_decode_code list list" where
  "huff_decode_codes_80 = [
    [HD 0x03 0x01 0x27 0x00, HD 0x06 0x01 0x27 0x00, HD 0x0a 0x01 0x27 0x00, HD 0x0f 0x01 0x27 0x00,
     HD 0x18 0x01 0x27 0x00, HD 0x1f 0x01 0x27 0x00, HD 0x29 0x01 0x27 0x00, HD 0x38 0x01 0x27 0x01,
     HD 0x03 0x01 0x2b 0x00, HD 0x06 0x01 0x2b 0x00, HD 0x0a 0x01 0x2b 0x00, HD 0x0f 0x01 0x2b 0x00,
     HD 0x18 0x01 0x2b 0x00, HD 0x1f 0x01 0x2b 0x00, HD 0x29 0x01 0x2b 0x00, HD 0x38 0x01 0x2b 0x01],
    [HD 0x02 0x01 0x7c 0x00, HD 0x09 0x01 0x7c 0x00, HD 0x17 0x01 0x7c 0x00, HD 0x28 0x01 0x7c 0x01,
     HD 0x01 0x01 0x23 0x00, HD 0x16 0x01 0x23 0x01, HD 0x01 0x01 0x3e 0x00, HD 0x16 0x01 0x3e 0x01,
     HD 0x00 0x01 0x00 0x01, HD 0x00 0x01 0x24 0x01, HD 0x00 0x01 0x40 0x01, HD 0x00 0x01 0x5b 0x01,
     HD 0x00 0x01 0x5d 0x01, HD 0x00 0x01 0x7e 0x01, HD 0x5b 0x00 0x00 0x00, HD 0x5c 0x00 0x00 0x01],
    [HD 0x03 0x01 0x7c 0x00, HD 0x06 0x01 0x7c 0x00, HD 0x0a 0x01 0x7c 0x00, HD 0x0f 0x01 0x7c 0x00,
     HD 0x18 0x01 0x7c 0x00, HD 0x1f 0x01 0x7c 0x00, HD 0x29 0x01 0x7c 0x00, HD 0x38 0x01 0x7c 0x01,
     HD 0x02 0x01 0x23 0x00, HD 0x09 0x01 0x23 0x00, HD 0x17 0x01 0x23 0x00, HD 0x28 0x01 0x23 0x01,
     HD 0x02 0x01 0x3e 0x00, HD 0x09 0x01 0x3e 0x00, HD 0x17 0x01 0x3e 0x00, HD 0x28 0x01 0x3e 0x01],
    [HD 0x03 0x01 0x23 0x00, HD 0x06 0x01 0x23 0x00, HD 0x0a 0x01 0x23 0x00, HD 0x0f 0x01 0x23 0x00,
     HD 0x18 0x01 0x23 0x00, HD 0x1f 0x01 0x23 0x00, HD 0x29 0x01 0x23 0x00, HD 0x38 0x01 0x23 0x01,
     HD 0x03 0x01 0x3e 0x00, HD 0x06 0x01 0x3e 0x00, HD 0x0a 0x01 0x3e 0x00, HD 0x0f 0x01 0x3e 0x00,
     HD 0x18 0x01 0x3e 0x00, HD 0x1f 0x01 0x3e 0x00, HD 0x29 0x01 0x3e 0x00, HD 0x38 0x01 0x3e 0x01],
    [HD 0x01 0x01 0x00 0x00, HD 0x16 0x01 0x00 0x01, HD 0x01 0x01 0x24 0x00, HD 0x16 0x01 0x24 0x01,
     HD 0x01 0x01 0x40 0x00, HD 0x16 0x01 0x40 0x01, HD 0x01 0x01 0x5b 0x00, HD 0x16 0x01 0x5b 0x01,
     HD 0x01 0x01 0x5d 0x00, HD 0x16 0x01 0x5d 0x01, HD 0x01 0x01 0x7e 0x00, HD 0x16 0x01 0x7e 0x01,
     HD 0x00 0x01 0x5e 0x01, HD 0x00 0x01 0x7d 0x01, HD 0x5d 0x00 0x00 0x00, HD 0x5e 0x00 0x00 0x01],
    [HD 0x02 0x01 0x00 0x00, HD 0x09 0x01 0x00 0x00, HD 0x17 0x01 0x00 0x00, HD 0x28 0x01 0x00 0x01,
     HD 0x02 0x01 0x24 0x00, HD 0x09 0x01 0x24 0x00, HD 0x17 0x01 0x24 0x00, HD 0x28 0x01 0x24 0x01,
     HD 0x02 0x01 0x40 0x00, HD 0x09 0x01 0x40 0x00, HD 0x17 0x01 0x40 0x00, HD 0x28 0x01 0x40 0x01,
     HD 0x02 0x01 0x5b 0x00, HD 0x09 0x01 0x5b 0x00, HD 0x17 0x01 0x5b 0x00, HD 0x28 0x01 0x5b 0x01],
    [HD 0x03 0x01 0x00 0x00, HD 0x06 0x01 0x00 0x00, HD 0x0a 0x01 0x00 0x00, HD 0x0f 0x01 0x00 0x00,
     HD 0x18 0x01 0x00 0x00, HD 0x1f 0x01 0x00 0x00, HD 0x29 0x01 0x00 0x00, HD 0x38 0x01 0x00 0x01,
     HD 0x03 0x01 0x24 0x00, HD 0x06 0x01 0x24 0x00, HD 0x0a 0x01 0x24 0x00, HD 0x0f 0x01 0x24 0x00,
     HD 0x18 0x01 0x24 0x00, HD 0x1f 0x01 0x24 0x00, HD 0x29 0x01 0x24 0x00, HD 0x38 0x01 0x24 0x01],
    [HD 0x03 0x01 0x40 0x00, HD 0x06 0x01 0x40 0x00, HD 0x0a 0x01 0x40 0x00, HD 0x0f 0x01 0x40 0x00,
     HD 0x18 0x01 0x40 0x00, HD 0x1f 0x01 0x40 0x00, HD 0x29 0x01 0x40 0x00, HD 0x38 0x01 0x40 0x01,
     HD 0x03 0x01 0x5b 0x00, HD 0x06 0x01 0x5b 0x00, HD 0x0a 0x01 0x5b 0x00, HD 0x0f 0x01 0x5b 0x00,
     HD 0x18 0x01 0x5b 0x00, HD 0x1f 0x01 0x5b 0x00, HD 0x29 0x01 0x5b 0x00, HD 0x38 0x01 0x5b 0x01]]"

definition huff_decode_codes_88 :: "huff_decode_code list list" where
  "huff_decode_codes_88 = [
    [HD 0x02 0x01 0x5d 0x00, HD 0x09 0x01 0x5d 0x00, HD 0x17 0x01 0x5d 0x00, HD 0x28 0x01 0x5d 0x01,
     HD 0x02 0x01 0x7e 0x00, HD 0x09 0x01 0x7e 0x00, HD 0x17 0x01 0x7e 0x00, HD 0x28 0x01 0x7e 0x01,
     HD 0x01 0x01 0x5e 0x00, HD 0x16 0x01 0x5e 0x01, HD 0x01 0x01 0x7d 0x00, HD 0x16 0x01 0x7d 0x01,
     HD 0x00 0x01 0x3c 0x01, HD 0x00 0x01 0x60 0x01, HD 0x00 0x01 0x7b 0x01, HD 0x5f 0x00 0x00 0x01],
    [HD 0x03 0x01 0x5d 0x00, HD 0x06 0x01 0x5d 0x00, HD 0x0a 0x01 0x5d 0x00, HD 0x0f 0x01 0x5d 0x00,
     HD 0x18 0x01 0x5d 0x00, HD 0x1f 0x01 0x5d 0x00, HD 0x29 0x01 0x5d 0x00, HD 0x38 0x01 0x5d 0x01,
     HD 0x03 0x01 0x7e 0x00, HD 0x06 0x01 0x7e 0x00, HD 0x0a 0x01 0x7e 0x00, HD 0x0f 0x01 0x7e 0x00,
     HD 0x18 0x01 0x7e 0x00, HD 0x1f 0x01 0x7e 0x00, HD 0x29 0x01 0x7e 0x00, HD 0x38 0x01 0x7e 0x01],
    [HD 0x02 0x01 0x5e 0x00, HD 0x09 0x01 0x5e 0x00, HD 0x17 0x01 0x5e 0x00, HD 0x28 0x01 0x5e 0x01,
     HD 0x02 0x01 0x7d 0x00, HD 0x09 0x01 0x7d 0x00, HD 0x17 0x01 0x7d 0x00, HD 0x28 0x01 0x7d 0x01,
     HD 0x01 0x01 0x3c 0x00, HD 0x16 0x01 0x3c 0x01, HD 0x01 0x01 0x60 0x00, HD 0x16 0x01 0x60 0x01,
     HD 0x01 0x01 0x7b 0x00, HD 0x16 0x01 0x7b 0x01, HD 0x60 0x00 0x00 0x00, HD 0x6e 0x00 0x00 0x01],
    [HD 0x03 0x01 0x5e 0x00, HD 0x06 0x01 0x5e 0x00, HD 0x0a 0x01 0x5e 0x00, HD 0x0f 0x01 0x5e 0x00,
     HD 0x18 0x01 0x5e 0x00, HD 0x1f 0x01 0x5e 0x00, HD 0x29 0x01 0x5e 0x00, HD 0x38 0x01 0x5e 0x01,
     HD 0x03 0x01 0x7d 0x00, HD 0x06 0x01 0x7d 0x00, HD 0x0a 0x01 0x7d 0x00, HD 0x0f 0x01 0x7d 0x00,
     HD 0x18 0x01 0x7d 0x00, HD 0x1f 0x01 0x7d 0x00, HD 0x29 0x01 0x7d 0x00, HD 0x38 0x01 0x7d 0x01],
    [HD 0x02 0x01 0x3c 0x00, HD 0x09 0x01 0x3c 0x00, HD 0x17 0x01 0x3c 0x00, HD 0x28 0x01 0x3c 0x01,
     HD 0x02 0x01 0x60 0x00, HD 0x09 0x01 0x60 0x00, HD 0x17 0x01 0x60 0x00, HD 0x28 0x01 0x60 0x01,
     HD 0x02 0x01 0x7b 0x00, HD 0x09 0x01 0x7b 0x00, HD 0x17 0x01 0x7b 0x00, HD 0x28 0x01 0x7b 0x01,
     HD 0x61 0x00 0x00 0x00, HD 0x65 0x00 0x00 0x00, HD 0x6f 0x00 0x00 0x00, HD 0x85 0x00 0x00 0x01],
    [HD 0x03 0x01 0x3c 0x00, HD 0x06 0x01 0x3c 0x00, HD 0x0a 0x01 0x3c 0x00, HD 0x0f 0x01 0x3c 0x00,
     HD 0x18 0x01 0x3c 0x00, HD 0x1f 0x01 0x3c 0x00, HD 0x29 0x01 0x3c 0x00, HD 0x38 0x01 0x3c 0x01,
     HD 0x03 0x01 0x60 0x00, HD 0x06 0x01 0x60 0x00, HD 0x0a 0x01 0x60 0x00, HD 0x0f 0x01 0x60 0x00,
     HD 0x18 0x01 0x60 0x00, HD 0x1f 0x01 0x60 0x00, HD 0x29 0x01 0x60 0x00, HD 0x38 0x01 0x60 0x01],
    [HD 0x03 0x01 0x7b 0x00, HD 0x06 0x01 0x7b 0x00, HD 0x0a 0x01 0x7b 0x00, HD 0x0f 0x01 0x7b 0x00,
     HD 0x18 0x01 0x7b 0x00, HD 0x1f 0x01 0x7b 0x00, HD 0x29 0x01 0x7b 0x00, HD 0x38 0x01 0x7b 0x01,
     HD 0x62 0x00 0x00 0x00, HD 0x63 0x00 0x00 0x00, HD 0x66 0x00 0x00 0x00, HD 0x69 0x00 0x00 0x00,
     HD 0x70 0x00 0x00 0x00, HD 0x77 0x00 0x00 0x00, HD 0x86 0x00 0x00 0x00, HD 0x99 0x00 0x00 0x01],
    [HD 0x00 0x01 0x5c 0x01, HD 0x00 0x01 0xc3 0x01, HD 0x00 0x01 0xd0 0x01, HD 0x64 0x00 0x00 0x00,
     HD 0x67 0x00 0x00 0x00, HD 0x68 0x00 0x00 0x00, HD 0x6a 0x00 0x00 0x00, HD 0x6b 0x00 0x00 0x00,
     HD 0x71 0x00 0x00 0x00, HD 0x74 0x00 0x00 0x00, HD 0x78 0x00 0x00 0x00, HD 0x7e 0x00 0x00 0x00,
     HD 0x87 0x00 0x00 0x00, HD 0x8e 0x00 0x00 0x00, HD 0x9a 0x00 0x00 0x00, HD 0xa9 0x00 0x00 0x01]]"

definition huff_decode_codes_96 :: "huff_decode_code list list" where
  "huff_decode_codes_96 = [
    [HD 0x01 0x01 0x5c 0x00, HD 0x16 0x01 0x5c 0x01, HD 0x01 0x01 0xc3 0x00, HD 0x16 0x01 0xc3 0x01,
     HD 0x01 0x01 0xd0 0x00, HD 0x16 0x01 0xd0 0x01, HD 0x00 0x01 0x80 0x01, HD 0x00 0x01 0x82 0x01,
     HD 0x00 0x01 0x83 0x01, HD 0x00 0x01 0xa2 0x01, HD 0x00 0x01 0xb8 0x01, HD 0x00 0x01 0xc2 0x01,
     HD 0x00 0x01 0xe0 0x01, HD 0x00 0x01 0xe2 0x01, HD 0x6c 0x00 0x00 0x00, HD 0x6d 0x00 0x00 0x00],
    [HD 0x02 0x01 0x5c 0x00, HD 0x09 0x01 0x5c 0x00, HD 0x17 0x01 0x5c 0x00, HD 0x28 0x01 0x5c 0x01,
     HD 0x02 0x01 0xc3 0x00, HD 0x09 0x01 0xc3 0x00, HD 0x17 0x01 0xc3 0x00, HD 0x28 0x01 0xc3 0x01,
     HD 0x02 0x01 0xd0 0x00, HD 0x09 0x01 0xd0 0x00, HD 0x17 0x01 0xd0 0x00, HD 0x28 0x01 0xd0 0x01,
     HD 0x01 0x01 0x80 0x00, HD 0x16 0x01 0x80 0x01, HD 0x01 0x01 0x82 0x00, HD 0x16 0x01 0x82 0x01],
    [HD 0x03 0x01 0x5c 0x00, HD 0x06 0x01 0x5c 0x00, HD 0x0a 0x01 0x5c 0x00, HD 0x0f 0x01 0x5c 0x00,
     HD 0x18 0x01 0x5c 0x00, HD 0x1f 0x01 0x5c 0x00, HD 0x29 0x01 0x5c 0x00, HD 0x38 0x01 0x5c 0x01,
     HD 0x03 0x01 0xc3 0x00, HD 0x06 0x01 0xc3 0x00, HD 0x0a 0x01 0xc3 0x00, HD 0x0f 0x01 0xc3 0x00,
     HD 0x18 0x01 0xc3 0x00, HD 0x1f 0x01 0xc3 0x00, HD 0x29 0x01 0xc3 0x00, HD 0x38 0x01 0xc3 0x01],
    [HD 0x03 0x01 0xd0 0x00, HD 0x06 0x01 0xd0 0x00, HD 0x0a 0x01 0xd0 0x00, HD 0x0f 0x01 0xd0 0x00,
     HD 0x18 0x01 0xd0 0x00, HD 0x1f 0x01 0xd0 0x00, HD 0x29 0x01 0xd0 0x00, HD 0x38 0x01 0xd0 0x01,
     HD 0x02 0x01 0x80 0x00, HD 0x09 0x01 0x80 0x00, HD 0x17 0x01 0x80 0x00, HD 0x28 0x01 0x80 0x01,
     HD 0x02 0x01 0x82 0x00, HD 0x09 0x01 0x82 0x00, HD 0x17 0x01 0x82 0x00, HD 0x28 0x01 0x82 0x01],
    [HD 0x03 0x01 0x80 0x00, HD 0x06 0x01 0x80 0x00, HD 0x0a 0x01 0x80 0x00, HD 0x0f 0x01 0x80 0x00,
     HD 0x18 0x01 0x80 0x00, HD 0x1f 0x01 0x80 0x00, HD 0x29 0x01 0x80 0x00, HD 0x38 0x01 0x80 0x01,
     HD 0x03 0x01 0x82 0x00, HD 0x06 0x01 0x82 0x00, HD 0x0a 0x01 0x82 0x00, HD 0x0f 0x01 0x82 0x00,
     HD 0x18 0x01 0x82 0x00, HD 0x1f 0x01 0x82 0x00, HD 0x29 0x01 0x82 0x00, HD 0x38 0x01 0x82 0x01],
    [HD 0x01 0x01 0x83 0x00, HD 0x16 0x01 0x83 0x01, HD 0x01 0x01 0xa2 0x00, HD 0x16 0x01 0xa2 0x01,
     HD 0x01 0x01 0xb8 0x00, HD 0x16 0x01 0xb8 0x01, HD 0x01 0x01 0xc2 0x00, HD 0x16 0x01 0xc2 0x01,
     HD 0x01 0x01 0xe0 0x00, HD 0x16 0x01 0xe0 0x01, HD 0x01 0x01 0xe2 0x00, HD 0x16 0x01 0xe2 0x01,
     HD 0x00 0x01 0x99 0x01, HD 0x00 0x01 0xa1 0x01, HD 0x00 0x01 0xa7 0x01, HD 0x00 0x01 0xac 0x01],
    [HD 0x02 0x01 0x83 0x00, HD 0x09 0x01 0x83 0x00, HD 0x17 0x01 0x83 0x00, HD 0x28 0x01 0x83 0x01,
     HD 0x02 0x01 0xa2 0x00, HD 0x09 0x01 0xa2 0x00, HD 0x17 0x01 0xa2 0x00, HD 0x28 0x01 0xa2 0x01,
     HD 0x02 0x01 0xb8 0x00, HD 0x09 0x01 0xb8 0x00, HD 0x17 0x01 0xb8 0x00, HD 0x28 0x01 0xb8 0x01,
     HD 0x02 0x01 0xc2 0x00, HD 0x09 0x01 0xc2 0x00, HD 0x17 0x01 0xc2 0x00, HD 0x28 0x01 0xc2 0x01],
    [HD 0x03 0x01 0x83 0x00, HD 0x06 0x01 0x83 0x00, HD 0x0a 0x01 0x83 0x00, HD 0x0f 0x01 0x83 0x00,
     HD 0x18 0x01 0x83 0x00, HD 0x1f 0x01 0x83 0x00, HD 0x29 0x01 0x83 0x00, HD 0x38 0x01 0x83 0x01,
     HD 0x03 0x01 0xa2 0x00, HD 0x06 0x01 0xa2 0x00, HD 0x0a 0x01 0xa2 0x00, HD 0x0f 0x01 0xa2 0x00,
     HD 0x18 0x01 0xa2 0x00, HD 0x1f 0x01 0xa2 0x00, HD 0x29 0x01 0xa2 0x00, HD 0x38 0x01 0xa2 0x01]]"

definition huff_decode_codes_104 :: "huff_decode_code list list" where
  "huff_decode_codes_104 = [
    [HD 0x03 0x01 0xb8 0x00, HD 0x06 0x01 0xb8 0x00, HD 0x0a 0x01 0xb8 0x00, HD 0x0f 0x01 0xb8 0x00,
     HD 0x18 0x01 0xb8 0x00, HD 0x1f 0x01 0xb8 0x00, HD 0x29 0x01 0xb8 0x00, HD 0x38 0x01 0xb8 0x01,
     HD 0x03 0x01 0xc2 0x00, HD 0x06 0x01 0xc2 0x00, HD 0x0a 0x01 0xc2 0x00, HD 0x0f 0x01 0xc2 0x00,
     HD 0x18 0x01 0xc2 0x00, HD 0x1f 0x01 0xc2 0x00, HD 0x29 0x01 0xc2 0x00, HD 0x38 0x01 0xc2 0x01],
    [HD 0x02 0x01 0xe0 0x00, HD 0x09 0x01 0xe0 0x00, HD 0x17 0x01 0xe0 0x00, HD 0x28 0x01 0xe0 0x01,
     HD 0x02 0x01 0xe2 0x00, HD 0x09 0x01 0xe2 0x00, HD 0x17 0x01 0xe2 0x00, HD 0x28 0x01 0xe2 0x01,
     HD 0x01 0x01 0x99 0x00, HD 0x16 0x01 0x99 0x01, HD 0x01 0x01 0xa1 0x00, HD 0x16 0x01 0xa1 0x01,
     HD 0x01 0x01 0xa7 0x00, HD 0x16 0x01 0xa7 0x01, HD 0x01 0x01 0xac 0x00, HD 0x16 0x01 0xac 0x01],
    [HD 0x03 0x01 0xe0 0x00, HD 0x06 0x01 0xe0 0x00, HD 0x0a 0x01 0xe0 0x00, HD 0x0f 0x01 0xe0 0x00,
     HD 0x18 0x01 0xe0 0x00, HD 0x1f 0x01 0xe0 0x00, HD 0x29 0x01 0xe0 0x00, HD 0x38 0x01 0xe0 0x01,
     HD 0x03 0x01 0xe2 0x00, HD 0x06 0x01 0xe2 0x00, HD 0x0a 0x01 0xe2 0x00, HD 0x0f 0x01 0xe2 0x00,
     HD 0x18 0x01 0xe2 0x00, HD 0x1f 0x01 0xe2 0x00, HD 0x29 0x01 0xe2 0x00, HD 0x38 0x01 0xe2 0x01],
    [HD 0x02 0x01 0x99 0x00, HD 0x09 0x01 0x99 0x00, HD 0x17 0x01 0x99 0x00, HD 0x28 0x01 0x99 0x01,
     HD 0x02 0x01 0xa1 0x00, HD 0x09 0x01 0xa1 0x00, HD 0x17 0x01 0xa1 0x00, HD 0x28 0x01 0xa1 0x01,
     HD 0x02 0x01 0xa7 0x00, HD 0x09 0x01 0xa7 0x00, HD 0x17 0x01 0xa7 0x00, HD 0x28 0x01 0xa7 0x01,
     HD 0x02 0x01 0xac 0x00, HD 0x09 0x01 0xac 0x00, HD 0x17 0x01 0xac 0x00, HD 0x28 0x01 0xac 0x01],
    [HD 0x03 0x01 0x99 0x00, HD 0x06 0x01 0x99 0x00, HD 0x0a 0x01 0x99 0x00, HD 0x0f 0x01 0x99 0x00,
     HD 0x18 0x01 0x99 0x00, HD 0x1f 0x01 0x99 0x00, HD 0x29 0x01 0x99 0x00, HD 0x38 0x01 0x99 0x01,
     HD 0x03 0x01 0xa1 0x00, HD 0x06 0x01 0xa1 0x00, HD 0x0a 0x01 0xa1 0x00, HD 0x0f 0x01 0xa1 0x00,
     HD 0x18 0x01 0xa1 0x00, HD 0x1f 0x01 0xa1 0x00, HD 0x29 0x01 0xa1 0x00, HD 0x38 0x01 0xa1 0x01],
    [HD 0x03 0x01 0xa7 0x00, HD 0x06 0x01 0xa7 0x00, HD 0x0a 0x01 0xa7 0x00, HD 0x0f 0x01 0xa7 0x00,
     HD 0x18 0x01 0xa7 0x00, HD 0x1f 0x01 0xa7 0x00, HD 0x29 0x01 0xa7 0x00, HD 0x38 0x01 0xa7 0x01,
     HD 0x03 0x01 0xac 0x00, HD 0x06 0x01 0xac 0x00, HD 0x0a 0x01 0xac 0x00, HD 0x0f 0x01 0xac 0x00,
     HD 0x18 0x01 0xac 0x00, HD 0x1f 0x01 0xac 0x00, HD 0x29 0x01 0xac 0x00, HD 0x38 0x01 0xac 0x01],
    [HD 0x72 0x00 0x00 0x00, HD 0x73 0x00 0x00 0x00, HD 0x75 0x00 0x00 0x00, HD 0x76 0x00 0x00 0x00,
     HD 0x79 0x00 0x00 0x00, HD 0x7b 0x00 0x00 0x00, HD 0x7f 0x00 0x00 0x00, HD 0x82 0x00 0x00 0x00,
     HD 0x88 0x00 0x00 0x00, HD 0x8b 0x00 0x00 0x00, HD 0x8f 0x00 0x00 0x00, HD 0x92 0x00 0x00 0x00,
     HD 0x9b 0x00 0x00 0x00, HD 0xa2 0x00 0x00 0x00, HD 0xaa 0x00 0x00 0x00, HD 0xb4 0x00 0x00 0x01],
    [HD 0x00 0x01 0xb0 0x01, HD 0x00 0x01 0xb1 0x01, HD 0x00 0x01 0xb3 0x01, HD 0x00 0x01 0xd1 0x01,
     HD 0x00 0x01 0xd8 0x01, HD 0x00 0x01 0xd9 0x01, HD 0x00 0x01 0xe3 0x01, HD 0x00 0x01 0xe5 0x01,
     HD 0x00 0x01 0xe6 0x01, HD 0x7a 0x00 0x00 0x00, HD 0x7c 0x00 0x00 0x00, HD 0x7d 0x00 0x00 0x00,
     HD 0x80 0x00 0x00 0x00, HD 0x81 0x00 0x00 0x00, HD 0x83 0x00 0x00 0x00, HD 0x84 0x00 0x00 0x00]]"

definition huff_decode_codes_112 :: "huff_decode_code list list" where
  "huff_decode_codes_112 = [
    [HD 0x01 0x01 0xb0 0x00, HD 0x16 0x01 0xb0 0x01, HD 0x01 0x01 0xb1 0x00, HD 0x16 0x01 0xb1 0x01,
     HD 0x01 0x01 0xb3 0x00, HD 0x16 0x01 0xb3 0x01, HD 0x01 0x01 0xd1 0x00, HD 0x16 0x01 0xd1 0x01,
     HD 0x01 0x01 0xd8 0x00, HD 0x16 0x01 0xd8 0x01, HD 0x01 0x01 0xd9 0x00, HD 0x16 0x01 0xd9 0x01,
     HD 0x01 0x01 0xe3 0x00, HD 0x16 0x01 0xe3 0x01, HD 0x01 0x01 0xe5 0x00, HD 0x16 0x01 0xe5 0x01],
    [HD 0x02 0x01 0xb0 0x00, HD 0x09 0x01 0xb0 0x00, HD 0x17 0x01 0xb0 0x00, HD 0x28 0x01 0xb0 0x01,
     HD 0x02 0x01 0xb1 0x00, HD 0x09 0x01 0xb1 0x00, HD 0x17 0x01 0xb1 0x00, HD 0x28 0x01 0xb1 0x01,
     HD 0x02 0x01 0xb3 0x00, HD 0x09 0x01 0xb3 0x00, HD 0x17 0x01 0xb3 0x00, HD 0x28 0x01 0xb3 0x01,
     HD 0x02 0x01 0xd1 0x00, HD 0x09 0x01 0xd1 0x00, HD 0x17 0x01 0xd1 0x00, HD 0x28 0x01 0xd1 0x01],
    [HD 0x03 0x01 0xb0 0x00, HD 0x06 0x01 0xb0 0x00, HD 0x0a 0x01 0xb0 0x00, HD 0x0f 0x01 0xb0 0x00,
     HD 0x18 0x01 0xb0 0x00, HD 0x1f 0x01 0xb0 0x00, HD 0x29 0x01 0xb0 0x00, HD 0x38 0x01 0xb0 0x01,
     HD 0x03 0x01 0xb1 0x00, HD 0x06 0x01 0xb1 0x00, HD 0x0a 0x01 0xb1 0x00, HD 0x0f 0x01 0xb1 0x00,
     HD 0x18 0x01 0xb1 0x00, HD 0x1f 0x01 0xb1 0x00, HD 0x29 0x01 0xb1 0x00, HD 0x38 0x01 0xb1 0x01],
    [HD 0x03 0x01 0xb3 0x00, HD 0x06 0x01 0xb3 0x00, HD 0x0a 0x01 0xb3 0x00, HD 0x0f 0x01 0xb3 0x00,
     HD 0x18 0x01 0xb3 0x00, HD 0x1f 0x01 0xb3 0x00, HD 0x29 0x01 0xb3 0x00, HD 0x38 0x01 0xb3 0x01,
     HD 0x03 0x01 0xd1 0x00, HD 0x06 0x01 0xd1 0x00, HD 0x0a 0x01 0xd1 0x00, HD 0x0f 0x01 0xd1 0x00,
     HD 0x18 0x01 0xd1 0x00, HD 0x1f 0x01 0xd1 0x00, HD 0x29 0x01 0xd1 0x00, HD 0x38 0x01 0xd1 0x01],
    [HD 0x02 0x01 0xd8 0x00, HD 0x09 0x01 0xd8 0x00, HD 0x17 0x01 0xd8 0x00, HD 0x28 0x01 0xd8 0x01,
     HD 0x02 0x01 0xd9 0x00, HD 0x09 0x01 0xd9 0x00, HD 0x17 0x01 0xd9 0x00, HD 0x28 0x01 0xd9 0x01,
     HD 0x02 0x01 0xe3 0x00, HD 0x09 0x01 0xe3 0x00, HD 0x17 0x01 0xe3 0x00, HD 0x28 0x01 0xe3 0x01,
     HD 0x02 0x01 0xe5 0x00, HD 0x09 0x01 0xe5 0x00, HD 0x17 0x01 0xe5 0x00, HD 0x28 0x01 0xe5 0x01],
    [HD 0x03 0x01 0xd8 0x00, HD 0x06 0x01 0xd8 0x00, HD 0x0a 0x01 0xd8 0x00, HD 0x0f 0x01 0xd8 0x00,
     HD 0x18 0x01 0xd8 0x00, HD 0x1f 0x01 0xd8 0x00, HD 0x29 0x01 0xd8 0x00, HD 0x38 0x01 0xd8 0x01,
     HD 0x03 0x01 0xd9 0x00, HD 0x06 0x01 0xd9 0x00, HD 0x0a 0x01 0xd9 0x00, HD 0x0f 0x01 0xd9 0x00,
     HD 0x18 0x01 0xd9 0x00, HD 0x1f 0x01 0xd9 0x00, HD 0x29 0x01 0xd9 0x00, HD 0x38 0x01 0xd9 0x01],
    [HD 0x03 0x01 0xe3 0x00, HD 0x06 0x01 0xe3 0x00, HD 0x0a 0x01 0xe3 0x00, HD 0x0f 0x01 0xe3 0x00,
     HD 0x18 0x01 0xe3 0x00, HD 0x1f 0x01 0xe3 0x00, HD 0x29 0x01 0xe3 0x00, HD 0x38 0x01 0xe3 0x01,
     HD 0x03 0x01 0xe5 0x00, HD 0x06 0x01 0xe5 0x00, HD 0x0a 0x01 0xe5 0x00, HD 0x0f 0x01 0xe5 0x00,
     HD 0x18 0x01 0xe5 0x00, HD 0x1f 0x01 0xe5 0x00, HD 0x29 0x01 0xe5 0x00, HD 0x38 0x01 0xe5 0x01],
    [HD 0x01 0x01 0xe6 0x00, HD 0x16 0x01 0xe6 0x01, HD 0x00 0x01 0x81 0x01, HD 0x00 0x01 0x84 0x01,
     HD 0x00 0x01 0x85 0x01, HD 0x00 0x01 0x86 0x01, HD 0x00 0x01 0x88 0x01, HD 0x00 0x01 0x92 0x01,
     HD 0x00 0x01 0x9a 0x01, HD 0x00 0x01 0x9c 0x01, HD 0x00 0x01 0xa0 0x01, HD 0x00 0x01 0xa3 0x01,
     HD 0x00 0x01 0xa4 0x01, HD 0x00 0x01 0xa9 0x01, HD 0x00 0x01 0xaa 0x01, HD 0x00 0x01 0xad 0x01]]"

definition huff_decode_codes_120 :: "huff_decode_code list list" where
  "huff_decode_codes_120 = [
    [HD 0x02 0x01 0xe6 0x00, HD 0x09 0x01 0xe6 0x00, HD 0x17 0x01 0xe6 0x00, HD 0x28 0x01 0xe6 0x01,
     HD 0x01 0x01 0x81 0x00, HD 0x16 0x01 0x81 0x01, HD 0x01 0x01 0x84 0x00, HD 0x16 0x01 0x84 0x01,
     HD 0x01 0x01 0x85 0x00, HD 0x16 0x01 0x85 0x01, HD 0x01 0x01 0x86 0x00, HD 0x16 0x01 0x86 0x01,
     HD 0x01 0x01 0x88 0x00, HD 0x16 0x01 0x88 0x01, HD 0x01 0x01 0x92 0x00, HD 0x16 0x01 0x92 0x01],
    [HD 0x03 0x01 0xe6 0x00, HD 0x06 0x01 0xe6 0x00, HD 0x0a 0x01 0xe6 0x00, HD 0x0f 0x01 0xe6 0x00,
     HD 0x18 0x01 0xe6 0x00, HD 0x1f 0x01 0xe6 0x00, HD 0x29 0x01 0xe6 0x00, HD 0x38 0x01 0xe6 0x01,
     HD 0x02 0x01 0x81 0x00, HD 0x09 0x01 0x81 0x00, HD 0x17 0x01 0x81 0x00, HD 0x28 0x01 0x81 0x01,
     HD 0x02 0x01 0x84 0x00, HD 0x09 0x01 0x84 0x00, HD 0x17 0x01 0x84 0x00, HD 0x28 0x01 0x84 0x01],
    [HD 0x03 0x01 0x81 0x00, HD 0x06 0x01 0x81 0x00, HD 0x0a 0x01 0x81 0x00, HD 0x0f 0x01 0x81 0x00,
     HD 0x18 0x01 0x81 0x00, HD 0x1f 0x01 0x81 0x00, HD 0x29 0x01 0x81 0x00, HD 0x38 0x01 0x81 0x01,
     HD 0x03 0x01 0x84 0x00, HD 0x06 0x01 0x84 0x00, HD 0x0a 0x01 0x84 0x00, HD 0x0f 0x01 0x84 0x00,
     HD 0x18 0x01 0x84 0x00, HD 0x1f 0x01 0x84 0x00, HD 0x29 0x01 0x84 0x00, HD 0x38 0x01 0x84 0x01],
    [HD 0x02 0x01 0x85 0x00, HD 0x09 0x01 0x85 0x00, HD 0x17 0x01 0x85 0x00, HD 0x28 0x01 0x85 0x01,
     HD 0x02 0x01 0x86 0x00, HD 0x09 0x01 0x86 0x00, HD 0x17 0x01 0x86 0x00, HD 0x28 0x01 0x86 0x01,
     HD 0x02 0x01 0x88 0x00, HD 0x09 0x01 0x88 0x00, HD 0x17 0x01 0x88 0x00, HD 0x28 0x01 0x88 0x01,
     HD 0x02 0x01 0x92 0x00, HD 0x09 0x01 0x92 0x00, HD 0x17 0x01 0x92 0x00, HD 0x28 0x01 0x92 0x01],
    [HD 0x03 0x01 0x85 0x00, HD 0x06 0x01 0x85 0x00, HD 0x0a 0x01 0x85 0x00, HD 0x0f 0x01 0x85 0x00,
     HD 0x18 0x01 0x85 0x00, HD 0x1f 0x01 0x85 0x00, HD 0x29 0x01 0x85 0x00, HD 0x38 0x01 0x85 0x01,
     HD 0x03 0x01 0x86 0x00, HD 0x06 0x01 0x86 0x00, HD 0x0a 0x01 0x86 0x00, HD 0x0f 0x01 0x86 0x00,
     HD 0x18 0x01 0x86 0x00, HD 0x1f 0x01 0x86 0x00, HD 0x29 0x01 0x86 0x00, HD 0x38 0x01 0x86 0x01],
    [HD 0x03 0x01 0x88 0x00, HD 0x06 0x01 0x88 0x00, HD 0x0a 0x01 0x88 0x00, HD 0x0f 0x01 0x88 0x00,
     HD 0x18 0x01 0x88 0x00, HD 0x1f 0x01 0x88 0x00, HD 0x29 0x01 0x88 0x00, HD 0x38 0x01 0x88 0x01,
     HD 0x03 0x01 0x92 0x00, HD 0x06 0x01 0x92 0x00, HD 0x0a 0x01 0x92 0x00, HD 0x0f 0x01 0x92 0x00,
     HD 0x18 0x01 0x92 0x00, HD 0x1f 0x01 0x92 0x00, HD 0x29 0x01 0x92 0x00, HD 0x38 0x01 0x92 0x01],
    [HD 0x01 0x01 0x9a 0x00, HD 0x16 0x01 0x9a 0x01, HD 0x01 0x01 0x9c 0x00, HD 0x16 0x01 0x9c 0x01,
     HD 0x01 0x01 0xa0 0x00, HD 0x16 0x01 0xa0 0x01, HD 0x01 0x01 0xa3 0x00, HD 0x16 0x01 0xa3 0x01,
     HD 0x01 0x01 0xa4 0x00, HD 0x16 0x01 0xa4 0x01, HD 0x01 0x01 0xa9 0x00, HD 0x16 0x01 0xa9 0x01,
     HD 0x01 0x01 0xaa 0x00, HD 0x16 0x01 0xaa 0x01, HD 0x01 0x01 0xad 0x00, HD 0x16 0x01 0xad 0x01],
    [HD 0x02 0x01 0x9a 0x00, HD 0x09 0x01 0x9a 0x00, HD 0x17 0x01 0x9a 0x00, HD 0x28 0x01 0x9a 0x01,
     HD 0x02 0x01 0x9c 0x00, HD 0x09 0x01 0x9c 0x00, HD 0x17 0x01 0x9c 0x00, HD 0x28 0x01 0x9c 0x01,
     HD 0x02 0x01 0xa0 0x00, HD 0x09 0x01 0xa0 0x00, HD 0x17 0x01 0xa0 0x00, HD 0x28 0x01 0xa0 0x01,
     HD 0x02 0x01 0xa3 0x00, HD 0x09 0x01 0xa3 0x00, HD 0x17 0x01 0xa3 0x00, HD 0x28 0x01 0xa3 0x01]]"

definition huff_decode_codes_128 :: "huff_decode_code list list" where
  "huff_decode_codes_128 = [
    [HD 0x03 0x01 0x9a 0x00, HD 0x06 0x01 0x9a 0x00, HD 0x0a 0x01 0x9a 0x00, HD 0x0f 0x01 0x9a 0x00,
     HD 0x18 0x01 0x9a 0x00, HD 0x1f 0x01 0x9a 0x00, HD 0x29 0x01 0x9a 0x00, HD 0x38 0x01 0x9a 0x01,
     HD 0x03 0x01 0x9c 0x00, HD 0x06 0x01 0x9c 0x00, HD 0x0a 0x01 0x9c 0x00, HD 0x0f 0x01 0x9c 0x00,
     HD 0x18 0x01 0x9c 0x00, HD 0x1f 0x01 0x9c 0x00, HD 0x29 0x01 0x9c 0x00, HD 0x38 0x01 0x9c 0x01],
    [HD 0x03 0x01 0xa0 0x00, HD 0x06 0x01 0xa0 0x00, HD 0x0a 0x01 0xa0 0x00, HD 0x0f 0x01 0xa0 0x00,
     HD 0x18 0x01 0xa0 0x00, HD 0x1f 0x01 0xa0 0x00, HD 0x29 0x01 0xa0 0x00, HD 0x38 0x01 0xa0 0x01,
     HD 0x03 0x01 0xa3 0x00, HD 0x06 0x01 0xa3 0x00, HD 0x0a 0x01 0xa3 0x00, HD 0x0f 0x01 0xa3 0x00,
     HD 0x18 0x01 0xa3 0x00, HD 0x1f 0x01 0xa3 0x00, HD 0x29 0x01 0xa3 0x00, HD 0x38 0x01 0xa3 0x01],
    [HD 0x02 0x01 0xa4 0x00, HD 0x09 0x01 0xa4 0x00, HD 0x17 0x01 0xa4 0x00, HD 0x28 0x01 0xa4 0x01,
     HD 0x02 0x01 0xa9 0x00, HD 0x09 0x01 0xa9 0x00, HD 0x17 0x01 0xa9 0x00, HD 0x28 0x01 0xa9 0x01,
     HD 0x02 0x01 0xaa 0x00, HD 0x09 0x01 0xaa 0x00, HD 0x17 0x01 0xaa 0x00, HD 0x28 0x01 0xaa 0x01,
     HD 0x02 0x01 0xad 0x00, HD 0x09 0x01 0xad 0x00, HD 0x17 0x01 0xad 0x00, HD 0x28 0x01 0xad 0x01],
    [HD 0x03 0x01 0xa4 0x00, HD 0x06 0x01 0xa4 0x00, HD 0x0a 0x01 0xa4 0x00, HD 0x0f 0x01 0xa4 0x00,
     HD 0x18 0x01 0xa4 0x00, HD 0x1f 0x01 0xa4 0x00, HD 0x29 0x01 0xa4 0x00, HD 0x38 0x01 0xa4 0x01,
     HD 0x03 0x01 0xa9 0x00, HD 0x06 0x01 0xa9 0x00, HD 0x0a 0x01 0xa9 0x00, HD 0x0f 0x01 0xa9 0x00,
     HD 0x18 0x01 0xa9 0x00, HD 0x1f 0x01 0xa9 0x00, HD 0x29 0x01 0xa9 0x00, HD 0x38 0x01 0xa9 0x01],
    [HD 0x03 0x01 0xaa 0x00, HD 0x06 0x01 0xaa 0x00, HD 0x0a 0x01 0xaa 0x00, HD 0x0f 0x01 0xaa 0x00,
     HD 0x18 0x01 0xaa 0x00, HD 0x1f 0x01 0xaa 0x00, HD 0x29 0x01 0xaa 0x00, HD 0x38 0x01 0xaa 0x01,
     HD 0x03 0x01 0xad 0x00, HD 0x06 0x01 0xad 0x00, HD 0x0a 0x01 0xad 0x00, HD 0x0f 0x01 0xad 0x00,
     HD 0x18 0x01 0xad 0x00, HD 0x1f 0x01 0xad 0x00, HD 0x29 0x01 0xad 0x00, HD 0x38 0x01 0xad 0x01],
    [HD 0x89 0x00 0x00 0x00, HD 0x8a 0x00 0x00 0x00, HD 0x8c 0x00 0x00 0x00, HD 0x8d 0x00 0x00 0x00,
     HD 0x90 0x00 0x00 0x00, HD 0x91 0x00 0x00 0x00, HD 0x93 0x00 0x00 0x00, HD 0x96 0x00 0x00 0x00,
     HD 0x9c 0x00 0x00 0x00, HD 0x9f 0x00 0x00 0x00, HD 0xa3 0x00 0x00 0x00, HD 0xa6 0x00 0x00 0x00,
     HD 0xab 0x00 0x00 0x00, HD 0xae 0x00 0x00 0x00, HD 0xb5 0x00 0x00 0x00, HD 0xbe 0x00 0x00 0x01],
    [HD 0x00 0x01 0xb2 0x01, HD 0x00 0x01 0xb5 0x01, HD 0x00 0x01 0xb9 0x01, HD 0x00 0x01 0xba 0x01,
     HD 0x00 0x01 0xbb 0x01, HD 0x00 0x01 0xbd 0x01, HD 0x00 0x01 0xbe 0x01, HD 0x00 0x01 0xc4 0x01,
     HD 0x00 0x01 0xc6 0x01, HD 0x00 0x01 0xe4 0x01, HD 0x00 0x01 0xe8 0x01, HD 0x00 0x01 0xe9 0x01,
     HD 0x94 0x00 0x00 0x00, HD 0x95 0x00 0x00 0x00, HD 0x97 0x00 0x00 0x00, HD 0x98 0x00 0x00 0x00],
    [HD 0x01 0x01 0xb2 0x00, HD 0x16 0x01 0xb2 0x01, HD 0x01 0x01 0xb5 0x00, HD 0x16 0x01 0xb5 0x01,
     HD 0x01 0x01 0xb9 0x00, HD 0x16 0x01 0xb9 0x01, HD 0x01 0x01 0xba 0x00, HD 0x16 0x01 0xba 0x01,
     HD 0x01 0x01 0xbb 0x00, HD 0x16 0x01 0xbb 0x01, HD 0x01 0x01 0xbd 0x00, HD 0x16 0x01 0xbd 0x01,
     HD 0x01 0x01 0xbe 0x00, HD 0x16 0x01 0xbe 0x01, HD 0x01 0x01 0xc4 0x00, HD 0x16 0x01 0xc4 0x01]]"

definition huff_decode_codes_136 :: "huff_decode_code list list" where
  "huff_decode_codes_136 = [
    [HD 0x02 0x01 0xb2 0x00, HD 0x09 0x01 0xb2 0x00, HD 0x17 0x01 0xb2 0x00, HD 0x28 0x01 0xb2 0x01,
     HD 0x02 0x01 0xb5 0x00, HD 0x09 0x01 0xb5 0x00, HD 0x17 0x01 0xb5 0x00, HD 0x28 0x01 0xb5 0x01,
     HD 0x02 0x01 0xb9 0x00, HD 0x09 0x01 0xb9 0x00, HD 0x17 0x01 0xb9 0x00, HD 0x28 0x01 0xb9 0x01,
     HD 0x02 0x01 0xba 0x00, HD 0x09 0x01 0xba 0x00, HD 0x17 0x01 0xba 0x00, HD 0x28 0x01 0xba 0x01],
    [HD 0x03 0x01 0xb2 0x00, HD 0x06 0x01 0xb2 0x00, HD 0x0a 0x01 0xb2 0x00, HD 0x0f 0x01 0xb2 0x00,
     HD 0x18 0x01 0xb2 0x00, HD 0x1f 0x01 0xb2 0x00, HD 0x29 0x01 0xb2 0x00, HD 0x38 0x01 0xb2 0x01,
     HD 0x03 0x01 0xb5 0x00, HD 0x06 0x01 0xb5 0x00, HD 0x0a 0x01 0xb5 0x00, HD 0x0f 0x01 0xb5 0x00,
     HD 0x18 0x01 0xb5 0x00, HD 0x1f 0x01 0xb5 0x00, HD 0x29 0x01 0xb5 0x00, HD 0x38 0x01 0xb5 0x01],
    [HD 0x03 0x01 0xb9 0x00, HD 0x06 0x01 0xb9 0x00, HD 0x0a 0x01 0xb9 0x00, HD 0x0f 0x01 0xb9 0x00,
     HD 0x18 0x01 0xb9 0x00, HD 0x1f 0x01 0xb9 0x00, HD 0x29 0x01 0xb9 0x00, HD 0x38 0x01 0xb9 0x01,
     HD 0x03 0x01 0xba 0x00, HD 0x06 0x01 0xba 0x00, HD 0x0a 0x01 0xba 0x00, HD 0x0f 0x01 0xba 0x00,
     HD 0x18 0x01 0xba 0x00, HD 0x1f 0x01 0xba 0x00, HD 0x29 0x01 0xba 0x00, HD 0x38 0x01 0xba 0x01],
    [HD 0x02 0x01 0xbb 0x00, HD 0x09 0x01 0xbb 0x00, HD 0x17 0x01 0xbb 0x00, HD 0x28 0x01 0xbb 0x01,
     HD 0x02 0x01 0xbd 0x00, HD 0x09 0x01 0xbd 0x00, HD 0x17 0x01 0xbd 0x00, HD 0x28 0x01 0xbd 0x01,
     HD 0x02 0x01 0xbe 0x00, HD 0x09 0x01 0xbe 0x00, HD 0x17 0x01 0xbe 0x00, HD 0x28 0x01 0xbe 0x01,
     HD 0x02 0x01 0xc4 0x00, HD 0x09 0x01 0xc4 0x00, HD 0x17 0x01 0xc4 0x00, HD 0x28 0x01 0xc4 0x01],
    [HD 0x03 0x01 0xbb 0x00, HD 0x06 0x01 0xbb 0x00, HD 0x0a 0x01 0xbb 0x00, HD 0x0f 0x01 0xbb 0x00,
     HD 0x18 0x01 0xbb 0x00, HD 0x1f 0x01 0xbb 0x00, HD 0x29 0x01 0xbb 0x00, HD 0x38 0x01 0xbb 0x01,
     HD 0x03 0x01 0xbd 0x00, HD 0x06 0x01 0xbd 0x00, HD 0x0a 0x01 0xbd 0x00, HD 0x0f 0x01 0xbd 0x00,
     HD 0x18 0x01 0xbd 0x00, HD 0x1f 0x01 0xbd 0x00, HD 0x29 0x01 0xbd 0x00, HD 0x38 0x01 0xbd 0x01],
    [HD 0x03 0x01 0xbe 0x00, HD 0x06 0x01 0xbe 0x00, HD 0x0a 0x01 0xbe 0x00, HD 0x0f 0x01 0xbe 0x00,
     HD 0x18 0x01 0xbe 0x00, HD 0x1f 0x01 0xbe 0x00, HD 0x29 0x01 0xbe 0x00, HD 0x38 0x01 0xbe 0x01,
     HD 0x03 0x01 0xc4 0x00, HD 0x06 0x01 0xc4 0x00, HD 0x0a 0x01 0xc4 0x00, HD 0x0f 0x01 0xc4 0x00,
     HD 0x18 0x01 0xc4 0x00, HD 0x1f 0x01 0xc4 0x00, HD 0x29 0x01 0xc4 0x00, HD 0x38 0x01 0xc4 0x01],
    [HD 0x01 0x01 0xc6 0x00, HD 0x16 0x01 0xc6 0x01, HD 0x01 0x01 0xe4 0x00, HD 0x16 0x01 0xe4 0x01,
     HD 0x01 0x01 0xe8 0x00, HD 0x16 0x01 0xe8 0x01, HD 0x01 0x01 0xe9 0x00, HD 0x16 0x01 0xe9 0x01,
     HD 0x00 0x01 0x01 0x01, HD 0x00 0x01 0x87 0x01, HD 0x00 0x01 0x89 0x01, HD 0x00 0x01 0x8a 0x01,
     HD 0x00 0x01 0x8b 0x01, HD 0x00 0x01 0x8c 0x01, HD 0x00 0x01 0x8d 0x01, HD 0x00 0x01 0x8f 0x01],
    [HD 0x02 0x01 0xc6 0x00, HD 0x09 0x01 0xc6 0x00, HD 0x17 0x01 0xc6 0x00, HD 0x28 0x01 0xc6 0x01,
     HD 0x02 0x01 0xe4 0x00, HD 0x09 0x01 0xe4 0x00, HD 0x17 0x01 0xe4 0x00, HD 0x28 0x01 0xe4 0x01,
     HD 0x02 0x01 0xe8 0x00, HD 0x09 0x01 0xe8 0x00, HD 0x17 0x01 0xe8 0x00, HD 0x28 0x01 0xe8 0x01,
     HD 0x02 0x01 0xe9 0x00, HD 0x09 0x01 0xe9 0x00, HD 0x17 0x01 0xe9 0x00, HD 0x28 0x01 0xe9 0x01]]"

definition huff_decode_codes_144 :: "huff_decode_code list list" where
  "huff_decode_codes_144 = [
    [HD 0x03 0x01 0xc6 0x00, HD 0x06 0x01 0xc6 0x00, HD 0x0a 0x01 0xc6 0x00, HD 0x0f 0x01 0xc6 0x00,
     HD 0x18 0x01 0xc6 0x00, HD 0x1f 0x01 0xc6 0x00, HD 0x29 0x01 0xc6 0x00, HD 0x38 0x01 0xc6 0x01,
     HD 0x03 0x01 0xe4 0x00, HD 0x06 0x01 0xe4 0x00, HD 0x0a 0x01 0xe4 0x00, HD 0x0f 0x01 0xe4 0x00,
     HD 0x18 0x01 0xe4 0x00, HD 0x1f 0x01 0xe4 0x00, HD 0x29 0x01 0xe4 0x00, HD 0x38 0x01 0xe4 0x01],
    [HD 0x03 0x01 0xe8 0x00, HD 0x06 0x01 0xe8 0x00, HD 0x0a 0x01 0xe8 0x00, HD 0x0f 0x01 0xe8 0x00,
     HD 0x18 0x01 0xe8 0x00, HD 0x1f 0x01 0xe8 0x00, HD 0x29 0x01 0xe8 0x00, HD 0x38 0x01 0xe8 0x01,
     HD 0x03 0x01 0xe9 0x00, HD 0x06 0x01 0xe9 0x00, HD 0x0a 0x01 0xe9 0x00, HD 0x0f 0x01 0xe9 0x00,
     HD 0x18 0x01 0xe9 0x00, HD 0x1f 0x01 0xe9 0x00, HD 0x29 0x01 0xe9 0x00, HD 0x38 0x01 0xe9 0x01],
    [HD 0x01 0x01 0x01 0x00, HD 0x16 0x01 0x01 0x01, HD 0x01 0x01 0x87 0x00, HD 0x16 0x01 0x87 0x01,
     HD 0x01 0x01 0x89 0x00, HD 0x16 0x01 0x89 0x01, HD 0x01 0x01 0x8a 0x00, HD 0x16 0x01 0x8a 0x01,
     HD 0x01 0x01 0x8b 0x00, HD 0x16 0x01 0x8b 0x01, HD 0x01 0x01 0x8c 0x00, HD 0x16 0x01 0x8c 0x01,
     HD 0x01 0x01 0x8d 0x00, HD 0x16 0x01 0x8d 0x01, HD 0x01 0x01 0x8f 0x00, HD 0x16 0x01 0x8f 0x01],
    [HD 0x02 0x01 0x01 0x00, HD 0x09 0x01 0x01 0x00, HD 0x17 0x01 0x01 0x00, HD 0x28 0x01 0x01 0x01,
     HD 0x02 0x01 0x87 0x00, HD 0x09 0x01 0x87 0x00, HD 0x17 0x01 0x87 0x00, HD 0x28 0x01 0x87 0x01,
     HD 0x02 0x01 0x89 0x00, HD 0x09 0x01 0x89 0x00, HD 0x17 0x01 0x89 0x00, HD 0x28 0x01 0x89 0x01,
     HD 0x02 0x01 0x8a 0x00, HD 0x09 0x01 0x8a 0x00, HD 0x17 0x01 0x8a 0x00, HD 0x28 0x01 0x8a 0x01],
    [HD 0x03 0x01 0x01 0x00, HD 0x06 0x01 0x01 0x00, HD 0x0a 0x01 0x01 0x00, HD 0x0f 0x01 0x01 0x00,
     HD 0x18 0x01 0x01 0x00, HD 0x1f 0x01 0x01 0x00, HD 0x29 0x01 0x01 0x00, HD 0x38 0x01 0x01 0x01,
     HD 0x03 0x01 0x87 0x00, HD 0x06 0x01 0x87 0x00, HD 0x0a 0x01 0x87 0x00, HD 0x0f 0x01 0x87 0x00,
     HD 0x18 0x01 0x87 0x00, HD 0x1f 0x01 0x87 0x00, HD 0x29 0x01 0x87 0x00, HD 0x38 0x01 0x87 0x01],
    [HD 0x03 0x01 0x89 0x00, HD 0x06 0x01 0x89 0x00, HD 0x0a 0x01 0x89 0x00, HD 0x0f 0x01 0x89 0x00,
     HD 0x18 0x01 0x89 0x00, HD 0x1f 0x01 0x89 0x00, HD 0x29 0x01 0x89 0x00, HD 0x38 0x01 0x89 0x01,
     HD 0x03 0x01 0x8a 0x00, HD 0x06 0x01 0x8a 0x00, HD 0x0a 0x01 0x8a 0x00, HD 0x0f 0x01 0x8a 0x00,
     HD 0x18 0x01 0x8a 0x00, HD 0x1f 0x01 0x8a 0x00, HD 0x29 0x01 0x8a 0x00, HD 0x38 0x01 0x8a 0x01],
    [HD 0x02 0x01 0x8b 0x00, HD 0x09 0x01 0x8b 0x00, HD 0x17 0x01 0x8b 0x00, HD 0x28 0x01 0x8b 0x01,
     HD 0x02 0x01 0x8c 0x00, HD 0x09 0x01 0x8c 0x00, HD 0x17 0x01 0x8c 0x00, HD 0x28 0x01 0x8c 0x01,
     HD 0x02 0x01 0x8d 0x00, HD 0x09 0x01 0x8d 0x00, HD 0x17 0x01 0x8d 0x00, HD 0x28 0x01 0x8d 0x01,
     HD 0x02 0x01 0x8f 0x00, HD 0x09 0x01 0x8f 0x00, HD 0x17 0x01 0x8f 0x00, HD 0x28 0x01 0x8f 0x01],
    [HD 0x03 0x01 0x8b 0x00, HD 0x06 0x01 0x8b 0x00, HD 0x0a 0x01 0x8b 0x00, HD 0x0f 0x01 0x8b 0x00,
     HD 0x18 0x01 0x8b 0x00, HD 0x1f 0x01 0x8b 0x00, HD 0x29 0x01 0x8b 0x00, HD 0x38 0x01 0x8b 0x01,
     HD 0x03 0x01 0x8c 0x00, HD 0x06 0x01 0x8c 0x00, HD 0x0a 0x01 0x8c 0x00, HD 0x0f 0x01 0x8c 0x00,
     HD 0x18 0x01 0x8c 0x00, HD 0x1f 0x01 0x8c 0x00, HD 0x29 0x01 0x8c 0x00, HD 0x38 0x01 0x8c 0x01]]"

definition huff_decode_codes_152 :: "huff_decode_code list list" where
  "huff_decode_codes_152 = [
    [HD 0x03 0x01 0x8d 0x00, HD 0x06 0x01 0x8d 0x00, HD 0x0a 0x01 0x8d 0x00, HD 0x0f 0x01 0x8d 0x00,
     HD 0x18 0x01 0x8d 0x00, HD 0x1f 0x01 0x8d 0x00, HD 0x29 0x01 0x8d 0x00, HD 0x38 0x01 0x8d 0x01,
     HD 0x03 0x01 0x8f 0x00, HD 0x06 0x01 0x8f 0x00, HD 0x0a 0x01 0x8f 0x00, HD 0x0f 0x01 0x8f 0x00,
     HD 0x18 0x01 0x8f 0x00, HD 0x1f 0x01 0x8f 0x00, HD 0x29 0x01 0x8f 0x00, HD 0x38 0x01 0x8f 0x01],
    [HD 0x9d 0x00 0x00 0x00, HD 0x9e 0x00 0x00 0x00, HD 0xa0 0x00 0x00 0x00, HD 0xa1 0x00 0x00 0x00,
     HD 0xa4 0x00 0x00 0x00, HD 0xa5 0x00 0x00 0x00, HD 0xa7 0x00 0x00 0x00, HD 0xa8 0x00 0x00 0x00,
     HD 0xac 0x00 0x00 0x00, HD 0xad 0x00 0x00 0x00, HD 0xaf 0x00 0x00 0x00, HD 0xb1 0x00 0x00 0x00,
     HD 0xb6 0x00 0x00 0x00, HD 0xb9 0x00 0x00 0x00, HD 0xbf 0x00 0x00 0x00, HD 0xcf 0x00 0x00 0x01],
    [HD 0x00 0x01 0x93 0x01, HD 0x00 0x01 0x95 0x01, HD 0x00 0x01 0x96 0x01, HD 0x00 0x01 0x97 0x01,
     HD 0x00 0x01 0x98 0x01, HD 0x00 0x01 0x9b 0x01, HD 0x00 0x01 0x9d 0x01, HD 0x00 0x01 0x9e 0x01,
     HD 0x00 0x01 0xa5 0x01, HD 0x00 0x01 0xa6 0x01, HD 0x00 0x01 0xa8 0x01, HD 0x00 0x01 0xae 0x01,
     HD 0x00 0x01 0xaf 0x01, HD 0x00 0x01 0xb4 0x01, HD 0x00 0x01 0xb6 0x01, HD 0x00 0x01 0xb7 0x01],
    [HD 0x01 0x01 0x93 0x00, HD 0x16 0x01 0x93 0x01, HD 0x01 0x01 0x95 0x00, HD 0x16 0x01 0x95 0x01,
     HD 0x01 0x01 0x96 0x00, HD 0x16 0x01 0x96 0x01, HD 0x01 0x01 0x97 0x00, HD 0x16 0x01 0x97 0x01,
     HD 0x01 0x01 0x98 0x00, HD 0x16 0x01 0x98 0x01, HD 0x01 0x01 0x9b 0x00, HD 0x16 0x01 0x9b 0x01,
     HD 0x01 0x01 0x9d 0x00, HD 0x16 0x01 0x9d 0x01, HD 0x01 0x01 0x9e 0x00, HD 0x16 0x01 0x9e 0x01],
    [HD 0x02 0x01 0x93 0x00, HD 0x09 0x01 0x93 0x00, HD 0x17 0x01 0x93 0x00, HD 0x28 0x01 0x93 0x01,
     HD 0x02 0x01 0x95 0x00, HD 0x09 0x01 0x95 0x00, HD 0x17 0x01 0x95 0x00, HD 0x28 0x01 0x95 0x01,
     HD 0x02 0x01 0x96 0x00, HD 0x09 0x01 0x96 0x00, HD 0x17 0x01 0x96 0x00, HD 0x28 0x01 0x96 0x01,
     HD 0x02 0x01 0x97 0x00, HD 0x09 0x01 0x97 0x00, HD 0x17 0x01 0x97 0x00, HD 0x28 0x01 0x97 0x01],
    [HD 0x03 0x01 0x93 0x00, HD 0x06 0x01 0x93 0x00, HD 0x0a 0x01 0x93 0x00, HD 0x0f 0x01 0x93 0x00,
     HD 0x18 0x01 0x93 0x00, HD 0x1f 0x01 0x93 0x00, HD 0x29 0x01 0x93 0x00, HD 0x38 0x01 0x93 0x01,
     HD 0x03 0x01 0x95 0x00, HD 0x06 0x01 0x95 0x00, HD 0x0a 0x01 0x95 0x00, HD 0x0f 0x01 0x95 0x00,
     HD 0x18 0x01 0x95 0x00, HD 0x1f 0x01 0x95 0x00, HD 0x29 0x01 0x95 0x00, HD 0x38 0x01 0x95 0x01],
    [HD 0x03 0x01 0x96 0x00, HD 0x06 0x01 0x96 0x00, HD 0x0a 0x01 0x96 0x00, HD 0x0f 0x01 0x96 0x00,
     HD 0x18 0x01 0x96 0x00, HD 0x1f 0x01 0x96 0x00, HD 0x29 0x01 0x96 0x00, HD 0x38 0x01 0x96 0x01,
     HD 0x03 0x01 0x97 0x00, HD 0x06 0x01 0x97 0x00, HD 0x0a 0x01 0x97 0x00, HD 0x0f 0x01 0x97 0x00,
     HD 0x18 0x01 0x97 0x00, HD 0x1f 0x01 0x97 0x00, HD 0x29 0x01 0x97 0x00, HD 0x38 0x01 0x97 0x01],
    [HD 0x02 0x01 0x98 0x00, HD 0x09 0x01 0x98 0x00, HD 0x17 0x01 0x98 0x00, HD 0x28 0x01 0x98 0x01,
     HD 0x02 0x01 0x9b 0x00, HD 0x09 0x01 0x9b 0x00, HD 0x17 0x01 0x9b 0x00, HD 0x28 0x01 0x9b 0x01,
     HD 0x02 0x01 0x9d 0x00, HD 0x09 0x01 0x9d 0x00, HD 0x17 0x01 0x9d 0x00, HD 0x28 0x01 0x9d 0x01,
     HD 0x02 0x01 0x9e 0x00, HD 0x09 0x01 0x9e 0x00, HD 0x17 0x01 0x9e 0x00, HD 0x28 0x01 0x9e 0x01]]"

definition huff_decode_codes_160 :: "huff_decode_code list list" where
  "huff_decode_codes_160 = [
    [HD 0x03 0x01 0x98 0x00, HD 0x06 0x01 0x98 0x00, HD 0x0a 0x01 0x98 0x00, HD 0x0f 0x01 0x98 0x00,
     HD 0x18 0x01 0x98 0x00, HD 0x1f 0x01 0x98 0x00, HD 0x29 0x01 0x98 0x00, HD 0x38 0x01 0x98 0x01,
     HD 0x03 0x01 0x9b 0x00, HD 0x06 0x01 0x9b 0x00, HD 0x0a 0x01 0x9b 0x00, HD 0x0f 0x01 0x9b 0x00,
     HD 0x18 0x01 0x9b 0x00, HD 0x1f 0x01 0x9b 0x00, HD 0x29 0x01 0x9b 0x00, HD 0x38 0x01 0x9b 0x01],
    [HD 0x03 0x01 0x9d 0x00, HD 0x06 0x01 0x9d 0x00, HD 0x0a 0x01 0x9d 0x00, HD 0x0f 0x01 0x9d 0x00,
     HD 0x18 0x01 0x9d 0x00, HD 0x1f 0x01 0x9d 0x00, HD 0x29 0x01 0x9d 0x00, HD 0x38 0x01 0x9d 0x01,
     HD 0x03 0x01 0x9e 0x00, HD 0x06 0x01 0x9e 0x00, HD 0x0a 0x01 0x9e 0x00, HD 0x0f 0x01 0x9e 0x00,
     HD 0x18 0x01 0x9e 0x00, HD 0x1f 0x01 0x9e 0x00, HD 0x29 0x01 0x9e 0x00, HD 0x38 0x01 0x9e 0x01],
    [HD 0x01 0x01 0xa5 0x00, HD 0x16 0x01 0xa5 0x01, HD 0x01 0x01 0xa6 0x00, HD 0x16 0x01 0xa6 0x01,
     HD 0x01 0x01 0xa8 0x00, HD 0x16 0x01 0xa8 0x01, HD 0x01 0x01 0xae 0x00, HD 0x16 0x01 0xae 0x01,
     HD 0x01 0x01 0xaf 0x00, HD 0x16 0x01 0xaf 0x01, HD 0x01 0x01 0xb4 0x00, HD 0x16 0x01 0xb4 0x01,
     HD 0x01 0x01 0xb6 0x00, HD 0x16 0x01 0xb6 0x01, HD 0x01 0x01 0xb7 0x00, HD 0x16 0x01 0xb7 0x01],
    [HD 0x02 0x01 0xa5 0x00, HD 0x09 0x01 0xa5 0x00, HD 0x17 0x01 0xa5 0x00, HD 0x28 0x01 0xa5 0x01,
     HD 0x02 0x01 0xa6 0x00, HD 0x09 0x01 0xa6 0x00, HD 0x17 0x01 0xa6 0x00, HD 0x28 0x01 0xa6 0x01,
     HD 0x02 0x01 0xa8 0x00, HD 0x09 0x01 0xa8 0x00, HD 0x17 0x01 0xa8 0x00, HD 0x28 0x01 0xa8 0x01,
     HD 0x02 0x01 0xae 0x00, HD 0x09 0x01 0xae 0x00, HD 0x17 0x01 0xae 0x00, HD 0x28 0x01 0xae 0x01],
    [HD 0x03 0x01 0xa5 0x00, HD 0x06 0x01 0xa5 0x00, HD 0x0a 0x01 0xa5 0x00, HD 0x0f 0x01 0xa5 0x00,
     HD 0x18 0x01 0xa5 0x00, HD 0x1f 0x01 0xa5 0x00, HD 0x29 0x01 0xa5 0x00, HD 0x38 0x01 0xa5 0x01,
     HD 0x03 0x01 0xa6 0x00, HD 0x06 0x01 0xa6 0x00, HD 0x0a 0x01 0xa6 0x00, HD 0x0f 0x01 0xa6 0x00,
     HD 0x18 0x01 0xa6 0x00, HD 0x1f 0x01 0xa6 0x00, HD 0x29 0x01 0xa6 0x00, HD 0x38 0x01 0xa6 0x01],
    [HD 0x03 0x01 0xa8 0x00, HD 0x06 0x01 0xa8 0x00, HD 0x0a 0x01 0xa8 0x00, HD 0x0f 0x01 0xa8 0x00,
     HD 0x18 0x01 0xa8 0x00, HD 0x1f 0x01 0xa8 0x00, HD 0x29 0x01 0xa8 0x00, HD 0x38 0x01 0xa8 0x01,
     HD 0x03 0x01 0xae 0x00, HD 0x06 0x01 0xae 0x00, HD 0x0a 0x01 0xae 0x00, HD 0x0f 0x01 0xae 0x00,
     HD 0x18 0x01 0xae 0x00, HD 0x1f 0x01 0xae 0x00, HD 0x29 0x01 0xae 0x00, HD 0x38 0x01 0xae 0x01],
    [HD 0x02 0x01 0xaf 0x00, HD 0x09 0x01 0xaf 0x00, HD 0x17 0x01 0xaf 0x00, HD 0x28 0x01 0xaf 0x01,
     HD 0x02 0x01 0xb4 0x00, HD 0x09 0x01 0xb4 0x00, HD 0x17 0x01 0xb4 0x00, HD 0x28 0x01 0xb4 0x01,
     HD 0x02 0x01 0xb6 0x00, HD 0x09 0x01 0xb6 0x00, HD 0x17 0x01 0xb6 0x00, HD 0x28 0x01 0xb6 0x01,
     HD 0x02 0x01 0xb7 0x00, HD 0x09 0x01 0xb7 0x00, HD 0x17 0x01 0xb7 0x00, HD 0x28 0x01 0xb7 0x01],
    [HD 0x03 0x01 0xaf 0x00, HD 0x06 0x01 0xaf 0x00, HD 0x0a 0x01 0xaf 0x00, HD 0x0f 0x01 0xaf 0x00,
     HD 0x18 0x01 0xaf 0x00, HD 0x1f 0x01 0xaf 0x00, HD 0x29 0x01 0xaf 0x00, HD 0x38 0x01 0xaf 0x01,
     HD 0x03 0x01 0xb4 0x00, HD 0x06 0x01 0xb4 0x00, HD 0x0a 0x01 0xb4 0x00, HD 0x0f 0x01 0xb4 0x00,
     HD 0x18 0x01 0xb4 0x00, HD 0x1f 0x01 0xb4 0x00, HD 0x29 0x01 0xb4 0x00, HD 0x38 0x01 0xb4 0x01]]"

definition huff_decode_codes_168 :: "huff_decode_code list list" where
  "huff_decode_codes_168 = [
    [HD 0x03 0x01 0xb6 0x00, HD 0x06 0x01 0xb6 0x00, HD 0x0a 0x01 0xb6 0x00, HD 0x0f 0x01 0xb6 0x00,
     HD 0x18 0x01 0xb6 0x00, HD 0x1f 0x01 0xb6 0x00, HD 0x29 0x01 0xb6 0x00, HD 0x38 0x01 0xb6 0x01,
     HD 0x03 0x01 0xb7 0x00, HD 0x06 0x01 0xb7 0x00, HD 0x0a 0x01 0xb7 0x00, HD 0x0f 0x01 0xb7 0x00,
     HD 0x18 0x01 0xb7 0x00, HD 0x1f 0x01 0xb7 0x00, HD 0x29 0x01 0xb7 0x00, HD 0x38 0x01 0xb7 0x01],
    [HD 0x00 0x01 0xbc 0x01, HD 0x00 0x01 0xbf 0x01, HD 0x00 0x01 0xc5 0x01, HD 0x00 0x01 0xe7 0x01,
     HD 0x00 0x01 0xef 0x01, HD 0xb0 0x00 0x00 0x00, HD 0xb2 0x00 0x00 0x00, HD 0xb3 0x00 0x00 0x00,
     HD 0xb7 0x00 0x00 0x00, HD 0xb8 0x00 0x00 0x00, HD 0xba 0x00 0x00 0x00, HD 0xbb 0x00 0x00 0x00,
     HD 0xc0 0x00 0x00 0x00, HD 0xc7 0x00 0x00 0x00, HD 0xd0 0x00 0x00 0x00, HD 0xdf 0x00 0x00 0x01],
    [HD 0x01 0x01 0xbc 0x00, HD 0x16 0x01 0xbc 0x01, HD 0x01 0x01 0xbf 0x00, HD 0x16 0x01 0xbf 0x01,
     HD 0x01 0x01 0xc5 0x00, HD 0x16 0x01 0xc5 0x01, HD 0x01 0x01 0xe7 0x00, HD 0x16 0x01 0xe7 0x01,
     HD 0x01 0x01 0xef 0x00, HD 0x16 0x01 0xef 0x01, HD 0x00 0x01 0x09 0x01, HD 0x00 0x01 0x8e 0x01,
     HD 0x00 0x01 0x90 0x01, HD 0x00 0x01 0x91 0x01, HD 0x00 0x01 0x94 0x01, HD 0x00 0x01 0x9f 0x01],
    [HD 0x02 0x01 0xbc 0x00, HD 0x09 0x01 0xbc 0x00, HD 0x17 0x01 0xbc 0x00, HD 0x28 0x01 0xbc 0x01,
     HD 0x02 0x01 0xbf 0x00, HD 0x09 0x01 0xbf 0x00, HD 0x17 0x01 0xbf 0x00, HD 0x28 0x01 0xbf 0x01,
     HD 0x02 0x01 0xc5 0x00, HD 0x09 0x01 0xc5 0x00, HD 0x17 0x01 0xc5 0x00, HD 0x28 0x01 0xc5 0x01,
     HD 0x02 0x01 0xe7 0x00, HD 0x09 0x01 0xe7 0x00, HD 0x17 0x01 0xe7 0x00, HD 0x28 0x01 0xe7 0x01],
    [HD 0x03 0x01 0xbc 0x00, HD 0x06 0x01 0xbc 0x00, HD 0x0a 0x01 0xbc 0x00, HD 0x0f 0x01 0xbc 0x00,
     HD 0x18 0x01 0xbc 0x00, HD 0x1f 0x01 0xbc 0x00, HD 0x29 0x01 0xbc 0x00, HD 0x38 0x01 0xbc 0x01,
     HD 0x03 0x01 0xbf 0x00, HD 0x06 0x01 0xbf 0x00, HD 0x0a 0x01 0xbf 0x00, HD 0x0f 0x01 0xbf 0x00,
     HD 0x18 0x01 0xbf 0x00, HD 0x1f 0x01 0xbf 0x00, HD 0x29 0x01 0xbf 0x00, HD 0x38 0x01 0xbf 0x01],
    [HD 0x03 0x01 0xc5 0x00, HD 0x06 0x01 0xc5 0x00, HD 0x0a 0x01 0xc5 0x00, HD 0x0f 0x01 0xc5 0x00,
     HD 0x18 0x01 0xc5 0x00, HD 0x1f 0x01 0xc5 0x00, HD 0x29 0x01 0xc5 0x00, HD 0x38 0x01 0xc5 0x01,
     HD 0x03 0x01 0xe7 0x00, HD 0x06 0x01 0xe7 0x00, HD 0x0a 0x01 0xe7 0x00, HD 0x0f 0x01 0xe7 0x00,
     HD 0x18 0x01 0xe7 0x00, HD 0x1f 0x01 0xe7 0x00, HD 0x29 0x01 0xe7 0x00, HD 0x38 0x01 0xe7 0x01],
    [HD 0x02 0x01 0xef 0x00, HD 0x09 0x01 0xef 0x00, HD 0x17 0x01 0xef 0x00, HD 0x28 0x01 0xef 0x01,
     HD 0x01 0x01 0x09 0x00, HD 0x16 0x01 0x09 0x01, HD 0x01 0x01 0x8e 0x00, HD 0x16 0x01 0x8e 0x01,
     HD 0x01 0x01 0x90 0x00, HD 0x16 0x01 0x90 0x01, HD 0x01 0x01 0x91 0x00, HD 0x16 0x01 0x91 0x01,
     HD 0x01 0x01 0x94 0x00, HD 0x16 0x01 0x94 0x01, HD 0x01 0x01 0x9f 0x00, HD 0x16 0x01 0x9f 0x01],
    [HD 0x03 0x01 0xef 0x00, HD 0x06 0x01 0xef 0x00, HD 0x0a 0x01 0xef 0x00, HD 0x0f 0x01 0xef 0x00,
     HD 0x18 0x01 0xef 0x00, HD 0x1f 0x01 0xef 0x00, HD 0x29 0x01 0xef 0x00, HD 0x38 0x01 0xef 0x01,
     HD 0x02 0x01 0x09 0x00, HD 0x09 0x01 0x09 0x00, HD 0x17 0x01 0x09 0x00, HD 0x28 0x01 0x09 0x01,
     HD 0x02 0x01 0x8e 0x00, HD 0x09 0x01 0x8e 0x00, HD 0x17 0x01 0x8e 0x00, HD 0x28 0x01 0x8e 0x01]]"

definition huff_decode_codes_176 :: "huff_decode_code list list" where
  "huff_decode_codes_176 = [
    [HD 0x03 0x01 0x09 0x00, HD 0x06 0x01 0x09 0x00, HD 0x0a 0x01 0x09 0x00, HD 0x0f 0x01 0x09 0x00,
     HD 0x18 0x01 0x09 0x00, HD 0x1f 0x01 0x09 0x00, HD 0x29 0x01 0x09 0x00, HD 0x38 0x01 0x09 0x01,
     HD 0x03 0x01 0x8e 0x00, HD 0x06 0x01 0x8e 0x00, HD 0x0a 0x01 0x8e 0x00, HD 0x0f 0x01 0x8e 0x00,
     HD 0x18 0x01 0x8e 0x00, HD 0x1f 0x01 0x8e 0x00, HD 0x29 0x01 0x8e 0x00, HD 0x38 0x01 0x8e 0x01],
    [HD 0x02 0x01 0x90 0x00, HD 0x09 0x01 0x90 0x00, HD 0x17 0x01 0x90 0x00, HD 0x28 0x01 0x90 0x01,
     HD 0x02 0x01 0x91 0x00, HD 0x09 0x01 0x91 0x00, HD 0x17 0x01 0x91 0x00, HD 0x28 0x01 0x91 0x01,
     HD 0x02 0x01 0x94 0x00, HD 0x09 0x01 0x94 0x00, HD 0x17 0x01 0x94 0x00, HD 0x28 0x01 0x94 0x01,
     HD 0x02 0x01 0x9f 0x00, HD 0x09 0x01 0x9f 0x00, HD 0x17 0x01 0x9f 0x00, HD 0x28 0x01 0x9f 0x01],
    [HD 0x03 0x01 0x90 0x00, HD 0x06 0x01 0x90 0x00, HD 0x0a 0x01 0x90 0x00, HD 0x0f 0x01 0x90 0x00,
     HD 0x18 0x01 0x90 0x00, HD 0x1f 0x01 0x90 0x00, HD 0x29 0x01 0x90 0x00, HD 0x38 0x01 0x90 0x01,
     HD 0x03 0x01 0x91 0x00, HD 0x06 0x01 0x91 0x00, HD 0x0a 0x01 0x91 0x00, HD 0x0f 0x01 0x91 0x00,
     HD 0x18 0x01 0x91 0x00, HD 0x1f 0x01 0x91 0x00, HD 0x29 0x01 0x91 0x00, HD 0x38 0x01 0x91 0x01],
    [HD 0x03 0x01 0x94 0x00, HD 0x06 0x01 0x94 0x00, HD 0x0a 0x01 0x94 0x00, HD 0x0f 0x01 0x94 0x00,
     HD 0x18 0x01 0x94 0x00, HD 0x1f 0x01 0x94 0x00, HD 0x29 0x01 0x94 0x00, HD 0x38 0x01 0x94 0x01,
     HD 0x03 0x01 0x9f 0x00, HD 0x06 0x01 0x9f 0x00, HD 0x0a 0x01 0x9f 0x00, HD 0x0f 0x01 0x9f 0x00,
     HD 0x18 0x01 0x9f 0x00, HD 0x1f 0x01 0x9f 0x00, HD 0x29 0x01 0x9f 0x00, HD 0x38 0x01 0x9f 0x01],
    [HD 0x00 0x01 0xab 0x01, HD 0x00 0x01 0xce 0x01, HD 0x00 0x01 0xd7 0x01, HD 0x00 0x01 0xe1 0x01,
     HD 0x00 0x01 0xec 0x01, HD 0x00 0x01 0xed 0x01, HD 0xbc 0x00 0x00 0x00, HD 0xbd 0x00 0x00 0x00,
     HD 0xc1 0x00 0x00 0x00, HD 0xc4 0x00 0x00 0x00, HD 0xc8 0x00 0x00 0x00, HD 0xcb 0x00 0x00 0x00,
     HD 0xd1 0x00 0x00 0x00, HD 0xd8 0x00 0x00 0x00, HD 0xe0 0x00 0x00 0x00, HD 0xee 0x00 0x00 0x01],
    [HD 0x01 0x01 0xab 0x00, HD 0x16 0x01 0xab 0x01, HD 0x01 0x01 0xce 0x00, HD 0x16 0x01 0xce 0x01,
     HD 0x01 0x01 0xd7 0x00, HD 0x16 0x01 0xd7 0x01, HD 0x01 0x01 0xe1 0x00, HD 0x16 0x01 0xe1 0x01,
     HD 0x01 0x01 0xec 0x00, HD 0x16 0x01 0xec 0x01, HD 0x01 0x01 0xed 0x00, HD 0x16 0x01 0xed 0x01,
     HD 0x00 0x01 0xc7 0x01, HD 0x00 0x01 0xcf 0x01, HD 0x00 0x01 0xea 0x01, HD 0x00 0x01 0xeb 0x01],
    [HD 0x02 0x01 0xab 0x00, HD 0x09 0x01 0xab 0x00, HD 0x17 0x01 0xab 0x00, HD 0x28 0x01 0xab 0x01,
     HD 0x02 0x01 0xce 0x00, HD 0x09 0x01 0xce 0x00, HD 0x17 0x01 0xce 0x00, HD 0x28 0x01 0xce 0x01,
     HD 0x02 0x01 0xd7 0x00, HD 0x09 0x01 0xd7 0x00, HD 0x17 0x01 0xd7 0x00, HD 0x28 0x01 0xd7 0x01,
     HD 0x02 0x01 0xe1 0x00, HD 0x09 0x01 0xe1 0x00, HD 0x17 0x01 0xe1 0x00, HD 0x28 0x01 0xe1 0x01],
    [HD 0x03 0x01 0xab 0x00, HD 0x06 0x01 0xab 0x00, HD 0x0a 0x01 0xab 0x00, HD 0x0f 0x01 0xab 0x00,
     HD 0x18 0x01 0xab 0x00, HD 0x1f 0x01 0xab 0x00, HD 0x29 0x01 0xab 0x00, HD 0x38 0x01 0xab 0x01,
     HD 0x03 0x01 0xce 0x00, HD 0x06 0x01 0xce 0x00, HD 0x0a 0x01 0xce 0x00, HD 0x0f 0x01 0xce 0x00,
     HD 0x18 0x01 0xce 0x00, HD 0x1f 0x01 0xce 0x00, HD 0x29 0x01 0xce 0x00, HD 0x38 0x01 0xce 0x01]]"

definition huff_decode_codes_184 :: "huff_decode_code list list" where
  "huff_decode_codes_184 = [
    [HD 0x03 0x01 0xd7 0x00, HD 0x06 0x01 0xd7 0x00, HD 0x0a 0x01 0xd7 0x00, HD 0x0f 0x01 0xd7 0x00,
     HD 0x18 0x01 0xd7 0x00, HD 0x1f 0x01 0xd7 0x00, HD 0x29 0x01 0xd7 0x00, HD 0x38 0x01 0xd7 0x01,
     HD 0x03 0x01 0xe1 0x00, HD 0x06 0x01 0xe1 0x00, HD 0x0a 0x01 0xe1 0x00, HD 0x0f 0x01 0xe1 0x00,
     HD 0x18 0x01 0xe1 0x00, HD 0x1f 0x01 0xe1 0x00, HD 0x29 0x01 0xe1 0x00, HD 0x38 0x01 0xe1 0x01],
    [HD 0x02 0x01 0xec 0x00, HD 0x09 0x01 0xec 0x00, HD 0x17 0x01 0xec 0x00, HD 0x28 0x01 0xec 0x01,
     HD 0x02 0x01 0xed 0x00, HD 0x09 0x01 0xed 0x00, HD 0x17 0x01 0xed 0x00, HD 0x28 0x01 0xed 0x01,
     HD 0x01 0x01 0xc7 0x00, HD 0x16 0x01 0xc7 0x01, HD 0x01 0x01 0xcf 0x00, HD 0x16 0x01 0xcf 0x01,
     HD 0x01 0x01 0xea 0x00, HD 0x16 0x01 0xea 0x01, HD 0x01 0x01 0xeb 0x00, HD 0x16 0x01 0xeb 0x01],
    [HD 0x03 0x01 0xec 0x00, HD 0x06 0x01 0xec 0x00, HD 0x0a 0x01 0xec 0x00, HD 0x0f 0x01 0xec 0x00,
     HD 0x18 0x01 0xec 0x00, HD 0x1f 0x01 0xec 0x00, HD 0x29 0x01 0xec 0x00, HD 0x38 0x01 0xec 0x01,
     HD 0x03 0x01 0xed 0x00, HD 0x06 0x01 0xed 0x00, HD 0x0a 0x01 0xed 0x00, HD 0x0f 0x01 0xed 0x00,
     HD 0x18 0x01 0xed 0x00, HD 0x1f 0x01 0xed 0x00, HD 0x29 0x01 0xed 0x00, HD 0x38 0x01 0xed 0x01],
    [HD 0x02 0x01 0xc7 0x00, HD 0x09 0x01 0xc7 0x00, HD 0x17 0x01 0xc7 0x00, HD 0x28 0x01 0xc7 0x01,
     HD 0x02 0x01 0xcf 0x00, HD 0x09 0x01 0xcf 0x00, HD 0x17 0x01 0xcf 0x00, HD 0x28 0x01 0xcf 0x01,
     HD 0x02 0x01 0xea 0x00, HD 0x09 0x01 0xea 0x00, HD 0x17 0x01 0xea 0x00, HD 0x28 0x01 0xea 0x01,
     HD 0x02 0x01 0xeb 0x00, HD 0x09 0x01 0xeb 0x00, HD 0x17 0x01 0xeb 0x00, HD 0x28 0x01 0xeb 0x01],
    [HD 0x03 0x01 0xc7 0x00, HD 0x06 0x01 0xc7 0x00, HD 0x0a 0x01 0xc7 0x00, HD 0x0f 0x01 0xc7 0x00,
     HD 0x18 0x01 0xc7 0x00, HD 0x1f 0x01 0xc7 0x00, HD 0x29 0x01 0xc7 0x00, HD 0x38 0x01 0xc7 0x01,
     HD 0x03 0x01 0xcf 0x00, HD 0x06 0x01 0xcf 0x00, HD 0x0a 0x01 0xcf 0x00, HD 0x0f 0x01 0xcf 0x00,
     HD 0x18 0x01 0xcf 0x00, HD 0x1f 0x01 0xcf 0x00, HD 0x29 0x01 0xcf 0x00, HD 0x38 0x01 0xcf 0x01],
    [HD 0x03 0x01 0xea 0x00, HD 0x06 0x01 0xea 0x00, HD 0x0a 0x01 0xea 0x00, HD 0x0f 0x01 0xea 0x00,
     HD 0x18 0x01 0xea 0x00, HD 0x1f 0x01 0xea 0x00, HD 0x29 0x01 0xea 0x00, HD 0x38 0x01 0xea 0x01,
     HD 0x03 0x01 0xeb 0x00, HD 0x06 0x01 0xeb 0x00, HD 0x0a 0x01 0xeb 0x00, HD 0x0f 0x01 0xeb 0x00,
     HD 0x18 0x01 0xeb 0x00, HD 0x1f 0x01 0xeb 0x00, HD 0x29 0x01 0xeb 0x00, HD 0x38 0x01 0xeb 0x01],
    [HD 0xc2 0x00 0x00 0x00, HD 0xc3 0x00 0x00 0x00, HD 0xc5 0x00 0x00 0x00, HD 0xc6 0x00 0x00 0x00,
     HD 0xc9 0x00 0x00 0x00, HD 0xca 0x00 0x00 0x00, HD 0xcc 0x00 0x00 0x00, HD 0xcd 0x00 0x00 0x00,
     HD 0xd2 0x00 0x00 0x00, HD 0xd5 0x00 0x00 0x00, HD 0xd9 0x00 0x00 0x00, HD 0xdc 0x00 0x00 0x00,
     HD 0xe1 0x00 0x00 0x00, HD 0xe7 0x00 0x00 0x00, HD 0xef 0x00 0x00 0x00, HD 0xf6 0x00 0x00 0x01],
    [HD 0x00 0x01 0xc0 0x01, HD 0x00 0x01 0xc1 0x01, HD 0x00 0x01 0xc8 0x01, HD 0x00 0x01 0xc9 0x01,
     HD 0x00 0x01 0xca 0x01, HD 0x00 0x01 0xcd 0x01, HD 0x00 0x01 0xd2 0x01, HD 0x00 0x01 0xd5 0x01,
     HD 0x00 0x01 0xda 0x01, HD 0x00 0x01 0xdb 0x01, HD 0x00 0x01 0xee 0x01, HD 0x00 0x01 0xf0 0x01,
     HD 0x00 0x01 0xf2 0x01, HD 0x00 0x01 0xf3 0x01, HD 0x00 0x01 0xff 0x01, HD 0xce 0x00 0x00 0x00]]"

definition huff_decode_codes_192 :: "huff_decode_code list list" where
  "huff_decode_codes_192 = [
    [HD 0x01 0x01 0xc0 0x00, HD 0x16 0x01 0xc0 0x01, HD 0x01 0x01 0xc1 0x00, HD 0x16 0x01 0xc1 0x01,
     HD 0x01 0x01 0xc8 0x00, HD 0x16 0x01 0xc8 0x01, HD 0x01 0x01 0xc9 0x00, HD 0x16 0x01 0xc9 0x01,
     HD 0x01 0x01 0xca 0x00, HD 0x16 0x01 0xca 0x01, HD 0x01 0x01 0xcd 0x00, HD 0x16 0x01 0xcd 0x01,
     HD 0x01 0x01 0xd2 0x00, HD 0x16 0x01 0xd2 0x01, HD 0x01 0x01 0xd5 0x00, HD 0x16 0x01 0xd5 0x01],
    [HD 0x02 0x01 0xc0 0x00, HD 0x09 0x01 0xc0 0x00, HD 0x17 0x01 0xc0 0x00, HD 0x28 0x01 0xc0 0x01,
     HD 0x02 0x01 0xc1 0x00, HD 0x09 0x01 0xc1 0x00, HD 0x17 0x01 0xc1 0x00, HD 0x28 0x01 0xc1 0x01,
     HD 0x02 0x01 0xc8 0x00, HD 0x09 0x01 0xc8 0x00, HD 0x17 0x01 0xc8 0x00, HD 0x28 0x01 0xc8 0x01,
     HD 0x02 0x01 0xc9 0x00, HD 0x09 0x01 0xc9 0x00, HD 0x17 0x01 0xc9 0x00, HD 0x28 0x01 0xc9 0x01],
    [HD 0x03 0x01 0xc0 0x00, HD 0x06 0x01 0xc0 0x00, HD 0x0a 0x01 0xc0 0x00, HD 0x0f 0x01 0xc0 0x00,
     HD 0x18 0x01 0xc0 0x00, HD 0x1f 0x01 0xc0 0x00, HD 0x29 0x01 0xc0 0x00, HD 0x38 0x01 0xc0 0x01,
     HD 0x03 0x01 0xc1 0x00, HD 0x06 0x01 0xc1 0x00, HD 0x0a 0x01 0xc1 0x00, HD 0x0f 0x01 0xc1 0x00,
     HD 0x18 0x01 0xc1 0x00, HD 0x1f 0x01 0xc1 0x00, HD 0x29 0x01 0xc1 0x00, HD 0x38 0x01 0xc1 0x01],
    [HD 0x03 0x01 0xc8 0x00, HD 0x06 0x01 0xc8 0x00, HD 0x0a 0x01 0xc8 0x00, HD 0x0f 0x01 0xc8 0x00,
     HD 0x18 0x01 0xc8 0x00, HD 0x1f 0x01 0xc8 0x00, HD 0x29 0x01 0xc8 0x00, HD 0x38 0x01 0xc8 0x01,
     HD 0x03 0x01 0xc9 0x00, HD 0x06 0x01 0xc9 0x00, HD 0x0a 0x01 0xc9 0x00, HD 0x0f 0x01 0xc9 0x00,
     HD 0x18 0x01 0xc9 0x00, HD 0x1f 0x01 0xc9 0x00, HD 0x29 0x01 0xc9 0x00, HD 0x38 0x01 0xc9 0x01],
    [HD 0x02 0x01 0xca 0x00, HD 0x09 0x01 0xca 0x00, HD 0x17 0x01 0xca 0x00, HD 0x28 0x01 0xca 0x01,
     HD 0x02 0x01 0xcd 0x00, HD 0x09 0x01 0xcd 0x00, HD 0x17 0x01 0xcd 0x00, HD 0x28 0x01 0xcd 0x01,
     HD 0x02 0x01 0xd2 0x00, HD 0x09 0x01 0xd2 0x00, HD 0x17 0x01 0xd2 0x00, HD 0x28 0x01 0xd2 0x01,
     HD 0x02 0x01 0xd5 0x00, HD 0x09 0x01 0xd5 0x00, HD 0x17 0x01 0xd5 0x00, HD 0x28 0x01 0xd5 0x01],
    [HD 0x03 0x01 0xca 0x00, HD 0x06 0x01 0xca 0x00, HD 0x0a 0x01 0xca 0x00, HD 0x0f 0x01 0xca 0x00,
     HD 0x18 0x01 0xca 0x00, HD 0x1f 0x01 0xca 0x00, HD 0x29 0x01 0xca 0x00, HD 0x38 0x01 0xca 0x01,
     HD 0x03 0x01 0xcd 0x00, HD 0x06 0x01 0xcd 0x00, HD 0x0a 0x01 0xcd 0x00, HD 0x0f 0x01 0xcd 0x00,
     HD 0x18 0x01 0xcd 0x00, HD 0x1f 0x01 0xcd 0x00, HD 0x29 0x01 0xcd 0x00, HD 0x38 0x01 0xcd 0x01],
    [HD 0x03 0x01 0xd2 0x00, HD 0x06 0x01 0xd2 0x00, HD 0x0a 0x01 0xd2 0x00, HD 0x0f 0x01 0xd2 0x00,
     HD 0x18 0x01 0xd2 0x00, HD 0x1f 0x01 0xd2 0x00, HD 0x29 0x01 0xd2 0x00, HD 0x38 0x01 0xd2 0x01,
     HD 0x03 0x01 0xd5 0x00, HD 0x06 0x01 0xd5 0x00, HD 0x0a 0x01 0xd5 0x00, HD 0x0f 0x01 0xd5 0x00,
     HD 0x18 0x01 0xd5 0x00, HD 0x1f 0x01 0xd5 0x00, HD 0x29 0x01 0xd5 0x00, HD 0x38 0x01 0xd5 0x01],
    [HD 0x01 0x01 0xda 0x00, HD 0x16 0x01 0xda 0x01, HD 0x01 0x01 0xdb 0x00, HD 0x16 0x01 0xdb 0x01,
     HD 0x01 0x01 0xee 0x00, HD 0x16 0x01 0xee 0x01, HD 0x01 0x01 0xf0 0x00, HD 0x16 0x01 0xf0 0x01,
     HD 0x01 0x01 0xf2 0x00, HD 0x16 0x01 0xf2 0x01, HD 0x01 0x01 0xf3 0x00, HD 0x16 0x01 0xf3 0x01,
     HD 0x01 0x01 0xff 0x00, HD 0x16 0x01 0xff 0x01, HD 0x00 0x01 0xcb 0x01, HD 0x00 0x01 0xcc 0x01]]"

definition huff_decode_codes_200 :: "huff_decode_code list list" where
  "huff_decode_codes_200 = [
    [HD 0x02 0x01 0xda 0x00, HD 0x09 0x01 0xda 0x00, HD 0x17 0x01 0xda 0x00, HD 0x28 0x01 0xda 0x01,
     HD 0x02 0x01 0xdb 0x00, HD 0x09 0x01 0xdb 0x00, HD 0x17 0x01 0xdb 0x00, HD 0x28 0x01 0xdb 0x01,
     HD 0x02 0x01 0xee 0x00, HD 0x09 0x01 0xee 0x00, HD 0x17 0x01 0xee 0x00, HD 0x28 0x01 0xee 0x01,
     HD 0x02 0x01 0xf0 0x00, HD 0x09 0x01 0xf0 0x00, HD 0x17 0x01 0xf0 0x00, HD 0x28 0x01 0xf0 0x01],
    [HD 0x03 0x01 0xda 0x00, HD 0x06 0x01 0xda 0x00, HD 0x0a 0x01 0xda 0x00, HD 0x0f 0x01 0xda 0x00,
     HD 0x18 0x01 0xda 0x00, HD 0x1f 0x01 0xda 0x00, HD 0x29 0x01 0xda 0x00, HD 0x38 0x01 0xda 0x01,
     HD 0x03 0x01 0xdb 0x00, HD 0x06 0x01 0xdb 0x00, HD 0x0a 0x01 0xdb 0x00, HD 0x0f 0x01 0xdb 0x00,
     HD 0x18 0x01 0xdb 0x00, HD 0x1f 0x01 0xdb 0x00, HD 0x29 0x01 0xdb 0x00, HD 0x38 0x01 0xdb 0x01],
    [HD 0x03 0x01 0xee 0x00, HD 0x06 0x01 0xee 0x00, HD 0x0a 0x01 0xee 0x00, HD 0x0f 0x01 0xee 0x00,
     HD 0x18 0x01 0xee 0x00, HD 0x1f 0x01 0xee 0x00, HD 0x29 0x01 0xee 0x00, HD 0x38 0x01 0xee 0x01,
     HD 0x03 0x01 0xf0 0x00, HD 0x06 0x01 0xf0 0x00, HD 0x0a 0x01 0xf0 0x00, HD 0x0f 0x01 0xf0 0x00,
     HD 0x18 0x01 0xf0 0x00, HD 0x1f 0x01 0xf0 0x00, HD 0x29 0x01 0xf0 0x00, HD 0x38 0x01 0xf0 0x01],
    [HD 0x02 0x01 0xf2 0x00, HD 0x09 0x01 0xf2 0x00, HD 0x17 0x01 0xf2 0x00, HD 0x28 0x01 0xf2 0x01,
     HD 0x02 0x01 0xf3 0x00, HD 0x09 0x01 0xf3 0x00, HD 0x17 0x01 0xf3 0x00, HD 0x28 0x01 0xf3 0x01,
     HD 0x02 0x01 0xff 0x00, HD 0x09 0x01 0xff 0x00, HD 0x17 0x01 0xff 0x00, HD 0x28 0x01 0xff 0x01,
     HD 0x01 0x01 0xcb 0x00, HD 0x16 0x01 0xcb 0x01, HD 0x01 0x01 0xcc 0x00, HD 0x16 0x01 0xcc 0x01],
    [HD 0x03 0x01 0xf2 0x00, HD 0x06 0x01 0xf2 0x00, HD 0x0a 0x01 0xf2 0x00, HD 0x0f 0x01 0xf2 0x00,
     HD 0x18 0x01 0xf2 0x00, HD 0x1f 0x01 0xf2 0x00, HD 0x29 0x01 0xf2 0x00, HD 0x38 0x01 0xf2 0x01,
     HD 0x03 0x01 0xf3 0x00, HD 0x06 0x01 0xf3 0x00, HD 0x0a 0x01 0xf3 0x00, HD 0x0f 0x01 0xf3 0x00,
     HD 0x18 0x01 0xf3 0x00, HD 0x1f 0x01 0xf3 0x00, HD 0x29 0x01 0xf3 0x00, HD 0x38 0x01 0xf3 0x01],
    [HD 0x03 0x01 0xff 0x00, HD 0x06 0x01 0xff 0x00, HD 0x0a 0x01 0xff 0x00, HD 0x0f 0x01 0xff 0x00,
     HD 0x18 0x01 0xff 0x00, HD 0x1f 0x01 0xff 0x00, HD 0x29 0x01 0xff 0x00, HD 0x38 0x01 0xff 0x01,
     HD 0x02 0x01 0xcb 0x00, HD 0x09 0x01 0xcb 0x00, HD 0x17 0x01 0xcb 0x00, HD 0x28 0x01 0xcb 0x01,
     HD 0x02 0x01 0xcc 0x00, HD 0x09 0x01 0xcc 0x00, HD 0x17 0x01 0xcc 0x00, HD 0x28 0x01 0xcc 0x01],
    [HD 0x03 0x01 0xcb 0x00, HD 0x06 0x01 0xcb 0x00, HD 0x0a 0x01 0xcb 0x00, HD 0x0f 0x01 0xcb 0x00,
     HD 0x18 0x01 0xcb 0x00, HD 0x1f 0x01 0xcb 0x00, HD 0x29 0x01 0xcb 0x00, HD 0x38 0x01 0xcb 0x01,
     HD 0x03 0x01 0xcc 0x00, HD 0x06 0x01 0xcc 0x00, HD 0x0a 0x01 0xcc 0x00, HD 0x0f 0x01 0xcc 0x00,
     HD 0x18 0x01 0xcc 0x00, HD 0x1f 0x01 0xcc 0x00, HD 0x29 0x01 0xcc 0x00, HD 0x38 0x01 0xcc 0x01],
    [HD 0xd3 0x00 0x00 0x00, HD 0xd4 0x00 0x00 0x00, HD 0xd6 0x00 0x00 0x00, HD 0xd7 0x00 0x00 0x00,
     HD 0xda 0x00 0x00 0x00, HD 0xdb 0x00 0x00 0x00, HD 0xdd 0x00 0x00 0x00, HD 0xde 0x00 0x00 0x00,
     HD 0xe2 0x00 0x00 0x00, HD 0xe4 0x00 0x00 0x00, HD 0xe8 0x00 0x00 0x00, HD 0xeb 0x00 0x00 0x00,
     HD 0xf0 0x00 0x00 0x00, HD 0xf3 0x00 0x00 0x00, HD 0xf7 0x00 0x00 0x00, HD 0xfa 0x00 0x00 0x01]]"

definition huff_decode_codes_208 :: "huff_decode_code list list" where
  "huff_decode_codes_208 = [
    [HD 0x00 0x01 0xd3 0x01, HD 0x00 0x01 0xd4 0x01, HD 0x00 0x01 0xd6 0x01, HD 0x00 0x01 0xdd 0x01,
     HD 0x00 0x01 0xde 0x01, HD 0x00 0x01 0xdf 0x01, HD 0x00 0x01 0xf1 0x01, HD 0x00 0x01 0xf4 0x01,
     HD 0x00 0x01 0xf5 0x01, HD 0x00 0x01 0xf6 0x01, HD 0x00 0x01 0xf7 0x01, HD 0x00 0x01 0xf8 0x01,
     HD 0x00 0x01 0xfa 0x01, HD 0x00 0x01 0xfb 0x01, HD 0x00 0x01 0xfc 0x01, HD 0x00 0x01 0xfd 0x01],
    [HD 0x01 0x01 0xd3 0x00, HD 0x16 0x01 0xd3 0x01, HD 0x01 0x01 0xd4 0x00, HD 0x16 0x01 0xd4 0x01,
     HD 0x01 0x01 0xd6 0x00, HD 0x16 0x01 0xd6 0x01, HD 0x01 0x01 0xdd 0x00, HD 0x16 0x01 0xdd 0x01,
     HD 0x01 0x01 0xde 0x00, HD 0x16 0x01 0xde 0x01, HD 0x01 0x01 0xdf 0x00, HD 0x16 0x01 0xdf 0x01,
     HD 0x01 0x01 0xf1 0x00, HD 0x16 0x01 0xf1 0x01, HD 0x01 0x01 0xf4 0x00, HD 0x16 0x01 0xf4 0x01],
    [HD 0x02 0x01 0xd3 0x00, HD 0x09 0x01 0xd3 0x00, HD 0x17 0x01 0xd3 0x00, HD 0x28 0x01 0xd3 0x01,
     HD 0x02 0x01 0xd4 0x00, HD 0x09 0x01 0xd4 0x00, HD 0x17 0x01 0xd4 0x00, HD 0x28 0x01 0xd4 0x01,
     HD 0x02 0x01 0xd6 0x00, HD 0x09 0x01 0xd6 0x00, HD 0x17 0x01 0xd6 0x00, HD 0x28 0x01 0xd6 0x01,
     HD 0x02 0x01 0xdd 0x00, HD 0x09 0x01 0xdd 0x00, HD 0x17 0x01 0xdd 0x00, HD 0x28 0x01 0xdd 0x01],
    [HD 0x03 0x01 0xd3 0x00, HD 0x06 0x01 0xd3 0x00, HD 0x0a 0x01 0xd3 0x00, HD 0x0f 0x01 0xd3 0x00,
     HD 0x18 0x01 0xd3 0x00, HD 0x1f 0x01 0xd3 0x00, HD 0x29 0x01 0xd3 0x00, HD 0x38 0x01 0xd3 0x01,
     HD 0x03 0x01 0xd4 0x00, HD 0x06 0x01 0xd4 0x00, HD 0x0a 0x01 0xd4 0x00, HD 0x0f 0x01 0xd4 0x00,
     HD 0x18 0x01 0xd4 0x00, HD 0x1f 0x01 0xd4 0x00, HD 0x29 0x01 0xd4 0x00, HD 0x38 0x01 0xd4 0x01],
    [HD 0x03 0x01 0xd6 0x00, HD 0x06 0x01 0xd6 0x00, HD 0x0a 0x01 0xd6 0x00, HD 0x0f 0x01 0xd6 0x00,
     HD 0x18 0x01 0xd6 0x00, HD 0x1f 0x01 0xd6 0x00, HD 0x29 0x01 0xd6 0x00, HD 0x38 0x01 0xd6 0x01,
     HD 0x03 0x01 0xdd 0x00, HD 0x06 0x01 0xdd 0x00, HD 0x0a 0x01 0xdd 0x00, HD 0x0f 0x01 0xdd 0x00,
     HD 0x18 0x01 0xdd 0x00, HD 0x1f 0x01 0xdd 0x00, HD 0x29 0x01 0xdd 0x00, HD 0x38 0x01 0xdd 0x01],
    [HD 0x02 0x01 0xde 0x00, HD 0x09 0x01 0xde 0x00, HD 0x17 0x01 0xde 0x00, HD 0x28 0x01 0xde 0x01,
     HD 0x02 0x01 0xdf 0x00, HD 0x09 0x01 0xdf 0x00, HD 0x17 0x01 0xdf 0x00, HD 0x28 0x01 0xdf 0x01,
     HD 0x02 0x01 0xf1 0x00, HD 0x09 0x01 0xf1 0x00, HD 0x17 0x01 0xf1 0x00, HD 0x28 0x01 0xf1 0x01,
     HD 0x02 0x01 0xf4 0x00, HD 0x09 0x01 0xf4 0x00, HD 0x17 0x01 0xf4 0x00, HD 0x28 0x01 0xf4 0x01],
    [HD 0x03 0x01 0xde 0x00, HD 0x06 0x01 0xde 0x00, HD 0x0a 0x01 0xde 0x00, HD 0x0f 0x01 0xde 0x00,
     HD 0x18 0x01 0xde 0x00, HD 0x1f 0x01 0xde 0x00, HD 0x29 0x01 0xde 0x00, HD 0x38 0x01 0xde 0x01,
     HD 0x03 0x01 0xdf 0x00, HD 0x06 0x01 0xdf 0x00, HD 0x0a 0x01 0xdf 0x00, HD 0x0f 0x01 0xdf 0x00,
     HD 0x18 0x01 0xdf 0x00, HD 0x1f 0x01 0xdf 0x00, HD 0x29 0x01 0xdf 0x00, HD 0x38 0x01 0xdf 0x01],
    [HD 0x03 0x01 0xf1 0x00, HD 0x06 0x01 0xf1 0x00, HD 0x0a 0x01 0xf1 0x00, HD 0x0f 0x01 0xf1 0x00,
     HD 0x18 0x01 0xf1 0x00, HD 0x1f 0x01 0xf1 0x00, HD 0x29 0x01 0xf1 0x00, HD 0x38 0x01 0xf1 0x01,
     HD 0x03 0x01 0xf4 0x00, HD 0x06 0x01 0xf4 0x00, HD 0x0a 0x01 0xf4 0x00, HD 0x0f 0x01 0xf4 0x00,
     HD 0x18 0x01 0xf4 0x00, HD 0x1f 0x01 0xf4 0x00, HD 0x29 0x01 0xf4 0x00, HD 0x38 0x01 0xf4 0x01]]"

definition huff_decode_codes_216 :: "huff_decode_code list list" where
  "huff_decode_codes_216 = [
    [HD 0x01 0x01 0xf5 0x00, HD 0x16 0x01 0xf5 0x01, HD 0x01 0x01 0xf6 0x00, HD 0x16 0x01 0xf6 0x01,
     HD 0x01 0x01 0xf7 0x00, HD 0x16 0x01 0xf7 0x01, HD 0x01 0x01 0xf8 0x00, HD 0x16 0x01 0xf8 0x01,
     HD 0x01 0x01 0xfa 0x00, HD 0x16 0x01 0xfa 0x01, HD 0x01 0x01 0xfb 0x00, HD 0x16 0x01 0xfb 0x01,
     HD 0x01 0x01 0xfc 0x00, HD 0x16 0x01 0xfc 0x01, HD 0x01 0x01 0xfd 0x00, HD 0x16 0x01 0xfd 0x01],
    [HD 0x02 0x01 0xf5 0x00, HD 0x09 0x01 0xf5 0x00, HD 0x17 0x01 0xf5 0x00, HD 0x28 0x01 0xf5 0x01,
     HD 0x02 0x01 0xf6 0x00, HD 0x09 0x01 0xf6 0x00, HD 0x17 0x01 0xf6 0x00, HD 0x28 0x01 0xf6 0x01,
     HD 0x02 0x01 0xf7 0x00, HD 0x09 0x01 0xf7 0x00, HD 0x17 0x01 0xf7 0x00, HD 0x28 0x01 0xf7 0x01,
     HD 0x02 0x01 0xf8 0x00, HD 0x09 0x01 0xf8 0x00, HD 0x17 0x01 0xf8 0x00, HD 0x28 0x01 0xf8 0x01],
    [HD 0x03 0x01 0xf5 0x00, HD 0x06 0x01 0xf5 0x00, HD 0x0a 0x01 0xf5 0x00, HD 0x0f 0x01 0xf5 0x00,
     HD 0x18 0x01 0xf5 0x00, HD 0x1f 0x01 0xf5 0x00, HD 0x29 0x01 0xf5 0x00, HD 0x38 0x01 0xf5 0x01,
     HD 0x03 0x01 0xf6 0x00, HD 0x06 0x01 0xf6 0x00, HD 0x0a 0x01 0xf6 0x00, HD 0x0f 0x01 0xf6 0x00,
     HD 0x18 0x01 0xf6 0x00, HD 0x1f 0x01 0xf6 0x00, HD 0x29 0x01 0xf6 0x00, HD 0x38 0x01 0xf6 0x01],
    [HD 0x03 0x01 0xf7 0x00, HD 0x06 0x01 0xf7 0x00, HD 0x0a 0x01 0xf7 0x00, HD 0x0f 0x01 0xf7 0x00,
     HD 0x18 0x01 0xf7 0x00, HD 0x1f 0x01 0xf7 0x00, HD 0x29 0x01 0xf7 0x00, HD 0x38 0x01 0xf7 0x01,
     HD 0x03 0x01 0xf8 0x00, HD 0x06 0x01 0xf8 0x00, HD 0x0a 0x01 0xf8 0x00, HD 0x0f 0x01 0xf8 0x00,
     HD 0x18 0x01 0xf8 0x00, HD 0x1f 0x01 0xf8 0x00, HD 0x29 0x01 0xf8 0x00, HD 0x38 0x01 0xf8 0x01],
    [HD 0x02 0x01 0xfa 0x00, HD 0x09 0x01 0xfa 0x00, HD 0x17 0x01 0xfa 0x00, HD 0x28 0x01 0xfa 0x01,
     HD 0x02 0x01 0xfb 0x00, HD 0x09 0x01 0xfb 0x00, HD 0x17 0x01 0xfb 0x00, HD 0x28 0x01 0xfb 0x01,
     HD 0x02 0x01 0xfc 0x00, HD 0x09 0x01 0xfc 0x00, HD 0x17 0x01 0xfc 0x00, HD 0x28 0x01 0xfc 0x01,
     HD 0x02 0x01 0xfd 0x00, HD 0x09 0x01 0xfd 0x00, HD 0x17 0x01 0xfd 0x00, HD 0x28 0x01 0xfd 0x01],
    [HD 0x03 0x01 0xfa 0x00, HD 0x06 0x01 0xfa 0x00, HD 0x0a 0x01 0xfa 0x00, HD 0x0f 0x01 0xfa 0x00,
     HD 0x18 0x01 0xfa 0x00, HD 0x1f 0x01 0xfa 0x00, HD 0x29 0x01 0xfa 0x00, HD 0x38 0x01 0xfa 0x01,
     HD 0x03 0x01 0xfb 0x00, HD 0x06 0x01 0xfb 0x00, HD 0x0a 0x01 0xfb 0x00, HD 0x0f 0x01 0xfb 0x00,
     HD 0x18 0x01 0xfb 0x00, HD 0x1f 0x01 0xfb 0x00, HD 0x29 0x01 0xfb 0x00, HD 0x38 0x01 0xfb 0x01],
    [HD 0x03 0x01 0xfc 0x00, HD 0x06 0x01 0xfc 0x00, HD 0x0a 0x01 0xfc 0x00, HD 0x0f 0x01 0xfc 0x00,
     HD 0x18 0x01 0xfc 0x00, HD 0x1f 0x01 0xfc 0x00, HD 0x29 0x01 0xfc 0x00, HD 0x38 0x01 0xfc 0x01,
     HD 0x03 0x01 0xfd 0x00, HD 0x06 0x01 0xfd 0x00, HD 0x0a 0x01 0xfd 0x00, HD 0x0f 0x01 0xfd 0x00,
     HD 0x18 0x01 0xfd 0x00, HD 0x1f 0x01 0xfd 0x00, HD 0x29 0x01 0xfd 0x00, HD 0x38 0x01 0xfd 0x01],
    [HD 0x00 0x01 0xfe 0x01, HD 0xe3 0x00 0x00 0x00, HD 0xe5 0x00 0x00 0x00, HD 0xe6 0x00 0x00 0x00,
     HD 0xe9 0x00 0x00 0x00, HD 0xea 0x00 0x00 0x00, HD 0xec 0x00 0x00 0x00, HD 0xed 0x00 0x00 0x00,
     HD 0xf1 0x00 0x00 0x00, HD 0xf2 0x00 0x00 0x00, HD 0xf4 0x00 0x00 0x00, HD 0xf5 0x00 0x00 0x00,
     HD 0xf8 0x00 0x00 0x00, HD 0xf9 0x00 0x00 0x00, HD 0xfb 0x00 0x00 0x00, HD 0xfc 0x00 0x00 0x01]]"

definition huff_decode_codes_224 :: "huff_decode_code list list" where
  "huff_decode_codes_224 = [
    [HD 0x01 0x01 0xfe 0x00, HD 0x16 0x01 0xfe 0x01, HD 0x00 0x01 0x02 0x01, HD 0x00 0x01 0x03 0x01,
     HD 0x00 0x01 0x04 0x01, HD 0x00 0x01 0x05 0x01, HD 0x00 0x01 0x06 0x01, HD 0x00 0x01 0x07 0x01,
     HD 0x00 0x01 0x08 0x01, HD 0x00 0x01 0x0b 0x01, HD 0x00 0x01 0x0c 0x01, HD 0x00 0x01 0x0e 0x01,
     HD 0x00 0x01 0x0f 0x01, HD 0x00 0x01 0x10 0x01, HD 0x00 0x01 0x11 0x01, HD 0x00 0x01 0x12 0x01],
    [HD 0x02 0x01 0xfe 0x00, HD 0x09 0x01 0xfe 0x00, HD 0x17 0x01 0xfe 0x00, HD 0x28 0x01 0xfe 0x01,
     HD 0x01 0x01 0x02 0x00, HD 0x16 0x01 0x02 0x01, HD 0x01 0x01 0x03 0x00, HD 0x16 0x01 0x03 0x01,
     HD 0x01 0x01 0x04 0x00, HD 0x16 0x01 0x04 0x01, HD 0x01 0x01 0x05 0x00, HD 0x16 0x01 0x05 0x01,
     HD 0x01 0x01 0x06 0x00, HD 0x16 0x01 0x06 0x01, HD 0x01 0x01 0x07 0x00, HD 0x16 0x01 0x07 0x01],
    [HD 0x03 0x01 0xfe 0x00, HD 0x06 0x01 0xfe 0x00, HD 0x0a 0x01 0xfe 0x00, HD 0x0f 0x01 0xfe 0x00,
     HD 0x18 0x01 0xfe 0x00, HD 0x1f 0x01 0xfe 0x00, HD 0x29 0x01 0xfe 0x00, HD 0x38 0x01 0xfe 0x01,
     HD 0x02 0x01 0x02 0x00, HD 0x09 0x01 0x02 0x00, HD 0x17 0x01 0x02 0x00, HD 0x28 0x01 0x02 0x01,
     HD 0x02 0x01 0x03 0x00, HD 0x09 0x01 0x03 0x00, HD 0x17 0x01 0x03 0x00, HD 0x28 0x01 0x03 0x01],
    [HD 0x03 0x01 0x02 0x00, HD 0x06 0x01 0x02 0x00, HD 0x0a 0x01 0x02 0x00, HD 0x0f 0x01 0x02 0x00,
     HD 0x18 0x01 0x02 0x00, HD 0x1f 0x01 0x02 0x00, HD 0x29 0x01 0x02 0x00, HD 0x38 0x01 0x02 0x01,
     HD 0x03 0x01 0x03 0x00, HD 0x06 0x01 0x03 0x00, HD 0x0a 0x01 0x03 0x00, HD 0x0f 0x01 0x03 0x00,
     HD 0x18 0x01 0x03 0x00, HD 0x1f 0x01 0x03 0x00, HD 0x29 0x01 0x03 0x00, HD 0x38 0x01 0x03 0x01],
    [HD 0x02 0x01 0x04 0x00, HD 0x09 0x01 0x04 0x00, HD 0x17 0x01 0x04 0x00, HD 0x28 0x01 0x04 0x01,
     HD 0x02 0x01 0x05 0x00, HD 0x09 0x01 0x05 0x00, HD 0x17 0x01 0x05 0x00, HD 0x28 0x01 0x05 0x01,
     HD 0x02 0x01 0x06 0x00, HD 0x09 0x01 0x06 0x00, HD 0x17 0x01 0x06 0x00, HD 0x28 0x01 0x06 0x01,
     HD 0x02 0x01 0x07 0x00, HD 0x09 0x01 0x07 0x00, HD 0x17 0x01 0x07 0x00, HD 0x28 0x01 0x07 0x01],
    [HD 0x03 0x01 0x04 0x00, HD 0x06 0x01 0x04 0x00, HD 0x0a 0x01 0x04 0x00, HD 0x0f 0x01 0x04 0x00,
     HD 0x18 0x01 0x04 0x00, HD 0x1f 0x01 0x04 0x00, HD 0x29 0x01 0x04 0x00, HD 0x38 0x01 0x04 0x01,
     HD 0x03 0x01 0x05 0x00, HD 0x06 0x01 0x05 0x00, HD 0x0a 0x01 0x05 0x00, HD 0x0f 0x01 0x05 0x00,
     HD 0x18 0x01 0x05 0x00, HD 0x1f 0x01 0x05 0x00, HD 0x29 0x01 0x05 0x00, HD 0x38 0x01 0x05 0x01],
    [HD 0x03 0x01 0x06 0x00, HD 0x06 0x01 0x06 0x00, HD 0x0a 0x01 0x06 0x00, HD 0x0f 0x01 0x06 0x00,
     HD 0x18 0x01 0x06 0x00, HD 0x1f 0x01 0x06 0x00, HD 0x29 0x01 0x06 0x00, HD 0x38 0x01 0x06 0x01,
     HD 0x03 0x01 0x07 0x00, HD 0x06 0x01 0x07 0x00, HD 0x0a 0x01 0x07 0x00, HD 0x0f 0x01 0x07 0x00,
     HD 0x18 0x01 0x07 0x00, HD 0x1f 0x01 0x07 0x00, HD 0x29 0x01 0x07 0x00, HD 0x38 0x01 0x07 0x01],
    [HD 0x01 0x01 0x08 0x00, HD 0x16 0x01 0x08 0x01, HD 0x01 0x01 0x0b 0x00, HD 0x16 0x01 0x0b 0x01,
     HD 0x01 0x01 0x0c 0x00, HD 0x16 0x01 0x0c 0x01, HD 0x01 0x01 0x0e 0x00, HD 0x16 0x01 0x0e 0x01,
     HD 0x01 0x01 0x0f 0x00, HD 0x16 0x01 0x0f 0x01, HD 0x01 0x01 0x10 0x00, HD 0x16 0x01 0x10 0x01,
     HD 0x01 0x01 0x11 0x00, HD 0x16 0x01 0x11 0x01, HD 0x01 0x01 0x12 0x00, HD 0x16 0x01 0x12 0x01]]"

definition huff_decode_codes_232 :: "huff_decode_code list list" where
  "huff_decode_codes_232 = [
    [HD 0x02 0x01 0x08 0x00, HD 0x09 0x01 0x08 0x00, HD 0x17 0x01 0x08 0x00, HD 0x28 0x01 0x08 0x01,
     HD 0x02 0x01 0x0b 0x00, HD 0x09 0x01 0x0b 0x00, HD 0x17 0x01 0x0b 0x00, HD 0x28 0x01 0x0b 0x01,
     HD 0x02 0x01 0x0c 0x00, HD 0x09 0x01 0x0c 0x00, HD 0x17 0x01 0x0c 0x00, HD 0x28 0x01 0x0c 0x01,
     HD 0x02 0x01 0x0e 0x00, HD 0x09 0x01 0x0e 0x00, HD 0x17 0x01 0x0e 0x00, HD 0x28 0x01 0x0e 0x01],
    [HD 0x03 0x01 0x08 0x00, HD 0x06 0x01 0x08 0x00, HD 0x0a 0x01 0x08 0x00, HD 0x0f 0x01 0x08 0x00,
     HD 0x18 0x01 0x08 0x00, HD 0x1f 0x01 0x08 0x00, HD 0x29 0x01 0x08 0x00, HD 0x38 0x01 0x08 0x01,
     HD 0x03 0x01 0x0b 0x00, HD 0x06 0x01 0x0b 0x00, HD 0x0a 0x01 0x0b 0x00, HD 0x0f 0x01 0x0b 0x00,
     HD 0x18 0x01 0x0b 0x00, HD 0x1f 0x01 0x0b 0x00, HD 0x29 0x01 0x0b 0x00, HD 0x38 0x01 0x0b 0x01],
    [HD 0x03 0x01 0x0c 0x00, HD 0x06 0x01 0x0c 0x00, HD 0x0a 0x01 0x0c 0x00, HD 0x0f 0x01 0x0c 0x00,
     HD 0x18 0x01 0x0c 0x00, HD 0x1f 0x01 0x0c 0x00, HD 0x29 0x01 0x0c 0x00, HD 0x38 0x01 0x0c 0x01,
     HD 0x03 0x01 0x0e 0x00, HD 0x06 0x01 0x0e 0x00, HD 0x0a 0x01 0x0e 0x00, HD 0x0f 0x01 0x0e 0x00,
     HD 0x18 0x01 0x0e 0x00, HD 0x1f 0x01 0x0e 0x00, HD 0x29 0x01 0x0e 0x00, HD 0x38 0x01 0x0e 0x01],
    [HD 0x02 0x01 0x0f 0x00, HD 0x09 0x01 0x0f 0x00, HD 0x17 0x01 0x0f 0x00, HD 0x28 0x01 0x0f 0x01,
     HD 0x02 0x01 0x10 0x00, HD 0x09 0x01 0x10 0x00, HD 0x17 0x01 0x10 0x00, HD 0x28 0x01 0x10 0x01,
     HD 0x02 0x01 0x11 0x00, HD 0x09 0x01 0x11 0x00, HD 0x17 0x01 0x11 0x00, HD 0x28 0x01 0x11 0x01,
     HD 0x02 0x01 0x12 0x00, HD 0x09 0x01 0x12 0x00, HD 0x17 0x01 0x12 0x00, HD 0x28 0x01 0x12 0x01],
    [HD 0x03 0x01 0x0f 0x00, HD 0x06 0x01 0x0f 0x00, HD 0x0a 0x01 0x0f 0x00, HD 0x0f 0x01 0x0f 0x00,
     HD 0x18 0x01 0x0f 0x00, HD 0x1f 0x01 0x0f 0x00, HD 0x29 0x01 0x0f 0x00, HD 0x38 0x01 0x0f 0x01,
     HD 0x03 0x01 0x10 0x00, HD 0x06 0x01 0x10 0x00, HD 0x0a 0x01 0x10 0x00, HD 0x0f 0x01 0x10 0x00,
     HD 0x18 0x01 0x10 0x00, HD 0x1f 0x01 0x10 0x00, HD 0x29 0x01 0x10 0x00, HD 0x38 0x01 0x10 0x01],
    [HD 0x03 0x01 0x11 0x00, HD 0x06 0x01 0x11 0x00, HD 0x0a 0x01 0x11 0x00, HD 0x0f 0x01 0x11 0x00,
     HD 0x18 0x01 0x11 0x00, HD 0x1f 0x01 0x11 0x00, HD 0x29 0x01 0x11 0x00, HD 0x38 0x01 0x11 0x01,
     HD 0x03 0x01 0x12 0x00, HD 0x06 0x01 0x12 0x00, HD 0x0a 0x01 0x12 0x00, HD 0x0f 0x01 0x12 0x00,
     HD 0x18 0x01 0x12 0x00, HD 0x1f 0x01 0x12 0x00, HD 0x29 0x01 0x12 0x00, HD 0x38 0x01 0x12 0x01],
    [HD 0x00 0x01 0x13 0x01, HD 0x00 0x01 0x14 0x01, HD 0x00 0x01 0x15 0x01, HD 0x00 0x01 0x17 0x01,
     HD 0x00 0x01 0x18 0x01, HD 0x00 0x01 0x19 0x01, HD 0x00 0x01 0x1a 0x01, HD 0x00 0x01 0x1b 0x01,
     HD 0x00 0x01 0x1c 0x01, HD 0x00 0x01 0x1d 0x01, HD 0x00 0x01 0x1e 0x01, HD 0x00 0x01 0x1f 0x01,
     HD 0x00 0x01 0x7f 0x01, HD 0x00 0x01 0xdc 0x01, HD 0x00 0x01 0xf9 0x01, HD 0xfd 0x00 0x00 0x01],
    [HD 0x01 0x01 0x13 0x00, HD 0x16 0x01 0x13 0x01, HD 0x01 0x01 0x14 0x00, HD 0x16 0x01 0x14 0x01,
     HD 0x01 0x01 0x15 0x00, HD 0x16 0x01 0x15 0x01, HD 0x01 0x01 0x17 0x00, HD 0x16 0x01 0x17 0x01,
     HD 0x01 0x01 0x18 0x00, HD 0x16 0x01 0x18 0x01, HD 0x01 0x01 0x19 0x00, HD 0x16 0x01 0x19 0x01,
     HD 0x01 0x01 0x1a 0x00, HD 0x16 0x01 0x1a 0x01, HD 0x01 0x01 0x1b 0x00, HD 0x16 0x01 0x1b 0x01]]"

definition huff_decode_codes_240 :: "huff_decode_code list list" where
  "huff_decode_codes_240 = [
    [HD 0x02 0x01 0x13 0x00, HD 0x09 0x01 0x13 0x00, HD 0x17 0x01 0x13 0x00, HD 0x28 0x01 0x13 0x01,
     HD 0x02 0x01 0x14 0x00, HD 0x09 0x01 0x14 0x00, HD 0x17 0x01 0x14 0x00, HD 0x28 0x01 0x14 0x01,
     HD 0x02 0x01 0x15 0x00, HD 0x09 0x01 0x15 0x00, HD 0x17 0x01 0x15 0x00, HD 0x28 0x01 0x15 0x01,
     HD 0x02 0x01 0x17 0x00, HD 0x09 0x01 0x17 0x00, HD 0x17 0x01 0x17 0x00, HD 0x28 0x01 0x17 0x01],
    [HD 0x03 0x01 0x13 0x00, HD 0x06 0x01 0x13 0x00, HD 0x0a 0x01 0x13 0x00, HD 0x0f 0x01 0x13 0x00,
     HD 0x18 0x01 0x13 0x00, HD 0x1f 0x01 0x13 0x00, HD 0x29 0x01 0x13 0x00, HD 0x38 0x01 0x13 0x01,
     HD 0x03 0x01 0x14 0x00, HD 0x06 0x01 0x14 0x00, HD 0x0a 0x01 0x14 0x00, HD 0x0f 0x01 0x14 0x00,
     HD 0x18 0x01 0x14 0x00, HD 0x1f 0x01 0x14 0x00, HD 0x29 0x01 0x14 0x00, HD 0x38 0x01 0x14 0x01],
    [HD 0x03 0x01 0x15 0x00, HD 0x06 0x01 0x15 0x00, HD 0x0a 0x01 0x15 0x00, HD 0x0f 0x01 0x15 0x00,
     HD 0x18 0x01 0x15 0x00, HD 0x1f 0x01 0x15 0x00, HD 0x29 0x01 0x15 0x00, HD 0x38 0x01 0x15 0x01,
     HD 0x03 0x01 0x17 0x00, HD 0x06 0x01 0x17 0x00, HD 0x0a 0x01 0x17 0x00, HD 0x0f 0x01 0x17 0x00,
     HD 0x18 0x01 0x17 0x00, HD 0x1f 0x01 0x17 0x00, HD 0x29 0x01 0x17 0x00, HD 0x38 0x01 0x17 0x01],
    [HD 0x02 0x01 0x18 0x00, HD 0x09 0x01 0x18 0x00, HD 0x17 0x01 0x18 0x00, HD 0x28 0x01 0x18 0x01,
     HD 0x02 0x01 0x19 0x00, HD 0x09 0x01 0x19 0x00, HD 0x17 0x01 0x19 0x00, HD 0x28 0x01 0x19 0x01,
     HD 0x02 0x01 0x1a 0x00, HD 0x09 0x01 0x1a 0x00, HD 0x17 0x01 0x1a 0x00, HD 0x28 0x01 0x1a 0x01,
     HD 0x02 0x01 0x1b 0x00, HD 0x09 0x01 0x1b 0x00, HD 0x17 0x01 0x1b 0x00, HD 0x28 0x01 0x1b 0x01],
    [HD 0x03 0x01 0x18 0x00, HD 0x06 0x01 0x18 0x00, HD 0x0a 0x01 0x18 0x00, HD 0x0f 0x01 0x18 0x00,
     HD 0x18 0x01 0x18 0x00, HD 0x1f 0x01 0x18 0x00, HD 0x29 0x01 0x18 0x00, HD 0x38 0x01 0x18 0x01,
     HD 0x03 0x01 0x19 0x00, HD 0x06 0x01 0x19 0x00, HD 0x0a 0x01 0x19 0x00, HD 0x0f 0x01 0x19 0x00,
     HD 0x18 0x01 0x19 0x00, HD 0x1f 0x01 0x19 0x00, HD 0x29 0x01 0x19 0x00, HD 0x38 0x01 0x19 0x01],
    [HD 0x03 0x01 0x1a 0x00, HD 0x06 0x01 0x1a 0x00, HD 0x0a 0x01 0x1a 0x00, HD 0x0f 0x01 0x1a 0x00,
     HD 0x18 0x01 0x1a 0x00, HD 0x1f 0x01 0x1a 0x00, HD 0x29 0x01 0x1a 0x00, HD 0x38 0x01 0x1a 0x01,
     HD 0x03 0x01 0x1b 0x00, HD 0x06 0x01 0x1b 0x00, HD 0x0a 0x01 0x1b 0x00, HD 0x0f 0x01 0x1b 0x00,
     HD 0x18 0x01 0x1b 0x00, HD 0x1f 0x01 0x1b 0x00, HD 0x29 0x01 0x1b 0x00, HD 0x38 0x01 0x1b 0x01],
    [HD 0x01 0x01 0x1c 0x00, HD 0x16 0x01 0x1c 0x01, HD 0x01 0x01 0x1d 0x00, HD 0x16 0x01 0x1d 0x01,
     HD 0x01 0x01 0x1e 0x00, HD 0x16 0x01 0x1e 0x01, HD 0x01 0x01 0x1f 0x00, HD 0x16 0x01 0x1f 0x01,
     HD 0x01 0x01 0x7f 0x00, HD 0x16 0x01 0x7f 0x01, HD 0x01 0x01 0xdc 0x00, HD 0x16 0x01 0xdc 0x01,
     HD 0x01 0x01 0xf9 0x00, HD 0x16 0x01 0xf9 0x01, HD 0xfe 0x00 0x00 0x00, HD 0xff 0x00 0x00 0x01],
    [HD 0x02 0x01 0x1c 0x00, HD 0x09 0x01 0x1c 0x00, HD 0x17 0x01 0x1c 0x00, HD 0x28 0x01 0x1c 0x01,
     HD 0x02 0x01 0x1d 0x00, HD 0x09 0x01 0x1d 0x00, HD 0x17 0x01 0x1d 0x00, HD 0x28 0x01 0x1d 0x01,
     HD 0x02 0x01 0x1e 0x00, HD 0x09 0x01 0x1e 0x00, HD 0x17 0x01 0x1e 0x00, HD 0x28 0x01 0x1e 0x01,
     HD 0x02 0x01 0x1f 0x00, HD 0x09 0x01 0x1f 0x00, HD 0x17 0x01 0x1f 0x00, HD 0x28 0x01 0x1f 0x01]]"

definition huff_decode_codes_248 :: "huff_decode_code list list" where
  "huff_decode_codes_248 = [
    [HD 0x03 0x01 0x1c 0x00, HD 0x06 0x01 0x1c 0x00, HD 0x0a 0x01 0x1c 0x00, HD 0x0f 0x01 0x1c 0x00,
     HD 0x18 0x01 0x1c 0x00, HD 0x1f 0x01 0x1c 0x00, HD 0x29 0x01 0x1c 0x00, HD 0x38 0x01 0x1c 0x01,
     HD 0x03 0x01 0x1d 0x00, HD 0x06 0x01 0x1d 0x00, HD 0x0a 0x01 0x1d 0x00, HD 0x0f 0x01 0x1d 0x00,
     HD 0x18 0x01 0x1d 0x00, HD 0x1f 0x01 0x1d 0x00, HD 0x29 0x01 0x1d 0x00, HD 0x38 0x01 0x1d 0x01],
    [HD 0x03 0x01 0x1e 0x00, HD 0x06 0x01 0x1e 0x00, HD 0x0a 0x01 0x1e 0x00, HD 0x0f 0x01 0x1e 0x00,
     HD 0x18 0x01 0x1e 0x00, HD 0x1f 0x01 0x1e 0x00, HD 0x29 0x01 0x1e 0x00, HD 0x38 0x01 0x1e 0x01,
     HD 0x03 0x01 0x1f 0x00, HD 0x06 0x01 0x1f 0x00, HD 0x0a 0x01 0x1f 0x00, HD 0x0f 0x01 0x1f 0x00,
     HD 0x18 0x01 0x1f 0x00, HD 0x1f 0x01 0x1f 0x00, HD 0x29 0x01 0x1f 0x00, HD 0x38 0x01 0x1f 0x01],
    [HD 0x02 0x01 0x7f 0x00, HD 0x09 0x01 0x7f 0x00, HD 0x17 0x01 0x7f 0x00, HD 0x28 0x01 0x7f 0x01,
     HD 0x02 0x01 0xdc 0x00, HD 0x09 0x01 0xdc 0x00, HD 0x17 0x01 0xdc 0x00, HD 0x28 0x01 0xdc 0x01,
     HD 0x02 0x01 0xf9 0x00, HD 0x09 0x01 0xf9 0x00, HD 0x17 0x01 0xf9 0x00, HD 0x28 0x01 0xf9 0x01,
     HD 0x00 0x01 0x0a 0x01, HD 0x00 0x01 0x0d 0x01, HD 0x00 0x01 0x16 0x01, HD 0xfa 0x00 0x00 0x00],
    [HD 0x03 0x01 0x7f 0x00, HD 0x06 0x01 0x7f 0x00, HD 0x0a 0x01 0x7f 0x00, HD 0x0f 0x01 0x7f 0x00,
     HD 0x18 0x01 0x7f 0x00, HD 0x1f 0x01 0x7f 0x00, HD 0x29 0x01 0x7f 0x00, HD 0x38 0x01 0x7f 0x01,
     HD 0x03 0x01 0xdc 0x00, HD 0x06 0x01 0xdc 0x00, HD 0x0a 0x01 0xdc 0x00, HD 0x0f 0x01 0xdc 0x00,
     HD 0x18 0x01 0xdc 0x00, HD 0x1f 0x01 0xdc 0x00, HD 0x29 0x01 0xdc 0x00, HD 0x38 0x01 0xdc 0x01],
    [HD 0x03 0x01 0xf9 0x00, HD 0x06 0x01 0xf9 0x00, HD 0x0a 0x01 0xf9 0x00, HD 0x0f 0x01 0xf9 0x00,
     HD 0x18 0x01 0xf9 0x00, HD 0x1f 0x01 0xf9 0x00, HD 0x29 0x01 0xf9 0x00, HD 0x38 0x01 0xf9 0x01,
     HD 0x01 0x01 0x0a 0x00, HD 0x16 0x01 0x0a 0x01, HD 0x01 0x01 0x0d 0x00, HD 0x16 0x01 0x0d 0x01,
     HD 0x01 0x01 0x16 0x00, HD 0x16 0x01 0x16 0x01, HD 0xfc 0x00 0x00 0x00, HD 0xfc 0x00 0x00 0x00],
    [HD 0x02 0x01 0x0a 0x00, HD 0x09 0x01 0x0a 0x00, HD 0x17 0x01 0x0a 0x00, HD 0x28 0x01 0x0a 0x01,
     HD 0x02 0x01 0x0d 0x00, HD 0x09 0x01 0x0d 0x00, HD 0x17 0x01 0x0d 0x00, HD 0x28 0x01 0x0d 0x01,
     HD 0x02 0x01 0x16 0x00, HD 0x09 0x01 0x16 0x00, HD 0x17 0x01 0x16 0x00, HD 0x28 0x01 0x16 0x01,
     HD 0xfd 0x00 0x00 0x00, HD 0xfd 0x00 0x00 0x00, HD 0xfd 0x00 0x00 0x00, HD 0xfd 0x00 0x00 0x00],
    [HD 0x03 0x01 0x0a 0x00, HD 0x06 0x01 0x0a 0x00, HD 0x0a 0x01 0x0a 0x00, HD 0x0f 0x01 0x0a 0x00,
     HD 0x18 0x01 0x0a 0x00, HD 0x1f 0x01 0x0a 0x00, HD 0x29 0x01 0x0a 0x00, HD 0x38 0x01 0x0a 0x01,
     HD 0x03 0x01 0x0d 0x00, HD 0x06 0x01 0x0d 0x00, HD 0x0a 0x01 0x0d 0x00, HD 0x0f 0x01 0x0d 0x00,
     HD 0x18 0x01 0x0d 0x00, HD 0x1f 0x01 0x0d 0x00, HD 0x29 0x01 0x0d 0x00, HD 0x38 0x01 0x0d 0x01],
    [HD 0x03 0x01 0x16 0x00, HD 0x06 0x01 0x16 0x00, HD 0x0a 0x01 0x16 0x00, HD 0x0f 0x01 0x16 0x00,
     HD 0x18 0x01 0x16 0x00, HD 0x1f 0x01 0x16 0x00, HD 0x29 0x01 0x16 0x00, HD 0x38 0x01 0x16 0x01,
     HD 0xff 0x00 0x00 0x00, HD 0xff 0x00 0x00 0x00, HD 0xff 0x00 0x00 0x00, HD 0xff 0x00 0x00 0x00,
     HD 0xff 0x00 0x00 0x00, HD 0xff 0x00 0x00 0x00, HD 0xff 0x00 0x00 0x00, HD 0xff 0x00 0x00 0x00]]"

definition ngx_http_v2_huff_decode_codes :: "huff_decode_code list list" where
  "ngx_http_v2_huff_decode_codes =
     huff_decode_codes_0 @ huff_decode_codes_8 @ huff_decode_codes_16 @
     huff_decode_codes_24 @ huff_decode_codes_32 @ huff_decode_codes_40 @
     huff_decode_codes_48 @ huff_decode_codes_56 @ huff_decode_codes_64 @
     huff_decode_codes_72 @ huff_decode_codes_80 @ huff_decode_codes_88 @
     huff_decode_codes_96 @ huff_decode_codes_104 @ huff_decode_codes_112 @
     huff_decode_codes_120 @ huff_decode_codes_128 @ huff_decode_codes_136 @
     huff_decode_codes_144 @ huff_decode_codes_152 @ huff_decode_codes_160 @
     huff_decode_codes_168 @ huff_decode_codes_176 @ huff_decode_codes_184 @
     huff_decode_codes_192 @ huff_decode_codes_200 @ huff_decode_codes_208 @
     huff_decode_codes_216 @ huff_decode_codes_224 @ huff_decode_codes_232 @
     huff_decode_codes_240 @ huff_decode_codes_248"

lemmas huff_decode_chunk_defs =
  huff_decode_codes_0_def huff_decode_codes_8_def huff_decode_codes_16_def
  huff_decode_codes_24_def huff_decode_codes_32_def huff_decode_codes_40_def
  huff_decode_codes_48_def huff_decode_codes_56_def huff_decode_codes_64_def
  huff_decode_codes_72_def huff_decode_codes_80_def huff_decode_codes_88_def
  huff_decode_codes_96_def huff_decode_codes_104_def huff_decode_codes_112_def
  huff_decode_codes_120_def huff_decode_codes_128_def huff_decode_codes_136_def
  huff_decode_codes_144_def huff_decode_codes_152_def huff_decode_codes_160_def
  huff_decode_codes_168_def huff_decode_codes_176_def huff_decode_codes_184_def
  huff_decode_codes_192_def huff_decode_codes_200_def huff_decode_codes_208_def
  huff_decode_codes_216_def huff_decode_codes_224_def huff_decode_codes_232_def
  huff_decode_codes_240_def huff_decode_codes_248_def

lemma length_huff_decode_chunks [simp]:
  "length huff_decode_codes_0 = 8"
  "length huff_decode_codes_8 = 8"
  "length huff_decode_codes_16 = 8"
  "length huff_decode_codes_24 = 8"
  "length huff_decode_codes_32 = 8"
  "length huff_decode_codes_40 = 8"
  "length huff_decode_codes_48 = 8"
  "length huff_decode_codes_56 = 8"
  "length huff_decode_codes_64 = 8"
  "length huff_decode_codes_72 = 8"
  "length huff_decode_codes_80 = 8"
  "length huff_decode_codes_88 = 8"
  "length huff_decode_codes_96 = 8"
  "length huff_decode_codes_104 = 8"
  "length huff_decode_codes_112 = 8"
  "length huff_decode_codes_120 = 8"
  "length huff_decode_codes_128 = 8"
  "length huff_decode_codes_136 = 8"
  "length huff_decode_codes_144 = 8"
  "length huff_decode_codes_152 = 8"
  "length huff_decode_codes_160 = 8"
  "length huff_decode_codes_168 = 8"
  "length huff_decode_codes_176 = 8"
  "length huff_decode_codes_184 = 8"
  "length huff_decode_codes_192 = 8"
  "length huff_decode_codes_200 = 8"
  "length huff_decode_codes_208 = 8"
  "length huff_decode_codes_216 = 8"
  "length huff_decode_codes_224 = 8"
  "length huff_decode_codes_232 = 8"
  "length huff_decode_codes_240 = 8"
  "length huff_decode_codes_248 = 8"
  by (simp_all add: huff_decode_chunk_defs)

lemma length_huff_decode_codes [simp]: "length ngx_http_v2_huff_decode_codes = 256"
  by (simp add: ngx_http_v2_huff_decode_codes_def)

end
