(* ===== verification/Http_V2_Huff_Encode_Table.thy ===== *)
theory Http_V2_Huff_Encode_Table
  imports Prelude
begin

section \<open>The HTTP/2 Huffman encoding tables\<close>

text \<open>
  The tables \<^verbatim>\<open>ngx_http_v2_huff_encode_table\<close> and \<^verbatim>\<open>ngx_http_v2_huff_encode_table_lc\<close> of
  \<^verbatim>\<open>src/http/v2/ngx_http_v2_huff_encode.c\<close>: for each byte its code, right-aligned, and the
  code's length in bits. \<open>HE c n\<close> is the C initialiser \<^verbatim>\<open>{c, n}\<close>.
\<close>

record huff_encode_code =
  he_code :: u32
  he_len :: u32

abbreviation HE :: "u32 \<Rightarrow> u32 \<Rightarrow> huff_encode_code" where
  "HE c n \<equiv> \<lparr>he_code = c, he_len = n\<rparr>"

definition ngx_http_v2_huff_encode_table :: "huff_encode_code list" where
  "ngx_http_v2_huff_encode_table = [
    HE 0x00001ff8 13, HE 0x007fffd8 23, HE 0x0fffffe2 28, HE 0x0fffffe3 28,
    HE 0x0fffffe4 28, HE 0x0fffffe5 28, HE 0x0fffffe6 28, HE 0x0fffffe7 28,
    HE 0x0fffffe8 28, HE 0x00ffffea 24, HE 0x3ffffffc 30, HE 0x0fffffe9 28,
    HE 0x0fffffea 28, HE 0x3ffffffd 30, HE 0x0fffffeb 28, HE 0x0fffffec 28,
    HE 0x0fffffed 28, HE 0x0fffffee 28, HE 0x0fffffef 28, HE 0x0ffffff0 28,
    HE 0x0ffffff1 28, HE 0x0ffffff2 28, HE 0x3ffffffe 30, HE 0x0ffffff3 28,
    HE 0x0ffffff4 28, HE 0x0ffffff5 28, HE 0x0ffffff6 28, HE 0x0ffffff7 28,
    HE 0x0ffffff8 28, HE 0x0ffffff9 28, HE 0x0ffffffa 28, HE 0x0ffffffb 28,
    HE 0x00000014 6, HE 0x000003f8 10, HE 0x000003f9 10, HE 0x00000ffa 12,
    HE 0x00001ff9 13, HE 0x00000015 6, HE 0x000000f8 8, HE 0x000007fa 11,
    HE 0x000003fa 10, HE 0x000003fb 10, HE 0x000000f9 8, HE 0x000007fb 11,
    HE 0x000000fa 8, HE 0x00000016 6, HE 0x00000017 6, HE 0x00000018 6,
    HE 0x00000000 5, HE 0x00000001 5, HE 0x00000002 5, HE 0x00000019 6,
    HE 0x0000001a 6, HE 0x0000001b 6, HE 0x0000001c 6, HE 0x0000001d 6,
    HE 0x0000001e 6, HE 0x0000001f 6, HE 0x0000005c 7, HE 0x000000fb 8,
    HE 0x00007ffc 15, HE 0x00000020 6, HE 0x00000ffb 12, HE 0x000003fc 10,
    HE 0x00001ffa 13, HE 0x00000021 6, HE 0x0000005d 7, HE 0x0000005e 7,
    HE 0x0000005f 7, HE 0x00000060 7, HE 0x00000061 7, HE 0x00000062 7,
    HE 0x00000063 7, HE 0x00000064 7, HE 0x00000065 7, HE 0x00000066 7,
    HE 0x00000067 7, HE 0x00000068 7, HE 0x00000069 7, HE 0x0000006a 7,
    HE 0x0000006b 7, HE 0x0000006c 7, HE 0x0000006d 7, HE 0x0000006e 7,
    HE 0x0000006f 7, HE 0x00000070 7, HE 0x00000071 7, HE 0x00000072 7,
    HE 0x000000fc 8, HE 0x00000073 7, HE 0x000000fd 8, HE 0x00001ffb 13,
    HE 0x0007fff0 19, HE 0x00001ffc 13, HE 0x00003ffc 14, HE 0x00000022 6,
    HE 0x00007ffd 15, HE 0x00000003 5, HE 0x00000023 6, HE 0x00000004 5,
    HE 0x00000024 6, HE 0x00000005 5, HE 0x00000025 6, HE 0x00000026 6,
    HE 0x00000027 6, HE 0x00000006 5, HE 0x00000074 7, HE 0x00000075 7,
    HE 0x00000028 6, HE 0x00000029 6, HE 0x0000002a 6, HE 0x00000007 5,
    HE 0x0000002b 6, HE 0x00000076 7, HE 0x0000002c 6, HE 0x00000008 5,
    HE 0x00000009 5, HE 0x0000002d 6, HE 0x00000077 7, HE 0x00000078 7,
    HE 0x00000079 7, HE 0x0000007a 7, HE 0x0000007b 7, HE 0x00007ffe 15,
    HE 0x000007fc 11, HE 0x00003ffd 14, HE 0x00001ffd 13, HE 0x0ffffffc 28,
    HE 0x000fffe6 20, HE 0x003fffd2 22, HE 0x000fffe7 20, HE 0x000fffe8 20,
    HE 0x003fffd3 22, HE 0x003fffd4 22, HE 0x003fffd5 22, HE 0x007fffd9 23,
    HE 0x003fffd6 22, HE 0x007fffda 23, HE 0x007fffdb 23, HE 0x007fffdc 23,
    HE 0x007fffdd 23, HE 0x007fffde 23, HE 0x00ffffeb 24, HE 0x007fffdf 23,
    HE 0x00ffffec 24, HE 0x00ffffed 24, HE 0x003fffd7 22, HE 0x007fffe0 23,
    HE 0x00ffffee 24, HE 0x007fffe1 23, HE 0x007fffe2 23, HE 0x007fffe3 23,
    HE 0x007fffe4 23, HE 0x001fffdc 21, HE 0x003fffd8 22, HE 0x007fffe5 23,
    HE 0x003fffd9 22, HE 0x007fffe6 23, HE 0x007fffe7 23, HE 0x00ffffef 24,
    HE 0x003fffda 22, HE 0x001fffdd 21, HE 0x000fffe9 20, HE 0x003fffdb 22,
    HE 0x003fffdc 22, HE 0x007fffe8 23, HE 0x007fffe9 23, HE 0x001fffde 21,
    HE 0x007fffea 23, HE 0x003fffdd 22, HE 0x003fffde 22, HE 0x00fffff0 24,
    HE 0x001fffdf 21, HE 0x003fffdf 22, HE 0x007fffeb 23, HE 0x007fffec 23,
    HE 0x001fffe0 21, HE 0x001fffe1 21, HE 0x003fffe0 22, HE 0x001fffe2 21,
    HE 0x007fffed 23, HE 0x003fffe1 22, HE 0x007fffee 23, HE 0x007fffef 23,
    HE 0x000fffea 20, HE 0x003fffe2 22, HE 0x003fffe3 22, HE 0x003fffe4 22,
    HE 0x007ffff0 23, HE 0x003fffe5 22, HE 0x003fffe6 22, HE 0x007ffff1 23,
    HE 0x03ffffe0 26, HE 0x03ffffe1 26, HE 0x000fffeb 20, HE 0x0007fff1 19,
    HE 0x003fffe7 22, HE 0x007ffff2 23, HE 0x003fffe8 22, HE 0x01ffffec 25,
    HE 0x03ffffe2 26, HE 0x03ffffe3 26, HE 0x03ffffe4 26, HE 0x07ffffde 27,
    HE 0x07ffffdf 27, HE 0x03ffffe5 26, HE 0x00fffff1 24, HE 0x01ffffed 25,
    HE 0x0007fff2 19, HE 0x001fffe3 21, HE 0x03ffffe6 26, HE 0x07ffffe0 27,
    HE 0x07ffffe1 27, HE 0x03ffffe7 26, HE 0x07ffffe2 27, HE 0x00fffff2 24,
    HE 0x001fffe4 21, HE 0x001fffe5 21, HE 0x03ffffe8 26, HE 0x03ffffe9 26,
    HE 0x0ffffffd 28, HE 0x07ffffe3 27, HE 0x07ffffe4 27, HE 0x07ffffe5 27,
    HE 0x000fffec 20, HE 0x00fffff3 24, HE 0x000fffed 20, HE 0x001fffe6 21,
    HE 0x003fffe9 22, HE 0x001fffe7 21, HE 0x001fffe8 21, HE 0x007ffff3 23,
    HE 0x003fffea 22, HE 0x003fffeb 22, HE 0x01ffffee 25, HE 0x01ffffef 25,
    HE 0x00fffff4 24, HE 0x00fffff5 24, HE 0x03ffffea 26, HE 0x007ffff4 23,
    HE 0x03ffffeb 26, HE 0x07ffffe6 27, HE 0x03ffffec 26, HE 0x03ffffed 26,
    HE 0x07ffffe7 27, HE 0x07ffffe8 27, HE 0x07ffffe9 27, HE 0x07ffffea 27,
    HE 0x07ffffeb 27, HE 0x0ffffffe 28, HE 0x07ffffec 27, HE 0x07ffffed 27,
    HE 0x07ffffee 27, HE 0x07ffffef 27, HE 0x07fffff0 27, HE 0x03ffffee 26]"

definition ngx_http_v2_huff_encode_table_lc :: "huff_encode_code list" where
  "ngx_http_v2_huff_encode_table_lc = [
    HE 0x00001ff8 13, HE 0x007fffd8 23, HE 0x0fffffe2 28, HE 0x0fffffe3 28,
    HE 0x0fffffe4 28, HE 0x0fffffe5 28, HE 0x0fffffe6 28, HE 0x0fffffe7 28,
    HE 0x0fffffe8 28, HE 0x00ffffea 24, HE 0x3ffffffc 30, HE 0x0fffffe9 28,
    HE 0x0fffffea 28, HE 0x3ffffffd 30, HE 0x0fffffeb 28, HE 0x0fffffec 28,
    HE 0x0fffffed 28, HE 0x0fffffee 28, HE 0x0fffffef 28, HE 0x0ffffff0 28,
    HE 0x0ffffff1 28, HE 0x0ffffff2 28, HE 0x3ffffffe 30, HE 0x0ffffff3 28,
    HE 0x0ffffff4 28, HE 0x0ffffff5 28, HE 0x0ffffff6 28, HE 0x0ffffff7 28,
    HE 0x0ffffff8 28, HE 0x0ffffff9 28, HE 0x0ffffffa 28, HE 0x0ffffffb 28,
    HE 0x00000014 6, HE 0x000003f8 10, HE 0x000003f9 10, HE 0x00000ffa 12,
    HE 0x00001ff9 13, HE 0x00000015 6, HE 0x000000f8 8, HE 0x000007fa 11,
    HE 0x000003fa 10, HE 0x000003fb 10, HE 0x000000f9 8, HE 0x000007fb 11,
    HE 0x000000fa 8, HE 0x00000016 6, HE 0x00000017 6, HE 0x00000018 6,
    HE 0x00000000 5, HE 0x00000001 5, HE 0x00000002 5, HE 0x00000019 6,
    HE 0x0000001a 6, HE 0x0000001b 6, HE 0x0000001c 6, HE 0x0000001d 6,
    HE 0x0000001e 6, HE 0x0000001f 6, HE 0x0000005c 7, HE 0x000000fb 8,
    HE 0x00007ffc 15, HE 0x00000020 6, HE 0x00000ffb 12, HE 0x000003fc 10,
    HE 0x00001ffa 13, HE 0x00000003 5, HE 0x00000023 6, HE 0x00000004 5,
    HE 0x00000024 6, HE 0x00000005 5, HE 0x00000025 6, HE 0x00000026 6,
    HE 0x00000027 6, HE 0x00000006 5, HE 0x00000074 7, HE 0x00000075 7,
    HE 0x00000028 6, HE 0x00000029 6, HE 0x0000002a 6, HE 0x00000007 5,
    HE 0x0000002b 6, HE 0x00000076 7, HE 0x0000002c 6, HE 0x00000008 5,
    HE 0x00000009 5, HE 0x0000002d 6, HE 0x00000077 7, HE 0x00000078 7,
    HE 0x00000079 7, HE 0x0000007a 7, HE 0x0000007b 7, HE 0x00001ffb 13,
    HE 0x0007fff0 19, HE 0x00001ffc 13, HE 0x00003ffc 14, HE 0x00000022 6,
    HE 0x00007ffd 15, HE 0x00000003 5, HE 0x00000023 6, HE 0x00000004 5,
    HE 0x00000024 6, HE 0x00000005 5, HE 0x00000025 6, HE 0x00000026 6,
    HE 0x00000027 6, HE 0x00000006 5, HE 0x00000074 7, HE 0x00000075 7,
    HE 0x00000028 6, HE 0x00000029 6, HE 0x0000002a 6, HE 0x00000007 5,
    HE 0x0000002b 6, HE 0x00000076 7, HE 0x0000002c 6, HE 0x00000008 5,
    HE 0x00000009 5, HE 0x0000002d 6, HE 0x00000077 7, HE 0x00000078 7,
    HE 0x00000079 7, HE 0x0000007a 7, HE 0x0000007b 7, HE 0x00007ffe 15,
    HE 0x000007fc 11, HE 0x00003ffd 14, HE 0x00001ffd 13, HE 0x0ffffffc 28,
    HE 0x000fffe6 20, HE 0x003fffd2 22, HE 0x000fffe7 20, HE 0x000fffe8 20,
    HE 0x003fffd3 22, HE 0x003fffd4 22, HE 0x003fffd5 22, HE 0x007fffd9 23,
    HE 0x003fffd6 22, HE 0x007fffda 23, HE 0x007fffdb 23, HE 0x007fffdc 23,
    HE 0x007fffdd 23, HE 0x007fffde 23, HE 0x00ffffeb 24, HE 0x007fffdf 23,
    HE 0x00ffffec 24, HE 0x00ffffed 24, HE 0x003fffd7 22, HE 0x007fffe0 23,
    HE 0x00ffffee 24, HE 0x007fffe1 23, HE 0x007fffe2 23, HE 0x007fffe3 23,
    HE 0x007fffe4 23, HE 0x001fffdc 21, HE 0x003fffd8 22, HE 0x007fffe5 23,
    HE 0x003fffd9 22, HE 0x007fffe6 23, HE 0x007fffe7 23, HE 0x00ffffef 24,
    HE 0x003fffda 22, HE 0x001fffdd 21, HE 0x000fffe9 20, HE 0x003fffdb 22,
    HE 0x003fffdc 22, HE 0x007fffe8 23, HE 0x007fffe9 23, HE 0x001fffde 21,
    HE 0x007fffea 23, HE 0x003fffdd 22, HE 0x003fffde 22, HE 0x00fffff0 24,
    HE 0x001fffdf 21, HE 0x003fffdf 22, HE 0x007fffeb 23, HE 0x007fffec 23,
    HE 0x001fffe0 21, HE 0x001fffe1 21, HE 0x003fffe0 22, HE 0x001fffe2 21,
    HE 0x007fffed 23, HE 0x003fffe1 22, HE 0x007fffee 23, HE 0x007fffef 23,
    HE 0x000fffea 20, HE 0x003fffe2 22, HE 0x003fffe3 22, HE 0x003fffe4 22,
    HE 0x007ffff0 23, HE 0x003fffe5 22, HE 0x003fffe6 22, HE 0x007ffff1 23,
    HE 0x03ffffe0 26, HE 0x03ffffe1 26, HE 0x000fffeb 20, HE 0x0007fff1 19,
    HE 0x003fffe7 22, HE 0x007ffff2 23, HE 0x003fffe8 22, HE 0x01ffffec 25,
    HE 0x03ffffe2 26, HE 0x03ffffe3 26, HE 0x03ffffe4 26, HE 0x07ffffde 27,
    HE 0x07ffffdf 27, HE 0x03ffffe5 26, HE 0x00fffff1 24, HE 0x01ffffed 25,
    HE 0x0007fff2 19, HE 0x001fffe3 21, HE 0x03ffffe6 26, HE 0x07ffffe0 27,
    HE 0x07ffffe1 27, HE 0x03ffffe7 26, HE 0x07ffffe2 27, HE 0x00fffff2 24,
    HE 0x001fffe4 21, HE 0x001fffe5 21, HE 0x03ffffe8 26, HE 0x03ffffe9 26,
    HE 0x0ffffffd 28, HE 0x07ffffe3 27, HE 0x07ffffe4 27, HE 0x07ffffe5 27,
    HE 0x000fffec 20, HE 0x00fffff3 24, HE 0x000fffed 20, HE 0x001fffe6 21,
    HE 0x003fffe9 22, HE 0x001fffe7 21, HE 0x001fffe8 21, HE 0x007ffff3 23,
    HE 0x003fffea 22, HE 0x003fffeb 22, HE 0x01ffffee 25, HE 0x01ffffef 25,
    HE 0x00fffff4 24, HE 0x00fffff5 24, HE 0x03ffffea 26, HE 0x007ffff4 23,
    HE 0x03ffffeb 26, HE 0x07ffffe6 27, HE 0x03ffffec 26, HE 0x03ffffed 26,
    HE 0x07ffffe7 27, HE 0x07ffffe8 27, HE 0x07ffffe9 27, HE 0x07ffffea 27,
    HE 0x07ffffeb 27, HE 0x0ffffffe 28, HE 0x07ffffec 27, HE 0x07ffffed 27,
    HE 0x07ffffee 27, HE 0x07ffffef 27, HE 0x07fffff0 27, HE 0x03ffffee 26]"

lemma length_huff_encode_tables [simp]:
  "length ngx_http_v2_huff_encode_table = 256"
  "length ngx_http_v2_huff_encode_table_lc = 256"
  by (simp_all add: ngx_http_v2_huff_encode_table_def ngx_http_v2_huff_encode_table_lc_def)

subsection \<open>Codes as numbers\<close>

text \<open>The code of a byte and its length, as naturals, with one rewrite rule per byte.\<close>

definition huff_sym :: "nat \<Rightarrow> nat \<times> nat" where
  "huff_sym s = (unat (he_code (ngx_http_v2_huff_encode_table ! s)),
                 unat (he_len (ngx_http_v2_huff_encode_table ! s)))"

lemma huff_sym_table [table_simps]:
  "huff_sym 0 = (8184, 13) \<and>
   huff_sym 1 = (8388568, 23) \<and>
   huff_sym 2 = (268435426, 28) \<and>
   huff_sym 3 = (268435427, 28) \<and>
   huff_sym 4 = (268435428, 28) \<and>
   huff_sym 5 = (268435429, 28) \<and>
   huff_sym 6 = (268435430, 28) \<and>
   huff_sym 7 = (268435431, 28) \<and>
   huff_sym 8 = (268435432, 28) \<and>
   huff_sym 9 = (16777194, 24) \<and>
   huff_sym 10 = (1073741820, 30) \<and>
   huff_sym 11 = (268435433, 28) \<and>
   huff_sym 12 = (268435434, 28) \<and>
   huff_sym 13 = (1073741821, 30) \<and>
   huff_sym 14 = (268435435, 28) \<and>
   huff_sym 15 = (268435436, 28) \<and>
   huff_sym 16 = (268435437, 28) \<and>
   huff_sym 17 = (268435438, 28) \<and>
   huff_sym 18 = (268435439, 28) \<and>
   huff_sym 19 = (268435440, 28) \<and>
   huff_sym 20 = (268435441, 28) \<and>
   huff_sym 21 = (268435442, 28) \<and>
   huff_sym 22 = (1073741822, 30) \<and>
   huff_sym 23 = (268435443, 28) \<and>
   huff_sym 24 = (268435444, 28) \<and>
   huff_sym 25 = (268435445, 28) \<and>
   huff_sym 26 = (268435446, 28) \<and>
   huff_sym 27 = (268435447, 28) \<and>
   huff_sym 28 = (268435448, 28) \<and>
   huff_sym 29 = (268435449, 28) \<and>
   huff_sym 30 = (268435450, 28) \<and>
   huff_sym 31 = (268435451, 28) \<and>
   huff_sym 32 = (20, 6) \<and>
   huff_sym 33 = (1016, 10) \<and>
   huff_sym 34 = (1017, 10) \<and>
   huff_sym 35 = (4090, 12) \<and>
   huff_sym 36 = (8185, 13) \<and>
   huff_sym 37 = (21, 6) \<and>
   huff_sym 38 = (248, 8) \<and>
   huff_sym 39 = (2042, 11) \<and>
   huff_sym 40 = (1018, 10) \<and>
   huff_sym 41 = (1019, 10) \<and>
   huff_sym 42 = (249, 8) \<and>
   huff_sym 43 = (2043, 11) \<and>
   huff_sym 44 = (250, 8) \<and>
   huff_sym 45 = (22, 6) \<and>
   huff_sym 46 = (23, 6) \<and>
   huff_sym 47 = (24, 6) \<and>
   huff_sym 48 = (0, 5) \<and>
   huff_sym 49 = (1, 5) \<and>
   huff_sym 50 = (2, 5) \<and>
   huff_sym 51 = (25, 6) \<and>
   huff_sym 52 = (26, 6) \<and>
   huff_sym 53 = (27, 6) \<and>
   huff_sym 54 = (28, 6) \<and>
   huff_sym 55 = (29, 6) \<and>
   huff_sym 56 = (30, 6) \<and>
   huff_sym 57 = (31, 6) \<and>
   huff_sym 58 = (92, 7) \<and>
   huff_sym 59 = (251, 8) \<and>
   huff_sym 60 = (32764, 15) \<and>
   huff_sym 61 = (32, 6) \<and>
   huff_sym 62 = (4091, 12) \<and>
   huff_sym 63 = (1020, 10) \<and>
   huff_sym 64 = (8186, 13) \<and>
   huff_sym 65 = (33, 6) \<and>
   huff_sym 66 = (93, 7) \<and>
   huff_sym 67 = (94, 7) \<and>
   huff_sym 68 = (95, 7) \<and>
   huff_sym 69 = (96, 7) \<and>
   huff_sym 70 = (97, 7) \<and>
   huff_sym 71 = (98, 7) \<and>
   huff_sym 72 = (99, 7) \<and>
   huff_sym 73 = (100, 7) \<and>
   huff_sym 74 = (101, 7) \<and>
   huff_sym 75 = (102, 7) \<and>
   huff_sym 76 = (103, 7) \<and>
   huff_sym 77 = (104, 7) \<and>
   huff_sym 78 = (105, 7) \<and>
   huff_sym 79 = (106, 7) \<and>
   huff_sym 80 = (107, 7) \<and>
   huff_sym 81 = (108, 7) \<and>
   huff_sym 82 = (109, 7) \<and>
   huff_sym 83 = (110, 7) \<and>
   huff_sym 84 = (111, 7) \<and>
   huff_sym 85 = (112, 7) \<and>
   huff_sym 86 = (113, 7) \<and>
   huff_sym 87 = (114, 7) \<and>
   huff_sym 88 = (252, 8) \<and>
   huff_sym 89 = (115, 7) \<and>
   huff_sym 90 = (253, 8) \<and>
   huff_sym 91 = (8187, 13) \<and>
   huff_sym 92 = (524272, 19) \<and>
   huff_sym 93 = (8188, 13) \<and>
   huff_sym 94 = (16380, 14) \<and>
   huff_sym 95 = (34, 6) \<and>
   huff_sym 96 = (32765, 15) \<and>
   huff_sym 97 = (3, 5) \<and>
   huff_sym 98 = (35, 6) \<and>
   huff_sym 99 = (4, 5) \<and>
   huff_sym 100 = (36, 6) \<and>
   huff_sym 101 = (5, 5) \<and>
   huff_sym 102 = (37, 6) \<and>
   huff_sym 103 = (38, 6) \<and>
   huff_sym 104 = (39, 6) \<and>
   huff_sym 105 = (6, 5) \<and>
   huff_sym 106 = (116, 7) \<and>
   huff_sym 107 = (117, 7) \<and>
   huff_sym 108 = (40, 6) \<and>
   huff_sym 109 = (41, 6) \<and>
   huff_sym 110 = (42, 6) \<and>
   huff_sym 111 = (7, 5) \<and>
   huff_sym 112 = (43, 6) \<and>
   huff_sym 113 = (118, 7) \<and>
   huff_sym 114 = (44, 6) \<and>
   huff_sym 115 = (8, 5) \<and>
   huff_sym 116 = (9, 5) \<and>
   huff_sym 117 = (45, 6) \<and>
   huff_sym 118 = (119, 7) \<and>
   huff_sym 119 = (120, 7) \<and>
   huff_sym 120 = (121, 7) \<and>
   huff_sym 121 = (122, 7) \<and>
   huff_sym 122 = (123, 7) \<and>
   huff_sym 123 = (32766, 15) \<and>
   huff_sym 124 = (2044, 11) \<and>
   huff_sym 125 = (16381, 14) \<and>
   huff_sym 126 = (8189, 13) \<and>
   huff_sym 127 = (268435452, 28) \<and>
   huff_sym 128 = (1048550, 20) \<and>
   huff_sym 129 = (4194258, 22) \<and>
   huff_sym 130 = (1048551, 20) \<and>
   huff_sym 131 = (1048552, 20) \<and>
   huff_sym 132 = (4194259, 22) \<and>
   huff_sym 133 = (4194260, 22) \<and>
   huff_sym 134 = (4194261, 22) \<and>
   huff_sym 135 = (8388569, 23) \<and>
   huff_sym 136 = (4194262, 22) \<and>
   huff_sym 137 = (8388570, 23) \<and>
   huff_sym 138 = (8388571, 23) \<and>
   huff_sym 139 = (8388572, 23) \<and>
   huff_sym 140 = (8388573, 23) \<and>
   huff_sym 141 = (8388574, 23) \<and>
   huff_sym 142 = (16777195, 24) \<and>
   huff_sym 143 = (8388575, 23) \<and>
   huff_sym 144 = (16777196, 24) \<and>
   huff_sym 145 = (16777197, 24) \<and>
   huff_sym 146 = (4194263, 22) \<and>
   huff_sym 147 = (8388576, 23) \<and>
   huff_sym 148 = (16777198, 24) \<and>
   huff_sym 149 = (8388577, 23) \<and>
   huff_sym 150 = (8388578, 23) \<and>
   huff_sym 151 = (8388579, 23) \<and>
   huff_sym 152 = (8388580, 23) \<and>
   huff_sym 153 = (2097116, 21) \<and>
   huff_sym 154 = (4194264, 22) \<and>
   huff_sym 155 = (8388581, 23) \<and>
   huff_sym 156 = (4194265, 22) \<and>
   huff_sym 157 = (8388582, 23) \<and>
   huff_sym 158 = (8388583, 23) \<and>
   huff_sym 159 = (16777199, 24) \<and>
   huff_sym 160 = (4194266, 22) \<and>
   huff_sym 161 = (2097117, 21) \<and>
   huff_sym 162 = (1048553, 20) \<and>
   huff_sym 163 = (4194267, 22) \<and>
   huff_sym 164 = (4194268, 22) \<and>
   huff_sym 165 = (8388584, 23) \<and>
   huff_sym 166 = (8388585, 23) \<and>
   huff_sym 167 = (2097118, 21) \<and>
   huff_sym 168 = (8388586, 23) \<and>
   huff_sym 169 = (4194269, 22) \<and>
   huff_sym 170 = (4194270, 22) \<and>
   huff_sym 171 = (16777200, 24) \<and>
   huff_sym 172 = (2097119, 21) \<and>
   huff_sym 173 = (4194271, 22) \<and>
   huff_sym 174 = (8388587, 23) \<and>
   huff_sym 175 = (8388588, 23) \<and>
   huff_sym 176 = (2097120, 21) \<and>
   huff_sym 177 = (2097121, 21) \<and>
   huff_sym 178 = (4194272, 22) \<and>
   huff_sym 179 = (2097122, 21) \<and>
   huff_sym 180 = (8388589, 23) \<and>
   huff_sym 181 = (4194273, 22) \<and>
   huff_sym 182 = (8388590, 23) \<and>
   huff_sym 183 = (8388591, 23) \<and>
   huff_sym 184 = (1048554, 20) \<and>
   huff_sym 185 = (4194274, 22) \<and>
   huff_sym 186 = (4194275, 22) \<and>
   huff_sym 187 = (4194276, 22) \<and>
   huff_sym 188 = (8388592, 23) \<and>
   huff_sym 189 = (4194277, 22) \<and>
   huff_sym 190 = (4194278, 22) \<and>
   huff_sym 191 = (8388593, 23) \<and>
   huff_sym 192 = (67108832, 26) \<and>
   huff_sym 193 = (67108833, 26) \<and>
   huff_sym 194 = (1048555, 20) \<and>
   huff_sym 195 = (524273, 19) \<and>
   huff_sym 196 = (4194279, 22) \<and>
   huff_sym 197 = (8388594, 23) \<and>
   huff_sym 198 = (4194280, 22) \<and>
   huff_sym 199 = (33554412, 25) \<and>
   huff_sym 200 = (67108834, 26) \<and>
   huff_sym 201 = (67108835, 26) \<and>
   huff_sym 202 = (67108836, 26) \<and>
   huff_sym 203 = (134217694, 27) \<and>
   huff_sym 204 = (134217695, 27) \<and>
   huff_sym 205 = (67108837, 26) \<and>
   huff_sym 206 = (16777201, 24) \<and>
   huff_sym 207 = (33554413, 25) \<and>
   huff_sym 208 = (524274, 19) \<and>
   huff_sym 209 = (2097123, 21) \<and>
   huff_sym 210 = (67108838, 26) \<and>
   huff_sym 211 = (134217696, 27) \<and>
   huff_sym 212 = (134217697, 27) \<and>
   huff_sym 213 = (67108839, 26) \<and>
   huff_sym 214 = (134217698, 27) \<and>
   huff_sym 215 = (16777202, 24) \<and>
   huff_sym 216 = (2097124, 21) \<and>
   huff_sym 217 = (2097125, 21) \<and>
   huff_sym 218 = (67108840, 26) \<and>
   huff_sym 219 = (67108841, 26) \<and>
   huff_sym 220 = (268435453, 28) \<and>
   huff_sym 221 = (134217699, 27) \<and>
   huff_sym 222 = (134217700, 27) \<and>
   huff_sym 223 = (134217701, 27) \<and>
   huff_sym 224 = (1048556, 20) \<and>
   huff_sym 225 = (16777203, 24) \<and>
   huff_sym 226 = (1048557, 20) \<and>
   huff_sym 227 = (2097126, 21) \<and>
   huff_sym 228 = (4194281, 22) \<and>
   huff_sym 229 = (2097127, 21) \<and>
   huff_sym 230 = (2097128, 21) \<and>
   huff_sym 231 = (8388595, 23) \<and>
   huff_sym 232 = (4194282, 22) \<and>
   huff_sym 233 = (4194283, 22) \<and>
   huff_sym 234 = (33554414, 25) \<and>
   huff_sym 235 = (33554415, 25) \<and>
   huff_sym 236 = (16777204, 24) \<and>
   huff_sym 237 = (16777205, 24) \<and>
   huff_sym 238 = (67108842, 26) \<and>
   huff_sym 239 = (8388596, 23) \<and>
   huff_sym 240 = (67108843, 26) \<and>
   huff_sym 241 = (134217702, 27) \<and>
   huff_sym 242 = (67108844, 26) \<and>
   huff_sym 243 = (67108845, 26) \<and>
   huff_sym 244 = (134217703, 27) \<and>
   huff_sym 245 = (134217704, 27) \<and>
   huff_sym 246 = (134217705, 27) \<and>
   huff_sym 247 = (134217706, 27) \<and>
   huff_sym 248 = (134217707, 27) \<and>
   huff_sym 249 = (268435454, 28) \<and>
   huff_sym 250 = (134217708, 27) \<and>
   huff_sym 251 = (134217709, 27) \<and>
   huff_sym 252 = (134217710, 27) \<and>
   huff_sym 253 = (134217711, 27) \<and>
   huff_sym 254 = (134217712, 27) \<and>
   huff_sym 255 = (67108846, 26)"
proof -
  have "table_rows huff_sym (\<lambda>e. (unat (he_code e), unat (he_len e))) 0
          ngx_http_v2_huff_encode_table"
    by (rule table_rows_nth) (simp add: huff_sym_def)
  then show ?thesis
    by (simp add: ngx_http_v2_huff_encode_table_def del: One_nat_def)
qed

lemma huff_sym_table_Suc [table_simps]: "huff_sym (Suc 0) = (8388568, 23)"
  using huff_sym_table by simp

end
