(* ===== verification/Http_V2_Huff_Check.thy ===== *)
theory Http_V2_Huff_Check
  imports Prefix_Code Http_V2_Huff_Decode_Table Http_V2_Huff_Encode_Table
begin

section \<open>The Huffman tables agree\<close>

text \<open>
  The decoding table is checked against the encoding table, entry by entry, by rewriting. Each
  state \<open>q\<close> of the decoder stands for the bits read since the last complete symbol:
  \<open>huff_state_prefix\<close> gives them as a number with a length, and a symbol whose code starts
  with them. \<open>huff_order\<close> lists the symbols by their codes, aligned to 30 bits; consecutive
  codes then cover consecutive intervals, so no code is a prefix of another.
\<close>

subsection \<open>The bits a state stands for\<close>

definition huff_state_prefix :: "(nat \<times> nat \<times> nat) list" where
  "huff_state_prefix = [
    (0, 0, 0), (0, 1, 32), (0, 2, 48), (0, 3, 48),
    (0, 4, 48), (1, 4, 50), (1, 3, 99), (2, 4, 99),
    (3, 4, 105), (1, 2, 32), (2, 3, 32), (4, 4, 115),
    (5, 4, 32), (10, 5, 32), (11, 5, 45), (3, 3, 47),
    (6, 4, 47), (12, 5, 47), (13, 5, 52), (7, 4, 54),
    (14, 5, 54), (15, 5, 56), (1, 1, 0), (2, 2, 58),
    (4, 3, 61), (8, 4, 61), (16, 5, 61), (17, 5, 95),
    (9, 4, 100), (18, 5, 100), (19, 5, 103), (5, 3, 58),
    (10, 4, 108), (20, 5, 108), (21, 5, 110), (11, 4, 58),
    (22, 5, 114), (23, 5, 58), (46, 6, 58), (47, 6, 67),
    (3, 2, 0), (6, 3, 69), (12, 4, 69), (24, 5, 69),
    (48, 6, 69), (49, 6, 71), (25, 5, 73), (50, 6, 73),
    (51, 6, 75), (13, 4, 77), (26, 5, 77), (52, 6, 77),
    (53, 6, 79), (27, 5, 81), (54, 6, 81), (55, 6, 83),
    (7, 3, 0), (14, 4, 85), (28, 5, 85), (56, 6, 85),
    (57, 6, 87), (29, 5, 106), (58, 6, 106), (59, 6, 113),
    (15, 4, 0), (30, 5, 119), (60, 6, 119), (61, 6, 121),
    (31, 5, 0), (62, 6, 38), (124, 7, 38), (125, 7, 44),
    (63, 6, 0), (126, 7, 88), (127, 7, 0), (254, 8, 33),
    (508, 9, 33), (509, 9, 40), (255, 8, 0), (510, 9, 39),
    (1021, 10, 39), (511, 9, 0), (1022, 10, 35), (2045, 11, 35),
    (1023, 10, 0), (2046, 11, 0), (4092, 12, 0), (4093, 12, 64),
    (2047, 11, 1), (4094, 12, 93), (4095, 12, 1), (8190, 13, 94),
    (8191, 13, 1), (16382, 14, 60), (16383, 14, 1), (32767, 15, 1),
    (65534, 16, 92), (131068, 17, 92), (262136, 18, 92), (262137, 18, 128),
    (524275, 19, 128), (131069, 17, 131), (262138, 18, 131), (524276, 19, 131),
    (524277, 19, 184), (262139, 18, 153), (524278, 19, 224), (524279, 19, 153),
    (1048558, 20, 153), (1048559, 20, 167), (65535, 16, 1), (131070, 17, 129),
    (262140, 18, 176), (524280, 19, 176), (1048560, 20, 176), (1048561, 20, 179),
    (524281, 19, 216), (1048562, 20, 216), (1048563, 20, 227), (262141, 18, 129),
    (524282, 19, 129), (1048564, 20, 129), (2097129, 21, 129), (1048565, 20, 133),
    (2097130, 21, 133), (2097131, 21, 136), (524283, 19, 154), (1048566, 20, 154),
    (2097132, 21, 154), (2097133, 21, 160), (1048567, 20, 164), (2097134, 21, 164),
    (2097135, 21, 170), (131071, 17, 1), (262142, 18, 1), (524284, 19, 178),
    (1048568, 20, 178), (2097136, 21, 178), (2097137, 21, 185), (1048569, 20, 187),
    (2097138, 21, 187), (2097139, 21, 190), (524285, 19, 1), (1048570, 20, 198),
    (2097140, 21, 198), (2097141, 21, 232), (1048571, 20, 1), (2097142, 21, 1),
    (4194284, 22, 1), (4194285, 22, 137), (2097143, 21, 139), (4194286, 22, 139),
    (4194287, 22, 141), (262143, 18, 2), (524286, 19, 147), (1048572, 20, 147),
    (2097144, 21, 147), (4194288, 22, 147), (4194289, 22, 150), (2097145, 21, 152),
    (4194290, 22, 152), (4194291, 22, 157), (1048573, 20, 165), (2097146, 21, 165),
    (4194292, 22, 165), (4194293, 22, 168), (2097147, 21, 175), (4194294, 22, 175),
    (4194295, 22, 182), (524287, 19, 2), (1048574, 20, 9), (2097148, 21, 188),
    (4194296, 22, 188), (4194297, 22, 197), (2097149, 21, 9), (4194298, 22, 9),
    (8388597, 23, 9), (4194299, 22, 144), (8388598, 23, 144), (8388599, 23, 148),
    (1048575, 20, 2), (2097150, 21, 171), (4194300, 22, 171), (8388600, 23, 171),
    (8388601, 23, 215), (4194301, 22, 199), (8388602, 23, 236), (8388603, 23, 199),
    (16777206, 24, 199), (16777207, 24, 234), (2097151, 21, 2), (4194302, 22, 192),
    (8388604, 23, 192), (16777208, 24, 192), (33554416, 25, 192), (33554417, 25, 200),
    (16777209, 24, 202), (33554418, 25, 202), (33554419, 25, 210), (8388605, 23, 203),
    (16777210, 24, 218), (33554420, 25, 218), (33554421, 25, 238), (16777211, 24, 203),
    (33554422, 25, 242), (33554423, 25, 203), (67108847, 26, 203), (4194303, 22, 2),
    (8388606, 23, 211), (16777212, 24, 211), (33554424, 25, 211), (67108848, 26, 211),
    (67108849, 26, 214), (33554425, 25, 222), (67108850, 26, 222), (67108851, 26, 241),
    (16777213, 24, 245), (33554426, 25, 245), (67108852, 26, 245), (67108853, 26, 247),
    (33554427, 25, 250), (67108854, 26, 250), (67108855, 26, 252), (8388607, 23, 2),
    (16777214, 24, 2), (33554428, 25, 2), (67108856, 26, 2), (134217713, 27, 2),
    (67108857, 26, 4), (134217714, 27, 4), (134217715, 27, 6), (33554429, 25, 8),
    (67108858, 26, 8), (134217716, 27, 8), (134217717, 27, 12), (67108859, 26, 15),
    (134217718, 27, 15), (134217719, 27, 17), (16777215, 24, 10), (33554430, 25, 19),
    (67108860, 26, 19), (134217720, 27, 19), (134217721, 27, 21), (67108861, 26, 24),
    (134217722, 27, 24), (134217723, 27, 26), (33554431, 25, 10), (67108862, 26, 28),
    (134217724, 27, 28), (134217725, 27, 30), (67108863, 26, 10), (134217726, 27, 127),
    (134217727, 27, 10), (268435455, 28, 10), (536870910, 29, 10), (536870911, 29, 22)]"

lemma length_huff_state_prefix [simp]: "length huff_state_prefix = 256"
  by (simp add: huff_state_prefix_def)

definition huff_pfx :: "nat \<Rightarrow> nat \<times> nat \<times> nat" where
  "huff_pfx q = huff_state_prefix ! q"

lemma huff_pfx_table [table_simps]:
  "huff_pfx 0 = (0, 0, 0) \<and>
   huff_pfx 1 = (0, 1, 32) \<and>
   huff_pfx 2 = (0, 2, 48) \<and>
   huff_pfx 3 = (0, 3, 48) \<and>
   huff_pfx 4 = (0, 4, 48) \<and>
   huff_pfx 5 = (1, 4, 50) \<and>
   huff_pfx 6 = (1, 3, 99) \<and>
   huff_pfx 7 = (2, 4, 99) \<and>
   huff_pfx 8 = (3, 4, 105) \<and>
   huff_pfx 9 = (1, 2, 32) \<and>
   huff_pfx 10 = (2, 3, 32) \<and>
   huff_pfx 11 = (4, 4, 115) \<and>
   huff_pfx 12 = (5, 4, 32) \<and>
   huff_pfx 13 = (10, 5, 32) \<and>
   huff_pfx 14 = (11, 5, 45) \<and>
   huff_pfx 15 = (3, 3, 47) \<and>
   huff_pfx 16 = (6, 4, 47) \<and>
   huff_pfx 17 = (12, 5, 47) \<and>
   huff_pfx 18 = (13, 5, 52) \<and>
   huff_pfx 19 = (7, 4, 54) \<and>
   huff_pfx 20 = (14, 5, 54) \<and>
   huff_pfx 21 = (15, 5, 56) \<and>
   huff_pfx 22 = (1, 1, 0) \<and>
   huff_pfx 23 = (2, 2, 58) \<and>
   huff_pfx 24 = (4, 3, 61) \<and>
   huff_pfx 25 = (8, 4, 61) \<and>
   huff_pfx 26 = (16, 5, 61) \<and>
   huff_pfx 27 = (17, 5, 95) \<and>
   huff_pfx 28 = (9, 4, 100) \<and>
   huff_pfx 29 = (18, 5, 100) \<and>
   huff_pfx 30 = (19, 5, 103) \<and>
   huff_pfx 31 = (5, 3, 58) \<and>
   huff_pfx 32 = (10, 4, 108) \<and>
   huff_pfx 33 = (20, 5, 108) \<and>
   huff_pfx 34 = (21, 5, 110) \<and>
   huff_pfx 35 = (11, 4, 58) \<and>
   huff_pfx 36 = (22, 5, 114) \<and>
   huff_pfx 37 = (23, 5, 58) \<and>
   huff_pfx 38 = (46, 6, 58) \<and>
   huff_pfx 39 = (47, 6, 67) \<and>
   huff_pfx 40 = (3, 2, 0) \<and>
   huff_pfx 41 = (6, 3, 69) \<and>
   huff_pfx 42 = (12, 4, 69) \<and>
   huff_pfx 43 = (24, 5, 69) \<and>
   huff_pfx 44 = (48, 6, 69) \<and>
   huff_pfx 45 = (49, 6, 71) \<and>
   huff_pfx 46 = (25, 5, 73) \<and>
   huff_pfx 47 = (50, 6, 73) \<and>
   huff_pfx 48 = (51, 6, 75) \<and>
   huff_pfx 49 = (13, 4, 77) \<and>
   huff_pfx 50 = (26, 5, 77) \<and>
   huff_pfx 51 = (52, 6, 77) \<and>
   huff_pfx 52 = (53, 6, 79) \<and>
   huff_pfx 53 = (27, 5, 81) \<and>
   huff_pfx 54 = (54, 6, 81) \<and>
   huff_pfx 55 = (55, 6, 83) \<and>
   huff_pfx 56 = (7, 3, 0) \<and>
   huff_pfx 57 = (14, 4, 85) \<and>
   huff_pfx 58 = (28, 5, 85) \<and>
   huff_pfx 59 = (56, 6, 85) \<and>
   huff_pfx 60 = (57, 6, 87) \<and>
   huff_pfx 61 = (29, 5, 106) \<and>
   huff_pfx 62 = (58, 6, 106) \<and>
   huff_pfx 63 = (59, 6, 113) \<and>
   huff_pfx 64 = (15, 4, 0) \<and>
   huff_pfx 65 = (30, 5, 119) \<and>
   huff_pfx 66 = (60, 6, 119) \<and>
   huff_pfx 67 = (61, 6, 121) \<and>
   huff_pfx 68 = (31, 5, 0) \<and>
   huff_pfx 69 = (62, 6, 38) \<and>
   huff_pfx 70 = (124, 7, 38) \<and>
   huff_pfx 71 = (125, 7, 44) \<and>
   huff_pfx 72 = (63, 6, 0) \<and>
   huff_pfx 73 = (126, 7, 88) \<and>
   huff_pfx 74 = (127, 7, 0) \<and>
   huff_pfx 75 = (254, 8, 33) \<and>
   huff_pfx 76 = (508, 9, 33) \<and>
   huff_pfx 77 = (509, 9, 40) \<and>
   huff_pfx 78 = (255, 8, 0) \<and>
   huff_pfx 79 = (510, 9, 39) \<and>
   huff_pfx 80 = (1021, 10, 39) \<and>
   huff_pfx 81 = (511, 9, 0) \<and>
   huff_pfx 82 = (1022, 10, 35) \<and>
   huff_pfx 83 = (2045, 11, 35) \<and>
   huff_pfx 84 = (1023, 10, 0) \<and>
   huff_pfx 85 = (2046, 11, 0) \<and>
   huff_pfx 86 = (4092, 12, 0) \<and>
   huff_pfx 87 = (4093, 12, 64) \<and>
   huff_pfx 88 = (2047, 11, 1) \<and>
   huff_pfx 89 = (4094, 12, 93) \<and>
   huff_pfx 90 = (4095, 12, 1) \<and>
   huff_pfx 91 = (8190, 13, 94) \<and>
   huff_pfx 92 = (8191, 13, 1) \<and>
   huff_pfx 93 = (16382, 14, 60) \<and>
   huff_pfx 94 = (16383, 14, 1) \<and>
   huff_pfx 95 = (32767, 15, 1) \<and>
   huff_pfx 96 = (65534, 16, 92) \<and>
   huff_pfx 97 = (131068, 17, 92) \<and>
   huff_pfx 98 = (262136, 18, 92) \<and>
   huff_pfx 99 = (262137, 18, 128) \<and>
   huff_pfx 100 = (524275, 19, 128) \<and>
   huff_pfx 101 = (131069, 17, 131) \<and>
   huff_pfx 102 = (262138, 18, 131) \<and>
   huff_pfx 103 = (524276, 19, 131) \<and>
   huff_pfx 104 = (524277, 19, 184) \<and>
   huff_pfx 105 = (262139, 18, 153) \<and>
   huff_pfx 106 = (524278, 19, 224) \<and>
   huff_pfx 107 = (524279, 19, 153) \<and>
   huff_pfx 108 = (1048558, 20, 153) \<and>
   huff_pfx 109 = (1048559, 20, 167) \<and>
   huff_pfx 110 = (65535, 16, 1) \<and>
   huff_pfx 111 = (131070, 17, 129) \<and>
   huff_pfx 112 = (262140, 18, 176) \<and>
   huff_pfx 113 = (524280, 19, 176) \<and>
   huff_pfx 114 = (1048560, 20, 176) \<and>
   huff_pfx 115 = (1048561, 20, 179) \<and>
   huff_pfx 116 = (524281, 19, 216) \<and>
   huff_pfx 117 = (1048562, 20, 216) \<and>
   huff_pfx 118 = (1048563, 20, 227) \<and>
   huff_pfx 119 = (262141, 18, 129) \<and>
   huff_pfx 120 = (524282, 19, 129) \<and>
   huff_pfx 121 = (1048564, 20, 129) \<and>
   huff_pfx 122 = (2097129, 21, 129) \<and>
   huff_pfx 123 = (1048565, 20, 133) \<and>
   huff_pfx 124 = (2097130, 21, 133) \<and>
   huff_pfx 125 = (2097131, 21, 136) \<and>
   huff_pfx 126 = (524283, 19, 154) \<and>
   huff_pfx 127 = (1048566, 20, 154) \<and>
   huff_pfx 128 = (2097132, 21, 154) \<and>
   huff_pfx 129 = (2097133, 21, 160) \<and>
   huff_pfx 130 = (1048567, 20, 164) \<and>
   huff_pfx 131 = (2097134, 21, 164) \<and>
   huff_pfx 132 = (2097135, 21, 170) \<and>
   huff_pfx 133 = (131071, 17, 1) \<and>
   huff_pfx 134 = (262142, 18, 1) \<and>
   huff_pfx 135 = (524284, 19, 178) \<and>
   huff_pfx 136 = (1048568, 20, 178) \<and>
   huff_pfx 137 = (2097136, 21, 178) \<and>
   huff_pfx 138 = (2097137, 21, 185) \<and>
   huff_pfx 139 = (1048569, 20, 187) \<and>
   huff_pfx 140 = (2097138, 21, 187) \<and>
   huff_pfx 141 = (2097139, 21, 190) \<and>
   huff_pfx 142 = (524285, 19, 1) \<and>
   huff_pfx 143 = (1048570, 20, 198) \<and>
   huff_pfx 144 = (2097140, 21, 198) \<and>
   huff_pfx 145 = (2097141, 21, 232) \<and>
   huff_pfx 146 = (1048571, 20, 1) \<and>
   huff_pfx 147 = (2097142, 21, 1) \<and>
   huff_pfx 148 = (4194284, 22, 1) \<and>
   huff_pfx 149 = (4194285, 22, 137) \<and>
   huff_pfx 150 = (2097143, 21, 139) \<and>
   huff_pfx 151 = (4194286, 22, 139) \<and>
   huff_pfx 152 = (4194287, 22, 141) \<and>
   huff_pfx 153 = (262143, 18, 2) \<and>
   huff_pfx 154 = (524286, 19, 147) \<and>
   huff_pfx 155 = (1048572, 20, 147) \<and>
   huff_pfx 156 = (2097144, 21, 147) \<and>
   huff_pfx 157 = (4194288, 22, 147) \<and>
   huff_pfx 158 = (4194289, 22, 150) \<and>
   huff_pfx 159 = (2097145, 21, 152) \<and>
   huff_pfx 160 = (4194290, 22, 152) \<and>
   huff_pfx 161 = (4194291, 22, 157) \<and>
   huff_pfx 162 = (1048573, 20, 165) \<and>
   huff_pfx 163 = (2097146, 21, 165) \<and>
   huff_pfx 164 = (4194292, 22, 165) \<and>
   huff_pfx 165 = (4194293, 22, 168) \<and>
   huff_pfx 166 = (2097147, 21, 175) \<and>
   huff_pfx 167 = (4194294, 22, 175) \<and>
   huff_pfx 168 = (4194295, 22, 182) \<and>
   huff_pfx 169 = (524287, 19, 2) \<and>
   huff_pfx 170 = (1048574, 20, 9) \<and>
   huff_pfx 171 = (2097148, 21, 188) \<and>
   huff_pfx 172 = (4194296, 22, 188) \<and>
   huff_pfx 173 = (4194297, 22, 197) \<and>
   huff_pfx 174 = (2097149, 21, 9) \<and>
   huff_pfx 175 = (4194298, 22, 9) \<and>
   huff_pfx 176 = (8388597, 23, 9) \<and>
   huff_pfx 177 = (4194299, 22, 144) \<and>
   huff_pfx 178 = (8388598, 23, 144) \<and>
   huff_pfx 179 = (8388599, 23, 148) \<and>
   huff_pfx 180 = (1048575, 20, 2) \<and>
   huff_pfx 181 = (2097150, 21, 171) \<and>
   huff_pfx 182 = (4194300, 22, 171) \<and>
   huff_pfx 183 = (8388600, 23, 171) \<and>
   huff_pfx 184 = (8388601, 23, 215) \<and>
   huff_pfx 185 = (4194301, 22, 199) \<and>
   huff_pfx 186 = (8388602, 23, 236) \<and>
   huff_pfx 187 = (8388603, 23, 199) \<and>
   huff_pfx 188 = (16777206, 24, 199) \<and>
   huff_pfx 189 = (16777207, 24, 234) \<and>
   huff_pfx 190 = (2097151, 21, 2) \<and>
   huff_pfx 191 = (4194302, 22, 192) \<and>
   huff_pfx 192 = (8388604, 23, 192) \<and>
   huff_pfx 193 = (16777208, 24, 192) \<and>
   huff_pfx 194 = (33554416, 25, 192) \<and>
   huff_pfx 195 = (33554417, 25, 200) \<and>
   huff_pfx 196 = (16777209, 24, 202) \<and>
   huff_pfx 197 = (33554418, 25, 202) \<and>
   huff_pfx 198 = (33554419, 25, 210) \<and>
   huff_pfx 199 = (8388605, 23, 203) \<and>
   huff_pfx 200 = (16777210, 24, 218) \<and>
   huff_pfx 201 = (33554420, 25, 218) \<and>
   huff_pfx 202 = (33554421, 25, 238) \<and>
   huff_pfx 203 = (16777211, 24, 203) \<and>
   huff_pfx 204 = (33554422, 25, 242) \<and>
   huff_pfx 205 = (33554423, 25, 203) \<and>
   huff_pfx 206 = (67108847, 26, 203) \<and>
   huff_pfx 207 = (4194303, 22, 2) \<and>
   huff_pfx 208 = (8388606, 23, 211) \<and>
   huff_pfx 209 = (16777212, 24, 211) \<and>
   huff_pfx 210 = (33554424, 25, 211) \<and>
   huff_pfx 211 = (67108848, 26, 211) \<and>
   huff_pfx 212 = (67108849, 26, 214) \<and>
   huff_pfx 213 = (33554425, 25, 222) \<and>
   huff_pfx 214 = (67108850, 26, 222) \<and>
   huff_pfx 215 = (67108851, 26, 241) \<and>
   huff_pfx 216 = (16777213, 24, 245) \<and>
   huff_pfx 217 = (33554426, 25, 245) \<and>
   huff_pfx 218 = (67108852, 26, 245) \<and>
   huff_pfx 219 = (67108853, 26, 247) \<and>
   huff_pfx 220 = (33554427, 25, 250) \<and>
   huff_pfx 221 = (67108854, 26, 250) \<and>
   huff_pfx 222 = (67108855, 26, 252) \<and>
   huff_pfx 223 = (8388607, 23, 2) \<and>
   huff_pfx 224 = (16777214, 24, 2) \<and>
   huff_pfx 225 = (33554428, 25, 2) \<and>
   huff_pfx 226 = (67108856, 26, 2) \<and>
   huff_pfx 227 = (134217713, 27, 2) \<and>
   huff_pfx 228 = (67108857, 26, 4) \<and>
   huff_pfx 229 = (134217714, 27, 4) \<and>
   huff_pfx 230 = (134217715, 27, 6) \<and>
   huff_pfx 231 = (33554429, 25, 8) \<and>
   huff_pfx 232 = (67108858, 26, 8) \<and>
   huff_pfx 233 = (134217716, 27, 8) \<and>
   huff_pfx 234 = (134217717, 27, 12) \<and>
   huff_pfx 235 = (67108859, 26, 15) \<and>
   huff_pfx 236 = (134217718, 27, 15) \<and>
   huff_pfx 237 = (134217719, 27, 17) \<and>
   huff_pfx 238 = (16777215, 24, 10) \<and>
   huff_pfx 239 = (33554430, 25, 19) \<and>
   huff_pfx 240 = (67108860, 26, 19) \<and>
   huff_pfx 241 = (134217720, 27, 19) \<and>
   huff_pfx 242 = (134217721, 27, 21) \<and>
   huff_pfx 243 = (67108861, 26, 24) \<and>
   huff_pfx 244 = (134217722, 27, 24) \<and>
   huff_pfx 245 = (134217723, 27, 26) \<and>
   huff_pfx 246 = (33554431, 25, 10) \<and>
   huff_pfx 247 = (67108862, 26, 28) \<and>
   huff_pfx 248 = (134217724, 27, 28) \<and>
   huff_pfx 249 = (134217725, 27, 30) \<and>
   huff_pfx 250 = (67108863, 26, 10) \<and>
   huff_pfx 251 = (134217726, 27, 127) \<and>
   huff_pfx 252 = (134217727, 27, 10) \<and>
   huff_pfx 253 = (268435455, 28, 10) \<and>
   huff_pfx 254 = (536870910, 29, 10) \<and>
   huff_pfx 255 = (536870911, 29, 22)"
proof -
  have "table_rows huff_pfx (\<lambda>t. t) 0 huff_state_prefix"
    by (rule table_rows_nth) (simp add: huff_pfx_def)
  then show ?thesis
    by (simp add: huff_state_prefix_def del: One_nat_def)
qed

lemma huff_pfx_table_Suc [table_simps]: "huff_pfx (Suc 0) = (0, 1, 32)"
  using huff_pfx_table by simp

subsection \<open>The order of the codes\<close>

definition huff_order :: "nat list" where
  "huff_order = [
    48, 49, 50, 97, 99, 101, 105, 111, 115, 116, 32, 37, 45, 46, 47, 51,
    52, 53, 54, 55, 56, 57, 61, 65, 95, 98, 100, 102, 103, 104, 108, 109,
    110, 112, 114, 117, 58, 66, 67, 68, 69, 70, 71, 72, 73, 74, 75, 76,
    77, 78, 79, 80, 81, 82, 83, 84, 85, 86, 87, 89, 106, 107, 113, 118,
    119, 120, 121, 122, 38, 42, 44, 59, 88, 90, 33, 34, 40, 41, 63, 39,
    43, 124, 35, 62, 0, 36, 64, 91, 93, 126, 94, 125, 60, 96, 123, 92,
    195, 208, 128, 130, 131, 162, 184, 194, 224, 226, 153, 161, 167, 172, 176, 177,
    179, 209, 216, 217, 227, 229, 230, 129, 132, 133, 134, 136, 146, 154, 156, 160,
    163, 164, 169, 170, 173, 178, 181, 185, 186, 187, 189, 190, 196, 198, 228, 232,
    233, 1, 135, 137, 138, 139, 140, 141, 143, 147, 149, 150, 151, 152, 155, 157,
    158, 165, 166, 168, 174, 175, 180, 182, 183, 188, 191, 197, 231, 239, 9, 142,
    144, 145, 148, 159, 171, 206, 215, 225, 236, 237, 199, 207, 234, 235, 192, 193,
    200, 201, 202, 205, 210, 213, 218, 219, 238, 240, 242, 243, 255, 203, 204, 211,
    212, 214, 221, 222, 223, 241, 244, 245, 246, 247, 248, 250, 251, 252, 253, 254,
    2, 3, 4, 5, 6, 7, 8, 11, 12, 14, 15, 16, 17, 18, 19, 20,
    21, 23, 24, 25, 26, 27, 28, 29, 30, 31, 127, 220, 249, 10, 13, 22]"

subsection \<open>Checking one row of the decoding table\<close>

definition huff_entry_ok :: "nat \<Rightarrow> nat \<times> huff_decode_code \<Rightarrow> bool" where
  "huff_entry_ok q xe =
     (case (xe, huff_pfx q) of ((x, e), (pv, pl, _)) \<Rightarrow>
        if unat (hd_next e) = q then 26 \<le> pl \<and> (16 * pv + x) div 2 ^ (pl - 26) = 2 ^ 30 - 1
        else (case huff_pfx (unat (hd_next e)) of (nv, nl, _) \<Rightarrow>
               (if hd_emit e \<noteq> 0
                then (case huff_sym (unat (hd_sym e)) of (c, l) \<Rightarrow>
                        pl + 4 = l + nl \<and> 16 * pv + x = c * 2 ^ nl + nv)
                else pl + 4 = nl \<and> 16 * pv + x = nv) \<and>
               (hd_ending e \<noteq> 0 \<longleftrightarrow> nv = 2 ^ nl - 1)))"

definition huff_row_ok :: "nat \<times> huff_decode_code list \<Rightarrow> bool" where
  "huff_row_ok qr = (length (snd qr) = 16 \<and> list_all (huff_entry_ok (fst qr)) (enumerate 0 (snd qr)))"

lemma huff_rows_0: "list_all huff_row_ok (enumerate 0 huff_decode_codes_0)"
  by (simp add: huff_decode_codes_0_def huff_row_ok_def huff_entry_ok_def table_simps
      numeral_2_eq_2 [symmetric] del: One_nat_def)

lemma huff_rows_8: "list_all huff_row_ok (enumerate 8 huff_decode_codes_8)"
  by (simp add: huff_decode_codes_8_def huff_row_ok_def huff_entry_ok_def table_simps)

lemma huff_rows_16: "list_all huff_row_ok (enumerate 16 huff_decode_codes_16)"
  by (simp add: huff_decode_codes_16_def huff_row_ok_def huff_entry_ok_def table_simps)

lemma huff_rows_24: "list_all huff_row_ok (enumerate 24 huff_decode_codes_24)"
  by (simp add: huff_decode_codes_24_def huff_row_ok_def huff_entry_ok_def table_simps)

lemma huff_rows_32: "list_all huff_row_ok (enumerate 32 huff_decode_codes_32)"
  by (simp add: huff_decode_codes_32_def huff_row_ok_def huff_entry_ok_def table_simps)

lemma huff_rows_40: "list_all huff_row_ok (enumerate 40 huff_decode_codes_40)"
  by (simp add: huff_decode_codes_40_def huff_row_ok_def huff_entry_ok_def table_simps)

lemma huff_rows_48: "list_all huff_row_ok (enumerate 48 huff_decode_codes_48)"
  by (simp add: huff_decode_codes_48_def huff_row_ok_def huff_entry_ok_def table_simps)

lemma huff_rows_56: "list_all huff_row_ok (enumerate 56 huff_decode_codes_56)"
  by (simp add: huff_decode_codes_56_def huff_row_ok_def huff_entry_ok_def table_simps)

lemma huff_rows_64: "list_all huff_row_ok (enumerate 64 huff_decode_codes_64)"
  by (simp add: huff_decode_codes_64_def huff_row_ok_def huff_entry_ok_def table_simps)

lemma huff_rows_72: "list_all huff_row_ok (enumerate 72 huff_decode_codes_72)"
  by (simp add: huff_decode_codes_72_def huff_row_ok_def huff_entry_ok_def table_simps)

lemma huff_rows_80: "list_all huff_row_ok (enumerate 80 huff_decode_codes_80)"
  by (simp add: huff_decode_codes_80_def huff_row_ok_def huff_entry_ok_def table_simps)

lemma huff_rows_88: "list_all huff_row_ok (enumerate 88 huff_decode_codes_88)"
  by (simp add: huff_decode_codes_88_def huff_row_ok_def huff_entry_ok_def table_simps)

lemma huff_rows_96: "list_all huff_row_ok (enumerate 96 huff_decode_codes_96)"
  by (simp add: huff_decode_codes_96_def huff_row_ok_def huff_entry_ok_def table_simps)

lemma huff_rows_104: "list_all huff_row_ok (enumerate 104 huff_decode_codes_104)"
  by (simp add: huff_decode_codes_104_def huff_row_ok_def huff_entry_ok_def table_simps)

lemma huff_rows_112: "list_all huff_row_ok (enumerate 112 huff_decode_codes_112)"
  by (simp add: huff_decode_codes_112_def huff_row_ok_def huff_entry_ok_def table_simps)

lemma huff_rows_120: "list_all huff_row_ok (enumerate 120 huff_decode_codes_120)"
  by (simp add: huff_decode_codes_120_def huff_row_ok_def huff_entry_ok_def table_simps)

lemma huff_rows_128: "list_all huff_row_ok (enumerate 128 huff_decode_codes_128)"
  by (simp add: huff_decode_codes_128_def huff_row_ok_def huff_entry_ok_def table_simps)

lemma huff_rows_136: "list_all huff_row_ok (enumerate 136 huff_decode_codes_136)"
  by (simp add: huff_decode_codes_136_def huff_row_ok_def huff_entry_ok_def table_simps)

lemma huff_rows_144: "list_all huff_row_ok (enumerate 144 huff_decode_codes_144)"
  by (simp add: huff_decode_codes_144_def huff_row_ok_def huff_entry_ok_def table_simps)

lemma huff_rows_152: "list_all huff_row_ok (enumerate 152 huff_decode_codes_152)"
  by (simp add: huff_decode_codes_152_def huff_row_ok_def huff_entry_ok_def table_simps)

lemma huff_rows_160: "list_all huff_row_ok (enumerate 160 huff_decode_codes_160)"
  by (simp add: huff_decode_codes_160_def huff_row_ok_def huff_entry_ok_def table_simps)

lemma huff_rows_168: "list_all huff_row_ok (enumerate 168 huff_decode_codes_168)"
  by (simp add: huff_decode_codes_168_def huff_row_ok_def huff_entry_ok_def table_simps)

lemma huff_rows_176: "list_all huff_row_ok (enumerate 176 huff_decode_codes_176)"
  by (simp add: huff_decode_codes_176_def huff_row_ok_def huff_entry_ok_def table_simps)

lemma huff_rows_184: "list_all huff_row_ok (enumerate 184 huff_decode_codes_184)"
  by (simp add: huff_decode_codes_184_def huff_row_ok_def huff_entry_ok_def table_simps)

lemma huff_rows_192: "list_all huff_row_ok (enumerate 192 huff_decode_codes_192)"
  by (simp add: huff_decode_codes_192_def huff_row_ok_def huff_entry_ok_def table_simps)

lemma huff_rows_200: "list_all huff_row_ok (enumerate 200 huff_decode_codes_200)"
  by (simp add: huff_decode_codes_200_def huff_row_ok_def huff_entry_ok_def table_simps)

lemma huff_rows_208: "list_all huff_row_ok (enumerate 208 huff_decode_codes_208)"
  by (simp add: huff_decode_codes_208_def huff_row_ok_def huff_entry_ok_def table_simps)

lemma huff_rows_216: "list_all huff_row_ok (enumerate 216 huff_decode_codes_216)"
  by (simp add: huff_decode_codes_216_def huff_row_ok_def huff_entry_ok_def table_simps)

lemma huff_rows_224: "list_all huff_row_ok (enumerate 224 huff_decode_codes_224)"
  by (simp add: huff_decode_codes_224_def huff_row_ok_def huff_entry_ok_def table_simps)

lemma huff_rows_232: "list_all huff_row_ok (enumerate 232 huff_decode_codes_232)"
  by (simp add: huff_decode_codes_232_def huff_row_ok_def huff_entry_ok_def table_simps)

lemma huff_rows_240: "list_all huff_row_ok (enumerate 240 huff_decode_codes_240)"
  by (simp add: huff_decode_codes_240_def huff_row_ok_def huff_entry_ok_def table_simps)

lemma huff_rows_248: "list_all huff_row_ok (enumerate 248 huff_decode_codes_248)"
  by (simp add: huff_decode_codes_248_def huff_row_ok_def huff_entry_ok_def table_simps)

lemmas huff_rows =
  huff_rows_0 huff_rows_8 huff_rows_16 huff_rows_24 huff_rows_32 huff_rows_40
  huff_rows_48 huff_rows_56 huff_rows_64 huff_rows_72 huff_rows_80 huff_rows_88
  huff_rows_96 huff_rows_104 huff_rows_112 huff_rows_120 huff_rows_128 huff_rows_136
  huff_rows_144 huff_rows_152 huff_rows_160 huff_rows_168 huff_rows_176 huff_rows_184
  huff_rows_192 huff_rows_200 huff_rows_208 huff_rows_216 huff_rows_224 huff_rows_232
  huff_rows_240 huff_rows_248

lemma huff_row_ok_all:
  assumes "q < 256"
  shows "huff_row_ok (q, ngx_http_v2_huff_decode_codes ! q)"
proof -
  have "list_all huff_row_ok (enumerate 0 ngx_http_v2_huff_decode_codes)"
    by (simp add: ngx_http_v2_huff_decode_codes_def list_all_append_enumerate huff_rows)
  from list_all_enumerate_nth [OF this, of q] assms show ?thesis by simp
qed

subsection \<open>Checking the states and the order\<close>

definition huff_state_ok :: "nat \<times> nat \<times> nat \<Rightarrow> bool" where
  "huff_state_ok t =
     (case t of (pv, pl, s) \<Rightarrow>
        (case huff_sym s of (c, l) \<Rightarrow> s < 256 \<and> pl < l \<and> c div 2 ^ (l - pl) = pv))"

lemma huff_states_ok: "list_all huff_state_ok huff_state_prefix"
  by (simp add: huff_state_prefix_def huff_state_ok_def table_simps)

fun huff_consecutive :: "nat \<Rightarrow> nat list \<Rightarrow> bool" where
  "huff_consecutive lo [] = (lo = 2 ^ 30 - 1)"
| "huff_consecutive lo (s # ss) =
     (s < 256 \<and> snd (huff_sym s) \<le> 30 \<and> fst (huff_sym s) < 2 ^ snd (huff_sym s) \<and>
      lo = fst (huff_sym s) * 2 ^ (30 - snd (huff_sym s)) \<and>
      huff_consecutive (lo + 2 ^ (30 - snd (huff_sym s))) ss)"

lemma huff_order_consecutive: "huff_consecutive 0 huff_order"
  by (simp add: huff_order_def table_simps)

lemma length_huff_order [simp]: "length huff_order = 256"
  by (simp add: huff_order_def)

end
