(* ===== verification/Http_V2_Huff_Decode.thy ===== *)
theory Http_V2_Huff_Decode
  imports Http_V2_Huff_Check
begin

section \<open>The HTTP/2 Huffman decoder\<close>

text \<open>
  \<^verbatim>\<open>ngx_http_v2_huff_decode\<close> of \<^verbatim>\<open>src/http/v2/ngx_http_v2_huff_decode.c\<close>. The record holds what
  the C function reaches through pointers: \<^verbatim>\<open>*state\<close>, the local \<^verbatim>\<open>ending\<close> and the bytes
  written so far through \<^verbatim>\<open>*dst\<close>. The decoder is an instance of the interface
  \<open>table_decoder\<close>; its laws follow from the check of the tables.
\<close>

record huff_decode =
  hs_state :: byte
  hs_ending :: byte
  hs_dst :: "byte list"

definition ngx_http_v2_huff_decode_bits :: "byte \<Rightarrow> huff_decode \<Rightarrow> ngx_rc \<times> huff_decode" where
  "ngx_http_v2_huff_decode_bits bits d =
     (let code = ngx_http_v2_huff_decode_codes ! unat (hs_state d) ! unat bits in
      if hd_next code = hs_state d then (NGX_ERROR, d)
      else (NGX_OK, d\<lparr>hs_dst := hs_dst d @ (if hd_emit code \<noteq> 0 then [hd_sym code] else []),
                      hs_ending := hd_ending code,
                      hs_state := hd_next code\<rparr>))"

fun huff_decode_bytes :: "huff_decode \<Rightarrow> byte list \<Rightarrow> ngx_rc \<times> huff_decode" where
  "huff_decode_bytes d [] = (NGX_OK, d)"
| "huff_decode_bytes d (ch # src) =
     (case ngx_http_v2_huff_decode_bits (drop_bit 4 ch) d of
        (NGX_OK, d1) \<Rightarrow>
          (case ngx_http_v2_huff_decode_bits (ch AND 0xf) d1 of
             (NGX_OK, d2) \<Rightarrow> huff_decode_bytes d2 src
           | (_, d2) \<Rightarrow> (NGX_ERROR, d2))
      | (_, d1) \<Rightarrow> (NGX_ERROR, d1))"

definition ngx_http_v2_huff_decode ::
    "byte \<Rightarrow> byte list \<Rightarrow> byte list \<Rightarrow> bool \<Rightarrow> ngx_rc \<times> byte \<times> byte list" where
  "ngx_http_v2_huff_decode state src dst is_last =
     (case huff_decode_bytes \<lparr>hs_state = state, hs_ending = 1, hs_dst = dst\<rparr> src of
        (NGX_OK, d) \<Rightarrow>
          if is_last then
            (if hs_ending d = 0 then (NGX_ERROR, hs_state d, hs_dst d)
             else (NGX_OK, 0, hs_dst d))
          else (NGX_OK, hs_state d, hs_dst d)
      | (_, d) \<Rightarrow> (NGX_ERROR, hs_state d, hs_dst d))"

subsection \<open>The code and the pending bits of a state\<close>

definition huff_code :: "byte \<Rightarrow> bool list" where
  "huff_code s = bits_of (snd (huff_sym (unat s))) (fst (huff_sym (unat s)))"

definition huff_eos :: "bool list" where
  "huff_eos = bits_of 30 (2 ^ 30 - 1)"

definition huff_pending :: "byte \<Rightarrow> bool list" where
  "huff_pending q = bits_of (fst (snd (huff_pfx (unat q)))) (fst (huff_pfx (unat q)))"

lemma huff_pending_0 [simp]: "huff_pending 0 = []"
  by (simp add: huff_pending_def table_simps)

lemma huff_eos_ones: "huff_eos = replicate 30 True"
  unfolding huff_eos_def by (rule bits_of_ones)

subsection \<open>No code is a prefix of another\<close>

definition huff_lo :: "nat \<Rightarrow> nat" where
  "huff_lo s = fst (huff_sym s) * 2 ^ (30 - snd (huff_sym s))"

definition huff_width :: "nat \<Rightarrow> nat" where
  "huff_width s = 2 ^ (30 - snd (huff_sym s))"

lemma huff_consecutive_bounds:
  "huff_consecutive lo ss \<Longrightarrow> s \<in> set ss \<Longrightarrow>
     lo \<le> huff_lo s \<and> huff_lo s + huff_width s \<le> 2 ^ 30 - 1 \<and> s < 256 \<and>
     snd (huff_sym s) \<le> 30 \<and> fst (huff_sym s) < 2 ^ snd (huff_sym s)"
proof (induction ss arbitrary: lo)
  case Nil
  then show ?case by simp
next
  case (Cons t ss)
  have top: "huff_consecutive l us \<Longrightarrow> l \<le> 2 ^ 30 - 1" for l us
    by (induction l us rule: huff_consecutive.induct) auto
  from Cons.prems(1) have rest: "huff_consecutive (lo + huff_width t) ss"
    by (auto simp: huff_width_def)
  show ?case
  proof (cases "s = t")
    case True
    with Cons.prems(1) top [OF rest] show ?thesis by (simp add: huff_lo_def huff_width_def)
  next
    case False
    with Cons.prems(2) Cons.IH [OF rest] show ?thesis by auto
  qed
qed

lemma huff_consecutive_disjoint:
  "huff_consecutive lo ss \<Longrightarrow> distinct ss \<and>
     (\<forall>s\<in>set ss. \<forall>t\<in>set ss. s = t \<or> huff_lo s + huff_width s \<le> huff_lo t \<or>
        huff_lo t + huff_width t \<le> huff_lo s)"
proof (induction ss arbitrary: lo)
  case Nil
  then show ?case by simp
next
  case (Cons u ss)
  from Cons.prems have rest: "huff_consecutive (lo + huff_width u) ss" and u: "lo = huff_lo u"
    by (auto simp: huff_width_def huff_lo_def)
  have above: "huff_lo u + huff_width u \<le> huff_lo t" if "t \<in> set ss" for t
    using huff_consecutive_bounds [OF rest that] u by simp
  have "0 < huff_width u" by (simp add: huff_width_def)
  with above have "u \<notin> set ss" by force
  with Cons.IH [OF rest] above show ?case by auto
qed

lemma set_huff_order: "set huff_order = {..<256}"
proof (rule card_subset_eq)
  show "set huff_order \<subseteq> {..<256}"
    using huff_consecutive_bounds [OF huff_order_consecutive] by auto
  show "card (set huff_order) = card {..<256::nat}"
    using huff_consecutive_disjoint [OF huff_order_consecutive] by (simp add: distinct_card)
qed simp

lemma huff_sym_bounds:
  assumes "s < 256"
  shows "snd (huff_sym s) \<le> 30" and "fst (huff_sym s) < 2 ^ snd (huff_sym s)"
    and "huff_lo s + huff_width s \<le> 2 ^ 30 - 1"
  using huff_consecutive_bounds [OF huff_order_consecutive, of s] assms
  by (simp_all add: set_huff_order)

lemma huff_intervals_disjoint:
  assumes "s < 256" and "t < 256"
  shows "s = t \<or> huff_lo s + huff_width s \<le> huff_lo t \<or> huff_lo t + huff_width t \<le> huff_lo s"
  using huff_consecutive_disjoint [OF huff_order_consecutive] assms by (simp add: set_huff_order)

lemma huff_aligned:
  fixes v w :: nat
  assumes "n \<le> m" and "m \<le> 30" and "w div 2 ^ (m - n) = v"
  shows "v * 2 ^ (30 - n) \<le> w * 2 ^ (30 - m)"
    and "w * 2 ^ (30 - m) < v * 2 ^ (30 - n) + 2 ^ (30 - n)"
proof -
  let ?d = "2 ^ (m - n) :: nat" and ?e = "2 ^ (30 - m) :: nat"
  have e: "2 ^ (30 - n) = ?d * ?e"
    using assms(1,2) by (simp flip: power_add)
  have w: "w = v * ?d + w mod ?d"
    using assms(3) by (metis div_mult_mod_eq)
  have "v * ?d \<le> w" using w by linarith
  then have "v * ?d * ?e \<le> w * ?e" by (rule mult_le_mono1)
  then show "v * 2 ^ (30 - n) \<le> w * 2 ^ (30 - m)"
    by (simp only: e mult.assoc)
  have "w mod ?d < ?d" by simp
  with w have "w < v * ?d + ?d" by linarith
  then have "w * ?e < (v * ?d + ?d) * ?e" by (rule mult_less_mono1) simp
  then show "w * 2 ^ (30 - m) < v * 2 ^ (30 - n) + 2 ^ (30 - n)"
    by (simp only: e mult.assoc distrib_right)
qed

lemma huff_code_prefix_free: "prefix (huff_code a) (huff_code b) \<Longrightarrow> a = b"
proof -
  let ?a = "unat a" and ?b = "unat b"
  assume "prefix (huff_code a) (huff_code b)"
  with huff_sym_bounds [of ?a] huff_sym_bounds [of ?b]
  have *: "snd (huff_sym ?a) \<le> snd (huff_sym ?b)"
    "fst (huff_sym ?b) div 2 ^ (snd (huff_sym ?b) - snd (huff_sym ?a)) = fst (huff_sym ?a)"
    by (auto simp: huff_code_def dest: prefix_bits_of)
  from huff_aligned [OF *(1) _ *(2)] huff_sym_bounds [of ?b]
  have "huff_lo ?a \<le> huff_lo ?b" "huff_lo ?b < huff_lo ?a + huff_width ?a"
    by (simp_all add: huff_lo_def huff_width_def)
  moreover have "0 < huff_width ?b" by (simp add: huff_width_def)
  ultimately have "?a = ?b" using huff_intervals_disjoint [of ?a ?b] by auto
  then show ?thesis by (simp only: byte_eq_unat)
qed

lemma huff_code_eos: "\<not> prefix (huff_code a) huff_eos" "\<not> prefix huff_eos (huff_code a)"
proof -
  let ?a = "unat a"
  note b = huff_sym_bounds [of ?a]
  show "\<not> prefix (huff_code a) huff_eos"
  proof
    assume "prefix (huff_code a) huff_eos"
    with b have "(2 ^ 30 - 1) div 2 ^ (30 - snd (huff_sym ?a)) = fst (huff_sym ?a)"
      by (auto simp: huff_code_def huff_eos_def dest: prefix_bits_of)
    from huff_aligned(2) [OF _ order_refl this] b show False
      by (simp add: huff_lo_def huff_width_def)
  qed
  show "\<not> prefix huff_eos (huff_code a)"
  proof
    assume "prefix huff_eos (huff_code a)"
    with b have "30 \<le> snd (huff_sym ?a)"
      "fst (huff_sym ?a) div 2 ^ (snd (huff_sym ?a) - 30) = 2 ^ 30 - 1"
      by (auto simp: huff_code_def huff_eos_def dest: prefix_bits_of)
    with b show False by (simp add: huff_lo_def huff_width_def)
  qed
qed

subsection \<open>One group of four bits\<close>

lemma huff_pfx_bounds:
  assumes "q < 256"
  shows "fst (huff_pfx q) < 2 ^ fst (snd (huff_pfx q))"
    and "fst (snd (huff_pfx q)) < snd (huff_sym (snd (snd (huff_pfx q))))"
    and "fst (huff_sym (snd (snd (huff_pfx q)))) div
           2 ^ (snd (huff_sym (snd (snd (huff_pfx q)))) - fst (snd (huff_pfx q))) = fst (huff_pfx q)"
    and "snd (snd (huff_pfx q)) < 256"
proof -
  obtain pv pl s where t: "huff_pfx q = (pv, pl, s)" by (metis prod.exhaust)
  obtain c l where c: "huff_sym s = (c, l)" by (metis prod.exhaust)
  from huff_states_ok assms t have "huff_state_ok (pv, pl, s)"
    by (auto simp: list_all_length huff_pfx_def)
  with c have *: "s < 256" "pl < l" "c div 2 ^ (l - pl) = pv"
    by (simp_all add: huff_state_ok_def)
  with huff_sym_bounds(2) [of s] c have "c < 2 ^ pl * 2 ^ (l - pl)"
    by (simp flip: power_add)
  then have "pv < 2 ^ pl" using *(3) by (auto simp: less_mult_imp_div_less)
  with * t c show "fst (huff_pfx q) < 2 ^ fst (snd (huff_pfx q))"
    "fst (snd (huff_pfx q)) < snd (huff_sym (snd (snd (huff_pfx q))))"
    "fst (huff_sym (snd (snd (huff_pfx q)))) div
       2 ^ (snd (huff_sym (snd (snd (huff_pfx q)))) - fst (snd (huff_pfx q))) = fst (huff_pfx q)"
    "snd (snd (huff_pfx q)) < 256" by simp_all
qed

text \<open>The bits pending in a state are a proper prefix of a code, so they hold no whole code.\<close>

lemma huff_pending_incomplete: "\<not> prefix (huff_code s) (huff_pending q)"
proof
  let ?t = "snd (snd (huff_pfx (unat q)))"
  note p = huff_pfx_bounds [of "unat q", OF unat_byte_less]
  assume "prefix (huff_code s) (huff_pending q)"
  moreover have "huff_code (word_of_nat ?t) =
      huff_pending q @ bits_of (snd (huff_sym ?t) - fst (snd (huff_pfx (unat q))))
        (fst (huff_sym ?t) mod 2 ^ (snd (huff_sym ?t) - fst (snd (huff_pfx (unat q)))))"
    using bits_of_div_append [of "fst (snd (huff_pfx (unat q)))" "snd (huff_sym ?t)"
        "fst (huff_sym ?t)"] p
    by (simp add: huff_code_def huff_pending_def unat_of_nat)
  ultimately have "prefix (huff_code s) (huff_code (word_of_nat ?t))"
    and "length (huff_code s) < length (huff_code (word_of_nat ?t))"
    using p(2) by (auto dest!: prefix_length_le simp: huff_pending_def huff_code_def unat_of_nat p(4))
  then show False using huff_code_prefix_free by fastforce
qed

lemma huff_entry_ok_nth:
  fixes q b :: byte
  assumes "unat b < 16"
  shows "huff_entry_ok (unat q) (unat b, ngx_http_v2_huff_decode_codes ! unat q ! unat b)"
proof -
  let ?row = "ngx_http_v2_huff_decode_codes ! unat q"
  from huff_row_ok_all [OF unat_byte_less, of q] have "length ?row = 16"
    and "list_all (huff_entry_ok (unat q)) (enumerate 0 ?row)"
    by (simp_all add: huff_row_ok_def)
  with list_all_enumerate_nth [of "huff_entry_ok (unat q)" 0 ?row "unat b"] assms
  show ?thesis by simp
qed

lemma huff_nibble_append:
  assumes "x < 16"
  shows "bits_of (fst (snd (huff_pfx q)) + 4) (16 * fst (huff_pfx q) + x) =
     bits_of (fst (snd (huff_pfx q))) (fst (huff_pfx q)) @ bits_of 4 x"
  using bits_of_append [of x 4 "fst (snd (huff_pfx q))" "fst (huff_pfx q)"] assms
  by (simp add: mult.commute)

lemma huff_decode_bits_OK:
  assumes run: "ngx_http_v2_huff_decode_bits b d = (NGX_OK, d')" and b: "unat b < 16"
  shows "\<exists>out. hs_dst d' = hs_dst d @ out \<and>
     huff_pending (hs_state d) @ bits_of 4 (unat b) =
       concat (map huff_code out) @ huff_pending (hs_state d') \<and>
     (hs_ending d' \<noteq> 0 \<longleftrightarrow> huff_pending (hs_state d') = replicate (length (huff_pending (hs_state d'))) True)"
proof -
  let ?q = "unat (hs_state d)" and ?e = "ngx_http_v2_huff_decode_codes ! unat (hs_state d) ! unat b"
  obtain pv pl t where q: "huff_pfx ?q = (pv, pl, t)" by (metis prod.exhaust)
  obtain nv nl u where n: "huff_pfx (unat (hd_next ?e)) = (nv, nl, u)" by (metis prod.exhaust)
  obtain c l where c: "huff_sym (unat (hd_sym ?e)) = (c, l)" by (metis prod.exhaust)
  have nv: "nv < 2 ^ nl" using huff_pfx_bounds(1) [of "unat (hd_next ?e)"] n by simp
  from run have ne: "hd_next ?e \<noteq> hs_state d" and d': "d' = d\<lparr>hs_dst := hs_dst d @
      (if hd_emit ?e \<noteq> 0 then [hd_sym ?e] else []), hs_ending := hd_ending ?e, hs_state := hd_next ?e\<rparr>"
    by (auto simp: ngx_http_v2_huff_decode_bits_def Let_def split: if_splits)
  from huff_entry_ok_nth [OF b, of "hs_state d"] ne q n c
  have ok: "if hd_emit ?e \<noteq> 0 then pl + 4 = l + nl \<and> 16 * pv + unat b = c * 2 ^ nl + nv
      else pl + 4 = nl \<and> 16 * pv + unat b = nv" and e: "hd_ending ?e \<noteq> 0 \<longleftrightarrow> nv = 2 ^ nl - 1"
    by (auto simp: huff_entry_ok_def byte_eq_unat split: if_splits)
  have "huff_pending (hs_state d) @ bits_of 4 (unat b) = bits_of (pl + 4) (16 * pv + unat b)"
    using huff_nibble_append [OF b, of ?q] q by (simp add: huff_pending_def)
  also have "\<dots> = (if hd_emit ?e \<noteq> 0 then huff_code (hd_sym ?e) else []) @ huff_pending (hd_next ?e)"
    using ok bits_of_append [OF nv, of l c] c n by (simp add: huff_code_def huff_pending_def)
  finally have "huff_pending (hs_state d) @ bits_of 4 (unat b) =
      concat (map huff_code (if hd_emit ?e \<noteq> 0 then [hd_sym ?e] else [])) @ huff_pending (hd_next ?e)"
    by simp
  moreover have "nv = 2 ^ nl - 1 \<longleftrightarrow> bits_of nl nv = replicate nl True"
    unfolding bits_of_ones [symmetric] using bits_of_inject [of nl nv "2 ^ nl - 1"] nv by auto
  ultimately show ?thesis
    using e n by (intro exI [of _ "if hd_emit ?e \<noteq> 0 then [hd_sym ?e] else []"])
      (simp add: d' huff_pending_def)
qed

lemma huff_decode_bits_ERROR:
  assumes run: "ngx_http_v2_huff_decode_bits b d = (rc, d')" and "rc \<noteq> NGX_OK" and b: "unat b < 16"
  shows "d' = d \<and> prefix huff_eos (huff_pending (hs_state d) @ bits_of 4 (unat b))"
proof -
  let ?q = "unat (hs_state d)" and ?e = "ngx_http_v2_huff_decode_codes ! unat (hs_state d) ! unat b"
  obtain pv pl t where q: "huff_pfx ?q = (pv, pl, t)" by (metis prod.exhaust)
  from assms have eq: "hd_next ?e = hs_state d" and d': "d' = d"
    by (auto simp: ngx_http_v2_huff_decode_bits_def Let_def split: if_splits)
  from huff_entry_ok_nth [OF b, of "hs_state d"] eq q
  have pl: "26 \<le> pl" and v: "(16 * pv + unat b) div 2 ^ (pl - 26) = 2 ^ 30 - 1"
    by (auto simp: huff_entry_ok_def)
  have "huff_pending (hs_state d) @ bits_of 4 (unat b) = bits_of (pl + 4) (16 * pv + unat b)"
    using huff_nibble_append [OF b, of ?q] q by (simp add: huff_pending_def)
  also have "\<dots> = huff_eos @ bits_of (pl + 4 - 30) ((16 * pv + unat b) mod 2 ^ (pl + 4 - 30))"
    using bits_of_div_append [of 30 "pl + 4" "16 * pv + unat b"] pl v by (simp add: huff_eos_def)
  finally show ?thesis using d' by simp
qed

subsection \<open>One byte, and the instance of the decoder interface\<close>

definition huff_byte_step :: "byte \<Rightarrow> byte \<Rightarrow> (byte \<times> byte list) option" where
  "huff_byte_step q ch =
     (case huff_decode_bytes \<lparr>hs_state = q, hs_ending = 1, hs_dst = []\<rparr> [ch] of
        (NGX_OK, d) \<Rightarrow> Some (hs_state d, hs_dst d)
      | _ \<Rightarrow> None)"

lemma unat_nibbles [simp]: "unat (drop_bit 4 (b :: byte)) < 16" "unat (b AND 0xf :: byte) < 16"
proof -
  have "b AND 0xf = take_bit 4 b"
    by (simp add: take_bit_eq_mask mask_eq_exp_minus_1)
  then show "unat (b AND 0xf) < 16" by (simp add: take_bit_eq_mod unat_mod)
  show "unat (drop_bit 4 b) < 16"
    by (simp add: drop_bit_eq_div unat_div less_mult_imp_div_less)
qed

text \<open>What the symbols of a byte are does not depend on what was decoded before it.\<close>

lemma huff_decode_bits_frame:
  "ngx_http_v2_huff_decode_bits b (d\<lparr>hs_dst := xs @ hs_dst d, hs_ending := e\<rparr>) =
     (case ngx_http_v2_huff_decode_bits b d of
        (NGX_OK, d') \<Rightarrow> (NGX_OK, d'\<lparr>hs_dst := xs @ hs_dst d'\<rparr>)
      | (rc, d') \<Rightarrow> (rc, d'\<lparr>hs_dst := xs @ hs_dst d', hs_ending := e\<rparr>))"
  by (simp add: ngx_http_v2_huff_decode_bits_def Let_def)

lemma huff_decode_bits_rc: "fst (ngx_http_v2_huff_decode_bits b d) \<in> {NGX_OK, NGX_ERROR}"
  by (simp add: ngx_http_v2_huff_decode_bits_def Let_def)

lemma huff_decode_byte_OK:
  assumes "huff_decode_bytes d [ch] = (NGX_OK, d')"
  shows "\<exists>out. hs_dst d' = hs_dst d @ out \<and>
     huff_pending (hs_state d) @ byte_bits ch = concat (map huff_code out) @ huff_pending (hs_state d') \<and>
     (hs_ending d' \<noteq> 0 \<longleftrightarrow> huff_pending (hs_state d') = replicate (length (huff_pending (hs_state d'))) True)"
proof -
  from assms obtain d1 where 1: "ngx_http_v2_huff_decode_bits (drop_bit 4 ch) d = (NGX_OK, d1)"
    and 2: "ngx_http_v2_huff_decode_bits (ch AND 0xf) d1 = (NGX_OK, d')"
    by (auto split: prod.splits ngx_rc.splits)
  from huff_decode_bits_OK [OF 1] obtain o1 where o1: "hs_dst d1 = hs_dst d @ o1"
    "huff_pending (hs_state d) @ bits_of 4 (unat (drop_bit 4 ch)) =
       concat (map huff_code o1) @ huff_pending (hs_state d1)" by auto
  from huff_decode_bits_OK [OF 2] obtain o2 where o2: "hs_dst d' = hs_dst d1 @ o2"
    "huff_pending (hs_state d1) @ bits_of 4 (unat (ch AND 0xf)) =
       concat (map huff_code o2) @ huff_pending (hs_state d')"
    "hs_ending d' \<noteq> 0 \<longleftrightarrow>
       huff_pending (hs_state d') = replicate (length (huff_pending (hs_state d'))) True" by auto
  have "huff_pending (hs_state d) @ byte_bits ch =
      concat (map huff_code (o1 @ o2)) @ huff_pending (hs_state d')"
    unfolding byte_bits_nibbles using o1(2) o2(2) by (metis append.assoc concat_append map_append)
  with o1(1) o2(1,3) show ?thesis by (metis append.assoc)
qed

lemma huff_decode_byte_ERROR:
  assumes "huff_decode_bytes d [ch] = (rc, d')" and "rc \<noteq> NGX_OK"
  shows "\<exists>out. prefix (concat (map huff_code out) @ huff_eos) (huff_pending (hs_state d) @ byte_bits ch)"
proof (cases "ngx_http_v2_huff_decode_bits (drop_bit 4 ch) d")
  case (Pair rc1 d1)
  show ?thesis
  proof (cases "rc1 = NGX_OK")
    case False
    from huff_decode_bits_ERROR [OF Pair False unat_nibbles(1)]
    have "prefix huff_eos (huff_pending (hs_state d) @ bits_of 4 (unat (drop_bit 4 ch)))" ..
    then have "prefix huff_eos ((huff_pending (hs_state d) @ bits_of 4 (unat (drop_bit 4 ch))) @
        bits_of 4 (unat (ch AND 0xf)))"
      by (rule prefix_prefix)
    then have "prefix (concat (map huff_code []) @ huff_eos) (huff_pending (hs_state d) @ byte_bits ch)"
      unfolding byte_bits_nibbles by simp
    then show ?thesis by blast
  next
    case True
    from huff_decode_bits_OK [OF Pair [unfolded True]] obtain o1 where o1:
      "huff_pending (hs_state d) @ bits_of 4 (unat (drop_bit 4 ch)) =
         concat (map huff_code o1) @ huff_pending (hs_state d1)" by auto
    obtain rc2 d2 where 2: "ngx_http_v2_huff_decode_bits (ch AND 0xf) d1 = (rc2, d2)"
      by (metis prod.exhaust)
    with assms Pair True have "rc2 \<noteq> NGX_OK" by (auto split: ngx_rc.splits)
    from huff_decode_bits_ERROR [OF 2 this unat_nibbles(2)]
    have "prefix (concat (map huff_code o1) @ huff_eos) (huff_pending (hs_state d) @ byte_bits ch)"
      unfolding byte_bits_nibbles append.assoc [symmetric] o1 by simp
    then show ?thesis by blast
  qed
qed

interpretation huff: table_decoder huff_code huff_eos byte_bits huff_pending huff_byte_step
proof unfold_locales
  show "huff_pending q @ byte_bits x = concat (map huff_code out) @ huff_pending q'"
    if "huff_byte_step q x = Some (q', out)" for q x q' out
    using that huff_decode_byte_OK [of "\<lparr>hs_state = q, hs_ending = 1, hs_dst = []\<rparr>" x]
    by (auto simp: huff_byte_step_def split: prod.splits ngx_rc.splits)
  show "\<exists>out. prefix (concat (map huff_code out) @ huff_eos) (huff_pending q @ byte_bits x)"
    if "huff_byte_step q x = None" for q x
    using that huff_decode_byte_ERROR [of "\<lparr>hs_state = q, hs_ending = 1, hs_dst = []\<rparr>" x]
    by (cases "huff_decode_bytes \<lparr>hs_state = q, hs_ending = 1, hs_dst = []\<rparr> [x]")
      (auto simp: huff_byte_step_def split: prod.splits ngx_rc.splits)
qed (fact huff_code_prefix_free huff_code_eos huff_pending_incomplete)+

subsection \<open>A whole string\<close>

lemma huff_decode_bytes_Cons:
  "huff_decode_bytes d (ch # src) =
     (case huff_decode_bytes d [ch] of
        (NGX_OK, d') \<Rightarrow> huff_decode_bytes d' src
      | (rc, d') \<Rightarrow> (NGX_ERROR, d'))"
  by (auto split: prod.splits ngx_rc.splits)

lemma huff_decode_bytes_append:
  "huff_decode_bytes d (xs @ ys) =
     (case huff_decode_bytes d xs of
        (NGX_OK, d') \<Rightarrow> huff_decode_bytes d' ys
      | (rc, d') \<Rightarrow> (NGX_ERROR, d'))"
proof (induction xs arbitrary: d)
  case Nil
  then show ?case by simp
next
  case (Cons x xs)
  show ?case
    by (simp add: Cons.IH split: prod.splits ngx_rc.splits)
qed

lemma huff_decode_bytes_rc: "fst (huff_decode_bytes d src) \<in> {NGX_OK, NGX_ERROR}"
  by (induction d src rule: huff_decode_bytes.induct) (auto split: prod.splits ngx_rc.splits)

lemma huff_byte_step_eq:
  "huff_byte_step (hs_state d) ch =
     (case huff_decode_bytes d [ch] of
        (NGX_OK, d') \<Rightarrow> Some (hs_state d', drop (length (hs_dst d)) (hs_dst d'))
      | _ \<Rightarrow> None)"
  by (simp add: huff_byte_step_def ngx_http_v2_huff_decode_bits_def Let_def)

lemma huff_decode_bytes_run:
  "case decode_run huff_byte_step (hs_state d) src of
     None \<Rightarrow> fst (huff_decode_bytes d src) = NGX_ERROR
   | Some (q, out) \<Rightarrow> \<exists>d'. huff_decode_bytes d src = (NGX_OK, d') \<and> hs_state d' = q \<and>
       hs_dst d' = hs_dst d @ out \<and>
       hs_ending d' = (if src = [] then hs_ending d else hs_ending d') \<and>
       (src \<noteq> [] \<longrightarrow>
          (hs_ending d' \<noteq> 0 \<longleftrightarrow> huff_pending q = replicate (length (huff_pending q)) True))"
proof (induction src arbitrary: d)
  case Nil
  then show ?case by simp
next
  case (Cons ch src)
  obtain rc d1 where one: "huff_decode_bytes d [ch] = (rc, d1)" by (metis prod.exhaust)
  show ?case
  proof (cases "rc = NGX_OK")
    case False
    then have "huff_byte_step (hs_state d) ch = None"
      by (simp add: huff_byte_step_eq one split: ngx_rc.splits del: huff_decode_bytes.simps)
    with False show ?thesis
      unfolding huff_decode_bytes_Cons [of d ch src] one by (simp split: ngx_rc.splits)
  next
    case True
    with one have ok: "huff_decode_bytes d [ch] = (NGX_OK, d1)" by simp
    from huff_decode_byte_OK [OF ok] obtain o1 where o1: "hs_dst d1 = hs_dst d @ o1"
      and e1: "hs_ending d1 \<noteq> 0 \<longleftrightarrow>
        huff_pending (hs_state d1) = replicate (length (huff_pending (hs_state d1))) True" by auto
    have st: "huff_byte_step (hs_state d) ch = Some (hs_state d1, o1)"
      by (simp add: huff_byte_step_eq ok o1 del: huff_decode_bytes.simps)
    have eq: "huff_decode_bytes d (ch # src) = huff_decode_bytes d1 src"
      unfolding huff_decode_bytes_Cons [of d ch src] ok by simp
    show ?thesis
      using Cons.IH [of d1] st o1 e1 unfolding eq
      by (cases "src = []") (auto split: option.splits)
  qed
qed

lemma huff_ones_prefix: "strict_prefix (replicate k True) huff_eos \<longleftrightarrow> k < 30"
proof
  show "strict_prefix (replicate k True) huff_eos" if "k < 30"
    using that by (auto simp: huff_eos_ones strict_prefix_def prefix_def
        intro: exI [of _ "replicate (30 - k) True"] simp flip: replicate_add)
qed (auto dest: prefix_length_less simp: huff_eos_ones)

lemma huff_pending_short:
  assumes "huff_pending q = replicate (length (huff_pending q)) True"
  shows "length (huff_pending q) < 30"
  using huff_pfx_bounds [of "unat q"] huff_sym_bounds(1) [of "snd (snd (huff_pfx (unat q)))"]
  by (simp add: huff_pending_def)

lemma huff_decode_accepts:
  "ngx_http_v2_huff_decode 0 src dst True = (NGX_OK, 0, dst @ s) \<longleftrightarrow>
   (\<exists>k < 30. bytes_bits src = concat (map huff_code s) @ replicate k True)"
proof
  let ?d0 = "\<lparr>hs_state = 0, hs_ending = 1, hs_dst = dst\<rparr>"
  assume "ngx_http_v2_huff_decode 0 src dst True = (NGX_OK, 0, dst @ s)"
  then obtain d where run: "huff_decode_bytes ?d0 src = (NGX_OK, d)" and e: "hs_ending d \<noteq> 0"
    and out: "hs_dst d = dst @ s"
    by (auto simp: ngx_http_v2_huff_decode_def split: prod.splits ngx_rc.splits if_splits)
  with huff_decode_bytes_run [of ?d0 src]
  have q: "decode_run huff_byte_step 0 src = Some (hs_state d, s)"
    and "src \<noteq> [] \<Longrightarrow> huff_pending (hs_state d) = replicate (length (huff_pending (hs_state d))) True"
    by (auto split: option.splits)
  then have ones: "huff_pending (hs_state d) = replicate (length (huff_pending (hs_state d))) True"
    by (cases "src = []") auto
  from huff.decode_sound [OF q] ones huff_pending_short [OF ones]
  show "\<exists>k < 30. bytes_bits src = concat (map huff_code s) @ replicate k True"
    by (auto simp: bytes_bits_def)
next
  let ?d0 = "\<lparr>hs_state = 0, hs_ending = 1, hs_dst = dst\<rparr>"
  assume "\<exists>k < 30. bytes_bits src = concat (map huff_code s) @ replicate k True"
  then obtain k where k: "k < 30"
    and bits: "huff_pending 0 @ concat (map byte_bits src) = concat (map huff_code s) @ replicate k True"
    by (auto simp: bytes_bits_def)
  from huff.decode_complete [OF bits] k obtain q
    where "decode_run huff_byte_step 0 src = Some (q, s)" and "huff_pending q = replicate k True"
    by (auto simp: huff_ones_prefix)
  with huff_decode_bytes_run [of ?d0 src] obtain d
    where "huff_decode_bytes ?d0 src = (NGX_OK, d)" and "hs_dst d = dst @ s" and "hs_ending d \<noteq> 0"
    by (cases "src = []") auto
  then show "ngx_http_v2_huff_decode 0 src dst True = (NGX_OK, 0, dst @ s)"
    by (simp add: ngx_http_v2_huff_decode_def)
qed

text \<open>C8. The decoder accepts a string and appends \<open>s\<close> exactly when the bits of the string are the
  codes of the bytes of \<open>s\<close> followed by ones, fewer than the thirty of the end-of-string code.\<close>

theorem huff_decode_accepts_iff:
  "ngx_http_v2_huff_decode 0 src dst True = (NGX_OK, 0, dst @ s) \<longleftrightarrow>
   (\<exists>k < 30. bytes_bits src = concat (map huff_code s) @ replicate k True)"
  by (rule huff_decode_accepts)

text \<open>The local \<^verbatim>\<open>ending\<close> is overwritten by the first group of bits.\<close>

lemma huff_decode_bytes_ending:
  assumes "src \<noteq> []"
  shows "(case huff_decode_bytes (d\<lparr>hs_ending := e\<rparr>) src of
      (rc, d') \<Rightarrow> (rc, hs_state d', hs_dst d', rc = NGX_OK \<and> hs_ending d' \<noteq> 0)) =
    (case huff_decode_bytes d src of
      (rc, d') \<Rightarrow> (rc, hs_state d', hs_dst d', rc = NGX_OK \<and> hs_ending d' \<noteq> 0))"
  using assms by (cases src) (simp_all add: ngx_http_v2_huff_decode_bits_def Let_def)

lemma ngx_http_v2_huff_decode_ending:
  assumes "src \<noteq> []"
  shows "ngx_http_v2_huff_decode (hs_state d) src (hs_dst d) is_last =
     (case huff_decode_bytes d src of
        (NGX_OK, d') \<Rightarrow>
          if is_last then
            (if hs_ending d' = 0 then (NGX_ERROR, hs_state d', hs_dst d')
             else (NGX_OK, 0, hs_dst d'))
          else (NGX_OK, hs_state d', hs_dst d')
      | (_, d') \<Rightarrow> (NGX_ERROR, hs_state d', hs_dst d'))"
  using huff_decode_bytes_ending [OF assms, where d = d and e = 1]
  by (cases d) (auto simp: ngx_http_v2_huff_decode_def split: prod.splits ngx_rc.splits)

text \<open>Decoding a string in two pieces, the state carried from one call to the next, is decoding it
  at once, whenever the last piece is not empty.\<close>

theorem huff_decode_pieces:
  assumes "ys \<noteq> []"
  shows "ngx_http_v2_huff_decode st (xs @ ys) dst is_last =
     (case ngx_http_v2_huff_decode st xs dst False of
        (NGX_OK, st', dst') \<Rightarrow> ngx_http_v2_huff_decode st' ys dst' is_last
      | r \<Rightarrow> r)"
proof (cases "huff_decode_bytes \<lparr>hs_state = st, hs_ending = 1, hs_dst = dst\<rparr> xs")
  case (Pair rc d)
  with ngx_http_v2_huff_decode_ending [OF assms, of d is_last] show ?thesis
    by (auto simp: ngx_http_v2_huff_decode_def huff_decode_bytes_append split: ngx_rc.splits prod.splits)
qed

theorem huff_decode_pieces_witness:
  "ngx_http_v2_huff_decode 0 ([0x1c] @ [0x64]) [] True =
     (case ngx_http_v2_huff_decode 0 [0x1c] [] False of
        (NGX_OK, st', dst') \<Rightarrow> ngx_http_v2_huff_decode st' [0x64] dst' True
      | r \<Rightarrow> r)"
  by (rule huff_decode_pieces) simp

end
