(* ===== verification/Ngx_String.thy ===== *)
theory Ngx_String
  imports Prelude
begin

section \<open>Characters, copies and comparisons\<close>

text \<open>
  The small routines of \<^verbatim>\<open>src/core/ngx_string.c\<close> and \<^verbatim>\<open>src/core/ngx_string.h\<close>. A
  null-terminated string is a byte list that contains its terminating zero; a routine that would
  read past the end of the list it is given returns \<^const>\<open>None\<close>.
\<close>

definition ngx_tolower :: "byte \<Rightarrow> byte" where
  "ngx_tolower c = (if chr_A \<le> c \<and> c \<le> chr_Z then c OR 0x20 else c)"

definition ngx_toupper :: "byte \<Rightarrow> byte" where
  "ngx_toupper c = (if chr_a \<le> c \<and> c \<le> chr_z then c AND NOT 0x20 else c)"

lemma unat_tolower:
  "unat (ngx_tolower b) = (if 65 \<le> unat b \<and> unat b \<le> 90 then unat b + 32 else unat b)"
  by (induct b rule: byte_all) (simp_all add: ngx_tolower_def)

fun ngx_strlow :: "byte list \<Rightarrow> byte list" where
  "ngx_strlow [] = []"
| "ngx_strlow (c # src) = ngx_tolower c # ngx_strlow src"

lemma ngx_strlow_map: "ngx_strlow src = map ngx_tolower src"
  by (induction src) simp_all

end
