(* ===== verification/Http_V2_Huff_Encode.thy ===== *)
theory Http_V2_Huff_Encode
  imports Http_V2_Huff_Decode Ngx_String
begin

section \<open>The HTTP/2 Huffman encoder\<close>

text \<open>
  \<^verbatim>\<open>ngx_http_v2_huff_encode\<close> of \<^verbatim>\<open>src/http/v2/ngx_http_v2_huff_encode.c\<close>, for the 64-bit build:
  the codes are collected in the 64-bit \<^verbatim>\<open>buf\<close>, which is written out whenever it is full. The bytes
  written so far are the list \<^verbatim>\<open>dst\<close>, and \<^verbatim>\<open>hlen\<close> is its length. The result is the returned
  length with the bytes written; the length is 0 when the encoding would not be shorter than the
  source.
\<close>

definition ngx_http_v2_huff_encode_buf :: "u64 \<Rightarrow> byte list" where
  "ngx_http_v2_huff_encode_buf buf =
     [ucast (drop_bit 56 buf), ucast (drop_bit 48 buf), ucast (drop_bit 40 buf),
      ucast (drop_bit 32 buf), ucast (drop_bit 24 buf), ucast (drop_bit 16 buf),
      ucast (drop_bit 8 buf), ucast buf]"

fun huff_encode_loop ::
  "huff_encode_code list \<Rightarrow> nat \<Rightarrow> byte list \<Rightarrow> u64 \<Rightarrow> u64 \<Rightarrow> byte list \<Rightarrow>
     (byte list \<times> u64 \<times> u64) + byte list" where
  "huff_encode_loop table len dst buf pending [] = Inl (dst, buf, pending)"
| "huff_encode_loop table len dst buf pending (b # src) =
     (let next = table ! unat b;
          code = ucast (he_code next);
          pending = pending + ucast (he_len next) in
      if pending < 64 then
        huff_encode_loop table len dst (buf OR push_bit (unat (64 - pending)) code) pending src
      else if length dst + 8 \<ge> len then Inr dst
      else
        (let pending = pending - 64;
             buf = buf OR drop_bit (unat pending) code in
         huff_encode_loop table len (dst @ ngx_http_v2_huff_encode_buf buf)
           (if pending \<noteq> 0 then push_bit (unat (64 - pending)) code else 0) pending src))"

text \<open>The last loop writes the \<open>k\<close> remaining bytes of \<^verbatim>\<open>buf\<close>, the highest first.\<close>

fun huff_encode_flush :: "u64 \<Rightarrow> nat \<Rightarrow> byte list" where
  "huff_encode_flush buf 0 = []"
| "huff_encode_flush buf (Suc k) = ucast (drop_bit (8 * k) buf) # huff_encode_flush buf k"

definition ngx_http_v2_huff_encode :: "byte list \<Rightarrow> bool \<Rightarrow> nat \<times> byte list" where
  "ngx_http_v2_huff_encode src lower =
     (let table = (if lower then ngx_http_v2_huff_encode_table_lc
                   else ngx_http_v2_huff_encode_table);
          len = length src in
      case huff_encode_loop table len [] 0 0 src of
        Inr dst \<Rightarrow> (0, dst)
      | Inl (dst, buf, pending) \<Rightarrow>
          if pending = 0 then (length dst, dst)
          else
            (let buf = buf OR drop_bit (unat pending) (- 1);
                 pending = (pending + 7) AND NOT 7 in
             if length dst + unat pending div 8 \<ge> len then (0, dst)
             else
               (let buf = drop_bit (unat (64 - pending)) buf;
                    dst = dst @ huff_encode_flush buf (unat pending div 8) in
                (length dst, dst))))"

subsection \<open>The lower-case table\<close>

lemma huff_table_lc_slices:
  "ngx_http_v2_huff_encode_table_lc =
     take 65 ngx_http_v2_huff_encode_table @
     take 26 (drop 97 ngx_http_v2_huff_encode_table) @
     drop 91 ngx_http_v2_huff_encode_table"
  by (simp add: ngx_http_v2_huff_encode_table_def ngx_http_v2_huff_encode_table_lc_def)

lemma huff_table_lc_nth:
  "ngx_http_v2_huff_encode_table_lc ! unat b = ngx_http_v2_huff_encode_table ! unat (ngx_tolower b)"
  using unat_byte_less [of b] by (auto simp: huff_table_lc_slices nth_append unat_tolower add.commute)

subsection \<open>Writing the buffer out\<close>

lemma bits_of_ucast_byte: "byte_bits (ucast (w :: u64)) = bits_of 8 (unat w)"
proof -
  have "unat (ucast w :: byte) = unat w mod 2 ^ 8"
    by (subst unsigned_ucast_eq) (simp add: take_bit_eq_mod)
  then show ?thesis unfolding byte_bits_def by (simp only: bits_of_mod)
qed

lemma bytes_bits_flush: "bytes_bits (huff_encode_flush buf k) = bits_of (8 * k) (unat buf)"
proof (induction k)
  case 0
  then show ?case by simp
next
  case (Suc k)
  have "bits_of (8 * Suc k) (unat buf) =
      bits_of 8 (unat buf div 2 ^ (8 * k)) @ bits_of (8 * k) (unat buf)"
    using bits_of_div_append [of 8 "8 * Suc k" "unat buf"] by (simp only: bits_of_mod) simp
  with Suc show ?case by (simp only: huff_encode_flush.simps bytes_bits_simps bits_of_ucast_byte
        unat_drop_bit)
qed

lemma huff_encode_buf_flush: "ngx_http_v2_huff_encode_buf buf = huff_encode_flush buf 8"
  by (simp add: ngx_http_v2_huff_encode_buf_def eval_nat_numeral)

lemma length_huff_encode_flush [simp]: "length (huff_encode_flush buf k) = k"
  by (induction k) simp_all

lemma length_huff_encode_buf [simp]: "length (ngx_http_v2_huff_encode_buf buf) = 8"
  by (simp add: ngx_http_v2_huff_encode_buf_def)

subsection \<open>The loop\<close>

text \<open>The bits of an entry of an encoding table, and what the loop needs of a table.\<close>

definition entry_bits :: "huff_encode_code \<Rightarrow> bool list" where
  "entry_bits e = bits_of (unat (he_len e)) (unat (he_code e))"

definition table_ok :: "huff_encode_code list \<Rightarrow> bool" where
  "table_ok table = (\<forall>b :: byte. unat (he_len (table ! unat b)) \<le> 30 \<and>
     unat (he_code (table ! unat b)) < 2 ^ unat (he_len (table ! unat b)))"

text \<open>\<open>holds buf p v\<close>: the top \<open>p\<close> bits of the buffer are those of \<open>v\<close>, the others are 0.\<close>

definition holds :: "u64 \<Rightarrow> nat \<Rightarrow> nat \<Rightarrow> bool" where
  "holds buf p v \<longleftrightarrow> p < 64 \<and> v < 2 ^ p \<and> unat buf = v * 2 ^ (64 - p)"

lemma holds_shift_in:
  assumes "holds buf p v" and "unat code < 2 ^ l" and "p + l < 64"
  shows "holds (buf OR push_bit (64 - (p + l)) code) (p + l) (v * 2 ^ l + unat code)"
proof -
  let ?r = "64 - (p + l)"
  have "unat code * 2 ^ ?r < 2 ^ l * 2 ^ ?r" using assms(2) by simp
  also have "2 ^ l * 2 ^ ?r = (2 :: nat) ^ (64 - p)"
    using assms(3) by (simp flip: power_add)
  finally have c: "unat code * 2 ^ ?r < 2 ^ (64 - p)" .
  have "(2::nat) ^ (64 - p) \<le> 2 ^ 64" by (rule power_increasing) simp_all
  with c have "unat (push_bit ?r code) = unat code * 2 ^ ?r"
    unfolding unat_push_bit_u64 by (intro mod_less) linarith
  then have "unat (buf OR push_bit ?r code) = v * 2 ^ (64 - p) + unat code * 2 ^ ?r"
    using assms(1) c by (simp add: holds_def unsigned_or_eq or_shift_add)
  also have "\<dots> = (v * 2 ^ l + unat code) * 2 ^ ?r"
    using \<open>2 ^ l * 2 ^ ?r = (2 :: nat) ^ (64 - p)\<close> by (simp add: distrib_right mult.assoc)
  finally have "unat (buf OR push_bit ?r code) = (v * 2 ^ l + unat code) * 2 ^ ?r" .
  moreover have "v * 2 ^ l + unat code < 2 ^ (p + l)"
  proof -
    from assms(1) have "Suc v * 2 ^ l \<le> 2 ^ p * 2 ^ l" by (intro mult_le_mono1) (simp add: holds_def)
    with assms(2) show ?thesis by (simp add: power_add)
  qed
  ultimately show ?thesis using assms(3) by (simp add: holds_def)
qed

lemma holds_fill:
  assumes "holds buf p v" and "w < 2 ^ (64 - p)" and "unat x = w"
  shows "unat (buf OR x) = v * 2 ^ (64 - p) + w"
  using assms by (simp add: holds_def unsigned_or_eq or_shift_add)

lemma holds_rest:
  assumes "q < 64"
  shows "holds (if q = 0 then 0 else push_bit (64 - q) code) q (unat code mod 2 ^ q)"
proof (cases "q = 0")
  case True
  then show ?thesis by (simp add: holds_def)
next
  case False
  have "unat (push_bit (64 - q) code) = (unat code * 2 ^ (64 - q)) mod (2 ^ q * 2 ^ (64 - q))"
    unfolding unat_push_bit_u64 using assms by (simp flip: power_add)
  also have "\<dots> = (unat code mod 2 ^ q) * 2 ^ (64 - q)" by (rule mult_mod_left [symmetric])
  finally show ?thesis using False assms by (simp add: holds_def)
qed

lemma huff_encode_emit:
  assumes "holds buf p v" and "unat code < 2 ^ l" and "64 \<le> p + l" and "l \<le> 30"
  shows "bytes_bits (ngx_http_v2_huff_encode_buf (buf OR drop_bit (p + l - 64) code)) @
      bits_of (p + l - 64) (unat code mod 2 ^ (p + l - 64)) = bits_of p v @ bits_of l (unat code)"
proof -
  let ?q = "p + l - 64"
  have l: "l = (64 - p) + ?q" and p: "64 = p + (64 - p)"
    using assms(1,3) by (simp_all add: holds_def)
  have "unat code div 2 ^ ?q < 2 ^ (64 - p)"
    using assms(2) l by (metis less_mult_imp_div_less power_add)
  then have w: "unat (buf OR drop_bit ?q code) = v * 2 ^ (64 - p) + unat code div 2 ^ ?q"
    and c: "unat code div 2 ^ ?q < 2 ^ (64 - p)"
    using assms(1) by (simp_all add: holds_fill unat_drop_bit)
  have "bytes_bits (ngx_http_v2_huff_encode_buf (buf OR drop_bit ?q code)) =
      bits_of p v @ bits_of (64 - p) (unat code div 2 ^ ?q)"
    using bits_of_append [OF c, of p v] p
    by (simp add: huff_encode_buf_flush bytes_bits_flush w)
  moreover have "bits_of l (unat code) =
      bits_of (64 - p) (unat code div 2 ^ ?q) @ bits_of ?q (unat code mod 2 ^ ?q)"
    using bits_of_div_append [of "64 - p" l "unat code"] l
    by (metis add_diff_cancel_left' le_add1)
  ultimately show ?thesis by simp
qed

lemma huff_encode_loop_correct:
  assumes "table_ok table" and "holds buf (unat pending) v"
    and "bytes_bits dst @ bits_of (unat pending) v @
      concat (map (\<lambda>b. entry_bits (table ! unat b)) src) = bits"
  shows "case huff_encode_loop table len dst buf pending src of
      Inl (dst', buf', pending') \<Rightarrow>
        \<exists>v'. holds buf' (unat pending') v' \<and> (dst' = dst \<or> length dst' < len) \<and>
          bytes_bits dst' @ bits_of (unat pending') v' = bits
    | Inr dst' \<Rightarrow> 8 * len \<le> length bits"
  using assms(2,3)
proof (induction src arbitrary: dst buf pending v)
  case Nil
  then show ?case by auto
next
  case (Cons b src)
  let ?e = "table ! unat b"
  let ?l = "unat (he_len ?e)" and ?p = "unat pending"
  define code :: u64 where "code = ucast (he_code ?e)"
  define pending' :: u64 where "pending' = pending + ucast (he_len ?e)"
  have code: "unat code = unat (he_code ?e)" and len: "unat (ucast (he_len ?e) :: u64) = ?l"
    unfolding code_def by (simp_all only: unat_ucast_u32_u64)
  have l: "?l \<le> 30" and c: "unat code < 2 ^ ?l"
    using assms(1) code by (simp_all add: table_ok_def)
  have p: "?p < 64" using Cons.prems by (simp add: holds_def)
  have p': "unat pending' = ?p + ?l"
    unfolding pending'_def using l p by (subst unat_add_lem [THEN iffD1]) (simp_all add: len)
  have e: "entry_bits ?e = bits_of ?l (unat code)" by (simp add: entry_bits_def code)
  show ?case
  proof (cases "pending' < 64")
    case True
    then have lt: "?p + ?l < 64" by (simp add: word_less_nat_alt p')
    then have "unat (64 - pending') = 64 - (?p + ?l)" by (simp add: unat_sub p' word_le_nat_alt)
    with True have step: "huff_encode_loop table len dst buf pending (b # src) =
        huff_encode_loop table len dst (buf OR push_bit (64 - (?p + ?l)) code) pending' src"
      by (simp add: Let_def code_def pending'_def)
    have "bits_of (?p + ?l) (v * 2 ^ ?l + unat code) = bits_of ?p v @ entry_bits ?e"
      unfolding e by (rule bits_of_append [OF c])
    with Cons.prems(2) holds_shift_in [OF Cons.prems(1) c lt] show ?thesis
      unfolding step by (intro Cons.IH [where v = "v * 2 ^ ?l + unat code"]) (simp_all add: p')
  next
    case False
    then have ge: "64 \<le> ?p + ?l" by (simp add: word_less_nat_alt p')
    show ?thesis
    proof (cases "length dst + 8 \<ge> len")
      case True
      moreover have "8 * length dst + 64 \<le> length bits"
        using Cons.prems(2) ge by (auto simp: e)
      ultimately show ?thesis
        using False by (simp add: Let_def code_def [symmetric] pending'_def [symmetric])
    next
      case room: False
      define q where "q = ?p + ?l - 64"
      have q: "unat (pending' - 64) = q"
        using ge by (simp add: unat_sub word_le_nat_alt p' q_def)
      have q64: "q < 64" using p l by (simp add: q_def)
      define buf' where "buf' = (if q = 0 then 0 else push_bit (64 - q) code)"
      define dst' where
        "dst' = dst @ ngx_http_v2_huff_encode_buf (buf OR drop_bit q code)"
      have "pending' - 64 \<le> 64"
        unfolding word_le_nat_alt q using q64 by simp
      then have "unat (64 - (pending' - 64)) = unat (64 :: u64) - unat (pending' - 64)"
        by (rule unat_sub)
      then have "unat (64 - (pending' - 64)) = 64 - q" unfolding q by simp
      moreover have "pending' - 64 \<noteq> 0 \<longleftrightarrow> q \<noteq> 0"
        using q by (metis unat_0 word_unat_eq_iff)
      ultimately have step: "huff_encode_loop table len dst buf pending (b # src) =
          huff_encode_loop table len dst' buf' (pending' - 64) src"
        using False room q
        by (simp add: Let_def code_def [symmetric] pending'_def [symmetric] buf'_def dst'_def)
      have h: "holds buf' q (unat code mod 2 ^ q)"
        unfolding buf'_def by (rule holds_rest [OF q64])
      have bits: "bytes_bits dst' @ bits_of q (unat code mod 2 ^ q) =
          bytes_bits dst @ bits_of ?p v @ entry_bits ?e"
        using huff_encode_emit [OF Cons.prems(1) c ge l] by (simp add: dst'_def q_def e)
      have bits': "bytes_bits dst' @ bits_of q (unat code mod 2 ^ q) @
          concat (map (\<lambda>b. entry_bits (table ! unat b)) src) = bits"
        using Cons.prems(2) unfolding append.assoc [symmetric] bits by simp
      have "length dst' < len" using room by (simp add: dst'_def)
      moreover have "case huff_encode_loop table len dst' buf' (pending' - 64) src of
          Inl (dst1, buf1, pending1) \<Rightarrow>
            \<exists>v'. holds buf1 (unat pending1) v' \<and> (dst1 = dst' \<or> length dst1 < len) \<and>
              bytes_bits dst1 @ bits_of (unat pending1) v' = bits
        | Inr dst1 \<Rightarrow> 8 * len \<le> length bits"
        using h bits'
        by (intro Cons.IH [where v = "unat code mod 2 ^ q"]) (simp_all add: q)
      ultimately show ?thesis unfolding step by (auto split: sum.splits)
    qed
  qed
qed

subsection \<open>The whole encoder\<close>

lemma unat_align_8:
  assumes "unat (p :: u64) < 64"
  shows "unat ((p + 7) AND NOT 7) = 8 * ((unat p + 7) div 8)"
proof -
  have "(p + 7) AND NOT 7 = push_bit 3 (drop_bit 3 (p + 7))"
    using and_not_mask_push_drop [of "p + 7" 3] by (simp add: mask_eq_exp_minus_1)
  moreover have "unat (p + 7) = unat p + 7"
    using assms by (subst unat_add_lem [THEN iffD1]) simp_all
  ultimately have "unat ((p + 7) AND NOT 7) = ((unat p + 7) div 2 ^ 3 * 2 ^ 3) mod 2 ^ 64"
    by (simp only: unat_push_bit_u64 unat_drop_bit)
  also have "\<dots> = (unat p + 7) div 2 ^ 3 * 2 ^ 3"
    using assms by (intro mod_less) (simp add: le_less_trans [OF div_times_less_eq_dividend])
  finally show ?thesis by simp
qed

lemma ones_split:
  "v * 2 ^ (m + n) + (2 ^ (m + n) - 1) = (v * 2 ^ m + (2 ^ m - 1)) * 2 ^ n + (2 ^ n - (1 :: nat))"
  by (cases "2 ^ m :: nat"; cases "2 ^ n :: nat") (simp_all add: power_add algebra_simps)

lemma div_add_ones: "(v * 2 ^ n + (2 ^ n - 1)) div 2 ^ n = (v :: nat)"
  by (rule div_nat_eqI; cases "2 ^ n :: nat") (simp_all add: mult.commute)

lemma ones_div: "(2 ^ (m + n) - 1) div 2 ^ n = 2 ^ m - (1 :: nat)"
  using ones_split [of 0 m n] div_add_ones [of "2 ^ m - 1" n] by simp

text \<open>The last bits are padded with ones to whole bytes.\<close>

lemma huff_encode_tail:
  fixes p :: u64
  assumes h: "holds buf (unat p) v" and "p \<noteq> 0"
    and k: "k = (unat p + 7) div 8"
  shows "bytes_bits (huff_encode_flush
      (drop_bit (unat (64 - ((p + 7) AND NOT 7))) (buf OR drop_bit (unat p) (- 1))) k) =
    bits_of (unat p) v @ replicate (8 * k - unat p) True"
proof -
  let ?p = "unat p"
  have p: "?p < 64" and buf: "unat buf = v * 2 ^ (64 - ?p)" using h by (simp_all add: holds_def)
  have "0 < ?p" using assms(2) by (metis gr0I unat_0 word_unat_eq_iff)
  with p k have k': "?p \<le> 8 * k" "8 * k \<le> 64" by presburger+
  have "unat (- 1 :: u64) = 2 ^ 64 - 1" by (simp add: unsigned_minus_1_eq_mask mask_eq_exp_minus_1)
  moreover have "(2 ^ 64 - 1) div 2 ^ ?p = 2 ^ (64 - ?p) - (1 :: nat)"
    using ones_div [of "64 - ?p" ?p] p by simp
  ultimately have ones: "unat (drop_bit ?p (- 1) :: u64) = 2 ^ (64 - ?p) - 1"
    by (simp only: unat_drop_bit)
  have B: "unat (buf OR drop_bit ?p (- 1)) = v * 2 ^ (64 - ?p) + (2 ^ (64 - ?p) - 1)"
    by (rule holds_fill [OF h _ ones]) simp
  have "unat (64 - ((p + 7) AND NOT 7)) = unat (64 :: u64) - unat ((p + 7) AND NOT 7)"
    by (rule unat_sub) (unfold word_le_nat_alt unat_align_8 [OF p], use k k' in simp)
  then have s: "unat (64 - ((p + 7) AND NOT 7)) = 64 - 8 * k"
    unfolding unat_align_8 [OF p] k by simp
  have split: "64 - ?p = (8 * k - ?p) + (64 - 8 * k)" using k' by simp
  have "bits_of (8 * k) (unat (drop_bit (64 - 8 * k) (buf OR drop_bit ?p (- 1)))) =
      bits_of (?p + (8 * k - ?p)) (v * 2 ^ (8 * k - ?p) + (2 ^ (8 * k - ?p) - 1))"
  proof -
    have "v * 2 ^ (64 - ?p) + (2 ^ (64 - ?p) - 1) =
        (v * 2 ^ (8 * k - ?p) + (2 ^ (8 * k - ?p) - 1)) * 2 ^ (64 - 8 * k) + (2 ^ (64 - 8 * k) - 1)"
      unfolding split by (rule ones_split)
    then show ?thesis
      unfolding unat_drop_bit B using k'(1) by (simp only: div_add_ones le_add_diff_inverse)
  qed
  also have "\<dots> = bits_of ?p v @ replicate (8 * k - ?p) True" by (rule bits_of_mult_add_ones)
  finally show ?thesis unfolding bytes_bits_flush s .
qed

lemma table_ok_tables:
  "table_ok ngx_http_v2_huff_encode_table" "table_ok ngx_http_v2_huff_encode_table_lc"
proof -
  show "table_ok ngx_http_v2_huff_encode_table"
    using huff_sym_bounds(1,2) [OF unat_byte_less] by (simp add: table_ok_def huff_sym_def)
  then show "table_ok ngx_http_v2_huff_encode_table_lc"
    by (simp add: table_ok_def huff_table_lc_nth)
qed

lemma entry_bits_tables:
  "entry_bits (ngx_http_v2_huff_encode_table ! unat b) = huff_code b"
  "entry_bits (ngx_http_v2_huff_encode_table_lc ! unat b) = huff_code (ngx_tolower b)"
  by (simp_all add: entry_bits_def huff_code_def huff_sym_def huff_table_lc_nth)

definition huff_bits :: "byte list \<Rightarrow> bool list" where
  "huff_bits s = concat (map huff_code s)"

text \<open>The number of bytes that hold the bits, the last one padded.\<close>

definition huff_size :: "byte list \<Rightarrow> nat" where
  "huff_size s = (length (huff_bits s) + 7) div 8"

lemma huff_encode_correct:
  "let s = (if lower then ngx_strlow src else src);
       (hlen, dst) = ngx_http_v2_huff_encode src lower in
   hlen = (if huff_size s < length src then huff_size s else 0) \<and>
   (hlen \<noteq> 0 \<longrightarrow> length dst = hlen \<and>
      bytes_bits dst = huff_bits s @ replicate (8 * hlen - length (huff_bits s)) True)"
proof -
  define s where "s = (if lower then ngx_strlow src else src)"
  define table where "table = (if lower then ngx_http_v2_huff_encode_table_lc
    else ngx_http_v2_huff_encode_table)"
  have bits: "bytes_bits [] @ bits_of (unat (0 :: u64)) 0 @
      concat (map (\<lambda>b. entry_bits (table ! unat b)) src) = huff_bits s"
    by (simp add: huff_bits_def s_def table_def entry_bits_tables ngx_strlow_map comp_def)
  have h0: "holds 0 (unat (0 :: u64)) 0" by (simp add: holds_def)
  have tok: "table_ok table" by (simp add: table_def table_ok_tables)
  note loop = huff_encode_loop_correct [OF tok h0 bits, of "length src"]
  show ?thesis
  proof (cases "huff_encode_loop table (length src) [] 0 0 src")
    case (Inr dst)
    with loop have "length src \<le> huff_size s" by (simp add: huff_size_def)
    with Inr show ?thesis
      by (simp add: ngx_http_v2_huff_encode_def table_def [symmetric] s_def [symmetric])
  next
    case (Inl r)
    obtain dst buf pending where r: "r = (dst, buf, pending)" by (cases r)
    with Inl loop obtain v where h: "holds buf (unat pending) v"
      and room: "dst = [] \<or> length dst < length src"
      and bs: "bytes_bits dst @ bits_of (unat pending) v = huff_bits s" by auto
    from bs have len: "length (huff_bits s) = 8 * length dst + unat pending"
      by (metis length_append length_bits_of length_bytes_bits)
    show ?thesis
    proof (cases "pending = 0")
      case True
      with len room have "huff_size s = length dst" by (simp add: huff_size_def)
      with True Inl r bs len room show ?thesis
        by (auto simp: ngx_http_v2_huff_encode_def Let_def table_def [symmetric] s_def [symmetric])
    next
      case False
      define k where "k = (unat pending + 7) div 8"
      have size: "huff_size s = length dst + k" by (simp add: huff_size_def len k_def)
      have p: "unat pending < 64" using h by (simp add: holds_def)
      have al: "unat ((pending + 7) AND NOT 7) div 8 = k"
        unfolding unat_align_8 [OF p] by (simp add: k_def)
      show ?thesis
      proof (cases "length dst + k \<ge> length src")
        case True
        with False Inl r size al show ?thesis
          by (auto simp: ngx_http_v2_huff_encode_def Let_def table_def [symmetric] s_def [symmetric])
      next
        case fits: False
        have "8 * (length dst + k) - length (huff_bits s) = 8 * k - unat pending"
          using len by simp
        moreover note huff_encode_tail [OF h False k_def] bs
        ultimately show ?thesis
          using False fits Inl r size al
          by (auto simp: ngx_http_v2_huff_encode_def Let_def table_def [symmetric] s_def [symmetric])
      qed
    qed
  qed
qed

text \<open>C9. The encoder returns the padded codes of the source, lowered on request, exactly when they
  take fewer bytes than the source, and the length 0 otherwise.\<close>

theorem ngx_http_v2_huff_encode_correct:
  "let s = (if lower then ngx_strlow src else src);
       (hlen, dst) = ngx_http_v2_huff_encode src lower in
   hlen = (if huff_size s < length src then huff_size s else 0) \<and>
   (hlen \<noteq> 0 \<longrightarrow> length dst = hlen \<and>
      bytes_bits dst = huff_bits s @ replicate (8 * hlen - length (huff_bits s)) True)"
  by (rule huff_encode_correct)

theorem ngx_http_v2_huff_encode_correct_witness:
  "fst (ngx_http_v2_huff_encode [0x41, 0x61, 0x30] True) = 2 \<and>
   bytes_bits (snd (ngx_http_v2_huff_encode [0x41, 0x61, 0x30] True)) =
     huff_bits [0x61, 0x61, 0x30] @ [True]"
proof -
  have "huff_size [0x61, 0x61, 0x30] = 2" and "length (huff_bits [0x61, 0x61, 0x30]) = 15"
    by (simp_all add: huff_size_def huff_bits_def huff_code_def table_simps)
  with ngx_http_v2_huff_encode_correct [of True "[0x41, 0x61, 0x30]"] show ?thesis
    by (simp add: ngx_tolower_def split: prod.splits)
qed

lemma huff_roundtrip_lemma:
  assumes "ngx_http_v2_huff_encode src lower = (hlen, dst)" and "hlen \<noteq> 0"
  shows "ngx_http_v2_huff_decode 0 dst out True =
     (NGX_OK, 0, out @ (if lower then ngx_strlow src else src))"
proof -
  let ?s = "if lower then ngx_strlow src else src"
  from huff_encode_correct [of lower src] assms
  have "bytes_bits dst = huff_bits ?s @ replicate (8 * hlen - length (huff_bits ?s)) True"
    and "hlen = huff_size ?s"
    by (auto simp: Let_def split: if_splits)
  moreover from this(2) have "8 * hlen - length (huff_bits ?s) < 30"
    by (simp add: huff_size_def)
  ultimately show ?thesis
    unfolding huff_decode_accepts huff_bits_def by blast
qed

text \<open>C11. Whatever the encoder produces, the decoder reads back, lower-cased when that was asked for.\<close>

theorem huff_roundtrip:
  assumes "ngx_http_v2_huff_encode src lower = (hlen, dst)" and "hlen \<noteq> 0"
  shows "ngx_http_v2_huff_decode 0 dst out True =
     (NGX_OK, 0, out @ (if lower then ngx_strlow src else src))"
  using assms by (rule huff_roundtrip_lemma)

theorem huff_roundtrip_witness:
  "ngx_http_v2_huff_encode [0x41, 0x61, 0x30] True = (2, [0x18, 0xc1]) \<and>
   ngx_http_v2_huff_decode 0 [0x18, 0xc1] [] True = (NGX_OK, 0, [0x61, 0x61, 0x30])"
proof -
  have t: "ngx_http_v2_huff_encode_table_lc ! 65 = HE 3 5"
    "ngx_http_v2_huff_encode_table_lc ! 97 = HE 3 5" "ngx_http_v2_huff_encode_table_lc ! 48 = HE 0 5"
    by (simp_all add: ngx_http_v2_huff_encode_table_lc_def)
  have f: "huff_encode_flush b 2 = [ucast (drop_bit 8 b), ucast b]" for b
    by (simp add: numeral_2_eq_2)
  have e: "ngx_http_v2_huff_encode [0x41, 0x61, 0x30] True = (2, [0x18, 0xc1])"
    by (simp add: ngx_http_v2_huff_encode_def Let_def t f mask_eq_exp_minus_1)
  show ?thesis using e huff_roundtrip [OF e, of "[]"] by (simp add: ngx_tolower_def)
qed

end
