(* ===== verification/Http_V2_Encode.thy ===== *)
theory Http_V2_Encode
  imports Http_V2_Huff_Encode
begin

section \<open>HTTP/2 integers and string literals\<close>

text \<open>
  The writer of prefixed integers and of string literals, \<^verbatim>\<open>src/http/v2/ngx_http_v2_encode.c\<close>, and
  the reader of prefixed integers, \<^verbatim>\<open>ngx_http_v2_parse_int\<close> of \<^verbatim>\<open>src/http/v2/ngx_http_v2.c\<close>. The
  first byte of an integer shares its high bits with a tag: \<^verbatim>\<open>*pos |= value\<close> is modelled by giving
  the writer the byte it finds at \<^verbatim>\<open>*pos\<close>.
\<close>

subsection \<open>Writing\<close>

definition ngx_http_v2_prefix :: "nat \<Rightarrow> u64" where
  "ngx_http_v2_prefix bits = push_bit bits 1 - 1"

function http_v2_write_octets :: "u64 \<Rightarrow> byte list" where
  "http_v2_write_octets value =
     (if value \<ge> 128 then ucast (value mod 128 + 128) # http_v2_write_octets (value div 128)
      else [ucast value])"
  by pat_completeness auto
termination
proof (relation "measure unat")
  show "(v div 128, v) \<in> measure unat" if "128 \<le> v" for v :: u64
    using that by (simp add: unat_div word_le_nat_alt)
qed simp

declare http_v2_write_octets.simps [simp del]

definition ngx_http_v2_write_int :: "byte \<Rightarrow> u64 \<Rightarrow> u64 \<Rightarrow> byte list" where
  "ngx_http_v2_write_int first pre value =
     (if value < pre then [first OR ucast value]
      else (first OR ucast pre) # http_v2_write_octets (value - pre))"

definition NGX_HTTP_V2_ENCODE_RAW :: byte where "NGX_HTTP_V2_ENCODE_RAW = 0"
definition NGX_HTTP_V2_ENCODE_HUFF :: byte where "NGX_HTTP_V2_ENCODE_HUFF = 0x80"

definition ngx_http_v2_string_encode :: "byte list \<Rightarrow> bool \<Rightarrow> byte list" where
  "ngx_http_v2_string_encode src lower =
     (let (hlen, tmp) = ngx_http_v2_huff_encode src lower in
      if hlen > 0 then
        ngx_http_v2_write_int NGX_HTTP_V2_ENCODE_HUFF (ngx_http_v2_prefix 7) (word_of_nat hlen) @
        take hlen tmp
      else
        ngx_http_v2_write_int NGX_HTTP_V2_ENCODE_RAW (ngx_http_v2_prefix 7)
          (word_of_nat (length src)) @
        (if lower then ngx_strlow src else src))"

subsection \<open>Reading\<close>

text \<open>
  The reader is given the bytes from \<^verbatim>\<open>*pos\<close> to \<^verbatim>\<open>end\<close> and \<^verbatim>\<open>h2c->state.length\<close>, the bytes
  left of the header block. It gives an error code, or the value, the new length and the bytes from
  the new \<^verbatim>\<open>*pos\<close>. Called with no byte at all it would read out of bounds: \<^const>\<open>None\<close>.
\<close>

definition NGX_HTTP_V2_INT_OCTETS :: nat where "NGX_HTTP_V2_INT_OCTETS = 4"

text \<open>The loop, at the byte number \<open>n\<close> of the integer.\<close>

fun http_v2_parse_octets ::
    "nat \<Rightarrow> nat \<Rightarrow> u64 \<Rightarrow> nat \<Rightarrow> byte list \<Rightarrow> (ngx_rc + u64 \<times> nat) option" where
  "http_v2_parse_octets length0 n value shift [] = None"
| "http_v2_parse_octets length0 n value shift (octet # ps) =
     (let value = value + push_bit shift (ucast octet AND 0x7f) in
      if octet < 128 then
        (if Suc n > length0 then Some (Inl NGX_ERROR) else Some (Inr (value, Suc n)))
      else http_v2_parse_octets length0 (Suc n) value (shift + 7) ps)"

definition ngx_http_v2_parse_int ::
    "nat \<Rightarrow> byte list \<Rightarrow> u64 \<Rightarrow> (ngx_rc + u64 \<times> nat \<times> byte list) option" where
  "ngx_http_v2_parse_int length0 buf pre =
     (case buf of
        [] \<Rightarrow> None
      | b # ps \<Rightarrow>
          (let value = ucast b AND pre in
           if value \<noteq> pre then
             (if length0 = 0 then Some (Inl NGX_ERROR) else Some (Inr (value, length0 - 1, ps)))
           else
             (let window = take NGX_HTTP_V2_INT_OCTETS buf in
              case http_v2_parse_octets length0 1 value 0 (tl window) of
                Some (Inl rc) \<Rightarrow> Some (Inl rc)
              | Some (Inr (value, n)) \<Rightarrow> Some (Inr (value, length0 - n, drop n buf))
              | None \<Rightarrow>
                  if length window \<ge> length0 then Some (Inl NGX_ERROR)
                  else if length window = NGX_HTTP_V2_INT_OCTETS then Some (Inl NGX_DECLINED)
                  else Some (Inl NGX_AGAIN))))"

subsection \<open>Round trips\<close>

lemma and_127: "(x :: u64) AND 0x7f = x mod 128"
proof -
  have "x AND 0x7f = take_bit 7 x" by (simp add: take_bit_eq_mask mask_eq_exp_minus_1)
  then show ?thesis by (simp add: take_bit_eq_mod)
qed

lemma continuation_octet:
  fixes v :: u64
  defines "octet \<equiv> ucast (v mod 128 + 128) :: byte"
  shows "\<not> octet < 128" and "ucast octet AND (0x7f :: u64) = v mod 128"
proof -
  have m: "unat (v mod 128) = unat v mod 128" by (simp add: unat_mod)
  then have "unat (v mod 128 + 128) = unat v mod 128 + 128"
    by (subst unat_add_lem [THEN iffD1]) simp_all
  then have o: "unat octet = unat v mod 128 + 128"
    by (simp add: octet_def unat_ucast_byte)
  then show "\<not> octet < 128" by (simp add: word_less_nat_alt)
  have "unat (ucast octet AND 0x7f :: u64) = unat v mod 128"
    by (simp add: and_127 unat_mod unat_ucast_u64 o)
  with m show "ucast octet AND (0x7f :: u64) = v mod 128" by (simp only: word_unat_eq_iff)
qed

lemma last_octet:
  fixes v :: u64
  assumes "\<not> 128 \<le> v"
  shows "(ucast v :: byte) < 128" and "ucast (ucast v :: byte) AND (0x7f :: u64) = v"
proof -
  have v: "unat v < 128" using assms by (simp add: word_le_nat_alt)
  then show "(ucast v :: byte) < 128" by (simp add: word_less_nat_alt unat_ucast_byte)
  have "unat (ucast (ucast v :: byte) AND 0x7f :: u64) = unat v"
    using v by (simp add: and_127 unat_mod unat_ucast_u64 unat_ucast_byte)
  then show "ucast (ucast v :: byte) AND (0x7f :: u64) = v" by (simp only: word_unat_eq_iff)
qed

lemma push_bit_split_7: "push_bit n (v mod 128) + push_bit (n + 7) (v div 128) = push_bit n (v :: u64)"
proof -
  have "push_bit n (v mod 128) + push_bit (n + 7) (v div 128) =
      (v mod 128 + v div 128 * 128) * 2 ^ n"
    by (simp add: push_bit_eq_mult power_add algebra_simps)
  then show ?thesis by (simp add: push_bit_eq_mult mod_div_mult_eq)
qed

lemma parse_write_octets:
  assumes "length (http_v2_write_octets v) \<le> m"
  shows "http_v2_parse_octets length0 n val shift (take m (http_v2_write_octets v @ rest)) =
     (if n + length (http_v2_write_octets v) > length0 then Some (Inl NGX_ERROR)
      else Some (Inr (val + push_bit shift v, n + length (http_v2_write_octets v))))"
  using assms
proof (induction v arbitrary: m n val shift rule: http_v2_write_octets.induct)
  case (1 v)
  show ?case
  proof (cases "128 \<le> v")
    case False
    with last_octet [OF False] "1.prems" show ?thesis
      by (cases m) (simp_all add: http_v2_write_octets.simps [of v] Let_def)
  next
    case True
    let ?o = "ucast (v mod 128 + 128) :: byte"
    have w: "http_v2_write_octets v = ?o # http_v2_write_octets (v div 128)"
      using True by (simp add: http_v2_write_octets.simps [of v])
    with "1.prems" obtain m' where m: "m = Suc m'" and m': "length (http_v2_write_octets (v div 128)) \<le> m'"
      by (cases m) auto
    have v: "val + push_bit shift (v mod 128) + push_bit (shift + 7) (v div 128) = val + push_bit shift v"
      using push_bit_split_7 [of shift v] by (simp add: add.assoc)
    show ?thesis
      unfolding m w append_Cons take_Suc_Cons http_v2_parse_octets.simps Let_def
      by (simp only: continuation_octet if_False "1.IH" [OF True m'] v) simp
  qed
qed

lemma length_write_octets:
  assumes "unat v < 128 ^ Suc k"
  shows "length (http_v2_write_octets v) \<le> Suc k"
  using assms
proof (induction k arbitrary: v)
  case 0
  then show ?case by (simp add: http_v2_write_octets.simps [of v] word_le_nat_alt)
next
  case (Suc k)
  from Suc.prems have "unat (v div 128) < 128 ^ Suc k"
    by (simp add: unat_div less_mult_imp_div_less)
  from Suc.IH [OF this] show ?case by (simp add: http_v2_write_octets.simps [of v])
qed

lemma prefix_mask: "bits \<le> 8 \<Longrightarrow> ngx_http_v2_prefix bits = mask bits"
  by (simp add: ngx_http_v2_prefix_def mask_eq_exp_minus_1 push_bit_eq_mult)

lemma unat_mask_u64:
  assumes "bits \<le> 8"
  shows "unat (mask bits :: u64) = 2 ^ bits - 1"
proof -
  have "unat (mask bits :: u64) = take_bit bits (mask 64)"
    by (simp only: take_bit_minus_one_eq_mask [symmetric] unsigned_take_bit_eq
        unsigned_minus_1_eq_mask) simp
  also have "\<dots> = mask bits" using assms by simp
  finally have "unat (mask bits :: u64) = mask bits" .
  then show ?thesis by (simp only: mask_eq_exp_minus_1)
qed

text \<open>A value below the prefix, joined to the tag in the high bits of the first byte.\<close>

lemma tagged_first_octet:
  fixes value' :: u64
  assumes "bits \<le> 8" and "take_bit bits first = (0 :: byte)" and "take_bit bits value' = value'"
  shows "ucast (first OR ucast value') AND mask bits = value'"
    and "drop_bit bits (first OR ucast value') = drop_bit bits first"
proof -
  have f: "\<not> bit first i" if "i < bits" for i
    using assms(2) that by (metis bit_take_bit_iff bit_0_eq bot_apply bot_bool_def)
  have v: "i < bits" if "bit value' i" for i
    using assms(3) that by (metis bit_take_bit_iff)
  show "ucast (first OR ucast value') AND mask bits = value'"
    by (rule bit_word_eqI) (use assms(1) in \<open>fastforce simp: bit_simps dest: v f\<close>)
  show "drop_bit bits (first OR ucast value') = drop_bit bits first"
    by (rule bit_word_eqI) (use assms(1) in \<open>fastforce simp: bit_simps dest: v\<close>)
qed

lemma http_v2_int_read_write:
  assumes "bits \<le> 8" and "take_bit bits first = 0"
    and "unat v < 2 ^ bits - 1 + 2 ^ 21"
    and "enc = ngx_http_v2_write_int first (ngx_http_v2_prefix bits) v"
    and "length enc \<le> length0"
  shows "ngx_http_v2_parse_int length0 (enc @ rest) (ngx_http_v2_prefix bits) =
      Some (Inr (v, length0 - length enc, rest)) \<and>
    length enc \<le> NGX_HTTP_V2_INT_OCTETS \<and> drop_bit bits (hd enc) = drop_bit bits first"
proof (cases "v < mask bits")
  case True
  have "unat v < 2 ^ bits"
    using True by (simp add: word_less_nat_alt unat_mask_u64 [OF assms(1)])
  then have "take_bit bits v = v"
    by (simp only: word_unat_eq_iff unsigned_take_bit_eq) (simp add: take_bit_eq_mod)
  note t = tagged_first_octet [OF assms(1,2) this]
  have enc: "enc = [first OR ucast v]"
    using True assms(1,4) by (simp add: ngx_http_v2_write_int_def prefix_mask)
  moreover have "v \<noteq> mask bits" using True by simp
  ultimately show ?thesis
    using t assms(1,5)
    by (simp add: ngx_http_v2_parse_int_def prefix_mask Let_def NGX_HTTP_V2_INT_OCTETS_def)
next
  case False
  let ?m = "mask bits :: u64"
  note unat_mask_u64 [OF assms(1)]
  moreover have "unat (v - ?m) = unat v - unat ?m"
    using False by (intro unat_sub) (simp add: not_less)
  ultimately have "unat (v - ?m) < 128 ^ Suc 2" using assms(3) by simp
  from length_write_octets [OF this] have l: "length (http_v2_write_octets (v - ?m)) \<le> 3" by simp
  have enc: "enc = (first OR ucast ?m) # http_v2_write_octets (v - ?m)"
    using False assms(1,4) by (simp add: ngx_http_v2_write_int_def prefix_mask)
  note t = tagged_first_octet [OF assms(1,2), of ?m, simplified]
  from parse_write_octets [OF l, of length0 1 ?m 0 rest] assms(5) enc
  have "http_v2_parse_octets length0 1 ?m 0 (take 3 (http_v2_write_octets (v - ?m) @ rest)) =
      Some (Inr (v, length enc))" by simp
  with t l enc assms(1) show ?thesis
    by (simp add: ngx_http_v2_parse_int_def prefix_mask Let_def NGX_HTTP_V2_INT_OCTETS_def)
qed

text \<open>C33. An integer written with a tag in the high bits of its first byte is read back, the bytes
  after it untouched, when it fits in four bytes (\<^verbatim>\<open>NGX_HTTP_V2_MAX_FIELD\<close>) and in the header block;
  the tag can still be read.\<close>

theorem http_v2_int_roundtrip:
  assumes "bits \<le> 8" and "take_bit bits first = 0"
    and "unat v < 2 ^ bits - 1 + 2 ^ 21"
    and "enc = ngx_http_v2_write_int first (ngx_http_v2_prefix bits) v"
    and "length enc \<le> length0"
  shows "ngx_http_v2_parse_int length0 (enc @ rest) (ngx_http_v2_prefix bits) =
      Some (Inr (v, length0 - length enc, rest)) \<and>
    length enc \<le> NGX_HTTP_V2_INT_OCTETS \<and> drop_bit bits (hd enc) = drop_bit bits first"
  using assms by (rule http_v2_int_read_write)

theorem http_v2_int_roundtrip_witness:
  "ngx_http_v2_parse_int 9 (ngx_http_v2_write_int 0x80 (ngx_http_v2_prefix 7) 300 @ [0x61])
     (ngx_http_v2_prefix 7) =
   Some (Inr (300, 9 - length (ngx_http_v2_write_int 0x80 (ngx_http_v2_prefix 7) 300), [0x61]))"
  using http_v2_int_roundtrip [of 7 "0x80" 300 "ngx_http_v2_write_int 0x80 (ngx_http_v2_prefix 7) 300"
      9 "[0x61]"]
  by (simp add: ngx_http_v2_write_int_def ngx_http_v2_prefix_def http_v2_write_octets.simps
      take_bit_eq_mod)

text \<open>A string literal is read back: the length parses, the top bit of its first byte tells whether the
  payload is Huffman-coded, and the payload, decoded when it is, is the source, lowered on request.\<close>

theorem http_v2_string_roundtrip:
  assumes "length src < 127 + 2 ^ 21"
    and "length (ngx_http_v2_string_encode src lower) \<le> length0"
  shows "\<exists>n length1 payload.
     ngx_http_v2_parse_int length0 (ngx_http_v2_string_encode src lower @ rest) (ngx_http_v2_prefix 7) =
       Some (Inr (n, length1, payload @ rest)) \<and> unat n = length payload \<and>
     (if drop_bit 7 (hd (ngx_http_v2_string_encode src lower)) = 0
      then payload = (if lower then ngx_strlow src else src)
      else ngx_http_v2_huff_decode 0 payload [] True =
        (NGX_OK, 0, if lower then ngx_strlow src else src))"
proof -
  obtain hlen tmp where e: "ngx_http_v2_huff_encode src lower = (hlen, tmp)" by (metis prod.exhaust)
  let ?s = "if lower then ngx_strlow src else src"
  let ?len = "if hlen > 0 then hlen else length src"
  let ?first = "if hlen > 0 then NGX_HTTP_V2_ENCODE_HUFF else NGX_HTTP_V2_ENCODE_RAW"
  let ?payload = "if hlen > 0 then take hlen tmp else ?s"
  let ?enc = "ngx_http_v2_write_int ?first (ngx_http_v2_prefix 7) (word_of_nat ?len)"
  have str: "ngx_http_v2_string_encode src lower = ?enc @ ?payload"
    by (simp add: ngx_http_v2_string_encode_def e)
  from huff_encode_correct [of lower src] e
  have hlen: "hlen \<le> length src" "hlen > 0 \<Longrightarrow> length tmp = hlen"
    by (auto simp: Let_def split: if_splits)
  have n: "unat (word_of_nat ?len :: u64) = ?len"
    using hlen(1) assms(1) by (subst unat_of_nat) (auto intro!: mod_less)
  have first: "take_bit 7 ?first = 0"
    by (simp add: NGX_HTTP_V2_ENCODE_HUFF_def NGX_HTTP_V2_ENCODE_RAW_def)
  have len: "length ?payload = ?len" using hlen(2) by (simp add: ngx_strlow_map)
  from http_v2_int_read_write [OF _ first _ refl, of "word_of_nat ?len" length0 "?payload @ rest"]
    n hlen(1) assms str
  have p: "ngx_http_v2_parse_int length0 (?enc @ ?payload @ rest) (ngx_http_v2_prefix 7) =
      Some (Inr (word_of_nat ?len, length0 - length ?enc, ?payload @ rest))"
    and t: "drop_bit 7 (hd ?enc) = drop_bit 7 ?first" by auto
  have "?enc \<noteq> []" by (simp add: ngx_http_v2_write_int_def)
  then have "hd (ngx_http_v2_string_encode src lower) = hd ?enc" by (simp add: str)
  moreover have "drop_bit 7 ?first = 0 \<longleftrightarrow> hlen = 0"
    by (simp add: NGX_HTTP_V2_ENCODE_HUFF_def NGX_HTTP_V2_ENCODE_RAW_def)
  moreover have "hlen \<noteq> 0 \<Longrightarrow> ngx_http_v2_huff_decode 0 ?payload [] True = (NGX_OK, 0, ?s)"
    using huff_roundtrip_lemma [OF e] hlen(2) by simp
  ultimately show ?thesis
    using p n len t by (intro exI [of _ "word_of_nat ?len"] exI [of _ "length0 - length ?enc"]
        exI [of _ ?payload]) (simp add: str)
qed

theorem http_v2_string_roundtrip_witness:
  "\<exists>n length1 payload.
     ngx_http_v2_parse_int 9 (ngx_http_v2_string_encode [0x2a] False @ [0x62]) (ngx_http_v2_prefix 7) =
       Some (Inr (n, length1, payload @ [0x62])) \<and> unat n = length payload"
proof -
  have "length (ngx_http_v2_string_encode [0x2a] False) \<le> 9"
    using huff_encode_correct [of False "[0x2a]"]
    by (simp add: ngx_http_v2_string_encode_def ngx_http_v2_write_int_def ngx_http_v2_prefix_def Let_def
        http_v2_write_octets.simps split: prod.splits if_splits)
  from http_v2_string_roundtrip [OF _ this, of "[0x62]"] show ?thesis by simp blast
qed

end
