(* ===== verification/Block_Hash.thy ===== *)
theory Block_Hash
  imports Prelude
begin

section \<open>Hashes computed block by block\<close>

text \<open>
  The interface CRC-32 and MurmurHash2 share: a state updated with one block after the other. When
  the update is injective in the state and in the block, two inputs that differ in one block only
  have different hashes.
\<close>

fun hash_blocks :: "('s \<Rightarrow> 'b \<Rightarrow> 's) \<Rightarrow> 's \<Rightarrow> 'b list \<Rightarrow> 's" where
  "hash_blocks upd s [] = s"
| "hash_blocks upd s (b # bs) = hash_blocks upd (upd s b) bs"

lemma hash_blocks_append:
  "hash_blocks upd s (xs @ ys) = hash_blocks upd (hash_blocks upd s xs) ys"
  by (induction xs arbitrary: s) simp_all

locale block_hash =
  fixes upd :: "'s \<Rightarrow> 'b \<Rightarrow> 's"
  assumes upd_inj_state: "upd s b = upd t b \<Longrightarrow> s = t"
    and upd_inj_block: "upd s b = upd s c \<Longrightarrow> b = c"
begin

lemma hash_inj_state: "hash_blocks upd s bs = hash_blocks upd t bs \<Longrightarrow> s = t"
  by (induction bs arbitrary: s t) (auto dest: upd_inj_state)

lemma one_block_differs:
  "hash_blocks upd s (xs @ b # ys) = hash_blocks upd s (xs @ c # ys) \<Longrightarrow> b = c"
  by (auto simp: hash_blocks_append dest: hash_inj_state upd_inj_block)

end

subsection \<open>Injective operations on words\<close>

lemma xor_cancel_left: "(x :: 'a :: len word) XOR y = x XOR z \<longleftrightarrow> y = z"
  by (metis xor.assoc xor_self_eq xor.left_neutral)

lemma xor_cancel_right: "(y :: 'a :: len word) XOR x = z XOR x \<longleftrightarrow> y = z"
  by (simp only: xor.commute [of _ x] xor_cancel_left)

lemma xor_eq_0: "(x :: 'a :: len word) XOR y = 0 \<longleftrightarrow> x = y"
  using xor_cancel_right [of x y y] by simp

lemma xor_shift_inj:
  assumes "0 < n" and "(x :: u32) XOR drop_bit n x = y XOR drop_bit n y"
  shows "x = y"
proof -
  let ?z = "x XOR y"
  have "?z XOR drop_bit n ?z = (x XOR drop_bit n x) XOR (y XOR drop_bit n y)"
    by (simp add: drop_bit_xor ac_simps)
  then have "?z XOR drop_bit n ?z = ?z XOR ?z" using assms(2) by simp
  then have "drop_bit n ?z = ?z" by (simp only: xor_cancel_left)
  then have "unat ?z div 2 ^ n = unat ?z" by (metis unat_drop_bit)
  moreover have "1 < (2 :: nat) ^ n" using assms(1) by (intro one_less_power) simp_all
  ultimately have "unat ?z = 0" by (metis div_less_dividend gr0I less_irrefl)
  then have "?z = 0" by (simp add: unat_eq_zero)
  then show ?thesis by (metis xor.assoc xor.right_neutral xor_self_eq)
qed

lemma mult_unit_inj:
  assumes "u * i = (1 :: u32)" and "x * u = y * u"
  shows "x = y"
proof -
  have "x * (u * i) = y * (u * i)" using assms(2) by (simp only: mult.assoc [symmetric])
  with assms(1) show ?thesis by simp
qed

end
