(* ===== verification/Ngx_Crc32.thy ===== *)
theory Ngx_Crc32
  imports Block_Hash
begin

section \<open>CRC-32\<close>

text \<open>
  \<^verbatim>\<open>src/core/ngx_crc32.c\<close> and the inline functions of \<^verbatim>\<open>src/core/ngx_crc32.h\<close>: the 16-entry and the
  256-entry table, the two checksums and the incremental interface. The reference is the bit-serial
  division by the reflected polynomial; \<open>crc_table\<close> is the contract of a lookup table that does
  \<open>k\<close> steps of it at once.
\<close>

definition ngx_crc32_table16 :: "u32 list" where
  "ngx_crc32_table16 = [
    0x00000000, 0x1db71064, 0x3b6e20c8, 0x26d930ac,
    0x76dc4190, 0x6b6b51f4, 0x4db26158, 0x5005713c,
    0xedb88320, 0xf00f9344, 0xd6d6a3e8, 0xcb61b38c,
    0x9b64c2b0, 0x86d3d2d4, 0xa00ae278, 0xbdbdf21c]"

definition ngx_crc32_table256 :: "u32 list" where
  "ngx_crc32_table256 = [
    0x00000000, 0x77073096, 0xee0e612c, 0x990951ba,
    0x076dc419, 0x706af48f, 0xe963a535, 0x9e6495a3,
    0x0edb8832, 0x79dcb8a4, 0xe0d5e91e, 0x97d2d988,
    0x09b64c2b, 0x7eb17cbd, 0xe7b82d07, 0x90bf1d91,
    0x1db71064, 0x6ab020f2, 0xf3b97148, 0x84be41de,
    0x1adad47d, 0x6ddde4eb, 0xf4d4b551, 0x83d385c7,
    0x136c9856, 0x646ba8c0, 0xfd62f97a, 0x8a65c9ec,
    0x14015c4f, 0x63066cd9, 0xfa0f3d63, 0x8d080df5,
    0x3b6e20c8, 0x4c69105e, 0xd56041e4, 0xa2677172,
    0x3c03e4d1, 0x4b04d447, 0xd20d85fd, 0xa50ab56b,
    0x35b5a8fa, 0x42b2986c, 0xdbbbc9d6, 0xacbcf940,
    0x32d86ce3, 0x45df5c75, 0xdcd60dcf, 0xabd13d59,
    0x26d930ac, 0x51de003a, 0xc8d75180, 0xbfd06116,
    0x21b4f4b5, 0x56b3c423, 0xcfba9599, 0xb8bda50f,
    0x2802b89e, 0x5f058808, 0xc60cd9b2, 0xb10be924,
    0x2f6f7c87, 0x58684c11, 0xc1611dab, 0xb6662d3d,
    0x76dc4190, 0x01db7106, 0x98d220bc, 0xefd5102a,
    0x71b18589, 0x06b6b51f, 0x9fbfe4a5, 0xe8b8d433,
    0x7807c9a2, 0x0f00f934, 0x9609a88e, 0xe10e9818,
    0x7f6a0dbb, 0x086d3d2d, 0x91646c97, 0xe6635c01,
    0x6b6b51f4, 0x1c6c6162, 0x856530d8, 0xf262004e,
    0x6c0695ed, 0x1b01a57b, 0x8208f4c1, 0xf50fc457,
    0x65b0d9c6, 0x12b7e950, 0x8bbeb8ea, 0xfcb9887c,
    0x62dd1ddf, 0x15da2d49, 0x8cd37cf3, 0xfbd44c65,
    0x4db26158, 0x3ab551ce, 0xa3bc0074, 0xd4bb30e2,
    0x4adfa541, 0x3dd895d7, 0xa4d1c46d, 0xd3d6f4fb,
    0x4369e96a, 0x346ed9fc, 0xad678846, 0xda60b8d0,
    0x44042d73, 0x33031de5, 0xaa0a4c5f, 0xdd0d7cc9,
    0x5005713c, 0x270241aa, 0xbe0b1010, 0xc90c2086,
    0x5768b525, 0x206f85b3, 0xb966d409, 0xce61e49f,
    0x5edef90e, 0x29d9c998, 0xb0d09822, 0xc7d7a8b4,
    0x59b33d17, 0x2eb40d81, 0xb7bd5c3b, 0xc0ba6cad,
    0xedb88320, 0x9abfb3b6, 0x03b6e20c, 0x74b1d29a,
    0xead54739, 0x9dd277af, 0x04db2615, 0x73dc1683,
    0xe3630b12, 0x94643b84, 0x0d6d6a3e, 0x7a6a5aa8,
    0xe40ecf0b, 0x9309ff9d, 0x0a00ae27, 0x7d079eb1,
    0xf00f9344, 0x8708a3d2, 0x1e01f268, 0x6906c2fe,
    0xf762575d, 0x806567cb, 0x196c3671, 0x6e6b06e7,
    0xfed41b76, 0x89d32be0, 0x10da7a5a, 0x67dd4acc,
    0xf9b9df6f, 0x8ebeeff9, 0x17b7be43, 0x60b08ed5,
    0xd6d6a3e8, 0xa1d1937e, 0x38d8c2c4, 0x4fdff252,
    0xd1bb67f1, 0xa6bc5767, 0x3fb506dd, 0x48b2364b,
    0xd80d2bda, 0xaf0a1b4c, 0x36034af6, 0x41047a60,
    0xdf60efc3, 0xa867df55, 0x316e8eef, 0x4669be79,
    0xcb61b38c, 0xbc66831a, 0x256fd2a0, 0x5268e236,
    0xcc0c7795, 0xbb0b4703, 0x220216b9, 0x5505262f,
    0xc5ba3bbe, 0xb2bd0b28, 0x2bb45a92, 0x5cb36a04,
    0xc2d7ffa7, 0xb5d0cf31, 0x2cd99e8b, 0x5bdeae1d,
    0x9b64c2b0, 0xec63f226, 0x756aa39c, 0x026d930a,
    0x9c0906a9, 0xeb0e363f, 0x72076785, 0x05005713,
    0x95bf4a82, 0xe2b87a14, 0x7bb12bae, 0x0cb61b38,
    0x92d28e9b, 0xe5d5be0d, 0x7cdcefb7, 0x0bdbdf21,
    0x86d3d2d4, 0xf1d4e242, 0x68ddb3f8, 0x1fda836e,
    0x81be16cd, 0xf6b9265b, 0x6fb077e1, 0x18b74777,
    0x88085ae6, 0xff0f6a70, 0x66063bca, 0x11010b5c,
    0x8f659eff, 0xf862ae69, 0x616bffd3, 0x166ccf45,
    0xa00ae278, 0xd70dd2ee, 0x4e048354, 0x3903b3c2,
    0xa7672661, 0xd06016f7, 0x4969474d, 0x3e6e77db,
    0xaed16a4a, 0xd9d65adc, 0x40df0b66, 0x37d83bf0,
    0xa9bcae53, 0xdebb9ec5, 0x47b2cf7f, 0x30b5ffe9,
    0xbdbdf21c, 0xcabac28a, 0x53b39330, 0x24b4a3a6,
    0xbad03605, 0xcdd70693, 0x54de5729, 0x23d967bf,
    0xb3667a2e, 0xc4614ab8, 0x5d681b02, 0x2a6f2b94,
    0xb40bbe37, 0xc30c8ea1, 0x5a05df1b, 0x2d02ef8d]"

lemma length_crc32_tables: "length ngx_crc32_table16 = 16" "length ngx_crc32_table256 = 256"
  by (simp_all add: ngx_crc32_table16_def ngx_crc32_table256_def)

fun crc32_short_loop :: "u32 \<Rightarrow> byte list \<Rightarrow> u32" where
  "crc32_short_loop crc [] = crc"
| "crc32_short_loop crc (c # p) =
     (let crc = ngx_crc32_table16 ! unat ((crc XOR ucast (c AND 0xf)) AND 0xf) XOR drop_bit 4 crc;
          crc = ngx_crc32_table16 ! unat ((crc XOR ucast (drop_bit 4 c)) AND 0xf) XOR drop_bit 4 crc
      in crc32_short_loop crc p)"

definition ngx_crc32_short :: "byte list \<Rightarrow> u32" where
  "ngx_crc32_short p = crc32_short_loop 0xffffffff p XOR 0xffffffff"

fun crc32_long_loop :: "u32 \<Rightarrow> byte list \<Rightarrow> u32" where
  "crc32_long_loop crc [] = crc"
| "crc32_long_loop crc (c # p) =
     crc32_long_loop (ngx_crc32_table256 ! unat ((crc XOR ucast c) AND 0xff) XOR drop_bit 8 crc) p"

definition ngx_crc32_long :: "byte list \<Rightarrow> u32" where
  "ngx_crc32_long p = crc32_long_loop 0xffffffff p XOR 0xffffffff"

definition ngx_crc32_init :: u32 where "ngx_crc32_init = 0xffffffff"

definition ngx_crc32_update :: "u32 \<Rightarrow> byte list \<Rightarrow> u32" where
  "ngx_crc32_update crc p = crc32_long_loop crc p"

definition ngx_crc32_final :: "u32 \<Rightarrow> u32" where
  "ngx_crc32_final crc = crc XOR 0xffffffff"

subsection \<open>The bit-serial reference\<close>

definition crc32_bit :: "u32 \<Rightarrow> u32" where
  "crc32_bit c = drop_bit 1 c XOR (if bit c 0 then 0xedb88320 else 0)"

definition crc32_byte :: "u32 \<Rightarrow> byte \<Rightarrow> u32" where
  "crc32_byte c b = (crc32_bit ^^ 8) (c XOR ucast b)"

definition crc32_ref :: "byte list \<Rightarrow> u32" where
  "crc32_ref p = hash_blocks crc32_byte 0xffffffff p XOR 0xffffffff"

lemma crc32_bit_xor: "crc32_bit (x XOR y) = crc32_bit x XOR crc32_bit y"
  by (simp add: crc32_bit_def drop_bit_xor bit_xor_iff ac_simps)

lemma crc32_bits_xor: "(crc32_bit ^^ k) (x XOR y) = (crc32_bit ^^ k) x XOR (crc32_bit ^^ k) y"
  by (induction k) (simp_all add: crc32_bit_xor)

lemma crc32_bits_shift: "take_bit k x = 0 \<Longrightarrow> (crc32_bit ^^ k) x = drop_bit k x"
proof (induction k arbitrary: x)
  case 0
  then show ?case by simp
next
  case (Suc k)
  have low: "\<not> bit x i" if "i < Suc k" for i
    using Suc.prems that by (metis bit_take_bit_iff bit_0_eq bot_apply bot_bool_def)
  then have "crc32_bit x = drop_bit 1 x" by (simp add: crc32_bit_def)
  moreover have "take_bit k (drop_bit 1 x) = 0"
    by (rule bit_word_eqI) (use low in \<open>auto simp: bit_simps\<close>)
  ultimately show ?case
    using Suc.IH by (simp add: funpow_swap1 drop_bit_drop_bit del: funpow.simps add: funpow_Suc_right)
qed

subsection \<open>Lookup tables\<close>

locale crc_table =
  fixes k :: nat and table :: "u32 list"
  assumes entry: "i < 2 ^ k \<Longrightarrow> table ! i = (crc32_bit ^^ k) (word_of_nat i)"
    and width: "k < 32"
begin

lemma table_step: "(crc32_bit ^^ k) x = table ! unat (x AND mask k) XOR drop_bit k x"
proof -
  let ?lo = "x AND mask k" and ?hi = "x AND NOT (mask k)"
  have x: "x = ?lo XOR ?hi" by (rule bit_word_eqI) (auto simp: bit_simps)
  have "take_bit k ?hi = 0" by (rule bit_word_eqI) (auto simp: bit_simps)
  then have "(crc32_bit ^^ k) ?hi = drop_bit k ?hi" by (rule crc32_bits_shift)
  also have "\<dots> = drop_bit k x"
    by (rule bit_word_eqI) (auto simp: bit_simps dest: bit_imp_le_length)
  finally have hi: "(crc32_bit ^^ k) ?hi = drop_bit k x" .
  have "unat ?lo = unat x mod 2 ^ k"
    by (simp only: take_bit_eq_mask [symmetric] unsigned_take_bit_eq) (simp add: take_bit_eq_mod)
  then have "unat ?lo < 2 ^ k" by simp
  from entry [OF this] have "(crc32_bit ^^ k) ?lo = table ! unat ?lo" by simp
  with hi show ?thesis by (subst x) (simp only: crc32_bits_xor)
qed

end

lemma funpow_4_8:
  "(f ^^ 4) x = f (f (f (f x)))" "(f ^^ 8) x = f (f (f (f (f (f (f (f x)))))))"
  by (simp_all add: eval_nat_numeral)

lemma crc32_bit_eval:
  "crc32_bit 0 = 0" "crc32_bit 1 = 0xedb88320"
  "crc32_bit (numeral (Num.Bit0 n)) = drop_bit 1 (numeral (Num.Bit0 n))"
  "crc32_bit (numeral (Num.Bit1 n)) = drop_bit 1 (numeral (Num.Bit1 n)) XOR 0xedb88320"
  by (simp_all add: crc32_bit_def)

interpretation t16: crc_table 4 ngx_crc32_table16
proof unfold_locales
  have "table_rows (\<lambda>i. (crc32_bit ^^ 4) (word_of_nat i)) (\<lambda>t. t) 0 ngx_crc32_table16"
    by (simp add: ngx_crc32_table16_def crc32_bit_eval funpow_4_8)
  then show "ngx_crc32_table16 ! i = (crc32_bit ^^ 4) (word_of_nat i)" if "i < 2 ^ 4" for i
    using that by (auto dest!: table_rowsD [of _ _ _ _ i] simp: length_crc32_tables)
qed simp

interpretation t256: crc_table 8 ngx_crc32_table256
proof unfold_locales
  have "table_rows (\<lambda>i. (crc32_bit ^^ 8) (word_of_nat i)) (\<lambda>t. t) 0 ngx_crc32_table256"
    by (simp add: ngx_crc32_table256_def crc32_bit_eval funpow_4_8)
  then show "ngx_crc32_table256 ! i = (crc32_bit ^^ 8) (word_of_nat i)" if "i < 2 ^ 8" for i
    using that by (auto dest!: table_rowsD [of _ _ _ _ i] simp: length_crc32_tables)
qed simp

subsection \<open>The checksums compute the reference\<close>

lemma mask_literals: "(0xf :: u32) = mask 4" "(0xff :: u32) = mask 8"
  by (simp_all add: mask_eq_exp_minus_1)

lemma crc32_short_step:
  "(let crc1 = ngx_crc32_table16 ! unat ((crc XOR ucast (c AND 0xf)) AND 0xf) XOR drop_bit 4 crc
    in ngx_crc32_table16 ! unat ((crc1 XOR ucast (drop_bit 4 c)) AND 0xf) XOR drop_bit 4 crc1) =
   crc32_byte crc c"
proof -
  let ?lo = "ucast (c AND 0xf) :: u32" and ?hi = "ucast (drop_bit 4 c) :: u32"
  have hi: "drop_bit 4 (x XOR ?hi) = drop_bit 4 x" and lo: "drop_bit 4 (x XOR ?lo) = drop_bit 4 x"
    for x :: u32
  proof -
    have "c AND 0xf = take_bit 4 c" by (simp add: take_bit_eq_mask mask_eq_exp_minus_1)
    then show "drop_bit 4 (x XOR ?lo) = drop_bit 4 x"
      by (intro bit_word_eqI) (auto simp: bit_simps)
    show "drop_bit 4 (x XOR ?hi) = drop_bit 4 x"
      by (intro bit_word_eqI) (auto simp: bit_simps dest: bit_imp_le_length)
  qed
  have c: "ucast c = ?lo XOR push_bit 4 ?hi"
  proof (rule bit_word_eqI)
    fix n assume "n < LENGTH(32)"
    have "c AND 0xf = take_bit 4 c" by (simp add: take_bit_eq_mask mask_eq_exp_minus_1)
    then show "bit (ucast c :: u32) n \<longleftrightarrow> bit (?lo XOR push_bit 4 ?hi) n"
      by (auto simp: bit_simps dest: bit_imp_le_length)
  qed
  define crc1 where "crc1 = (crc32_bit ^^ 4) (crc XOR ?lo)"
  have 1: "ngx_crc32_table16 ! unat ((crc XOR ?lo) AND 0xf) XOR drop_bit 4 crc = crc1"
    by (simp only: crc1_def t16.table_step lo mask_literals)
  have 2: "ngx_crc32_table16 ! unat ((crc1 XOR ?hi) AND 0xf) XOR drop_bit 4 crc1 =
      (crc32_bit ^^ 4) (crc1 XOR ?hi)"
    by (simp only: t16.table_step hi mask_literals)
  have "(crc32_bit ^^ 4) (push_bit 4 ?hi) = drop_bit 4 (push_bit 4 ?hi)"
    by (rule crc32_bits_shift) (rule bit_word_eqI, auto simp: bit_simps)
  also have "\<dots> = ?hi"
    by (rule bit_word_eqI) (auto simp: bit_simps dest: bit_imp_le_length)
  finally have "(crc32_bit ^^ 4) (crc XOR ucast c) = crc1 XOR ?hi"
    unfolding c crc1_def by (simp only: crc32_bits_xor xor.assoc [symmetric])
  moreover have "(crc32_bit ^^ 8) x = (crc32_bit ^^ 4) ((crc32_bit ^^ 4) x)" for x
    by (simp only: funpow_4_8)
  ultimately show ?thesis unfolding Let_def 1 2 crc32_byte_def by simp
qed

lemma crc32_long_step:
  "ngx_crc32_table256 ! unat ((crc XOR ucast c) AND 0xff) XOR drop_bit 8 crc = crc32_byte crc c"
proof -
  have "drop_bit 8 (crc XOR ucast c) = drop_bit 8 crc"
    by (rule bit_word_eqI) (auto simp: bit_simps dest: bit_imp_le_length)
  with t256.table_step [of "crc XOR ucast c"] show ?thesis
    by (simp add: crc32_byte_def mask_literals)
qed

lemma crc32_short_loop_ref: "crc32_short_loop crc p = hash_blocks crc32_byte crc p"
  using crc32_short_step by (induction crc p rule: crc32_short_loop.induct) (simp_all add: Let_def)

lemma crc32_long_loop_ref: "crc32_long_loop crc p = hash_blocks crc32_byte crc p"
  by (induction crc p rule: crc32_long_loop.induct) (simp_all add: crc32_long_step)

text \<open>C34. The checksum by half bytes, the checksum by bytes and the bit-serial division agree.\<close>

theorem crc32_tables_correct: "ngx_crc32_short p = crc32_ref p \<and> ngx_crc32_long p = crc32_ref p"
  by (simp add: ngx_crc32_short_def ngx_crc32_long_def crc32_ref_def crc32_short_loop_ref
      crc32_long_loop_ref)

text \<open>Initialising, updating with the parts of a text one after the other and finalising gives the
  checksum of the whole text.\<close>

theorem crc32_incremental:
  "ngx_crc32_final (fold (\<lambda>part crc. ngx_crc32_update crc part) parts ngx_crc32_init) =
     ngx_crc32_long (concat parts)"
proof -
  have "fold (\<lambda>part crc. ngx_crc32_update crc part) parts crc = hash_blocks crc32_byte crc (concat parts)"
    for crc
    by (induction parts arbitrary: crc)
      (simp_all add: ngx_crc32_update_def crc32_long_loop_ref hash_blocks_append)
  then show ?thesis
    by (simp add: ngx_crc32_final_def ngx_crc32_init_def ngx_crc32_long_def crc32_long_loop_ref)
qed

subsection \<open>Error detection\<close>

lemma crc32_bit_zero: "crc32_bit z = 0 \<Longrightarrow> z = 0"
proof -
  assume z: "crc32_bit z = 0"
  have "\<not> bit z 32" using bit_imp_le_length [of z 32] by auto
  moreover have "bit (0xedb88320 :: u32) 31" by simp
  ultimately have b0: "\<not> bit z 0"
    using z by (auto simp: crc32_bit_def bit_xor_iff bit_drop_bit_eq dest: arg_cong [where f = "\<lambda>w. bit w 31"]
        split: if_splits)
  with z have d: "drop_bit 1 z = 0" by (simp add: crc32_bit_def)
  show "z = 0"
  proof (rule bit_word_eqI)
    fix n
    show "bit z n \<longleftrightarrow> bit (0 :: u32) n"
      using b0 arg_cong [OF d, of "\<lambda>w. bit w (n - 1)"] by (cases n) (simp_all add: bit_drop_bit_eq)
  qed
qed

lemma crc32_bits_inj: "(crc32_bit ^^ k) x = (crc32_bit ^^ k) y \<Longrightarrow> x = y"
proof (induction k)
  case (Suc k)
  then have "crc32_bit ((crc32_bit ^^ k) x XOR (crc32_bit ^^ k) y) = 0"
    by (simp add: crc32_bit_xor)
  from crc32_bit_zero [OF this] Suc.IH show ?case by (simp only: xor_eq_0)
qed simp

interpretation crc: block_hash crc32_byte
proof unfold_locales
  show "s = t" if "crc32_byte s b = crc32_byte t b" for s t b
    using crc32_bits_inj [OF that [unfolded crc32_byte_def]] by (simp only: xor_cancel_right)
  show "b = c" if "crc32_byte s b = crc32_byte s c" for s b c
  proof -
    from crc32_bits_inj [OF that [unfolded crc32_byte_def]] have "ucast b = (ucast c :: u32)"
      by (simp only: xor_cancel_left)
    then have "unat (ucast b :: u32) = unat (ucast c :: u32)" by (rule arg_cong)
    then show "b = c" by (simp only: unat_ucast_u32 byte_eq_unat)
  qed
qed

text \<open>C35. Changing one byte of a text changes its checksum.\<close>

theorem crc32_detects_byte_error:
  assumes "b \<noteq> c"
  shows "ngx_crc32_long (xs @ b # ys) \<noteq> ngx_crc32_long (xs @ c # ys)"
  using assms crc.one_block_differs
  by (auto simp: ngx_crc32_long_def crc32_long_loop_ref xor_cancel_right)

theorem crc32_detects_byte_error_witness:
  "ngx_crc32_long ([0x61] @ 0x62 # [0x63]) \<noteq> ngx_crc32_long ([0x61] @ 0x42 # [0x63])"
  by (rule crc32_detects_byte_error) simp

end
