(* ===== verification/Ngx_Murmurhash.thy ===== *)
theory Ngx_Murmurhash
  imports Block_Hash
begin

section \<open>MurmurHash2\<close>

text \<open>
  \<^verbatim>\<open>ngx_murmur_hash2\<close> of \<^verbatim>\<open>src/core/ngx_murmurhash.c\<close>: four bytes at a time, then the one to three
  bytes left, then the final mixing. A step on four bytes is an instance of \<open>block_hash\<close>.
\<close>

definition murmur_word :: "byte \<Rightarrow> byte \<Rightarrow> byte \<Rightarrow> byte \<Rightarrow> u32" where
  "murmur_word d0 d1 d2 d3 =
     ucast d0 OR push_bit 8 (ucast d1) OR push_bit 16 (ucast d2) OR push_bit 24 (ucast d3)"

definition murmur_step :: "u32 \<Rightarrow> u32 \<Rightarrow> u32" where
  "murmur_step h k =
     (let k = k * 0x5bd1e995;
          k = k XOR drop_bit 24 k;
          k = k * 0x5bd1e995;
          h = h * 0x5bd1e995
      in h XOR k)"

fun murmur_loop :: "u32 \<Rightarrow> byte list \<Rightarrow> u32 \<times> byte list" where
  "murmur_loop h (d0 # d1 # d2 # d3 # data) = murmur_loop (murmur_step h (murmur_word d0 d1 d2 d3)) data"
| "murmur_loop h data = (h, data)"

text \<open>The \<^verbatim>\<open>switch\<close> on the bytes left, whose cases fall through.\<close>

fun murmur_tail :: "u32 \<Rightarrow> byte list \<Rightarrow> u32" where
  "murmur_tail h [d0, d1, d2] =
     (h XOR push_bit 16 (ucast d2) XOR push_bit 8 (ucast d1) XOR ucast d0) * 0x5bd1e995"
| "murmur_tail h [d0, d1] = (h XOR push_bit 8 (ucast d1) XOR ucast d0) * 0x5bd1e995"
| "murmur_tail h [d0] = (h XOR ucast d0) * 0x5bd1e995"
| "murmur_tail h _ = h"

definition murmur_final :: "u32 \<Rightarrow> u32" where
  "murmur_final h =
     (let h = h XOR drop_bit 13 h;
          h = h * 0x5bd1e995
      in h XOR drop_bit 15 h)"

definition ngx_murmur_hash2 :: "byte list \<Rightarrow> u32" where
  "ngx_murmur_hash2 data =
     (case murmur_loop (0 XOR word_of_nat (length data)) data of
        (h, rest) \<Rightarrow> murmur_final (murmur_tail h rest))"

subsection \<open>Every step is injective\<close>

lemma murmur_mult_inj: "x * 0x5bd1e995 = y * (0x5bd1e995 :: u32) \<Longrightarrow> x = y"
  by (rule mult_unit_inj [of _ "0xe59b19bd"]) simp_all

interpretation murmur: block_hash murmur_step
proof unfold_locales
  show "s = t" if "murmur_step s b = murmur_step t b" for s t b
    using that by (auto simp: murmur_step_def Let_def xor_cancel_right dest: murmur_mult_inj)
  show "b = c" if "murmur_step s b = murmur_step s c" for s b c
  proof -
    let ?k = "\<lambda>b :: u32. b * 0x5bd1e995"
    from that have "?k b XOR drop_bit 24 (?k b) = ?k c XOR drop_bit 24 (?k c)"
      unfolding murmur_step_def Let_def xor_cancel_left by (rule murmur_mult_inj)
    then have "?k b = ?k c" by (rule xor_shift_inj [rotated]) simp
    then show "b = c" by (rule murmur_mult_inj)
  qed
qed

lemma murmur_final_inj: "murmur_final x = murmur_final y \<Longrightarrow> x = y"
proof -
  assume "murmur_final x = murmur_final y"
  then have "(x XOR drop_bit 13 x) * 0x5bd1e995 = (y XOR drop_bit 13 y) * 0x5bd1e995"
    unfolding murmur_final_def Let_def by (rule xor_shift_inj [rotated]) simp
  then have "x XOR drop_bit 13 x = y XOR drop_bit 13 y" by (rule murmur_mult_inj)
  then show "x = y" by (rule xor_shift_inj [rotated]) simp
qed

lemma murmur_tail_inj: "murmur_tail x rest = murmur_tail y rest \<Longrightarrow> x = y"
  by (cases "(x, rest)" rule: murmur_tail.cases)
    (auto simp: xor_cancel_right dest!: murmur_mult_inj)

subsection \<open>The loop in words\<close>

text \<open>The bytes of a word are read back by shifting.\<close>

lemma murmur_word_bytes:
  "(ucast (murmur_word d0 d1 d2 d3) :: byte) = d0"
  "(ucast (drop_bit 8 (murmur_word d0 d1 d2 d3)) :: byte) = d1"
  "(ucast (drop_bit 16 (murmur_word d0 d1 d2 d3)) :: byte) = d2"
  "(ucast (drop_bit 24 (murmur_word d0 d1 d2 d3)) :: byte) = d3"
  by (rule bit_word_eqI, simp add: murmur_word_def bit_simps byte_bit_high)+

lemma murmur_word_inj:
  assumes "murmur_word a0 a1 a2 a3 = murmur_word b0 b1 b2 b3"
  shows "a0 = b0 \<and> a1 = b1 \<and> a2 = b2 \<and> a3 = b3"
  using murmur_word_bytes [of a0 a1 a2 a3] murmur_word_bytes [of b0 b1 b2 b3]
  unfolding assms by simp

fun murmur_words :: "byte list \<Rightarrow> u32 list" where
  "murmur_words (d0 # d1 # d2 # d3 # data) = murmur_word d0 d1 d2 d3 # murmur_words data"
| "murmur_words data = []"

lemma four_dvd_Suc [simp]: "4 dvd Suc (Suc (Suc (Suc n))) \<longleftrightarrow> 4 dvd n"
  by presburger

lemma murmur_loop_words:
  "4 dvd length xs \<Longrightarrow>
     murmur_loop h (xs @ ys) = murmur_loop (hash_blocks murmur_step h (murmur_words xs)) ys"
  by (induction h xs rule: murmur_loop.induct) (auto dest: dvd_imp_le)

lemma murmur_loop_inj: "murmur_loop x ys = murmur_loop y ys \<Longrightarrow> x = y"
  by (induction x ys arbitrary: y rule: murmur_loop.induct) (auto dest: murmur.upd_inj_state)

lemma murmur_loop_rest: "snd (murmur_loop x ys) = snd (murmur_loop y ys)"
  by (induction x ys arbitrary: y rule: murmur_loop.induct) auto

lemma murmur_rest_inj:
  assumes "case_prod murmur_tail (murmur_loop x ys) = case_prod murmur_tail (murmur_loop y ys)"
  shows "x = y"
proof (rule murmur_loop_inj, rule prod_eqI)
  show "snd (murmur_loop x ys) = snd (murmur_loop y ys)" by (rule murmur_loop_rest)
  with assms show "fst (murmur_loop x ys) = fst (murmur_loop y ys)"
    by (auto simp: case_prod_beta dest: murmur_tail_inj)
qed

lemma murmur_hash2_block:
  "4 dvd length xs \<Longrightarrow>
   ngx_murmur_hash2 (xs @ [b0, b1, b2, b3] @ ys) =
     murmur_final (case_prod murmur_tail (murmur_loop
       (murmur_step (hash_blocks murmur_step (word_of_nat (length xs + (4 + length ys))) (murmur_words xs))
         (murmur_word b0 b1 b2 b3)) ys))"
  by (simp add: ngx_murmur_hash2_def murmur_loop_words case_prod_beta add.commute add.left_commute)

text \<open>Two keys of the same length that differ only in four bytes at an offset that is a multiple of
  four have different hashes.\<close>

theorem murmur_block_differs:
  assumes "4 dvd length xs" and "length b = 4" and "length c = 4" and "b \<noteq> c"
  shows "ngx_murmur_hash2 (xs @ b @ ys) \<noteq> ngx_murmur_hash2 (xs @ c @ ys)"
proof
  obtain b0 b1 b2 b3 where b: "b = [b0, b1, b2, b3]"
    using assms(2) by (auto simp: length_Suc_conv numeral_eq_Suc)
  obtain c0 c1 c2 c3 where c: "c = [c0, c1, c2, c3]"
    using assms(3) by (auto simp: length_Suc_conv numeral_eq_Suc)
  assume "ngx_murmur_hash2 (xs @ b @ ys) = ngx_murmur_hash2 (xs @ c @ ys)"
  then have "murmur_word b0 b1 b2 b3 = murmur_word c0 c1 c2 c3"
    unfolding b c murmur_hash2_block [OF assms(1)]
    by (blast dest: murmur_final_inj murmur_rest_inj murmur.upd_inj_block)
  with assms(4) b c show False by (auto dest: murmur_word_inj)
qed

theorem murmur_block_differs_witness:
  "ngx_murmur_hash2 ([1, 2, 3, 4] @ [5, 6, 7, 8] @ [9]) \<noteq>
   ngx_murmur_hash2 ([1, 2, 3, 4] @ [5, 6, 7, 9] @ [9])"
  by (rule murmur_block_differs) simp_all

end
