(* ===== verification/Ngx_Atoi.thy ===== *)
theory Ngx_Atoi
  imports Ngx_String
begin

section \<open>Numbers read from text\<close>

text \<open>
  The readers of numbers in \<^verbatim>\<open>src/core/ngx_string.c\<close> (\<^verbatim>\<open>ngx_atoi\<close>, \<^verbatim>\<open>ngx_atosz\<close>, \<^verbatim>\<open>ngx_atoof\<close>,
  \<^verbatim>\<open>ngx_atotm\<close>, \<^verbatim>\<open>ngx_atofp\<close>, \<^verbatim>\<open>ngx_hextoi\<close>). The values are 64-bit signed integers: \<open>s64\<close> is what such a
  variable keeps of a result, so an addition that overflowed would show. \<^const>\<open>None\<close> is
  \<^verbatim>\<open>NGX_ERROR\<close>. The locale \<open>checked_digits\<close> is the contract of a reader that stops before its value
  passes a bound.
\<close>

definition s64 :: "int \<Rightarrow> int" where
  "s64 x = signed_take_bit 63 x"

lemma s64_id [simp]: "0 \<le> x \<Longrightarrow> x \<le> 9223372036854775807 \<Longrightarrow> s64 x = x"
  by (simp add: s64_def signed_take_bit_int_eq_self)

abbreviation NGX_MAX_INT_T_VALUE :: int where "NGX_MAX_INT_T_VALUE \<equiv> 9223372036854775807"
abbreviation NGX_MAX_SIZE_T_VALUE :: int where "NGX_MAX_SIZE_T_VALUE \<equiv> 9223372036854775807"
abbreviation NGX_MAX_OFF_T_VALUE :: int where "NGX_MAX_OFF_T_VALUE \<equiv> 9223372036854775807"
abbreviation NGX_MAX_TIME_T_VALUE :: int where "NGX_MAX_TIME_T_VALUE \<equiv> 9223372036854775807"

text \<open>\<^verbatim>\<open>*line - '0'\<close>, an \<^verbatim>\<open>int\<close>.\<close>

definition digit_value :: "byte \<Rightarrow> int" where
  "digit_value c = int (unat c) - 48"

subsection \<open>The readers\<close>

fun ato_loop :: "int \<Rightarrow> int \<Rightarrow> int \<Rightarrow> byte list \<Rightarrow> int option" where
  "ato_loop cutoff cutlim value [] = Some value"
| "ato_loop cutoff cutlim value (c # line) =
     (if c < chr_0 \<or> chr_9 < c then None
      else if cutoff \<le> value \<and> (cutoff < value \<or> cutlim < digit_value c) then None
      else ato_loop cutoff cutlim (s64 (value * 10 + digit_value c)) line)"

definition ngx_atoi :: "byte list \<Rightarrow> int option" where
  "ngx_atoi line =
     (if line = [] then None
      else ato_loop (NGX_MAX_INT_T_VALUE div 10) (NGX_MAX_INT_T_VALUE mod 10) 0 line)"

definition ngx_atosz :: "byte list \<Rightarrow> int option" where
  "ngx_atosz line =
     (if line = [] then None
      else ato_loop (NGX_MAX_SIZE_T_VALUE div 10) (NGX_MAX_SIZE_T_VALUE mod 10) 0 line)"

definition ngx_atoof :: "byte list \<Rightarrow> int option" where
  "ngx_atoof line =
     (if line = [] then None
      else ato_loop (NGX_MAX_OFF_T_VALUE div 10) (NGX_MAX_OFF_T_VALUE mod 10) 0 line)"

definition ngx_atotm :: "byte list \<Rightarrow> int option" where
  "ngx_atotm line =
     (if line = [] then None
      else ato_loop (NGX_MAX_TIME_T_VALUE div 10) (NGX_MAX_TIME_T_VALUE mod 10) 0 line)"

fun hextoi_loop :: "int \<Rightarrow> int \<Rightarrow> byte list \<Rightarrow> int option" where
  "hextoi_loop cutoff value [] = Some value"
| "hextoi_loop cutoff value (ch # line) =
     (if cutoff < value then None
      else if chr_0 \<le> ch \<and> ch \<le> chr_9 then
        hextoi_loop cutoff (s64 (value * 16 + (int (unat ch) - 48))) line
      else
        let c = ch OR 0x20 in
        if chr_a \<le> c \<and> c \<le> chr_f then
          hextoi_loop cutoff (s64 (value * 16 + (int (unat c) - 97 + 10))) line
        else None)"

definition ngx_hextoi :: "byte list \<Rightarrow> int option" where
  "ngx_hextoi line = (if line = [] then None else hextoi_loop (NGX_MAX_INT_T_VALUE div 16) 0 line)"

text \<open>\<^verbatim>\<open>ngx_atofp\<close>: the loop over the line, with \<open>dot\<close> the digits a step takes from \<open>point\<close>, then the loop
  that scales.\<close>

fun atofp_loop :: "int \<Rightarrow> int \<Rightarrow> nat \<Rightarrow> nat \<Rightarrow> int \<Rightarrow> byte list \<Rightarrow> (int \<times> nat) option" where
  "atofp_loop cutoff cutlim dot point value [] = Some (value, point)"
| "atofp_loop cutoff cutlim dot point value (c # line) =
     (if point = 0 then None
      else if c = chr_dot then
        (if dot \<noteq> 0 then None else atofp_loop cutoff cutlim 1 point value line)
      else if c < chr_0 \<or> chr_9 < c then None
      else if cutoff \<le> value \<and> (cutoff < value \<or> cutlim < digit_value c) then None
      else atofp_loop cutoff cutlim dot (point - dot) (s64 (value * 10 + digit_value c)) line)"

fun atofp_scale :: "int \<Rightarrow> nat \<Rightarrow> int \<Rightarrow> int option" where
  "atofp_scale cutoff 0 value = Some value"
| "atofp_scale cutoff (Suc point) value =
     (if cutoff < value then None else atofp_scale cutoff point (s64 (value * 10)))"

definition ngx_atofp :: "byte list \<Rightarrow> nat \<Rightarrow> int option" where
  "ngx_atofp line point =
     (if line = [] then None
      else case atofp_loop (NGX_MAX_INT_T_VALUE div 10) (NGX_MAX_INT_T_VALUE mod 10) 0 point 0 line of
        None \<Rightarrow> None
      | Some (value, point) \<Rightarrow> atofp_scale (NGX_MAX_INT_T_VALUE div 10) point value)"

subsection \<open>The contract of a checked reader\<close>

text \<open>The number that digits denote, after a number already read.\<close>

fun digits_value :: "int \<Rightarrow> (byte \<Rightarrow> int) \<Rightarrow> int \<Rightarrow> byte list \<Rightarrow> int" where
  "digits_value base val v [] = v"
| "digits_value base val v (c # cs) = digits_value base val (v * base + val c) cs"

lemma digits_value_append:
  "digits_value base val v (xs @ ys) = digits_value base val (digits_value base val v xs) ys"
  by (induction xs arbitrary: v) simp_all

locale checked_digits =
  fixes read :: "int \<Rightarrow> byte list \<Rightarrow> int option"
    and is_digit :: "byte \<Rightarrow> bool"
    and val :: "byte \<Rightarrow> int"
    and base bound :: int
  assumes base_pos: "1 \<le> base"
    and val_nonneg: "is_digit c \<Longrightarrow> 0 \<le> val c"
    and read_Nil: "read v [] = Some v"
    and read_Cons: "0 \<le> v \<Longrightarrow> v \<le> bound \<Longrightarrow>
      read v (c # cs) =
        (if is_digit c \<and> v * base + val c \<le> bound then read (v * base + val c) cs else None)"
begin

lemma value_mono: "0 \<le> v \<Longrightarrow> list_all is_digit cs \<Longrightarrow> v \<le> digits_value base val v cs"
proof (induction cs arbitrary: v)
  case (Cons c cs)
  then have "v \<le> v * base" and "0 \<le> val c"
    using base_pos mult_left_mono [of 1 base v] by (auto simp: val_nonneg)
  moreover from this Cons have "v * base + val c \<le> digits_value base val (v * base + val c) cs"
    by (intro Cons.IH) auto
  ultimately show ?case by simp
qed simp

theorem read_iff:
  "0 \<le> v \<Longrightarrow> v \<le> bound \<Longrightarrow>
     read v cs = Some w \<longleftrightarrow>
       list_all is_digit cs \<and> w = digits_value base val v cs \<and> w \<le> bound"
proof (induction cs arbitrary: v)
  case Nil
  then show ?case by (auto simp: read_Nil)
next
  case (Cons c cs)
  show ?case
  proof (cases "is_digit c \<and> v * base + val c \<le> bound")
    case True
    moreover from True have "0 \<le> v * base + val c"
      using Cons.prems base_pos by (simp add: val_nonneg)
    ultimately show ?thesis using Cons by (simp add: read_Cons)
  next
    case False
    then have "read v (c # cs) = None" using Cons.prems by (auto simp: read_Cons)
    moreover have "bound < digits_value base val v (c # cs)" if "list_all is_digit (c # cs)"
    proof -
      from that have "0 \<le> v * base + val c"
        using Cons.prems base_pos by (simp add: val_nonneg)
      with value_mono [of "v * base + val c" cs] that False show ?thesis by simp
    qed
    ultimately show ?thesis by auto
  qed
qed

end

subsection \<open>The readers meet the contract\<close>

abbreviation dec_digit :: "byte \<Rightarrow> bool" where
  "dec_digit c \<equiv> chr_0 \<le> c \<and> c \<le> chr_9"

abbreviation dec_value :: "byte list \<Rightarrow> int" where
  "dec_value cs \<equiv> digits_value 10 digit_value 0 cs"

definition hex_digit :: "byte \<Rightarrow> bool" where
  "hex_digit c \<longleftrightarrow> dec_digit c \<or> chr_a \<le> c \<and> c \<le> chr_f \<or> chr_A \<le> c \<and> c \<le> chr_F"

definition hex_digit_value :: "byte \<Rightarrow> int" where
  "hex_digit_value c =
     int (unat c) - (if c \<le> chr_9 then 48 else if c \<le> chr_F then 55 else 87)"

lemma digit_value_range: "dec_digit c \<Longrightarrow> 0 \<le> digit_value c \<and> digit_value c \<le> 9"
  by (simp add: digit_value_def word_le_def)

lemma hex_digit_value_range: "hex_digit c \<Longrightarrow> 0 \<le> hex_digit_value c \<and> hex_digit_value c \<le> 15"
  by (auto simp: hex_digit_def hex_digit_value_def word_le_def)

lemma hex_letter:
  "\<not> dec_digit c \<Longrightarrow> chr_a \<le> c OR 0x20 \<and> c OR 0x20 \<le> chr_f \<longleftrightarrow> hex_digit c"
  "\<not> dec_digit c \<Longrightarrow> hex_digit c \<Longrightarrow> int (unat (c OR 0x20)) - 97 + 10 = hex_digit_value c"
  by (induct c rule: byte_all; simp add: hex_digit_def hex_digit_value_def)+

interpretation dec: checked_digits
  "ato_loop (NGX_MAX_INT_T_VALUE div 10) (NGX_MAX_INT_T_VALUE mod 10)"
  dec_digit digit_value 10 NGX_MAX_INT_T_VALUE
proof unfold_locales
  show "ato_loop (NGX_MAX_INT_T_VALUE div 10) (NGX_MAX_INT_T_VALUE mod 10) v (c # cs) =
      (if dec_digit c \<and> v * 10 + digit_value c \<le> NGX_MAX_INT_T_VALUE
       then ato_loop (NGX_MAX_INT_T_VALUE div 10) (NGX_MAX_INT_T_VALUE mod 10)
         (v * 10 + digit_value c) cs else None)"
    if "0 \<le> v" and "v \<le> NGX_MAX_INT_T_VALUE" for v c cs
    using that digit_value_range [of c] by (cases "dec_digit c") (auto simp: not_le)
qed (use digit_value_range in auto)

interpretation hex: checked_digits
  "hextoi_loop (NGX_MAX_INT_T_VALUE div 16)" hex_digit hex_digit_value 16 NGX_MAX_INT_T_VALUE
proof unfold_locales
  show "hextoi_loop (NGX_MAX_INT_T_VALUE div 16) v (c # cs) =
      (if hex_digit c \<and> v * 16 + hex_digit_value c \<le> NGX_MAX_INT_T_VALUE
       then hextoi_loop (NGX_MAX_INT_T_VALUE div 16) (v * 16 + hex_digit_value c) cs else None)"
    if "0 \<le> v" and "v \<le> NGX_MAX_INT_T_VALUE" for v c cs
  proof (cases "dec_digit c")
    case True
    then have "hex_digit_value c = int (unat c) - 48" and "hex_digit c"
      by (auto simp: hex_digit_value_def hex_digit_def)
    with True that hex_digit_value_range [of c] show ?thesis by auto
  next
    case False
    with that hex_digit_value_range [of c] hex_letter [of c] show ?thesis
      by (auto simp: Let_def)
  qed
qed (use hex_digit_value_range in auto)

text \<open>The four decimal readers differ in their types only, and on this platform all are 64 bits wide.\<close>

lemma ato_readers: "ngx_atosz = ngx_atoi" "ngx_atoof = ngx_atoi" "ngx_atotm = ngx_atoi"
  by (simp_all add: fun_eq_iff ngx_atoi_def ngx_atosz_def ngx_atoof_def ngx_atotm_def)

lemma ngx_atoi_Some:
  "ngx_atoi line = Some v \<longleftrightarrow>
     line \<noteq> [] \<and> list_all dec_digit line \<and> v = dec_value line \<and> v \<le> NGX_MAX_INT_T_VALUE"
  unfolding ngx_atoi_def using dec.read_iff [of 0 line v] by simp

lemma dec_value_nonneg: "list_all dec_digit line \<Longrightarrow> 0 \<le> dec_value line"
  using dec.value_mono [of 0 line] by simp

lemma ngx_atoi_range: "ngx_atoi line = Some v \<Longrightarrow> 0 \<le> v \<and> v \<le> NGX_MAX_INT_T_VALUE"
  by (auto simp: ngx_atoi_Some dec_value_nonneg)

text \<open>C39. \<^verbatim>\<open>ngx_atoi\<close> returns a number exactly for a line of decimal digits whose value fits in an
  \<^verbatim>\<open>ngx_int_t\<close>, and then that value: the test against \<^verbatim>\<open>cutoff\<close> and \<^verbatim>\<open>cutlim\<close> never lets the
  multiplication overflow and never refuses a number that fits.\<close>

theorem ngx_atoi_iff:
  "ngx_atoi line = Some v \<longleftrightarrow>
     line \<noteq> [] \<and> list_all dec_digit line \<and> v = dec_value line \<and> v \<le> NGX_MAX_INT_T_VALUE"
  by (rule ngx_atoi_Some)

text \<open>\<^verbatim>\<open>ngx_hextoi\<close> does the same for hexadecimal digits of either case.\<close>

theorem ngx_hextoi_iff:
  "ngx_hextoi line = Some v \<longleftrightarrow>
     line \<noteq> [] \<and> list_all hex_digit line \<and> v = digits_value 16 hex_digit_value 0 line \<and>
     v \<le> NGX_MAX_INT_T_VALUE"
  unfolding ngx_hextoi_def using hex.read_iff [of 0 line v] by simp

subsection \<open>Fixed point numbers\<close>

text \<open>The digits before and after the first point.\<close>

definition int_part :: "byte list \<Rightarrow> byte list" where
  "int_part line = takeWhile (\<lambda>c. c \<noteq> chr_dot) line"

definition frac_part :: "byte list \<Rightarrow> byte list" where
  "frac_part line = tl (dropWhile (\<lambda>c. c \<noteq> chr_dot) line)"

lemma atofp_loop_frac:
  "0 \<le> v \<Longrightarrow> v \<le> NGX_MAX_INT_T_VALUE \<Longrightarrow>
   atofp_loop (NGX_MAX_INT_T_VALUE div 10) (NGX_MAX_INT_T_VALUE mod 10) 1 point v cs = Some (w, p) \<longleftrightarrow>
     list_all dec_digit cs \<and> length cs \<le> point \<and> p = point - length cs \<and>
     w = digits_value 10 digit_value v cs \<and> w \<le> NGX_MAX_INT_T_VALUE"
proof (induction cs arbitrary: v point)
  case (Cons c cs)
  show ?case
  proof (cases "dec_digit c \<and> 0 < point")
    case True
    with digit_value_range [of c] Cons dec.read_Cons [of v c cs] dec.value_mono [of "v * 10 + digit_value c" cs]
    show ?thesis by (auto simp: not_le)
  next
    case False
    then show ?thesis by auto
  qed
qed auto

lemma atofp_loop_int:
  "0 \<le> v \<Longrightarrow> v \<le> NGX_MAX_INT_T_VALUE \<Longrightarrow> 0 < point \<Longrightarrow>
   atofp_loop (NGX_MAX_INT_T_VALUE div 10) (NGX_MAX_INT_T_VALUE mod 10) 0 point v cs = Some (w, p) \<longleftrightarrow>
     list_all dec_digit (int_part cs @ frac_part cs) \<and> length (frac_part cs) \<le> point \<and>
     p = point - length (frac_part cs) \<and>
     w = digits_value 10 digit_value v (int_part cs @ frac_part cs) \<and> w \<le> NGX_MAX_INT_T_VALUE"
proof (induction cs arbitrary: v)
  case Nil
  then show ?case by (auto simp: int_part_def frac_part_def)
next
  case (Cons c cs)
  consider "c = chr_dot" | "c \<noteq> chr_dot" "dec_digit c" | "c \<noteq> chr_dot" "\<not> dec_digit c" by blast
  then show ?case
  proof cases
    case 1
    with Cons.prems atofp_loop_frac [of v point cs w p]
    show ?thesis by (simp add: int_part_def frac_part_def)
  next
    case 2
    let ?v = "v * 10 + digit_value c"
    have parts: "int_part (c # cs) = c # int_part cs" "frac_part (c # cs) = frac_part cs"
      using 2 by (simp_all add: int_part_def frac_part_def)
    from 2 Cons.prems digit_value_range [of c] have "0 \<le> ?v" by simp
    with 2 Cons.prems Cons.IH [of ?v] dec.value_mono [of ?v "int_part cs @ frac_part cs"]
      digit_value_range [of c]
    show ?thesis by (auto simp: parts not_le not_less)
  next
    case 3
    then show ?thesis by (auto simp: int_part_def)
  qed
qed

lemma atofp_scale_Some:
  "0 \<le> v \<Longrightarrow> v \<le> NGX_MAX_INT_T_VALUE \<Longrightarrow>
   atofp_scale (NGX_MAX_INT_T_VALUE div 10) n v = Some w \<longleftrightarrow> w = v * 10 ^ n \<and> w \<le> NGX_MAX_INT_T_VALUE"
proof (induction n arbitrary: v)
  case (Suc n)
  show ?case
  proof (cases "v * 10 \<le> NGX_MAX_INT_T_VALUE")
    case True
    with Suc show ?thesis by (simp add: ac_simps)
  next
    case False
    have "v * 10 * 1 \<le> v * 10 * 10 ^ n"
      using Suc.prems by (intro mult_left_mono) simp_all
    then have "v * 10 \<le> v * 10 ^ Suc n" by (simp only: mult.assoc power_Suc mult_1_right)
    with False have "NGX_MAX_INT_T_VALUE < v * 10 ^ Suc n" by linarith
    with False show ?thesis by auto
  qed
qed auto

text \<open>\<^verbatim>\<open>ngx_atofp\<close> returns a number exactly for a line of digits with at most one point and at most
  \<^verbatim>\<open>point\<close> digits after it, whose value times \<^verbatim>\<open>10^point\<close> fits, and then that scaled value.\<close>

theorem ngx_atofp_iff:
  "ngx_atofp line point = Some v \<longleftrightarrow>
     line \<noteq> [] \<and> 0 < point \<and> list_all dec_digit (int_part line @ frac_part line) \<and>
     length (frac_part line) \<le> point \<and>
     v = dec_value (int_part line @ frac_part line) * 10 ^ (point - length (frac_part line)) \<and>
     v \<le> NGX_MAX_INT_T_VALUE"
proof (cases "line \<noteq> [] \<and> 0 < point")
  case True
  let ?d = "int_part line @ frac_part line" and ?p = "point - length (frac_part line)"
  note int = atofp_loop_int [of 0 point line]
  show ?thesis
  proof (cases "atofp_loop (NGX_MAX_INT_T_VALUE div 10) (NGX_MAX_INT_T_VALUE mod 10) 0 point 0 line")
    case None
    with True int [of "dec_value ?d" ?p] have no: "\<not> (list_all dec_digit ?d \<and>
        length (frac_part line) \<le> point \<and> dec_value ?d \<le> NGX_MAX_INT_T_VALUE)" by simp
    have "dec_value ?d \<le> dec_value ?d * 10 ^ ?p" if "list_all dec_digit ?d"
      using mult_left_mono [of 1 "10 ^ ?p" "dec_value ?d"] dec_value_nonneg [OF that] by simp
    with no None True show ?thesis unfolding ngx_atofp_def by (auto dest: order_trans)
  next
    case (Some wp)
    with True int [of "fst wp" "snd wp"]
    have wp: "list_all dec_digit ?d" "length (frac_part line) \<le> point" "snd wp = ?p"
      "fst wp = dec_value ?d" "fst wp \<le> NGX_MAX_INT_T_VALUE" by auto
    with dec_value_nonneg [of ?d] atofp_scale_Some [of "fst wp" "snd wp" v] Some True
    show ?thesis by (simp add: ngx_atofp_def case_prod_beta)
  qed
next
  case False
  then show ?thesis by (cases line) (auto simp: ngx_atofp_def)
qed

end
