(* ===== verification/Ngx_Parse.thy ===== *)
theory Ngx_Parse
  imports Ngx_Atoi
begin

section \<open>Sizes, offsets and times\<close>

text \<open>
  \<^verbatim>\<open>src/core/ngx_parse.c\<close>: numbers with a unit, as the configuration writes them. As in the source
  \<open>lim\<close> (\<^verbatim>\<open>max\<close>) is the largest number that can be multiplied by \<^verbatim>\<open>scale\<close>.
\<close>

definition ngx_parse_size :: "byte list \<Rightarrow> int option" where
  "ngx_parse_size line =
     (if line = [] then None
      else
        let unit = last line;
            (line', lim, scale) =
              (if unit = 0x4b \<or> unit = 0x6b then
                 (butlast line, NGX_MAX_SIZE_T_VALUE div 1024, 1024)
               else if unit = 0x4d \<or> unit = 0x6d then
                 (butlast line, NGX_MAX_SIZE_T_VALUE div (1024 * 1024), 1024 * 1024)
               else (line, NGX_MAX_SIZE_T_VALUE, 1))
        in case ngx_atosz line' of
             None \<Rightarrow> None
           | Some sz \<Rightarrow> if lim < sz then None else Some (s64 (sz * scale)))"

definition ngx_parse_offset :: "byte list \<Rightarrow> int option" where
  "ngx_parse_offset line =
     (if line = [] then None
      else
        let unit = last line;
            (line', lim, scale) =
              (if unit = 0x4b \<or> unit = 0x6b then
                 (butlast line, NGX_MAX_OFF_T_VALUE div 1024, 1024)
               else if unit = 0x4d \<or> unit = 0x6d then
                 (butlast line, NGX_MAX_OFF_T_VALUE div (1024 * 1024), 1024 * 1024)
               else if unit = 0x47 \<or> unit = 0x67 then
                 (butlast line, NGX_MAX_OFF_T_VALUE div (1024 * 1024 * 1024), 1024 * 1024 * 1024)
               else (line, NGX_MAX_OFF_T_VALUE, 1))
        in case ngx_atoof line' of
             None \<Rightarrow> None
           | Some off \<Rightarrow> if lim < off then None else Some (s64 (off * scale)))"

subsection \<open>Times\<close>

text \<open>The states of the scanner, in the order of their numbers.\<close>

datatype time_step =
    st_start | st_year | st_month | st_week | st_day | st_hour | st_min | st_sec | st_msec | st_last

fun time_step_number :: "time_step \<Rightarrow> nat" where
  "time_step_number st_start = 0"
| "time_step_number st_year = 1"
| "time_step_number st_month = 2"
| "time_step_number st_week = 3"
| "time_step_number st_day = 4"
| "time_step_number st_hour = 5"
| "time_step_number st_min = 6"
| "time_step_number st_sec = 7"
| "time_step_number st_msec = 8"
| "time_step_number st_last = 9"

instantiation time_step :: linorder
begin

definition less_eq_time_step :: "time_step \<Rightarrow> time_step \<Rightarrow> bool" where
  "less_eq_time_step s t \<longleftrightarrow> time_step_number s \<le> time_step_number t"

definition less_time_step :: "time_step \<Rightarrow> time_step \<Rightarrow> bool" where
  "less_time_step s t \<longleftrightarrow> time_step_number s < time_step_number t"

instance
proof
  show "s = t" if "s \<le> t" and "t \<le> s" for s t :: time_step
    using that by (cases s; cases t; simp add: less_eq_time_step_def)
qed (auto simp: less_eq_time_step_def less_time_step_def)

end

text \<open>The \<^verbatim>\<open>switch\<close> on the character after the digits: the next state, \<open>lim\<close>, \<^verbatim>\<open>scale\<close> and the rest
  of the line.\<close>

definition parse_time_unit ::
  "bool \<Rightarrow> time_step \<Rightarrow> byte \<Rightarrow> byte list \<Rightarrow> (time_step \<times> int \<times> int \<times> byte list) option" where
  "parse_time_unit is_sec step c p =
     (if c = 0x79 then
        (if step > st_start then None
         else Some (st_year, NGX_MAX_INT_T_VALUE div (60 * 60 * 24 * 365), 60 * 60 * 24 * 365, p))
      else if c = 0x4d then
        (if step \<ge> st_month then None
         else Some (st_month, NGX_MAX_INT_T_VALUE div (60 * 60 * 24 * 30), 60 * 60 * 24 * 30, p))
      else if c = 0x77 then
        (if step \<ge> st_week then None
         else Some (st_week, NGX_MAX_INT_T_VALUE div (60 * 60 * 24 * 7), 60 * 60 * 24 * 7, p))
      else if c = 0x64 then
        (if step \<ge> st_day then None
         else Some (st_day, NGX_MAX_INT_T_VALUE div (60 * 60 * 24), 60 * 60 * 24, p))
      else if c = 0x68 then
        (if step \<ge> st_hour then None
         else Some (st_hour, NGX_MAX_INT_T_VALUE div (60 * 60), 60 * 60, p))
      else if c = 0x6d then
        (case p of
           s # p' \<Rightarrow>
             if s = 0x73 then
               (if is_sec \<or> step \<ge> st_msec then None else Some (st_msec, NGX_MAX_INT_T_VALUE, 1, p'))
             else if step \<ge> st_min then None
             else Some (st_min, NGX_MAX_INT_T_VALUE div 60, 60, p)
         | [] \<Rightarrow>
             if step \<ge> st_min then None
             else Some (st_min, NGX_MAX_INT_T_VALUE div 60, 60, p))
      else if c = 0x73 then
        (if step \<ge> st_sec then None else Some (st_sec, NGX_MAX_INT_T_VALUE, 1, p))
      else if c = chr_space then
        (if step \<ge> st_sec then None else Some (st_last, NGX_MAX_INT_T_VALUE, 1, p))
      else None)"

lemma parse_time_unit_shorter:
  "parse_time_unit is_sec step c p = Some (step', lim, scale, p') \<Longrightarrow> length p' \<le> length p"
  by (simp add: parse_time_unit_def split: if_split_asm list.split_asm) auto

text \<open>The loop over the line, from \<open>valid\<close>, \<open>value\<close>, \<open>tot\<close> and \<open>step\<close>, and the code after it.\<close>

function parse_time_loop ::
  "bool \<Rightarrow> bool \<Rightarrow> int \<Rightarrow> int \<Rightarrow> time_step \<Rightarrow> byte list \<Rightarrow> (bool \<times> int \<times> int) option" where
  "parse_time_loop is_sec valid value tot step [] = Some (valid, value, tot)"
| "parse_time_loop is_sec valid value tot step (c # p) =
     (if chr_0 \<le> c \<and> c \<le> chr_9 then
        (if NGX_MAX_INT_T_VALUE div 10 \<le> value \<and>
            (NGX_MAX_INT_T_VALUE div 10 < value \<or> NGX_MAX_INT_T_VALUE mod 10 < digit_value c)
         then None
         else parse_time_loop is_sec True (s64 (value * 10 + digit_value c)) tot step p)
      else
        case parse_time_unit is_sec step c p of
          None \<Rightarrow> None
        | Some (step, lim, scale, p) \<Rightarrow>
            let (scale, lim) =
                  (if step \<noteq> st_msec \<and> \<not> is_sec then (scale * 1000, lim div 1000) else (scale, lim))
            in if lim < value then None
               else
                 let value = s64 (value * scale)
                 in if NGX_MAX_INT_T_VALUE - value < tot then None
                    else parse_time_loop is_sec valid 0 (s64 (tot + value)) step
                           (dropWhile (\<lambda>c. c = chr_space) p))"
  by pat_completeness auto

termination
  by (relation "measure (\<lambda>(is_sec, valid, value, tot, step, p). length p)")
    (auto dest!: parse_time_unit_shorter intro: le_imp_less_Suc order_trans [OF length_dropWhile_le]
      split: if_splits)

definition ngx_parse_time :: "byte list \<Rightarrow> bool \<Rightarrow> int option" where
  "ngx_parse_time line is_sec =
     (case parse_time_loop is_sec False 0 0 (if is_sec then st_start else st_month) line of
        None \<Rightarrow> None
      | Some (valid, value, tot) \<Rightarrow>
          if \<not> valid then None
          else if \<not> is_sec \<and> NGX_MAX_INT_T_VALUE div 1000 < value then None
          else
            let value = (if is_sec then value else s64 (value * 1000))
            in if NGX_MAX_INT_T_VALUE - value < tot then None else Some (s64 (tot + value)))"

subsection \<open>Sizes and offsets\<close>

text \<open>The multiplier and the digits of a line with a unit.\<close>

definition size_unit :: "byte \<Rightarrow> int" where
  "size_unit c = (if c = 0x4b \<or> c = 0x6b then 1024 else if c = 0x4d \<or> c = 0x6d then 1048576 else 1)"

definition offset_unit :: "byte \<Rightarrow> int" where
  "offset_unit c = (if c = 0x47 \<or> c = 0x67 then 1073741824 else size_unit c)"

definition with_unit :: "(byte \<Rightarrow> int) \<Rightarrow> byte list \<Rightarrow> int \<Rightarrow> bool" where
  "with_unit unit line v \<longleftrightarrow>
     line \<noteq> [] \<and>
     (let ds = (if unit (last line) = 1 then line else butlast line)
      in ds \<noteq> [] \<and> list_all dec_digit ds \<and> v = dec_value ds * unit (last line) \<and>
         v \<le> NGX_MAX_SIZE_T_VALUE)"

text \<open>Both readers are a number read by \<^const>\<open>ngx_atoi\<close>, then multiplied.\<close>

definition scaled_number :: "int \<Rightarrow> byte list \<Rightarrow> int option" where
  "scaled_number scale ds =
     (case ngx_atoi ds of
        None \<Rightarrow> None
      | Some n \<Rightarrow> if NGX_MAX_SIZE_T_VALUE div scale < n then None else Some (s64 (n * scale)))"

lemma scaled_number_Some:
  assumes "1 \<le> scale"
  shows "scaled_number scale ds = Some v \<longleftrightarrow>
     ds \<noteq> [] \<and> list_all dec_digit ds \<and> v = dec_value ds * scale \<and> v \<le> NGX_MAX_SIZE_T_VALUE"
proof (cases "ngx_atoi ds")
  case None
  have "dec_value ds \<le> dec_value ds * scale" if "list_all dec_digit ds"
    using mult_left_mono [OF assms, of "dec_value ds"] dec_value_nonneg [OF that] by simp
  then have "\<not> (ds \<noteq> [] \<and> list_all dec_digit ds \<and> dec_value ds * scale \<le> NGX_MAX_SIZE_T_VALUE)"
    using None ngx_atoi_Some [of ds "dec_value ds"] by force
  with None show ?thesis by (auto simp: scaled_number_def)
next
  case (Some n)
  then have n: "ds \<noteq> []" "list_all dec_digit ds" "n = dec_value ds" "0 \<le> n"
    by (auto simp: ngx_atoi_Some dec_value_nonneg)
  have "NGX_MAX_SIZE_T_VALUE div scale < n \<longleftrightarrow> NGX_MAX_SIZE_T_VALUE < n * scale"
    using assms by (simp add: int_div_less_iff)
  with Some n assms show ?thesis by (auto simp: scaled_number_def)
qed

lemma ngx_parse_size_scaled:
  "ngx_parse_size line =
     (if line = [] then None
      else if size_unit (last line) = 1 then scaled_number 1 line
      else scaled_number (size_unit (last line)) (butlast line))"
  by (auto simp: ngx_parse_size_def scaled_number_def size_unit_def ato_readers split: option.split)

lemma ngx_parse_offset_scaled:
  "ngx_parse_offset line =
     (if line = [] then None
      else if offset_unit (last line) = 1 then scaled_number 1 line
      else scaled_number (offset_unit (last line)) (butlast line))"
  by (auto simp: ngx_parse_offset_def scaled_number_def offset_unit_def size_unit_def ato_readers split: option.split)

lemma units_pos [simp]: "1 \<le> size_unit c" "1 \<le> offset_unit c"
  by (simp_all add: offset_unit_def size_unit_def)

text \<open>A size is read exactly from digits with an optional unit (\<^verbatim>\<open>K\<close>, \<^verbatim>\<open>M\<close> of either case) whose
  value fits.\<close>

theorem ngx_parse_size_iff: "ngx_parse_size line = Some v \<longleftrightarrow> with_unit size_unit line v"
  by (auto simp: ngx_parse_size_scaled with_unit_def scaled_number_Some Let_def)

text \<open>An offset likewise, with the unit \<^verbatim>\<open>G\<close> besides.\<close>

theorem ngx_parse_offset_iff: "ngx_parse_offset line = Some v \<longleftrightarrow> with_unit offset_unit line v"
  by (auto simp: ngx_parse_offset_scaled with_unit_def scaled_number_Some Let_def)

subsection \<open>Times read as their length\<close>

text \<open>A time as it is meant: numbers with their units, each followed by some spaces, and a last number
  without a unit.\<close>

datatype time_unit = Years | Months | Weeks | Days | Hours | Minutes | Seconds | Milliseconds

fun unit_text :: "time_unit \<Rightarrow> byte list" where
  "unit_text Years = [0x79]"
| "unit_text Months = [0x4d]"
| "unit_text Weeks = [0x77]"
| "unit_text Days = [0x64]"
| "unit_text Hours = [0x68]"
| "unit_text Minutes = [0x6d]"
| "unit_text Seconds = [0x73]"
| "unit_text Milliseconds = [0x6d, 0x73]"

fun unit_step :: "time_unit \<Rightarrow> time_step" where
  "unit_step Years = st_year"
| "unit_step Months = st_month"
| "unit_step Weeks = st_week"
| "unit_step Days = st_day"
| "unit_step Hours = st_hour"
| "unit_step Minutes = st_min"
| "unit_step Seconds = st_sec"
| "unit_step Milliseconds = st_msec"

text \<open>The length of a unit, in seconds or in milliseconds.\<close>

fun unit_length :: "bool \<Rightarrow> time_unit \<Rightarrow> int" where
  "unit_length is_sec Years = 31536000 * (if is_sec then 1 else 1000)"
| "unit_length is_sec Months = 2592000 * (if is_sec then 1 else 1000)"
| "unit_length is_sec Weeks = 604800 * (if is_sec then 1 else 1000)"
| "unit_length is_sec Days = 86400 * (if is_sec then 1 else 1000)"
| "unit_length is_sec Hours = 3600 * (if is_sec then 1 else 1000)"
| "unit_length is_sec Minutes = 60 * (if is_sec then 1 else 1000)"
| "unit_length is_sec Seconds = (if is_sec then 1 else 1000)"
| "unit_length is_sec Milliseconds = 1"

type_synonym time_item = "byte list \<times> time_unit \<times> nat"

fun time_text :: "time_item list \<Rightarrow> byte list \<Rightarrow> byte list" where
  "time_text [] final = final"
| "time_text ((ds, u, n) # items) final = ds @ unit_text u @ replicate n chr_space @ time_text items final"

fun time_value :: "bool \<Rightarrow> time_item list \<Rightarrow> byte list \<Rightarrow> int" where
  "time_value is_sec [] final = dec_value final * (if is_sec then 1 else 1000)"
| "time_value is_sec ((ds, u, n) # items) final = dec_value ds * unit_length is_sec u + time_value is_sec items final"

text \<open>Units from the largest to the smallest, each at most once; no milliseconds in a time in seconds, no
  years and months in a time in milliseconds.\<close>

fun time_items_ok :: "bool \<Rightarrow> time_step \<Rightarrow> time_item list \<Rightarrow> bool" where
  "time_items_ok is_sec step [] = True"
| "time_items_ok is_sec step ((ds, u, n) # items) =
     (ds \<noteq> [] \<and> list_all dec_digit ds \<and> step < unit_step u \<and> (u = Milliseconds \<longrightarrow> \<not> is_sec) \<and>
      time_items_ok is_sec (unit_step u) items)"

lemma parse_time_digits:
  "0 \<le> v \<Longrightarrow> v \<le> NGX_MAX_INT_T_VALUE \<Longrightarrow> list_all dec_digit ds \<Longrightarrow>
   parse_time_loop is_sec valid v tot step (ds @ p) =
     (if digits_value 10 digit_value v ds \<le> NGX_MAX_INT_T_VALUE
      then parse_time_loop is_sec (valid \<or> ds \<noteq> []) (digits_value 10 digit_value v ds) tot step p
      else None)"
proof (induction ds arbitrary: v valid)
  case (Cons c ds)
  let ?v = "v * 10 + digit_value c"
  have c: "dec_digit c" "0 \<le> digit_value c" "digit_value c \<le> 9" "0 \<le> ?v"
    using Cons.prems digit_value_range [of c] by auto
  show ?case
  proof (cases "?v \<le> NGX_MAX_INT_T_VALUE")
    case True
    with c Cons show ?thesis by auto
  next
    case False
    with c Cons.prems dec.value_mono [of ?v ds] show ?thesis by auto
  qed
qed simp

text \<open>The character after a unit is never an \<^verbatim>\<open>s\<close> that would turn minutes into milliseconds.\<close>

definition item_end :: "byte list \<Rightarrow> bool" where
  "item_end p \<longleftrightarrow> (p = [] \<or> dec_digit (hd p))"

lemma parse_time_unit_text:
  assumes "step < unit_step u" and "u = Milliseconds \<longrightarrow> \<not> is_sec" and "item_end p"
  shows "parse_time_unit is_sec step (hd (unit_text u)) (tl (unit_text u) @ replicate n chr_space @ p) =
    Some (unit_step u, NGX_MAX_INT_T_VALUE div unit_length True u, unit_length True u, replicate n chr_space @ p)"
proof -
  have "replicate n chr_space @ p = [] \<or> hd (replicate n chr_space @ p) \<noteq> 0x73"
    using assms(3) by (cases n) (auto simp: item_end_def)
  then show ?thesis
    using assms(1,2)
    by (cases u; cases step) (auto simp: parse_time_unit_def less_time_step_def less_eq_time_step_def split: list.split)
qed

lemma unit_text_Cons: "unit_text u = hd (unit_text u) # tl (unit_text u)" "\<not> dec_digit (hd (unit_text u))"
  by (cases u; simp)+

lemma unit_length_pos: "1 \<le> unit_length is_sec u"
  by (cases u) simp_all

lemma parse_time_scale:
  "(if unit_step u \<noteq> st_msec \<and> \<not> is_sec
    then (unit_length True u * 1000, NGX_MAX_INT_T_VALUE div unit_length True u div 1000)
    else (unit_length True u, NGX_MAX_INT_T_VALUE div unit_length True u)) =
   (unit_length is_sec u, NGX_MAX_INT_T_VALUE div unit_length is_sec u)"
  by (cases u) simp_all

lemma parse_time_item:
  assumes tot: "0 \<le> tot" "tot \<le> NGX_MAX_INT_T_VALUE"
    and ds: "ds \<noteq> []" "list_all dec_digit ds"
    and u: "step < unit_step u" "u = Milliseconds \<longrightarrow> \<not> is_sec"
    and p: "item_end p"
  shows "parse_time_loop is_sec valid 0 tot step (ds @ unit_text u @ replicate n chr_space @ p) =
    (if tot + dec_value ds * unit_length is_sec u \<le> NGX_MAX_INT_T_VALUE
     then parse_time_loop is_sec True 0 (tot + dec_value ds * unit_length is_sec u) (unit_step u) p
     else None)"
proof -
  let ?v = "dec_value ds" and ?l = "unit_length is_sec u"
  have v: "0 \<le> ?v" by (rule dec_value_nonneg [OF ds(2)])
  have l: "?v \<le> ?v * ?l" using mult_left_mono [OF unit_length_pos v] by simp
  have "dropWhile (\<lambda>c. c = chr_space) p = p" using p by (cases p) (auto simp: item_end_def)
  then have spaces: "dropWhile (\<lambda>c. c = chr_space) (replicate n chr_space @ p) = p"
    by (subst dropWhile_append2) simp_all
  have "parse_time_loop is_sec True ?v tot step (unit_text u @ replicate n chr_space @ p) =
    (if tot + ?v * ?l \<le> NGX_MAX_INT_T_VALUE
     then parse_time_loop is_sec True 0 (tot + ?v * ?l) (unit_step u) p else None)"
    if "?v \<le> NGX_MAX_INT_T_VALUE"
  proof -
    have "NGX_MAX_INT_T_VALUE div ?l < ?v \<longleftrightarrow> NGX_MAX_INT_T_VALUE < ?v * ?l"
      using unit_length_pos [of is_sec u] by (intro int_div_less_iff) simp
    with v l tot show ?thesis
      by (subst unit_text_Cons(1)) (auto simp: unit_text_Cons(2) parse_time_unit_text [OF u p]
          parse_time_scale spaces Let_def not_less simp del: unit_text.simps)
  qed
  with l tot ds(1) show ?thesis by (simp add: parse_time_digits [OF _ _ ds(2)])
qed

lemma item_end_text: "time_items_ok is_sec step items \<Longrightarrow> list_all dec_digit final \<Longrightarrow> item_end (time_text items final)"
  by (cases items; cases final) (auto simp: item_end_def neq_Nil_conv)

lemma time_value_split:
  "time_value is_sec items final = time_value is_sec items [] + dec_value final * (if is_sec then 1 else 1000)"
  by (induction items) auto

lemma time_value_nonneg: "time_items_ok is_sec step items \<Longrightarrow> 0 \<le> time_value is_sec items []"
proof (induction items arbitrary: step)
  case (Cons item items)
  obtain ds u n where item: "item = (ds, u, n)" by (cases item)
  with Cons have "0 \<le> dec_value ds" and "0 \<le> time_value is_sec items []"
    by (auto intro: dec_value_nonneg)
  with unit_length_pos [of is_sec u] item show ?case by simp
qed simp

lemma parse_time_items:
  assumes "list_all dec_digit final"
  shows "time_items_ok is_sec step items \<Longrightarrow> 0 \<le> tot \<Longrightarrow> tot \<le> NGX_MAX_INT_T_VALUE \<Longrightarrow>
    parse_time_loop is_sec valid 0 tot step (time_text items final) =
      (if tot + time_value is_sec items [] \<le> NGX_MAX_INT_T_VALUE \<and> dec_value final \<le> NGX_MAX_INT_T_VALUE
       then Some (valid \<or> items \<noteq> [] \<or> final \<noteq> [], dec_value final, tot + time_value is_sec items [])
       else None)"
proof (induction items arbitrary: step tot valid)
  case Nil
  with parse_time_digits [of 0 final is_sec valid tot step "[]"] assms show ?case by simp
next
  case (Cons item items)
  obtain ds u n where item: "item = (ds, u, n)" by (cases item)
  let ?tot = "tot + dec_value ds * unit_length is_sec u"
  from Cons.prems item have ok: "ds \<noteq> []" "list_all dec_digit ds" "step < unit_step u"
    "u = Milliseconds \<longrightarrow> \<not> is_sec" "time_items_ok is_sec (unit_step u) items" by simp_all
  have "0 \<le> dec_value ds * unit_length is_sec u"
    using dec_value_nonneg [OF ok(2)] unit_length_pos [of is_sec u] by simp
  with Cons.prems Cons.IH [OF ok(5), of ?tot] time_value_nonneg [OF ok(5)]
  show ?case
    by (simp add: item parse_time_item [OF _ _ ok(1-4) item_end_text [OF ok(5) assms]])
qed

text \<open>A time written as numbers with descending units and perhaps a last number without one is read as
  its length in seconds or in milliseconds when that fits in an \<^verbatim>\<open>ngx_int_t\<close>, and refused when it does
  not.\<close>

theorem ngx_parse_time_value:
  assumes "time_items_ok is_sec (if is_sec then st_start else st_month) items"
    and "list_all dec_digit final" and "items \<noteq> [] \<or> final \<noteq> []"
  shows "ngx_parse_time (time_text items final) is_sec =
    (if time_value is_sec items final \<le> NGX_MAX_INT_T_VALUE
     then Some (time_value is_sec items final) else None)"
proof -
  let ?t = "time_value is_sec items []" and ?f = "dec_value final"
  have t: "0 \<le> ?t" and f: "0 \<le> ?f"
    using time_value_nonneg [OF assms(1)] dec_value_nonneg [OF assms(2)] by simp_all
  have "NGX_MAX_INT_T_VALUE div 1000 < ?f \<longleftrightarrow> NGX_MAX_INT_T_VALUE < ?f * 1000"
    by (rule int_div_less_iff) simp
  with t f assms(3) show ?thesis
    unfolding ngx_parse_time_def time_value_split [of is_sec items final]
      parse_time_items [OF assms(2,1) order_refl, of False, simplified]
    by (auto simp: Let_def)
qed

theorem ngx_parse_time_value_witness:
  "ngx_parse_time (bytes_of ''1d 12h30'') True =
     Some (time_value True [(bytes_of ''1'', Days, 1), (bytes_of ''12'', Hours, 0)] (bytes_of ''30''))"
proof -
  have "time_text [(bytes_of ''1'', Days, 1), (bytes_of ''12'', Hours, 0)] (bytes_of ''30'') = bytes_of ''1d 12h30''"
    by (simp add: bytes_of_def)
  with ngx_parse_time_value [of True "[(bytes_of ''1'', Days, 1), (bytes_of ''12'', Hours, 0)]" "bytes_of ''30''"]
  show ?thesis by (simp add: bytes_of_def less_time_step_def digit_value_def)
qed

end
