(* ===== verification/Ngx_Base64.thy ===== *)
theory Ngx_Base64
  imports Prefix_Code
begin

section \<open>Base64\<close>

text \<open>
  \<^verbatim>\<open>ngx_encode_base64\<close>, \<^verbatim>\<open>ngx_encode_base64url\<close> and their decoders in \<^verbatim>\<open>src/core/ngx_string.c\<close>, with
  the constant tables of the source. The locale \<open>base64_alphabet\<close> is the contract between the two
  tables of an alphabet; both alphabets meet it. The lemmas speak of the bits that the text stands for.
\<close>

subsection \<open>The alphabets\<close>

definition base64_encode_basis :: "byte list" where
  "base64_encode_basis =
     bytes_of ''ABCDEFGHIJKLMNOPQRSTUVWXYZabcdefghijklmnopqrstuvwxyz0123456789+/''"

definition base64url_encode_basis :: "byte list" where
  "base64url_encode_basis =
     bytes_of ''ABCDEFGHIJKLMNOPQRSTUVWXYZabcdefghijklmnopqrstuvwxyz0123456789-_''"

definition base64_decode_basis :: "byte list" where
  "base64_decode_basis =
    [
     77, 77, 77, 77, 77, 77, 77, 77, 77, 77, 77, 77, 77, 77, 77, 77,
     77, 77, 77, 77, 77, 77, 77, 77, 77, 77, 77, 77, 77, 77, 77, 77,
     77, 77, 77, 77, 77, 77, 77, 77, 77, 77, 77, 62, 77, 77, 77, 63,
     52, 53, 54, 55, 56, 57, 58, 59, 60, 61, 77, 77, 77, 77, 77, 77,
     77, 0, 1, 2, 3, 4, 5, 6, 7, 8, 9, 10, 11, 12, 13, 14,
     15, 16, 17, 18, 19, 20, 21, 22, 23, 24, 25, 77, 77, 77, 77, 77,
     77, 26, 27, 28, 29, 30, 31, 32, 33, 34, 35, 36, 37, 38, 39, 40,
     41, 42, 43, 44, 45, 46, 47, 48, 49, 50, 51, 77, 77, 77, 77, 77,
     77, 77, 77, 77, 77, 77, 77, 77, 77, 77, 77, 77, 77, 77, 77, 77,
     77, 77, 77, 77, 77, 77, 77, 77, 77, 77, 77, 77, 77, 77, 77, 77,
     77, 77, 77, 77, 77, 77, 77, 77, 77, 77, 77, 77, 77, 77, 77, 77,
     77, 77, 77, 77, 77, 77, 77, 77, 77, 77, 77, 77, 77, 77, 77, 77,
     77, 77, 77, 77, 77, 77, 77, 77, 77, 77, 77, 77, 77, 77, 77, 77,
     77, 77, 77, 77, 77, 77, 77, 77, 77, 77, 77, 77, 77, 77, 77, 77,
     77, 77, 77, 77, 77, 77, 77, 77, 77, 77, 77, 77, 77, 77, 77, 77,
     77, 77, 77, 77, 77, 77, 77, 77, 77, 77, 77, 77, 77, 77, 77, 77]"

definition base64url_decode_basis :: "byte list" where
  "base64url_decode_basis =
    [
     77, 77, 77, 77, 77, 77, 77, 77, 77, 77, 77, 77, 77, 77, 77, 77,
     77, 77, 77, 77, 77, 77, 77, 77, 77, 77, 77, 77, 77, 77, 77, 77,
     77, 77, 77, 77, 77, 77, 77, 77, 77, 77, 77, 77, 77, 62, 77, 77,
     52, 53, 54, 55, 56, 57, 58, 59, 60, 61, 77, 77, 77, 77, 77, 77,
     77, 0, 1, 2, 3, 4, 5, 6, 7, 8, 9, 10, 11, 12, 13, 14,
     15, 16, 17, 18, 19, 20, 21, 22, 23, 24, 25, 77, 77, 77, 77, 63,
     77, 26, 27, 28, 29, 30, 31, 32, 33, 34, 35, 36, 37, 38, 39, 40,
     41, 42, 43, 44, 45, 46, 47, 48, 49, 50, 51, 77, 77, 77, 77, 77,
     77, 77, 77, 77, 77, 77, 77, 77, 77, 77, 77, 77, 77, 77, 77, 77,
     77, 77, 77, 77, 77, 77, 77, 77, 77, 77, 77, 77, 77, 77, 77, 77,
     77, 77, 77, 77, 77, 77, 77, 77, 77, 77, 77, 77, 77, 77, 77, 77,
     77, 77, 77, 77, 77, 77, 77, 77, 77, 77, 77, 77, 77, 77, 77, 77,
     77, 77, 77, 77, 77, 77, 77, 77, 77, 77, 77, 77, 77, 77, 77, 77,
     77, 77, 77, 77, 77, 77, 77, 77, 77, 77, 77, 77, 77, 77, 77, 77,
     77, 77, 77, 77, 77, 77, 77, 77, 77, 77, 77, 77, 77, 77, 77, 77,
     77, 77, 77, 77, 77, 77, 77, 77, 77, 77, 77, 77, 77, 77, 77, 77]"

subsection \<open>Encoding\<close>

fun ngx_encode_base64_internal :: "byte list \<Rightarrow> bool \<Rightarrow> byte list \<Rightarrow> byte list" where
  "ngx_encode_base64_internal basis padding (s0 # s1 # s2 # s) =
     basis ! unat (drop_bit 2 s0 AND 0x3f) #
     basis ! unat (push_bit 4 (s0 AND 3) OR drop_bit 4 s1) #
     basis ! unat (push_bit 2 (s1 AND 0x0f) OR drop_bit 6 s2) #
     basis ! unat (s2 AND 0x3f) #
     ngx_encode_base64_internal basis padding s"
| "ngx_encode_base64_internal basis padding [s0] =
     [basis ! unat (drop_bit 2 s0 AND 0x3f), basis ! unat (push_bit 4 (s0 AND 3))] @
     (if padding then [chr_eq] else []) @ (if padding then [chr_eq] else [])"
| "ngx_encode_base64_internal basis padding [s0, s1] =
     [basis ! unat (drop_bit 2 s0 AND 0x3f),
      basis ! unat (push_bit 4 (s0 AND 3) OR drop_bit 4 s1),
      basis ! unat (push_bit 2 (s1 AND 0x0f))] @
     (if padding then [chr_eq] else [])"
| "ngx_encode_base64_internal basis padding [] = []"

definition ngx_encode_base64 :: "byte list \<Rightarrow> byte list" where
  "ngx_encode_base64 src = ngx_encode_base64_internal base64_encode_basis True src"

definition ngx_encode_base64url :: "byte list \<Rightarrow> byte list" where
  "ngx_encode_base64url src = ngx_encode_base64_internal base64url_encode_basis False src"

subsection \<open>Decoding\<close>

text \<open>The first loop: the number of characters before the padding, or an error.\<close>

fun base64_len :: "byte list \<Rightarrow> nat \<Rightarrow> byte list \<Rightarrow> nat option" where
  "base64_len basis len [] = Some len"
| "base64_len basis len (c # s) =
     (if c = chr_eq then Some len
      else if basis ! unat c = 77 then None
      else base64_len basis (len + 1) s)"

text \<open>The second loop and the two conditionals after it, on the characters that are counted.\<close>

fun base64_decode_quads :: "byte list \<Rightarrow> byte list \<Rightarrow> byte list" where
  "base64_decode_quads basis (s0 # s1 # s2 # s3 # s) =
     (push_bit 2 (basis ! unat s0) OR drop_bit 4 (basis ! unat s1)) #
     (push_bit 4 (basis ! unat s1) OR drop_bit 2 (basis ! unat s2)) #
     (push_bit 6 (basis ! unat s2) OR basis ! unat s3) #
     base64_decode_quads basis s"
| "base64_decode_quads basis [s0, s1, s2] =
     [push_bit 2 (basis ! unat s0) OR drop_bit 4 (basis ! unat s1),
      push_bit 4 (basis ! unat s1) OR drop_bit 2 (basis ! unat s2)]"
| "base64_decode_quads basis [s0, s1] =
     [push_bit 2 (basis ! unat s0) OR drop_bit 4 (basis ! unat s1)]"
| "base64_decode_quads basis _ = []"

definition ngx_decode_base64_internal :: "byte list \<Rightarrow> byte list \<Rightarrow> byte list option" where
  "ngx_decode_base64_internal basis src =
     (case base64_len basis 0 src of
        None \<Rightarrow> None
      | Some len \<Rightarrow> if len mod 4 = 1 then None else Some (base64_decode_quads basis (take len src)))"

definition ngx_decode_base64 :: "byte list \<Rightarrow> byte list option" where
  "ngx_decode_base64 src = ngx_decode_base64_internal base64_decode_basis src"

definition ngx_decode_base64url :: "byte list \<Rightarrow> byte list option" where
  "ngx_decode_base64url src = ngx_decode_base64_internal base64url_decode_basis src"

subsection \<open>Induction by threes and fours\<close>

lemma list_induct_by_3:
  assumes "P []" and "\<And>a. P [a]" and "\<And>a b. P [a, b]"
    and "\<And>a b c xs. P xs \<Longrightarrow> P (a # b # c # xs)"
  shows "P (xs :: byte list)"
  by (rule ngx_encode_base64_internal.induct [of "\<lambda>_ _. P" undefined undefined xs]) (use assms in auto)

lemma list_induct_by_4:
  assumes "P []" and "\<And>a. P [a]" and "\<And>a b. P [a, b]" and "\<And>a b c. P [a, b, c]"
    and "\<And>a b c d xs. P xs \<Longrightarrow> P (a # b # c # d # xs)"
  shows "P (xs :: byte list)"
  by (rule base64_decode_quads.induct [of "\<lambda>_. P" undefined xs]) (use assms in auto)

lemma byte_bits_inject: "byte_bits a = byte_bits b \<Longrightarrow> a = b"
  unfolding byte_bits_def using bits_of_inject [of 8 "unat a" "unat b"] by (simp add: byte_eq_unat)

lemma bytes_bits_inject: "bytes_bits xs = bytes_bits ys \<Longrightarrow> xs = ys"
proof (induction xs arbitrary: ys)
  case Nil
  then show ?case using length_bytes_bits [of ys] by simp
next
  case (Cons x xs)
  then obtain y zs where "ys = y # zs" using length_bytes_bits [of "x # xs"] by (cases ys) auto
  with Cons show ?case by (auto simp: byte_bits_def dest: byte_bits_inject [unfolded byte_bits_def])
qed

subsection \<open>Bytes put together from two bytes\<close>

lemma unat_push_or_drop:
  assumes "unat b div 2 ^ j < 2 ^ k" and "k \<le> 8"
  shows "unat (push_bit k a OR drop_bit j (b :: byte)) = (unat a mod 2 ^ (8 - k)) * 2 ^ k + unat b div 2 ^ j"
proof -
  have "unat (push_bit k a) = (unat a * 2 ^ k) mod (2 ^ (8 - k) * 2 ^ k)"
    using assms(2) by (subst unsigned_push_bit_eq)
      (simp add: take_bit_eq_mod push_bit_eq_mult power_add [symmetric])
  then have "unat (push_bit k a) = (unat a mod 2 ^ (8 - k)) * 2 ^ k"
    by (simp only: mult_mod_left)
  with assms(1) show ?thesis by (simp add: unsigned_or_eq unat_drop_bit or_shift_add)
qed

lemma unat_push_or:
  "unat b < 2 ^ k \<Longrightarrow> k \<le> 8 \<Longrightarrow>
     unat (push_bit k a OR (b :: byte)) = (unat a mod 2 ^ (8 - k)) * 2 ^ k + unat b"
  using unat_push_or_drop [of b 0 k a] by simp

lemma unat_and_low:
  "unat ((b :: byte) AND 0x03) = unat b mod 4"
  "unat ((b :: byte) AND 0x0f) = unat b mod 16"
  "unat ((b :: byte) AND 0x3f) = unat b mod 64"
proof -
  have "unat (b AND mask k) = unat b mod 2 ^ k" for k
    unfolding take_bit_eq_mask [symmetric] unsigned_take_bit_eq by (rule take_bit_eq_mod)
  from this [of 2] this [of 4] this [of 6] show
    "unat (b AND 0x03) = unat b mod 4" "unat (b AND 0x0f) = unat b mod 16"
    "unat (b AND 0x3f) = unat b mod 64"
    by (simp_all add: mask_eq_exp_minus_1)
qed

text \<open>What the encoder looks up, as numbers.\<close>

lemma unat_encode_index:
  "unat (drop_bit 2 b AND 0x3f) = unat b div 4"
  "unat (push_bit 4 (b AND 3) OR drop_bit 4 c) = unat b mod 4 * 16 + unat c div 16"
  "unat (push_bit 4 (b AND 3)) = unat b mod 4 * 16"
  "unat (push_bit 2 (b AND 0x0f) OR drop_bit 6 c) = unat b mod 16 * 4 + unat c div 64"
  "unat (push_bit 2 (b AND 0x0f)) = unat b mod 16 * 4" for b c :: byte
proof -
  have low: "unat b mod 4 mod 16 = unat b mod 4" "unat b mod 16 mod 64 = unat b mod 16"
    by (simp_all add: mod_less [OF less_trans [OF mod_less_divisor]])
  show "unat (drop_bit 2 b AND 0x3f) = unat b div 4"
    unfolding unat_and_low unat_drop_bit by (simp add: less_mult_imp_div_less)
  show "unat (push_bit 4 (b AND 3) OR drop_bit 4 c) = unat b mod 4 * 16 + unat c div 16"
    using unat_push_or_drop [of c 4 4 "b AND 3"] low by (simp add: unat_and_low less_mult_imp_div_less)
  show "unat (push_bit 4 (b AND 3)) = unat b mod 4 * 16"
    using unat_push_or_drop [of 0 0 4 "b AND 3"] low by (simp add: unat_and_low)
  show "unat (push_bit 2 (b AND 0x0f) OR drop_bit 6 c) = unat b mod 16 * 4 + unat c div 64"
    using unat_push_or_drop [of c 6 2 "b AND 0x0f"] low by (simp add: unat_and_low less_mult_imp_div_less)
  show "unat (push_bit 2 (b AND 0x0f)) = unat b mod 16 * 4"
    using unat_push_or_drop [of 0 0 2 "b AND 0x0f"] low by (simp add: unat_and_low)
qed

lemma encode_index_less:
  "unat a mod 4 * 16 + unat (b :: byte) div 16 < 64"
  "unat c mod 16 * 4 + unat (b :: byte) div 64 < 64"
proof -
  have "unat b div 16 < 16" "unat b div 64 < 4" by (simp_all add: less_mult_imp_div_less)
  moreover have "unat a mod 4 < 4" "unat c mod 16 < 16" by simp_all
  ultimately show "unat a mod 4 * 16 + unat b div 16 < 64" "unat c mod 16 * 4 + unat b div 64 < 64"
    by linarith+
qed

text \<open>Groups of six and of eight bits, cut at the same places.\<close>

lemma bits_of_join:
  "y < 4 \<Longrightarrow> bits_of 8 (x * 4 + y) = bits_of 6 x @ bits_of 2 y"
  "y < 16 \<Longrightarrow> bits_of 8 (x * 16 + y) = bits_of 4 x @ bits_of 4 y"
  "y < 64 \<Longrightarrow> bits_of 8 (x * 64 + y) = bits_of 2 x @ bits_of 6 y"
  "y < 16 \<Longrightarrow> bits_of 6 (x * 16 + y) = bits_of 2 x @ bits_of 4 y"
  "y < 4 \<Longrightarrow> bits_of 6 (x * 4 + y) = bits_of 4 x @ bits_of 2 y"
  using bits_of_append [of y 2 6 x] bits_of_append [of y 4 4 x] bits_of_append [of y 6 2 x]
    bits_of_append [of y 4 2 x] bits_of_append [of y 2 4 x] by simp_all

lemma bits_of_mods:
  "bits_of 2 (x mod 4) = bits_of 2 x" "bits_of 4 (x mod 16) = bits_of 4 x" "bits_of 6 (x mod 64) = bits_of 6 x"
  using bits_of_mod [of 2 x] bits_of_mod [of 4 x] bits_of_mod [of 6 x] by simp_all

lemma bits_of_cut:
  "bits_of 2 (x div 16) @ bits_of 4 x = bits_of 6 x"
  "bits_of 4 (x div 4) @ bits_of 2 x = bits_of 6 x"
  "bits_of 6 (x div 4) @ bits_of 2 x = bits_of 8 x"
  "bits_of 4 (x div 16) @ bits_of 4 x = bits_of 8 x"
  "bits_of 2 (x div 64) @ bits_of 6 x = bits_of 8 x"
  using bits_of_div_append [of 2 6 x] bits_of_div_append [of 4 6 x] bits_of_div_append [of 6 8 x]
    bits_of_div_append [of 4 8 x] bits_of_div_append [of 2 8 x] by (simp_all add: bits_of_mods)

lemma bits_of_cut_more:
  "bits_of 2 (x div 16) @ bits_of 4 x @ r = bits_of 6 x @ r"
  "bits_of 4 (x div 4) @ bits_of 2 x @ r = bits_of 6 x @ r"
  "bits_of 6 (x div 4) @ bits_of 2 x @ r = bits_of 8 x @ r"
  "bits_of 4 (x div 16) @ bits_of 4 x @ r = bits_of 8 x @ r"
  "bits_of 2 (x div 64) @ bits_of 6 x @ r = bits_of 8 x @ r"
  by (simp_all only: append_assoc [symmetric] bits_of_cut)

lemma bits_of_zero: "bits_of n 0 = replicate n False"
  by (simp add: bits_of_def map_replicate_const)

lemma bits_of_join_0:
  "bits_of 6 (x * 16) = bits_of 2 x @ replicate 4 False"
  "bits_of 6 (x * 4) = bits_of 4 x @ replicate 2 False"
  using bits_of_join(4) [of 0 x] bits_of_join(5) [of 0 x] by (simp_all add: bits_of_zero)

lemmas sextet_octet = bits_of_join_0 bits_of_join bits_of_mods bits_of_cut bits_of_cut_more

subsection \<open>The contract of an alphabet\<close>

text \<open>The bits that characters stand for, six each.\<close>

definition sextet_bits :: "byte list \<Rightarrow> byte list \<Rightarrow> bool list" where
  "sextet_bits dec cs = concat (map (\<lambda>c. bits_of 6 (unat (dec ! unat c))) cs)"

lemma sextet_bits_simps [simp]:
  "sextet_bits dec [] = []"
  "sextet_bits dec (c # cs) = bits_of 6 (unat (dec ! unat c)) @ sextet_bits dec cs"
  by (simp_all add: sextet_bits_def)

lemma length_sextet_bits [simp]: "length (sextet_bits dec cs) = 6 * length cs"
  by (induction cs) simp_all

locale base64_alphabet =
  fixes enc dec :: "byte list"
  assumes dec_enc: "i < 64 \<Longrightarrow> dec ! unat (enc ! i) = word_of_nat i"
    and enc_not_pad: "i < 64 \<Longrightarrow> enc ! i \<noteq> chr_eq"
    and dec_range: "dec ! unat (c :: byte) \<noteq> 77 \<Longrightarrow> unat (dec ! unat c) < 64"
begin

abbreviation valid :: "byte list \<Rightarrow> bool" where
  "valid cs \<equiv> list_all (\<lambda>c. dec ! unat c \<noteq> 77) cs"

lemma unat_dec_enc: "i < 64 \<Longrightarrow> unat (dec ! unat (enc ! i)) = i"
  by (simp add: dec_enc unat_of_nat)

lemma decode_length: "length (base64_decode_quads dec cs) = 3 * length cs div 4"
  by (induction dec cs rule: base64_decode_quads.induct) auto

lemma decode_bits:
  "valid cs \<Longrightarrow> bytes_bits (base64_decode_quads dec cs) = take (8 * (3 * length cs div 4)) (sextet_bits dec cs)"
proof (induction cs rule: list_induct_by_4)
  case (3 s0 s1)
  then have "unat (dec ! unat s1) < 64" by (auto intro: dec_range)
  moreover have "take 8 (bits_of 6 x @ bits_of 6 y) = bits_of 6 x @ bits_of 2 (y div 16)" for x y
    by (simp add: bits_of_cut(1) [of y, symmetric])
  ultimately show ?case
    by (simp add: byte_bits_def unat_push_or_drop less_mult_imp_div_less sextet_octet)
next
  case (4 s0 s1 s2)
  then have "unat (dec ! unat s1) < 64" and "unat (dec ! unat s2) < 64" by (auto intro: dec_range)
  moreover have "take 4 (bits_of 6 y) = bits_of 4 (y div 4)" for y
    by (simp add: bits_of_cut(2) [of y, symmetric])
  ultimately show ?case
    by (simp add: byte_bits_def unat_push_or_drop less_mult_imp_div_less sextet_octet)
next
  case (5 s0 s1 s2 s3 s)
  then have "unat (dec ! unat s1) < 64" and "unat (dec ! unat s2) < 64" and "unat (dec ! unat s3) < 64"
    by (auto intro: dec_range)
  moreover have "(12 + 3 * length s) div 4 = 3 + 3 * length s div 4" by presburger
  ultimately show ?case
    using 5 by (simp add: byte_bits_def unat_push_or_drop unat_push_or less_mult_imp_div_less sextet_octet)
qed auto

lemma base64_len_Some:
  "base64_len dec n s = Some len \<longleftrightarrow>
     len = n + length (takeWhile (\<lambda>c. c \<noteq> chr_eq) s) \<and> valid (takeWhile (\<lambda>c. c \<noteq> chr_eq) s)"
  by (induction dec n s rule: base64_len.induct) auto

lemma decode_Some:
  "ngx_decode_base64_internal dec s = Some out \<longleftrightarrow>
     (let cs = takeWhile (\<lambda>c. c \<noteq> chr_eq) s
      in valid cs \<and> length cs mod 4 \<noteq> 1 \<and> out = base64_decode_quads dec cs)"
proof -
  have "take (length (takeWhile P s)) s = takeWhile P s" for P :: "byte \<Rightarrow> bool"
    by (metis append_eq_conv_conj takeWhile_dropWhile_id)
  then show ?thesis
    by (auto simp: ngx_decode_base64_internal_def Let_def base64_len_Some split: option.splits)
      (metis base64_len_Some option.distinct(1) plus_nat.add_0)
qed

lemma encode_length: "length (ngx_encode_base64_internal enc False s) = (4 * length s + 2) div 3"
  by (induction s rule: list_induct_by_3) auto

lemma encode_padding:
  "\<exists>pad. set pad \<subseteq> {chr_eq} \<and>
     ngx_encode_base64_internal enc padding s = ngx_encode_base64_internal enc False s @ pad"
  by (induction s rule: list_induct_by_3) auto

lemma encode_bits:
  "sextet_bits dec (ngx_encode_base64_internal enc False s) =
     bytes_bits s @ replicate (6 * ((4 * length s + 2) div 3) - 8 * length s) False"
  unfolding byte_bits_def bytes_bits_def
proof (induction s rule: list_induct_by_3)
  case (2 a)
  then show ?case
    unfolding ngx_encode_base64_internal.simps unat_encode_index
    by (simp add: unat_dec_enc encode_index_less less_mult_imp_div_less sextet_octet)
next
  case (3 a b)
  then show ?case
    unfolding ngx_encode_base64_internal.simps unat_encode_index
    by (simp add: unat_dec_enc encode_index_less less_mult_imp_div_less sextet_octet)
next
  case (4 a b c xs)
  have "(14 + 4 * length xs) div 3 = 4 + Suc (Suc (4 * length xs)) div 3" by presburger
  with 4 show ?case
    unfolding ngx_encode_base64_internal.simps unat_encode_index unfolding unat_and_low
    by (simp add: unat_dec_enc encode_index_less less_mult_imp_div_less sextet_octet)
qed simp

lemma char_valid: "i < 64 \<Longrightarrow> dec ! unat (enc ! i) \<noteq> 77 \<and> enc ! i \<noteq> chr_eq"
  using unat_dec_enc [of i] enc_not_pad [of i] by auto

lemma encode_valid: "list_all (\<lambda>c. dec ! unat c \<noteq> 77 \<and> c \<noteq> chr_eq) (ngx_encode_base64_internal enc False s)"
proof (induction s rule: list_induct_by_3)
  case (2 a)
  then show ?case
    unfolding ngx_encode_base64_internal.simps unat_encode_index unfolding unat_and_low
    by (simp add: char_valid less_mult_imp_div_less)
next
  case (3 a b)
  then show ?case
    unfolding ngx_encode_base64_internal.simps unat_encode_index unfolding unat_and_low
    by (simp add: char_valid encode_index_less less_mult_imp_div_less)
next
  case (4 a b c xs)
  then show ?case
    unfolding ngx_encode_base64_internal.simps unat_encode_index unfolding unat_and_low
    by (simp add: char_valid encode_index_less less_mult_imp_div_less)
qed simp

theorem encode_decode:
  "ngx_decode_base64_internal dec (ngx_encode_base64_internal enc padding s) = Some s"
proof -
  let ?cs = "ngx_encode_base64_internal enc False s"
  obtain pad where "set pad \<subseteq> {chr_eq}" and pad: "ngx_encode_base64_internal enc padding s = ?cs @ pad"
    using encode_padding by blast
  then have "takeWhile (\<lambda>c. c \<noteq> chr_eq) pad = []" by (cases pad) auto
  then have cs: "takeWhile (\<lambda>c. c \<noteq> chr_eq) (?cs @ pad) = ?cs"
    using encode_valid by (subst takeWhile_append2) (auto simp: list_all_iff)
  have len: "length ?cs mod 4 \<noteq> 1" "3 * length ?cs div 4 = length s"
    unfolding encode_length by presburger+
  have valid: "valid ?cs" using encode_valid by (auto simp: list_all_iff)
  have "bytes_bits (base64_decode_quads dec ?cs) = bytes_bits s"
    unfolding decode_bits [OF valid] encode_bits len(2) by simp
  then have "base64_decode_quads dec ?cs = s" by (rule bytes_bits_inject)
  with len(1) valid show ?thesis unfolding pad decode_Some Let_def cs by simp
qed

end

subsection \<open>Both alphabets meet the contract\<close>

text \<open>A lookup in a table of bytes, checked entry by entry.\<close>

lemma all_sextets: "list_all P [0..<64] \<Longrightarrow> i < 64 \<Longrightarrow> P i"
  by (simp only: list_all_iff set_upt atLeastLessThan_iff) simp

lemma decode_range_all:
  assumes "length dec = 256" and "list_all (\<lambda>d. d = 77 \<or> unat d < 64) dec" and "dec ! unat (c :: byte) \<noteq> 77"
  shows "unat (dec ! unat c) < 64"
  using assms nth_mem [of "unat c" dec] unfolding list_all_iff by auto

interpretation std: base64_alphabet base64_encode_basis base64_decode_basis
proof unfold_locales
  show "unat (base64_decode_basis ! unat c) < 64" if "base64_decode_basis ! unat c \<noteq> 77" for c :: byte
    by (rule decode_range_all [OF _ _ that]; code_simp)
next
  fix i :: nat assume "i < 64"
  then show "base64_decode_basis ! unat (base64_encode_basis ! i) = word_of_nat i"
    by (rule all_sextets [rotated]) code_simp
next
  fix i :: nat assume "i < 64"
  then show "base64_encode_basis ! i \<noteq> chr_eq"
    by (rule all_sextets [rotated]) code_simp
qed

interpretation url: base64_alphabet base64url_encode_basis base64url_decode_basis
proof unfold_locales
  show "unat (base64url_decode_basis ! unat c) < 64" if "base64url_decode_basis ! unat c \<noteq> 77" for c :: byte
    by (rule decode_range_all [OF _ _ that]; code_simp)
next
  fix i :: nat assume "i < 64"
  then show "base64url_decode_basis ! unat (base64url_encode_basis ! i) = word_of_nat i"
    by (rule all_sextets [rotated]) code_simp
next
  fix i :: nat assume "i < 64"
  then show "base64url_encode_basis ! i \<noteq> chr_eq"
    by (rule all_sextets [rotated]) code_simp
qed

text \<open>C36. Both decoders read back what the encoder of their alphabet writes, with or without padding.\<close>

theorem base64_roundtrip:
  "ngx_decode_base64 (ngx_encode_base64 src) = Some src \<and>
   ngx_decode_base64url (ngx_encode_base64url src) = Some src"
  unfolding ngx_decode_base64_def ngx_encode_base64_def ngx_decode_base64url_def ngx_encode_base64url_def
  using std.encode_decode url.encode_decode by blast

text \<open>C38. The decoder accepts exactly the texts whose characters before the first padding character are of
  the alphabet and are not one more than a multiple of four, and returns the bytes whose bits are
  those the characters stand for, six each, less the bits that do not fill a byte.\<close>

theorem ngx_decode_base64_iff:
  "ngx_decode_base64 src = Some out \<longleftrightarrow>
     (let cs = takeWhile (\<lambda>c. c \<noteq> chr_eq) src
      in list_all (\<lambda>c. base64_decode_basis ! unat c \<noteq> 77) cs \<and> length cs mod 4 \<noteq> 1 \<and>
         bytes_bits out = take (8 * (3 * length cs div 4)) (sextet_bits base64_decode_basis cs))"
  unfolding ngx_decode_base64_def std.decode_Some Let_def
  using std.decode_bits bytes_bits_inject by metis

end
