(* ===== verification/Ngx_Utf8.thy ===== *)
theory Ngx_Utf8
  imports Prelude
begin

section \<open>UTF-8\<close>

text \<open>
  \<^verbatim>\<open>ngx_utf8_decode\<close>, \<^verbatim>\<open>ngx_utf8_length\<close> and \<^verbatim>\<open>ngx_utf8_cpystrn\<close> of \<^verbatim>\<open>src/core/ngx_string.c\<close>. The list
  holds the bytes that may be read; \<^const>\<open>None\<close> is a read past it. What \<^verbatim>\<open>ngx_utf8_decode\<close> returns
  is paired with the bytes after the pointer it advances.
\<close>

subsection \<open>Decoding\<close>

text \<open>The loop over the continuation bytes: the code it builds, or \<^const>\<open>None\<close> within for its error.\<close>

fun utf8_continue :: "nat \<Rightarrow> u32 \<Rightarrow> byte list \<Rightarrow> (u32 option \<times> byte list) option" where
  "utf8_continue 0 u p = Some (Some u, p)"
| "utf8_continue (Suc len) u [] = None"
| "utf8_continue (Suc len) u (i # p) =
     (if i < 0x80 then Some (None, p)
      else utf8_continue len (push_bit 6 u OR (ucast i AND 0x3f)) p)"

definition ngx_utf8_decode :: "byte list \<Rightarrow> u64 \<Rightarrow> (u32 \<times> byte list) option" where
  "ngx_utf8_decode p n =
     (case p of
        [] \<Rightarrow> None
      | b # p' \<Rightarrow>
          let u = ucast b :: u32 in
          if u < 0xc2 then Some (0xffffffff, p')
          else
            let (u, valid, len) =
                  (if 0xf0 \<le> u then (u AND 0x07, 0xffff, 3)
                   else if 0xe0 \<le> u then (u AND 0x0f, 0x7ff, 2)
                   else (u AND 0x1f, 0x7f, 1))
            in if n - 1 < word_of_nat len then Some (0xfffffffe, p)
               else
                 case utf8_continue len u p' of
                   None \<Rightarrow> None
                 | Some (None, p'') \<Rightarrow> Some (0xffffffff, p'')
                 | Some (Some u, p'') \<Rightarrow> if valid < u then Some (u, p'') else Some (0xffffffff, p''))"

lemma utf8_continue_shorter: "utf8_continue len u p = Some (r, p') \<Longrightarrow> length p' \<le> length p"
  by (induction len u p rule: utf8_continue.induct) (auto split: if_splits)

lemma utf8_decode_shorter:
  "ngx_utf8_decode p n = Some (u, p') \<Longrightarrow> \<not> 0x10ffff < u \<Longrightarrow> length p' < length p"
  by (auto simp: ngx_utf8_decode_def Let_def split: list.splits if_splits option.splits
      dest!: utf8_continue_shorter)

subsection \<open>Counting characters\<close>

text \<open>The size of the string is handed to the decoder at every step, not what is left of it.\<close>

function utf8_length_loop :: "nat \<Rightarrow> nat \<Rightarrow> byte list \<Rightarrow> nat option" where
  "utf8_length_loop n len p =
     (case p of
        [] \<Rightarrow> Some len
      | c # p' \<Rightarrow>
          if c < 0x80 then utf8_length_loop n (len + 1) p'
          else
            case ngx_utf8_decode p (word_of_nat n) of
              None \<Rightarrow> None
            | Some (u, p'') \<Rightarrow> if 0x10ffff < u then Some n else utf8_length_loop n (len + 1) p'')"
  by pat_completeness auto

termination
  by (relation "measure (\<lambda>(n, len, p). length p)") (auto dest: utf8_decode_shorter)

declare utf8_length_loop.simps [simp del]

definition ngx_utf8_length :: "byte list \<Rightarrow> nat option" where
  "ngx_utf8_length p = utf8_length_loop (length p) 0 p"

subsection \<open>Copying characters\<close>

text \<open>The bytes written, the terminating zero included; \<open>n\<close> is what \<^verbatim>\<open>--n\<close> leaves.\<close>

fun utf8_copy_loop :: "nat \<Rightarrow> byte list \<Rightarrow> u64 \<Rightarrow> byte list option" where
  "utf8_copy_loop 0 src len = Some [chr_nul]"
| "utf8_copy_loop (Suc n) src len =
     (case src of
        [] \<Rightarrow> None
      | c # src' \<Rightarrow>
          if c < 0x80 then
            (if c \<noteq> chr_nul then map_option (Cons c) (utf8_copy_loop n src' (len - 1))
             else Some [chr_nul])
          else
            case ngx_utf8_decode src len of
              None \<Rightarrow> None
            | Some (u, nxt) \<Rightarrow>
                if 0x10ffff < u then Some [chr_nul]
                else
                  let k = length src - length nxt
                  in map_option ((@) (take k src)) (utf8_copy_loop n nxt (len - word_of_nat k)))"

definition ngx_utf8_cpystrn :: "byte list \<Rightarrow> nat \<Rightarrow> u64 \<Rightarrow> byte list option" where
  "ngx_utf8_cpystrn src n len = (if n = 0 then Some [] else utf8_copy_loop (n - 1) src len)"

subsection \<open>Well-formed text\<close>

text \<open>The encoding of a code point.\<close>

definition utf8_encode :: "nat \<Rightarrow> byte list" where
  "utf8_encode u =
     (if u < 0x80 then [word_of_nat u]
      else if u < 0x800 then [word_of_nat (0xc0 + u div 64), word_of_nat (0x80 + u mod 64)]
      else if u < 0x10000 then
        [word_of_nat (0xe0 + u div 4096), word_of_nat (0x80 + u div 64 mod 64), word_of_nat (0x80 + u mod 64)]
      else
        [word_of_nat (0xf0 + u div 262144), word_of_nat (0x80 + u div 4096 mod 64),
         word_of_nat (0x80 + u div 64 mod 64), word_of_nat (0x80 + u mod 64)])"

lemma unat_continue:
  assumes "unat u < 2 ^ 26"
  shows "unat (push_bit 6 u OR (ucast (i :: byte) AND 0x3f) :: u32) = unat u * 64 + unat i mod 64"
proof -
  have "unat (ucast i AND mask 6 :: u32) = unat (ucast i :: u32) mod 2 ^ 6"
    unfolding take_bit_eq_mask [symmetric] unsigned_take_bit_eq by (rule take_bit_eq_mod)
  then have "unat (ucast i AND 0x3f :: u32) = unat i mod 64"
    by (simp add: unat_ucast_u32 mask_eq_exp_minus_1)
  moreover have "unat (push_bit 6 u) = unat u * 2 ^ 6"
    using assms by (subst unsigned_push_bit_eq) (simp add: take_bit_eq_mod push_bit_eq_mult)
  ultimately show ?thesis
    using or_shift_add [of "unat i mod 64" 6 "unat u"] by (simp add: unsigned_or_eq)
qed

lemma unat_lead:
  "unat (ucast (b :: byte) AND 0x1f :: u32) = unat b mod 32"
  "unat (ucast (b :: byte) AND 0x0f :: u32) = unat b mod 16"
  "unat (ucast (b :: byte) AND 0x07 :: u32) = unat b mod 8"
proof -
  have "unat (ucast b AND mask k :: u32) = unat b mod 2 ^ k" for k
    unfolding take_bit_eq_mask [symmetric] unsigned_take_bit_eq unat_ucast_u32 by (rule take_bit_eq_mod)
  from this [of 5] this [of 4] this [of 3] show
    "unat (ucast (b :: byte) AND 0x1f :: u32) = unat b mod 32"
    "unat (ucast (b :: byte) AND 0x0f :: u32) = unat b mod 16"
    "unat (ucast (b :: byte) AND 0x07 :: u32) = unat b mod 8"
    by (simp_all add: mask_eq_exp_minus_1)
qed

lemma unat_byte_of_nat: "k < 256 \<Longrightarrow> unat (word_of_nat k :: byte) = k"
  by (simp add: unat_of_nat)

lemma utf8_continue_step:
  assumes "unat u < 2 ^ 26" and "k < 64"
  shows "utf8_continue (Suc len) u (word_of_nat (128 + k) # p) =
    utf8_continue len (word_of_nat (unat u * 64 + k)) p"
proof -
  have i: "unat (word_of_nat (128 + k) :: byte) = 128 + k"
    using assms(2) by (intro unat_byte_of_nat) simp
  then have "\<not> (word_of_nat (128 + k) :: byte) < 0x80" by (simp add: byte_less_unat)
  moreover have "push_bit 6 u OR (ucast (word_of_nat (128 + k) :: byte) AND 0x3f) =
      (word_of_nat (unat u * 64 + k) :: u32)"
  proof -
    have "(128 + k) mod 64 = k" using assms(2) by (simp add: mod_if)
    then have "unat (push_bit 6 u OR (ucast (word_of_nat (128 + k) :: byte) AND 0x3f) :: u32) = unat u * 64 + k"
      by (simp only: unat_continue [OF assms(1)] i)
    then show ?thesis by (rule word_eq_of_natI)
  qed
  ultimately show ?thesis by (simp only: utf8_continue.simps if_False)
qed

text \<open>The lead byte of a sequence and what the decoder keeps of it.\<close>

lemma lead_masks:
  assumes "lead < 256"
  shows "ucast (word_of_nat lead :: byte) AND 0x1f = (word_of_nat (lead mod 32) :: u32)"
    and "ucast (word_of_nat lead :: byte) AND 0x0f = (word_of_nat (lead mod 16) :: u32)"
    and "ucast (word_of_nat lead :: byte) AND 0x07 = (word_of_nat (lead mod 8) :: u32)"
    and "(ucast (word_of_nat lead :: byte) :: u32) = word_of_nat lead"
  using assms by (auto intro!: word_eq_of_natI simp: unat_lead unat_byte_of_nat unat_ucast_u32)

lemma u32_of_nat: "k < 2 ^ 32 \<Longrightarrow> unat (word_of_nat k :: u32) = k"
  by (simp add: unat_of_nat)

lemma lead_compare:
  assumes "lead < 256"
  shows "(ucast (word_of_nat lead :: byte) :: u32) < 0xc2 \<longleftrightarrow> lead < 0xc2"
    and "0xe0 \<le> (ucast (word_of_nat lead :: byte) :: u32) \<longleftrightarrow> 0xe0 \<le> lead"
    and "0xf0 \<le> (ucast (word_of_nat lead :: byte) :: u32) \<longleftrightarrow> 0xf0 \<le> lead"
  using assms by (simp_all add: word_less_nat_alt word_le_nat_alt unat_ucast_u32 unat_byte_of_nat)

text \<open>The end of the decoder: the check for a needlessly long sequence.\<close>

definition utf8_result :: "u32 \<Rightarrow> (u32 option \<times> byte list) option \<Rightarrow> (u32 \<times> byte list) option" where
  "utf8_result valid r =
     (case r of
        None \<Rightarrow> None
      | Some (None, p) \<Rightarrow> Some (0xffffffff, p)
      | Some (Some u, p) \<Rightarrow> if valid < u then Some (u, p) else Some (0xffffffff, p))"

lemma utf8_decode_lead:
  assumes "0xc2 \<le> lead" and "lead < 256"
  shows "lead < 0xe0 \<Longrightarrow> \<not> n - 1 < word_of_nat 1 \<Longrightarrow> ngx_utf8_decode (word_of_nat lead # p) n =
      utf8_result 0x7f (utf8_continue 1 (word_of_nat (lead mod 32)) p)"
    and "0xe0 \<le> lead \<Longrightarrow> lead < 0xf0 \<Longrightarrow> \<not> n - 1 < word_of_nat 2 \<Longrightarrow> ngx_utf8_decode (word_of_nat lead # p) n =
      utf8_result 0x7ff (utf8_continue 2 (word_of_nat (lead mod 16)) p)"
    and "0xf0 \<le> lead \<Longrightarrow> \<not> n - 1 < word_of_nat 3 \<Longrightarrow> ngx_utf8_decode (word_of_nat lead # p) n =
      utf8_result 0xffff (utf8_continue 3 (word_of_nat (lead mod 8)) p)"
proof -
  have *: "ngx_utf8_decode (word_of_nat lead # p) n =
    (let (u, valid, len) =
           (if 0xf0 \<le> lead then (word_of_nat (lead mod 8), 0xffff, 3)
            else if 0xe0 \<le> lead then (word_of_nat (lead mod 16), 0x7ff, 2)
            else (word_of_nat (lead mod 32), 0x7f, 1))
     in if n - 1 < word_of_nat len then Some (0xfffffffe, word_of_nat lead # p)
        else utf8_result valid (utf8_continue len u p))"
    unfolding ngx_utf8_decode_def list.case lead_compare [OF assms(2)] Let_def [of "ucast _"]
      lead_masks(1-3) [OF assms(2)] utf8_result_def
    using assms(1) by (simp only: linorder_not_less [symmetric] not_True_eq_False if_False)
  show "lead < 0xe0 \<Longrightarrow> \<not> n - 1 < word_of_nat 1 \<Longrightarrow> ngx_utf8_decode (word_of_nat lead # p) n =
      utf8_result 0x7f (utf8_continue 1 (word_of_nat (lead mod 32)) p)"
    unfolding * by simp
  show "0xe0 \<le> lead \<Longrightarrow> lead < 0xf0 \<Longrightarrow> \<not> n - 1 < word_of_nat 2 \<Longrightarrow> ngx_utf8_decode (word_of_nat lead # p) n =
      utf8_result 0x7ff (utf8_continue 2 (word_of_nat (lead mod 16)) p)"
    unfolding * by simp
  show "0xf0 \<le> lead \<Longrightarrow> \<not> n - 1 < word_of_nat 3 \<Longrightarrow> ngx_utf8_decode (word_of_nat lead # p) n =
      utf8_result 0xffff (utf8_continue 3 (word_of_nat (lead mod 8)) p)"
    unfolding * by simp
qed

lemma utf8_continue_all:
  assumes "list_all (\<lambda>k. k < 64) ks" and "Suc v * 64 ^ length ks \<le> 2 ^ 26"
  shows "utf8_continue (length ks) (word_of_nat v) (map (\<lambda>k. word_of_nat (128 + k)) ks @ rest) =
    Some (Some (word_of_nat (foldl (\<lambda>v k. v * 64 + k) v ks)), rest)"
  using assms
proof (induction ks arbitrary: v)
  case (Cons k ks)
  have "Suc v * 1 \<le> Suc v * 64 ^ length (k # ks)" by (intro mult_le_mono2) simp
  with Cons.prems(2) have v: "v < 2 ^ 26" by (metis Suc_le_lessD mult_1_right order_trans)
  then have "unat (word_of_nat v :: u32) = v" by (intro u32_of_nat) simp
  with v Cons.prems(1) have "utf8_continue (Suc (length ks)) (word_of_nat v) (word_of_nat (128 + k) # p) =
      utf8_continue (length ks) (word_of_nat (v * 64 + k)) p" for p
    by (subst utf8_continue_step) (simp_all only: list.pred_inject)
  moreover have "Suc (v * 64 + k) * 64 ^ length ks \<le> Suc v * 64 * 64 ^ length ks"
    using Cons.prems(1) by (intro mult_le_mono1) simp
  then have "Suc (v * 64 + k) * 64 ^ length ks \<le> 2 ^ 26"
    using Cons.prems(2) unfolding list.size power_Suc add_0_right add_Suc_right mult.assoc by (rule order_trans)
  ultimately show ?case using Cons.IH [of "v * 64 + k"] Cons.prems(1)
    by (simp only: list.size list.map append_Cons foldl.simps list.pred_inject add_0_right add_Suc_right)
qed simp

lemma utf8_continue_2:
  assumes "k < 64" and "l < 64" and "v < 16"
  shows "utf8_continue 2 (word_of_nat v) (word_of_nat (128 + k) # word_of_nat (128 + l) # rest) =
    Some (Some (word_of_nat ((v * 64 + k) * 64 + l)), rest)"
proof -
  have "Suc v * 64 ^ length [k, l] \<le> 2 ^ 26" using assms(3) by simp
  with utf8_continue_all [of "[k, l]" v rest] assms(1,2) show ?thesis
    by (simp only: list.size list.map append.simps foldl.simps list.pred_inject numeral_2_eq_2
        add_0 add_0_right add_Suc_right simp_thms)
qed

lemma utf8_continue_3:
  assumes "j < 64" and "k < 64" and "l < 64" and "v < 8"
  shows "utf8_continue 3 (word_of_nat v)
      (word_of_nat (128 + j) # word_of_nat (128 + k) # word_of_nat (128 + l) # rest) =
    Some (Some (word_of_nat (((v * 64 + j) * 64 + k) * 64 + l)), rest)"
proof -
  have "Suc v * 64 ^ length [j, k, l] \<le> 2 ^ 26" using assms(4) by simp
  with utf8_continue_all [of "[j, k, l]" v rest] assms(1-3) show ?thesis
    by (simp only: list.size list.map append.simps foldl.simps list.pred_inject numeral_3_eq_3
        add_0 add_0_right add_Suc_right simp_thms)
qed

text \<open>The decoder reads back the encoding of every code point from \<^verbatim>\<open>0x80\<close> on.\<close>

lemma utf8_decode_encode:
  assumes "0x80 \<le> cp" and "cp < 0x110000" and "length (utf8_encode cp) \<le> unat n"
  shows "ngx_utf8_decode (utf8_encode cp @ rest) n = Some (word_of_nat cp, rest)"
proof -
  have n: "\<not> n - 1 < word_of_nat k" if "Suc k \<le> unat n" "k < 4" for k
  proof -
    have "n \<noteq> 0" using that by auto
    then have "unat (n - 1) = unat n - 1" by (rule unat_minus_one)
    moreover have "unat (word_of_nat k :: u64) = k" using that by (simp add: unat_of_nat)
    ultimately show ?thesis using that by (simp add: word_less_nat_alt)
  qed
  have result: "utf8_result valid (Some (Some (word_of_nat cp), rest)) = Some (word_of_nat cp, rest)"
    if "unat valid < cp" for valid
  proof -
    have "unat (word_of_nat cp :: u32) = cp" using assms(2) by (intro u32_of_nat) simp
    with that show ?thesis by (simp add: utf8_result_def word_less_nat_alt)
  qed
  consider "cp < 0x800" | "0x800 \<le> cp" "cp < 0x10000" | "0x10000 \<le> cp" by linarith
  then show ?thesis
  proof cases
    case 1
    let ?k = "cp mod 64"
    have d: "cp div 64 < 32" "2 \<le> cp div 64" using 1 assms(1) by (simp_all add: less_mult_imp_div_less)
    have l: "(0xc0 + cp div 64) mod 32 = cp div 64" using d by (simp add: mod_if)
    have len: "\<not> n - 1 < word_of_nat 1" using n [of 1] assms 1 by (simp add: utf8_encode_def)
    have e: "utf8_encode cp @ rest = word_of_nat (0xc0 + cp div 64) # word_of_nat (128 + ?k) # rest"
      using 1 assms by (simp only: utf8_encode_def) simp
    have "utf8_continue 1 (word_of_nat (cp div 64)) (word_of_nat (128 + ?k) # rest) = Some (Some (word_of_nat cp), rest)"
      using utf8_continue_all [of "[?k]" "cp div 64" rest] d by (simp del: of_nat_add)
    moreover have "unat (0x7f :: u32) < cp" using assms by simp
    moreover have "0xc2 \<le> 0xc0 + cp div 64" "0xc0 + cp div 64 < 256" "0xc0 + cp div 64 < 0xe0"
      using d by linarith+
    ultimately show ?thesis unfolding e
      by (subst utf8_decode_lead(1)) (simp_all only: len l result not_False_eq_True)
  next
    case 2
    let ?k = "cp div 64 mod 64" and ?l = "cp mod 64"
    have d: "cp div 4096 < 16" using 2 by (simp add: less_mult_imp_div_less)
    have l: "(0xe0 + cp div 4096) mod 16 = cp div 4096" using d by (simp add: mod_if)
    have len: "\<not> n - 1 < word_of_nat 2" using n [of 2] assms 2 by (simp add: utf8_encode_def)
    have e: "utf8_encode cp @ rest = word_of_nat (0xe0 + cp div 4096) # word_of_nat (128 + ?k) # word_of_nat (128 + ?l) # rest"
      using 2 by (simp only: utf8_encode_def) simp
    have "cp div 4096 = cp div 64 div 64" by (simp add: div_mult2_eq [symmetric])
    then have "(cp div 4096 * 64 + ?k) * 64 + ?l = cp" by (simp only: div_mult_mod_eq)
    then have "utf8_continue 2 (word_of_nat (cp div 4096)) (word_of_nat (128 + ?k) # word_of_nat (128 + ?l) # rest) =
        Some (Some (word_of_nat cp), rest)"
      using utf8_continue_2 [of ?k ?l "cp div 4096" rest] d by (simp only: mod_less_divisor zero_less_numeral)
    moreover have "unat (0x7ff :: u32) < cp" using 2 by simp
    moreover have "0xc2 \<le> 0xe0 + cp div 4096" "0xe0 + cp div 4096 < 256" "0xe0 \<le> 0xe0 + cp div 4096" "0xe0 + cp div 4096 < 0xf0"
      using d by linarith+
    ultimately show ?thesis unfolding e
      by (subst utf8_decode_lead(2)) (simp_all only: len l result not_False_eq_True)
  next
    case 3
    let ?j = "cp div 4096 mod 64" and ?k = "cp div 64 mod 64" and ?l = "cp mod 64"
    have d: "cp div 262144 < 8" using assms(2) by (simp add: less_mult_imp_div_less)
    have l: "(0xf0 + cp div 262144) mod 8 = cp div 262144" using d by (simp add: mod_if)
    have len: "\<not> n - 1 < word_of_nat 3" using n [of 3] assms 3 by (simp add: utf8_encode_def)
    have e: "utf8_encode cp @ rest = word_of_nat (0xf0 + cp div 262144) # word_of_nat (128 + ?j) #
        word_of_nat (128 + ?k) # word_of_nat (128 + ?l) # rest"
      using 3 by (simp only: utf8_encode_def) simp
    have "cp div 262144 = cp div 4096 div 64" "cp div 4096 = cp div 64 div 64"
      by (simp_all add: div_mult2_eq [symmetric])
    then have "((cp div 262144 * 64 + ?j) * 64 + ?k) * 64 + ?l = cp" by (simp only: div_mult_mod_eq)
    then have "utf8_continue 3 (word_of_nat (cp div 262144))
        (word_of_nat (128 + ?j) # word_of_nat (128 + ?k) # word_of_nat (128 + ?l) # rest) = Some (Some (word_of_nat cp), rest)"
      using utf8_continue_3 [of ?j ?k ?l "cp div 262144" rest] d by (simp only: mod_less_divisor zero_less_numeral)
    moreover have "unat (0xffff :: u32) < cp" using 3 by simp
    moreover have "0xc2 \<le> 0xf0 + cp div 262144" "0xf0 + cp div 262144 < 256" "0xf0 \<le> 0xf0 + cp div 262144"
      using d by linarith+
    ultimately show ?thesis unfolding e
      by (subst utf8_decode_lead(3)) (simp_all only: len l result not_False_eq_True)
  qed
qed

text \<open>C40. \<^verbatim>\<open>ngx_utf8_decode\<close> reads back the encoding of every code point from \<^verbatim>\<open>0x80\<close> to \<^verbatim>\<open>0x10ffff\<close>
  when the size it is given covers the sequence, and leaves the pointer right after it.\<close>

theorem ngx_utf8_decode_roundtrip:
  assumes "0x80 \<le> cp" and "cp < 0x110000" and "length (utf8_encode cp) \<le> unat n"
  shows "ngx_utf8_decode (utf8_encode cp @ rest) n = Some (word_of_nat cp, rest)"
  using assms by (rule utf8_decode_encode)

theorem ngx_utf8_decode_roundtrip_witness:
  "ngx_utf8_decode [0xe2, 0x82, 0xac, 0x21] 3 = Some (0x20ac, [0x21])"
  using ngx_utf8_decode_roundtrip [of "0x20ac" 3 "[0x21]"] by (simp add: utf8_encode_def)

subsection \<open>Texts\<close>

definition utf8_text :: "nat list \<Rightarrow> byte list" where
  "utf8_text cps = concat (map utf8_encode cps)"

lemma utf8_text_simps [simp]:
  "utf8_text [] = []"
  "utf8_text (cp # cps) = utf8_encode cp @ utf8_text cps"
  by (simp_all add: utf8_text_def)

lemma utf8_encode_ascii: "cp < 0x80 \<Longrightarrow> utf8_encode cp = [word_of_nat cp]"
  by (simp add: utf8_encode_def)

lemma utf8_encode_lead:
  assumes "0x80 \<le> cp" and "cp < 0x110000"
  shows "\<exists>b bs. utf8_encode cp = b # bs \<and> 0x80 \<le> b"
proof -
  have b: "(0x80 :: byte) \<le> word_of_nat k" if "0x80 \<le> k" "k < 256" for k
    using that by (simp add: byte_le_unat unat_byte_of_nat)
  have d: "cp div 262144 < 8" using assms(2) by (simp add: less_mult_imp_div_less)
  consider "cp < 0x800" | "0x800 \<le> cp" "cp < 0x10000" | "0x10000 \<le> cp" by linarith
  then show ?thesis
  proof cases
    case 1
    then have "cp div 64 < 32" by (simp add: less_mult_imp_div_less)
    with 1 assms b [of "0xc0 + cp div 64"] show ?thesis by (simp add: utf8_encode_def)
  next
    case 2
    then have "cp div 4096 < 16" by (simp add: less_mult_imp_div_less)
    with 2 b [of "0xe0 + cp div 4096"] show ?thesis by (simp add: utf8_encode_def)
  next
    case 3
    with d b [of "0xf0 + cp div 262144"] show ?thesis by (simp add: utf8_encode_def)
  qed
qed

lemma utf8_code_point_valid: "cp < 0x110000 \<Longrightarrow> \<not> 0x10ffff < (word_of_nat cp :: u32)"
  by (simp add: word_less_nat_alt u32_of_nat)

lemma utf8_length_loop_text:
  assumes "n < 2 ^ 64"
  shows "list_all (\<lambda>cp. cp < 0x110000) cps \<Longrightarrow> length (utf8_text cps) \<le> n \<Longrightarrow>
    utf8_length_loop n len (utf8_text cps) = Some (len + length cps)"
proof (induction cps arbitrary: len)
  case Nil
  then show ?case by (simp add: utf8_length_loop.simps)
next
  case (Cons cp cps)
  have ih: "utf8_length_loop n (len + 1) (utf8_text cps) = Some (len + length (cp # cps))"
    using Cons by simp
  show ?case
  proof (cases "cp < 0x80")
    case True
    then have "(word_of_nat cp :: byte) < 0x80" by (simp add: byte_less_unat unat_byte_of_nat)
    with True ih show ?thesis by (subst utf8_length_loop.simps) (simp add: utf8_encode_ascii)
  next
    case False
    with Cons.prems obtain b bs where b: "utf8_encode cp = b # bs" "0x80 \<le> b"
      using utf8_encode_lead [of cp] by auto
    have "unat (word_of_nat n :: u64) = n" using assms by (simp add: unat_of_nat)
    with False Cons.prems have "ngx_utf8_decode (utf8_encode cp @ utf8_text cps) (word_of_nat n) =
        Some (word_of_nat cp, utf8_text cps)"
      by (intro utf8_decode_encode) simp_all
    with b ih Cons.prems utf8_code_point_valid [of cp] show ?thesis
      by (subst utf8_length_loop.simps) (simp add: not_less [symmetric])
  qed
qed

text \<open>\<^verbatim>\<open>ngx_utf8_length\<close> is the number of characters of a well-formed text.\<close>

theorem ngx_utf8_length_text:
  assumes "list_all (\<lambda>cp. cp < 0x110000) cps" and "length (utf8_text cps) < 2 ^ 64"
  shows "ngx_utf8_length (utf8_text cps) = Some (length cps)"
  using utf8_length_loop_text [OF assms(2,1), of 0] by (simp add: ngx_utf8_length_def)

theorem ngx_utf8_length_text_witness:
  "ngx_utf8_length (utf8_text [0x41, 0xe9, 0x20ac, 0x1f600]) = Some 4"
  using ngx_utf8_length_text [of "[0x41, 0xe9, 0x20ac, 0x1f600]"] by (simp add: utf8_encode_def)

text \<open>The length handed to the decoder is that of the whole string: a sequence cut off at the end of the
  string is read past it.\<close>

lemma ngx_utf8_length_over_read: "ngx_utf8_length [0x41, 0xc3] = None"
  by (simp add: ngx_utf8_length_def utf8_length_loop.simps ngx_utf8_decode_def)

lemma utf8_copy_loop_text:
  "list_all (\<lambda>cp. 0 < cp \<and> cp < 0x110000) cps \<Longrightarrow> length (utf8_text cps) \<le> unat len \<Longrightarrow>
   utf8_copy_loop n (utf8_text cps @ chr_nul # rest) len = Some (utf8_text (take n cps) @ [chr_nul])"
proof (induction n arbitrary: cps len)
  case 0
  then show ?case by simp
next
  case (Suc n)
  show ?case
  proof (cases cps)
    case Nil
    then show ?thesis by simp
  next
    case (Cons cp cps')
    let ?k = "length (utf8_encode cp)"
    have "unat len < 2 ^ 64" using unsigned_less [of len] by simp
    with Suc.prems Cons have k: "unat (len - word_of_nat ?k) = unat len - ?k"
      by (subst unat_sub) (auto simp: word_le_nat_alt unat_of_nat)
    with Suc.IH [of cps' "len - word_of_nat ?k"] Suc.prems Cons
    have ih: "utf8_copy_loop n (utf8_text cps' @ chr_nul # rest) (len - word_of_nat ?k) =
        Some (utf8_text (take n cps') @ [chr_nul])" by simp
    show ?thesis
    proof (cases "cp < 0x80")
      case True
      then have "(word_of_nat cp :: byte) < 0x80" by (simp add: byte_less_unat unat_byte_of_nat)
      moreover from True Cons Suc.prems have "(word_of_nat cp :: byte) \<noteq> 0"
        by (simp add: byte_eq_unat unat_byte_of_nat)
      ultimately show ?thesis using True Cons ih by (simp add: utf8_encode_ascii)
    next
      case False
      with Cons Suc.prems obtain b bs where b: "utf8_encode cp = b # bs" "0x80 \<le> b"
        using utf8_encode_lead [of cp] by auto
      from False Cons Suc.prems have d: "ngx_utf8_decode (utf8_encode cp @ utf8_text cps' @ chr_nul # rest) len =
          Some (word_of_nat cp, utf8_text cps' @ chr_nul # rest)"
        by (intro utf8_decode_encode) simp_all
      from b Cons d ih Suc.prems utf8_code_point_valid [of cp] show ?thesis
        by (simp add: Let_def not_less [symmetric])
    qed
  qed
qed

text \<open>\<^verbatim>\<open>ngx_utf8_cpystrn\<close> copies the first \<^verbatim>\<open>n - 1\<close> characters of a well-formed text, whole, and
  a terminating zero.\<close>

theorem ngx_utf8_cpystrn_text:
  assumes "list_all (\<lambda>cp. 0 < cp \<and> cp < 0x110000) cps" and "length (utf8_text cps) \<le> unat len" and "0 < n"
  shows "ngx_utf8_cpystrn (utf8_text cps @ chr_nul # rest) n len = Some (utf8_text (take (n - 1) cps) @ [chr_nul])"
  using utf8_copy_loop_text [OF assms(1,2)] assms(3) by (simp add: ngx_utf8_cpystrn_def)

theorem ngx_utf8_cpystrn_text_witness:
  "ngx_utf8_cpystrn (utf8_text [0x20ac, 0x41, 0xe9] @ [0]) 3 7 = Some (utf8_text [0x20ac, 0x41] @ [0])"
  using ngx_utf8_cpystrn_text [of "[0x20ac, 0x41, 0xe9]" 7 3 "[]"] by (simp add: utf8_encode_def)

end
