(* ===== verification/Http_Scan.thy ===== *)
theory Http_Scan
  imports Ngx_String
begin

section \<open>Parsers that read a buffer byte by byte\<close>

text \<open>
  The parsers of \<^verbatim>\<open>src/http/ngx_http_parse.c\<close> share one frame: a loop over the bytes from \<^verbatim>\<open>b->pos\<close> to
  \<^verbatim>\<open>b->last\<close> with a \<^verbatim>\<open>switch\<close> on a state; a byte either leads to another state or ends the parse. When the bytes
  run out the state is kept in the request and \<^verbatim>\<open>NGX_AGAIN\<close> is returned, which is \<open>Next\<close> here. Positions
  in the buffer are offsets; a pointer that may be \<^verbatim>\<open>NULL\<close> is an option.
\<close>

datatype ('s, 'r) progress = Next 's | Stop 'r

fun scan :: "(nat \<Rightarrow> byte \<Rightarrow> 's \<Rightarrow> ('s, 'r) progress) \<Rightarrow> nat \<Rightarrow> byte list \<Rightarrow> 's \<Rightarrow> ('s, 'r) progress" where
  "scan step p [] s = Next s"
| "scan step p (ch # cs) s =
     (case step p ch s of
        Next s' \<Rightarrow> scan step (p + 1) cs s'
      | Stop r \<Rightarrow> Stop r)"

text \<open>A parse may be interrupted anywhere: it goes on with the state that was kept.\<close>

lemma scan_append:
  "scan step p (xs @ ys) s =
     (case scan step p xs s of
        Next s' \<Rightarrow> scan step (p + length xs) ys s'
      | Stop r \<Rightarrow> Stop r)"
  by (induction xs arbitrary: p s) (auto split: progress.split)

text \<open>The bytes of a buffer from one offset up to another.\<close>

definition segment :: "byte list \<Rightarrow> nat \<Rightarrow> nat \<Rightarrow> byte list" where
  "segment buf a b = take (b - a) (drop a buf)"

lemma segment_empty [simp]: "b \<le> a \<Longrightarrow> segment buf a b = []"
  by (simp add: segment_def)

lemma segment_Suc: "a \<le> p \<Longrightarrow> p < length buf \<Longrightarrow> segment buf a (Suc p) = segment buf a p @ [buf ! p]"
  by (simp add: segment_def Suc_diff_le take_Suc_conv_app_nth)

lemma length_segment: "length (segment buf a b) = min (b - a) (length buf - a)"
  by (simp add: segment_def min.commute)

lemma prefix_segment: "b \<le> c \<Longrightarrow> \<exists>r. segment buf a c = segment buf a b @ r"
  unfolding segment_def by (metis append_take_drop_id diff_le_mono min.absorb1 take_take)

subsection \<open>Invariants of a parse\<close>

text \<open>An invariant of the states at an offset, and what it gives when the parse ends.\<close>

locale scan_invariant =
  fixes step :: "nat \<Rightarrow> byte \<Rightarrow> 's \<Rightarrow> ('s, 'r) progress"
    and buf :: "byte list"
    and inv :: "nat \<Rightarrow> 's \<Rightarrow> bool"
    and post :: "'r \<Rightarrow> bool"
  assumes inv_step: "p < length buf \<Longrightarrow> inv p s \<Longrightarrow> step p (buf ! p) s = Next s' \<Longrightarrow> inv (Suc p) s'"
    and post_step: "p < length buf \<Longrightarrow> inv p s \<Longrightarrow> step p (buf ! p) s = Stop r \<Longrightarrow> post r"
begin

lemma scan_cases:
  "inv p s \<Longrightarrow> p \<le> length buf \<Longrightarrow>
     (case scan step p (drop p buf) s of
        Next s' \<Rightarrow> inv (length buf) s'
      | Stop r \<Rightarrow> post r)"
proof (induction "length buf - p" arbitrary: p s)
  case 0
  then show ?case by simp
next
  case (Suc n)
  then have p: "p < length buf" by simp
  show ?case
  proof (cases "step p (buf ! p) s")
    case (Next s')
    with Suc p inv_step [OF p Suc.prems(1)] have "inv (Suc p) s'" by simp
    with Suc p Suc.hyps(1) [of "Suc p" s'] Next show ?thesis
      by (simp add: Cons_nth_drop_Suc [symmetric])
  next
    case (Stop r)
    with p post_step [OF p Suc.prems(1)] show ?thesis
      by (simp add: Cons_nth_drop_Suc [symmetric])
  qed
qed

theorem scan_stop: "inv p s \<Longrightarrow> p \<le> length buf \<Longrightarrow> scan step p (drop p buf) s = Stop r \<Longrightarrow> post r"
  using scan_cases [of p s] by simp

theorem scan_next: "inv p s \<Longrightarrow> p \<le> length buf \<Longrightarrow> scan step p (drop p buf) s = Next s' \<Longrightarrow> inv (length buf) s'"
  using scan_cases [of p s] by simp

end

subsection \<open>The usual bytes of a URI\<close>

text \<open>The bitmap of the source and the set it stands for.\<close>

definition usual :: "u32 list" where
  "usual =
    [0xffffdbfe, 0x7fff37d6, 0xffffffff, 0xffffffff, 0xffffffff, 0xffffffff, 0xffffffff, 0xffffffff]"

definition is_usual :: "byte \<Rightarrow> bool" where
  "is_usual ch \<longleftrightarrow> usual ! unat (drop_bit 5 ch) AND push_bit (unat (ch AND 0x1f)) 1 \<noteq> 0"

lemma is_usual_iff:
  "is_usual ch \<longleftrightarrow> ch \<notin> {chr_nul, chr_lf, chr_cr, chr_space, chr_hash, chr_percent, chr_plus, chr_dot, chr_slash, chr_quest}"
  by (induct ch rule: byte_all) (simp_all add: is_usual_def usual_def)

text \<open>\<^verbatim>\<open>c = (u_char) (ch | 0x20); c >= 'a' && c <= 'z'\<close>\<close>

definition is_letter :: "byte \<Rightarrow> bool" where
  "is_letter ch \<longleftrightarrow> (let c = ch OR 0x20 in chr_a \<le> c \<and> c \<le> chr_z)"

text \<open>The error codes of \<^verbatim>\<open>src/http/ngx_http.h\<close>.\<close>

datatype http_parse_error =
    NGX_HTTP_PARSE_INVALID_METHOD
  | NGX_HTTP_PARSE_INVALID_REQUEST
  | NGX_HTTP_PARSE_INVALID_VERSION
  | NGX_HTTP_PARSE_INVALID_09_METHOD
  | NGX_HTTP_PARSE_INVALID_HEADER

end
