(* ===== verification/Http_Request_Line.thy ===== *)
theory Http_Request_Line
  imports Http_Scan "HOL-Library.Sublist"
begin

section \<open>The request line\<close>

text \<open>
  \<^verbatim>\<open>ngx_http_parse_request_line\<close>: the states of its \<^verbatim>\<open>switch\<close> with the prefix \<open>rl\<close>, the fields of
  \<^verbatim>\<open>ngx_http_request_t\<close> that it reads and writes, and one equation per \<^verbatim>\<open>case\<close>. The code for other
  systems than Windows is modelled.
\<close>

datatype http_method =
    NGX_HTTP_UNKNOWN | NGX_HTTP_GET | NGX_HTTP_HEAD | NGX_HTTP_POST | NGX_HTTP_PUT | NGX_HTTP_DELETE
  | NGX_HTTP_MKCOL | NGX_HTTP_COPY | NGX_HTTP_MOVE | NGX_HTTP_OPTIONS | NGX_HTTP_PROPFIND
  | NGX_HTTP_PROPPATCH | NGX_HTTP_LOCK | NGX_HTTP_UNLOCK | NGX_HTTP_PATCH | NGX_HTTP_TRACE

datatype rl_state =
    rl_start | rl_method | rl_spaces_before_uri | rl_schema | rl_schema_slash | rl_schema_slash_slash
  | rl_host_start | rl_host | rl_host_end | rl_host_ip_literal | rl_port | rl_host_http_09
  | rl_after_slash_in_uri | rl_check_uri | rl_check_uri_http_09 | rl_uri | rl_http_09 | rl_http_H
  | rl_http_HT | rl_http_HTT | rl_http_HTTP | rl_first_major_digit | rl_major_digit
  | rl_first_minor_digit | rl_minor_digit | rl_spaces_after_digit | rl_almost_done

record request_line =
  req_state :: rl_state
  request_start :: nat
  method_end :: nat
  http_method :: http_method
  schema_start :: nat
  schema_end :: nat
  host_start :: nat
  host_end :: nat
  port_end :: nat
  uri_start :: nat
  uri_end :: nat
  uri_ext :: "nat option"
  args_start :: "nat option"
  complex_uri :: bool
  quoted_uri :: bool
  plus_in_uri :: bool
  space_in_uri :: bool
  http_protocol :: nat
  http_major :: nat
  http_minor :: nat
  http_version :: nat
  request_end :: "nat option"

type_synonym rl_progress = "(request_line, http_parse_error + request_line \<times> nat) progress"

abbreviation rl_invalid :: rl_progress where
  "rl_invalid \<equiv> Stop (Inl NGX_HTTP_PARSE_INVALID_REQUEST)"

text \<open>The \<^verbatim>\<open>switch (p - m)\<close> on the length of the method.\<close>

definition request_method :: "byte list \<Rightarrow> http_method \<Rightarrow> http_method" where
  "request_method m unknown =
     (if length m = 3 then
        (if m = bytes_of ''GET'' then NGX_HTTP_GET
         else if m = bytes_of ''PUT'' then NGX_HTTP_PUT
         else unknown)
      else if length m = 4 then
        (if m ! 1 = 0x4f then
           (if m = bytes_of ''POST'' then NGX_HTTP_POST
            else if m = bytes_of ''COPY'' then NGX_HTTP_COPY
            else if m = bytes_of ''MOVE'' then NGX_HTTP_MOVE
            else if m = bytes_of ''LOCK'' then NGX_HTTP_LOCK
            else unknown)
         else if m = bytes_of ''HEAD'' then NGX_HTTP_HEAD
         else unknown)
      else if length m = 5 then
        (if m = bytes_of ''MKCOL'' then NGX_HTTP_MKCOL
         else if m = bytes_of ''PATCH'' then NGX_HTTP_PATCH
         else if m = bytes_of ''TRACE'' then NGX_HTTP_TRACE
         else unknown)
      else if length m = 6 then
        (if m = bytes_of ''DELETE'' then NGX_HTTP_DELETE
         else if m = bytes_of ''UNLOCK'' then NGX_HTTP_UNLOCK
         else unknown)
      else if length m = 7 then
        (if m = bytes_of ''OPTIONS'' then NGX_HTTP_OPTIONS else unknown)
      else if length m = 8 then
        (if m = bytes_of ''PROPFIND'' then NGX_HTTP_PROPFIND else unknown)
      else if length m = 9 then
        (if m = bytes_of ''PROPPATCH'' then NGX_HTTP_PROPPATCH else unknown)
      else unknown)"

text \<open>The code at the label \<^verbatim>\<open>done\<close>.\<close>

definition rl_done :: "nat \<Rightarrow> request_line \<Rightarrow> rl_progress" where
  "rl_done p r =
     (let r = (if request_end r = None then r\<lparr>request_end := Some p\<rparr> else r);
          r = r\<lparr>http_version := http_major r * 1000 + http_minor r, req_state := rl_start\<rparr>
      in if http_version r = 9 \<and> http_method r \<noteq> NGX_HTTP_GET
         then Stop (Inl NGX_HTTP_PARSE_INVALID_09_METHOD)
         else Stop (Inr (r, p + 1)))"

definition rl_method_char :: "byte \<Rightarrow> bool" where
  "rl_method_char ch \<longleftrightarrow> \<not> ((ch < chr_A \<or> chr_Z < ch) \<and> ch \<noteq> chr_underscore \<and> ch \<noteq> chr_minus)"

text \<open>The states between the start of the line and the path.\<close>

definition rl_step_host_end :: "nat \<Rightarrow> byte \<Rightarrow> request_line \<Rightarrow> rl_progress" where
  "rl_step_host_end p ch r =
     (let r = r\<lparr>host_end := p\<rparr> in
      if ch = chr_colon then Next (r\<lparr>req_state := rl_port\<rparr>)
      else if ch = chr_slash then Next (r\<lparr>uri_start := p, req_state := rl_after_slash_in_uri\<rparr>)
      else if ch = chr_space then
        Next (r\<lparr>uri_start := schema_end r + 1, uri_end := schema_end r + 2, req_state := rl_host_http_09\<rparr>)
      else rl_invalid)"

definition rl_step_host :: "nat \<Rightarrow> byte \<Rightarrow> request_line \<Rightarrow> rl_progress" where
  "rl_step_host p ch r =
     (if is_letter ch then Next r
      else if (chr_0 \<le> ch \<and> ch \<le> chr_9) \<or> ch = chr_dot \<or> ch = chr_minus then Next r
      else rl_step_host_end p ch r)"

definition rl_step_method :: "byte list \<Rightarrow> nat \<Rightarrow> byte \<Rightarrow> request_line \<Rightarrow> rl_progress" where
  "rl_step_method buf p ch r =
     (if ch = chr_space then
        Next (r\<lparr>method_end := p - 1,
                http_method := request_method (segment buf (request_start r) p) (http_method r),
                req_state := rl_spaces_before_uri\<rparr>)
      else if \<not> rl_method_char ch then Stop (Inl NGX_HTTP_PARSE_INVALID_METHOD)
      else Next r)"

definition rl_step_ip_literal :: "byte \<Rightarrow> request_line \<Rightarrow> rl_progress" where
  "rl_step_ip_literal ch r =
     (if chr_0 \<le> ch \<and> ch \<le> chr_9 then Next r
      else if is_letter ch then Next r
      else if ch = chr_colon then Next r
      else if ch = 0x5d then Next (r\<lparr>req_state := rl_host_end\<rparr>)
      else if ch \<in> set (bytes_of ''-._~'') then Next r
      else if ch \<in> {0x21, 0x24, 0x26, 0x27, 0x28, 0x29, 0x2a, 0x2b, 0x2c, 0x3b, 0x3d} then Next r
      else rl_invalid)"

definition rl_step_port :: "nat \<Rightarrow> byte \<Rightarrow> request_line \<Rightarrow> rl_progress" where
  "rl_step_port p ch r =
     (if chr_0 \<le> ch \<and> ch \<le> chr_9 then Next r
      else if ch = chr_slash then
        Next (r\<lparr>port_end := p, uri_start := p, req_state := rl_after_slash_in_uri\<rparr>)
      else if ch = chr_space then
        Next (r\<lparr>port_end := p, uri_start := schema_end r + 1, uri_end := schema_end r + 2,
                req_state := rl_host_http_09\<rparr>)
      else rl_invalid)"

text \<open>The states of the path and the arguments. A byte other than these in \<^verbatim>\<open>sw_check_uri_http_09\<close> and
  \<^verbatim>\<open>sw_http_09\<close> is handled again, after \<^verbatim>\<open>p--\<close>, in the state of the URI.\<close>

definition rl_step_after_slash :: "nat \<Rightarrow> byte \<Rightarrow> request_line \<Rightarrow> rl_progress" where
  "rl_step_after_slash p ch r =
     (if is_usual ch then Next (r\<lparr>req_state := rl_check_uri\<rparr>)
      else if ch = chr_space then Next (r\<lparr>uri_end := p, req_state := rl_check_uri_http_09\<rparr>)
      else if ch = chr_cr then Next (r\<lparr>uri_end := p, http_minor := 9, req_state := rl_almost_done\<rparr>)
      else if ch = chr_lf then rl_done p (r\<lparr>uri_end := p, http_minor := 9\<rparr>)
      else if ch = chr_dot then Next (r\<lparr>complex_uri := True, req_state := rl_uri\<rparr>)
      else if ch = chr_percent then Next (r\<lparr>quoted_uri := True, req_state := rl_uri\<rparr>)
      else if ch = chr_slash then Next (r\<lparr>complex_uri := True, req_state := rl_uri\<rparr>)
      else if ch = chr_quest then Next (r\<lparr>args_start := Some (p + 1), req_state := rl_uri\<rparr>)
      else if ch = chr_hash then Next (r\<lparr>complex_uri := True, req_state := rl_uri\<rparr>)
      else if ch = chr_plus then Next (r\<lparr>plus_in_uri := True\<rparr>)
      else if ch = chr_nul then rl_invalid
      else Next (r\<lparr>req_state := rl_check_uri\<rparr>))"

definition rl_step_check_uri :: "nat \<Rightarrow> byte \<Rightarrow> request_line \<Rightarrow> rl_progress" where
  "rl_step_check_uri p ch r =
     (if is_usual ch then Next r
      else if ch = chr_slash then Next (r\<lparr>uri_ext := None, req_state := rl_after_slash_in_uri\<rparr>)
      else if ch = chr_dot then Next (r\<lparr>uri_ext := Some (p + 1)\<rparr>)
      else if ch = chr_space then Next (r\<lparr>uri_end := p, req_state := rl_check_uri_http_09\<rparr>)
      else if ch = chr_cr then Next (r\<lparr>uri_end := p, http_minor := 9, req_state := rl_almost_done\<rparr>)
      else if ch = chr_lf then rl_done p (r\<lparr>uri_end := p, http_minor := 9\<rparr>)
      else if ch = chr_percent then Next (r\<lparr>quoted_uri := True, req_state := rl_uri\<rparr>)
      else if ch = chr_quest then Next (r\<lparr>args_start := Some (p + 1), req_state := rl_uri\<rparr>)
      else if ch = chr_hash then Next (r\<lparr>complex_uri := True, req_state := rl_uri\<rparr>)
      else if ch = chr_plus then Next (r\<lparr>plus_in_uri := True\<rparr>)
      else if ch = chr_nul then rl_invalid
      else Next r)"

definition rl_step_uri :: "nat \<Rightarrow> byte \<Rightarrow> request_line \<Rightarrow> rl_progress" where
  "rl_step_uri p ch r =
     (if is_usual ch then Next r
      else if ch = chr_space then Next (r\<lparr>uri_end := p, req_state := rl_http_09\<rparr>)
      else if ch = chr_cr then Next (r\<lparr>uri_end := p, http_minor := 9, req_state := rl_almost_done\<rparr>)
      else if ch = chr_lf then rl_done p (r\<lparr>uri_end := p, http_minor := 9\<rparr>)
      else if ch = chr_hash then Next (r\<lparr>complex_uri := True\<rparr>)
      else if ch = chr_nul then rl_invalid
      else Next r)"

text \<open>A space was read after the host or the URI; \<open>other\<close> handles any other byte.\<close>

definition rl_step_http_09 ::
  "(nat \<Rightarrow> byte \<Rightarrow> request_line \<Rightarrow> rl_progress) \<Rightarrow> nat \<Rightarrow> byte \<Rightarrow> request_line \<Rightarrow> rl_progress" where
  "rl_step_http_09 other p ch r =
     (if ch = chr_space then Next r
      else if ch = chr_cr then Next (r\<lparr>http_minor := 9, req_state := rl_almost_done\<rparr>)
      else if ch = chr_lf then rl_done p (r\<lparr>http_minor := 9\<rparr>)
      else if ch = 0x48 then Next (r\<lparr>http_protocol := p, req_state := rl_http_H\<rparr>)
      else other p ch r)"

text \<open>The states of the protocol version.\<close>

definition rl_expect :: "byte \<Rightarrow> rl_state \<Rightarrow> byte \<Rightarrow> request_line \<Rightarrow> rl_progress" where
  "rl_expect c state ch r = (if ch = c then Next (r\<lparr>req_state := state\<rparr>) else rl_invalid)"

definition rl_step_first_major :: "byte \<Rightarrow> request_line \<Rightarrow> rl_progress" where
  "rl_step_first_major ch r =
     (if ch < 0x31 \<or> chr_9 < ch then rl_invalid
      else
        let r = r\<lparr>http_major := unat ch - 48\<rparr> in
        if 1 < http_major r then Stop (Inl NGX_HTTP_PARSE_INVALID_VERSION)
        else Next (r\<lparr>req_state := rl_major_digit\<rparr>))"

definition rl_step_major :: "byte \<Rightarrow> request_line \<Rightarrow> rl_progress" where
  "rl_step_major ch r =
     (if ch = chr_dot then Next (r\<lparr>req_state := rl_first_minor_digit\<rparr>)
      else if ch < chr_0 \<or> chr_9 < ch then rl_invalid
      else
        let r = r\<lparr>http_major := http_major r * 10 + (unat ch - 48)\<rparr> in
        if 1 < http_major r then Stop (Inl NGX_HTTP_PARSE_INVALID_VERSION)
        else Next r)"

definition rl_step_first_minor :: "byte \<Rightarrow> request_line \<Rightarrow> rl_progress" where
  "rl_step_first_minor ch r =
     (if ch < chr_0 \<or> chr_9 < ch then rl_invalid
      else Next (r\<lparr>http_minor := unat ch - 48, req_state := rl_minor_digit\<rparr>))"

definition rl_step_minor :: "nat \<Rightarrow> byte \<Rightarrow> request_line \<Rightarrow> rl_progress" where
  "rl_step_minor p ch r =
     (if ch = chr_cr then Next (r\<lparr>req_state := rl_almost_done\<rparr>)
      else if ch = chr_lf then rl_done p r
      else if ch = chr_space then Next (r\<lparr>req_state := rl_spaces_after_digit\<rparr>)
      else if ch < chr_0 \<or> chr_9 < ch then rl_invalid
      else if 99 < http_minor r then rl_invalid
      else Next (r\<lparr>http_minor := http_minor r * 10 + (unat ch - 48)\<rparr>))"

definition rl_step_spaces_after_digit :: "nat \<Rightarrow> byte \<Rightarrow> request_line \<Rightarrow> rl_progress" where
  "rl_step_spaces_after_digit p ch r =
     (if ch = chr_space then Next r
      else if ch = chr_cr then Next (r\<lparr>req_state := rl_almost_done\<rparr>)
      else if ch = chr_lf then rl_done p r
      else rl_invalid)"

definition rl_step_almost_done :: "nat \<Rightarrow> byte \<Rightarrow> request_line \<Rightarrow> rl_progress" where
  "rl_step_almost_done p ch r =
     (let r = r\<lparr>request_end := Some (p - 1)\<rparr> in if ch = chr_lf then rl_done p r else rl_invalid)"

fun rl_case :: "rl_state \<Rightarrow> byte list \<Rightarrow> nat \<Rightarrow> byte \<Rightarrow> request_line \<Rightarrow> rl_progress" where
  "rl_case rl_start buf p ch r =
     (let r = r\<lparr>request_start := p\<rparr> in
      if ch = chr_cr \<or> ch = chr_lf then Next r
      else if \<not> rl_method_char ch then Stop (Inl NGX_HTTP_PARSE_INVALID_METHOD)
      else Next (r\<lparr>req_state := rl_method\<rparr>))"
| "rl_case rl_method buf p ch r = rl_step_method buf p ch r"
| "rl_case rl_spaces_before_uri buf p ch r =
     (if ch = chr_slash then Next (r\<lparr>uri_start := p, req_state := rl_after_slash_in_uri\<rparr>)
      else if is_letter ch then Next (r\<lparr>schema_start := p, req_state := rl_schema\<rparr>)
      else if ch = chr_space then Next r
      else rl_invalid)"
| "rl_case rl_schema buf p ch r =
     (if is_letter ch then Next r
      else if ch = chr_colon then Next (r\<lparr>schema_end := p, req_state := rl_schema_slash\<rparr>)
      else rl_invalid)"
| "rl_case rl_schema_slash buf p ch r = rl_expect chr_slash rl_schema_slash_slash ch r"
| "rl_case rl_schema_slash_slash buf p ch r = rl_expect chr_slash rl_host_start ch r"
| "rl_case rl_host_start buf p ch r =
     (let r = r\<lparr>host_start := p\<rparr> in
      if ch = 0x5b then Next (r\<lparr>req_state := rl_host_ip_literal\<rparr>)
      else rl_step_host p ch (r\<lparr>req_state := rl_host\<rparr>))"
| "rl_case rl_host buf p ch r = rl_step_host p ch r"
| "rl_case rl_host_end buf p ch r = rl_step_host_end p ch r"
| "rl_case rl_host_ip_literal buf p ch r = rl_step_ip_literal ch r"
| "rl_case rl_port buf p ch r = rl_step_port p ch r"
| "rl_case rl_host_http_09 buf p ch r = rl_step_http_09 (\<lambda>p ch r. rl_invalid) p ch r"
| "rl_case rl_after_slash_in_uri buf p ch r = rl_step_after_slash p ch r"
| "rl_case rl_check_uri buf p ch r = rl_step_check_uri p ch r"
| "rl_case rl_check_uri_http_09 buf p ch r =
     rl_step_http_09
       (\<lambda>p ch r. rl_step_check_uri p ch (r\<lparr>space_in_uri := True, req_state := rl_check_uri\<rparr>)) p ch r"
| "rl_case rl_uri buf p ch r = rl_step_uri p ch r"
| "rl_case rl_http_09 buf p ch r =
     rl_step_http_09 (\<lambda>p ch r. rl_step_uri p ch (r\<lparr>space_in_uri := True, req_state := rl_uri\<rparr>)) p ch r"
| "rl_case rl_http_H buf p ch r = rl_expect 0x54 rl_http_HT ch r"
| "rl_case rl_http_HT buf p ch r = rl_expect 0x54 rl_http_HTT ch r"
| "rl_case rl_http_HTT buf p ch r = rl_expect 0x50 rl_http_HTTP ch r"
| "rl_case rl_http_HTTP buf p ch r = rl_expect chr_slash rl_first_major_digit ch r"
| "rl_case rl_first_major_digit buf p ch r = rl_step_first_major ch r"
| "rl_case rl_major_digit buf p ch r = rl_step_major ch r"
| "rl_case rl_first_minor_digit buf p ch r = rl_step_first_minor ch r"
| "rl_case rl_minor_digit buf p ch r = rl_step_minor p ch r"
| "rl_case rl_spaces_after_digit buf p ch r = rl_step_spaces_after_digit p ch r"
| "rl_case rl_almost_done buf p ch r = rl_step_almost_done p ch r"

definition rl_step :: "byte list \<Rightarrow> nat \<Rightarrow> byte \<Rightarrow> request_line \<Rightarrow> rl_progress" where
  "rl_step buf p ch r = rl_case (req_state r) buf p ch r"

text \<open>The parse of the bytes of \<open>buf\<close> from \<open>pos\<close> on: \<open>Next\<close> is \<^verbatim>\<open>NGX_AGAIN\<close>, \<open>Stop (Inr (r, pos))\<close> is
  \<^verbatim>\<open>NGX_OK\<close> with the new \<^verbatim>\<open>b->pos\<close>.\<close>

definition ngx_http_parse_request_line :: "byte list \<Rightarrow> nat \<Rightarrow> request_line \<Rightarrow> rl_progress" where
  "ngx_http_parse_request_line buf pos r = scan (rl_step buf) pos (drop pos buf) r"

text \<open>The fields as they are before the first byte.\<close>

definition rl_init :: request_line where
  "rl_init =
     \<lparr>req_state = rl_start, request_start = 0, method_end = 0, http_method = NGX_HTTP_UNKNOWN,
      schema_start = 0, schema_end = 0, host_start = 0, host_end = 0, port_end = 0,
      uri_start = 0, uri_end = 0, uri_ext = None, args_start = None,
      complex_uri = False, quoted_uri = False, plus_in_uri = False, space_in_uri = False,
      http_protocol = 0, http_major = 0, http_minor = 0, http_version = 1000, request_end = None\<rparr>"

subsection \<open>Paths that need no normalisation\<close>

text \<open>A path without escapes, fragments, empty segments and segments that start with a dot.\<close>

definition clean_path :: "byte list \<Rightarrow> bool" where
  "clean_path u \<longleftrightarrow>
     chr_percent \<notin> set u \<and> chr_hash \<notin> set u \<and>
     \<not> sublist [chr_slash, chr_slash] u \<and> \<not> sublist [chr_slash, chr_dot] u"

lemma sublist_pair_snoc:
  "sublist [a, b] (xs @ [c]) \<longleftrightarrow> sublist [a, b] xs \<or> (xs \<noteq> [] \<and> last xs = a \<and> c = b)"
proof -
  have "sublist [a, b] (xs @ [c]) \<longleftrightarrow> sublist [b, a] (c # rev xs)"
    using sublist_rev [of "[a, b]" "xs @ [c]"] by simp
  also have "\<dots> \<longleftrightarrow> prefix [b, a] (c # rev xs) \<or> sublist [b, a] (rev xs)"
    by (rule sublist_Cons_right)
  also have "sublist [b, a] (rev xs) \<longleftrightarrow> sublist [a, b] xs"
    using sublist_rev [of "[a, b]" xs] by simp
  also have "prefix [b, a] (c # rev xs) \<longleftrightarrow> xs \<noteq> [] \<and> last xs = a \<and> c = b"
    by (cases xs rule: rev_cases) auto
  finally show ?thesis by blast
qed

lemma clean_path_snoc:
  "clean_path (u @ [c]) \<longleftrightarrow>
     clean_path u \<and> c \<noteq> chr_percent \<and> c \<noteq> chr_hash \<and>
     (u \<noteq> [] \<and> last u = chr_slash \<longrightarrow> c \<noteq> chr_slash \<and> c \<noteq> chr_dot)"
  unfolding clean_path_def sublist_pair_snoc by auto

lemma clean_path_append: "clean_path (u @ v) \<Longrightarrow> clean_path u"
  by (auto simp: clean_path_def sublist_append)

text \<open>The URI between two offsets starts with a slash and is clean up to its arguments.\<close>

abbreviation path_of :: "byte list \<Rightarrow> byte list" where
  "path_of u \<equiv> takeWhile (\<lambda>c. c \<noteq> chr_quest) u"

definition clean_uri :: "byte list \<Rightarrow> nat \<Rightarrow> nat \<Rightarrow> bool" where
  "clean_uri buf a b \<longleftrightarrow>
     a < b \<and> a < length buf \<and> buf ! a = chr_slash \<and> clean_path (path_of (segment buf a b))"

lemma clean_uri_start:
  "p < length buf \<Longrightarrow> buf ! p = chr_slash \<Longrightarrow>
     clean_uri buf p (Suc p) \<and> segment buf p (Suc p) = [chr_slash]"
  by (simp add: clean_uri_def segment_Suc clean_path_def sublist_Cons_right)

lemma clean_uri_shorter: "clean_uri buf a c \<Longrightarrow> a < b \<Longrightarrow> b \<le> c \<Longrightarrow> clean_uri buf a b"
proof -
  assume c: "clean_uri buf a c" and ab: "a < b" "b \<le> c"
  from ab(2) prefix_segment obtain r where r: "segment buf a c = segment buf a b @ r" by blast
  show ?thesis
  proof (cases "chr_quest \<in> set (segment buf a b)")
    case True
    with c r ab show ?thesis by (simp add: clean_uri_def takeWhile_append1)
  next
    case False
    then have e: "path_of (segment buf a b) = segment buf a b" by (subst takeWhile_eq_all_conv) auto
    from False have "path_of (segment buf a b @ r) = segment buf a b @ path_of r"
      by (subst takeWhile_append2) auto
    with c have "clean_path (segment buf a b @ path_of r)" unfolding clean_uri_def r by (simp only:)
    then have "clean_path (path_of (segment buf a b))" unfolding e by (rule clean_path_append)
    with c ab show ?thesis by (simp add: clean_uri_def)
  qed
qed

lemma path_of_snoc:
  "path_of (u @ [c]) = (if chr_quest \<in> set u \<or> c = chr_quest then path_of u else u @ [c])"
  by (induction u) auto

text \<open>One byte more: after a slash, within a segment, and in the arguments.\<close>

lemma clean_uri_Suc:
  assumes "clean_uri buf a p" and "p < length buf"
  shows "clean_uri buf a (Suc p) \<longleftrightarrow>
     chr_quest \<in> set (segment buf a p) \<or> buf ! p = chr_quest \<or>
     (buf ! p \<noteq> chr_percent \<and> buf ! p \<noteq> chr_hash \<and>
      (last (segment buf a p) = chr_slash \<longrightarrow> buf ! p \<noteq> chr_slash \<and> buf ! p \<noteq> chr_dot))"
proof -
  have "a < p" and a: "a < length buf" using assms(1) by (simp_all add: clean_uri_def)
  then have s: "segment buf a (Suc p) = segment buf a p @ [buf ! p]"
    using assms(2) by (intro segment_Suc) simp_all
  have "0 < length (segment buf a p)" unfolding length_segment using \<open>a < p\<close> a by simp
  then have n: "segment buf a p \<noteq> []" by simp
  have "clean_path (segment buf a p)" if "chr_quest \<notin> set (segment buf a p)"
  proof -
    have e: "path_of (segment buf a p) = segment buf a p" using that by (subst takeWhile_eq_all_conv) auto
    from assms(1) have "clean_path (path_of (segment buf a p))" by (simp add: clean_uri_def)
    then show ?thesis unfolding e .
  qed
  with assms(1) n show ?thesis
    unfolding clean_uri_def s path_of_snoc by (auto simp: clean_path_snoc)
qed

text \<open>The invariant of the parse, for a request without the flags that ask for normalisation.\<close>

fun rl_uri_inv :: "rl_state \<Rightarrow> byte list \<Rightarrow> nat \<Rightarrow> request_line \<Rightarrow> bool" where
  "rl_uri_inv rl_start buf p r = True"
| "rl_uri_inv rl_method buf p r = True"
| "rl_uri_inv rl_spaces_before_uri buf p r = True"
| "rl_uri_inv rl_schema buf p r = True"
| "rl_uri_inv rl_schema_slash buf p r = (schema_end r + 1 = p)"
| "rl_uri_inv rl_schema_slash_slash buf p r = clean_uri buf (schema_end r + 1) (schema_end r + 2)"
| "rl_uri_inv rl_host_start buf p r = clean_uri buf (schema_end r + 1) (schema_end r + 2)"
| "rl_uri_inv rl_host buf p r = clean_uri buf (schema_end r + 1) (schema_end r + 2)"
| "rl_uri_inv rl_host_end buf p r = clean_uri buf (schema_end r + 1) (schema_end r + 2)"
| "rl_uri_inv rl_host_ip_literal buf p r = clean_uri buf (schema_end r + 1) (schema_end r + 2)"
| "rl_uri_inv rl_port buf p r = clean_uri buf (schema_end r + 1) (schema_end r + 2)"
| "rl_uri_inv rl_after_slash_in_uri buf p r =
     (clean_uri buf (uri_start r) p \<and> chr_quest \<notin> set (segment buf (uri_start r) p))"
| "rl_uri_inv rl_check_uri buf p r =
     (clean_uri buf (uri_start r) p \<and> chr_quest \<notin> set (segment buf (uri_start r) p) \<and>
      last (segment buf (uri_start r) p) \<noteq> chr_slash)"
| "rl_uri_inv rl_check_uri_http_09 buf p r =
     (clean_uri buf (uri_start r) p \<and> chr_quest \<notin> set (segment buf (uri_start r) p) \<and>
      last (segment buf (uri_start r) p) \<noteq> chr_slash \<and>
      clean_uri buf (uri_start r) (uri_end r))"
| "rl_uri_inv rl_uri buf p r =
     (clean_uri buf (uri_start r) p \<and> chr_quest \<in> set (segment buf (uri_start r) p))"
| "rl_uri_inv rl_http_09 buf p r =
     (clean_uri buf (uri_start r) p \<and> chr_quest \<in> set (segment buf (uri_start r) p) \<and>
      clean_uri buf (uri_start r) (uri_end r))"
| "rl_uri_inv _ buf p r = clean_uri buf (uri_start r) (uri_end r)"

definition rl_inv :: "byte list \<Rightarrow> nat \<Rightarrow> request_line \<Rightarrow> bool" where
  "rl_inv buf p r \<longleftrightarrow> complex_uri r \<or> quoted_uri r \<or> rl_uri_inv (req_state r) buf p r"

definition rl_post :: "byte list \<Rightarrow> http_parse_error + request_line \<times> nat \<Rightarrow> bool" where
  "rl_post buf res =
     (case res of
        Inl e \<Rightarrow> True
      | Inr (r, pos) \<Rightarrow> complex_uri r \<or> quoted_uri r \<or> clean_uri buf (uri_start r) (uri_end r))"

lemmas rl_defs = rl_step_host_end_def rl_step_host_def rl_step_method_def rl_step_ip_literal_def
  rl_step_port_def rl_step_after_slash_def rl_step_check_uri_def rl_step_uri_def rl_step_http_09_def
  rl_expect_def rl_step_first_major_def rl_step_major_def rl_step_first_minor_def rl_step_minor_def
  rl_step_spaces_after_digit_def rl_step_almost_done_def

lemma rl_done_Next [simp]: "rl_done p r \<noteq> Next r'"
  by (simp add: rl_done_def Let_def)

lemma rl_post_Inl [simp]: "rl_post buf (Inl e)"
  by (simp add: rl_post_def)

lemma rl_done_post:
  "rl_done p r = Stop res \<Longrightarrow>
     complex_uri r \<or> quoted_uri r \<or> clean_uri buf (uri_start r) (uri_end r) \<Longrightarrow> rl_post buf res"
  by (auto simp: rl_done_def rl_post_def Let_def split: if_splits)

lemma rl_step_flags:
  "rl_step buf p ch r = Next r' \<Longrightarrow> complex_uri r \<or> quoted_uri r \<Longrightarrow> complex_uri r' \<or> quoted_uri r'"
  unfolding rl_step_def
  by (cases "req_state r") (auto simp: rl_defs Let_def split: if_splits)

text \<open>The steps on a path keep the invariant.\<close>

lemma last_segment_Suc: "a \<le> p \<Longrightarrow> p < length buf \<Longrightarrow> last (segment buf a (Suc p)) = buf ! p"
  by (simp add: segment_Suc)

lemma set_segment_Suc:
  "a \<le> p \<Longrightarrow> p < length buf \<Longrightarrow> set (segment buf a (Suc p)) = insert (buf ! p) (set (segment buf a p))"
  by (simp add: segment_Suc)

lemma clean_uri_less: "clean_uri buf a p \<Longrightarrow> a < p"
  by (simp add: clean_uri_def)

lemma rl_step_after_slash_inv:
  assumes "p < length buf" and "rl_uri_inv rl_after_slash_in_uri buf p r"
    and "req_state r = rl_after_slash_in_uri"
  shows "rl_step_after_slash p (buf ! p) r = Next r' \<Longrightarrow> rl_inv buf (Suc p) r'"
    and "rl_step_after_slash p (buf ! p) r = Stop res \<Longrightarrow> rl_post buf res"
proof -
  let ?a = "uri_start r"
  have c: "clean_uri buf ?a p" and q: "chr_quest \<notin> set (segment buf ?a p)" using assms(2) by simp_all
  have a: "?a < p" by (rule clean_uri_less [OF c])
  show "rl_step_after_slash p (buf ! p) r = Next r' \<Longrightarrow> rl_inv buf (Suc p) r'"
    using assms(3) c q a clean_uri_Suc [OF c assms(1)] set_segment_Suc [OF _ assms(1), of ?a]
      last_segment_Suc [OF _ assms(1), of ?a]
    unfolding rl_step_after_slash_def rl_inv_def
    by (auto simp: is_usual_iff split: if_splits)
  show "rl_step_after_slash p (buf ! p) r = Stop res \<Longrightarrow> rl_post buf res"
    using c unfolding rl_step_after_slash_def
    by (auto split: if_splits elim!: rl_done_post)
qed

lemma rl_step_check_uri_inv:
  assumes "p < length buf" and "rl_uri_inv rl_check_uri buf p r" and "req_state r = rl_check_uri"
  shows "rl_step_check_uri p (buf ! p) r = Next r' \<Longrightarrow> rl_inv buf (Suc p) r'"
    and "rl_step_check_uri p (buf ! p) r = Stop res \<Longrightarrow> rl_post buf res"
proof -
  let ?a = "uri_start r"
  have c: "clean_uri buf ?a p" and q: "chr_quest \<notin> set (segment buf ?a p)"
    and l: "last (segment buf ?a p) \<noteq> chr_slash" using assms(2) by simp_all
  have a: "?a < p" by (rule clean_uri_less [OF c])
  show "rl_step_check_uri p (buf ! p) r = Next r' \<Longrightarrow> rl_inv buf (Suc p) r'"
    using assms(3) c q l a clean_uri_Suc [OF c assms(1)] set_segment_Suc [OF _ assms(1), of ?a]
      last_segment_Suc [OF _ assms(1), of ?a]
    unfolding rl_step_check_uri_def rl_inv_def
    by (auto simp: is_usual_iff split: if_splits)
  show "rl_step_check_uri p (buf ! p) r = Stop res \<Longrightarrow> rl_post buf res"
    using c unfolding rl_step_check_uri_def
    by (auto split: if_splits elim!: rl_done_post)
qed

lemma rl_step_uri_inv:
  assumes "p < length buf" and "rl_uri_inv rl_uri buf p r" and "req_state r = rl_uri"
  shows "rl_step_uri p (buf ! p) r = Next r' \<Longrightarrow> rl_inv buf (Suc p) r'"
    and "rl_step_uri p (buf ! p) r = Stop res \<Longrightarrow> rl_post buf res"
proof -
  let ?a = "uri_start r"
  have c: "clean_uri buf ?a p" and q: "chr_quest \<in> set (segment buf ?a p)" using assms(2) by simp_all
  have a: "?a < p" by (rule clean_uri_less [OF c])
  show "rl_step_uri p (buf ! p) r = Next r' \<Longrightarrow> rl_inv buf (Suc p) r'"
    using assms(3) c q a clean_uri_Suc [OF c assms(1)] set_segment_Suc [OF _ assms(1), of ?a]
    unfolding rl_step_uri_def rl_inv_def
    by (auto simp: is_usual_iff split: if_splits)
  show "rl_step_uri p (buf ! p) r = Stop res \<Longrightarrow> rl_post buf res"
    using c unfolding rl_step_uri_def
    by (auto split: if_splits elim!: rl_done_post)
qed

lemma rl_step_check_uri_http_09_inv:
  assumes "p < length buf" and "rl_uri_inv rl_check_uri_http_09 buf p r"
    and "req_state r = rl_check_uri_http_09"
  shows "rl_step buf p (buf ! p) r = Next r' \<Longrightarrow> rl_inv buf (Suc p) r'"
    and "rl_step buf p (buf ! p) r = Stop res \<Longrightarrow> rl_post buf res"
proof -
  let ?a = "uri_start r" and ?r = "r\<lparr>space_in_uri := True, req_state := rl_check_uri\<rparr>"
  have c: "clean_uri buf ?a p" "clean_uri buf ?a (uri_end r)" "chr_quest \<notin> set (segment buf ?a p)"
    "last (segment buf ?a p) \<noteq> chr_slash" using assms(2) by simp_all
  have a: "?a < p" by (rule clean_uri_less [OF c(1)])
  have check: "rl_uri_inv rl_check_uri buf p ?r" "req_state ?r = rl_check_uri" using c by simp_all
  note other = rl_step_check_uri_inv [OF assms(1) check]
  show "rl_step buf p (buf ! p) r = Next r' \<Longrightarrow> rl_inv buf (Suc p) r'"
    using assms(3) c a clean_uri_Suc [OF c(1) assms(1)] set_segment_Suc [OF _ assms(1), of ?a]
      last_segment_Suc [OF _ assms(1), of ?a] other(1)
    unfolding rl_step_def rl_step_http_09_def
    by (auto simp: rl_step_http_09_def rl_inv_def split: if_splits)
  show "rl_step buf p (buf ! p) r = Stop res \<Longrightarrow> rl_post buf res"
    using assms(3) c other(2) unfolding rl_step_def
    by (auto simp: rl_step_http_09_def split: if_splits elim!: rl_done_post)
qed

lemma rl_step_http_09_inv:
  assumes "p < length buf" and "rl_uri_inv rl_http_09 buf p r" and "req_state r = rl_http_09"
  shows "rl_step buf p (buf ! p) r = Next r' \<Longrightarrow> rl_inv buf (Suc p) r'"
    and "rl_step buf p (buf ! p) r = Stop res \<Longrightarrow> rl_post buf res"
proof -
  let ?a = "uri_start r" and ?r = "r\<lparr>space_in_uri := True, req_state := rl_uri\<rparr>"
  have c: "clean_uri buf ?a p" "clean_uri buf ?a (uri_end r)" "chr_quest \<in> set (segment buf ?a p)"
    using assms(2) by simp_all
  have a: "?a < p" by (rule clean_uri_less [OF c(1)])
  have check: "rl_uri_inv rl_uri buf p ?r" "req_state ?r = rl_uri" using c by simp_all
  note other = rl_step_uri_inv [OF assms(1) check]
  show "rl_step buf p (buf ! p) r = Next r' \<Longrightarrow> rl_inv buf (Suc p) r'"
    using assms(3) c a clean_uri_Suc [OF c(1) assms(1)] set_segment_Suc [OF _ assms(1), of ?a] other(1)
    unfolding rl_step_def
    by (auto simp: rl_step_http_09_def rl_inv_def split: if_splits)
  show "rl_step buf p (buf ! p) r = Stop res \<Longrightarrow> rl_post buf res"
    using assms(3) c other(2) unfolding rl_step_def
    by (auto simp: rl_step_http_09_def split: if_splits elim!: rl_done_post)
qed

lemma clean_uri_single: "clean_uri buf a (Suc a) \<longleftrightarrow> a < length buf \<and> buf ! a = chr_slash"
  by (auto simp: clean_uri_def segment_Suc clean_path_def sublist_Cons_right)

text \<open>The steps of every other state.\<close>

lemma rl_step_other_inv:
  assumes "p < length buf" and "rl_uri_inv (req_state r) buf p r"
    and "req_state r \<notin> {rl_after_slash_in_uri, rl_check_uri, rl_check_uri_http_09, rl_uri, rl_http_09}"
  shows "rl_step buf p (buf ! p) r = Next r' \<Longrightarrow> rl_inv buf (Suc p) r'"
    and "rl_step buf p (buf ! p) r = Stop res \<Longrightarrow> rl_post buf res"
proof -
  have one: "segment buf p (Suc p) = [buf ! p]" using assms(1) by (simp add: segment_Suc)
  show "rl_step buf p (buf ! p) r = Next r' \<Longrightarrow> rl_inv buf (Suc p) r'"
    using assms unfolding rl_step_def rl_inv_def
    by (cases "req_state r") (auto simp: rl_defs Let_def clean_uri_single one split: if_splits)
  show "rl_step buf p (buf ! p) r = Stop res \<Longrightarrow> rl_post buf res"
    using assms unfolding rl_step_def
    by (cases "req_state r") (auto simp: rl_defs Let_def split: if_splits elim!: rl_done_post)
qed

lemma rl_step_inv:
  assumes "p < length buf" and "rl_inv buf p r"
  shows "rl_step buf p (buf ! p) r = Next r' \<Longrightarrow> rl_inv buf (Suc p) r'"
    and "rl_step buf p (buf ! p) r = Stop res \<Longrightarrow> rl_post buf res"
proof -
  have "(rl_step buf p (buf ! p) r = Next r' \<longrightarrow> rl_inv buf (Suc p) r') \<and>
      (rl_step buf p (buf ! p) r = Stop res \<longrightarrow> rl_post buf res)"
  proof (cases "complex_uri r \<or> quoted_uri r")
    case True
    then have "rl_step buf p (buf ! p) r = Stop res \<Longrightarrow> rl_post buf res"
      unfolding rl_step_def
      by (cases "req_state r") (auto simp: rl_defs Let_def split: if_splits elim!: rl_done_post)
    with True show ?thesis by (auto simp: rl_inv_def dest: rl_step_flags)
  next
    case False
    with assms(2) have inv: "rl_uri_inv (req_state r) buf p r" by (simp add: rl_inv_def)
    show ?thesis
    proof (cases "req_state r \<in> {rl_after_slash_in_uri, rl_check_uri, rl_check_uri_http_09, rl_uri, rl_http_09}")
      case True
      with inv rl_step_after_slash_inv [OF assms(1), of r] rl_step_check_uri_inv [OF assms(1), of r]
        rl_step_check_uri_http_09_inv [OF assms(1), of r] rl_step_uri_inv [OF assms(1), of r]
        rl_step_http_09_inv [OF assms(1), of r]
      show ?thesis by (auto simp: rl_step_def simp del: rl_uri_inv.simps)
    next
      case False
      with inv show ?thesis using rl_step_other_inv [OF assms(1), of r] by blast
    qed
  qed
  then show "rl_step buf p (buf ! p) r = Next r' \<Longrightarrow> rl_inv buf (Suc p) r'"
    and "rl_step buf p (buf ! p) r = Stop res \<Longrightarrow> rl_post buf res" by blast+
qed

interpretation rl: scan_invariant "rl_step buf" buf "rl_inv buf" "rl_post buf" for buf
  by unfold_locales (fact rl_step_inv)+

text \<open>C21. A request line that is accepted without the flags for a complex or a quoted URI has a path that
  starts with a slash and holds no escape, no fragment, no empty segment and no segment that starts
  with a dot: skipping the normalisation of such a URI is safe.\<close>

theorem request_line_clean_uri:
  assumes "ngx_http_parse_request_line buf 0 rl_init = Stop (Inr (r, pos))"
    and "\<not> complex_uri r" and "\<not> quoted_uri r"
  shows "clean_uri buf (uri_start r) (uri_end r)"
proof -
  have "rl_inv buf 0 rl_init" by (simp add: rl_inv_def rl_init_def)
  from rl.scan_stop [OF this] assms show ?thesis
    by (simp add: ngx_http_parse_request_line_def rl_post_def)
qed

theorem request_line_clean_uri_witness:
  "clean_uri (bytes_of ''GET /a/b HTTP/1.0'' @ [chr_lf]) 4 8"
proof -
  have "ngx_http_parse_request_line (bytes_of ''GET /a/b HTTP/1.0'' @ [chr_lf]) 0 rl_init =
      Stop (Inr (rl_init\<lparr>http_method := NGX_HTTP_GET, method_end := 2, uri_start := 4, uri_end := 8,
        http_protocol := 9, http_major := 1, http_minor := 0, http_version := 1000,
        request_end := Some 17\<rparr>, 18))"
    by code_simp
  from request_line_clean_uri [OF this] show ?thesis by (simp add: rl_init_def)
qed

lemma rl_step_take: "p < n \<Longrightarrow> rl_step (take n buf) p ch r = rl_step buf p ch r"
  unfolding rl_step_def
  by (cases "req_state r") (simp_all add: rl_step_method_def segment_def drop_take min_def)

lemma scan_take:
  "p + length cs \<le> n \<Longrightarrow> scan (rl_step (take n buf)) p cs r = scan (rl_step buf) p cs r"
  by (induction cs arbitrary: p r) (auto simp: rl_step_take split: progress.split)



subsection \<open>Well-formed request lines\<close>

text \<open>Bytes of a URI that do not end it.\<close>

definition uri_byte :: "byte \<Rightarrow> bool" where
  "uri_byte ch \<longleftrightarrow> ch \<noteq> chr_nul \<and> ch \<noteq> chr_lf \<and> ch \<noteq> chr_cr \<and> ch \<noteq> chr_space"

text \<open>Two requests that differ at most in what the bytes of a URI may change.\<close>

definition same_request :: "request_line \<Rightarrow> request_line \<Rightarrow> bool" where
  "same_request r s \<longleftrightarrow>
     s = r\<lparr>req_state := req_state s, uri_ext := uri_ext s, args_start := args_start s,
           complex_uri := complex_uri s, quoted_uri := quoted_uri s, plus_in_uri := plus_in_uri s\<rparr>"

lemma same_request_trans: "same_request r s \<Longrightarrow> same_request s t \<Longrightarrow> same_request r t"
  by (cases r; cases s; cases t) (simp add: same_request_def)

lemma scan_method:
  "list_all rl_method_char ms \<Longrightarrow> req_state r = rl_method \<Longrightarrow> scan (rl_step buf) p ms r = Next r"
proof (induction ms arbitrary: p)
  case (Cons ch ms)
  then have "ch \<noteq> chr_space" by (auto simp: rl_method_char_def)
  with Cons show ?case by (simp add: rl_step_def rl_step_method_def)
qed simp

lemma rl_step_uri_byte:
  assumes "uri_byte ch" and "req_state r \<in> {rl_after_slash_in_uri, rl_check_uri, rl_uri}"
  shows "case rl_step buf p ch r of
      Next s \<Rightarrow> same_request r s \<and> req_state s \<in> {rl_after_slash_in_uri, rl_check_uri, rl_uri}
    | Stop res \<Rightarrow> False"
  using assms
  by (auto simp: rl_step_def uri_byte_def rl_step_after_slash_def rl_step_check_uri_def rl_step_uri_def
      same_request_def)

lemma scan_uri_bytes:
  "list_all uri_byte cs \<Longrightarrow> req_state r \<in> {rl_after_slash_in_uri, rl_check_uri, rl_uri} \<Longrightarrow>
   \<exists>s. scan (rl_step buf) p cs r = Next s \<and> same_request r s \<and>
       req_state s \<in> {rl_after_slash_in_uri, rl_check_uri, rl_uri}"
proof (induction cs arbitrary: p r)
  case Nil
  then show ?case by (simp add: same_request_def)
next
  case (Cons ch cs)
  obtain r1 where r1: "rl_step buf p ch r = Next r1" "same_request r r1"
    "req_state r1 \<in> {rl_after_slash_in_uri, rl_check_uri, rl_uri}"
    using rl_step_uri_byte [of ch r buf p] Cons.prems by (auto split: progress.splits)
  from Cons.IH [OF _ r1(3), of "p + 1"] Cons.prems(1) obtain s where
    "scan (rl_step buf) (p + 1) cs r1 = Next s" "same_request r1 s"
    "req_state s \<in> {rl_after_slash_in_uri, rl_check_uri, rl_uri}" by auto
  with r1 show ?case by (auto intro: same_request_trans)
qed


text \<open>The end of a request line of version 1.\<close>

lemma scan_http_1:
  assumes "req_state r \<in> {rl_after_slash_in_uri, rl_check_uri, rl_uri}"
    and "chr_0 \<le> d" and "d \<le> chr_9" and "request_end r = None"
  shows "scan (rl_step buf) p (bytes_of '' HTTP/1.'' @ d # chr_cr # chr_lf # rest) r =
    Stop (Inr (r\<lparr>uri_end := p, http_protocol := p + 1, http_major := 1, http_minor := unat d - 48,
      http_version := 1000 + (unat d - 48), request_end := Some (p + 9), req_state := rl_start\<rparr>, p + 11))"
proof -
  have d: "\<not> (d < chr_0 \<or> chr_9 < d)" using assms(2,3) by auto
  have "\<exists>st. st \<in> {rl_check_uri_http_09, rl_http_09} \<and>
      rl_step buf p chr_space r = Next (r\<lparr>uri_end := p, req_state := st\<rparr>)"
    using assms(1)
    by (auto simp: rl_step_def rl_step_after_slash_def rl_step_check_uri_def rl_step_uri_def is_usual_iff)
  then obtain st where st: "st \<in> {rl_check_uri_http_09, rl_http_09}"
    "rl_step buf p chr_space r = Next (r\<lparr>uri_end := p, req_state := st\<rparr>)" by blast
  then have "rl_step buf (p + 1) 0x48 (r\<lparr>uri_end := p, req_state := st\<rparr>) =
      Next (r\<lparr>uri_end := p, http_protocol := p + 1, req_state := rl_http_H\<rparr>)"
    by (auto simp: rl_step_def rl_step_http_09_def)
  with st(2) d(1) show ?thesis
    by (simp add: bytes_of_def rl_step_def [of buf "p + _"] rl_step_def [of buf "Suc _"] rl_expect_def
        rl_step_first_major_def rl_step_major_def rl_step_first_minor_def rl_step_minor_def
        rl_step_almost_done_def rl_done_def Let_def)
qed




end
