(* ===== verification/Http_Header_Line.thy ===== *)
theory Http_Header_Line
  imports Http_Scan
begin

section \<open>A header line\<close>

text \<open>
  \<^verbatim>\<open>ngx_http_parse_header_line\<close>: the states of its \<^verbatim>\<open>switch\<close> with the prefix \<open>hl\<close>. The local variables
  \<^verbatim>\<open>hash\<close> and \<^verbatim>\<open>i\<close> are the fields \<open>cur_hash\<close> and \<open>cur_index\<close>; the function reads them from the request
  when it starts and stores them when it returns \<^verbatim>\<open>NGX_AGAIN\<close> or \<^verbatim>\<open>NGX_OK\<close>.
\<close>

datatype hl_state =
    hl_start | hl_name | hl_space_before_value | hl_value | hl_space_after_value | hl_ignore_line
  | hl_almost_done | hl_header_almost_done

record header_line =
  hdr_state :: hl_state
  cur_hash :: u64
  cur_index :: nat
  header_hash :: u64
  lowcase_index :: nat
  lowcase_header :: "byte list"
  header_name_start :: nat
  header_name_end :: nat
  header_start :: nat
  header_end :: nat
  invalid_header :: bool

datatype hl_result =
    Header_line header_line nat
  | Header_done header_line nat
  | Header_invalid

type_synonym hl_progress = "(header_line, hl_result) progress"

definition lowcase :: "byte list" where
  "lowcase =
     replicate 32 0 @
     replicate 13 0 @ [chr_minus] @ replicate 2 0 @ bytes_of ''0123456789'' @ replicate 6 0 @
     [0] @ bytes_of ''abcdefghijklmnopqrstuvwxyz'' @ replicate 5 0 @
     [0] @ bytes_of ''abcdefghijklmnopqrstuvwxyz'' @ replicate 5 0 @
     replicate 128 0"

definition ngx_hash :: "u64 \<Rightarrow> byte \<Rightarrow> u64" where
  "ngx_hash key c = key * 31 + ucast c"

definition NGX_HTTP_LC_HEADER_LEN :: nat where
  "NGX_HTTP_LC_HEADER_LEN = 32"

text \<open>The first character of a name and the next ones: hash and store it.\<close>

definition hl_first :: "byte \<Rightarrow> header_line \<Rightarrow> header_line" where
  "hl_first c r = r\<lparr>cur_hash := ngx_hash 0 c, lowcase_header := (lowcase_header r)[0 := c], cur_index := 1\<rparr>"

definition hl_store :: "byte \<Rightarrow> header_line \<Rightarrow> header_line" where
  "hl_store c r =
     r\<lparr>cur_hash := ngx_hash (cur_hash r) c,
       lowcase_header := (lowcase_header r)[cur_index r := c],
       cur_index := (cur_index r + 1) mod NGX_HTTP_LC_HEADER_LEN\<rparr>"

definition hl_done :: "nat \<Rightarrow> header_line \<Rightarrow> hl_progress" where
  "hl_done p r =
     Stop (Header_line
       (r\<lparr>hdr_state := hl_start, header_hash := cur_hash r, lowcase_index := cur_index r\<rparr>) (p + 1))"

definition hl_header_done :: "nat \<Rightarrow> header_line \<Rightarrow> hl_progress" where
  "hl_header_done p r = Stop (Header_done (r\<lparr>hdr_state := hl_start\<rparr>) (p + 1))"

fun hl_case :: "hl_state \<Rightarrow> bool \<Rightarrow> bool \<Rightarrow> byte list \<Rightarrow> nat \<Rightarrow> byte \<Rightarrow> header_line \<Rightarrow> hl_progress" where
  "hl_case hl_start upstream allow_underscores buf p ch r =
     (let r = r\<lparr>header_name_start := p, invalid_header := False\<rparr> in
      if ch = chr_cr then Next (r\<lparr>header_end := p, hdr_state := hl_header_almost_done\<rparr>)
      else if ch = chr_lf then hl_header_done p (r\<lparr>header_end := p\<rparr>)
      else
        let r = r\<lparr>hdr_state := hl_name\<rparr>; c = lowcase ! unat ch in
        if c \<noteq> 0 then Next (hl_first c r)
        else if ch = chr_underscore then
          (if allow_underscores then Next (hl_first ch r) else Next (r\<lparr>invalid_header := True\<rparr>))
        else if ch = chr_nul then Stop Header_invalid
        else Next (r\<lparr>invalid_header := True\<rparr>))"
| "hl_case hl_name upstream allow_underscores buf p ch r =
     (let c = lowcase ! unat ch in
      if c \<noteq> 0 then Next (hl_store c r)
      else if ch = chr_underscore then
        (if allow_underscores then Next (hl_store ch r) else Next (r\<lparr>invalid_header := True\<rparr>))
      else if ch = chr_colon then Next (r\<lparr>header_name_end := p, hdr_state := hl_space_before_value\<rparr>)
      else if ch = chr_cr then
        Next (r\<lparr>header_name_end := p, header_start := p, header_end := p, hdr_state := hl_almost_done\<rparr>)
      else if ch = chr_lf then hl_done p (r\<lparr>header_name_end := p, header_start := p, header_end := p\<rparr>)
      else if ch = chr_slash \<and> upstream \<and> p - header_name_start r = 4 \<and>
          segment buf (header_name_start r) p = bytes_of ''HTTP'' then
        Next (r\<lparr>hdr_state := hl_ignore_line\<rparr>)
      else if ch = chr_nul then Stop Header_invalid
      else Next (r\<lparr>invalid_header := True\<rparr>))"
| "hl_case hl_space_before_value upstream allow_underscores buf p ch r =
     (if ch = chr_space then Next r
      else if ch = chr_cr then Next (r\<lparr>header_start := p, header_end := p, hdr_state := hl_almost_done\<rparr>)
      else if ch = chr_lf then hl_done p (r\<lparr>header_start := p, header_end := p\<rparr>)
      else if ch = chr_nul then Stop Header_invalid
      else Next (r\<lparr>header_start := p, hdr_state := hl_value\<rparr>))"
| "hl_case hl_value upstream allow_underscores buf p ch r =
     (if ch = chr_space then Next (r\<lparr>header_end := p, hdr_state := hl_space_after_value\<rparr>)
      else if ch = chr_cr then Next (r\<lparr>header_end := p, hdr_state := hl_almost_done\<rparr>)
      else if ch = chr_lf then hl_done p (r\<lparr>header_end := p\<rparr>)
      else if ch = chr_nul then Stop Header_invalid
      else Next r)"
| "hl_case hl_space_after_value upstream allow_underscores buf p ch r =
     (if ch = chr_space then Next r
      else if ch = chr_cr then Next (r\<lparr>hdr_state := hl_almost_done\<rparr>)
      else if ch = chr_lf then hl_done p r
      else if ch = chr_nul then Stop Header_invalid
      else Next (r\<lparr>hdr_state := hl_value\<rparr>))"
| "hl_case hl_ignore_line upstream allow_underscores buf p ch r =
     (if ch = chr_lf then Next (r\<lparr>hdr_state := hl_start\<rparr>) else Next r)"
| "hl_case hl_almost_done upstream allow_underscores buf p ch r =
     (if ch = chr_lf then hl_done p r
      else if ch = chr_cr then Next r
      else Stop Header_invalid)"
| "hl_case hl_header_almost_done upstream allow_underscores buf p ch r =
     (if ch = chr_lf then hl_header_done p r else Stop Header_invalid)"

definition hl_step :: "bool \<Rightarrow> bool \<Rightarrow> byte list \<Rightarrow> nat \<Rightarrow> byte \<Rightarrow> header_line \<Rightarrow> hl_progress" where
  "hl_step upstream allow_underscores buf p ch r = hl_case (hdr_state r) upstream allow_underscores buf p ch r"

definition ngx_http_parse_header_line :: "bool \<Rightarrow> bool \<Rightarrow> byte list \<Rightarrow> nat \<Rightarrow> header_line \<Rightarrow> hl_progress" where
  "ngx_http_parse_header_line upstream allow_underscores buf pos r =
     (case scan (hl_step upstream allow_underscores buf) pos (drop pos buf)
             (r\<lparr>cur_hash := header_hash r, cur_index := lowcase_index r\<rparr>) of
        Next r \<Rightarrow> Next (r\<lparr>header_hash := cur_hash r, lowcase_index := cur_index r\<rparr>)
      | Stop res \<Rightarrow> Stop res)"

subsection \<open>The table of the characters of a name\<close>

lemma lowcase_nth:
  "lowcase ! unat c = (if (chr_0 \<le> c \<and> c \<le> chr_9) \<or> (chr_a \<le> c \<and> c \<le> chr_z) \<or> (chr_A \<le> c \<and> c \<le> chr_Z) \<or>
     c = chr_minus then ngx_tolower c else 0)"
  by (induct c rule: byte_all) code_simp+

subsection \<open>What a parsed header line holds\<close>

text \<open>No zero and no end of line.\<close>

definition line_text :: "byte list \<Rightarrow> bool" where
  "line_text u \<longleftrightarrow> chr_nul \<notin> set u \<and> chr_cr \<notin> set u \<and> chr_lf \<notin> set u"

lemma line_text_snoc:
  "line_text (u @ [c]) \<longleftrightarrow> line_text u \<and> c \<noteq> chr_nul \<and> c \<noteq> chr_cr \<and> c \<noteq> chr_lf"
  by (auto simp: line_text_def)

definition name_char :: "bool \<Rightarrow> byte \<Rightarrow> bool" where
  "name_char allow_underscores c \<longleftrightarrow> lowcase ! unat c \<noteq> 0 \<or> allow_underscores \<and> c = chr_underscore"

lemma lowcase_tolower: "lowcase ! unat c \<noteq> 0 \<Longrightarrow> lowcase ! unat c = ngx_tolower c"
  by (simp add: lowcase_nth split: if_splits)

lemma lowcase_controls: "lowcase ! unat chr_nul = 0" "lowcase ! unat chr_cr = 0" "lowcase ! unat chr_lf = 0"
  unfolding lowcase_nth by simp_all

lemma name_char_text: "name_char allow_underscores c \<Longrightarrow> c \<noteq> chr_nul \<and> c \<noteq> chr_cr \<and> c \<noteq> chr_lf"
  using lowcase_controls by (auto simp: name_char_def)

lemma hl_stored [simp]:
  "header_name_start (hl_first c r) = header_name_start r" "hdr_state (hl_first c r) = hdr_state r"
  "header_name_start (hl_store c r) = header_name_start r" "hdr_state (hl_store c r) = hdr_state r"
  "length (lowcase_header (hl_first c r)) = length (lowcase_header r)"
  "length (lowcase_header (hl_store c r)) = length (lowcase_header r)"
  by (simp_all add: hl_first_def hl_store_def)

lemma tolower_underscore: "ngx_tolower chr_underscore = chr_underscore"
  by (simp add: ngx_tolower_def)

definition name_hash :: "byte list \<Rightarrow> u64" where
  "name_hash name = foldl ngx_hash 0 (map ngx_tolower name)"

text \<open>A name that was read: its text, and for a valid one its hash and its lower case copy.\<close>

definition name_ok :: "bool \<Rightarrow> byte list \<Rightarrow> header_line \<Rightarrow> bool" where
  "name_ok allow_underscores name r \<longleftrightarrow>
     name \<noteq> [] \<and> line_text name \<and> length (lowcase_header r) = NGX_HTTP_LC_HEADER_LEN \<and>
     (\<not> invalid_header r \<longrightarrow>
       list_all (name_char allow_underscores) name \<and> cur_hash r = name_hash name \<and>
       cur_index r = length name mod NGX_HTTP_LC_HEADER_LEN \<and>
       (length name \<le> NGX_HTTP_LC_HEADER_LEN \<longrightarrow>
         take (length name) (lowcase_header r) = map ngx_tolower name))"

lemma name_ok_first:
  assumes "name_char allow ch" and "length (lowcase_header r) = NGX_HTTP_LC_HEADER_LEN"
  shows "name_ok allow [ch] (hl_first (ngx_tolower ch) r)"
  using assms name_char_text [OF assms(1)]
  by (cases "lowcase_header r")
    (auto simp: name_ok_def hl_first_def line_text_def name_hash_def NGX_HTTP_LC_HEADER_LEN_def)

lemma name_ok_store:
  assumes "name_ok allow name r" and "name_char allow ch"
  shows "name_ok allow (name @ [ch]) (hl_store (ngx_tolower ch) r)"
proof -
  let ?n = "length name" and ?l = "lowcase_header r"
  have l: "length ?l = 32" using assms(1) by (simp add: name_ok_def NGX_HTTP_LC_HEADER_LEN_def)
  have "take (Suc ?n) (?l[?n := c]) = take ?n ?l @ [c]" if "Suc ?n \<le> 32" for c
    using that l by (simp add: take_Suc_conv_app_nth)
  moreover have "Suc ?n \<le> 32 \<Longrightarrow> ?n mod 32 = ?n" by simp
  ultimately show ?thesis
    using assms name_char_text [OF assms(2)] by (auto simp: name_ok_def hl_store_def line_text_snoc name_hash_def
        NGX_HTTP_LC_HEADER_LEN_def mod_Suc_eq)
qed

lemma name_ok_invalid:
  "name_ok allow name r \<Longrightarrow> ch \<noteq> chr_nul \<Longrightarrow> ch \<noteq> chr_cr \<Longrightarrow> ch \<noteq> chr_lf \<Longrightarrow>
     name_ok allow (name @ [ch]) (r\<lparr>invalid_header := True\<rparr>)"
  by (auto simp: name_ok_def line_text_snoc)

subsection \<open>The invariant of the parse\<close>

text \<open>A value between two offsets: no control bytes, no space at either end.\<close>

definition value_ok :: "byte list \<Rightarrow> nat \<Rightarrow> nat \<Rightarrow> bool" where
  "value_ok buf a b \<longleftrightarrow>
     a \<le> b \<and> line_text (segment buf a b) \<and>
     (a < b \<longrightarrow> buf ! a \<noteq> chr_space \<and> buf ! (b - 1) \<noteq> chr_space)"

definition named :: "bool \<Rightarrow> byte list \<Rightarrow> nat \<Rightarrow> header_line \<Rightarrow> bool" where
  "named allow buf b r \<longleftrightarrow>
     header_name_start r < b \<and> name_ok allow (segment buf (header_name_start r) b) r"

fun hl_state_inv :: "hl_state \<Rightarrow> bool \<Rightarrow> byte list \<Rightarrow> nat \<Rightarrow> header_line \<Rightarrow> bool" where
  "hl_state_inv hl_name allow buf p r = named allow buf p r"
| "hl_state_inv hl_space_before_value allow buf p r =
     (named allow buf (header_name_end r) r \<and> header_name_end r < p)"
| "hl_state_inv hl_value allow buf p r =
     (named allow buf (header_name_end r) r \<and> header_name_end r < header_start r \<and>
      header_start r < p \<and> value_ok buf (header_start r) p)"
| "hl_state_inv hl_space_after_value allow buf p r =
     (named allow buf (header_name_end r) r \<and> header_name_end r < header_start r \<and>
      header_start r < header_end r \<and> header_end r < p \<and> value_ok buf (header_start r) (header_end r) \<and>
      line_text (segment buf (header_start r) p))"
| "hl_state_inv hl_almost_done allow buf p r =
     (named allow buf (header_name_end r) r \<and> header_name_end r \<le> header_start r \<and>
      header_end r < p \<and> value_ok buf (header_start r) (header_end r))"
| "hl_state_inv _ allow buf p r = True"

definition hl_inv :: "bool \<Rightarrow> byte list \<Rightarrow> nat \<Rightarrow> header_line \<Rightarrow> bool" where
  "hl_inv allow buf p r \<longleftrightarrow>
     length (lowcase_header r) = NGX_HTTP_LC_HEADER_LEN \<and> hl_state_inv (hdr_state r) allow buf p r"

definition hl_post :: "bool \<Rightarrow> byte list \<Rightarrow> hl_result \<Rightarrow> bool" where
  "hl_post allow buf res =
     (case res of
        Header_line r pos \<Rightarrow>
          named allow buf (header_name_end r) r \<and> header_name_end r \<le> header_start r \<and>
          header_end r < pos \<and> pos \<le> length buf \<and> value_ok buf (header_start r) (header_end r) \<and>
          header_hash r = cur_hash r \<and> lowcase_index r = cur_index r
      | _ \<Rightarrow> True)"

lemma name_ok_fields [simp]:
  "name_ok allow name (r\<lparr>hdr_state := st\<rparr>) = name_ok allow name r"
  "name_ok allow name (r\<lparr>header_hash := h\<rparr>) = name_ok allow name r"
  "name_ok allow name (r\<lparr>lowcase_index := i\<rparr>) = name_ok allow name r"
  "name_ok allow name (r\<lparr>header_name_end := k\<rparr>) = name_ok allow name r"
  "name_ok allow name (r\<lparr>header_start := k\<rparr>) = name_ok allow name r"
  "name_ok allow name (r\<lparr>header_end := k\<rparr>) = name_ok allow name r"
  by (simp_all add: name_ok_def)

lemma value_ok_empty [simp]: "value_ok buf a a"
  by (simp add: value_ok_def line_text_def)

lemma value_ok_Suc:
  assumes "value_ok buf a p" and "p < length buf" and "buf ! p \<noteq> chr_space"
    and "buf ! p \<noteq> chr_nul" and "buf ! p \<noteq> chr_cr" and "buf ! p \<noteq> chr_lf"
  shows "value_ok buf a (Suc p)"
  using assms by (auto simp: value_ok_def segment_Suc line_text_snoc less_Suc_eq)

lemma value_ok_text: "value_ok buf a b \<Longrightarrow> line_text (segment buf a b)"
  by (simp add: value_ok_def)

lemma value_ok_more:
  assumes "value_ok buf a b" and "a < b" and "b < p" and "line_text (segment buf a p)"
    and "p < length buf" and "buf ! p \<noteq> chr_space"
    and "buf ! p \<noteq> chr_nul" and "buf ! p \<noteq> chr_cr" and "buf ! p \<noteq> chr_lf"
  shows "value_ok buf a (Suc p)"
  using assms by (auto simp: value_ok_def segment_Suc line_text_snoc)

lemma hl_step_start_inv:
  assumes "p < length buf" and "length (lowcase_header r) = NGX_HTTP_LC_HEADER_LEN" and "hdr_state r = hl_start"
  shows "hl_step upstream allow buf p (buf ! p) r = Next r' \<Longrightarrow> hl_inv allow buf (Suc p) r'"
    and "hl_step upstream allow buf p (buf ! p) r = Stop res \<Longrightarrow> hl_post allow buf res"
proof -
  let ?r = "r\<lparr>header_name_start := p, invalid_header := False, hdr_state := hl_name\<rparr>"
  have one: "segment buf p (Suc p) = [buf ! p]" using assms(1) by (simp add: segment_Suc)
  have first: "name_ok allow [buf ! p] (hl_first (ngx_tolower (buf ! p)) ?r)"
    if "name_char allow (buf ! p)"
    using that assms(2) by (intro name_ok_first) simp_all
  have inv: "name_ok allow [buf ! p] (?r\<lparr>invalid_header := True\<rparr>)"
    if "buf ! p \<noteq> chr_nul" "buf ! p \<noteq> chr_cr" "buf ! p \<noteq> chr_lf"
    using that assms(2) by (simp add: name_ok_def line_text_def)
  show "hl_step upstream allow buf p (buf ! p) r = Next r' \<Longrightarrow> hl_inv allow buf (Suc p) r'"
    using assms first inv one lowcase_tolower [of "buf ! p"] lowcase_controls
    by (auto simp: hl_step_def Let_def hl_inv_def named_def name_char_def tolower_underscore hl_header_done_def
        split: if_splits)
  show "hl_step upstream allow buf p (buf ! p) r = Stop res \<Longrightarrow> hl_post allow buf res"
    using assms by (auto simp: hl_step_def Let_def hl_header_done_def hl_post_def split: if_splits)
qed

lemma hl_step_name_inv:
  assumes "p < length buf" and "named allow buf p r" and "hdr_state r = hl_name"
  shows "hl_step upstream allow buf p (buf ! p) r = Next r' \<Longrightarrow> hl_inv allow buf (Suc p) r'"
    and "hl_step upstream allow buf p (buf ! p) r = Stop res \<Longrightarrow> hl_post allow buf res"
proof -
  let ?a = "header_name_start r"
  have a: "?a < p" and ok: "name_ok allow (segment buf ?a p) r" using assms(2) by (simp_all add: named_def)
  have len: "length (lowcase_header r) = NGX_HTTP_LC_HEADER_LEN" using ok by (simp add: name_ok_def)
  have snoc: "segment buf ?a (Suc p) = segment buf ?a p @ [buf ! p]"
    using assms(1) a by (simp add: segment_Suc)
  have store: "name_ok allow (segment buf ?a (Suc p)) (hl_store (ngx_tolower (buf ! p)) r)"
    if "name_char allow (buf ! p)"
    unfolding snoc using ok that by (rule name_ok_store)
  have inv: "name_ok allow (segment buf ?a (Suc p)) (r\<lparr>invalid_header := True\<rparr>)"
    if "buf ! p \<noteq> chr_nul" "buf ! p \<noteq> chr_cr" "buf ! p \<noteq> chr_lf"
    unfolding snoc using ok that by (rule name_ok_invalid)
  show "hl_step upstream allow buf p (buf ! p) r = Next r' \<Longrightarrow> hl_inv allow buf (Suc p) r'"
    using assms(3) a len ok store inv lowcase_tolower [of "buf ! p"]
    by (auto simp: hl_step_def Let_def hl_inv_def named_def name_char_def tolower_underscore hl_done_def
        split: if_splits)
  show "hl_step upstream allow buf p (buf ! p) r = Stop res \<Longrightarrow> hl_post allow buf res"
    using assms a ok by (auto simp: hl_step_def Let_def hl_done_def hl_post_def named_def split: if_splits)
qed

lemma hl_step_other_inv:
  assumes "p < length buf" and "hl_inv allow buf p r" and "hdr_state r \<noteq> hl_start" and "hdr_state r \<noteq> hl_name"
  shows "hl_step upstream allow buf p (buf ! p) r = Next r' \<Longrightarrow> hl_inv allow buf (Suc p) r'"
    and "hl_step upstream allow buf p (buf ! p) r = Stop res \<Longrightarrow> hl_post allow buf res"
proof -
  let ?a = "header_start r"
  note suc = value_ok_Suc [OF _ assms(1), of ?a] value_ok_Suc [OF value_ok_empty assms(1)]
  note more = value_ok_more [of buf ?a "header_end r" p, OF _ _ _ _ assms(1)]
  have snoc: "?a \<le> p \<Longrightarrow> segment buf ?a (Suc p) = segment buf ?a p @ [buf ! p]"
    using assms(1) by (simp add: segment_Suc)
  show "hl_step upstream allow buf p (buf ! p) r = Next r' \<Longrightarrow> hl_inv allow buf (Suc p) r'"
    using assms suc snoc more value_ok_text [of buf ?a p] unfolding hl_inv_def hl_step_def
    by (cases "hdr_state r") (auto simp: Let_def named_def hl_done_def hl_header_done_def line_text_snoc
        less_Suc_eq split: if_splits)
  show "hl_step upstream allow buf p (buf ! p) r = Stop res \<Longrightarrow> hl_post allow buf res"
    using assms unfolding hl_inv_def hl_step_def
    by (cases "hdr_state r")
      (auto simp: Let_def hl_done_def hl_header_done_def hl_post_def named_def split: if_splits)
qed

lemma hl_step_inv:
  assumes "p < length buf" and "hl_inv allow buf p r"
  shows "hl_step upstream allow buf p (buf ! p) r = Next r' \<Longrightarrow> hl_inv allow buf (Suc p) r'"
    and "hl_step upstream allow buf p (buf ! p) r = Stop res \<Longrightarrow> hl_post allow buf res"
proof -
  consider "hdr_state r = hl_start" | "hdr_state r = hl_name" | "hdr_state r \<noteq> hl_start" "hdr_state r \<noteq> hl_name"
    by blast
  then have "(hl_step upstream allow buf p (buf ! p) r = Next r' \<longrightarrow> hl_inv allow buf (Suc p) r') \<and>
      (hl_step upstream allow buf p (buf ! p) r = Stop res \<longrightarrow> hl_post allow buf res)"
  proof cases
    case 1
    with assms hl_step_start_inv [OF assms(1), of r] show ?thesis by (simp add: hl_inv_def)
  next
    case 2
    with assms hl_step_name_inv [OF assms(1), of allow r] show ?thesis by (simp add: hl_inv_def)
  next
    case 3
    with assms hl_step_other_inv [OF assms] show ?thesis by blast
  qed
  then show "hl_step upstream allow buf p (buf ! p) r = Next r' \<Longrightarrow> hl_inv allow buf (Suc p) r'"
    and "hl_step upstream allow buf p (buf ! p) r = Stop res \<Longrightarrow> hl_post allow buf res" by blast+
qed

interpretation hl: scan_invariant "hl_step upstream allow buf" buf "hl_inv allow buf" "hl_post allow buf"
  for upstream allow buf
  by unfold_locales (fact hl_step_inv)+

text \<open>A request at the start of a header line.\<close>

definition hl_ready :: "header_line \<Rightarrow> bool" where
  "hl_ready r \<longleftrightarrow> hdr_state r = hl_start \<and> length (lowcase_header r) = NGX_HTTP_LC_HEADER_LEN"

lemma header_line_post:
  assumes "ngx_http_parse_header_line upstream allow buf pos r = Stop res" and "hl_ready r" and "pos \<le> length buf"
  shows "hl_post allow buf res"
proof -
  have "hl_inv allow buf pos (r\<lparr>cur_hash := header_hash r, cur_index := lowcase_index r\<rparr>)"
    using assms(2) by (simp add: hl_inv_def hl_ready_def)
  from hl.scan_stop [OF this assms(3)] assms(1) show ?thesis
    by (simp add: ngx_http_parse_header_line_def split: progress.splits)
qed

definition hl_init :: header_line where
  "hl_init =
     \<lparr>hdr_state = hl_start, cur_hash = 0, cur_index = 0, header_hash = 0, lowcase_index = 0,
      lowcase_header = replicate 32 0, header_name_start = 0, header_name_end = 0, header_start = 0,
      header_end = 0, invalid_header = False\<rparr>"

text \<open>The name and the value of an accepted header line lie in the buffer, in this order, and hold no
  zero, carriage return or line feed; the name is not empty and the value has no space at either
  end.\<close>

theorem header_line_text:
  assumes "ngx_http_parse_header_line upstream allow buf pos r = Stop (Header_line r' pos')"
    and "hl_ready r" and "pos \<le> length buf"
  shows "header_name_start r' < header_name_end r' \<and> header_name_end r' \<le> header_start r' \<and>
    header_start r' \<le> header_end r' \<and> header_end r' < pos' \<and> pos' \<le> length buf \<and>
    line_text (segment buf (header_name_start r') (header_name_end r')) \<and>
    value_ok buf (header_start r') (header_end r')"
  using header_line_post [OF assms] by (auto simp: hl_post_def named_def name_ok_def value_ok_def)

lemma header_line_example:
  "ngx_http_parse_header_line False False (bytes_of ''Host: a b '' @ [chr_cr, chr_lf]) 0 hl_init =
     Stop (Header_line (hl_init\<lparr>cur_hash := name_hash (bytes_of ''Host''), cur_index := 4,
       header_hash := name_hash (bytes_of ''Host''), lowcase_index := 4,
       lowcase_header := bytes_of ''host'' @ replicate 28 0, header_name_end := 4, header_start := 6,
       header_end := 9\<rparr>) 12)"
  by code_simp

lemma hl_ready_init: "hl_ready hl_init"
  by (simp add: hl_ready_def hl_init_def NGX_HTTP_LC_HEADER_LEN_def)

theorem header_line_text_witness:
  "line_text (bytes_of ''Host'') \<and> value_ok (bytes_of ''Host: a b '' @ [chr_cr, chr_lf]) 6 9"
  using header_line_text [OF header_line_example hl_ready_init]
  by (simp add: bytes_of_def segment_def hl_init_def)

text \<open>C26. The name of an accepted line that is not marked as invalid consists of letters, digits and hyphens
  (and underscores where they are allowed); the hash kept for the lookup is that of the name in
  lower case, and the copy in lower case is the name when it has at most 32 characters.\<close>

theorem header_line_name:
  assumes "ngx_http_parse_header_line upstream allow buf pos r = Stop (Header_line r' pos')"
    and "hl_ready r" and "pos \<le> length buf" and "\<not> invalid_header r'"
  shows "let name = segment buf (header_name_start r') (header_name_end r') in
    list_all (name_char allow) name \<and> header_hash r' = name_hash name \<and>
    lowcase_index r' = length name mod NGX_HTTP_LC_HEADER_LEN \<and>
    (length name \<le> NGX_HTTP_LC_HEADER_LEN \<longrightarrow>
      take (length name) (lowcase_header r') = map ngx_tolower name)"
  using header_line_post [OF assms(1-3)] assms(4) by (simp add: hl_post_def named_def name_ok_def Let_def)

theorem header_line_name_witness:
  "list_all (name_char False) (bytes_of ''Host'')"
  using header_line_name [OF header_line_example hl_ready_init]
  by (simp add: bytes_of_def segment_def hl_init_def)

end
