(* ===== verification/Http_Chunked.thy ===== *)
theory Http_Chunked
  imports Http_Scan Ngx_Atoi
begin

section \<open>The chunked transfer coding\<close>

text \<open>
  \<^verbatim>\<open>ngx_http_parse_chunked\<close> of \<^verbatim>\<open>src/http/ngx_http_parse.c\<close>. The parser is given the
  bytes from \<^verbatim>\<open>b->pos\<close> to \<^verbatim>\<open>b->last\<close> and returns those that it leaves; its state is kept in the
  record \<open>chunked\<close> from one buffer to the next.
\<close>

datatype chunk_state =
    ch_start | ch_size_digits | ch_extension | ch_extension_almost_done | ch_data | ch_after_data
  | ch_after_data_almost_done | ch_last_extension | ch_last_extension_almost_done | ch_trailer
  | ch_trailer_almost_done | ch_trailer_header | ch_trailer_header_almost_done

record chunked =
  ch_state :: chunk_state
  ch_size :: int
  ch_length :: int

datatype chunk_stop = Chunk_data | Chunk_done | Chunk_invalid

type_synonym chunk_progress = "(chunked, chunk_stop) progress"

text \<open>The two tests for a hexadecimal digit.\<close>

definition hex_nibble :: "byte \<Rightarrow> int option" where
  "hex_nibble ch =
     (if chr_0 \<le> ch \<and> ch \<le> chr_9 then Some (int (unat ch) - 48)
      else
        let c = ch OR 0x20 in
        if chr_a \<le> c \<and> c \<le> chr_f then Some (int (unat c) - 97 + 10) else None)"

fun chunk_case :: "chunk_state \<Rightarrow> byte \<Rightarrow> chunked \<Rightarrow> chunk_progress" where
  "chunk_case ch_start ch ctx =
     (case hex_nibble ch of
        Some d \<Rightarrow> Next (ctx\<lparr>ch_state := ch_size_digits, ch_size := d\<rparr>)
      | None \<Rightarrow> Stop Chunk_invalid)"
| "chunk_case ch_size_digits ch ctx =
     (if NGX_MAX_OFF_T_VALUE div 16 < ch_size ctx then Stop Chunk_invalid
      else case hex_nibble ch of
        Some d \<Rightarrow> Next (ctx\<lparr>ch_size := s64 (ch_size ctx * 16 + d)\<rparr>)
      | None \<Rightarrow>
          if ch_size ctx = 0 then
            (if ch = chr_cr then Next (ctx\<lparr>ch_state := ch_last_extension_almost_done\<rparr>)
             else if ch = chr_lf then Next (ctx\<lparr>ch_state := ch_trailer\<rparr>)
             else if ch = chr_semi \<or> ch = chr_space \<or> ch = chr_tab then
               Next (ctx\<lparr>ch_state := ch_last_extension\<rparr>)
             else Stop Chunk_invalid)
          else if ch = chr_cr then Next (ctx\<lparr>ch_state := ch_extension_almost_done\<rparr>)
          else if ch = chr_lf then Next (ctx\<lparr>ch_state := ch_data\<rparr>)
          else if ch = chr_semi \<or> ch = chr_space \<or> ch = chr_tab then
            Next (ctx\<lparr>ch_state := ch_extension\<rparr>)
          else Stop Chunk_invalid)"
| "chunk_case ch_extension ch ctx =
     (if ch = chr_cr then Next (ctx\<lparr>ch_state := ch_extension_almost_done\<rparr>)
      else if ch = chr_lf then Next (ctx\<lparr>ch_state := ch_data\<rparr>)
      else Next ctx)"
| "chunk_case ch_extension_almost_done ch ctx =
     (if ch = chr_lf then Next (ctx\<lparr>ch_state := ch_data\<rparr>) else Stop Chunk_invalid)"
| "chunk_case ch_data ch ctx = Stop Chunk_data"
| "chunk_case ch_after_data ch ctx =
     (if ch = chr_cr then Next (ctx\<lparr>ch_state := ch_after_data_almost_done\<rparr>)
      else if ch = chr_lf then Next (ctx\<lparr>ch_state := ch_start\<rparr>)
      else Next ctx)"
| "chunk_case ch_after_data_almost_done ch ctx =
     (if ch = chr_lf then Next (ctx\<lparr>ch_state := ch_start\<rparr>) else Stop Chunk_invalid)"
| "chunk_case ch_last_extension ch ctx =
     (if ch = chr_cr then Next (ctx\<lparr>ch_state := ch_last_extension_almost_done\<rparr>)
      else if ch = chr_lf then Next (ctx\<lparr>ch_state := ch_trailer\<rparr>)
      else Next ctx)"
| "chunk_case ch_last_extension_almost_done ch ctx =
     (if ch = chr_lf then Next (ctx\<lparr>ch_state := ch_trailer\<rparr>) else Stop Chunk_invalid)"
| "chunk_case ch_trailer ch ctx =
     (if ch = chr_cr then Next (ctx\<lparr>ch_state := ch_trailer_almost_done\<rparr>)
      else if ch = chr_lf then Stop Chunk_done
      else Next (ctx\<lparr>ch_state := ch_trailer_header\<rparr>))"
| "chunk_case ch_trailer_almost_done ch ctx =
     (if ch = chr_lf then Stop Chunk_done else Stop Chunk_invalid)"
| "chunk_case ch_trailer_header ch ctx =
     (if ch = chr_cr then Next (ctx\<lparr>ch_state := ch_trailer_header_almost_done\<rparr>)
      else if ch = chr_lf then Next (ctx\<lparr>ch_state := ch_trailer\<rparr>)
      else Next ctx)"
| "chunk_case ch_trailer_header_almost_done ch ctx =
     (if ch = chr_lf then Next (ctx\<lparr>ch_state := ch_trailer\<rparr>) else Stop Chunk_invalid)"

text \<open>The loop: where it stops, with the bytes from there on.\<close>

fun chunk_loop :: "byte list \<Rightarrow> chunked \<Rightarrow> (chunked, chunk_stop \<times> chunked \<times> byte list) progress" where
  "chunk_loop [] ctx = Next ctx"
| "chunk_loop (ch # bs) ctx =
     (case chunk_case (ch_state ctx) ch ctx of
        Next ctx' \<Rightarrow> chunk_loop bs ctx'
      | Stop s \<Rightarrow> Stop (s, ctx, ch # bs))"

text \<open>How many bytes are still expected at least.\<close>

fun chunk_length :: "chunk_state \<Rightarrow> int \<Rightarrow> int" where
  "chunk_length ch_start sz = 3"
| "chunk_length ch_size_digits sz = 1 + (if sz \<noteq> 0 then sz + 4 else 1)"
| "chunk_length ch_extension sz = 1 + sz + 4"
| "chunk_length ch_extension_almost_done sz = 1 + sz + 4"
| "chunk_length ch_data sz = sz + 4"
| "chunk_length ch_after_data sz = 4"
| "chunk_length ch_after_data_almost_done sz = 4"
| "chunk_length ch_last_extension sz = 2"
| "chunk_length ch_last_extension_almost_done sz = 2"
| "chunk_length ch_trailer sz = 1"
| "chunk_length ch_trailer_almost_done sz = 1"
| "chunk_length ch_trailer_header sz = 2"
| "chunk_length ch_trailer_header_almost_done sz = 2"

datatype chunked_rc =
    Chunked_ok chunked "byte list"
  | Chunked_again chunked
  | Chunked_done chunked "byte list"
  | Chunked_error

definition chunk_enter :: "chunked \<Rightarrow> chunked" where
  "chunk_enter ctx =
     (if ch_state ctx = ch_data \<and> ch_size ctx = 0 then ctx\<lparr>ch_state := ch_after_data\<rparr> else ctx)"

definition chunk_finish :: "chunked \<Rightarrow> chunked" where
  "chunk_finish ctx = ctx\<lparr>ch_length := chunk_length (ch_state ctx) (ch_size ctx)\<rparr>"

definition ngx_http_parse_chunked :: "byte list \<Rightarrow> chunked \<Rightarrow> chunked_rc" where
  "ngx_http_parse_chunked bs ctx =
     (case chunk_loop bs (chunk_enter ctx) of
        Next ctx \<Rightarrow>
          if NGX_MAX_OFF_T_VALUE - 5 < ch_size ctx then Chunked_error
          else Chunked_again (chunk_finish ctx)
      | Stop (Chunk_data, ctx, rest) \<Rightarrow>
          if NGX_MAX_OFF_T_VALUE - 5 < ch_size ctx then Chunked_error
          else Chunked_ok (chunk_finish ctx) rest
      | Stop (Chunk_done, ctx, rest) \<Rightarrow> Chunked_done (ctx\<lparr>ch_state := ch_start\<rparr>) (tl rest)
      | Stop (Chunk_invalid, ctx, rest) \<Rightarrow> Chunked_error)"

subsection \<open>How far a parse gets\<close>

lemma chunk_case_data: "chunk_case st ch ctx = Stop Chunk_data \<longleftrightarrow> st = ch_data"
  by (cases st) (auto split: if_splits option.splits)

lemma chunk_loop_data:
  "chunk_loop bs ctx = Stop (Chunk_data, ctx', rest) \<Longrightarrow>
     rest \<noteq> [] \<and> ch_state ctx' = ch_data \<and> length rest \<le> length bs \<and>
     (ch_state ctx = ch_data \<longrightarrow> rest = bs \<and> ctx' = ctx) \<and> (ch_state ctx \<noteq> ch_data \<longrightarrow> length rest < length bs)"
proof (induction bs ctx rule: chunk_loop.induct)
  case (2 ch bs ctx)
  show ?case
  proof (cases "chunk_case (ch_state ctx) ch ctx")
    case (Next ctx1)
    then have "ch_state ctx \<noteq> ch_data"
      using chunk_case_data [of "ch_state ctx" ch ctx] by auto
    with "2.IH" [OF Next] "2.prems" Next show ?thesis
      by (cases "ch_state ctx1 = ch_data") auto
  next
    case (Stop s)
    with "2.prems" chunk_case_data [of "ch_state ctx" ch ctx] show ?thesis by auto
  qed
qed simp

lemma parse_chunked_ok_loop:
  "ngx_http_parse_chunked bs ctx = Chunked_ok ctx' rest \<Longrightarrow>
     \<exists>ctx1. chunk_loop bs (chunk_enter ctx) = Stop (Chunk_data, ctx1, rest) \<and> ctx' = chunk_finish ctx1"
  unfolding ngx_http_parse_chunked_def
  by (simp split: progress.splits prod.splits chunk_stop.splits if_splits)

lemma parse_chunked_ok:
  assumes "ngx_http_parse_chunked bs ctx = Chunked_ok ctx' rest"
  shows "rest \<noteq> [] \<and> ch_state ctx' = ch_data \<and> length rest \<le> length bs \<and>
     (ch_state ctx = ch_data \<and> ch_size ctx \<noteq> 0 \<longrightarrow> rest = bs \<and> ch_size ctx' = ch_size ctx) \<and>
     (ch_state ctx \<noteq> ch_data \<or> ch_size ctx = 0 \<longrightarrow> length rest < length bs)"
proof -
  from parse_chunked_ok_loop [OF assms] obtain ctx1
    where loop: "chunk_loop bs (chunk_enter ctx) = Stop (Chunk_data, ctx1, rest)"
      and ctx': "ctx' = chunk_finish ctx1" by blast
  show ?thesis
    using chunk_loop_data [OF loop]
    by (cases "ch_state ctx = ch_data \<and> ch_size ctx = 0") (auto simp: ctx' chunk_finish_def chunk_enter_def)
qed

end
