(* ===== verification/Http_Body_Filter.thy ===== *)
theory Http_Body_Filter
  imports Http_Chunked
begin

section \<open>The filter of a chunked request body\<close>

text \<open>
  \<^verbatim>\<open>ngx_http_request_body_chunked_filter\<close> of \<^verbatim>\<open>src/http/ngx_http_request_body.c\<close>: the loop over one
  buffer, which cuts the data of the chunks out of it. It is modelled without the failure of an
  allocation, and the buffers it appends to its output are kept as their bytes. The loop is shown to be
  an implementation of a machine that reads one byte at a time (\<open>dechunk\<close>), so that what arrives in
  which buffer makes no difference, and to give back the body of any message in the chunked coding.
\<close>

datatype body_error = NGX_HTTP_REQUEST_ENTITY_TOO_LARGE | NGX_HTTP_BAD_REQUEST

datatype body_buf = Body_data "byte list" | Body_last

record body_filter =
  body_chunked :: chunked
  body_rest :: int
  content_length_n :: int

text \<open>The state at the first call.\<close>

definition body_start :: body_filter where
  "body_start =
    \<lparr>body_chunked = \<lparr>ch_state = ch_start, ch_size = 0, ch_length = 0\<rparr>, body_rest = 3, content_length_n = 0\<rparr>"

text \<open>The part of the buffer that belongs to the chunk: the bytes sent on, the bytes left, the new state.\<close>

definition chunk_take :: "chunked \<Rightarrow> byte list \<Rightarrow> body_filter \<Rightarrow> byte list \<times> byte list \<times> body_filter" where
  "chunk_take ctx bs rb =
     (let sz = int (length bs) in
      if ch_size ctx < sz then
        (take (nat (ch_size ctx)) bs, drop (nat (ch_size ctx)) bs,
         rb\<lparr>content_length_n := content_length_n rb + ch_size ctx,
            body_chunked := ctx\<lparr>ch_size := 0\<rparr>\<rparr>)
      else
        (bs, [],
         rb\<lparr>content_length_n := content_length_n rb + sz,
            body_chunked := ctx\<lparr>ch_size := ch_size ctx - sz\<rparr>\<rparr>))"

text \<open>The inner loop on one buffer: the buffers sent on, the bytes left, the new state.\<close>

function chunked_filter_buf ::
  "int \<Rightarrow> byte list \<Rightarrow> body_filter \<Rightarrow> body_error + body_buf list \<times> byte list \<times> body_filter" where
  "chunked_filter_buf client_max_body_size bs rb =
     (case ngx_http_parse_chunked bs (body_chunked rb) of
        Chunked_ok ctx rest \<Rightarrow>
          if client_max_body_size \<noteq> 0 \<and> client_max_body_size - content_length_n rb < ch_size ctx
          then Inl NGX_HTTP_REQUEST_ENTITY_TOO_LARGE
          else
            case chunk_take ctx rest rb of (data, rest, rb) \<Rightarrow>
              (case chunked_filter_buf client_max_body_size rest rb of
                  Inl e \<Rightarrow> Inl e
                | Inr (out, left, rb) \<Rightarrow> Inr (Body_data data # out, left, rb))
      | Chunked_done ctx rest \<Rightarrow>
          Inr ([Body_last], rest, rb\<lparr>body_rest := 0, body_chunked := ctx\<rparr>)
      | Chunked_again ctx \<Rightarrow>
          Inr ([], [], rb\<lparr>body_rest := ch_length ctx, body_chunked := ctx\<rparr>)
      | Chunked_error \<Rightarrow> Inl NGX_HTTP_BAD_REQUEST)"
  by pat_completeness auto

termination
proof (relation "measures [\<lambda>(mx, bs, rb). length bs,
    \<lambda>(mx, bs, rb). if ch_state (body_chunked rb) = ch_data \<and> ch_size (body_chunked rb) \<noteq> 0 then 1 else 0]",
    goal_cases)
  case 1
  then show ?case by simp
next
  case (2 mx bs rb ctx rest data q rest' rb')
  note ok = parse_chunked_ok [OF 2(1)]
  from 2(3,4) have taken: "chunk_take ctx rest rb = (data, rest', rb')" by simp
  show ?case
  proof (cases "ch_size ctx < int (length rest)")
    case True
    with taken have "rest' = drop (nat (ch_size ctx)) rest" "ch_size (body_chunked rb') = 0"
      by (auto simp: chunk_take_def Let_def)
    with ok show ?thesis
      by (cases "nat (ch_size ctx)") auto
  next
    case False
    with taken have "rest' = []"
      by (auto simp: chunk_take_def Let_def)
    with ok show ?thesis by auto
  qed
qed

subsection \<open>The machine on bytes\<close>

text \<open>
  The parser with all but the expected length, in the state in which it meets the next byte; and what the
  filter does on one byte: the data, what is left after the end of the message, whether it has ended.
\<close>

type_synonym dechunked = "body_error + (byte list \<times> byte list \<times> bool \<times> chunked \<times> int)"

definition chunk_core :: "chunked \<Rightarrow> chunked" where
  "chunk_core ctx = (chunk_enter ctx)\<lparr>ch_length := 0\<rparr>"

definition chunk_too_long :: "chunked \<Rightarrow> bool" where
  "chunk_too_long ctx \<longleftrightarrow> NGX_MAX_OFF_T_VALUE - 5 < ch_size ctx"

fun add_data :: "byte list \<Rightarrow> dechunked \<Rightarrow> dechunked" where
  "add_data d (Inl e) = Inl e"
| "add_data d (Inr (out, res)) = Inr (d @ out, res)"

fun dechunk :: "int \<Rightarrow> byte list \<Rightarrow> chunked \<Rightarrow> int \<Rightarrow> dechunked" where
  "dechunk mx [] ctx n = Inr ([], [], False, ctx, n)"
| "dechunk mx (ch # bs) ctx n =
     (if ch_state ctx = ch_data then
        if mx \<noteq> 0 \<and> mx - n < ch_size ctx then Inl NGX_HTTP_REQUEST_ENTITY_TOO_LARGE
        else add_data [ch] (dechunk mx bs (chunk_core (ctx\<lparr>ch_size := ch_size ctx - 1\<rparr>)) (n + 1))
      else
        case chunk_case (ch_state ctx) ch ctx of
          Next ctx' \<Rightarrow> if chunk_too_long ctx' then Inl NGX_HTTP_BAD_REQUEST else dechunk mx bs ctx' n
        | Stop Chunk_done \<Rightarrow> Inr ([], bs, True, ctx\<lparr>ch_state := ch_start\<rparr>, n)
        | Stop _ \<Rightarrow> Inl NGX_HTTP_BAD_REQUEST)"

lemma add_data_add_data [simp]: "add_data d (add_data d' r) = add_data (d @ d') r"
  by (cases r) auto

lemma add_data_Nil [simp]: "add_data [] r = r"
  by (cases r) auto

lemma dechunk_append:
  "dechunk mx (a @ b) ctx n =
     (case dechunk mx a ctx n of
        Inl e \<Rightarrow> Inl e
      | Inr (out, left, fin, ctx', n') \<Rightarrow>
          if fin then Inr (out, left @ b, fin, ctx', n') else add_data out (dechunk mx b ctx' n'))"
proof (induction mx a ctx n rule: dechunk.induct)
  case (2 mx ch bs ctx n)
  have add: "(case add_data [ch] r of Inl e \<Rightarrow> Inl e
      | Inr (out, left, fin, ctx', n') \<Rightarrow>
          if fin then Inr (out, left @ b, fin, ctx', n') else add_data out (dechunk mx b ctx' n')) =
    add_data [ch] (case r of Inl e \<Rightarrow> Inl e
      | Inr (out, left, fin, ctx', n') \<Rightarrow>
          if fin then Inr (out, left @ b, fin, ctx', n') else add_data out (dechunk mx b ctx' n'))" for r
    by (cases r) (auto split: prod.split)
  show ?case
  proof (cases "ch_state ctx = ch_data")
    case True
    with 2 add show ?thesis by simp
  next
    case False
    with 2 show ?thesis by (auto split: progress.split chunk_stop.split)
  qed
qed simp

text \<open>The length that the parser computes has no effect on it.\<close>

fun drop_length :: "chunk_progress \<Rightarrow> chunk_progress" where
  "drop_length (Next ctx) = Next (ctx\<lparr>ch_length := 0\<rparr>)"
| "drop_length (Stop s) = Stop s"

lemma chunk_case_length: "chunk_case st ch (ctx\<lparr>ch_length := 0\<rparr>) = drop_length (chunk_case st ch ctx)"
  by (cases st) (auto split: option.split)

lemma chunk_loop_length:
  "chunk_loop bs (ctx\<lparr>ch_length := 0\<rparr>) =
     (case chunk_loop bs ctx of
        Next ctx' \<Rightarrow> Next (ctx'\<lparr>ch_length := 0\<rparr>)
      | Stop (s, ctx', rest) \<Rightarrow> Stop (s, ctx'\<lparr>ch_length := 0\<rparr>, rest))"
  by (induction bs ctx rule: chunk_loop.induct) (auto simp: chunk_case_length split: progress.split)

text \<open>What holds of the state of the parser in which a byte is met.\<close>

definition chunk_ok :: "chunked \<Rightarrow> bool" where
  "chunk_ok ctx \<longleftrightarrow> 0 \<le> ch_size ctx \<and>
     (ch_state ctx \<in> {ch_extension, ch_extension_almost_done, ch_data} \<longrightarrow> 0 < ch_size ctx)"

lemma hex_nibble_range: "hex_nibble ch = Some d \<Longrightarrow> 0 \<le> d \<and> d \<le> 15"
  by (induct ch rule: byte_all) (simp_all add: hex_nibble_def Let_def)

lemma chunk_case_ok:
  assumes "chunk_ok ctx" "chunk_case (ch_state ctx) ch ctx = Next ctx'"
  shows "chunk_ok ctx'"
proof (cases "ch_state ctx")
  case ch_size_digits
  show ?thesis
  proof (cases "hex_nibble ch")
    case None
    with assms ch_size_digits show ?thesis by (auto simp: chunk_ok_def split: if_splits)
  next
    case (Some d)
    with ch_size_digits assms have "ctx' = ctx\<lparr>ch_size := ch_size ctx * 16 + d\<rparr>"
      using hex_nibble_range [OF Some] by (auto simp: chunk_ok_def split: if_splits)
    with assms ch_size_digits hex_nibble_range [OF Some] show ?thesis by (simp add: chunk_ok_def)
  qed
qed (use assms in \<open>auto simp: chunk_ok_def dest: hex_nibble_range split: if_splits option.splits\<close>)

lemma chunk_loop_ok:
  assumes "chunk_ok ctx"
  shows "case chunk_loop bs ctx of Next ctx' \<Rightarrow> chunk_ok ctx' | Stop (s, ctx', rest) \<Rightarrow> chunk_ok ctx'"
  using assms
proof (induction bs ctx rule: chunk_loop.induct)
  case (2 ch bs ctx)
  then show ?case
    using chunk_case_ok [of ctx ch] by (cases "chunk_case (ch_state ctx) ch ctx") auto
qed simp

text \<open>A size that is too long never leads to the end of a message.\<close>

lemma chunk_case_too_long:
  assumes "chunk_ok ctx" "chunk_too_long ctx" "ch_state ctx \<in> {ch_size_digits, ch_extension, ch_extension_almost_done, ch_data}"
  shows "case chunk_case (ch_state ctx) ch ctx of
      Next ctx' \<Rightarrow> chunk_too_long ctx' \<and> chunk_ok ctx' \<and>
        ch_state ctx' \<in> {ch_size_digits, ch_extension, ch_extension_almost_done, ch_data}
    | Stop s \<Rightarrow> s \<noteq> Chunk_done"
  using assms by (auto simp: chunk_too_long_def chunk_ok_def split: option.split)

lemma chunk_loop_too_long:
  assumes "chunk_ok ctx" "chunk_too_long ctx" "ch_state ctx \<in> {ch_size_digits, ch_extension, ch_extension_almost_done, ch_data}"
  shows "case chunk_loop bs ctx of
      Next ctx' \<Rightarrow> chunk_too_long ctx'
    | Stop (s, ctx', rest) \<Rightarrow> chunk_too_long ctx' \<and> s \<noteq> Chunk_done"
  using assms
proof (induction bs ctx rule: chunk_loop.induct)
  case (2 ch bs ctx)
  show ?case
    using chunk_case_too_long [OF "2.prems", of ch] 2
    by (cases "chunk_case (ch_state ctx) ch ctx") auto
qed simp

lemma chunk_case_becomes_too_long:
  assumes "chunk_case (ch_state ctx) ch ctx = Next ctx'" "chunk_too_long ctx'" "\<not> chunk_too_long ctx"
  shows "ch_state ctx' \<in> {ch_size_digits, ch_extension, ch_extension_almost_done, ch_data}"
  using assms
  by (cases "ch_state ctx") (auto simp: chunk_too_long_def dest: hex_nibble_range split: if_splits option.splits)

text \<open>What the loop of the parser does, on bytes.\<close>

lemma dechunk_loop:
  assumes "chunk_ok ctx" "\<not> chunk_too_long ctx"
  shows "case chunk_loop bs ctx of
      Next ctx' \<Rightarrow> chunk_ok ctx' \<and>
        dechunk mx bs ctx n = (if chunk_too_long ctx' then Inl NGX_HTTP_BAD_REQUEST else Inr ([], [], False, ctx', n))
    | Stop (s, ctx', rest) \<Rightarrow> chunk_ok ctx' \<and>
        dechunk mx bs ctx n =
          (case s of
             Chunk_data \<Rightarrow> if chunk_too_long ctx' then Inl NGX_HTTP_BAD_REQUEST else dechunk mx rest ctx' n
           | Chunk_done \<Rightarrow> Inr ([], tl rest, True, ctx'\<lparr>ch_state := ch_start\<rparr>, n)
           | Chunk_invalid \<Rightarrow> Inl NGX_HTTP_BAD_REQUEST)"
  using assms
proof (induction bs ctx rule: chunk_loop.induct)
  case (2 ch bs ctx)
  show ?case
  proof (cases "chunk_case (ch_state ctx) ch ctx")
    case (Stop s)
    with 2 chunk_case_data [of "ch_state ctx" ch ctx] show ?thesis by (cases s) auto
  next
    case (Next ctx1)
    then have nd: "ch_state ctx \<noteq> ch_data" by auto
    have ok1: "chunk_ok ctx1" by (rule chunk_case_ok [OF "2.prems"(1) Next])
    show ?thesis
    proof (cases "chunk_too_long ctx1")
      case False
      with "2.IH" [OF Next ok1 False] nd Next show ?thesis
        by (auto split: progress.splits chunk_stop.splits)
    next
      case True
      have st: "ch_state ctx1 \<in> {ch_size_digits, ch_extension, ch_extension_almost_done, ch_data}"
        by (rule chunk_case_becomes_too_long [OF Next True "2.prems"(2)])
      have "chunk_loop bs ctx1 = Next c \<Longrightarrow> chunk_ok c" "chunk_loop bs ctx1 = Stop (s, c, r) \<Longrightarrow> chunk_ok c" for c s r
        using chunk_loop_ok [of ctx1 bs] ok1 by auto
      with chunk_loop_too_long [OF ok1 True st, of bs] nd Next True show ?thesis
        by (auto split: progress.splits chunk_stop.splits)
    qed
  qed
qed simp

lemma chunk_core_size [simp]:
  "0 < ch_size ctx \<Longrightarrow> chunk_core ctx = ctx\<lparr>ch_length := 0\<rparr>"
  by (simp add: chunk_core_def chunk_enter_def)

lemma dechunk_take:
  assumes "ch_state ctx = ch_data" "0 < ch_size ctx" "ch_length ctx = 0" "bs \<noteq> []"
  shows "dechunk mx bs ctx n =
    (if mx \<noteq> 0 \<and> mx - n < ch_size ctx then Inl NGX_HTTP_REQUEST_ENTITY_TOO_LARGE
     else
       let k = min (nat (ch_size ctx)) (length bs) in
       add_data (take k bs) (dechunk mx (drop k bs) (chunk_core (ctx\<lparr>ch_size := ch_size ctx - int k\<rparr>)) (n + int k)))"
  using assms
proof (induction bs arbitrary: ctx n)
  case (Cons ch bs)
  show ?case
  proof (cases "ch_size ctx = 1 \<or> bs = []")
    case True
    with Cons.prems show ?thesis by (auto simp: Let_def)
  next
    case False
    then have bs: "bs \<noteq> []" and sz: "1 < ch_size ctx" using Cons.prems by auto
    let ?ctx = "ctx\<lparr>ch_size := ch_size ctx - 1\<rparr>"
    define k where "k = min (nat (ch_size ?ctx)) (length bs)"
    have k: "min (nat (ch_size ctx)) (length (ch # bs)) = Suc k" using sz by (simp add: k_def)
    have ctx: "ctx\<lparr>ch_size := ch_size ctx - int (Suc k)\<rparr> = ?ctx\<lparr>ch_size := ch_size ?ctx - int k\<rparr>"
      by simp
    have core: "chunk_core ?ctx = ?ctx" using sz Cons.prems by simp
    have "dechunk mx bs ?ctx (n + 1) =
      (if mx \<noteq> 0 \<and> mx - n < ch_size ctx then Inl NGX_HTTP_REQUEST_ENTITY_TOO_LARGE
       else add_data (take k bs) (dechunk mx (drop k bs)
         (chunk_core (ctx\<lparr>ch_size := ch_size ctx - int (Suc k)\<rparr>)) (n + int (Suc k))))"
      using Cons.IH [of ?ctx "n + 1", OF _ _ _ bs] Cons.prems sz
      unfolding ctx k_def [symmetric] Let_def by (simp add: algebra_simps)
    with Cons.prems(1) core show ?thesis
      unfolding k Let_def
      by (cases "mx \<noteq> 0 \<and> mx - n < ch_size ctx") (simp_all del: of_nat_Suc de_Morgan_conj)
  qed
qed simp


subsection \<open>The filter implements the machine\<close>

text \<open>What the filter did, in the terms of the machine.\<close>

fun buf_data :: "body_buf \<Rightarrow> byte list" where
  "buf_data (Body_data d) = d"
| "buf_data Body_last = []"

fun body_view :: "body_error + body_buf list \<times> byte list \<times> body_filter \<Rightarrow> dechunked" where
  "body_view (Inl e) = Inl e"
| "body_view (Inr (out, left, rb)) =
     Inr (concat (map buf_data out), left, Body_last \<in> set out, chunk_core (body_chunked rb), content_length_n rb)"

definition body_ok :: "body_filter \<Rightarrow> bool" where
  "body_ok rb \<longleftrightarrow> chunk_ok (chunk_core (body_chunked rb)) \<and> \<not> chunk_too_long (body_chunked rb)"

definition dechunk_buf :: "int \<Rightarrow> byte list \<Rightarrow> body_filter \<Rightarrow> dechunked" where
  "dechunk_buf mx bs rb = dechunk mx bs (chunk_core (body_chunked rb)) (content_length_n rb)"

lemma chunk_core_loop:
  "chunk_loop bs (chunk_core ctx) =
     (case chunk_loop bs (chunk_enter ctx) of
        Next ctx' \<Rightarrow> Next (ctx'\<lparr>ch_length := 0\<rparr>)
      | Stop (s, ctx', rest) \<Rightarrow> Stop (s, ctx'\<lparr>ch_length := 0\<rparr>, rest))"
  unfolding chunk_core_def by (rule chunk_loop_length)

lemma chunk_ok_length [simp]:
  "chunk_ok (ctx\<lparr>ch_length := l\<rparr>) = chunk_ok ctx" "chunk_too_long (ctx\<lparr>ch_length := l\<rparr>) = chunk_too_long ctx"
  "chunk_too_long (ctx\<lparr>ch_state := st\<rparr>) = chunk_too_long ctx"
  "chunk_too_long (chunk_core ctx) = chunk_too_long ctx"
  by (simp_all add: chunk_ok_def chunk_too_long_def chunk_core_def chunk_enter_def)

lemma chunk_core_ok:
  "chunk_ok ctx \<Longrightarrow> chunk_core (chunk_finish ctx) = ctx\<lparr>ch_length := 0\<rparr>"
  "chunk_core (ctx\<lparr>ch_state := ch_start\<rparr>) = ctx\<lparr>ch_state := ch_start, ch_length := 0\<rparr>"
  by (auto simp: chunk_core_def chunk_finish_def chunk_enter_def chunk_ok_def)

text \<open>One call of the parser.\<close>

lemma dechunk_parse:
  assumes "body_ok rb"
  shows "dechunk_buf mx bs rb =
    (case ngx_http_parse_chunked bs (body_chunked rb) of
       Chunked_ok ctx rest \<Rightarrow> dechunk mx rest (chunk_core ctx) (content_length_n rb)
     | Chunked_again ctx \<Rightarrow> Inr ([], [], False, chunk_core ctx, content_length_n rb)
     | Chunked_done ctx rest \<Rightarrow> Inr ([], rest, True, chunk_core ctx, content_length_n rb)
     | Chunked_error \<Rightarrow> Inl NGX_HTTP_BAD_REQUEST)"
    and "ngx_http_parse_chunked bs (body_chunked rb) = Chunked_ok ctx rest \<Longrightarrow>
      ch_state ctx = ch_data \<and> 0 < ch_size ctx \<and> \<not> chunk_too_long ctx \<and> rest \<noteq> []"
proof -
  let ?core = "chunk_core (body_chunked rb)" and ?ctx = "chunk_enter (body_chunked rb)"
  have ok: "chunk_ok ?core" "\<not> chunk_too_long ?core" using assms by (simp_all add: body_ok_def)
  have step: "case chunk_loop bs ?ctx of
      Next ctx' \<Rightarrow> chunk_ok ctx' \<and> dechunk_buf mx bs rb =
        (if chunk_too_long ctx' then Inl NGX_HTTP_BAD_REQUEST
         else Inr ([], [], False, ctx'\<lparr>ch_length := 0\<rparr>, content_length_n rb))
    | Stop (s, ctx', rest) \<Rightarrow> chunk_ok ctx' \<and> dechunk_buf mx bs rb =
        (case s of
           Chunk_data \<Rightarrow> if chunk_too_long ctx' then Inl NGX_HTTP_BAD_REQUEST
             else dechunk mx rest (ctx'\<lparr>ch_length := 0\<rparr>) (content_length_n rb)
         | Chunk_done \<Rightarrow> Inr ([], tl rest, True, ctx'\<lparr>ch_state := ch_start, ch_length := 0\<rparr>, content_length_n rb)
         | Chunk_invalid \<Rightarrow> Inl NGX_HTTP_BAD_REQUEST)"
    using dechunk_loop [OF ok, where bs = bs and mx = mx and n = "content_length_n rb"] unfolding chunk_core_loop dechunk_buf_def
    by (auto split: progress.splits chunk_stop.splits prod.splits)
  show "dechunk_buf mx bs rb =
    (case ngx_http_parse_chunked bs (body_chunked rb) of
       Chunked_ok ctx rest \<Rightarrow> dechunk mx rest (chunk_core ctx) (content_length_n rb)
     | Chunked_again ctx \<Rightarrow> Inr ([], [], False, chunk_core ctx, content_length_n rb)
     | Chunked_done ctx rest \<Rightarrow> Inr ([], rest, True, chunk_core ctx, content_length_n rb)
     | Chunked_error \<Rightarrow> Inl NGX_HTTP_BAD_REQUEST)"
  proof (cases "chunk_loop bs ?ctx")
    case (Next ctx')
    with step chunk_core_ok(1) [of ctx'] show ?thesis
      by (simp add: ngx_http_parse_chunked_def chunk_too_long_def)
  next
    case (Stop r)
    obtain s ctx' rest where r: "r = (s, ctx', rest)" by (cases r)
    with step Stop chunk_core_ok(1) [of ctx'] chunk_core_ok(2) [of ctx'] show ?thesis
      by (cases s) (simp_all add: ngx_http_parse_chunked_def chunk_too_long_def)
  qed
  assume parse: "ngx_http_parse_chunked bs (body_chunked rb) = Chunked_ok ctx rest"
  from parse_chunked_ok_loop [OF parse] obtain ctx1
    where loop: "chunk_loop bs ?ctx = Stop (Chunk_data, ctx1, rest)" and ctx: "ctx = chunk_finish ctx1" by blast
  with parse have "\<not> chunk_too_long ctx1"
    by (auto simp: ngx_http_parse_chunked_def chunk_too_long_def split: if_splits)
  with step loop chunk_loop_data [OF loop] ctx
  show "ch_state ctx = ch_data \<and> 0 < ch_size ctx \<and> \<not> chunk_too_long ctx \<and> rest \<noteq> []"
    by (auto simp: chunk_finish_def chunk_ok_def)
qed

lemma chunk_take_view:
  assumes "chunk_take ctx bs rb = (data, left, rb')" "0 < ch_size ctx"
  shows "let k = min (nat (ch_size ctx)) (length bs) in
    data = take k bs \<and> left = drop k bs \<and> content_length_n rb' = content_length_n rb + int k \<and>
    body_chunked rb' = ctx\<lparr>ch_size := ch_size ctx - int k\<rparr>"
  using assms by (auto simp: chunk_take_def Let_def min_def split: if_splits)

text \<open>A chunk that was found.\<close>

lemma dechunk_chunk:
  assumes "ch_state ctx = ch_data" "0 < ch_size ctx" "bs \<noteq> []" "chunk_take ctx bs rb = (data, left, rb')"
  shows "dechunk mx bs (chunk_core ctx) (content_length_n rb) =
    (if mx \<noteq> 0 \<and> mx - content_length_n rb < ch_size ctx then Inl NGX_HTTP_REQUEST_ENTITY_TOO_LARGE
     else add_data data (dechunk_buf mx left rb'))"
proof -
  have core: "chunk_core ctx = ctx\<lparr>ch_length := 0\<rparr>" using assms(2) by simp
  have "chunk_core (ctx\<lparr>ch_length := 0, ch_size := sz\<rparr>) = chunk_core (ctx\<lparr>ch_size := sz\<rparr>)" for sz
    by (simp add: chunk_core_def chunk_enter_def)
  with chunk_take_view [OF assms(4,2)] show ?thesis
    unfolding core dechunk_buf_def Let_def
    by (subst dechunk_take) (use assms in \<open>simp_all add: Let_def\<close>)
qed

lemma body_ok_take:
  assumes "chunk_take ctx bs rb = (data, left, rb')" "0 < ch_size ctx" "ch_state ctx = ch_data" "\<not> chunk_too_long ctx"
  shows "body_ok rb'"
  using assms chunk_take_view [OF assms(1,2)]
  by (auto simp: body_ok_def Let_def chunk_ok_def chunk_too_long_def chunk_core_def chunk_enter_def min_def)

lemma filter_refines:
  "body_ok rb \<Longrightarrow> body_view (chunked_filter_buf mx bs rb) = dechunk_buf mx bs rb"
proof (induction mx bs rb rule: chunked_filter_buf.induct)
  case (1 mx bs rb)
  note parse = dechunk_parse [OF "1.prems"]
  show ?case
  proof (cases "ngx_http_parse_chunked bs (body_chunked rb)")
    case (Chunked_ok ctx rest)
    note ok = parse(2) [OF Chunked_ok]
    show ?thesis
    proof (cases "mx \<noteq> 0 \<and> mx - content_length_n rb < ch_size ctx")
      case True
      with parse(1) [of mx bs] Chunked_ok dechunk_chunk [of ctx rest rb] ok show ?thesis
        by (cases "chunk_take ctx rest rb") auto
    next
      case False
      obtain data left rb' where taken: "chunk_take ctx rest rb = (data, left, rb')"
        by (cases "chunk_take ctx rest rb")
      have "body_view (chunked_filter_buf mx left rb') = dechunk_buf mx left rb'"
        by (rule "1.IH" [OF Chunked_ok False taken [symmetric] refl])
           (use body_ok_take [OF taken] ok in simp)
      moreover have "dechunk_buf mx bs rb = add_data data (dechunk_buf mx left rb')"
        using parse(1) [of mx bs] Chunked_ok dechunk_chunk [OF _ _ _ taken, of mx] ok False by auto
      moreover have "body_view (chunked_filter_buf mx bs rb) =
        add_data data (body_view (chunked_filter_buf mx left rb'))"
        using Chunked_ok False taken
        by (subst chunked_filter_buf.simps) (auto split: sum.split prod.split)
      ultimately show ?thesis by simp
    qed
  next
    case Chunked_again
    with parse(1) [of mx bs] show ?thesis by (subst chunked_filter_buf.simps) simp
  next
    case Chunked_done
    with parse(1) [of mx bs] show ?thesis by (subst chunked_filter_buf.simps) simp
  next
    case Chunked_error
    with parse(1) [of mx bs] show ?thesis by (subst chunked_filter_buf.simps) simp
  qed
qed

text \<open>The invariant of the state is kept.\<close>

lemma dechunk_ok:
  "dechunk mx bs ctx n = Inr (out, left, fin, ctx', n') \<Longrightarrow> chunk_ok ctx \<Longrightarrow> \<not> chunk_too_long ctx \<Longrightarrow>
     chunk_ok ctx' \<and> \<not> chunk_too_long ctx' \<and> (mx \<noteq> 0 \<longrightarrow> n \<le> mx \<longrightarrow> n' \<le> mx) \<and> n' = n + int (length out) \<and>
     (\<not> fin \<longrightarrow> left = [])"
proof (induction mx bs ctx n arbitrary: out rule: dechunk.induct)
  case (2 mx ch bs ctx n)
  show ?case
  proof (cases "ch_state ctx = ch_data")
    case True
    with 2 have lim: "\<not> (mx \<noteq> 0 \<and> mx - n < ch_size ctx)" by auto
    let ?ctx = "chunk_core (ctx\<lparr>ch_size := ch_size ctx - 1\<rparr>)"
    from True lim "2.prems"(1) obtain out1 where "dechunk mx bs ?ctx (n + 1) = Inr (out1, left, fin, ctx', n')"
      and "out = ch # out1"
      by (cases "dechunk mx bs ?ctx (n + 1)") auto
    moreover have "chunk_ok ?ctx" "\<not> chunk_too_long ?ctx"
      using "2.prems" True by (auto simp: chunk_ok_def chunk_too_long_def chunk_core_def chunk_enter_def)
    ultimately show ?thesis
      using "2.IH"(1) [OF True lim] lim "2.prems"(2) True by (auto simp: chunk_ok_def)
  next
    case False
    show ?thesis
    proof (cases "chunk_case (ch_state ctx) ch ctx")
      case (Next ctx1)
      with "2.prems" False have long: "\<not> chunk_too_long ctx1" by (auto split: if_splits)
      with "2.prems" False Next have "dechunk mx bs ctx1 n = Inr (out, left, fin, ctx', n')" by simp
      with "2.IH"(2) [OF False Next long] chunk_case_ok [OF "2.prems"(2) Next] long show ?thesis by blast
    next
      case (Stop s)
      with 2 False show ?thesis
        by (cases s) (auto simp: chunk_ok_def chunk_too_long_def)
    qed
  qed
qed simp

lemma filter_keeps:
  assumes "body_ok rb" "chunked_filter_buf mx bs rb = Inr (out, left, rb')"
  shows "body_ok rb'" and "content_length_n rb' = content_length_n rb + int (length (concat (map buf_data out)))"
    and "mx \<noteq> 0 \<Longrightarrow> content_length_n rb \<le> mx \<Longrightarrow> content_length_n rb' \<le> mx"
    and "Body_last \<notin> set out \<Longrightarrow> left = []"
proof -
  have "dechunk mx bs (chunk_core (body_chunked rb)) (content_length_n rb) =
    Inr (concat (map buf_data out), left, Body_last \<in> set out, chunk_core (body_chunked rb'), content_length_n rb')"
    using filter_refines [OF assms(1), of mx bs] assms(2) by (simp add: dechunk_buf_def)
  from dechunk_ok [OF this] assms(1)
  show "body_ok rb'" and "content_length_n rb' = content_length_n rb + int (length (concat (map buf_data out)))"
    and "mx \<noteq> 0 \<Longrightarrow> content_length_n rb \<le> mx \<Longrightarrow> content_length_n rb' \<le> mx"
    and "Body_last \<notin> set out \<Longrightarrow> left = []"
    by (auto simp: body_ok_def)
qed

subsection \<open>Messages in the chunked coding\<close>

text \<open>The grammar of RFC 7230, section 4.1, with the blanks that the parser lets stand for an extension.\<close>

abbreviation crlf :: "byte list" where "crlf \<equiv> [chr_cr, chr_lf]"

abbreviation hex_value :: "byte list \<Rightarrow> int" where
  "hex_value ds \<equiv> digits_value 16 hex_digit_value 0 ds"

abbreviation no_crlf :: "byte list \<Rightarrow> bool" where
  "no_crlf bs \<equiv> list_all (\<lambda>c. c \<noteq> chr_cr \<and> c \<noteq> chr_lf) bs"

definition chunk_ext :: "byte list \<Rightarrow> bool" where
  "chunk_ext ext \<longleftrightarrow> ext = [] \<or> hd ext \<in> {chr_semi, chr_space, chr_tab} \<and> no_crlf ext"

definition trailer_line :: "byte list \<Rightarrow> bool" where
  "trailer_line line \<longleftrightarrow> line \<noteq> [] \<and> no_crlf line"

inductive chunked_message :: "byte list \<Rightarrow> byte list \<Rightarrow> bool" where
  last_chunk: "zeros \<noteq> [] \<Longrightarrow> list_all (\<lambda>c. c = chr_0) zeros \<Longrightarrow> chunk_ext ext \<Longrightarrow> list_all trailer_line trailers \<Longrightarrow>
    chunked_message (zeros @ ext @ crlf @ concat (map (\<lambda>l. l @ crlf) trailers) @ crlf) []"
| chunk: "ds \<noteq> [] \<Longrightarrow> list_all hex_digit ds \<Longrightarrow> chunk_ext ext \<Longrightarrow> data \<noteq> [] \<Longrightarrow> hex_value ds = int (length data) \<Longrightarrow>
    chunked_message msg body \<Longrightarrow>
    chunked_message (ds @ ext @ crlf @ data @ crlf @ msg) (data @ body)"

lemma hex_nibble_digit:
  "hex_digit c \<Longrightarrow> hex_nibble c = Some (hex_digit_value c)"
  "c \<in> {chr_cr, chr_lf, chr_semi, chr_space, chr_tab} \<Longrightarrow> hex_nibble c = None"
  by (induct c rule: byte_all; simp add: hex_digit_def hex_digit_value_def hex_nibble_def Let_def)+

text \<open>The lines of the message, with the size of the chunk read.\<close>

abbreviation chunk_at :: "chunk_state \<Rightarrow> int \<Rightarrow> chunked" where
  "chunk_at st sz \<equiv> \<lparr>ch_state = st, ch_size = sz, ch_length = 0\<rparr>"

lemma dechunk_digits:
  "list_all hex_digit ds \<Longrightarrow> 0 \<le> v \<Longrightarrow> digits_value 16 hex_digit_value v ds \<le> NGX_MAX_OFF_T_VALUE div 16 \<Longrightarrow>
     dechunk mx (ds @ bs) (chunk_at ch_size_digits v) n =
       dechunk mx bs (chunk_at ch_size_digits (digits_value 16 hex_digit_value v ds)) n"
proof (induction ds arbitrary: v)
  case (Cons c ds)
  from Cons.prems(1) hex_digit_value_range [of c] have val: "0 \<le> hex_digit_value c" by simp
  have "v * 16 + hex_digit_value c \<le> digits_value 16 hex_digit_value (v * 16 + hex_digit_value c) ds"
    by (rule hex.value_mono) (use Cons.prems val in auto)
  with Cons.prems val have "v * 16 + hex_digit_value c \<le> NGX_MAX_OFF_T_VALUE div 16" by simp
  with Cons val show ?case
    by (simp add: hex_nibble_digit chunk_too_long_def)
qed simp

lemma dechunk_size:
  assumes "list_all hex_digit ds" "ds \<noteq> []" "hex_value ds \<le> NGX_MAX_OFF_T_VALUE div 16"
  shows "dechunk mx (ds @ bs) (chunk_at ch_start sz) n = dechunk mx bs (chunk_at ch_size_digits (hex_value ds)) n"
proof (cases ds)
  case (Cons c cs)
  with assms hex_digit_value_range [of c] dechunk_digits [of cs "hex_digit_value c"] show ?thesis
    by (simp add: hex_nibble_digit chunk_too_long_def)
qed (use assms in simp)

lemma dechunk_skip_extension:
  "no_crlf ext \<Longrightarrow> sz \<le> NGX_MAX_OFF_T_VALUE div 16 \<Longrightarrow>
     dechunk mx (ext @ crlf @ bs) (chunk_at ch_extension sz) n = dechunk mx bs (chunk_at ch_data sz) n"
  "no_crlf ext \<Longrightarrow>
     dechunk mx (ext @ crlf @ bs) (chunk_at ch_last_extension 0) n = dechunk mx bs (chunk_at ch_trailer 0) n"
  by (induction ext) (simp_all add: chunk_too_long_def)

lemma dechunk_extension:
  assumes "chunk_ext ext" "0 \<le> sz" "sz \<le> NGX_MAX_OFF_T_VALUE div 16"
  shows "dechunk mx (ext @ crlf @ bs) (chunk_at ch_size_digits sz) n =
    dechunk mx bs (chunk_at (if sz = 0 then ch_trailer else ch_data) sz) n"
proof (cases ext)
  case Nil
  with assms show ?thesis by (simp add: hex_nibble_digit chunk_too_long_def)
next
  case (Cons c cs)
  with assms have c: "c \<in> {chr_semi, chr_space, chr_tab}" "no_crlf cs" by (auto simp: chunk_ext_def)
  with hex_nibble_digit(2) [of c] have "hex_nibble c = None" by blast
  with c assms Cons dechunk_skip_extension [OF c(2)] show ?thesis
    by (auto simp: chunk_too_long_def)
qed

lemma dechunk_data:
  assumes "data \<noteq> []" "mx = 0 \<or> n + int (length data) \<le> mx"
  shows "dechunk mx (data @ crlf @ bs) (chunk_at ch_data (int (length data))) n =
    add_data data (dechunk mx bs (chunk_at ch_start 0) (n + int (length data)))"
proof -
  have "chunk_core (chunk_at ch_data 0) = chunk_at ch_after_data 0"
    by (simp add: chunk_core_def chunk_enter_def)
  then have "dechunk mx crlf' (chunk_core (chunk_at ch_data 0)) m = dechunk mx bs (chunk_at ch_start 0) m"
    if "crlf' = crlf @ bs" for crlf' m
    by (simp add: that chunk_too_long_def)
  with assms show ?thesis
    by (subst dechunk_take) (auto simp: Let_def)
qed

lemma dechunk_trailer_line:
  assumes "trailer_line line"
  shows "dechunk mx (line @ crlf @ bs) (chunk_at ch_trailer 0) n = dechunk mx bs (chunk_at ch_trailer 0) n"
proof -
  have skip: "no_crlf cs \<Longrightarrow>
      dechunk mx (cs @ crlf @ bs) (chunk_at ch_trailer_header 0) n = dechunk mx bs (chunk_at ch_trailer 0) n" for cs
    by (induction cs) (simp_all add: chunk_too_long_def)
  show ?thesis
  proof (cases line)
    case (Cons c cs)
    with assms skip [of cs] show ?thesis by (simp add: trailer_line_def chunk_too_long_def)
  qed (use assms in \<open>simp add: trailer_line_def\<close>)
qed

lemma dechunk_trailers:
  "list_all trailer_line trailers \<Longrightarrow>
     dechunk mx (concat (map (\<lambda>l. l @ crlf) trailers) @ crlf @ bs) (chunk_at ch_trailer 0) n =
       Inr ([], bs, True, chunk_at ch_start 0, n)"
proof (induction trailers)
  case (Cons l ls)
  with dechunk_trailer_line [of l mx "concat (map (\<lambda>l. l @ crlf) ls) @ crlf @ bs" n] show ?case by simp
qed (simp add: chunk_too_long_def)

lemma zeros_value: "list_all (\<lambda>c. c = chr_0) zeros \<Longrightarrow> list_all hex_digit zeros \<and> hex_value zeros = 0"
  by (induction zeros) (simp_all add: hex_digit_def hex_digit_value_def)

lemma dechunk_message:
  "chunked_message msg body \<Longrightarrow> int (length body) \<le> NGX_MAX_OFF_T_VALUE div 16 \<Longrightarrow>
     mx = 0 \<or> n + int (length body) \<le> mx \<Longrightarrow>
     dechunk mx (msg @ bs) (chunk_at ch_start 0) n =
       Inr (body, bs, True, chunk_at ch_start 0, n + int (length body))"
proof (induction msg body arbitrary: n rule: chunked_message.induct)
  case (last_chunk zeros ext trailers)
  with dechunk_size [of zeros mx _ 0 n] zeros_value [of zeros] dechunk_extension [of ext 0 mx _ n]
    dechunk_trailers [of trailers mx bs n]
  show ?case by simp
next
  case (chunk ds ext data msg body)
  have "dechunk mx (ds @ (ext @ crlf @ (data @ crlf @ (msg @ bs)))) (chunk_at ch_start 0) n =
    dechunk mx (ext @ crlf @ (data @ crlf @ (msg @ bs))) (chunk_at ch_size_digits (int (length data))) n"
    using chunk by (subst dechunk_size) auto
  also have "\<dots> = dechunk mx (data @ crlf @ (msg @ bs)) (chunk_at ch_data (int (length data))) n"
    using chunk by (subst dechunk_extension) auto
  also have "\<dots> = add_data data (dechunk mx (msg @ bs) (chunk_at ch_start 0) (n + int (length data)))"
    using chunk by (intro dechunk_data) auto
  also have "\<dots> = Inr (data @ body, bs, True, chunk_at ch_start 0, n + int (length (data @ body)))"
    using chunk.IH [of "n + int (length data)"] chunk.prems by auto
  finally show ?case by simp
qed

lemma body_start_ok: "body_ok body_start" "body_view (Inr (out, left, body_start)) =
    Inr (concat (map buf_data out), left, Body_last \<in> set out, chunk_at ch_start 0, 0)"
  by (simp_all add: body_ok_def body_start_def chunk_core_def chunk_enter_def chunk_ok_def chunk_too_long_def)

subsection \<open>Properties\<close>

text \<open>C13. The loop of the filter, which hands over the data of a chunk a slice at a time and checks
sizes when the parser stops, does what the machine does that reads one byte at a time and checks at each
of them.\<close>

theorem chunked_filter_refines:
  assumes "body_ok rb"
  shows "body_view (chunked_filter_buf mx bs rb) = dechunk mx bs (chunk_core (body_chunked rb)) (content_length_n rb)"
  using filter_refines [OF assms] by (simp add: dechunk_buf_def)

text \<open>3 CR LF a b: two of three bytes have come.\<close>

lemma chunked_filter_refines_witness:
  "body_ok body_start \<and> body_view (chunked_filter_buf 10 [0x33, 0x0d, 0x0a, 0x61, 0x62] body_start) =
     Inr ([0x61, 0x62], [], False, chunk_at ch_data 1, 2)"
  using chunked_filter_refines [OF body_start_ok(1), of 10 "[0x33, 0x0d, 0x0a, 0x61, 0x62]"] body_start_ok(1)
  by (simp add: body_start_def chunk_core_def chunk_enter_def hex_nibble_def chunk_too_long_def)

text \<open>It makes no difference how a body is cut into buffers: the data, the bytes left after the end
of the body, the state and the error are the same.\<close>

theorem chunked_filter_fragments:
  assumes "body_ok rb"
  shows "body_view (chunked_filter_buf mx (a @ b) rb) =
    (case chunked_filter_buf mx a rb of
       Inl e \<Rightarrow> Inl e
     | Inr (out, left, rb') \<Rightarrow>
         if Body_last \<in> set out then body_view (Inr (out, left @ b, rb'))
         else add_data (concat (map buf_data out)) (body_view (chunked_filter_buf mx b rb')))"
proof (cases "chunked_filter_buf mx a rb")
  case (Inl e)
  with filter_refines [OF assms, of mx a] filter_refines [OF assms, of mx "a @ b"] show ?thesis
    by (simp add: dechunk_buf_def dechunk_append split: sum.splits)
next
  case (Inr r)
  obtain out left rb' where r: "r = (out, left, rb')" by (cases r)
  note keeps = filter_keeps [OF assms Inr [unfolded r]]
  have "dechunk_buf mx a rb = body_view (Inr (out, left, rb'))"
    using filter_refines [OF assms, of mx a] Inr r by simp
  with filter_refines [OF assms, of mx "a @ b"] filter_refines [OF keeps(1), of mx b] Inr r show ?thesis
    by (simp add: dechunk_buf_def dechunk_append)
qed

lemma chunked_filter_fragments_witness:
  "body_ok body_start \<and>
   body_view (chunked_filter_buf 10 ([0x33, 0x0d] @ [0x0a, 0x61, 0x62]) body_start) =
     Inr ([0x61, 0x62], [], False, chunk_at ch_data 1, 2)"
proof -
  let ?mid = "body_start\<lparr>body_rest := 8, body_chunked := \<lparr>ch_state = ch_extension_almost_done, ch_size = 3, ch_length = 8\<rparr>\<rparr>"
  have first: "chunked_filter_buf 10 [0x33, 0x0d] body_start = Inr ([], [], ?mid)"
    by (simp add: body_start_def ngx_http_parse_chunked_def chunk_enter_def hex_nibble_def chunk_finish_def)
  have "body_view (chunked_filter_buf 10 [0x0a, 0x61, 0x62] ?mid) = Inr ([0x61, 0x62], [], False, chunk_at ch_data 1, 2)"
    by (simp add: body_start_def ngx_http_parse_chunked_def chunk_enter_def hex_nibble_def chunk_finish_def
        chunk_take_def chunk_core_def)
  with chunked_filter_fragments [OF body_start_ok(1), of 10 "[0x33, 0x0d]" "[0x0a, 0x61, 0x62]"] first body_start_ok(1)
  show ?thesis by simp
qed

text \<open>The filter counts exactly the bytes it passes on, never passes on more than
\<^verbatim>\<open>client_max_body_size\<close> allows, and keeps the invariant of its state.\<close>

theorem chunked_filter_bounded:
  assumes "body_ok rb" "0 \<le> content_length_n rb" "content_length_n rb \<le> mx" "0 < mx"
    and "chunked_filter_buf mx bs rb = Inr (out, left, rb')"
  shows "body_ok rb' \<and> content_length_n rb' = content_length_n rb + int (length (concat (map buf_data out))) \<and>
    content_length_n rb' \<le> mx"
  using filter_keeps [OF assms(1,5)] assms(2-4) by simp

lemma chunked_filter_bounded_witness:
  "body_ok body_start \<and>
   (\<exists>out left rb'. chunked_filter_buf 2 [0x32, 0x0a, 0x61, 0x62] body_start = Inr (out, left, rb') \<and>
      content_length_n rb' = 2 \<and> content_length_n rb' \<le> 2)"
proof -
  have ran: "\<exists>rb'. chunked_filter_buf 2 [0x32, 0x0a, 0x61, 0x62] body_start =
      Inr ([Body_data [0x61, 0x62]], [], rb') \<and> content_length_n rb' = 2"
    by (simp add: body_start_def ngx_http_parse_chunked_def chunk_enter_def hex_nibble_def chunk_finish_def
        chunk_take_def)
  then obtain rb' where rb': "chunked_filter_buf 2 [0x32, 0x0a, 0x61, 0x62] body_start =
      Inr ([Body_data [0x61, 0x62]], [], rb')" "content_length_n rb' = 2" by blast
  have "0 \<le> content_length_n body_start" "content_length_n body_start \<le> 2" by (simp_all add: body_start_def)
  from chunked_filter_bounded [OF body_start_ok(1) this _ rb'(1)] rb' body_start_ok(1) show ?thesis by auto
qed

text \<open>C4. The body of a message in the chunked coding of RFC 7230, with any extensions and trailers, comes
out as it was sent, its end is found, and the bytes after it are left, when the body is not larger than
\<^verbatim>\<open>client_max_body_size\<close> and no larger than a sixteenth of the largest offset.\<close>

theorem chunked_roundtrip:
  assumes "chunked_message msg body" "int (length body) \<le> NGX_MAX_OFF_T_VALUE div 16"
    and "mx = 0 \<or> int (length body) \<le> mx"
  shows "body_view (chunked_filter_buf mx (msg @ rest) body_start) =
    Inr (body, rest, True, chunk_at ch_start 0, int (length body))"
  using filter_refines [OF body_start_ok(1), of mx "msg @ rest"] dechunk_message [OF assms(1,2), of mx 0 rest] assms(3)
  by (simp add: dechunk_buf_def body_start_def chunk_core_def chunk_enter_def)

text \<open>2 ; x CR LF a b CR LF 0 CR LF t CR LF CR LF\<close>

lemma chunked_roundtrip_witness:
  "\<exists>msg. chunked_message msg [0x61, 0x62] \<and>
     body_view (chunked_filter_buf 4096 (msg @ [0x47]) body_start) =
       Inr ([0x61, 0x62], [0x47], True, chunk_at ch_start 0, 2)"
proof -
  have last: "chunked_message ([0x30] @ [] @ crlf @ concat (map (\<lambda>l. l @ crlf) [[0x74]]) @ crlf) []"
    by (rule last_chunk) (simp_all add: chunk_ext_def trailer_line_def)
  have "chunked_message ([0x32] @ [0x3b, 0x78] @ crlf @ [0x61, 0x62] @ crlf @
      ([0x30] @ [] @ crlf @ concat (map (\<lambda>l. l @ crlf) [[0x74]]) @ crlf)) ([0x61, 0x62] @ [])"
    by (rule chunk [OF _ _ _ _ _ last]) (simp_all add: chunk_ext_def hex_digit_def hex_digit_value_def)
  from chunked_roundtrip [OF this, of 4096 "[0x47]"] this show ?thesis by auto
qed

end
