(* ===== verification/Http_Complex_Uri.thy ===== *)
theory Http_Complex_Uri
  imports Http_Request_Line
begin

section \<open>The normalisation of a path\<close>

text \<open>
  \<^verbatim>\<open>ngx_http_parse_complex_uri\<close> of \<^verbatim>\<open>src/http/ngx_http_parse.c\<close>, on other systems than Windows. It
  decodes the escapes of a path, merges slashes and resolves the segments \<open>.\<close> and \<open>..\<close> while it copies
  the path to \<^verbatim>\<open>r->uri.data\<close>. What was written there is kept in reverse, so that the next byte goes to the
  front and \<^verbatim>\<open>u--\<close> is the tail of the list. The bytes before \<^verbatim>\<open>r->uri_end\<close> are given as a list; positions are
  offsets in the buffer.
\<close>

text \<open>The four states of the path, one of which \<^verbatim>\<open>quoted_state\<close> keeps while an escape is read.\<close>

datatype cu_path = cu_usual | cu_slash | cu_dot | cu_dot_dot

datatype cu_state = In_path cu_path | cu_quoted | cu_quoted_second

record complex =
  cu_state :: cu_state
  quoted_state :: cu_path
  decoded :: byte
  cu_uri :: "byte list"
  cu_ext :: "nat option"
  cu_args_start :: "nat option"
  cu_plus :: bool
  cu_quoted_uri :: bool

text \<open>How the loop goes on: with the next byte, with a decoded one, or not.\<close>

datatype cu_next = Cu_next complex | Cu_decoded byte complex | Cu_args complex | Cu_done complex | Cu_invalid

text \<open>\<^verbatim>\<open>*u++ = ch\<close>, and the way back over a segment after \<^verbatim>\<open>u -= 5\<close>.\<close>

definition cu_put :: "byte \<Rightarrow> complex \<Rightarrow> complex" where
  "cu_put ch s = s\<lparr>cu_uri := ch # cu_uri s\<rparr>"

fun cu_back :: "byte list \<Rightarrow> byte list option" where
  "cu_back [] = None"
| "cu_back (c # us) = (if c = chr_slash then Some (c # us) else cu_back us)"

text \<open>What the four states have in common: the usual bytes and the cases after those of the state.\<close>

definition cu_usual_byte :: "byte \<Rightarrow> complex \<Rightarrow> cu_next" where
  "cu_usual_byte ch s = Cu_next (cu_put ch (s\<lparr>cu_state := In_path cu_usual\<rparr>))"

definition cu_common :: "cu_path \<Rightarrow> nat \<Rightarrow> byte \<Rightarrow> complex \<Rightarrow> cu_next" where
  "cu_common st p ch s =
     (if ch = chr_percent then Cu_next (s\<lparr>quoted_state := st, cu_state := cu_quoted\<rparr>)
      else if ch = chr_quest then Cu_args (s\<lparr>cu_args_start := Some p\<rparr>)
      else if ch = chr_hash then Cu_done s
      else if ch = chr_plus then cu_usual_byte ch (s\<lparr>cu_plus := True\<rparr>)
      else cu_usual_byte ch s)"

fun cu_path_case :: "cu_path \<Rightarrow> bool \<Rightarrow> nat \<Rightarrow> byte \<Rightarrow> complex \<Rightarrow> cu_next" where
  "cu_path_case cu_usual merge_slashes p ch s =
     (if is_usual ch then cu_usual_byte ch s
      else if ch = chr_slash then Cu_next (cu_put ch (s\<lparr>cu_ext := None, cu_state := In_path cu_slash\<rparr>))
      else if ch = chr_dot then Cu_next (cu_put ch (s\<lparr>cu_ext := Some (length (cu_uri s) + 1)\<rparr>))
      else cu_common cu_usual p ch s)"
| "cu_path_case cu_slash merge_slashes p ch s =
     (if is_usual ch then cu_usual_byte ch s
      else if ch = chr_slash then Cu_next (if merge_slashes then s else cu_put ch s)
      else if ch = chr_dot then Cu_next (cu_put ch (s\<lparr>cu_state := In_path cu_dot\<rparr>))
      else cu_common cu_slash p ch s)"
| "cu_path_case cu_dot merge_slashes p ch s =
     (if is_usual ch then cu_usual_byte ch s
      else if ch = chr_slash then Cu_next (s\<lparr>cu_state := In_path cu_slash, cu_uri := tl (cu_uri s)\<rparr>)
      else if ch = chr_dot then Cu_next (cu_put ch (s\<lparr>cu_state := In_path cu_dot_dot\<rparr>))
      else cu_common cu_dot p ch s)"
| "cu_path_case cu_dot_dot merge_slashes p ch s =
     (if is_usual ch then cu_usual_byte ch s
      else if ch = chr_slash then
        (case cu_back (drop 4 (cu_uri s)) of
           None \<Rightarrow> Cu_invalid
         | Some us \<Rightarrow> Cu_next (s\<lparr>cu_state := In_path cu_slash, cu_uri := us\<rparr>))
      else cu_common cu_dot_dot p ch s)"

text \<open>The two digits of an escape; \<^verbatim>\<open>decoded\<close> and the digits are bytes and so is their sum.\<close>

definition cu_quoted_case :: "byte \<Rightarrow> complex \<Rightarrow> cu_next" where
  "cu_quoted_case ch s =
     (let s = s\<lparr>cu_quoted_uri := True\<rparr> in
      if chr_0 \<le> ch \<and> ch \<le> chr_9 then Cu_next (s\<lparr>decoded := ch - chr_0, cu_state := cu_quoted_second\<rparr>)
      else
        let c = ch OR 0x20 in
        if chr_a \<le> c \<and> c \<le> chr_f then
          Cu_next (s\<lparr>decoded := c - chr_a + 10, cu_state := cu_quoted_second\<rparr>)
        else Cu_invalid)"

definition cu_quoted_second_case :: "byte \<Rightarrow> complex \<Rightarrow> cu_next" where
  "cu_quoted_second_case ch s =
     (if chr_0 \<le> ch \<and> ch \<le> chr_9 then
        let ch = push_bit 4 (decoded s) + (ch - chr_0) in
        if ch = chr_percent \<or> ch = chr_hash then Cu_next (cu_put ch (s\<lparr>cu_state := In_path cu_usual\<rparr>))
        else if ch = chr_nul then Cu_invalid
        else Cu_decoded ch (s\<lparr>cu_state := In_path (quoted_state s)\<rparr>)
      else
        let c = ch OR 0x20 in
        if chr_a \<le> c \<and> c \<le> chr_f then
          let ch = push_bit 4 (decoded s) + (c - chr_a) + 10 in
          if ch = chr_quest then Cu_next (cu_put ch (s\<lparr>cu_state := In_path cu_usual\<rparr>))
          else
            Cu_decoded ch
              ((if ch = chr_plus then s\<lparr>cu_plus := True\<rparr> else s)\<lparr>cu_state := In_path (quoted_state s)\<rparr>)
        else Cu_invalid)"

text \<open>One turn of the loop on a byte of the buffer, with the turn on the byte that it decodes. \<open>p\<close> is the offset
  after the byte.\<close>

definition cu_step :: "bool \<Rightarrow> nat \<Rightarrow> byte \<Rightarrow> complex \<Rightarrow> cu_next" where
  "cu_step merge_slashes p ch s =
     (case cu_state s of
        In_path st \<Rightarrow> cu_path_case st merge_slashes p ch s
      | cu_quoted \<Rightarrow> cu_quoted_case ch s
      | cu_quoted_second \<Rightarrow>
          (case cu_quoted_second_case ch s of
             Cu_decoded ch s \<Rightarrow> cu_path_case (quoted_state s) merge_slashes p ch s
           | next \<Rightarrow> next))"

text \<open>The end: the URI, its extension and its arguments.\<close>

record complex_result =
  res_uri :: "byte list"
  res_exten :: "byte list option"
  res_args :: "byte list option"
  res_args_start :: "nat option"
  res_plus :: bool
  res_quoted :: bool

definition cu_finish :: "complex \<Rightarrow> complex_result" where
  "cu_finish s =
     (let uri = rev (cu_uri s) in
      \<lparr>res_uri = uri, res_exten = map_option (\<lambda>ext. drop ext uri) (cu_ext s), res_args = None,
       res_args_start = cu_args_start s, res_plus = cu_plus s, res_quoted = cu_quoted_uri s\<rparr>)"

fun cu_args :: "byte list \<Rightarrow> byte list \<Rightarrow> complex_result \<Rightarrow> complex_result" where
  "cu_args args [] r = r"
| "cu_args args (ch # rest) r =
     (if ch \<noteq> chr_hash then cu_args (args @ [ch]) rest r
      else r\<lparr>res_args := Some args, res_args_start := None\<rparr>)"

fun cu_loop :: "bool \<Rightarrow> nat \<Rightarrow> byte list \<Rightarrow> complex \<Rightarrow> complex_result option" where
  "cu_loop merge_slashes p [] s = Some (cu_finish s)"
| "cu_loop merge_slashes p (ch # rest) s =
     (case cu_step merge_slashes (p + 1) ch s of
        Cu_next s \<Rightarrow> cu_loop merge_slashes (p + 1) rest s
      | Cu_args s \<Rightarrow> Some (cu_args [] rest (cu_finish s))
      | Cu_done s \<Rightarrow> Some (cu_finish s)
      | _ \<Rightarrow> None)"

text \<open>The URI from \<open>a\<close> up to \<open>b\<close>, with the flags of the request as they are. \<open>None\<close> is \<^verbatim>\<open>NGX_HTTP_PARSE_INVALID_REQUEST\<close>.\<close>

definition ngx_http_parse_complex_uri ::
  "byte list \<Rightarrow> nat \<Rightarrow> nat \<Rightarrow> bool \<Rightarrow> bool \<Rightarrow> bool \<Rightarrow> complex_result option" where
  "ngx_http_parse_complex_uri buf a b plus_flag quoted_flag merge_slashes =
     cu_loop merge_slashes a (segment buf a b)
       \<lparr>cu_state = In_path cu_usual, quoted_state = cu_usual, decoded = 0, cu_uri = [], cu_ext = None,
        cu_args_start = None, cu_plus = plus_flag, cu_quoted_uri = quoted_flag\<rparr>"

subsection \<open>Normal paths\<close>

text \<open>A path in which no segment before the last is \<open>.\<close> or \<open>..\<close>, or empty when slashes are merged.\<close>

definition normal_path :: "bool \<Rightarrow> byte list \<Rightarrow> bool" where
  "normal_path merge_slashes u \<longleftrightarrow>
     \<not> sublist [chr_slash, chr_dot, chr_dot, chr_slash] u \<and> \<not> sublist [chr_slash, chr_dot, chr_slash] u \<and>
     (merge_slashes \<longrightarrow> \<not> sublist [chr_slash, chr_slash] u)"

lemma normal_path_rev [simp]: "normal_path m (rev u) = normal_path m u"
  using sublist_rev [of "[chr_slash, chr_dot, chr_dot, chr_slash]" u]
    sublist_rev [of "[chr_slash, chr_dot, chr_slash]" u] sublist_rev [of "[chr_slash, chr_slash]" u]
  by (simp add: normal_path_def)

lemma normal_path_Cons:
  "normal_path m (c # u) \<longleftrightarrow> normal_path m u \<and>
     (c = chr_slash \<longrightarrow> \<not> prefix [chr_dot, chr_dot, chr_slash] u \<and> \<not> prefix [chr_dot, chr_slash] u \<and>
        (m \<longrightarrow> \<not> prefix [chr_slash] u))"
  by (auto simp: normal_path_def sublist_Cons_right)

lemma normal_path_suffix: "normal_path m (v @ u) \<Longrightarrow> normal_path m u"
  by (auto simp: normal_path_def sublist_append)

text \<open>What has been written in a state.\<close>

fun cu_written :: "cu_path \<Rightarrow> byte list \<Rightarrow> bool" where
  "cu_written cu_usual u \<longleftrightarrow>
     \<not> prefix [chr_slash] u \<and> \<not> prefix [chr_dot, chr_slash] u \<and> \<not> prefix [chr_dot, chr_dot, chr_slash] u"
| "cu_written cu_slash u \<longleftrightarrow> prefix [chr_slash] u"
| "cu_written cu_dot u \<longleftrightarrow> prefix [chr_dot, chr_slash] u"
| "cu_written cu_dot_dot u \<longleftrightarrow> prefix [chr_dot, chr_dot, chr_slash] u"

definition cu_inv :: "bool \<Rightarrow> complex \<Rightarrow> bool" where
  "cu_inv m s \<longleftrightarrow> normal_path m (cu_uri s) \<and> cu_uri s \<noteq> [] \<and> last (cu_uri s) = chr_slash \<and>
     cu_written (case cu_state s of In_path st \<Rightarrow> st | _ \<Rightarrow> quoted_state s) (cu_uri s)"

fun cu_next_inv :: "bool \<Rightarrow> cu_next \<Rightarrow> bool" where
  "cu_next_inv m (Cu_next s) = cu_inv m s"
| "cu_next_inv m (Cu_decoded ch s) = (cu_inv m s \<and> cu_state s = In_path (quoted_state s))"
| "cu_next_inv m (Cu_args s) = cu_inv m s"
| "cu_next_inv m (Cu_done s) = cu_inv m s"
| "cu_next_inv m Cu_invalid = True"

lemma cu_back_Some: "cu_back u = Some v \<Longrightarrow> \<exists>w. u = w @ v \<and> prefix [chr_slash] v"
proof (induction u)
  case (Cons c u)
  show ?case
  proof (cases "c = chr_slash")
    case False
    with Cons obtain w where "u = w @ v" "prefix [chr_slash] v" by auto
    then have "c # u = (c # w) @ v" by simp
    with \<open>prefix [chr_slash] v\<close> show ?thesis by blast
  qed (use Cons.prems in auto)
qed simp

lemma cu_put_inv:
  assumes "normal_path m (cu_uri s)" "cu_uri s \<noteq> []" "last (cu_uri s) = chr_slash"
    and "ch \<noteq> chr_slash" "\<not> prefix [chr_slash] (cu_uri s) \<and> \<not> prefix [chr_dot, chr_slash] (cu_uri s) \<or> ch \<noteq> chr_dot"
  shows "cu_inv m (cu_put ch (s\<lparr>cu_state := In_path cu_usual\<rparr>))"
  using assms by (auto simp: cu_inv_def cu_put_def normal_path_Cons)

lemma cu_path_case_inv:
  assumes "cu_inv m s" "cu_state s = In_path st"
  shows "cu_next_inv m (cu_path_case st m p ch s)"
proof -
  have inv: "normal_path m (cu_uri s)" "cu_uri s \<noteq> []" "last (cu_uri s) = chr_slash" "cu_written st (cu_uri s)"
    using assms by (simp_all add: cu_inv_def)
  have usual: "cu_next_inv m (cu_usual_byte ch (s\<lparr>cu_plus := b\<rparr>))" "cu_next_inv m (cu_usual_byte ch s)"
    if "ch \<noteq> chr_slash" "ch \<noteq> chr_dot \<or> st = cu_dot_dot" for b
    using cu_put_inv [of m s ch] cu_put_inv [of m "s\<lparr>cu_plus := b\<rparr>" ch] inv that
    by (auto simp: cu_usual_byte_def prefix_def)
  have common: "cu_next_inv m (cu_common st p ch s)" if "ch \<noteq> chr_slash" "ch \<noteq> chr_dot \<or> st = cu_dot_dot"
    using usual that assms by (auto simp: cu_common_def cu_inv_def)
  have not: "is_usual ch \<Longrightarrow> ch \<noteq> chr_slash \<and> ch \<noteq> chr_dot" by (simp add: is_usual_iff)
  show ?thesis
  proof (cases st)
    case cu_usual
    with inv usual common not assms(2) show ?thesis
      by (auto simp: cu_inv_def cu_put_def normal_path_Cons)
  next
    case cu_slash
    with inv obtain u where "cu_uri s = chr_slash # u" by (auto simp: prefix_def)
    with cu_slash inv usual common not assms show ?thesis
      by (auto simp: cu_inv_def cu_put_def normal_path_Cons)
  next
    case cu_dot
    with inv obtain u where "cu_uri s = chr_dot # chr_slash # u" by (auto simp: prefix_def)
    with cu_dot inv usual common not show ?thesis
      by (auto simp: cu_inv_def cu_put_def normal_path_Cons)
  next
    case cu_dot_dot
    have "cu_inv m (s\<lparr>cu_state := In_path cu_slash, cu_uri := v\<rparr>)" if "cu_back (drop 4 (cu_uri s)) = Some v" for v
    proof -
      from cu_back_Some [OF that] obtain w where w: "drop 4 (cu_uri s) = w @ v" "prefix [chr_slash] v" by blast
      then have uri: "cu_uri s = (take 4 (cu_uri s) @ w) @ v"
        by (metis append_assoc append_take_drop_id)
      have "v \<noteq> []" using w(2) by auto
      with uri inv(3) have "last v = chr_slash" by (metis last_appendR)
      moreover have "normal_path m v" using uri inv(1) normal_path_suffix by metis
      ultimately show ?thesis using w(2) \<open>v \<noteq> []\<close> by (simp add: cu_inv_def)
    qed
    with cu_dot_dot inv usual common not show ?thesis by (auto split: option.split)
  qed
qed

lemma cu_inv_fields [simp]:
  "cu_inv m (s\<lparr>decoded := d\<rparr>) = cu_inv m s" "cu_inv m (s\<lparr>cu_plus := b\<rparr>) = cu_inv m s"
  "cu_inv m (s\<lparr>cu_quoted_uri := b\<rparr>) = cu_inv m s"
  by (cases "cu_state s"; simp add: cu_inv_def)+

lemma cu_inv_quoted:
  assumes "cu_inv m s" "cu_state s \<in> {cu_quoted, cu_quoted_second}"
  shows "cu_inv m (s\<lparr>cu_state := In_path (quoted_state s)\<rparr>)" "cu_inv m (s\<lparr>cu_state := cu_quoted_second\<rparr>)"
    and "cu_inv m (s\<lparr>cu_plus := b, cu_state := In_path (quoted_state s)\<rparr>)"
    and "ch \<noteq> chr_slash \<Longrightarrow> ch \<noteq> chr_dot \<Longrightarrow> cu_inv m (cu_put ch (s\<lparr>cu_state := In_path cu_usual\<rparr>))"
  using assms cu_put_inv [of m s ch] by (auto simp: cu_inv_def)

lemma cu_quoted_case_inv:
  assumes "cu_inv m s" "cu_state s = cu_quoted"
  shows "cu_next_inv m (cu_quoted_case ch s)"
  using cu_inv_quoted(2) [OF assms(1)] assms(2)
  by (auto simp: cu_quoted_case_def Let_def)
    (auto simp: cu_inv_def)

lemma cu_quoted_second_case_inv:
  assumes "cu_inv m s" "cu_state s = cu_quoted_second"
  shows "cu_next_inv m (cu_quoted_second_case ch s)"
  using cu_inv_quoted [OF assms(1)] assms(2)
  by (auto simp: cu_quoted_second_case_def Let_def)

lemma cu_step_inv:
  assumes "cu_inv m s"
  shows "cu_next_inv m (cu_step m p ch s)"
proof (cases "cu_state s")
  case cu_quoted_second
  with cu_quoted_second_case_inv [OF assms, of ch] cu_path_case_inv show ?thesis
    by (auto simp: cu_step_def split: cu_next.split)
qed (use assms cu_path_case_inv cu_quoted_case_inv in \<open>auto simp: cu_step_def\<close>)

lemma cu_step_not_decoded: "cu_step m p ch s \<noteq> Cu_decoded c t"
proof -
  have path: "cu_path_case st m p ch s \<noteq> Cu_decoded c t" for st ch s
    by (cases st) (auto simp: cu_usual_byte_def cu_common_def split: option.split)
  show ?thesis
    unfolding cu_step_def using path
    by (auto simp: cu_quoted_case_def Let_def split: cu_state.split cu_next.split)
qed

lemma cu_finish_uri [simp]: "res_uri (cu_finish s) = rev (cu_uri s)"
  by (simp add: cu_finish_def Let_def)

lemma cu_args_uri [simp]: "res_uri (cu_args args rest r) = res_uri r"
  by (induction rest arbitrary: args) auto

lemma cu_loop_normal:
  "cu_loop m p bs s = Some r \<Longrightarrow> cu_inv m s \<Longrightarrow>
     normal_path m (res_uri r) \<and> res_uri r \<noteq> [] \<and> hd (res_uri r) = chr_slash"
proof (induction m p bs s rule: cu_loop.induct)
  case (1 m p s)
  then show ?case by (auto simp: cu_inv_def hd_rev)
next
  case (2 m p ch rest s)
  have inv: "cu_next_inv m (cu_step m (p + 1) ch s)" by (rule cu_step_inv [OF "2.prems"(2)])
  show ?case
  proof (cases "cu_step m (p + 1) ch s")
    case (Cu_next t)
    with 2 inv show ?thesis by simp
  qed (use 2 inv in \<open>auto simp: cu_inv_def hd_rev\<close>)
qed

text \<open>The first byte, a slash.\<close>

lemma complex_uri_slash:
  assumes "a < b" "a < length buf" "buf ! a = chr_slash"
  shows "ngx_http_parse_complex_uri buf a b plus_flag quoted_flag m =
    cu_loop m (a + 1) (segment buf (a + 1) b)
      \<lparr>cu_state = In_path cu_slash, quoted_state = cu_usual, decoded = 0, cu_uri = [chr_slash], cu_ext = None,
       cu_args_start = None, cu_plus = plus_flag, cu_quoted_uri = quoted_flag\<rparr>"
proof -
  have "segment buf a b = chr_slash # segment buf (a + 1) b"
    using assms by (simp add: segment_def Cons_nth_drop_Suc [symmetric] take_Cons')
  then show ?thesis
    by (simp add: ngx_http_parse_complex_uri_def cu_step_def cu_put_def is_usual_iff)
qed

text \<open>C5. The path that the normalisation returns starts with a slash, no segment before the last one is
\<open>.\<close> or \<open>..\<close>, and, where slashes are merged, none is empty, whatever escapes the URI hid them behind.\<close>

theorem complex_uri_normal:
  assumes "ngx_http_parse_complex_uri buf a b plus_flag quoted_flag m = Some r"
    and "a < b" "a < length buf" "buf ! a = chr_slash"
  shows "normal_path m (res_uri r) \<and> res_uri r \<noteq> [] \<and> hd (res_uri r) = chr_slash"
  using assms(1) unfolding complex_uri_slash [OF assms(2-4)]
  by (rule cu_loop_normal) (simp add: cu_inv_def normal_path_Cons, simp add: normal_path_def)

lemma complex_uri_example:
  "map_option res_uri (ngx_http_parse_complex_uri (bytes_of ''/a//b/%2e./c?d'') 0 14 False False True) =
     Some (bytes_of ''/a/c'')"
  by code_simp

theorem complex_uri_normal_witness:
  "normal_path True (bytes_of ''/a/c'') \<and> hd (bytes_of ''/a/c'') = chr_slash"
proof -
  obtain r where "ngx_http_parse_complex_uri (bytes_of ''/a//b/%2e./c?d'') 0 14 False False True = Some r"
    "res_uri r = bytes_of ''/a/c''"
    using complex_uri_example by auto
  with complex_uri_normal [OF this(1)] show ?thesis by (simp add: bytes_of_def)
qed

subsection \<open>What is written\<close>

text \<open>A byte adds at most one, and a question mark none: it ends the path.\<close>

definition cu_grows :: "nat \<Rightarrow> complex \<Rightarrow> cu_next \<Rightarrow> bool" where
  "cu_grows k s nx \<longleftrightarrow>
     (case nx of
        Cu_next t \<Rightarrow> length (cu_uri t) \<le> length (cu_uri s) + k
      | Cu_decoded ch t \<Rightarrow> cu_uri t = cu_uri s
      | Cu_args t \<Rightarrow> cu_uri t = cu_uri s
      | Cu_done t \<Rightarrow> cu_uri t = cu_uri s
      | Cu_invalid \<Rightarrow> True)"

lemma cu_path_case_grows: "cu_grows 1 s (cu_path_case st m p ch s)"
proof -
  have "length v \<le> length u" if "cu_back (drop 4 u) = Some v" for u v
    using cu_back_Some [OF that] by (metis length_append length_drop diff_le_self le_add2 order_trans)
  then have "length v \<le> Suc (length u)" if "cu_back (drop 4 u) = Some v" for u v
    using that le_SucI by blast
  then show ?thesis
    by (cases st) (auto simp: cu_grows_def cu_put_def cu_usual_byte_def cu_common_def split: option.split)
qed

lemma cu_step_grows: "cu_grows 1 s (cu_step m p ch s)"
proof (cases "cu_state s")
  case (In_path st)
  then show ?thesis using cu_path_case_grows by (simp add: cu_step_def)
next
  case cu_quoted
  then show ?thesis by (simp add: cu_step_def cu_quoted_case_def cu_grows_def Let_def)
next
  case cu_quoted_second
  have second: "cu_grows 1 s (cu_quoted_second_case ch s)"
    by (simp add: cu_quoted_second_case_def cu_grows_def cu_put_def Let_def)
  show ?thesis
  proof (cases "cu_quoted_second_case ch s")
    case (Cu_decoded c t)
    with second cu_path_case_grows [of t "quoted_state t" m p c] cu_quoted_second show ?thesis
      by (auto simp: cu_step_def cu_grows_def split: cu_next.splits)
  qed (use second cu_quoted_second in \<open>simp_all add: cu_step_def\<close>)
qed

lemma cu_step_quest: "cu_step m p chr_quest s \<noteq> Cu_next t"
proof (cases "cu_state s")
  case (In_path st)
  then show ?thesis by (cases st) (simp_all add: cu_step_def cu_common_def is_usual_iff)
qed (simp_all add: cu_step_def cu_quoted_case_def cu_quoted_second_case_def)

lemma cu_loop_length:
  "cu_loop m p bs s = Some r \<Longrightarrow> length (res_uri r) \<le> length (cu_uri s) + length (path_of bs)"
proof (induction m p bs s rule: cu_loop.induct)
  case (2 m p ch rest s)
  show ?case
  proof (cases "cu_step m (p + 1) ch s")
    case (Cu_next t)
    with cu_step_quest have "ch \<noteq> chr_quest" by auto
    with 2 Cu_next cu_step_grows [of s m "p + 1" ch] show ?thesis by (fastforce simp: cu_grows_def)
  qed (use 2 cu_step_grows [of s m "p + 1" ch] in \<open>auto simp: cu_grows_def\<close>)
qed auto

text \<open>C27. The normalisation never writes past \<^verbatim>\<open>r->uri.len\<close> bytes, the size of the buffer it is given: what it
has written when it stops, be it at the end or, on a truncated URI, at any byte before, is no longer than
the path, the part before the first question mark.\<close>

theorem complex_uri_fits:
  assumes "ngx_http_parse_complex_uri buf a b plus_flag quoted_flag m = Some r"
  shows "length (res_uri r) \<le> length (path_of (segment buf a b))"
  using cu_loop_length [OF assms [unfolded ngx_http_parse_complex_uri_def]] by simp

theorem complex_uri_fits_witness:
  "length (bytes_of ''/a/c'') \<le> length (path_of (segment (bytes_of ''/a//b/%2e./c?d'') 0 14))"
proof -
  obtain r where "ngx_http_parse_complex_uri (bytes_of ''/a//b/%2e./c?d'') 0 14 False False True = Some r"
    "res_uri r = bytes_of ''/a/c''"
    using complex_uri_example by auto
  with complex_uri_fits [OF this(1)] show ?thesis by simp
qed

subsection \<open>Paths that are normal already\<close>

lemma clean_path_Cons:
  "clean_path (c # u) \<longleftrightarrow> c \<noteq> chr_percent \<and> c \<noteq> chr_hash \<and> clean_path u \<and>
     (c = chr_slash \<longrightarrow> u = [] \<or> hd u \<noteq> chr_slash \<and> hd u \<noteq> chr_dot)"
  by (cases u) (auto simp: clean_path_def sublist_Cons_right)

lemma cu_loop_clean:
  "clean_path (c0 # cs) \<Longrightarrow> chr_quest \<notin> set cs \<Longrightarrow> cu_uri s = c0 # us \<Longrightarrow>
     cu_state s = In_path (if c0 = chr_slash then cu_slash else cu_usual) \<Longrightarrow> rest = [] \<or> hd rest = chr_quest \<Longrightarrow>
     \<exists>r. cu_loop m p (cs @ rest) s = Some r \<and> res_uri r = rev us @ c0 # cs"
proof (induction cs arbitrary: c0 s us p)
  case Nil
  show ?case
  proof (cases rest)
    case (Cons q qs)
    with Nil have "q = chr_quest" by simp
    with Nil Cons show ?thesis by (cases "c0 = chr_slash") (auto simp: cu_step_def cu_common_def is_usual_iff)
  qed (use Nil in auto)
next
  case (Cons c cs)
  from Cons.prems(1,2) have c: "c \<noteq> chr_percent" "c \<noteq> chr_hash" "c \<noteq> chr_quest" "clean_path (c # cs)"
    and slash: "c0 = chr_slash \<Longrightarrow> c \<noteq> chr_slash \<and> c \<noteq> chr_dot"
    by (auto simp: clean_path_Cons)
  have "\<exists>t. cu_step m (p + 1) c s = Cu_next t \<and> cu_uri t = c # c0 # us \<and>
      cu_state t = In_path (if c = chr_slash then cu_slash else cu_usual)"
    using Cons.prems(3,4) c slash
    by (cases "c0 = chr_slash") (auto simp: cu_step_def cu_common_def cu_usual_byte_def cu_put_def is_usual_iff)
  then obtain t where "cu_step m (p + 1) c s = Cu_next t" "cu_uri t = c # c0 # us"
      "cu_state t = In_path (if c = chr_slash then cu_slash else cu_usual)" by blast
  with Cons.IH [of c t "c0 # us" "p + 1"] Cons.prems(2,5) c(4) show ?case by simp
qed

text \<open>A URI that the parser of the request line does not mark as complex or quoted is left as it is by the
normalisation, which accepts it: taking the path of such a URI unread gives the same path.\<close>

theorem complex_uri_clean:
  assumes "clean_uri buf a b"
  shows "\<exists>r. ngx_http_parse_complex_uri buf a b plus_flag quoted_flag m = Some r \<and>
    res_uri r = path_of (segment buf a b)"
proof -
  have a: "a < b" "a < length buf" "buf ! a = chr_slash" using assms by (simp_all add: clean_uri_def)
  let ?seg = "segment buf (a + 1) b"
  have seg: "segment buf a b = chr_slash # ?seg"
    using a by (simp add: segment_def Cons_nth_drop_Suc [symmetric] take_Cons')
  with assms have "clean_path (chr_slash # path_of ?seg)" by (simp add: clean_uri_def)
  moreover have "chr_quest \<notin> set (path_of ?seg)" by (auto dest: set_takeWhileD)
  moreover have "dropWhile (\<lambda>c. c \<noteq> chr_quest) ?seg = [] \<or> hd (dropWhile (\<lambda>c. c \<noteq> chr_quest) ?seg) = chr_quest"
    using hd_dropWhile by blast
  ultimately show ?thesis
    using cu_loop_clean [of chr_slash "path_of ?seg" "\<lparr>cu_state = In_path cu_slash, quoted_state = cu_usual,
      decoded = 0, cu_uri = [chr_slash], cu_ext = None, cu_args_start = None, cu_plus = plus_flag,
      cu_quoted_uri = quoted_flag\<rparr>" "[]" "dropWhile (\<lambda>c. c \<noteq> chr_quest) ?seg" m "a + 1"] seg
    unfolding complex_uri_slash [OF a] by simp
qed

theorem complex_uri_clean_witness:
  "clean_uri (bytes_of ''/a.b/c?d%'') 0 9 \<and>
   (\<exists>r. ngx_http_parse_complex_uri (bytes_of ''/a.b/c?d%'') 0 9 False False True = Some r \<and>
      res_uri r = bytes_of ''/a.b/c'')"
proof -
  have "clean_uri (bytes_of ''/a.b/c?d%'') 0 9"
    by (simp add: clean_uri_def segment_def bytes_of_def clean_path_Cons) (simp add: clean_path_def)
  with complex_uri_clean [OF this, of False False True] show ?thesis
    by (simp add: segment_def bytes_of_def)
qed

end
