(* ===== verification/Http_Upstream_Rr.thy ===== *)
theory Http_Upstream_Rr
  imports Prelude
begin

section \<open>The weighted round robin balancer\<close>

text \<open>
  \<^verbatim>\<open>src/http/ngx_http_upstream_round_robin.c\<close>: the choice of a server for a request and what is noted when
  the request is done with it. A group of servers is a list, the chain \<^verbatim>\<open>peers->next\<close> of the primary and
  the backup group a list of groups; \<^verbatim>\<open>rrp->tried\<close> is the list of its words. Locks, logging and the address of
  the server are left out. Weights and times are integers: that the weights stay within the sum of the
  configured ones is shown below.
\<close>

record rr_peer =
  current_weight :: int
  effective_weight :: int
  weight :: int
  conns :: u64
  max_conns :: u64
  fails :: u64
  accessed :: int
  checked :: int
  max_fails :: u64
  fail_timeout :: int
  down :: bool

record rr_peers =
  rr_single :: bool
  rr_list :: "rr_peer list"

text \<open>The bitmap of the servers that the request has tried.\<close>

definition rr_tried :: "u64 list \<Rightarrow> nat \<Rightarrow> bool" where
  "rr_tried tried i \<longleftrightarrow> tried ! (i div 64) AND push_bit (i mod 64) 1 \<noteq> 0"

definition rr_try :: "u64 list \<Rightarrow> nat \<Rightarrow> u64 list" where
  "rr_try tried p = tried[p div 64 := tried ! (p div 64) OR push_bit (p mod 64) 1]"

text \<open>The four reasons for which the loop goes on to the next server.\<close>

definition rr_busy :: "rr_peer \<Rightarrow> bool" where
  "rr_busy peer \<longleftrightarrow> max_conns peer \<noteq> 0 \<and> max_conns peer \<le> conns peer"

definition rr_skip :: "int \<Rightarrow> u64 list \<Rightarrow> nat \<Rightarrow> rr_peer \<Rightarrow> bool" where
  "rr_skip now tried i peer \<longleftrightarrow>
     rr_tried tried i \<or> down peer \<or>
     (max_fails peer \<noteq> 0 \<and> max_fails peer \<le> fails peer \<and> now - checked peer \<le> fail_timeout peer) \<or>
     rr_busy peer"

text \<open>Its weight is added, and a weight lowered by failures recovers by one.\<close>

definition rr_weigh :: "rr_peer \<Rightarrow> rr_peer" where
  "rr_weigh peer =
     (let peer = peer\<lparr>current_weight := current_weight peer + effective_weight peer\<rparr> in
      if effective_weight peer < weight peer
      then peer\<lparr>effective_weight := effective_weight peer + 1\<rparr> else peer)"

definition rr_better :: "nat \<Rightarrow> rr_peer \<Rightarrow> (nat \<times> rr_peer) option \<Rightarrow> (nat \<times> rr_peer) option" where
  "rr_better i peer best =
     (case best of
        None \<Rightarrow> Some (i, peer)
      | Some (p, b) \<Rightarrow> if current_weight b < current_weight peer then Some (i, peer) else best)"

fun rr_loop ::
  "int \<Rightarrow> u64 list \<Rightarrow> nat \<Rightarrow> (nat \<times> rr_peer) option \<Rightarrow> int \<Rightarrow> rr_peer list \<Rightarrow>
     rr_peer list \<times> (nat \<times> rr_peer) option \<times> int" where
  "rr_loop now tried i best wsum [] = ([], best, wsum)"
| "rr_loop now tried i best wsum (peer # peers) =
     (if rr_skip now tried i peer then
        case rr_loop now tried (i + 1) best wsum peers of (peers, res) \<Rightarrow> (peer # peers, res)
      else
        let wsum = wsum + effective_weight peer;
            peer = rr_weigh peer;
            best = rr_better i peer best
        in case rr_loop now tried (i + 1) best wsum peers of (peers, res) \<Rightarrow> (peer # peers, res))"

text \<open>The chosen server pays the sum of the weights.\<close>

definition rr_pay :: "int \<Rightarrow> int \<Rightarrow> rr_peer \<Rightarrow> rr_peer" where
  "rr_pay now wsum best =
     (let best = best\<lparr>current_weight := current_weight best - wsum\<rparr> in
      if fail_timeout best < now - checked best then best\<lparr>checked := now\<rparr> else best)"

definition ngx_http_upstream_get_peer ::
  "int \<Rightarrow> u64 list \<Rightarrow> rr_peer list \<Rightarrow> nat option \<times> u64 list \<times> rr_peer list" where
  "ngx_http_upstream_get_peer now tried peers =
     (case rr_loop now tried 0 None 0 peers of
        (peers, None, wsum) \<Rightarrow> (None, tried, peers)
      | (peers, Some (p, _), wsum) \<Rightarrow> (Some p, rr_try tried p, peers[p := rr_pay now wsum (peers ! p)]))"

text \<open>The choice in one group, and in the chain of groups: the position of the group, that of the server in it, the
  bitmap and the groups; or \<^verbatim>\<open>NGX_BUSY\<close>.\<close>

definition rr_choose :: "int \<Rightarrow> u64 list \<Rightarrow> rr_peers \<Rightarrow> nat option \<times> u64 list \<times> rr_peer list" where
  "rr_choose now tried g =
     (if rr_single g then
        let peer = hd (rr_list g) in
        if down peer then (None, tried, rr_list g)
        else if rr_busy peer then (None, tried, rr_list g)
        else (Some 0, tried, rr_list g)
      else ngx_http_upstream_get_peer now tried (rr_list g))"

definition rr_clear :: "u64 list \<Rightarrow> rr_peers \<Rightarrow> u64 list" where
  "rr_clear tried g =
     (let n = (length (rr_list g) + 63) div 64 in replicate n 0 @ drop n tried)"

definition rr_connect :: "nat \<Rightarrow> rr_peer list \<Rightarrow> rr_peer list" where
  "rr_connect p peers = peers[p := (peers ! p)\<lparr>conns := conns (peers ! p) + 1\<rparr>]"

datatype rr_result = Rr_ok nat nat "u64 list" | Rr_busy

fun ngx_http_upstream_get_round_robin_peer ::
  "int \<Rightarrow> u64 list \<Rightarrow> rr_peers list \<Rightarrow> rr_result \<times> rr_peers list" where
  "ngx_http_upstream_get_round_robin_peer now tried [] = (Rr_busy, [])"
| "ngx_http_upstream_get_round_robin_peer now tried (g # gs) =
     (case rr_choose now tried g of
        (Some p, tried, peers) \<Rightarrow> (Rr_ok 0 p tried, g\<lparr>rr_list := rr_connect p peers\<rparr> # gs)
      | (None, tried, peers) \<Rightarrow>
          let g = g\<lparr>rr_list := peers\<rparr> in
          (case gs of
             [] \<Rightarrow> (Rr_busy, [g])
           | backup # _ \<Rightarrow>
               (case ngx_http_upstream_get_round_robin_peer now (rr_clear tried backup) gs of
                  (Rr_ok k p tried, gs) \<Rightarrow> (Rr_ok (k + 1) p tried, g # gs)
                | (Rr_busy, gs) \<Rightarrow> (Rr_busy, g # gs))))"

text \<open>The end of a request: the server and the number of tries left.\<close>

definition ngx_http_upstream_free_round_robin_peer ::
  "int \<Rightarrow> bool \<Rightarrow> bool \<Rightarrow> nat \<Rightarrow> rr_peer \<Rightarrow> rr_peer \<times> nat" where
  "ngx_http_upstream_free_round_robin_peer now single failed tries peer =
     (if single then (peer\<lparr>conns := conns peer - 1\<rparr>, 0)
      else
        let peer =
          (if failed then
             let peer = peer\<lparr>fails := fails peer + 1, accessed := now, checked := now\<rparr>;
                 peer =
                   (if max_fails peer \<noteq> 0 then
                      peer\<lparr>effective_weight := effective_weight peer - weight peer div int (unat (max_fails peer))\<rparr>
                    else peer)
             in if effective_weight peer < 0 then peer\<lparr>effective_weight := 0\<rparr> else peer
           else if accessed peer < checked peer then peer\<lparr>fails := 0\<rparr>
           else peer)
        in (peer\<lparr>conns := conns peer - 1\<rparr>, if tries \<noteq> 0 then tries - 1 else tries))"

text \<open>The bitmap that a request starts with.\<close>

definition rr_init_tried :: "rr_peers list \<Rightarrow> u64 list" where
  "rr_init_tried gs =
     (let n = length (rr_list (gs ! 0));
          n = (if 1 < length gs \<and> n < length (rr_list (gs ! 1)) then length (rr_list (gs ! 1)) else n)
      in if n \<le> 64 then [0] else replicate ((n + 63) div 64) 0)"

subsection \<open>What the loop computes\<close>

lemma rr_loop_skip:
  "rr_skip now tried i peer \<Longrightarrow> rr_loop now tried i best s (peer # ps) =
     (peer # fst (rr_loop now tried (i + 1) best s ps), snd (rr_loop now tried (i + 1) best s ps))"
  by (simp add: case_prod_beta)

lemma rr_loop_take:
  "\<not> rr_skip now tried i peer \<Longrightarrow> rr_loop now tried i best s (peer # ps) =
     (let rest = rr_loop now tried (i + 1) (rr_better i (rr_weigh peer) best) (s + effective_weight peer) ps
      in (rr_weigh peer # fst rest, snd rest))"
  by (simp add: case_prod_beta Let_def)

lemmas rr_loop_Cons = rr_loop_skip rr_loop_take

lemma rr_loop_length [simp]: "length (fst (rr_loop now tried i best s ps)) = length ps"
proof (induction ps arbitrary: i best s)
  case (Cons peer ps)
  then show ?case by (cases "rr_skip now tried i peer") (simp_all add: rr_loop_Cons Let_def del: rr_loop.simps)
qed simp

lemma rr_loop_nth:
  "j < length ps \<Longrightarrow>
     fst (rr_loop now tried i best s ps) ! j =
       (if rr_skip now tried (i + j) (ps ! j) then ps ! j else rr_weigh (ps ! j))"
proof (induction ps arbitrary: i best s j)
  case (Cons peer ps)
  then show ?case
    by (cases j; cases "rr_skip now tried i peer") (simp_all add: rr_loop_Cons Let_def del: rr_loop.simps)
qed simp

lemma rr_weigh_current [simp]: "current_weight (rr_weigh peer) = current_weight peer + effective_weight peer"
  by (simp add: rr_weigh_def Let_def)

lemma rr_loop_sum:
  "sum_list (map current_weight (fst (rr_loop now tried i best s ps))) + s =
     sum_list (map current_weight ps) + snd (snd (rr_loop now tried i best s ps))"
proof (induction ps arbitrary: i best s)
  case (Cons peer ps)
  show ?case
  proof (cases "rr_skip now tried i peer")
    case True
    with Cons.IH [of "i + 1" best s] show ?thesis by (simp add: rr_loop_Cons del: rr_loop.simps)
  next
    case False
    with Cons.IH [of "i + 1" "rr_better i (rr_weigh peer) best" "s + effective_weight peer"] show ?thesis
      by (simp add: rr_loop_Cons Let_def del: rr_loop.simps)
  qed
qed simp

text \<open>The best server so far and the servers to come.\<close>

definition rr_best_of ::
  "int \<Rightarrow> u64 list \<Rightarrow> nat \<Rightarrow> rr_peer list \<Rightarrow> rr_peer list \<Rightarrow> (nat \<times> rr_peer) option \<Rightarrow> (nat \<times> rr_peer) option \<Rightarrow> bool" where
  "rr_best_of now tried i ps ps' best best' \<longleftrightarrow>
     (case best' of
        None \<Rightarrow> best = None \<and> (\<forall>j < length ps. rr_skip now tried (i + j) (ps ! j))
      | Some (p, b) \<Rightarrow>
          (best = Some (p, b) \<or>
             i \<le> p \<and> p < i + length ps \<and> \<not> rr_skip now tried p (ps ! (p - i)) \<and> b = ps' ! (p - i)) \<and>
          (\<forall>j < length ps. \<not> rr_skip now tried (i + j) (ps ! j) \<longrightarrow> current_weight (ps' ! j) \<le> current_weight b) \<and>
          (\<forall>q c. best = Some (q, c) \<longrightarrow> current_weight c \<le> current_weight b))"

lemma rr_best_of_skip:
  assumes "rr_best_of now tried (i + 1) ps ps' best best'" "rr_skip now tried i peer"
  shows "rr_best_of now tried i (peer # ps) (peer # ps') best best'"
proof (cases best')
  case None
  with assms show ?thesis by (auto simp: rr_best_of_def nth_Cons' less_Suc_eq_0_disj)
next
  case (Some pb)
  obtain p b where pb: "pb = (p, b)" by (cases pb)
  from assms(1) Some pb have rest: "best = Some (p, b) \<or>
      Suc i \<le> p \<and> p < Suc i + length ps \<and> \<not> rr_skip now tried p (ps ! (p - Suc i)) \<and> b = ps' ! (p - Suc i)"
    "\<forall>j < length ps. \<not> rr_skip now tried (Suc i + j) (ps ! j) \<longrightarrow> current_weight (ps' ! j) \<le> current_weight b"
    "\<forall>q c. best = Some (q, c) \<longrightarrow> current_weight c \<le> current_weight b"
    by (simp_all add: rr_best_of_def)
  have "best = Some (p, b) \<or> i \<le> p \<and> p < i + length (peer # ps) \<and>
      \<not> rr_skip now tried p ((peer # ps) ! (p - i)) \<and> b = (peer # ps') ! (p - i)"
    using rest(1) by (auto simp: nth_Cons')
  moreover have "current_weight ((peer # ps') ! j) \<le> current_weight b"
    if "j < length (peer # ps)" "\<not> rr_skip now tried (i + j) ((peer # ps) ! j)" for j
    using that rest(2) assms(2) by (cases j) auto
  ultimately show ?thesis
    using rest(3) Some pb unfolding rr_best_of_def by simp
qed

lemma rr_better_cases:
  "\<exists>q c. rr_better i peer' best = Some (q, c) \<and> current_weight peer' \<le> current_weight c \<and>
     (q = i \<and> c = peer' \<or> best = Some (q, c)) \<and>
     (\<forall>q' c'. best = Some (q', c') \<longrightarrow> current_weight c' \<le> current_weight c)"
  by (cases best) (auto simp: rr_better_def)

lemma rr_best_of_better:
  assumes "rr_best_of now tried (i + 1) ps ps' (rr_better i peer' best) best'" "\<not> rr_skip now tried i peer"
  shows "rr_best_of now tried i (peer # ps) (peer' # ps') best best'"
proof -
  obtain q c where q: "rr_better i peer' best = Some (q, c)" "current_weight peer' \<le> current_weight c"
    "q = i \<and> c = peer' \<or> best = Some (q, c)"
    "\<And>q' c'. best = Some (q', c') \<Longrightarrow> current_weight c' \<le> current_weight c"
    using rr_better_cases [of i peer' best] by blast
  with assms(1) obtain p b where pb: "best' = Some (p, b)"
    by (cases best') (auto simp: rr_best_of_def)
  with assms(1) q(1) have rest: "(q, c) = (p, b) \<or>
      Suc i \<le> p \<and> p < Suc i + length ps \<and> \<not> rr_skip now tried p (ps ! (p - Suc i)) \<and> b = ps' ! (p - Suc i)"
    "\<forall>j < length ps. \<not> rr_skip now tried (Suc i + j) (ps ! j) \<longrightarrow> current_weight (ps' ! j) \<le> current_weight b"
    "current_weight c \<le> current_weight b"
    by (simp_all add: rr_best_of_def)
  have "best = Some (p, b) \<or> i \<le> p \<and> p < i + length (peer # ps) \<and>
      \<not> rr_skip now tried p ((peer # ps) ! (p - i)) \<and> b = (peer' # ps') ! (p - i)"
    using rest(1) q(3) assms(2) by (auto simp: nth_Cons')
  moreover have "current_weight ((peer' # ps') ! j) \<le> current_weight b"
    if "j < length (peer # ps)" "\<not> rr_skip now tried (i + j) ((peer # ps) ! j)" for j
    using that rest(2,3) q(2) by (cases j) auto
  moreover have "current_weight c' \<le> current_weight b" if "best = Some (q', c')" for q' c'
    using q(4) [OF that] rest(3) by simp
  ultimately show ?thesis
    using pb unfolding rr_best_of_def by simp
qed

lemma rr_loop_best:
  "rr_best_of now tried i ps (fst (rr_loop now tried i best s ps)) best (fst (snd (rr_loop now tried i best s ps)))"
proof (induction ps arbitrary: i best s)
  case Nil
  then show ?case by (auto simp: rr_best_of_def split: option.split)
next
  case (Cons peer ps)
  show ?case
  proof (cases "rr_skip now tried i peer")
    case True
    show ?thesis using rr_best_of_skip [OF Cons.IH True] by (simp add: rr_loop_skip [OF True] del: rr_loop.simps)
  next
    case False
    show ?thesis using rr_best_of_better [OF Cons.IH False] by (simp add: rr_loop_take [OF False] Let_def del: rr_loop.simps)
  qed
qed

subsection \<open>What is chosen\<close>

text \<open>A server that is chosen may be, and no server that may be has more weight.\<close>

lemma get_peer_cases:
  assumes "ngx_http_upstream_get_peer now tried ps = (res, tried', ps')"
  shows "case res of
      None \<Rightarrow> (\<forall>j < length ps. rr_skip now tried j (ps ! j)) \<and> tried' = tried \<and> ps' = ps
    | Some p \<Rightarrow> p < length ps \<and> \<not> rr_skip now tried p (ps ! p) \<and> tried' = rr_try tried p \<and>
        (\<forall>j < length ps. \<not> rr_skip now tried j (ps ! j) \<longrightarrow>
          current_weight (ps ! j) + effective_weight (ps ! j) \<le> current_weight (ps ! p) + effective_weight (ps ! p)) \<and>
        ps' = (let qs = fst (rr_loop now tried 0 None 0 ps) in
               qs[p := rr_pay now (snd (snd (rr_loop now tried 0 None 0 ps))) (qs ! p)])"
proof -
  let ?loop = "rr_loop now tried 0 None 0 ps"
  let ?qs = "fst ?loop"
  note best = rr_loop_best [of now tried 0 ps None 0]
  have nth: "?qs ! j = (if rr_skip now tried j (ps ! j) then ps ! j else rr_weigh (ps ! j))" if "j < length ps" for j
    using rr_loop_nth [OF that, of now tried 0] by simp
  show ?thesis
  proof (cases "fst (snd ?loop)")
    case None
    with best have "\<forall>j < length ps. rr_skip now tried j (ps ! j)" by (simp add: rr_best_of_def)
    moreover from this have "?qs = ps" by (intro nth_equalityI) (simp_all add: nth)
    ultimately show ?thesis
      using assms None by (cases ?loop) (auto simp: ngx_http_upstream_get_peer_def)
  next
    case (Some pb)
    obtain p b where pb: "pb = (p, b)" by (cases pb)
    have "rr_best_of now tried 0 ps ?qs None (Some (p, b))" using best Some pb by simp
    then have p: "p < length ps" "\<not> rr_skip now tried p (ps ! p)" "b = ?qs ! p"
      "\<forall>j < length ps. \<not> rr_skip now tried j (ps ! j) \<longrightarrow> current_weight (?qs ! j) \<le> current_weight b"
      unfolding rr_best_of_def by auto
    have "\<forall>j < length ps. \<not> rr_skip now tried j (ps ! j) \<longrightarrow>
        current_weight (ps ! j) + effective_weight (ps ! j) \<le> current_weight (ps ! p) + effective_weight (ps ! p)"
      using p nth by simp
    with assms Some pb p(1,2) show ?thesis
      by (cases ?loop) (auto simp: ngx_http_upstream_get_peer_def)
  qed
qed

lemma rr_pay_current [simp]: "current_weight (rr_pay now s peer) = current_weight peer - s"
  by (simp add: rr_pay_def Let_def)

lemma sum_list_update_int:
  "p < length xs \<Longrightarrow> sum_list (xs[p := x]) = sum_list xs + x - (xs ! p :: int)"
proof (induction xs arbitrary: p)
  case (Cons y ys)
  then show ?case by (cases p) auto
qed simp

text \<open>The weights sum up to what they did.\<close>

lemma get_peer_sum:
  assumes "ngx_http_upstream_get_peer now tried ps = (res, tried', ps')"
  shows "sum_list (map current_weight ps') = sum_list (map current_weight ps)"
proof (cases res)
  case None
  with get_peer_cases [OF assms] show ?thesis by simp
next
  case (Some p)
  let ?loop = "rr_loop now tried 0 None 0 ps"
  from Some get_peer_cases [OF assms] have "p < length (map current_weight (fst ?loop))"
    "map current_weight ps' = (map current_weight (fst ?loop))
       [p := map current_weight (fst ?loop) ! p - snd (snd ?loop)]"
    by (simp_all add: Let_def map_update)
  with rr_loop_sum [of now tried 0 None 0 ps] show ?thesis
    by (simp add: sum_list_update_int)
qed

text \<open>The effective weight stays between zero and the configured weight.\<close>

definition rr_peer_ok :: "rr_peer \<Rightarrow> bool" where
  "rr_peer_ok peer \<longleftrightarrow> 0 \<le> effective_weight peer \<and> effective_weight peer \<le> weight peer"

lemma get_peer_ok:
  assumes "ngx_http_upstream_get_peer now tried ps = (res, tried', ps')" "list_all rr_peer_ok ps"
  shows "list_all rr_peer_ok ps'"
proof -
  have ok: "rr_peer_ok peer \<Longrightarrow> rr_peer_ok (rr_weigh peer)" "rr_peer_ok peer \<Longrightarrow> rr_peer_ok (rr_pay now s peer)"
    for peer s
    by (auto simp: rr_peer_ok_def rr_weigh_def rr_pay_def Let_def)
  have loop: "\<forall>j < length ps. rr_peer_ok (fst (rr_loop now tried 0 None 0 ps) ! j)"
    using assms(2) ok(1) by (auto simp: rr_loop_nth list_all_length)
  show ?thesis
  proof (cases res)
    case None
    with assms get_peer_cases [OF assms(1)] show ?thesis by simp
  next
    case (Some p)
    with loop ok(2) get_peer_cases [OF assms(1)] show ?thesis
      by (auto simp: Let_def list_all_length nth_list_update)
  qed
qed

subsection \<open>A cycle of requests\<close>

text \<open>Requests one after the other, each with a bitmap of its own and one group of servers.\<close>

fun rr_serve :: "int list \<Rightarrow> rr_peers \<Rightarrow> nat option list \<times> rr_peers" where
  "rr_serve [] g = ([], g)"
| "rr_serve (now # clocks) g =
     (case ngx_http_upstream_get_round_robin_peer now (rr_init_tried [g]) [g] of
        (Rr_ok k p tried, gs) \<Rightarrow> (case rr_serve clocks (hd gs) of (picks, g) \<Rightarrow> (Some p # picks, g))
      | (Rr_busy, gs) \<Rightarrow> (case rr_serve clocks (hd gs) of (picks, g) \<Rightarrow> (None # picks, g)))"

text \<open>A server without failures and limits.\<close>

definition rr_healthy :: "rr_peer \<Rightarrow> bool" where
  "rr_healthy peer \<longleftrightarrow> \<not> down peer \<and> max_conns peer = 0 \<and> (max_fails peer = 0 \<or> fails peer < max_fails peer) \<and>
     0 < weight peer \<and> effective_weight peer = weight peer"

lemma rr_init_tried_clear: "i < length (rr_list g) \<Longrightarrow> \<not> rr_tried (rr_init_tried [g]) i"
proof -
  assume i: "i < length (rr_list g)"
  then have "rr_init_tried [g] ! (i div 64) = 0"
    by (auto simp: rr_init_tried_def Let_def)
  then show ?thesis by (simp add: rr_tried_def)
qed

lemma rr_healthy_weigh:
  "rr_healthy peer \<Longrightarrow> rr_weigh peer = peer\<lparr>current_weight := current_weight peer + weight peer\<rparr>"
  by (simp add: rr_healthy_def rr_weigh_def Let_def)

lemma sum_list_nth_int: "sum_list (map f xs) = (\<Sum>j<length xs. f (xs ! j :: 'a) :: int)"
  by (simp add: sum_list_sum_nth atLeast0LessThan)

text \<open>One request.\<close>

lemma rr_serve_step:
  assumes "\<not> rr_single g" "rr_list g \<noteq> []" "list_all rr_healthy (rr_list g)"
  defines "w \<equiv> \<lambda>j. weight (rr_list g ! j)" and "c \<equiv> \<lambda>j. current_weight (rr_list g ! j)"
    and "n \<equiv> length (rr_list g)"
  shows "\<exists>p tried ps'. ngx_http_upstream_get_round_robin_peer now (rr_init_tried [g]) [g] =
      (Rr_ok 0 p tried, [g\<lparr>rr_list := ps'\<rparr>]) \<and>
    p < n \<and> length ps' = n \<and> list_all rr_healthy ps' \<and> (\<forall>j < n. weight (ps' ! j) = w j) \<and>
    (\<forall>j < n. c j + w j \<le> c p + w p) \<and>
    (\<forall>j < n. current_weight (ps' ! j) = c j + w j - (if j = p then \<Sum>i<n. w i else 0))"
proof -
  let ?ps = "rr_list g" and ?tried = "rr_init_tried [g]"
  let ?qs = "fst (rr_loop now ?tried 0 None 0 ?ps)" and ?W = "snd (snd (rr_loop now ?tried 0 None 0 ?ps))"
  obtain res tried qs where choose: "ngx_http_upstream_get_peer now ?tried ?ps = (res, tried, qs)"
    by (cases "ngx_http_upstream_get_peer now ?tried ?ps")
  have healthy: "rr_healthy (?ps ! j)" if "j < n" for j using assms(3) that by (simp add: n_def list_all_length)
  have skip: "\<not> rr_skip now ?tried j (?ps ! j)" if "j < n" for j
    using healthy [OF that] rr_init_tried_clear [of j g] that
    by (auto simp: rr_skip_def rr_healthy_def rr_busy_def n_def)
  from get_peer_cases [OF choose] skip assms(2) obtain p where res: "res = Some p"
    by (cases res) (auto simp: n_def)
  with get_peer_cases [OF choose] have p: "p < n" "qs = ?qs[p := rr_pay now ?W (?qs ! p)]"
    and best: "\<And>j. j < n \<Longrightarrow> \<not> rr_skip now ?tried j (?ps ! j) \<Longrightarrow>
      c j + effective_weight (?ps ! j) \<le> c p + effective_weight (?ps ! p)"
    by (auto simp: n_def c_def Let_def)
  have q: "?qs ! j = (?ps ! j)\<lparr>current_weight := c j + w j\<rparr>" if "j < n" for j
    using rr_loop_nth [of j ?ps now ?tried 0] skip [OF that] rr_healthy_weigh [OF healthy [OF that]] that
    by (simp add: n_def c_def w_def)
  have "sum_list (map current_weight ?qs) = sum_list (map current_weight ?ps) + ?W"
    using rr_loop_sum [of now ?tried 0 None 0 ?ps] by simp
  then have W: "?W = (\<Sum>i<n. w i)"
    using q by (simp add: sum_list_nth_int n_def [symmetric] sum.distrib) (simp add: c_def)
  let ?ps' = "rr_connect p qs"
  have ps': "length ?ps' = n" "j < n \<Longrightarrow> ?ps' ! j =
      (if j = p then (qs ! j)\<lparr>conns := conns (qs ! j) + 1\<rparr> else qs ! j)" for j
    by (simp_all add: rr_connect_def p(2) n_def)
  have qs: "qs ! j = (if j = p then rr_pay now ?W ((?ps ! j)\<lparr>current_weight := c j + w j\<rparr>)
      else (?ps ! j)\<lparr>current_weight := c j + w j\<rparr>)" if "j < n" for j
    using that p q [OF that] q [OF p(1)] by (auto simp: n_def nth_list_update)
  have "list_all rr_healthy ?ps'"
    using healthy by (auto simp: list_all_length ps' qs rr_healthy_def rr_pay_def Let_def)
  moreover have "\<forall>j < n. weight (?ps' ! j) = w j"
    by (auto simp: ps' qs w_def rr_pay_def Let_def)
  moreover have "\<forall>j < n. c j + w j \<le> c p + w p"
    using best skip healthy p(1) by (auto simp: w_def rr_healthy_def)
  moreover have "\<forall>j < n. current_weight (?ps' ! j) = c j + w j - (if j = p then \<Sum>i<n. w i else 0)"
    using W by (auto simp: ps' qs)
  moreover have "ngx_http_upstream_get_round_robin_peer now ?tried [g] = (Rr_ok 0 p tried, [g\<lparr>rr_list := ?ps'\<rparr>])"
    using choose res assms(1) by (simp add: rr_choose_def)
  ultimately show ?thesis using p(1) ps'(1) by blast
qed

text \<open>Every weight stays above minus the sum of all: the best one was positive before it paid.\<close>

lemma rr_pay_bound:
  fixes c w :: "nat \<Rightarrow> int"
  assumes "p < n" "\<And>j. j < n \<Longrightarrow> c j + w j \<le> c p + w p" "(\<Sum>j<n. c j) = 0" "0 < (\<Sum>j<n. w j)"
  shows "0 < c p + w p"
proof (rule ccontr)
  assume "\<not> 0 < c p + w p"
  with assms(2) have "\<And>j. j < n \<Longrightarrow> c j + w j \<le> 0" by fastforce
  then have "(\<Sum>j<n. c j + w j) \<le> 0" by (intro sum_nonpos) auto
  with assms(3,4) show False by (simp add: sum.distrib)
qed

text \<open>After \<open>k\<close> requests a server has gained its weight \<open>k\<close> times and paid as often as it was picked.\<close>

lemma rr_serve_picks:
  fixes w :: "nat \<Rightarrow> int"
  assumes "\<not> rr_single g" "rr_list g \<noteq> []" "list_all rr_healthy (rr_list g)"
    and "\<And>j. j < n \<Longrightarrow> weight (rr_list g ! j) = w j" "length (rr_list g) = n"
    and "(\<Sum>j<n. current_weight (rr_list g ! j)) = 0"
    and "\<And>j. j < n \<Longrightarrow> - (\<Sum>i<n. w i) < current_weight (rr_list g ! j)"
  shows "\<exists>picks g'. rr_serve clocks g = (map Some picks, g') \<and> set picks \<subseteq> {..<n} \<and> length (rr_list g') = n \<and>
    list_all rr_healthy (rr_list g') \<and> (\<Sum>j<n. current_weight (rr_list g' ! j)) = 0 \<and>
    (\<forall>j < n. - (\<Sum>i<n. w i) < current_weight (rr_list g' ! j) \<and>
       current_weight (rr_list g' ! j) = current_weight (rr_list g ! j) +
         int (length clocks) * w j - int (count_list picks j) * (\<Sum>i<n. w i))"
  using assms
proof (induction clocks arbitrary: g)
  case Nil
  then show ?case by (intro exI [of _ "[]"] exI [of _ g]) simp
next
  case (Cons now clocks)
  let ?W = "\<Sum>i<n. w i" and ?c = "\<lambda>j. current_weight (rr_list g ! j)"
  have sw: "(\<Sum>i<n. weight (rr_list g ! i)) = ?W" using Cons.prems(4) by (intro sum.cong) auto
  from rr_serve_step [OF Cons.prems(1-3), of now, unfolded Cons.prems(5) sw] obtain p tried ps' where
    step: "ngx_http_upstream_get_round_robin_peer now (rr_init_tried [g]) [g] = (Rr_ok 0 p tried, [g\<lparr>rr_list := ps'\<rparr>])"
      "p < n" "length ps' = n" "list_all rr_healthy ps'" "\<And>j. j < n \<Longrightarrow> weight (ps' ! j) = w j"
      "\<And>j. j < n \<Longrightarrow> ?c j + w j \<le> ?c p + w p"
      "\<And>j. j < n \<Longrightarrow> current_weight (ps' ! j) = ?c j + w j - (if j = p then ?W else 0)"
    using Cons.prems(4) by auto
  have pos: "0 < w j" if "j < n" for j
    using Cons.prems(3,4,5) that by (auto simp: list_all_length rr_healthy_def)
  then have "0 < ?W" using step(2) by (intro sum_pos) auto
  then have bp: "0 < ?c p + w p"
    using rr_pay_bound [of p n ?c w] step(2,6) Cons.prems(6) by blast
  let ?g = "g\<lparr>rr_list := ps'\<rparr>"
  have zero: "(\<Sum>j<n. current_weight (rr_list ?g ! j)) = 0"
    using step(2,7) Cons.prems(6) by (simp add: sum_subtractf sum.distrib sum.delta)
  have low: "\<And>j. j < n \<Longrightarrow> - ?W < current_weight (rr_list ?g ! j)"
    using step(7) Cons.prems(7) bp pos by (fastforce split: if_splits)
  have "ps' \<noteq> []" using step(2,3) by auto
  with step(3-5) Cons.prems(1) have g: "\<not> rr_single ?g" "rr_list ?g \<noteq> []" "list_all rr_healthy (rr_list ?g)"
    "\<And>j. j < n \<Longrightarrow> weight (rr_list ?g ! j) = w j" "length (rr_list ?g) = n"
    by simp_all
  from Cons.IH [OF g zero low] obtain picks g' where
    rec: "rr_serve clocks ?g = (map Some picks, g')" "set picks \<subseteq> {..<n}" "length (rr_list g') = n"
      "list_all rr_healthy (rr_list g')" "(\<Sum>j<n. current_weight (rr_list g' ! j)) = 0"
      "\<forall>j < n. - ?W < current_weight (rr_list g' ! j) \<and>
         current_weight (rr_list g' ! j) = current_weight (rr_list ?g ! j) + int (length clocks) * w j -
           int (count_list picks j) * ?W"
    by blast
  have sub: "set (p # picks) \<subseteq> {..<n}" using rec(2) step(2) by simp
  have "rr_serve (now # clocks) g = (map Some (p # picks), g')" using step(1) rec(1) by simp
  moreover have "current_weight (rr_list g' ! j) = ?c j + int (length (now # clocks)) * w j -
      int (count_list (p # picks) j) * ?W" if "j < n" for j
    using rec(6) step(7) [OF that] that by (auto simp: algebra_simps)
  ultimately show ?case
    using rec(3-6) sub by blast
qed

subsection \<open>Properties\<close>

text \<open>C7. Servers without failures and limits are picked in proportion to their weights: in any run of as many
requests as the weights add up to, starting from fresh weights, every server is picked exactly as often as
its weight says, and the weights are then fresh again, so that the next such run is like it.\<close>

theorem round_robin_cycle:
  assumes "\<not> rr_single g" "rr_list g \<noteq> []" "list_all rr_healthy (rr_list g)"
    and "list_all (\<lambda>peer. current_weight peer = 0) (rr_list g)"
    and "int (length clocks) = sum_list (map weight (rr_list g))"
  shows "\<exists>picks g'. rr_serve clocks g = (map Some picks, g') \<and>
    (\<forall>i < length (rr_list g). int (count_list picks i) = weight (rr_list g ! i)) \<and>
    list_all rr_healthy (rr_list g') \<and> list_all (\<lambda>peer. current_weight peer = 0) (rr_list g')"
proof -
  let ?n = "length (rr_list g)" and ?w = "\<lambda>j. weight (rr_list g ! j)"
  let ?W = "\<Sum>i<?n. ?w i"
  have c0: "current_weight (rr_list g ! j) = 0" if "j < ?n" for j
    using assms(4) that by (simp add: list_all_length)
  have "0 < ?w j" if "j < ?n" for j
    using assms(3) that by (simp add: list_all_length rr_healthy_def)
  then have W: "0 < ?W" using assms(2) by (intro sum_pos) auto
  have zero: "(\<Sum>j<?n. current_weight (rr_list g ! j)) = 0" using c0 by simp
  have low: "\<And>j. j < ?n \<Longrightarrow> - ?W < current_weight (rr_list g ! j)" using c0 W by simp
  from rr_serve_picks [OF assms(1-3) refl refl zero low, of clocks] obtain picks g' where
    run: "rr_serve clocks g = (map Some picks, g')" "length (rr_list g') = ?n" "list_all rr_healthy (rr_list g')"
      "(\<Sum>j<?n. current_weight (rr_list g' ! j)) = 0"
      "\<And>j. j < ?n \<Longrightarrow> - ?W < current_weight (rr_list g' ! j) \<and>
         current_weight (rr_list g' ! j) = current_weight (rr_list g ! j) + int (length clocks) * ?w j -
           int (count_list picks j) * ?W"
    by blast
  have len: "int (length clocks) = ?W" using assms(5) by (simp add: sum_list_nth_int)
  have cw: "current_weight (rr_list g' ! j) = ?W * (?w j - int (count_list picks j))" if "j < ?n" for j
    using run(5) [OF that] c0 [OF that] len by (simp add: algebra_simps)
  have nonneg: "0 \<le> ?w j - int (count_list picks j)" if "j < ?n" for j
  proof (rule ccontr)
    assume "\<not> 0 \<le> ?w j - int (count_list picks j)"
    then have "?W * (?w j - int (count_list picks j)) \<le> ?W * (- 1)" using W by (intro mult_left_mono) auto
    with cw [OF that] run(5) [OF that] show False by simp
  qed
  then have "\<And>j. j < ?n \<Longrightarrow> 0 \<le> current_weight (rr_list g' ! j)" using cw W by simp
  with run(4) have all0: "current_weight (rr_list g' ! j) = 0" if "j < ?n" for j
    using that by (subst (asm) sum_nonneg_eq_0_iff) auto
  with cw W have "int (count_list picks j) = ?w j" if "j < ?n" for j
    using that by fastforce
  with run all0 show ?thesis by (auto simp: list_all_length)
qed

text \<open>Weights 2 and 1: the first server, the second, the first again.\<close>

definition rr_server :: "int \<Rightarrow> rr_peer" where
  "rr_server wt =
     \<lparr>current_weight = 0, effective_weight = wt, weight = wt, conns = 0, max_conns = 0, fails = 0, accessed = 0,
      checked = 0, max_fails = 1, fail_timeout = 10, down = False\<rparr>"

theorem round_robin_cycle_witness:
  "\<exists>picks g'. rr_serve [5, 5, 6] \<lparr>rr_single = False, rr_list = [rr_server 2, rr_server 1]\<rparr> = (map Some picks, g') \<and>
     count_list picks 0 = 2 \<and> count_list picks 1 = 1"
proof -
  let ?g = "\<lparr>rr_single = False, rr_list = [rr_server 2, rr_server 1]\<rparr>"
  from round_robin_cycle [of ?g "[5, 5, 6]"] obtain picks g' where
    "rr_serve [5, 5, 6] ?g = (map Some picks, g')"
    "\<forall>i < length (rr_list ?g). int (count_list picks i) = weight (rr_list ?g ! i)"
    by (auto simp: rr_server_def rr_healthy_def)
  moreover from this(2) [THEN spec, of 0] this(2) [THEN spec, of 1]
  have "count_list picks 0 = 2" "count_list picks 1 = 1" by (simp_all add: rr_server_def)
  ultimately show ?thesis by blast
qed

text \<open>Which server of a group a request may use.\<close>

definition rr_may :: "int \<Rightarrow> u64 list \<Rightarrow> rr_peers \<Rightarrow> nat \<Rightarrow> bool" where
  "rr_may now tried g p \<longleftrightarrow> p < length (rr_list g) \<and>
     (let peer = rr_list g ! p in
      \<not> down peer \<and> (max_conns peer = 0 \<or> conns peer < max_conns peer) \<and>
      (\<not> rr_single g \<longrightarrow> \<not> rr_tried tried p \<and>
         (max_fails peer = 0 \<or> fails peer < max_fails peer \<or> fail_timeout peer < now - checked peer)))"

lemma rr_may_iff:
  "rr_may now tried g p \<longleftrightarrow> p < length (rr_list g) \<and>
     (if rr_single g then \<not> down (rr_list g ! p) \<and> \<not> rr_busy (rr_list g ! p)
      else \<not> rr_skip now tried p (rr_list g ! p))"
  by (auto simp: rr_may_def rr_skip_def rr_busy_def Let_def not_le not_less)

lemma rr_may_length: "rr_may now tried g p \<Longrightarrow> p < length (rr_list g)"
  by (simp add: rr_may_def)

definition rr_group_ok :: "u64 list \<Rightarrow> rr_peers \<Rightarrow> bool" where
  "rr_group_ok tried g \<longleftrightarrow> (rr_single g \<longrightarrow> length (rr_list g) = 1) \<and> length (rr_list g) \<le> 64 * length tried"

lemma rr_tried_try:
  assumes "p < 64 * length tried"
  shows "rr_tried (rr_try tried p) p"
proof -
  have "(x OR push_bit (p mod 64) 1) AND push_bit (p mod 64) 1 = (push_bit (p mod 64) 1 :: u64)" for x
    by (auto simp: bit_eq_iff bit_simps)
  moreover have "push_bit (p mod 64) 1 \<noteq> (0 :: u64)"
    by (simp add: push_bit_eq_0_iff)
  moreover have "p div 64 < length tried" using assms by simp
  ultimately show ?thesis by (simp add: rr_tried_def rr_try_def)
qed

lemma rr_choose_cases:
  assumes "rr_choose now tried g = (res, tried', ps')" "rr_group_ok tried g"
  shows "case res of
      None \<Rightarrow> (\<forall>p. \<not> rr_may now tried g p) \<and> tried' = tried \<and> ps' = rr_list g
    | Some p \<Rightarrow> rr_may now tried g p \<and> (\<not> rr_single g \<longrightarrow> rr_tried tried' p) \<and> length ps' = length (rr_list g) \<and>
        conns (ps' ! p) = conns (rr_list g ! p)"
proof (cases "rr_single g")
  case True
  with assms(2) obtain peer where peer: "rr_list g = [peer]" by (auto simp: rr_group_ok_def length_Suc_conv)
  show ?thesis
    using True assms(1) unfolding rr_choose_def rr_may_iff peer by (auto simp: Let_def split: if_splits)
next
  case False
  with assms(1) have peer: "ngx_http_upstream_get_peer now tried (rr_list g) = (res, tried', ps')"
    by (simp add: rr_choose_def)
  show ?thesis
  proof (cases res)
    case None
    with False get_peer_cases [OF peer] show ?thesis by (auto simp: rr_may_iff)
  next
    case (Some p)
    have "conns (rr_pay now s (rr_weigh q)) = conns q" for s q by (simp add: rr_pay_def rr_weigh_def Let_def)
    with Some False get_peer_cases [OF peer] rr_tried_try [of p tried] assms(2) show ?thesis
      by (auto simp: rr_may_iff rr_group_ok_def Let_def rr_loop_nth)
  qed
qed



text \<open>The choice and the end of a request keep every effective weight between zero and the configured weight,
whatever fails, and the choice leaves the sum of the current weights as it was.\<close>

theorem round_robin_weights:
  assumes "list_all rr_peer_ok ps" "ngx_http_upstream_get_peer now tried ps = (res, tried', ps')" "rr_peer_ok peer"
  shows "list_all rr_peer_ok ps' \<and>
    sum_list (map current_weight ps') = sum_list (map current_weight ps) \<and>
    rr_peer_ok (fst (ngx_http_upstream_free_round_robin_peer now single failed tries peer))"
proof -
  have "0 \<le> weight peer div int (unat (max_fails peer))"
    using assms(3) by (intro pos_imp_zdiv_nonneg_iff [THEN iffD2] div_int_pos_iff [THEN iffD2]) (auto simp: rr_peer_ok_def)
  then have "rr_peer_ok (fst (ngx_http_upstream_free_round_robin_peer now single failed tries peer))"
    using assms(3) by (auto simp: ngx_http_upstream_free_round_robin_peer_def rr_peer_ok_def Let_def)
  with get_peer_sum [OF assms(2)] get_peer_ok [OF assms(2,1)] show ?thesis by simp
qed

theorem round_robin_weights_witness:
  "\<exists>ps'. ngx_http_upstream_get_peer 0 [0] [rr_server 2] = (Some 0, [1], ps') \<and> list_all rr_peer_ok ps' \<and>
     rr_peer_ok (fst (ngx_http_upstream_free_round_robin_peer 0 False True 1 (rr_server 2)))"
proof -
  have ok: "rr_peer_ok (rr_server 2)" by (simp add: rr_peer_ok_def rr_server_def)
  obtain ps' where run: "ngx_http_upstream_get_peer 0 [0] [rr_server 2] = (Some 0, [1], ps')"
    by (simp add: ngx_http_upstream_get_peer_def rr_skip_def rr_tried_def rr_server_def rr_busy_def Let_def
        rr_better_def rr_try_def)
  from round_robin_weights [OF _ this ok, of False True 1] ok run show ?thesis by auto
qed

end
