(* ===== verification/Http_V2_Table.thy ===== *)
theory Http_V2_Table
  imports Prelude
begin

section \<open>The tables of HPACK\<close>

text \<open>
  \<^verbatim>\<open>src/http/v2/ngx_http_v2_table.c\<close>: the static table, and the dynamic table of a connection, kept in a ring of
  \<^verbatim>\<open>NGX_HTTP_V2_TABLE_SIZE\<close> bytes for the texts and a growing ring of pointers to the entries. The entries that
  were allocated are a list, a pointer is a position in it; pointers into the storage are offsets from its
  start and may be its end. An array that was just allocated holds zeros. The failure of an allocation is
  left out, and counters are natural numbers: they wrap only after \<^verbatim>\<open>2^64\<close> entries.

  The dynamic table is shown to implement the table of RFC 7541, section 4: a list of headers, newest first, that
  loses its oldest ones when the size is exceeded.
\<close>

abbreviation NGX_HTTP_V2_TABLE_SIZE :: nat where "NGX_HTTP_V2_TABLE_SIZE \<equiv> 4096"

record header =
  h_name :: "byte list"
  h_value :: "byte list"

definition static_header :: "string \<Rightarrow> string \<Rightarrow> header" where
  "static_header name val = \<lparr>h_name = bytes_of name, h_value = bytes_of val\<rparr>"

definition ngx_http_v2_static_table :: "header list" where
  "ngx_http_v2_static_table =
    [static_header '':authority'' '''',
     static_header '':method'' ''GET'',
     static_header '':method'' ''POST'',
     static_header '':path'' ''/'',
     static_header '':path'' ''/index.html'',
     static_header '':scheme'' ''http'',
     static_header '':scheme'' ''https'',
     static_header '':status'' ''200'',
     static_header '':status'' ''204'',
     static_header '':status'' ''206'',
     static_header '':status'' ''304'',
     static_header '':status'' ''400'',
     static_header '':status'' ''404'',
     static_header '':status'' ''500'',
     static_header ''accept-charset'' '''',
     static_header ''accept-encoding'' ''gzip, deflate'',
     static_header ''accept-language'' '''',
     static_header ''accept-ranges'' '''',
     static_header ''accept'' '''',
     static_header ''access-control-allow-origin'' '''',
     static_header ''age'' '''',
     static_header ''allow'' '''',
     static_header ''authorization'' '''',
     static_header ''cache-control'' '''',
     static_header ''content-disposition'' '''',
     static_header ''content-encoding'' '''',
     static_header ''content-language'' '''',
     static_header ''content-length'' '''',
     static_header ''content-location'' '''',
     static_header ''content-range'' '''',
     static_header ''content-type'' '''',
     static_header ''cookie'' '''',
     static_header ''date'' '''',
     static_header ''etag'' '''',
     static_header ''expect'' '''',
     static_header ''expires'' '''',
     static_header ''from'' '''',
     static_header ''host'' '''',
     static_header ''if-match'' '''',
     static_header ''if-modified-since'' '''',
     static_header ''if-none-match'' '''',
     static_header ''if-range'' '''',
     static_header ''if-unmodified-since'' '''',
     static_header ''last-modified'' '''',
     static_header ''link'' '''',
     static_header ''location'' '''',
     static_header ''max-forwards'' '''',
     static_header ''proxy-authenticate'' '''',
     static_header ''proxy-authorization'' '''',
     static_header ''range'' '''',
     static_header ''referer'' '''',
     static_header ''refresh'' '''',
     static_header ''retry-after'' '''',
     static_header ''server'' '''',
     static_header ''set-cookie'' '''',
     static_header ''strict-transport-security'' '''',
     static_header ''transfer-encoding'' '''',
     static_header ''user-agent'' '''',
     static_header ''vary'' '''',
     static_header ''via'' '''',
     static_header ''www-authenticate'' '''']"

definition NGX_HTTP_V2_STATIC_TABLE_ENTRIES :: nat where
  "NGX_HTTP_V2_STATIC_TABLE_ENTRIES = length ngx_http_v2_static_table"

definition ngx_http_v2_get_static_name :: "nat \<Rightarrow> byte list" where
  "ngx_http_v2_get_static_name index = h_name (ngx_http_v2_static_table ! (index - 1))"

definition ngx_http_v2_get_static_value :: "nat \<Rightarrow> byte list" where
  "ngx_http_v2_get_static_value index = h_value (ngx_http_v2_static_table ! (index - 1))"

subsection \<open>The dynamic table\<close>

text \<open>An entry: the lengths of the name and the value and where they start in the storage.\<close>

record stored_header =
  name_len :: nat
  name_data :: nat
  value_len :: nat
  value_data :: nat

record hpack =
  hp_heap :: "stored_header list"
  hp_entries :: "nat list option"
  hp_added :: nat
  hp_deleted :: nat
  hp_reused :: nat
  hp_allocated :: nat
  hp_size :: nat
  hp_free :: nat
  hp_storage :: "byte list"
  hp_pos :: nat

definition hp_init :: hpack where
  "hp_init = \<lparr>hp_heap = [], hp_entries = None, hp_added = 0, hp_deleted = 0, hp_reused = 0, hp_allocated = 0,
     hp_size = 0, hp_free = 0, hp_storage = [], hp_pos = 0\<rparr>"

text \<open>\<^verbatim>\<open>entries[k % allocated]\<close>, the pointer and the entry.\<close>

definition hp_slot :: "hpack \<Rightarrow> nat \<Rightarrow> nat" where
  "hp_slot h k = the (hp_entries h) ! (k mod hp_allocated h)"

definition hp_entry :: "hpack \<Rightarrow> nat \<Rightarrow> stored_header" where
  "hp_entry h k = hp_heap h ! hp_slot h k"

definition entry_size :: "stored_header \<Rightarrow> nat" where
  "entry_size e = 32 + name_len e + value_len e"

text \<open>The oldest entry is given up.\<close>

definition hp_drop :: "hpack \<Rightarrow> hpack" where
  "hp_drop h =
     h\<lparr>hp_deleted := hp_deleted h + 1, hp_free := hp_free h + entry_size (hp_entry h (hp_deleted h))\<rparr>"

function hp_account_loop :: "nat \<Rightarrow> hpack \<Rightarrow> hpack" where
  "hp_account_loop sz h =
     (let h = hp_drop h in if hp_free h < sz then hp_account_loop sz h else h)"
  by pat_completeness auto

termination
  by (relation "measure (\<lambda>(sz, h). sz - hp_free h)") (auto simp: hp_drop_def entry_size_def)

declare hp_account_loop.simps [simp del]

text \<open>The result is whether the header may be stored.\<close>

definition ngx_http_v2_table_account :: "nat \<Rightarrow> hpack \<Rightarrow> bool \<times> hpack" where
  "ngx_http_v2_table_account sz h =
     (let sz = sz + 32 in
      if sz \<le> hp_free h then (True, h\<lparr>hp_free := hp_free h - sz\<rparr>)
      else if hp_size h < sz then (False, h\<lparr>hp_deleted := hp_added h, hp_free := hp_size h\<rparr>)
      else let h = hp_account_loop sz h in (True, h\<lparr>hp_free := hp_free h - sz\<rparr>))"

text \<open>Copying into the ring: the storage, the new position and what is left of \<^verbatim>\<open>avail\<close>.\<close>

definition mem_copy :: "byte list \<Rightarrow> nat \<Rightarrow> byte list \<Rightarrow> byte list" where
  "mem_copy mem at src = take at mem @ src @ drop (at + length src) mem"

definition hp_store :: "nat \<Rightarrow> byte list \<Rightarrow> hpack \<Rightarrow> nat \<times> hpack" where
  "hp_store avail text0 h =
     (let len = length text0 in
      if len \<le> avail then
        (avail - len, h\<lparr>hp_storage := mem_copy (hp_storage h) (hp_pos h) text0, hp_pos := hp_pos h + len\<rparr>)
      else
        (NGX_HTTP_V2_TABLE_SIZE - len,
         h\<lparr>hp_storage := mem_copy (mem_copy (hp_storage h) (hp_pos h) (take avail text0)) 0 (drop avail text0),
           hp_pos := len - avail\<rparr>))"

text \<open>The first header allocates the rings; a full ring of pointers is copied in order to a longer one.\<close>

definition hp_allocate :: "hpack \<Rightarrow> hpack" where
  "hp_allocate h =
     (if hp_entries h = None then
        h\<lparr>hp_allocated := 64, hp_size := NGX_HTTP_V2_TABLE_SIZE, hp_free := NGX_HTTP_V2_TABLE_SIZE,
          hp_entries := Some (replicate 64 0), hp_storage := replicate NGX_HTTP_V2_TABLE_SIZE 0, hp_pos := 0\<rparr>
      else h)"

definition hp_grow :: "hpack \<Rightarrow> hpack" where
  "hp_grow h =
     (if hp_allocated h = hp_added h - hp_deleted h then
        let index = hp_deleted h mod hp_allocated h;
            old = the (hp_entries h)
        in h\<lparr>hp_entries := Some (take (hp_allocated h - index) (drop index old) @ take index old @ replicate 64 0),
             hp_added := hp_allocated h, hp_deleted := 0, hp_reused := 0,
             hp_allocated := hp_allocated h + 64\<rparr>
      else h)"

text \<open>The pointer to the entry: a new one, or one that was given up.\<close>

definition hp_take_entry :: "hpack \<Rightarrow> nat \<times> hpack" where
  "hp_take_entry h =
     (if hp_reused h = hp_deleted h then
        (length (hp_heap h),
         h\<lparr>hp_heap := hp_heap h @ [\<lparr>name_len = 0, name_data = 0, value_len = 0, value_data = 0\<rparr>]\<rparr>)
      else (hp_slot h (hp_reused h), h\<lparr>hp_reused := hp_reused h + 1\<rparr>))"

text \<open>The header is put in the place that was made for it.\<close>

definition hp_insert :: "header \<Rightarrow> hpack \<Rightarrow> hpack" where
  "hp_insert hd0 h =
     (let (entry, h) = hp_take_entry h;
          avail = NGX_HTTP_V2_TABLE_SIZE - hp_pos h;
          name_at = hp_pos h;
          (avail, h) = hp_store avail (h_name hd0) h;
          value_at = hp_pos h;
          (avail, h) = hp_store avail (h_value hd0) h;
          h = h\<lparr>hp_heap := (hp_heap h)[entry :=
                \<lparr>name_len = length (h_name hd0), name_data = name_at,
                 value_len = length (h_value hd0), value_data = value_at\<rparr>]\<rparr>;
          h = hp_grow h
      in h\<lparr>hp_entries := Some ((the (hp_entries h))[hp_added h mod hp_allocated h := entry]),
           hp_added := hp_added h + 1\<rparr>)"

definition ngx_http_v2_add_header :: "header \<Rightarrow> hpack \<Rightarrow> hpack" where
  "ngx_http_v2_add_header hd0 h =
     (case ngx_http_v2_table_account (length (h_name hd0) + length (h_value hd0)) (hp_allocate h) of
        (False, h) \<Rightarrow> h
      | (True, h) \<Rightarrow> hp_insert hd0 h)"

text \<open>The size that the client sets; \<open>None\<close> is \<^verbatim>\<open>NGX_ERROR\<close>.\<close>

function hp_size_loop :: "int \<Rightarrow> hpack \<Rightarrow> hpack" where
  "hp_size_loop needed h = (if int (hp_free h) < needed then hp_size_loop needed (hp_drop h) else h)"
  by pat_completeness auto

termination
  by (relation "measure (\<lambda>(needed, h). nat (needed - int (hp_free h)))") (auto simp: hp_drop_def entry_size_def)

declare hp_size_loop.simps [simp del]

definition ngx_http_v2_table_size :: "nat \<Rightarrow> hpack \<Rightarrow> hpack option" where
  "ngx_http_v2_table_size sz h =
     (if NGX_HTTP_V2_TABLE_SIZE < sz then None
      else
        let needed = int (hp_size h) - int sz;
            h = hp_size_loop needed h
        in Some (h\<lparr>hp_size := sz, hp_free := nat (int (hp_free h) - needed)\<rparr>))"

text \<open>Reading the ring, and the header of an index; without the value when only the name is wanted. \<open>None\<close> is
  \<^verbatim>\<open>NGX_ERROR\<close>.\<close>

definition hp_copy :: "hpack \<Rightarrow> nat \<Rightarrow> nat \<Rightarrow> byte list" where
  "hp_copy h data len =
     (let rest = NGX_HTTP_V2_TABLE_SIZE - data in
      if rest < len then take rest (drop data (hp_storage h)) @ take (len - rest) (hp_storage h)
      else take len (drop data (hp_storage h)))"

definition ngx_http_v2_get_indexed_header :: "hpack \<Rightarrow> nat \<Rightarrow> bool \<Rightarrow> header \<Rightarrow> header option" where
  "ngx_http_v2_get_indexed_header h index name_only state =
     (if index = 0 then None
      else
        let index = index - 1 in
        if index < NGX_HTTP_V2_STATIC_TABLE_ENTRIES then Some (ngx_http_v2_static_table ! index)
        else
          let index = index - NGX_HTTP_V2_STATIC_TABLE_ENTRIES in
          if index < hp_added h - hp_deleted h then
            let entry = hp_entry h (hp_added h - index - 1);
                state = state\<lparr>h_name := hp_copy h (name_data entry) (name_len entry)\<rparr>
            in if name_only then Some state
               else Some (state\<lparr>h_value := hp_copy h (value_data entry) (value_len entry)\<rparr>)
          else None)"

subsection \<open>The table of RFC 7541\<close>

text \<open>Headers, newest first. The oldest are evicted until the rest has at most the given size.\<close>

definition header_size :: "header \<Rightarrow> nat" where
  "header_size hd0 = 32 + length (h_name hd0) + length (h_value hd0)"

definition headers_size :: "header list \<Rightarrow> nat" where
  "headers_size hs = sum_list (map header_size hs)"

fun evict :: "nat \<Rightarrow> header list \<Rightarrow> header list" where
  "evict limit [] = []"
| "evict limit (hd0 # hs) = (if header_size hd0 \<le> limit then hd0 # evict (limit - header_size hd0) hs else [])"

definition rfc_add :: "nat \<Rightarrow> header \<Rightarrow> header list \<Rightarrow> header list" where
  "rfc_add sz hd0 hs = evict sz (hd0 # hs)"

lemma headers_size_simps [simp]:
  "headers_size [] = 0" "headers_size (hd0 # hs) = header_size hd0 + headers_size hs"
  "headers_size (hs @ hs') = headers_size hs + headers_size hs'"
  by (simp_all add: headers_size_def)

lemma evict_fits: "headers_size hs \<le> limit \<Longrightarrow> evict limit hs = hs"
  by (induction limit hs rule: evict.induct) auto

lemma evict_last: "limit < headers_size (hs @ [hd0]) \<Longrightarrow> evict limit (hs @ [hd0]) = evict limit hs"
  by (induction hs arbitrary: limit) auto

lemma evict_size: "headers_size (evict limit hs) \<le> limit"
  by (induction limit hs rule: evict.induct) auto

subsection \<open>Rings\<close>

lemma ring_apart:
  fixes x y :: nat
  assumes "x < y" "y < x + n"
  shows "x mod n \<noteq> y mod n"
proof
  assume "x mod n = y mod n"
  with assms(1) have "n dvd y - x" using mod_eq_dvd_iff_nat [of x y n] by simp
  with assms show False using dvd_imp_le [of n "y - x"] by simp
qed

text \<open>What is read at an offset, and at any other one that is the same in the ring.\<close>

definition ring_read :: "byte list \<Rightarrow> nat \<Rightarrow> nat \<Rightarrow> byte list" where
  "ring_read mem at len = map (\<lambda>i. mem ! ((at + i) mod NGX_HTTP_V2_TABLE_SIZE)) [0..<len]"

lemma ring_read_cong:
  "at mod NGX_HTTP_V2_TABLE_SIZE = at' mod NGX_HTTP_V2_TABLE_SIZE \<Longrightarrow> ring_read mem at len = ring_read mem at' len"
  unfolding ring_read_def by (intro map_cong refl arg_cong [where f = "(!) mem"]) (metis mod_add_left_eq)

lemma hp_copy_ring:
  assumes "length (hp_storage h) = NGX_HTTP_V2_TABLE_SIZE" "at \<le> NGX_HTTP_V2_TABLE_SIZE" "len \<le> NGX_HTTP_V2_TABLE_SIZE"
  shows "hp_copy h at len = ring_read (hp_storage h) at len"
proof (cases "NGX_HTTP_V2_TABLE_SIZE - at < len")
  case True
  with assms show ?thesis
    by (intro nth_equalityI) (auto simp: hp_copy_def ring_read_def nth_append mod_if add.commute)
next
  case False
  with assms show ?thesis
    by (intro nth_equalityI) (auto simp: hp_copy_def ring_read_def mod_if)
qed

lemma length_mem_copy: "at + length src \<le> length mem \<Longrightarrow> length (mem_copy mem at src) = length mem"
  by (simp add: mem_copy_def)

lemma mem_copy_nth:
  "at + length src \<le> length mem \<Longrightarrow> x < length mem \<Longrightarrow>
     mem_copy mem at src ! x = (if at \<le> x \<and> x < at + length src then src ! (x - at) else mem ! x)"
  by (auto simp: mem_copy_def nth_append)

text \<open>A text is stored from the position on, around the end of the ring if need be.\<close>

lemma hp_store_ring:
  assumes "hp_store avail src h = (avail', h')" "length (hp_storage h) = NGX_HTTP_V2_TABLE_SIZE"
    and "hp_pos h \<le> NGX_HTTP_V2_TABLE_SIZE" "length src \<le> NGX_HTTP_V2_TABLE_SIZE"
    and "avail = NGX_HTTP_V2_TABLE_SIZE - hp_pos h \<or> length src \<le> avail \<and> avail \<le> NGX_HTTP_V2_TABLE_SIZE - hp_pos h"
  shows "length (hp_storage h') = NGX_HTTP_V2_TABLE_SIZE" "hp_pos h' \<le> NGX_HTTP_V2_TABLE_SIZE"
    and "hp_pos h' mod NGX_HTTP_V2_TABLE_SIZE = (hp_pos h + length src) mod NGX_HTTP_V2_TABLE_SIZE"
    and "x < NGX_HTTP_V2_TABLE_SIZE \<Longrightarrow> hp_storage h' ! x =
      (if hp_pos h \<le> x \<and> x < hp_pos h + length src then src ! (x - hp_pos h)
       else if x + NGX_HTTP_V2_TABLE_SIZE < hp_pos h + length src then src ! (x + NGX_HTTP_V2_TABLE_SIZE - hp_pos h)
       else hp_storage h ! x)"
    and "h' = h\<lparr>hp_storage := hp_storage h', hp_pos := hp_pos h'\<rparr>"
proof -
  let ?N = NGX_HTTP_V2_TABLE_SIZE
  have "length (hp_storage h') = ?N \<and> hp_pos h' \<le> ?N \<and>
    hp_pos h' mod ?N = (hp_pos h + length src) mod ?N \<and>
    h' = h\<lparr>hp_storage := hp_storage h', hp_pos := hp_pos h'\<rparr> \<and>
    (x < ?N \<longrightarrow> hp_storage h' ! x =
      (if hp_pos h \<le> x \<and> x < hp_pos h + length src then src ! (x - hp_pos h)
       else if x + ?N < hp_pos h + length src then src ! (x + ?N - hp_pos h) else hp_storage h ! x))"
  proof (cases "length src \<le> avail")
    case True
    with assms(1) have h': "h' = h\<lparr>hp_storage := mem_copy (hp_storage h) (hp_pos h) src, hp_pos := hp_pos h + length src\<rparr>"
      by (simp add: hp_store_def Let_def)
    have "hp_pos h + length src \<le> ?N" using True assms(3,5) by auto
    with assms(2) show ?thesis by (simp add: h' length_mem_copy mem_copy_nth)
  next
    case False
    then have avail: "avail = ?N - hp_pos h" using assms(5) by simp
    let ?mem = "mem_copy (hp_storage h) (hp_pos h) (take avail src)"
    from False assms(1) have h': "h' = h\<lparr>hp_storage := mem_copy ?mem 0 (drop avail src), hp_pos := length src - avail\<rparr>"
      by (simp add: hp_store_def Let_def)
    have len: "length ?mem = ?N" using assms(2,3) False by (simp add: length_mem_copy avail)
    have len': "length (mem_copy ?mem 0 (drop avail src)) = ?N"
      using assms(4) len by (simp add: length_mem_copy)
    have "(length src - avail) mod ?N = (hp_pos h + length src) mod ?N"
    proof -
      have "hp_pos h + length src = (length src - avail) + ?N" using False assms(3) by (simp add: avail)
      then show ?thesis by simp
    qed
    moreover have "mem_copy ?mem 0 (drop avail src) ! x =
      (if hp_pos h \<le> x \<and> x < hp_pos h + length src then src ! (x - hp_pos h)
       else if x + ?N < hp_pos h + length src then src ! (x + ?N - hp_pos h) else hp_storage h ! x)" if x: "x < ?N"
    proof (cases "x < length src - avail")
      case True
      then have "mem_copy ?mem 0 (drop avail src) ! x = src ! (avail + x)"
        using assms(4) len x by (simp add: mem_copy_nth)
      moreover have "x < hp_pos h" "x + ?N - hp_pos h = avail + x" "x + ?N < hp_pos h + length src"
        using True assms(3,4) False by (auto simp: avail)
      ultimately show ?thesis by simp
    next
      case no: False
      then have "mem_copy ?mem 0 (drop avail src) ! x = ?mem ! x"
        using assms(4) len x by (simp add: mem_copy_nth)
      moreover have "\<not> x + ?N < hp_pos h + length src" using no False assms(3) by (auto simp: avail)
      moreover have "hp_pos h \<le> x \<Longrightarrow> x < hp_pos h + length src \<and> x - hp_pos h < avail"
        using x False assms(3) by (auto simp: avail)
      ultimately show ?thesis
        using assms(2,3) x False by (auto simp: mem_copy_nth avail)
    qed
    ultimately show ?thesis using assms(4) len' by (simp add: h')
  qed
  then show "length (hp_storage h') = ?N" "hp_pos h' \<le> ?N" "hp_pos h' mod ?N = (hp_pos h + length src) mod ?N"
    "h' = h\<lparr>hp_storage := hp_storage h', hp_pos := hp_pos h'\<rparr>"
    and "x < ?N \<Longrightarrow> hp_storage h' ! x =
      (if hp_pos h \<le> x \<and> x < hp_pos h + length src then src ! (x - hp_pos h)
       else if x + ?N < hp_pos h + length src then src ! (x + ?N - hp_pos h) else hp_storage h ! x)"
    by blast+
qed

text \<open>The same with positions that run on, as if the ring had no end.\<close>

lemma hp_store_run:
  assumes "hp_store avail src h = (avail', h')" "length (hp_storage h) = NGX_HTTP_V2_TABLE_SIZE"
    and "hp_pos h \<le> NGX_HTTP_V2_TABLE_SIZE" "length src \<le> NGX_HTTP_V2_TABLE_SIZE"
    and "avail = NGX_HTTP_V2_TABLE_SIZE - hp_pos h \<or> length src \<le> avail \<and> avail \<le> NGX_HTTP_V2_TABLE_SIZE - hp_pos h"
    and "hp_pos h mod NGX_HTTP_V2_TABLE_SIZE = v mod NGX_HTTP_V2_TABLE_SIZE"
  shows "hp_pos h' mod NGX_HTTP_V2_TABLE_SIZE = (v + length src) mod NGX_HTTP_V2_TABLE_SIZE"
    and "ring_read (hp_storage h') v (length src) = src"
    and "at + len \<le> v \<Longrightarrow> v + length src \<le> at + NGX_HTTP_V2_TABLE_SIZE \<Longrightarrow>
      ring_read (hp_storage h') at len = ring_read (hp_storage h) at len"
proof -
  let ?N = NGX_HTTP_V2_TABLE_SIZE
  note store = hp_store_ring [OF assms(1-5)]
  show "hp_pos h' mod ?N = (v + length src) mod ?N"
    using store(3) assms(6) by (metis mod_add_left_eq)
  have written: "hp_storage h' ! ((v + i) mod ?N) = src ! i" if "i < length src" for i
  proof -
    have "(v + i) mod ?N = (hp_pos h + i) mod ?N" using assms(6) by (metis mod_add_left_eq)
    moreover have "hp_storage h' ! ((hp_pos h + i) mod ?N) = src ! i"
      using store(4) [of "(hp_pos h + i) mod ?N"] that assms(3,4) by (cases "hp_pos h + i < ?N") (auto simp: mod_if)
    ultimately show ?thesis by simp
  qed
  then show "ring_read (hp_storage h') v (length src) = src"
    by (intro nth_equalityI) (simp_all add: ring_read_def)
  have kept: "hp_storage h' ! (y mod ?N) = hp_storage h ! (y mod ?N)" if y: "y < v" "v + length src \<le> y + ?N" for y
  proof -
    have apart: "(v + i) mod ?N \<noteq> y mod ?N" if "i < length src" for i
      using ring_apart [of y "v + i" ?N] y that by simp
    let ?x = "y mod ?N"
    have lt: "?x < ?N" by simp
    have no1: "\<not> (hp_pos h \<le> ?x \<and> ?x < hp_pos h + length src)"
    proof
      assume a: "hp_pos h \<le> ?x \<and> ?x < hp_pos h + length src"
      then have "(hp_pos h + (?x - hp_pos h)) mod ?N = ?x" by simp
      moreover have "(v + (?x - hp_pos h)) mod ?N = (hp_pos h + (?x - hp_pos h)) mod ?N"
        using assms(6) by (metis mod_add_left_eq)
      moreover have "?x - hp_pos h < length src" using a by (simp add: less_diff_conv2)
      ultimately show False using apart [of "?x - hp_pos h"] by simp
    qed
    have no2: "\<not> ?x + ?N < hp_pos h + length src"
    proof
      assume a: "?x + ?N < hp_pos h + length src"
      let ?i = "?x + ?N - hp_pos h"
      have "(hp_pos h + ?i) mod ?N = ?x" using assms(3) by simp
      moreover have "(v + ?i) mod ?N = (hp_pos h + ?i) mod ?N"
        using assms(6) by (metis mod_add_left_eq)
      moreover have "?i < length src" using a assms(3) by (simp add: less_diff_conv2)
      ultimately show False using apart [of ?i] by simp
    qed
    show ?thesis using store(4) [OF lt] by (simp only: no1 no2 if_False)
  qed
  show "ring_read (hp_storage h') at len = ring_read (hp_storage h) at len"
    if "at + len \<le> v" "v + length src \<le> at + ?N"
    unfolding ring_read_def using that by (intro map_cong refl kept) auto
qed

subsection \<open>The invariant\<close>

text \<open>The live entries have pointers of their own, and so have those given up and not yet taken again.\<close>

definition hp_pointers :: "hpack \<Rightarrow> bool" where
  "hp_pointers h \<longleftrightarrow>
     hp_entries h \<noteq> None \<and> length (the (hp_entries h)) = hp_allocated h \<and> 0 < hp_allocated h \<and>
     hp_reused h \<le> hp_deleted h \<and> hp_deleted h \<le> hp_added h \<and> hp_added h \<le> hp_reused h + hp_allocated h \<and>
     inj_on (hp_slot h) {hp_reused h..<hp_added h} \<and>
     (\<forall>k \<in> {hp_reused h..<hp_added h}. hp_slot h k < length (hp_heap h))"

text \<open>The texts of the live entries follow each other in the ring up to the position; \<open>v\<close> is where they start,
  as if the ring had no end.\<close>

definition text_size :: "stored_header \<Rightarrow> nat" where
  "text_size e = name_len e + value_len e"

definition hp_texts :: "hpack \<Rightarrow> (nat \<Rightarrow> nat) \<Rightarrow> bool" where
  "hp_texts h v \<longleftrightarrow>
     length (hp_storage h) = NGX_HTTP_V2_TABLE_SIZE \<and> hp_pos h \<le> NGX_HTTP_V2_TABLE_SIZE \<and>
     hp_pos h mod NGX_HTTP_V2_TABLE_SIZE = v (hp_added h) mod NGX_HTTP_V2_TABLE_SIZE \<and>
     (\<forall>k \<in> {hp_deleted h..<hp_added h}.
        let e = hp_entry h k in
        name_data e \<le> NGX_HTTP_V2_TABLE_SIZE \<and> value_data e \<le> NGX_HTTP_V2_TABLE_SIZE \<and>
        name_data e mod NGX_HTTP_V2_TABLE_SIZE = v k mod NGX_HTTP_V2_TABLE_SIZE \<and>
        value_data e mod NGX_HTTP_V2_TABLE_SIZE = (v k + name_len e) mod NGX_HTTP_V2_TABLE_SIZE \<and>
        v (Suc k) = v k + text_size e)"

definition hp_sizes :: "hpack \<Rightarrow> bool" where
  "hp_sizes h \<longleftrightarrow>
     hp_size h \<le> NGX_HTTP_V2_TABLE_SIZE \<and>
     hp_free h + (\<Sum>k = hp_deleted h..<hp_added h. entry_size (hp_entry h k)) = hp_size h"

definition hp_ok :: "hpack \<Rightarrow> bool" where
  "hp_ok h \<longleftrightarrow> hp_pointers h \<and> hp_sizes h \<and> (\<exists>v. hp_texts h v)"

text \<open>The headers that the table stands for.\<close>

definition hp_header :: "hpack \<Rightarrow> nat \<Rightarrow> header" where
  "hp_header h k =
     (let e = hp_entry h k in
      \<lparr>h_name = hp_copy h (name_data e) (name_len e), h_value = hp_copy h (value_data e) (value_len e)\<rparr>)"

definition hp_abs :: "hpack \<Rightarrow> header list" where
  "hp_abs h = map (hp_header h) (rev [hp_deleted h..<hp_added h])"

lemma hp_sizes_entry:
  assumes "hp_sizes h" "k \<in> {hp_deleted h..<hp_added h}"
  shows "entry_size (hp_entry h k) \<le> NGX_HTTP_V2_TABLE_SIZE"
proof -
  have "entry_size (hp_entry h k) \<le> (\<Sum>k = hp_deleted h..<hp_added h. entry_size (hp_entry h k))"
    by (rule member_le_sum) (use assms in auto)
  with assms(1) show ?thesis by (simp add: hp_sizes_def)
qed

lemma hp_header_ring:
  assumes "hp_sizes h" "hp_texts h v" "k \<in> {hp_deleted h..<hp_added h}"
  shows "hp_header h k =
    \<lparr>h_name = ring_read (hp_storage h) (v k) (name_len (hp_entry h k)),
     h_value = ring_read (hp_storage h) (v k + name_len (hp_entry h k)) (value_len (hp_entry h k))\<rparr>"
proof -
  let ?e = "hp_entry h k"
  have le: "name_len ?e \<le> NGX_HTTP_V2_TABLE_SIZE" "value_len ?e \<le> NGX_HTTP_V2_TABLE_SIZE"
    using hp_sizes_entry [OF assms(1,3)] by (simp_all add: entry_size_def)
  from assms(2,3) have e: "name_data ?e \<le> NGX_HTTP_V2_TABLE_SIZE" "value_data ?e \<le> NGX_HTTP_V2_TABLE_SIZE"
    "name_data ?e mod NGX_HTTP_V2_TABLE_SIZE = v k mod NGX_HTTP_V2_TABLE_SIZE"
    "value_data ?e mod NGX_HTTP_V2_TABLE_SIZE = (v k + name_len ?e) mod NGX_HTTP_V2_TABLE_SIZE"
    and len: "length (hp_storage h) = NGX_HTTP_V2_TABLE_SIZE"
    by (simp_all add: hp_texts_def Let_def)
  show ?thesis
    using hp_copy_ring [OF len e(1) le(1)] hp_copy_ring [OF len e(2) le(2)] ring_read_cong [OF e(3)] ring_read_cong [OF e(4)]
    by (simp add: hp_header_def Let_def)
qed

lemma header_size_hp: 
  assumes "hp_sizes h" "hp_texts h v" "k \<in> {hp_deleted h..<hp_added h}"
  shows "header_size (hp_header h k) = entry_size (hp_entry h k)"
  using hp_header_ring [OF assms] by (simp add: header_size_def entry_size_def ring_read_def)

lemma hp_abs_size:
  assumes "hp_ok h"
  shows "headers_size (hp_abs h) + hp_free h = hp_size h"
proof -
  from assms obtain v where ok: "hp_sizes h" "hp_texts h v" by (auto simp: hp_ok_def)
  have "headers_size (hp_abs h) = sum_list (map (header_size \<circ> hp_header h) [hp_deleted h..<hp_added h])"
    by (simp add: headers_size_def hp_abs_def rev_map [symmetric] sum_list_rev)
  also have "\<dots> = sum_list (map (\<lambda>k. entry_size (hp_entry h k)) [hp_deleted h..<hp_added h])"
    using header_size_hp [OF ok] by (intro arg_cong [where f = sum_list] map_cong) auto
  also have "\<dots> = (\<Sum>k = hp_deleted h..<hp_added h. entry_size (hp_entry h k))"
    by (simp add: interv_sum_list_conv_sum_set_nat)
  finally show ?thesis using ok(1) by (simp add: hp_sizes_def)
qed

subsection \<open>Eviction\<close>

lemma hp_entry_cong:
  "hp_entries h' = hp_entries h \<Longrightarrow> hp_allocated h' = hp_allocated h \<Longrightarrow> hp_heap h' = hp_heap h \<Longrightarrow>
     hp_slot h' = hp_slot h \<and> hp_entry h' = hp_entry h"
  by (auto simp: hp_slot_def hp_entry_def fun_eq_iff)

lemma hp_drop_fields [simp]:
  "hp_slot (hp_drop h) = hp_slot h" "hp_entry (hp_drop h) = hp_entry h" "hp_header (hp_drop h) = hp_header h"
  "hp_size (hp_drop h) = hp_size h" "hp_added (hp_drop h) = hp_added h" "hp_deleted (hp_drop h) = hp_deleted h + 1"
  "hp_entries (hp_drop h) = hp_entries h"
  by (simp_all add: hp_drop_def hp_slot_def hp_entry_def hp_header_def hp_copy_def fun_eq_iff Let_def)

lemma hp_drop_ok:
  assumes "hp_ok h" "hp_deleted h < hp_added h"
  shows "hp_ok (hp_drop h)" "hp_abs h = hp_abs (hp_drop h) @ [hp_header h (hp_deleted h)]"
proof -
  have "(\<Sum>k = hp_deleted h..<hp_added h. entry_size (hp_entry h k)) =
      entry_size (hp_entry h (hp_deleted h)) + (\<Sum>k = Suc (hp_deleted h)..<hp_added h. entry_size (hp_entry h k))"
    by (rule sum.atLeast_Suc_lessThan) (rule assms(2))
  then have "hp_sizes h \<Longrightarrow> hp_sizes (hp_drop h)"
    by (simp add: hp_sizes_def) (simp add: hp_drop_def)
  moreover have "hp_pointers h \<Longrightarrow> hp_pointers (hp_drop h)"
    using assms(2) by (simp add: hp_pointers_def) (simp add: hp_drop_def)
  moreover have "hp_texts h v \<Longrightarrow> hp_texts (hp_drop h) v" for v
    using assms(2) by (simp add: hp_texts_def) (simp add: hp_drop_def)
  ultimately show "hp_ok (hp_drop h)" using assms(1) by (auto simp: hp_ok_def)
  show "hp_abs h = hp_abs (hp_drop h) @ [hp_header h (hp_deleted h)]"
    using assms(2) by (simp add: hp_abs_def upt_conv_Cons)
qed

lemma hp_evict_step:
  assumes "hp_ok h" "hp_free h < need" "need \<le> hp_size h"
  shows "hp_deleted h < hp_added h" "evict (hp_size h - need) (hp_abs h) = evict (hp_size h - need) (hp_abs (hp_drop h))"
proof -
  have size: "headers_size (hp_abs h) + hp_free h = hp_size h" by (rule hp_abs_size [OF assms(1)])
  show less: "hp_deleted h < hp_added h"
  proof (rule ccontr)
    assume "\<not> hp_deleted h < hp_added h"
    then have "hp_abs h = []" by (simp add: hp_abs_def)
    with size assms(2,3) show False by simp
  qed
  have "hp_size h - need < headers_size (hp_abs h)" using size assms(2,3) by simp
  then show "evict (hp_size h - need) (hp_abs h) = evict (hp_size h - need) (hp_abs (hp_drop h))"
    unfolding hp_drop_ok(2) [OF assms(1) less] by (rule evict_last)
qed

lemma hp_account_loop_ok:
  "hp_ok h \<Longrightarrow> hp_free h < sz \<Longrightarrow> sz \<le> hp_size h \<Longrightarrow>
     hp_ok (hp_account_loop sz h) \<and> sz \<le> hp_free (hp_account_loop sz h) \<and>
     hp_size (hp_account_loop sz h) = hp_size h \<and>
     hp_abs (hp_account_loop sz h) = evict (hp_size h - sz) (hp_abs h)"
proof (induction sz h rule: hp_account_loop.induct)
  case (1 sz h)
  note step = hp_evict_step [OF "1.prems"]
  note ok = hp_drop_ok(1) [OF "1.prems"(1) step(1)]
  show ?case
  proof (cases "hp_free (hp_drop h) < sz")
    case True
    with "1.IH" [OF refl True ok] "1.prems"(3) step(2) show ?thesis
      by (simp add: hp_account_loop.simps [of sz h] Let_def)
  next
    case False
    moreover have "headers_size (hp_abs (hp_drop h)) \<le> hp_size h - sz"
      using hp_abs_size [OF ok] False by simp
    ultimately show ?thesis
      using ok step(2) evict_fits [of "hp_abs (hp_drop h)" "hp_size h - sz"]
      by (simp add: hp_account_loop.simps [of sz h] Let_def)
  qed
qed

lemma hp_size_loop_ok:
  "hp_ok h \<Longrightarrow> needed \<le> int (hp_size h) \<Longrightarrow>
     hp_ok (hp_size_loop needed h) \<and> needed \<le> int (hp_free (hp_size_loop needed h)) \<and>
     hp_size (hp_size_loop needed h) = hp_size h \<and>
     hp_abs (hp_size_loop needed h) = evict (nat (int (hp_size h) - needed)) (hp_abs h)"
proof (induction needed h rule: hp_size_loop.induct)
  case (1 needed h)
  show ?case
  proof (cases "int (hp_free h) < needed")
    case True
    then have need: "hp_free h < nat needed" "nat needed \<le> hp_size h" using "1.prems"(2) by auto
    note step = hp_evict_step [OF "1.prems"(1) need]
    have "nat (int (hp_size h) - needed) = hp_size h - nat needed" using True by simp
    with "1.IH" [OF True hp_drop_ok(1) [OF "1.prems"(1) step(1)]] "1.prems"(2) True step(2) show ?thesis
      by (simp add: hp_size_loop.simps [of needed h])
  next
    case False
    have "headers_size (hp_abs h) \<le> nat (int (hp_size h) - needed)"
      using hp_abs_size [OF "1.prems"(1)] False by simp
    with False "1.prems"(1) evict_fits show ?thesis by (simp add: hp_size_loop.simps [of needed h])
  qed
qed

text \<open>The two guards of the table.\<close>

lemma table_size_ok:
  assumes "hp_ok h" "sz \<le> NGX_HTTP_V2_TABLE_SIZE"
  shows "\<exists>h'. ngx_http_v2_table_size sz h = Some h' \<and> hp_ok h' \<and> hp_size h' = sz \<and> hp_abs h' = evict sz (hp_abs h) \<and>
    hp_entries h' \<noteq> None"
proof -
  let ?needed = "int (hp_size h) - int sz"
  let ?h = "hp_size_loop ?needed h"
  have loop: "hp_ok ?h" "?needed \<le> int (hp_free ?h)" "hp_size ?h = hp_size h" "hp_abs ?h = evict sz (hp_abs h)"
    using hp_size_loop_ok [OF assms(1), of ?needed] by auto
  let ?h' = "?h\<lparr>hp_size := sz, hp_free := nat (int (hp_free ?h) - ?needed)\<rparr>"
  have same: "hp_slot ?h' = hp_slot ?h" "hp_entry ?h' = hp_entry ?h" "hp_header ?h' = hp_header ?h"
    by (simp_all add: hp_slot_def hp_entry_def hp_header_def hp_copy_def fun_eq_iff Let_def)
  have "hp_pointers ?h'" using loop(1) by (simp add: hp_ok_def hp_pointers_def same)
  moreover have "hp_sizes ?h'" using loop(1-3) assms(2) by (simp add: hp_ok_def hp_sizes_def same) linarith
  moreover have "\<exists>v. hp_texts ?h' v" using loop(1) by (simp add: hp_ok_def hp_texts_def same)
  ultimately have "hp_ok ?h'" unfolding hp_ok_def by blast
  moreover have "hp_abs ?h' = evict sz (hp_abs h)" using loop(4) by (simp add: hp_abs_def same)
  moreover have "hp_entries ?h' \<noteq> None" using loop(1) by (simp add: hp_ok_def hp_pointers_def)
  ultimately show ?thesis
    using assms(2) by (intro exI [of _ ?h']) (simp add: ngx_http_v2_table_size_def Let_def)
qed

lemma table_account_no:
  assumes "hp_ok h" "hp_size h < n + 32"
  shows "\<exists>h'. ngx_http_v2_table_account n h = (False, h') \<and> hp_ok h' \<and> hp_size h' = hp_size h \<and> hp_abs h' = []"
proof -
  let ?h' = "h\<lparr>hp_deleted := hp_added h, hp_free := hp_size h\<rparr>"
  have "hp_ok ?h'"
    using assms(1) by (auto simp: hp_ok_def hp_pointers_def hp_sizes_def hp_texts_def hp_slot_def inj_on_def)
  moreover have "\<not> n + 32 \<le> hp_free h" using hp_abs_size [OF assms(1)] assms(2) by simp
  ultimately show ?thesis
    using assms(2) by (intro exI [of _ ?h']) (simp add: ngx_http_v2_table_account_def hp_abs_def)
qed

lemma table_account_yes:
  assumes "hp_ok h" "n + 32 \<le> hp_size h"
  shows "\<exists>h0. ngx_http_v2_table_account n h = (True, h0\<lparr>hp_free := hp_free h0 - (n + 32)\<rparr>) \<and> hp_ok h0 \<and>
    n + 32 \<le> hp_free h0 \<and> hp_size h0 = hp_size h \<and> hp_abs h0 = evict (hp_size h - (n + 32)) (hp_abs h)"
proof (cases "n + 32 \<le> hp_free h")
  case True
  with assms hp_abs_size [OF assms(1)] evict_fits [of "hp_abs h" "hp_size h - (n + 32)"] show ?thesis
    by (intro exI [of _ h]) (simp add: ngx_http_v2_table_account_def)
next
  case False
  with assms hp_account_loop_ok [OF assms(1), of "n + 32"] show ?thesis
    by (intro exI [of _ "hp_account_loop (n + 32) h"])
      (simp add: ngx_http_v2_table_account_def Let_def)
qed

subsection \<open>A header more\<close>

text \<open>The pointer taken is not that of a live entry or of one that may be taken later.\<close>

lemma hp_take_entry_ok:
  assumes "hp_pointers h" "hp_take_entry h = (entry, h')"
  shows "h' = h\<lparr>hp_heap := hp_heap h', hp_reused := hp_reused h'\<rparr>" "hp_pointers h'" "entry < length (hp_heap h')"
    and "entry \<notin> hp_slot h ` {hp_reused h'..<hp_added h}"
    and "\<And>k. k \<in> {hp_deleted h..<hp_added h} \<Longrightarrow> hp_entry h' k = hp_entry h k"
    and "hp_added h < hp_reused h' + hp_allocated h \<or> hp_reused h' = hp_deleted h"
proof -
  have slot: "hp_slot h' = hp_slot h" "hp_added h' = hp_added h" "hp_deleted h' = hp_deleted h"
    "hp_allocated h' = hp_allocated h"
    using assms(2) by (auto simp: hp_take_entry_def hp_slot_def fun_eq_iff split: if_splits)
  have small: "hp_slot h k < length (hp_heap h)" if "k \<in> {hp_reused h..<hp_added h}" for k
    using assms(1) that by (simp add: hp_pointers_def)
  have "hp_reused h \<le> hp_deleted h" using assms(1) by (simp add: hp_pointers_def)
  show "h' = h\<lparr>hp_heap := hp_heap h', hp_reused := hp_reused h'\<rparr>"
    using assms(2) by (auto simp: hp_take_entry_def split: if_splits)
  have "inj_on (hp_slot h) {hp_reused h'..<hp_added h}"
    by (rule inj_on_subset [of _ "{hp_reused h..<hp_added h}"])
      (use assms in \<open>auto simp: hp_take_entry_def hp_pointers_def split: if_splits\<close>)
  then show "hp_pointers h'"
    using assms small unfolding hp_pointers_def slot
    by (auto simp: hp_take_entry_def less_SucI split: if_splits)
  show "entry < length (hp_heap h')"
    using assms small [of "hp_reused h"] by (auto simp: hp_take_entry_def hp_pointers_def split: if_splits)
  show "entry \<notin> hp_slot h ` {hp_reused h'..<hp_added h}"
  proof (cases "hp_reused h = hp_deleted h")
    case True
    with assms(2) have "entry = length (hp_heap h)" "hp_reused h' = hp_reused h"
      by (auto simp: hp_take_entry_def)
    with small show ?thesis by force
  next
    case False
    with assms have e: "entry = hp_slot h (hp_reused h)" "hp_reused h' = Suc (hp_reused h)"
      by (auto simp: hp_take_entry_def)
    have inj: "inj_on (hp_slot h) {hp_reused h..<hp_added h}" and "hp_reused h < hp_added h"
      using assms(1) False by (auto simp: hp_pointers_def)
    then have "hp_slot h (hp_reused h) \<noteq> hp_slot h k" if "k \<in> {Suc (hp_reused h)..<hp_added h}" for k
      using inj_onD [OF inj, of "hp_reused h" k] that by auto
    then have "hp_slot h (hp_reused h) \<notin> hp_slot h ` {Suc (hp_reused h)..<hp_added h}" by blast
    with e show ?thesis by simp
  qed
  show "hp_entry h' k = hp_entry h k" if "k \<in> {hp_deleted h..<hp_added h}" for k
    using assms(2) small [of k] that \<open>hp_reused h \<le> hp_deleted h\<close> slot(1)
    by (auto simp: hp_take_entry_def hp_entry_def hp_slot_def nth_append split: if_splits)
  show "hp_added h < hp_reused h' + hp_allocated h \<or> hp_reused h' = hp_deleted h"
    using assms by (auto simp: hp_take_entry_def hp_pointers_def split: if_splits)
qed

lemma add_mod_wrap: "i < n \<Longrightarrow> j < n \<Longrightarrow> (i + j) mod n = (if i + j < n then i + j else i + j - (n :: nat))"
  by (auto simp: le_mod_geq)

lemma nth_rotated:
  "i < n \<Longrightarrow> j < n \<Longrightarrow> length xs = n \<Longrightarrow>
     (drop i xs @ take i xs @ ys) ! j = xs ! (if i + j < n then i + j else i + j - n)"
  by (auto simp: nth_append add.commute)

text \<open>A longer ring of pointers has the same live entries, at positions counted from the oldest.\<close>

lemma hp_grow_ok:
  assumes "hp_pointers h" "hp_added h < hp_reused h + hp_allocated h \<or> hp_reused h = hp_deleted h"
  obtains m where "m \<le> hp_reused h" "hp_added (hp_grow h) = hp_added h - m" "hp_deleted (hp_grow h) = hp_deleted h - m"
    "hp_reused (hp_grow h) = hp_reused h - m" "hp_added (hp_grow h) < hp_reused (hp_grow h) + hp_allocated (hp_grow h)"
    "hp_entries (hp_grow h) \<noteq> None" "length (the (hp_entries (hp_grow h))) = hp_allocated (hp_grow h)"
    "\<And>k. k \<in> {hp_reused h..<hp_added h} \<Longrightarrow> hp_slot (hp_grow h) (k - m) = hp_slot h k"
    "hp_heap (hp_grow h) = hp_heap h" "hp_storage (hp_grow h) = hp_storage h" "hp_pos (hp_grow h) = hp_pos h"
    "hp_size (hp_grow h) = hp_size h" "hp_free (hp_grow h) = hp_free h"
proof (cases "hp_allocated h = hp_added h - hp_deleted h")
  case False
  with assms have "hp_grow h = h" "hp_added h < hp_reused h + hp_allocated h"
    by (auto simp: hp_grow_def hp_pointers_def)
  with assms(1) that [of 0] show ?thesis by (simp add: hp_pointers_def)
next
  case True
  let ?n = "hp_allocated h" and ?d = "hp_deleted h" and ?old = "the (hp_entries h)"
  have p: "length ?old = ?n" "0 < ?n" "?d \<le> hp_added h" using assms(1) by (simp_all add: hp_pointers_def)
  have r: "hp_reused h = ?d" using assms True by (auto simp: hp_pointers_def)
  let ?index = "?d mod ?n"
  have index: "?index < ?n" using p(2) by simp
  have grow: "hp_grow h = h\<lparr>hp_entries := Some (drop ?index ?old @ take ?index ?old @ replicate 64 0),
      hp_added := ?n, hp_deleted := 0, hp_reused := 0, hp_allocated := ?n + 64\<rparr>"
    using True p(1) by (simp add: hp_grow_def Let_def)
  have slot: "hp_slot (hp_grow h) (k - ?d) = hp_slot h k" if "k \<in> {?d..<hp_added h}" for k
  proof -
    let ?j = "k - ?d"
    have j: "?j < ?n" using that True by auto
    have "(?index + ?j) mod ?n = (?d + ?j) mod ?n" by (rule mod_add_left_eq)
    then have eq: "(?index + ?j) mod ?n = k mod ?n" using that by simp
    have "k mod ?n = (if ?index + ?j < ?n then ?index + ?j else ?index + ?j - ?n)"
      unfolding eq [symmetric] by (rule add_mod_wrap [OF index j])
    moreover have "hp_slot (hp_grow h) ?j = (drop ?index ?old @ take ?index ?old @ replicate 64 0) ! ?j"
      using j by (simp add: hp_slot_def grow)
    ultimately show ?thesis
      using nth_rotated [OF index j p(1), of "replicate 64 0"] by (simp only: hp_slot_def)
  qed
  have added: "hp_added h - ?d = ?n" using True by simp
  show ?thesis
  proof (rule that [of ?d])
    show "hp_slot (hp_grow h) (k - ?d) = hp_slot h k" if "k \<in> {hp_reused h..<hp_added h}" for k
      using slot that r by simp
  qed (use p added r in \<open>simp_all add: grow\<close>)
qed

text \<open>The stores into the ring.\<close>

lemma hp_store_both:
  assumes "hp_store (NGX_HTTP_V2_TABLE_SIZE - hp_pos h) src1 h = (avail1, h1)" "hp_store avail1 src2 h1 = (avail2, h2)"
    and "length (hp_storage h) = NGX_HTTP_V2_TABLE_SIZE" "hp_pos h \<le> NGX_HTTP_V2_TABLE_SIZE"
    and "length src1 + length src2 \<le> NGX_HTTP_V2_TABLE_SIZE"
    and "hp_pos h mod NGX_HTTP_V2_TABLE_SIZE = v mod NGX_HTTP_V2_TABLE_SIZE"
  shows "h2 = h\<lparr>hp_storage := hp_storage h2, hp_pos := hp_pos h2\<rparr>"
    and "length (hp_storage h2) = NGX_HTTP_V2_TABLE_SIZE" "hp_pos h2 \<le> NGX_HTTP_V2_TABLE_SIZE"
    and "hp_pos h1 \<le> NGX_HTTP_V2_TABLE_SIZE"
    and "hp_pos h1 mod NGX_HTTP_V2_TABLE_SIZE = (v + length src1) mod NGX_HTTP_V2_TABLE_SIZE"
    and "hp_pos h2 mod NGX_HTTP_V2_TABLE_SIZE = (v + length src1 + length src2) mod NGX_HTTP_V2_TABLE_SIZE"
    and "ring_read (hp_storage h2) v (length src1) = src1"
    and "ring_read (hp_storage h2) (v + length src1) (length src2) = src2"
    and "at + len \<le> v \<Longrightarrow> v + length src1 + length src2 \<le> at + NGX_HTTP_V2_TABLE_SIZE \<Longrightarrow>
      ring_read (hp_storage h2) at len = ring_read (hp_storage h) at len"
proof -
  let ?N = NGX_HTTP_V2_TABLE_SIZE
  have len1: "length src1 \<le> ?N" and len2: "length src2 \<le> ?N" using assms(5) by simp_all
  note first = hp_store_ring [OF assms(1,3,4) len1 disjI1 [OF refl]]
  note first_run = hp_store_run [OF assms(1,3,4) len1 disjI1 [OF refl] assms(6)]
  have avail: "avail1 = ?N - hp_pos h1 \<or> length src2 \<le> avail1 \<and> avail1 \<le> ?N - hp_pos h1"
    using assms(1,3,4,5) by (auto simp: hp_store_def Let_def split: if_splits)
  note second = hp_store_ring [OF assms(2) first(1,2) len2 avail]
  note second_run = hp_store_run [OF assms(2) first(1,2) len2 avail first_run(1)]
  show "h2 = h\<lparr>hp_storage := hp_storage h2, hp_pos := hp_pos h2\<rparr>"
  proof -
    obtain a b where h1: "h1 = h\<lparr>hp_storage := a, hp_pos := b\<rparr>" using first(5) by blast
    obtain c d where h2: "h2 = h1\<lparr>hp_storage := c, hp_pos := d\<rparr>" using second(5) by blast
    show ?thesis by (simp add: h1 h2)
  qed
  show "length (hp_storage h2) = ?N" "hp_pos h2 \<le> ?N" "hp_pos h1 \<le> ?N" by (fact second(1) second(2) first(2))+
  show "hp_pos h1 mod ?N = (v + length src1) mod ?N" by (fact first_run(1))
  show "hp_pos h2 mod ?N = (v + length src1 + length src2) mod ?N" by (fact second_run(1))
  show "ring_read (hp_storage h2) v (length src1) = src1"
    using second_run(3) [of v "length src1"] first_run(2) assms(5) by simp
  show "ring_read (hp_storage h2) (v + length src1) (length src2) = src2" by (fact second_run(2))
  show "ring_read (hp_storage h2) at len = ring_read (hp_storage h) at len"
    if "at + len \<le> v" "v + length src1 + length src2 \<le> at + ?N"
    using second_run(3) [of at len] first_run(3) [of at len] that by simp
qed

text \<open>The pointers after the growth and the new pointer.\<close>

lemma hp_append_pointer:
  assumes "hp_pointers h" "hp_added h < hp_reused h + hp_allocated h \<or> hp_reused h = hp_deleted h"
    and "entry < length (hp_heap h)" "entry \<notin> hp_slot h ` {hp_reused h..<hp_added h}"
  defines "g \<equiv> hp_grow h"
  defines "h' \<equiv> g\<lparr>hp_entries := Some ((the (hp_entries g))[hp_added g mod hp_allocated g := entry]),
       hp_added := hp_added g + 1\<rparr>"
  shows "\<exists>m \<le> hp_deleted h. hp_pointers h' \<and> hp_added h' = Suc (hp_added h - m) \<and> hp_deleted h' = hp_deleted h - m \<and>
    (\<forall>k \<in> {hp_deleted h..<hp_added h}. hp_entry h' (k - m) = hp_entry h k) \<and>
    hp_entry h' (hp_added h - m) = hp_heap h ! entry \<and>
    hp_storage h' = hp_storage h \<and> hp_pos h' = hp_pos h \<and> hp_size h' = hp_size h \<and> hp_free h' = hp_free h"
proof -
  obtain m where m: "m \<le> hp_reused h" "hp_added g = hp_added h - m" "hp_deleted g = hp_deleted h - m"
    "hp_reused g = hp_reused h - m" "hp_added g < hp_reused g + hp_allocated g"
    "hp_entries g \<noteq> None" "length (the (hp_entries g)) = hp_allocated g"
    "\<And>k. k \<in> {hp_reused h..<hp_added h} \<Longrightarrow> hp_slot g (k - m) = hp_slot h k"
    "hp_heap g = hp_heap h" "hp_storage g = hp_storage h" "hp_pos g = hp_pos h"
    "hp_size g = hp_size h" "hp_free g = hp_free h"
    using hp_grow_ok [OF assms(1,2)] unfolding g_def by blast
  have le: "hp_reused h \<le> hp_deleted h" "hp_deleted h \<le> hp_added h"
    using assms(1) by (simp_all add: hp_pointers_def)
  have pos: "0 < hp_allocated g" using m(2,4,5) le by simp
  have old: "hp_slot h' (k - m) = hp_slot h k" if "k \<in> {hp_reused h..<hp_added h}" for k
  proof -
    have "(k - m) mod hp_allocated g \<noteq> hp_added g mod hp_allocated g"
      by (rule ring_apart) (use that m(1,2,4,5) le in auto)
    with m(8) [OF that] show ?thesis by (simp add: h'_def hp_slot_def)
  qed
  have new: "hp_slot h' (hp_added h - m) = entry"
    using pos m(2,7) by (simp add: h'_def hp_slot_def)
  have range: "\<exists>k. (k \<in> {hp_reused h..<hp_added h} \<or> k = hp_added h) \<and> x = k - m"
    if "x \<in> {hp_reused h - m..<Suc (hp_added h - m)}" for x
    using that m(1) le by (intro exI [of _ "x + m"]) auto
  have inj: "inj_on (hp_slot h') {hp_reused h - m..<Suc (hp_added h - m)}"
  proof (rule inj_onI)
    fix x y
    assume xy: "x \<in> {hp_reused h - m..<Suc (hp_added h - m)}" "y \<in> {hp_reused h - m..<Suc (hp_added h - m)}"
      and eq: "hp_slot h' x = hp_slot h' y"
    obtain k l where kl: "k \<in> {hp_reused h..<hp_added h} \<or> k = hp_added h" "x = k - m"
      "l \<in> {hp_reused h..<hp_added h} \<or> l = hp_added h" "y = l - m"
      using range [OF xy(1)] range [OF xy(2)] by blast
    have "inj_on (hp_slot h) {hp_reused h..<hp_added h}" using assms(1) by (simp add: hp_pointers_def)
    with kl eq old new assms(4) show "x = y"
      by (elim disjE) (auto dest: inj_onD)
  qed
  have "hp_slot h' x < length (hp_heap h')" if "x \<in> {hp_reused h - m..<Suc (hp_added h - m)}" for x
    using range [OF that] old new assms(1,3) m(9) by (auto simp: hp_pointers_def h'_def)
  then have slots: "\<forall>x \<in> {hp_reused h - m..<Suc (hp_added h - m)}. hp_slot h' x < length (hp_heap h')" by blast
  have fields: "hp_entries h' \<noteq> None" "length (the (hp_entries h')) = hp_allocated h'" "0 < hp_allocated h'"
    "hp_added h' = Suc (hp_added h - m)" "hp_deleted h' = hp_deleted h - m" "hp_reused h' = hp_reused h - m"
    "Suc (hp_added h - m) \<le> hp_reused h - m + hp_allocated h'"
    using m(2-7) pos by (simp_all add: h'_def)
  have "hp_pointers h'"
    unfolding hp_pointers_def fields(4-6) using fields(1-3,7) inj slots le by auto
  moreover have "hp_entry h' (k - m) = hp_entry h k" if "k \<in> {hp_deleted h..<hp_added h}" for k
    using old [of k] that le m(9) by (simp add: hp_entry_def h'_def)
  moreover have "hp_entry h' (hp_added h - m) = hp_heap h ! entry"
    using new m(9) by (simp add: hp_entry_def h'_def)
  moreover have "m \<le> hp_deleted h" using m(1) le by simp
  ultimately show ?thesis
    using m by (intro exI [of _ m]) (simp add: h'_def)
qed

text \<open>The new entry and the old ones, at their new positions.\<close>

lemma hp_insert_shape:
  assumes "hp_pointers h" "hp_texts h v" "length (h_name hd0) + length (h_value hd0) \<le> NGX_HTTP_V2_TABLE_SIZE"
  defines "h' \<equiv> hp_insert hd0 h" and "n \<equiv> length (h_name hd0)" and "l \<equiv> length (h_value hd0)"
  shows "\<exists>m at. m \<le> hp_deleted h \<and> hp_pointers h' \<and> hp_added h' = Suc (hp_added h - m) \<and>
    hp_deleted h' = hp_deleted h - m \<and> hp_size h' = hp_size h \<and> hp_free h' = hp_free h \<and>
    (\<forall>k \<in> {hp_deleted h..<hp_added h}. hp_entry h' (k - m) = hp_entry h k) \<and>
    hp_entry h' (hp_added h - m) = \<lparr>name_len = n, name_data = hp_pos h, value_len = l, value_data = at\<rparr> \<and>
    at \<le> NGX_HTTP_V2_TABLE_SIZE \<and> at mod NGX_HTTP_V2_TABLE_SIZE = (v (hp_added h) + n) mod NGX_HTTP_V2_TABLE_SIZE \<and>
    length (hp_storage h') = NGX_HTTP_V2_TABLE_SIZE \<and> hp_pos h' \<le> NGX_HTTP_V2_TABLE_SIZE \<and>
    hp_pos h' mod NGX_HTTP_V2_TABLE_SIZE = (v (hp_added h) + n + l) mod NGX_HTTP_V2_TABLE_SIZE \<and>
    ring_read (hp_storage h') (v (hp_added h)) n = h_name hd0 \<and>
    ring_read (hp_storage h') (v (hp_added h) + n) l = h_value hd0 \<and>
    (\<forall>x len. x + len \<le> v (hp_added h) \<longrightarrow> v (hp_added h) + n + l \<le> x + NGX_HTTP_V2_TABLE_SIZE \<longrightarrow>
       ring_read (hp_storage h') x len = ring_read (hp_storage h) x len)"
proof -
  let ?N = NGX_HTTP_V2_TABLE_SIZE
  obtain entry h1 where take: "hp_take_entry h = (entry, h1)" by (cases "hp_take_entry h")
  note taken = hp_take_entry_ok [OF assms(1) take]
  obtain heap reused where h1: "h1 = h\<lparr>hp_heap := heap, hp_reused := reused\<rparr>" using taken(1) by blast
  have keep: "hp_storage h1 = hp_storage h" "hp_pos h1 = hp_pos h" "hp_added h1 = hp_added h"
    "hp_deleted h1 = hp_deleted h" "hp_size h1 = hp_size h" "hp_free h1 = hp_free h"
    "hp_allocated h1 = hp_allocated h" "hp_slot h1 = hp_slot h"
    by (simp_all add: fun_eq_iff hp_slot_def h1)
  obtain a1 h2 where s1: "hp_store (?N - hp_pos h1) (h_name hd0) h1 = (a1, h2)"
    by (cases "hp_store (?N - hp_pos h1) (h_name hd0) h1")
  obtain a2 h3 where s2: "hp_store a1 (h_value hd0) h2 = (a2, h3)"
    by (cases "hp_store a1 (h_value hd0) h2")
  have ring: "length (hp_storage h1) = ?N" "hp_pos h1 \<le> ?N" "hp_pos h1 mod ?N = v (hp_added h) mod ?N"
    using assms(2) by (simp_all add: hp_texts_def keep)
  note stored = hp_store_both [OF s1 s2 ring(1,2) assms(3) ring(3)]
  define E where "E = \<lparr>name_len = n, name_data = hp_pos h, value_len = l, value_data = hp_pos h2\<rparr>"
  define h4 where "h4 = h3\<lparr>hp_heap := (hp_heap h3)[entry := E]\<rparr>"
  obtain st ps where h3: "h3 = h1\<lparr>hp_storage := st, hp_pos := ps\<rparr>" using stored(1) by blast
  have h4: "hp_added h4 = hp_added h" "hp_deleted h4 = hp_deleted h" "hp_reused h4 = hp_reused h1"
    "hp_size h4 = hp_size h" "hp_free h4 = hp_free h" "hp_allocated h4 = hp_allocated h" "hp_slot h4 = hp_slot h"
    "hp_storage h4 = hp_storage h3" "hp_pos h4 = hp_pos h3" "hp_heap h4 = (hp_heap h1)[entry := E]"
    "hp_entries h4 = hp_entries h1"
    by (simp_all add: h4_def h3 h1 hp_slot_def fun_eq_iff)
  have ptr: "hp_pointers h4"
    using taken(2) unfolding hp_pointers_def h4 keep by simp
  have guard: "hp_added h4 < hp_reused h4 + hp_allocated h4 \<or> hp_reused h4 = hp_deleted h4"
    using taken(6) by (simp add: h4)
  have fresh: "entry < length (hp_heap h4)" "entry \<notin> hp_slot h4 ` {hp_reused h4..<hp_added h4}"
    using taken(3,4) by (simp_all add: h4)
  have entry: "hp_heap h4 ! entry = E" using taken(3) by (simp add: h4)
  have olds: "hp_entry h4 k = hp_entry h k" if "k \<in> {hp_deleted h..<hp_added h}" for k
  proof -
    have "hp_reused h1 \<le> hp_deleted h" using taken(2) by (simp add: hp_pointers_def keep)
    then have "hp_slot h k \<noteq> entry" using taken(4) that by force
    then have "hp_entry h4 k = hp_entry h1 k" by (simp add: hp_entry_def h4 keep)
    with taken(5) [OF that] show ?thesis by simp
  qed
  have h': "h' = (hp_grow h4)\<lparr>hp_entries := Some ((the (hp_entries (hp_grow h4)))
      [hp_added (hp_grow h4) mod hp_allocated (hp_grow h4) := entry]), hp_added := hp_added (hp_grow h4) + 1\<rparr>"
    by (simp add: h'_def hp_insert_def take s1 [unfolded keep] s2 h4_def E_def n_def l_def keep Let_def)
  from hp_append_pointer [OF ptr guard fresh] obtain m where m: "m \<le> hp_deleted h" "hp_pointers h'"
    "hp_added h' = Suc (hp_added h - m)" "hp_deleted h' = hp_deleted h - m"
    "\<And>k. k \<in> {hp_deleted h..<hp_added h} \<Longrightarrow> hp_entry h' (k - m) = hp_entry h4 k"
    "hp_entry h' (hp_added h - m) = E" "hp_storage h' = hp_storage h3" "hp_pos h' = hp_pos h3"
    "hp_size h' = hp_size h" "hp_free h' = hp_free h"
    unfolding h' [symmetric] entry unfolding h4 by blast
  have old: "\<forall>k \<in> {hp_deleted h..<hp_added h}. hp_entry h' (k - m) = hp_entry h k"
    using m(5) olds by simp
  have reads: "\<forall>x len. x + len \<le> v (hp_added h) \<longrightarrow> v (hp_added h) + n + l \<le> x + ?N \<longrightarrow>
      ring_read (hp_storage h') x len = ring_read (hp_storage h) x len"
    using stored(9) unfolding m(7) n_def l_def keep by blast
  note parts = m(1-4) m(9,10) old m(6) [unfolded E_def] stored(4,5) stored(2,3) [folded m(7,8)]
    stored(6-8) [folded m(7,8) n_def l_def]
  show ?thesis
    by (intro exI [of _ m] exI [of _ "hp_pos h2"] conjI parts reads) (use parts in \<open>simp_all add: n_def l_def\<close>)
qed

lemma hp_texts_run:
  assumes "hp_texts h v" "hp_deleted h \<le> k" "k \<le> hp_added h"
  shows "v (hp_added h) = v k + (\<Sum>j = k..<hp_added h. text_size (hp_entry h j))"
proof -
  have "i \<le> hp_added h \<Longrightarrow> k \<le> i \<Longrightarrow> v i = v k + (\<Sum>j = k..<i. text_size (hp_entry h j))" for i
  proof (induction i)
    case (Suc i)
    show ?case
    proof (cases "k = Suc i")
      case False
      with Suc assms(2) have "i \<in> {hp_deleted h..<hp_added h}" "k \<le> i" by auto
      with assms(1) have "v (Suc i) = v i + text_size (hp_entry h i)" by (simp add: hp_texts_def Let_def)
      with Suc \<open>k \<le> i\<close> show ?thesis by simp
    qed simp
  qed simp
  from this [of "hp_added h"] assms(3) show ?thesis by simp
qed

lemma sum_shift_down:
  "m \<le> d \<Longrightarrow> (\<Sum>k = d - m..<a - m. f k) = (\<Sum>k = d..<a. f (k - m :: nat) :: nat)"
  by (rule sum.reindex_bij_witness [of _ "\<lambda>k. k - m" "\<lambda>k. k + m"]) auto

lemma upt_shift_down: "m \<le> d \<Longrightarrow> [d - m..<a - m] = map (\<lambda>k. k - m) [d..<a]"
  by (rule nth_equalityI) auto

lemma hp_insert_ok:
  assumes "hp_ok h0" "length (h_name hd0) + length (h_value hd0) + 32 \<le> hp_free h0"
  defines "h' \<equiv> hp_insert hd0 (h0\<lparr>hp_free := hp_free h0 - (length (h_name hd0) + length (h_value hd0) + 32)\<rparr>)"
  shows "hp_ok h' \<and> hp_size h' = hp_size h0 \<and> hp_abs h' = hd0 # hp_abs h0"
proof -
  let ?N = NGX_HTTP_V2_TABLE_SIZE and ?a = "hp_added h0" and ?d = "hp_deleted h0"
  let ?n = "length (h_name hd0)" and ?l = "length (h_value hd0)"
  define f where "f = h0\<lparr>hp_free := hp_free h0 - (?n + ?l + 32)\<rparr>"
  from assms(1) obtain v where ok0: "hp_pointers h0" "hp_sizes h0" "hp_texts h0 v" by (auto simp: hp_ok_def)
  have same: "hp_slot f = hp_slot h0" "hp_entry f = hp_entry h0" "hp_added f = hp_added h0" "hp_deleted f = hp_deleted h0"
    "hp_size f = hp_size h0" "hp_free f = hp_free h0 - (?n + ?l + 32)" "hp_pos f = hp_pos h0"
    "hp_storage f = hp_storage h0" by (simp_all add: f_def hp_slot_def hp_entry_def fun_eq_iff)
  have f: "hp_pointers f" "hp_texts f v"
    using ok0(1,3) unfolding hp_pointers_def hp_texts_def same by (simp_all add: f_def)
  have room: "(\<Sum>k = ?d..<?a. text_size (hp_entry h0 k)) + ?n + ?l \<le> ?N"
  proof -
    have "(\<Sum>k = ?d..<?a. text_size (hp_entry h0 k)) \<le> (\<Sum>k = ?d..<?a. entry_size (hp_entry h0 k))"
      by (rule sum_mono) (simp add: text_size_def entry_size_def)
    with ok0(2) assms(2) show ?thesis by (simp add: hp_sizes_def)
  qed
  then have "?n + ?l \<le> ?N" by simp
  have h'f: "h' = hp_insert hd0 f" by (simp add: h'_def f_def)
  from hp_insert_shape [OF f \<open>?n + ?l \<le> ?N\<close>] obtain m at where m: "m \<le> ?d" "hp_pointers h'" "hp_added h' = Suc (?a - m)"
    "hp_deleted h' = ?d - m" "hp_size h' = hp_size h0" "hp_free h' = hp_free h0 - (?n + ?l + 32)"
    and olds: "\<forall>k \<in> {?d..<?a}. hp_entry h' (k - m) = hp_entry h0 k"
    and new: "hp_entry h' (?a - m) = \<lparr>name_len = ?n, name_data = hp_pos h0, value_len = ?l, value_data = at\<rparr>"
    "at \<le> ?N" "at mod ?N = (v ?a + ?n) mod ?N"
    and store: "length (hp_storage h') = ?N" "hp_pos h' \<le> ?N" "hp_pos h' mod ?N = (v ?a + ?n + ?l) mod ?N"
    "ring_read (hp_storage h') (v ?a) ?n = h_name hd0" "ring_read (hp_storage h') (v ?a + ?n) ?l = h_value hd0"
    "\<forall>x len. x + len \<le> v ?a \<longrightarrow> v ?a + ?n + ?l \<le> x + ?N \<longrightarrow>
      ring_read (hp_storage h') x len = ring_read (hp_storage h0) x len"
    unfolding h'f [symmetric] same by blast
  define v' where "v' j = (if j \<le> ?a - m then v (j + m) else v ?a + ?n + ?l)" for j
  have le: "?d \<le> ?a" using ok0(1) by (simp add: hp_pointers_def)
  have v': "v' (k - m) = v k" if "k \<in> {?d..?a}" for k
  proof -
    have "k - m \<le> ?a - m" "k - m + m = k" using that m(1) by auto
    then show ?thesis by (simp only: v'_def if_True)
  qed
  have E: "entry_size (hp_entry h' (?a - m)) = ?n + ?l + 32" by (simp add: new(1) entry_size_def)
  have "(\<Sum>k = ?d - m..<?a - m. entry_size (hp_entry h' k)) = (\<Sum>k = ?d..<?a. entry_size (hp_entry h0 k))"
    unfolding sum_shift_down [OF m(1)] using olds by (intro sum.cong) auto
  with ok0(2) assms(2) E m le have sizes: "hp_sizes h'" by (simp add: hp_sizes_def)
  have "name_data e \<le> ?N \<and> value_data e \<le> ?N \<and> name_data e mod ?N = v' x mod ?N \<and>
      value_data e mod ?N = (v' x + name_len e) mod ?N \<and> v' (Suc x) = v' x + text_size e"
    if x: "x \<in> {?d - m..<Suc (?a - m)}" and e: "e = hp_entry h' x" for x e
  proof (cases "x = ?a - m")
    case True
    have "v' x = v ?a" using v' [of ?a] le True by simp
    with ok0(3) new True e show ?thesis by (simp add: hp_texts_def v'_def text_size_def)
  next
    case False
    define k where "k = x + m"
    have k: "k \<in> {?d..<?a}" "x = k - m" "Suc x = Suc k - m" using x False m(1) le by (auto simp: k_def)
    have "v' (k - m) = v k" "v' (Suc k - m) = v (Suc k)" by (rule v', use k(1) in simp)+
    then have "v' x = v k" "v' (Suc x) = v (Suc k)" by (simp_all only: k(2) k(3) [symmetric])
    moreover have "e = hp_entry h0 k" using olds k e by simp
    ultimately show ?thesis using ok0(3) k(1) by (simp add: hp_texts_def Let_def)
  qed
  then have texts: "hp_texts h' v'"
    unfolding hp_texts_def m(3,4) Let_def using store(1-3) by (simp add: v'_def)
  have "hp_header h' (k - m) = hp_header h0 k" if k: "k \<in> {?d..<?a}" for k
  proof -
    have "v ?a = v k + (\<Sum>j = k..<?a. text_size (hp_entry h0 j))"
      by (rule hp_texts_run [OF ok0(3)]) (use k in auto)
    moreover have "(\<Sum>j = k..<?a. text_size (hp_entry h0 j)) \<le> (\<Sum>j = ?d..<?a. text_size (hp_entry h0 j))"
      by (rule sum_mono2) (use k in auto)
    moreover have "text_size (hp_entry h0 k) \<le> (\<Sum>j = k..<?a. text_size (hp_entry h0 j))"
      by (rule member_le_sum) (use k in auto)
    ultimately have reads: "ring_read (hp_storage h') (v k) (name_len (hp_entry h0 k)) =
        ring_read (hp_storage h0) (v k) (name_len (hp_entry h0 k))"
      "ring_read (hp_storage h') (v k + name_len (hp_entry h0 k)) (value_len (hp_entry h0 k)) =
        ring_read (hp_storage h0) (v k + name_len (hp_entry h0 k)) (value_len (hp_entry h0 k))"
      using store(6) room by (auto simp: text_size_def)
    have "k - m \<in> {hp_deleted h'..<hp_added h'}" using k m by auto
    from hp_header_ring [OF sizes texts this] hp_header_ring [OF ok0(2,3) k] v' [of k] k olds reads
    show ?thesis by simp
  qed
  then have "map (hp_header h') (rev [?d - m..<?a - m]) = hp_abs h0"
    by (simp add: hp_abs_def upt_shift_down [OF m(1)] rev_map)
  moreover have "hp_header h' (?a - m) = hd0"
  proof -
    have "?a - m \<in> {hp_deleted h'..<hp_added h'}" using m le by auto
    from hp_header_ring [OF sizes texts this] new(1) v' [of ?a] le store(4,5) show ?thesis by simp
  qed
  ultimately have "hp_abs h' = hd0 # hp_abs h0" using m(3,4) le by (simp add: hp_abs_def)
  with m(2,5) sizes texts show ?thesis by (auto simp: hp_ok_def)
qed

subsection \<open>The operations\<close>

text \<open>Before the first header there are no rings.\<close>

definition hp_fresh :: "hpack \<Rightarrow> bool" where
  "hp_fresh h \<longleftrightarrow> hp_entries h = None \<and> hp_added h = 0 \<and> hp_deleted h = 0 \<and> hp_reused h = 0 \<and>
     hp_free h = hp_size h \<and> hp_size h \<le> NGX_HTTP_V2_TABLE_SIZE"

definition hp_inv :: "hpack \<Rightarrow> bool" where
  "hp_inv h \<longleftrightarrow> hp_ok h \<or> hp_fresh h"

text \<open>The size that counts: the first header sets it.\<close>

definition hp_limit :: "hpack \<Rightarrow> nat" where
  "hp_limit h = (if hp_entries h = None then NGX_HTTP_V2_TABLE_SIZE else hp_size h)"

lemma hp_inv_abs_fresh: "hp_fresh h \<Longrightarrow> hp_abs h = []"
  by (simp add: hp_fresh_def hp_abs_def)

lemma hp_allocate_ok:
  assumes "hp_inv h"
  shows "hp_ok (hp_allocate h)" "hp_size (hp_allocate h) = hp_limit h" "hp_abs (hp_allocate h) = hp_abs h"
proof -
  show "hp_ok (hp_allocate h)"
  proof (cases "hp_entries h = None")
    case True
    with assms have "hp_fresh h" by (auto simp: hp_inv_def hp_ok_def hp_pointers_def)
    then show ?thesis
      by (auto simp: hp_fresh_def hp_allocate_def hp_ok_def hp_pointers_def hp_sizes_def hp_texts_def intro!: exI [of _ "\<lambda>_. 0"])
  next
    case False
    with assms show ?thesis by (auto simp: hp_inv_def hp_fresh_def hp_allocate_def)
  qed
  show "hp_size (hp_allocate h) = hp_limit h" by (simp add: hp_allocate_def hp_limit_def)
  show "hp_abs (hp_allocate h) = hp_abs h"
  proof (cases "hp_entries h = None")
    case True
    with assms have "hp_fresh h" by (auto simp: hp_inv_def hp_ok_def hp_pointers_def)
    then show ?thesis by (simp add: hp_fresh_def hp_allocate_def hp_abs_def)
  next
    case False
    then show ?thesis by (auto simp: hp_allocate_def)
  qed
qed

lemma add_header_ok:
  assumes "hp_inv h"
  shows "hp_ok (ngx_http_v2_add_header hd0 h)" "hp_size (ngx_http_v2_add_header hd0 h) = hp_limit h"
    and "hp_abs (ngx_http_v2_add_header hd0 h) = rfc_add (hp_limit h) hd0 (hp_abs h)"
proof -
  let ?h = "hp_allocate h" and ?n = "length (h_name hd0) + length (h_value hd0)"
  note a = hp_allocate_ok [OF assms]
  have "hp_ok (ngx_http_v2_add_header hd0 h) \<and> hp_size (ngx_http_v2_add_header hd0 h) = hp_limit h \<and>
    hp_abs (ngx_http_v2_add_header hd0 h) = rfc_add (hp_limit h) hd0 (hp_abs h)"
  proof (cases "?n + 32 \<le> hp_limit h")
    case False
    then obtain h' where "ngx_http_v2_table_account ?n ?h = (False, h')" "hp_ok h'" "hp_size h' = hp_limit h" "hp_abs h' = []"
      using table_account_no [OF a(1), of ?n] a(2) by auto
    with False show ?thesis by (simp add: ngx_http_v2_add_header_def rfc_add_def header_size_def)
  next
    case True
    then obtain h0 where h0: "ngx_http_v2_table_account ?n ?h = (True, h0\<lparr>hp_free := hp_free h0 - (?n + 32)\<rparr>)"
      "hp_ok h0" "?n + 32 \<le> hp_free h0" "hp_size h0 = hp_limit h" "hp_abs h0 = evict (hp_limit h - (?n + 32)) (hp_abs h)"
      using table_account_yes [OF a(1), of ?n] a(2,3) by auto
    have "hp_limit h - (?n + 32) = hp_limit h - header_size hd0" by (simp add: header_size_def)
    with hp_insert_ok [OF h0(2,3)] h0 True show ?thesis
      by (simp add: ngx_http_v2_add_header_def rfc_add_def header_size_def)
  qed
  then show "hp_ok (ngx_http_v2_add_header hd0 h)" "hp_size (ngx_http_v2_add_header hd0 h) = hp_limit h"
    and "hp_abs (ngx_http_v2_add_header hd0 h) = rfc_add (hp_limit h) hd0 (hp_abs h)" by blast+
qed

lemma table_size_inv:
  assumes "hp_inv h" "sz \<le> NGX_HTTP_V2_TABLE_SIZE"
  shows "\<exists>h'. ngx_http_v2_table_size sz h = Some h' \<and> hp_inv h' \<and> hp_size h' = sz \<and> hp_abs h' = evict sz (hp_abs h) \<and>
    (hp_entries h' = None \<longleftrightarrow> hp_entries h = None)"
proof (cases "hp_ok h")
  case True
  with table_size_ok [OF True assms(2)] show ?thesis by (auto simp: hp_inv_def hp_ok_def hp_pointers_def)
next
  case False
  with assms(1) have f: "hp_fresh h" by (simp add: hp_inv_def)
  let ?needed = "int (hp_size h) - int sz"
  have loop: "hp_size_loop ?needed h = h"
    using f by (subst hp_size_loop.simps) (simp add: hp_fresh_def)
  then show ?thesis
    using f assms(2) hp_inv_abs_fresh [OF f]
    by (intro exI [of _ "h\<lparr>hp_size := sz, hp_free := sz\<rparr>"])
      (simp add: ngx_http_v2_table_size_def Let_def hp_inv_def hp_fresh_def hp_abs_def)
qed

lemma get_indexed_abs:
  assumes "hp_inv h"
  shows "ngx_http_v2_get_indexed_header h index False state =
    (let hs = ngx_http_v2_static_table @ hp_abs h in
     if index = 0 \<or> length hs < index then None
     else Some (state\<lparr>h_name := h_name (hs ! (index - 1)), h_value := h_value (hs ! (index - 1))\<rparr>))"
proof -
  let ?i = "index - 1 - NGX_HTTP_V2_STATIC_TABLE_ENTRIES"
  have header: "hd0 = state\<lparr>h_name := h_name hd0, h_value := h_value hd0\<rparr>" for hd0 :: header by simp
  have "hp_abs h ! ?i = hp_header h (hp_added h - ?i - 1)" if "?i < hp_added h - hp_deleted h"
    using that by (simp add: hp_abs_def rev_nth)
  then show ?thesis
    using header [of "ngx_http_v2_static_table ! (index - 1)"]
    by (auto simp: ngx_http_v2_get_indexed_header_def NGX_HTTP_V2_STATIC_TABLE_ENTRIES_def nth_append
        hp_header_def hp_abs_def Let_def)
qed

subsection \<open>Properties\<close>

text \<open>What a connection does with its table, and the same on the table of the RFC: the headers, the size, and whether a
  header has been added, which is when nginx sets the size.\<close>

datatype hp_op = Hp_add header | Hp_resize nat

fun hp_run :: "hp_op list \<Rightarrow> hpack \<Rightarrow> hpack option" where
  "hp_run [] h = Some h"
| "hp_run (Hp_add hd0 # ops) h = hp_run ops (ngx_http_v2_add_header hd0 h)"
| "hp_run (Hp_resize sz # ops) h =
     (case ngx_http_v2_table_size sz h of None \<Rightarrow> None | Some h \<Rightarrow> hp_run ops h)"

fun rfc_run :: "hp_op list \<Rightarrow> header list \<Rightarrow> nat \<Rightarrow> bool \<Rightarrow> header list option" where
  "rfc_run [] hs sz used = Some hs"
| "rfc_run (Hp_add hd0 # ops) hs sz used =
     (let sz = if used then sz else NGX_HTTP_V2_TABLE_SIZE in rfc_run ops (rfc_add sz hd0 hs) sz True)"
| "rfc_run (Hp_resize n # ops) hs sz used =
     (if NGX_HTTP_V2_TABLE_SIZE < n then None else rfc_run ops (evict n hs) n used)"

lemma hp_run_inv: "hp_inv h \<Longrightarrow> hp_run ops h = Some h' \<Longrightarrow> hp_inv h'"
proof (induction ops h rule: hp_run.induct)
  case (2 hd0 ops h)
  with add_header_ok(1) [OF "2.prems"(1), of hd0] show ?case by (simp add: hp_inv_def)
next
  case (3 sz ops h)
  show ?case
  proof (cases "sz \<le> NGX_HTTP_V2_TABLE_SIZE")
    case True
    with 3 table_size_inv [OF "3.prems"(1) True] show ?thesis by auto
  qed (use 3 in \<open>simp add: ngx_http_v2_table_size_def\<close>)
qed simp

lemma hp_run_abs:
  "hp_inv h \<Longrightarrow> map_option hp_abs (hp_run ops h) = rfc_run ops (hp_abs h) (hp_size h) (hp_entries h \<noteq> None)"
proof (induction ops h rule: hp_run.induct)
  case (2 hd0 ops h)
  note add = add_header_ok [OF "2.prems", of hd0]
  then have "hp_inv (ngx_http_v2_add_header hd0 h)" "hp_entries (ngx_http_v2_add_header hd0 h) \<noteq> None"
    by (simp_all add: hp_inv_def hp_ok_def hp_pointers_def)
  with "2.IH" add show ?case by (simp add: hp_limit_def Let_def)
next
  case (3 sz ops h)
  show ?case
  proof (cases "sz \<le> NGX_HTTP_V2_TABLE_SIZE")
    case True
    with 3 table_size_inv [OF "3.prems" True] show ?thesis by auto
  qed (simp add: ngx_http_v2_table_size_def)
qed simp

lemma hp_init_inv: "hp_inv hp_init" "hp_abs hp_init = []" "hp_size hp_init = 0" "hp_entries hp_init = None"
  by (simp_all add: hp_inv_def hp_fresh_def hp_init_def hp_abs_def)


text \<open>C31. The headers held never take more, with 32 bytes counted for each, than the size of the table, which is at
most \<^verbatim>\<open>NGX_HTTP_V2_TABLE_SIZE\<close>; \<^verbatim>\<open>free\<close> is exactly what is left, and the ring of pointers has room for
all of them.\<close>

theorem hpack_bounded:
  assumes "hp_run ops hp_init = Some h"
  shows "headers_size (hp_abs h) + hp_free h = hp_size h \<and> hp_size h \<le> NGX_HTTP_V2_TABLE_SIZE \<and>
    hp_added h - hp_deleted h \<le> hp_allocated h"
  using hp_run_inv [OF hp_init_inv(1) assms]
proof (unfold hp_inv_def, elim disjE)
  assume ok: "hp_ok h"
  then have "hp_added h - hp_deleted h \<le> hp_allocated h" "hp_size h \<le> NGX_HTTP_V2_TABLE_SIZE"
    by (auto simp: hp_ok_def hp_pointers_def hp_sizes_def)
  with hp_abs_size [OF ok] show ?thesis by blast
next
  assume "hp_fresh h"
  with hp_inv_abs_fresh [OF this] show ?thesis by (simp add: hp_fresh_def)
qed

text \<open>The size is set to 40 and a header of 35 is added: 4061 of 4096 are left, as the first header sets the size.\<close>

theorem hpack_bounded_witness:
  "\<exists>h. hp_run [Hp_resize 40, Hp_add (static_header ''a'' ''bc'')] hp_init = Some h \<and> hp_size h \<le> NGX_HTTP_V2_TABLE_SIZE \<and>
     headers_size (hp_abs h) + hp_free h = hp_size h"
proof -
  obtain h where run: "hp_run [Hp_resize 40, Hp_add (static_header ''a'' ''bc'')] hp_init = Some h"
    using table_size_inv [OF hp_init_inv(1), of 40] by auto
  with hpack_bounded [OF run] show ?thesis by blast
qed

end
