(* ===== verification/Ngx_Radix_Tree.thy ===== *)
theory Ngx_Radix_Tree
  imports Prelude
begin

section \<open>Radix trees of addresses\<close>

text \<open>
  \<^verbatim>\<open>src/core/ngx_radix_tree.c\<close>: the trees of 32-bit and of 128-bit keys with masks that hold the values of address
  ranges. A node is reached by the leading bits of a key, as far as the bits of the mask are set. The pointer
  to the parent, used when a branch is removed, is the return of the recursion; the list of free nodes and the
  failure of an allocation are left out. A pointer that is \<^verbatim>\<open>NULL\<close> when it is followed is an outcome of its own.
\<close>

text \<open>Left, value, right.\<close>

datatype radix_tree = Radix_null | Radix_node radix_tree u64 radix_tree

definition NGX_RADIX_NO_VALUE :: u64 where
  "NGX_RADIX_NO_VALUE = - 1"

datatype radix_rc = Radix_OK | Radix_BUSY | Radix_ERROR | Radix_null_deref

definition radix_root :: radix_tree where
  "radix_root = Radix_node Radix_null NGX_RADIX_NO_VALUE Radix_null"

text \<open>The end of an insertion: the value of the node that was reached, and the next node of a new branch.\<close>

definition radix_set :: "u64 \<Rightarrow> radix_tree \<Rightarrow> u64 \<Rightarrow> radix_tree \<Rightarrow> radix_rc \<times> radix_tree" where
  "radix_set val l v r =
     (if v \<noteq> NGX_RADIX_NO_VALUE then (Radix_BUSY, Radix_node l v r) else (Radix_OK, Radix_node l val r))"

definition radix_link :: "bool \<Rightarrow> radix_tree \<Rightarrow> radix_tree" where
  "radix_link right next =
     (if right then Radix_node Radix_null NGX_RADIX_NO_VALUE next else Radix_node next NGX_RADIX_NO_VALUE Radix_null)"

text \<open>The end of a deletion: the node that was reached, and the loop to the parents after a node was removed.\<close>

definition radix_unset :: "bool \<Rightarrow> radix_tree \<Rightarrow> u64 \<Rightarrow> radix_tree \<Rightarrow> radix_rc \<times> radix_tree" where
  "radix_unset root l v r =
     (if l \<noteq> Radix_null \<or> r \<noteq> Radix_null then
        (if v \<noteq> NGX_RADIX_NO_VALUE then (Radix_OK, Radix_node l NGX_RADIX_NO_VALUE r)
         else (Radix_ERROR, Radix_node l v r))
      else if root then (Radix_null_deref, Radix_node l v r)
      else (Radix_OK, Radix_null))"

definition radix_prune :: "bool \<Rightarrow> radix_tree \<Rightarrow> radix_tree \<Rightarrow> radix_tree \<Rightarrow> u64 \<Rightarrow> radix_tree \<Rightarrow> radix_tree" where
  "radix_prune root child child' l v r =
     (if child \<noteq> Radix_null \<and> child' = Radix_null \<and> l = Radix_null \<and> r = Radix_null \<and>
         v = NGX_RADIX_NO_VALUE \<and> \<not> root
      then Radix_null else Radix_node l v r)"

text \<open>A node that a search passes.\<close>

definition radix_seen :: "u64 \<Rightarrow> u64 \<Rightarrow> u64" where
  "radix_seen val v = (if v \<noteq> NGX_RADIX_NO_VALUE then v else val)"

subsection \<open>Keys of 32 bits\<close>

lemma drop_bit_1_less: "w AND m \<noteq> 0 \<Longrightarrow> unat (drop_bit 1 w) < unat (w :: 'a :: len word)"
proof -
  assume "w AND m \<noteq> 0"
  then have "w \<noteq> 0" by auto
  then have "0 < unat w" by (simp add: unat_gt_0)
  moreover have "unat (drop_bit 1 w) = unat w div 2"
    unfolding unat_drop_bit_eq by (simp add: drop_bit_eq_div)
  ultimately show ?thesis by simp
qed

function radix32_chain :: "u32 \<Rightarrow> u32 \<Rightarrow> u64 \<Rightarrow> u32 \<Rightarrow> radix_tree" where
  "radix32_chain key msk val bt =
     (if bt AND msk \<noteq> 0 then radix_link (key AND bt \<noteq> 0) (radix32_chain key msk val (drop_bit 1 bt))
      else Radix_node Radix_null val Radix_null)"
  by pat_completeness auto

termination
  by (relation "measure (\<lambda>(key, msk, val, bt). unat bt)") (auto intro: drop_bit_1_less [unfolded One_nat_def])

declare radix32_chain.simps [simp del]

fun radix32_insert_at :: "u32 \<Rightarrow> u32 \<Rightarrow> u64 \<Rightarrow> u32 \<Rightarrow> radix_tree \<Rightarrow> radix_rc \<times> radix_tree" where
  "radix32_insert_at key msk val bt Radix_null = (Radix_OK, radix32_chain key msk val bt)"
| "radix32_insert_at key msk val bt (Radix_node l v r) =
     (if bt AND msk \<noteq> 0 then
        if key AND bt \<noteq> 0 then
          case radix32_insert_at key msk val (drop_bit 1 bt) r of (rc, r) \<Rightarrow> (rc, Radix_node l v r)
        else
          case radix32_insert_at key msk val (drop_bit 1 bt) l of (rc, l) \<Rightarrow> (rc, Radix_node l v r)
      else radix_set val l v r)"

definition ngx_radix32tree_insert :: "radix_tree \<Rightarrow> u32 \<Rightarrow> u32 \<Rightarrow> u64 \<Rightarrow> radix_rc \<times> radix_tree" where
  "ngx_radix32tree_insert tree key msk val = radix32_insert_at key msk val 0x80000000 tree"

fun radix32_delete_at :: "u32 \<Rightarrow> u32 \<Rightarrow> u32 \<Rightarrow> bool \<Rightarrow> radix_tree \<Rightarrow> radix_rc \<times> radix_tree" where
  "radix32_delete_at key msk bt root Radix_null = (Radix_ERROR, Radix_null)"
| "radix32_delete_at key msk bt root (Radix_node l v r) =
     (if bt AND msk \<noteq> 0 then
        if key AND bt \<noteq> 0 then
          case radix32_delete_at key msk (drop_bit 1 bt) False r of (rc, r') \<Rightarrow> (rc, radix_prune root r r' l v r')
        else
          case radix32_delete_at key msk (drop_bit 1 bt) False l of (rc, l') \<Rightarrow> (rc, radix_prune root l l' l' v r)
      else radix_unset root l v r)"

definition ngx_radix32tree_delete :: "radix_tree \<Rightarrow> u32 \<Rightarrow> u32 \<Rightarrow> radix_rc \<times> radix_tree" where
  "ngx_radix32tree_delete tree key msk = radix32_delete_at key msk 0x80000000 True tree"

fun radix32_find_at :: "u32 \<Rightarrow> u32 \<Rightarrow> u64 \<Rightarrow> radix_tree \<Rightarrow> u64" where
  "radix32_find_at key bt val Radix_null = val"
| "radix32_find_at key bt val (Radix_node l v r) =
     radix32_find_at key (drop_bit 1 bt) (radix_seen val v) (if key AND bt \<noteq> 0 then r else l)"

definition ngx_radix32tree_find :: "radix_tree \<Rightarrow> u32 \<Rightarrow> u64" where
  "ngx_radix32tree_find tree key = radix32_find_at key 0x80000000 NGX_RADIX_NO_VALUE tree"

subsection \<open>Keys of 16 bytes\<close>

text \<open>The next bit; the loops of the insertion and the deletion end after the last one.\<close>

definition radix128_next :: "nat \<Rightarrow> byte \<Rightarrow> nat \<times> byte" where
  "radix128_next i bt = (let bt = drop_bit 1 bt in if bt = 0 then (i + 1, 0x80) else (i, bt))"

definition radix128_more :: "byte list \<Rightarrow> nat \<Rightarrow> byte \<Rightarrow> bool" where
  "radix128_more msk i bt \<longleftrightarrow> i \<noteq> 16 \<and> bt AND msk ! i \<noteq> 0"

function radix128_chain :: "byte list \<Rightarrow> byte list \<Rightarrow> u64 \<Rightarrow> nat \<Rightarrow> byte \<Rightarrow> radix_tree" where
  "radix128_chain key msk val i bt =
     (if i < 16 \<and> radix128_more msk i bt then
        case radix128_next i bt of (i', bt') \<Rightarrow>
          radix_link (key ! i AND bt \<noteq> 0) (radix128_chain key msk val i' bt')
      else Radix_node Radix_null val Radix_null)"
  by pat_completeness auto

termination
proof (relation "measures [\<lambda>(key, msk, val, i, bt). 16 - i, \<lambda>(key, msk, val, i, bt). unat bt]", goal_cases)
  case (2 key msk val i bt i' bt')
  then have "bt AND msk ! i \<noteq> 0" by (simp add: radix128_more_def)
  from drop_bit_1_less [OF this] 2 show ?case
    by (auto simp: radix128_next_def Let_def split: if_splits)
qed simp

declare radix128_chain.simps [simp del]

fun radix128_insert_at :: "byte list \<Rightarrow> byte list \<Rightarrow> u64 \<Rightarrow> nat \<Rightarrow> byte \<Rightarrow> radix_tree \<Rightarrow> radix_rc \<times> radix_tree" where
  "radix128_insert_at key msk val i bt Radix_null = (Radix_OK, radix128_chain key msk val i bt)"
| "radix128_insert_at key msk val i bt (Radix_node l v r) =
     (if radix128_more msk i bt then
        case radix128_next i bt of (i', bt') \<Rightarrow>
          if key ! i AND bt \<noteq> 0 then
            case radix128_insert_at key msk val i' bt' r of (rc, r) \<Rightarrow> (rc, Radix_node l v r)
          else
            case radix128_insert_at key msk val i' bt' l of (rc, l) \<Rightarrow> (rc, Radix_node l v r)
      else radix_set val l v r)"

definition ngx_radix128tree_insert :: "radix_tree \<Rightarrow> byte list \<Rightarrow> byte list \<Rightarrow> u64 \<Rightarrow> radix_rc \<times> radix_tree" where
  "ngx_radix128tree_insert tree key msk val = radix128_insert_at key msk val 0 0x80 tree"

fun radix128_delete_at :: "byte list \<Rightarrow> byte list \<Rightarrow> nat \<Rightarrow> byte \<Rightarrow> bool \<Rightarrow> radix_tree \<Rightarrow> radix_rc \<times> radix_tree" where
  "radix128_delete_at key msk i bt root Radix_null = (Radix_ERROR, Radix_null)"
| "radix128_delete_at key msk i bt root (Radix_node l v r) =
     (if radix128_more msk i bt then
        case radix128_next i bt of (i', bt') \<Rightarrow>
          if key ! i AND bt \<noteq> 0 then
            case radix128_delete_at key msk i' bt' False r of (rc, r') \<Rightarrow> (rc, radix_prune root r r' l v r')
          else
            case radix128_delete_at key msk i' bt' False l of (rc, l') \<Rightarrow> (rc, radix_prune root l l' l' v r)
      else radix_unset root l v r)"

definition ngx_radix128tree_delete :: "radix_tree \<Rightarrow> byte list \<Rightarrow> byte list \<Rightarrow> radix_rc \<times> radix_tree" where
  "ngx_radix128tree_delete tree key msk = radix128_delete_at key msk 0 0x80 True tree"

fun radix128_find_at :: "byte list \<Rightarrow> nat \<Rightarrow> byte \<Rightarrow> u64 \<Rightarrow> radix_tree \<Rightarrow> u64" where
  "radix128_find_at key i bt val Radix_null = val"
| "radix128_find_at key i bt val (Radix_node l v r) =
     (case radix128_next i bt of (i', bt') \<Rightarrow>
        radix128_find_at key i' bt' (radix_seen val v) (if key ! i AND bt \<noteq> 0 then r else l))"

definition ngx_radix128tree_find :: "radix_tree \<Rightarrow> byte list \<Rightarrow> u64" where
  "ngx_radix128tree_find tree key = radix128_find_at key 0 0x80 NGX_RADIX_NO_VALUE tree"

subsection \<open>Paths\<close>

text \<open>The operations on a list of bits, which both kinds of keys stand for.\<close>

fun path_chain :: "u64 \<Rightarrow> bool list \<Rightarrow> radix_tree" where
  "path_chain val [] = Radix_node Radix_null val Radix_null"
| "path_chain val (b # bs) = radix_link b (path_chain val bs)"

fun path_insert :: "u64 \<Rightarrow> bool list \<Rightarrow> radix_tree \<Rightarrow> radix_rc \<times> radix_tree" where
  "path_insert val bs Radix_null = (Radix_OK, path_chain val bs)"
| "path_insert val [] (Radix_node l v r) = radix_set val l v r"
| "path_insert val (b # bs) (Radix_node l v r) =
     (if b then case path_insert val bs r of (rc, r) \<Rightarrow> (rc, Radix_node l v r)
      else case path_insert val bs l of (rc, l) \<Rightarrow> (rc, Radix_node l v r))"

fun path_delete :: "bool list \<Rightarrow> bool \<Rightarrow> radix_tree \<Rightarrow> radix_rc \<times> radix_tree" where
  "path_delete bs root Radix_null = (Radix_ERROR, Radix_null)"
| "path_delete [] root (Radix_node l v r) = radix_unset root l v r"
| "path_delete (b # bs) root (Radix_node l v r) =
     (if b then case path_delete bs False r of (rc, r') \<Rightarrow> (rc, radix_prune root r r' l v r')
      else case path_delete bs False l of (rc, l') \<Rightarrow> (rc, radix_prune root l l' l' v r))"

text \<open>The value that a tree has at a path, and the value that a search returns.\<close>

fun radix_at :: "radix_tree \<Rightarrow> bool list \<Rightarrow> u64 option" where
  "radix_at Radix_null bs = None"
| "radix_at (Radix_node l v r) [] = (if v = NGX_RADIX_NO_VALUE then None else Some v)"
| "radix_at (Radix_node l v r) (b # bs) = radix_at (if b then r else l) bs"

fun path_find :: "bool list \<Rightarrow> u64 \<Rightarrow> radix_tree \<Rightarrow> u64" where
  "path_find bs val Radix_null = val"
| "path_find [] val (Radix_node l v r) = radix_seen val v"
| "path_find (b # bs) val (Radix_node l v r) = path_find bs (radix_seen val v) (if b then r else l)"

text \<open>The value of the longest prefix that has one, if any.\<close>

definition longest_match :: "(bool list \<Rightarrow> u64 option) \<Rightarrow> bool list \<Rightarrow> u64 \<Rightarrow> u64 \<Rightarrow> bool" where
  "longest_match m bs none val \<longleftrightarrow>
     (\<forall>n \<le> length bs. m (take n bs) = None) \<and> val = none \<or>
     (\<exists>n \<le> length bs. m (take n bs) = Some val \<and> (\<forall>k \<le> length bs. n < k \<longrightarrow> m (take k bs) = None))"

text \<open>Trees of a depth.\<close>

fun radix_depth :: "nat \<Rightarrow> radix_tree \<Rightarrow> bool" where
  "radix_depth n Radix_null = True"
| "radix_depth n (Radix_node l v r) =
     (case n of 0 \<Rightarrow> l = Radix_null \<and> r = Radix_null | Suc n \<Rightarrow> radix_depth n l \<and> radix_depth n r)"

lemma path_find_longest:
  "radix_depth (length bs) t \<Longrightarrow> longest_match (radix_at t) bs val (path_find bs val t)"
proof (induction bs val t rule: path_find.induct)
  case (1 bs val)
  then show ?case by (simp add: longest_match_def)
next
  case (2 val l v r)
  then show ?case by (auto simp: longest_match_def radix_seen_def)
next
  case (3 b bs val l v r)
  then have IH: "longest_match (radix_at (if b then r else l)) bs (radix_seen val v) (path_find (b # bs) val (Radix_node l v r))"
    by (auto split: if_splits)
  let ?m = "radix_at (Radix_node l v r)" and ?res = "path_find (b # bs) val (Radix_node l v r)"
  have m: "?m (take (Suc n) (b # bs)) = radix_at (if b then r else l) (take n bs)" for n by simp
  show ?case
  proof (cases "\<forall>n \<le> length bs. radix_at (if b then r else l) (take n bs) = None")
    case True
    with IH have res: "?res = radix_seen val v" by (auto simp: longest_match_def)
    have none: "k \<noteq> 0 \<Longrightarrow> k \<le> Suc (length bs) \<Longrightarrow> ?m (take k (b # bs)) = None" for k
      using True by (cases k) simp_all
    show ?thesis
    proof (cases "v = NGX_RADIX_NO_VALUE")
      case novalue: True
      then have "?m (take 0 (b # bs)) = None" by simp
      with none have "\<forall>n \<le> length (b # bs). ?m (take n (b # bs)) = None" by (metis length_Cons)
      with res novalue show ?thesis by (simp add: longest_match_def radix_seen_def del: radix_at.simps path_find.simps)
    next
      case False
      then have "?m (take 0 (b # bs)) = Some ?res" by (simp add: res radix_seen_def del: path_find.simps)
      with none show ?thesis
        unfolding longest_match_def by (intro disjI2 exI [of _ 0]) (simp del: radix_at.simps path_find.simps)
    qed
  next
    case False
    with IH obtain n where n: "n \<le> length bs" "radix_at (if b then r else l) (take n bs) = Some ?res"
      "\<forall>k \<le> length bs. n < k \<longrightarrow> radix_at (if b then r else l) (take k bs) = None"
      unfolding longest_match_def by blast
    have "?m (take k (b # bs)) = None" if "k \<le> length (b # bs)" "Suc n < k" for k
      using that n(3) by (cases k) auto
    with n show ?thesis
      unfolding longest_match_def by (intro disjI2 exI [of _ "Suc n"]) (simp del: path_find.simps)
  qed
qed

subsection \<open>Insertion and deletion on maps\<close>

lemma radix_at_node:
  "radix_at (Radix_node l v r) p =
     (case p of [] \<Rightarrow> if v = NGX_RADIX_NO_VALUE then None else Some v | b # bs \<Rightarrow> radix_at (if b then r else l) bs)"
  by (cases p) simp_all

lemma path_chain_at:
  "radix_at (path_chain val bs) p = (if p = bs \<and> val \<noteq> NGX_RADIX_NO_VALUE then Some val else None)"
  by (induction bs arbitrary: p) (auto simp: radix_link_def radix_at_node split: list.split)

lemma radix_link_not_null [simp]: "radix_link b next \<noteq> Radix_null"
  by (simp add: radix_link_def)

lemma path_chain_not_null [simp]: "path_chain val bs \<noteq> Radix_null"
  by (cases bs) simp_all

lemma path_chain_depth: "length bs \<le> n \<Longrightarrow> radix_depth n (path_chain val bs)"
  by (induction bs arbitrary: n) (auto simp: radix_link_def split: nat.split)

text \<open>What an operation on a map returns, and the map after it.\<close>

definition map_insert :: "bool list \<Rightarrow> u64 \<Rightarrow> (bool list \<Rightarrow> u64 option) \<Rightarrow> radix_rc \<times> (bool list \<Rightarrow> u64 option)" where
  "map_insert bs val m =
     (if m bs = None then (Radix_OK, m(bs := if val = NGX_RADIX_NO_VALUE then None else Some val)) else (Radix_BUSY, m))"

lemma path_insert_at:
  "map_insert bs val (radix_at t) = (fst (path_insert val bs t), radix_at (snd (path_insert val bs t)))"
proof (induction bs arbitrary: t)
  case Nil
  then show ?case
    using path_chain_at [of val "[]"]
    by (cases t) (auto simp: map_insert_def radix_set_def fun_eq_iff radix_at_node split: list.split)
next
  case (Cons b bs)
  show ?case
  proof (cases t)
    case Radix_null
    then show ?thesis
      using path_chain_at [of val "b # bs"]
      by (simp add: map_insert_def fun_eq_iff del: path_chain.simps)
  next
    case (Radix_node l v r)
    let ?c = "if b then r else l"
    obtain rc c' where ins: "path_insert val bs ?c = (rc, c')" by (cases "path_insert val bs ?c")
    with Cons.IH [of ?c] have m: "map_insert bs val (radix_at ?c) = (rc, radix_at c')" by simp
    have "path_insert val (b # bs) t = (rc, if b then Radix_node l v c' else Radix_node c' v r)"
      using ins Radix_node by (cases b) simp_all
    with m Radix_node show ?thesis
      by (auto simp: map_insert_def fun_eq_iff radix_at_node split: if_splits list.split)
  qed
qed

lemma path_insert_outcome: "fst (path_insert val bs t) \<in> {Radix_OK, Radix_BUSY}"
proof -
  have "fst (path_insert val bs t) = fst (map_insert bs val (radix_at t))"
    by (simp add: path_insert_at)
  then show ?thesis by (simp add: map_insert_def)
qed

lemma path_insert_not_null: "snd (path_insert val bs t) \<noteq> Radix_null"
  by (cases t; cases bs) (auto simp: radix_set_def split: prod.split)

lemma path_insert_depth:
  "length bs \<le> n \<Longrightarrow> radix_depth n t \<Longrightarrow> radix_depth n (snd (path_insert val bs t))"
proof (induction val bs t arbitrary: n rule: path_insert.induct)
  case (1 val bs)
  then show ?case by (simp add: path_chain_depth)
next
  case (2 val l v r)
  then show ?case by (auto simp: radix_set_def)
next
  case (3 val b bs l v r)
  then show ?case by (cases n; cases b) (auto simp: case_prod_beta)
qed

lemma path_delete_outcome:
  "fst (path_delete bs root t) \<noteq> Radix_BUSY"
  "\<not> root \<Longrightarrow> fst (path_delete bs root t) \<noteq> Radix_null_deref"
  "bs \<noteq> [] \<Longrightarrow> fst (path_delete bs root t) \<noteq> Radix_null_deref"
  by (induction bs root t rule: path_delete.induct)
    (auto simp: radix_unset_def case_prod_beta split: if_splits)

lemma path_delete_at:
  assumes "fst (path_delete bs root t) \<noteq> Radix_null_deref"
  shows "radix_at (snd (path_delete bs root t)) = (radix_at t)(bs := None)
    \<and> (radix_at t bs \<noteq> None \<longrightarrow> fst (path_delete bs root t) = Radix_OK)"
  using assms
proof (induction bs root t rule: path_delete.induct)
  case (2 root l v r)
  then show ?case by (auto simp: radix_unset_def fun_eq_iff radix_at_node split: list.split)
next
  case (3 b bs root l v r)
  let ?c = "if b then r else l"
  obtain rc c' where del: "path_delete bs False ?c = (rc, c')" by (cases "path_delete bs False ?c")
  have "rc \<noteq> Radix_null_deref" using path_delete_outcome(2) [of False bs ?c] del by simp
  with 3 del have m: "radix_at c' = (radix_at ?c)(bs := None)" "radix_at ?c bs \<noteq> None \<longrightarrow> rc = Radix_OK"
    by (auto split: if_splits)
  have res: "path_delete (b # bs) root (Radix_node l v r) =
      (rc, if b then radix_prune root r c' l v c' else radix_prune root l c' c' v r)"
    using del by (cases b) simp_all
  show ?case unfolding res using m
    by (auto simp: radix_prune_def fun_eq_iff radix_at_node split: if_splits list.split)
qed (simp add: fun_eq_iff)

lemma path_delete_depth: "radix_depth n t \<Longrightarrow> radix_depth n (snd (path_delete bs root t))"
proof (induction bs root t arbitrary: n rule: path_delete.induct)
  case (2 root l v r)
  then show ?case by (auto simp: radix_unset_def)
next
  case (3 b bs root l v r)
  then show ?case by (cases n; cases b) (auto simp: case_prod_beta radix_prune_def)
qed simp

subsection \<open>The bits that a walk follows\<close>

definition walk_bits :: "(nat \<Rightarrow> bool) \<Rightarrow> (nat \<Rightarrow> bool) \<Rightarrow> nat \<Rightarrow> nat \<Rightarrow> bool list" where
  "walk_bits key msk i n = map key (takeWhile msk [i..<n])"

lemma walk_bits_step:
  "walk_bits key msk i n = (if i < n \<and> msk i then key i # walk_bits key msk (Suc i) n else [])"
  by (cases "i < n") (simp_all add: walk_bits_def upt_conv_Cons)

lemma length_walk_bits: "length (walk_bits key msk i n) \<le> n - i"
  using length_takeWhile_le [of msk "[i..<n]"] by (simp add: walk_bits_def)

lemma walk_bits_full: "walk_bits key (\<lambda>_. True) i n = map key [i..<n]"
  by (simp add: walk_bits_def takeWhile_eq_all_conv [THEN iffD2])

definition bits32 :: "u32 \<Rightarrow> nat \<Rightarrow> bool" where
  "bits32 w i = bit w (31 - i)"

definition bits128 :: "byte list \<Rightarrow> nat \<Rightarrow> bool" where
  "bits128 bs i = bit (bs ! (i div 8)) (7 - i mod 8)"

text \<open>The path of a key under a mask, and the path of a whole key.\<close>

definition path32 :: "u32 \<Rightarrow> u32 \<Rightarrow> bool list" where
  "path32 key msk = walk_bits (bits32 key) (bits32 msk) 0 32"

definition path128 :: "byte list \<Rightarrow> byte list \<Rightarrow> bool list" where
  "path128 key msk = walk_bits (bits128 key) (bits128 msk) 0 128"

lemma and_not_0_iff: "a AND w \<noteq> 0 \<longleftrightarrow> (\<exists>j. bit a j \<and> bit w j)" for a w :: "'a :: len word"
  by (simp add: bit_eq_iff bit_and_iff) (metis bit_imp_le_length not_le)

text \<open>The single bits that the walks test, by their position from the top.\<close>

definition top32 :: "nat \<Rightarrow> u32" where
  "top32 i = drop_bit i 0x80000000"

definition top8 :: "nat \<Rightarrow> byte" where
  "top8 i = drop_bit i 0x80"

lemma bit_top32: "bit (top32 i) j \<longleftrightarrow> i + j = 31"
proof -
  have "top32 i = drop_bit i (push_bit 31 1)" by (simp add: top32_def)
  then show ?thesis by (auto simp only: bit_drop_bit_eq bit_push_bit_iff bit_1_iff comp_apply) simp_all
qed

lemma bit_top8: "bit (top8 i) j \<longleftrightarrow> i + j = 7"
proof -
  have "top8 i = drop_bit i (push_bit 7 1)" by (simp add: top8_def)
  then show ?thesis by (auto simp only: bit_drop_bit_eq bit_push_bit_iff bit_1_iff comp_apply) simp_all
qed

lemma top32_test: "top32 i AND w \<noteq> 0 \<longleftrightarrow> i < 32 \<and> bits32 w i"
proof -
  have "i + j = 31 \<longleftrightarrow> i < 32 \<and> j = 31 - i" for j by auto
  then show ?thesis by (simp add: and_not_0_iff bit_top32 bits32_def)
qed

lemma top8_test: "top8 i AND w \<noteq> 0 \<longleftrightarrow> i < 8 \<and> bit w (7 - i)"
proof -
  have "i + j = 7 \<longleftrightarrow> i < 8 \<and> j = 7 - i" for j by auto
  then show ?thesis by (simp add: and_not_0_iff bit_top8)
qed

lemma top32_step: "drop_bit (Suc 0) (top32 i) = top32 (Suc i)" "drop_bit 1 (top32 i) = top32 (Suc i)"
  by (simp_all only: top32_def drop_bit_drop_bit add_Suc add_0 One_nat_def)

lemma top8_step: "drop_bit (Suc 0) (top8 i) = top8 (Suc i)" "drop_bit 1 (top8 i) = top8 (Suc i)"
  by (simp_all only: top8_def drop_bit_drop_bit add_Suc add_0 One_nat_def)

lemmas walk32_simps = top32_test top32_test [unfolded and.commute [of "top32 _"]] top32_step

lemma radix32_chain_path:
  "radix32_chain key msk val (top32 i) = path_chain val (walk_bits (bits32 key) (bits32 msk) i 32)"
proof (induction "32 - i" arbitrary: i)
  case 0
  then show ?case
    by (subst radix32_chain.simps) (simp add: walk32_simps walk_bits_step)
next
  case (Suc k)
  then have "k = 32 - Suc i" by simp
  from Suc(1) [OF this] show ?case
    by (subst radix32_chain.simps, subst walk_bits_step) (simp add: walk32_simps)
qed

lemma radix32_insert_at_path:
  "radix32_insert_at key msk val (top32 i) t = path_insert val (walk_bits (bits32 key) (bits32 msk) i 32) t"
proof (induction t arbitrary: i)
  case Radix_null
  then show ?case by (simp add: radix32_chain_path)
next
  case (Radix_node l v r)
  show ?case
    by (subst walk_bits_step) (auto simp: walk32_simps Radix_node)
qed

lemma radix32_delete_at_path:
  "radix32_delete_at key msk (top32 i) root t = path_delete (walk_bits (bits32 key) (bits32 msk) i 32) root t"
proof (induction t arbitrary: i root)
  case (Radix_node l v r)
  show ?case
    by (subst walk_bits_step) (auto simp: walk32_simps Radix_node)
qed simp

lemma radix32_find_at_path:
  "i \<le> 32 \<Longrightarrow> radix_depth (32 - i) t \<Longrightarrow> radix32_find_at key (top32 i) val t = path_find (map (bits32 key) [i..<32]) val t"
proof (induction t arbitrary: i val)
  case (Radix_node l v r)
  show ?case
  proof (cases "i < 32")
    case True
    then have "32 - i = Suc (32 - Suc i)" by simp
    with Radix_node.prems have "radix_depth (32 - Suc i) l" "radix_depth (32 - Suc i) r" by simp_all
    with Radix_node.IH True show ?thesis by (simp add: walk32_simps upt_conv_Cons)
  next
    case False
    with Radix_node.prems show ?thesis by (simp add: walk32_simps)
  qed
qed simp

text \<open>The position of a walk over 16 bytes.\<close>

abbreviation at128 :: "nat \<Rightarrow> nat \<times> byte" where
  "at128 i \<equiv> (i div 8, top8 (i mod 8))"

lemma top8_0: "top8 i = 0 \<longleftrightarrow> 8 \<le> i"
  using top8_test [of i "- 1"] by (cases "i < 8") auto

lemma radix128_next_at: "radix128_next (i div 8) (top8 (i mod 8)) = at128 (Suc i)"
proof (cases "i mod 8 = 7")
  case True
  then have "Suc i div 8 = i div 8 + 1" "Suc i mod 8 = 0" by presburger+
  moreover have "top8 0 = 0x80" by (simp add: top8_def)
  ultimately show ?thesis using True top8_0 [of 8] by (simp add: radix128_next_def Let_def top8_step)
next
  case False
  then have "Suc i div 8 = i div 8" "Suc i mod 8 = Suc (i mod 8)" "Suc (i mod 8) < 8" by presburger+
  then show ?thesis by (simp add: radix128_next_def Let_def top8_step top8_0)
qed

lemma radix128_more_at: "i \<le> 128 \<Longrightarrow> radix128_more msk (i div 8) (top8 (i mod 8)) \<longleftrightarrow> i < 128 \<and> bits128 msk i"
proof -
  assume "i \<le> 128"
  then have "i div 8 \<noteq> 16 \<longleftrightarrow> i < 128" by presburger
  then show ?thesis by (simp add: radix128_more_def top8_test bits128_def)
qed

lemma top8_key: "w AND top8 (i mod 8) \<noteq> 0 \<longleftrightarrow> bit w (7 - i mod 8)"
  using top8_test [of "i mod 8" w] by (simp add: and.commute)

lemmas walk128_simps = radix128_next_at radix128_more_at top8_key bits128_def [symmetric]

lemma div8_less_16: "i < 128 \<Longrightarrow> i div 8 < 16" for i :: nat
  by simp

lemma radix128_chain_path:
  "i \<le> 128 \<Longrightarrow> radix128_chain key msk val (i div 8) (top8 (i mod 8)) =
     path_chain val (walk_bits (bits128 key) (bits128 msk) i 128)"
proof (induction "128 - i" arbitrary: i)
  case 0
  then show ?case
    by (subst radix128_chain.simps) (simp add: walk128_simps walk_bits_step)
next
  case (Suc k)
  then have "k = 128 - Suc i" "Suc i \<le> 128" by simp_all
  from Suc(1) [OF this] Suc.prems show ?case
    by (subst radix128_chain.simps, subst walk_bits_step) (auto simp: walk128_simps div8_less_16)
qed

lemma radix128_insert_at_path:
  "i \<le> 128 \<Longrightarrow> radix128_insert_at key msk val (i div 8) (top8 (i mod 8)) t =
     path_insert val (walk_bits (bits128 key) (bits128 msk) i 128) t"
proof (induction t arbitrary: i)
  case Radix_null
  then show ?case by (simp add: radix128_chain_path)
next
  case (Radix_node l v r)
  then show ?case
    by (subst walk_bits_step) (auto simp: walk128_simps)
qed

lemma radix128_delete_at_path:
  "i \<le> 128 \<Longrightarrow> radix128_delete_at key msk (i div 8) (top8 (i mod 8)) root t =
     path_delete (walk_bits (bits128 key) (bits128 msk) i 128) root t"
proof (induction t arbitrary: i root)
  case (Radix_node l v r)
  then show ?case
    by (subst walk_bits_step) (auto simp: walk128_simps)
qed simp

lemma radix128_find_at_path:
  "i \<le> 128 \<Longrightarrow> radix_depth (128 - i) t \<Longrightarrow>
   radix128_find_at key (i div 8) (top8 (i mod 8)) val t = path_find (map (bits128 key) [i..<128]) val t"
proof (induction t arbitrary: i val)
  case (Radix_node l v r)
  show ?case
  proof (cases "i < 128")
    case True
    then have "128 - i = Suc (128 - Suc i)" by simp
    with Radix_node.prems have "radix_depth (128 - Suc i) l" "radix_depth (128 - Suc i) r" by simp_all
    with Radix_node.IH [of "Suc i"] True show ?thesis by (simp add: walk128_simps upt_conv_Cons)
  next
    case False
    with Radix_node.prems show ?thesis by (simp add: walk128_simps)
  qed
qed simp

subsection \<open>The interface of both kinds of trees\<close>

text \<open>
  A kind of keys is its path under a mask, its whole path and the three operations, which walk these paths.
  What a sequence of operations does to the map of values, and what a search returns then, follows from this alone.
\<close>

text \<open>Operations on a tree, and on the map that it stands for.\<close>

datatype 'k radix_op = Radix_insert 'k 'k u64 | Radix_delete 'k 'k

fun radix_run :: "(radix_tree \<Rightarrow> 'k \<Rightarrow> 'k \<Rightarrow> u64 \<Rightarrow> radix_rc \<times> radix_tree) \<Rightarrow>
    (radix_tree \<Rightarrow> 'k \<Rightarrow> 'k \<Rightarrow> radix_rc \<times> radix_tree) \<Rightarrow> 'k radix_op list \<Rightarrow> radix_tree \<Rightarrow> radix_rc list \<times> radix_tree" where
  "radix_run ins del [] t = ([], t)"
| "radix_run ins del (op # ops) t =
     (let (rc, t) = (case op of Radix_insert key msk val \<Rightarrow> ins t key msk val | Radix_delete key msk \<Rightarrow> del t key msk);
          (rcs, t) = radix_run ins del ops t
      in (rc # rcs, t))"

definition map_step :: "('k \<Rightarrow> 'k \<Rightarrow> bool list) \<Rightarrow> 'k radix_op \<Rightarrow> (bool list \<Rightarrow> u64 option) \<Rightarrow> bool list \<Rightarrow> u64 option" where
  "map_step path op m =
     (case op of Radix_insert key msk val \<Rightarrow> snd (map_insert (path key msk) val m)
      | Radix_delete key msk \<Rightarrow> m(path key msk := None))"

definition map_run :: "('k \<Rightarrow> 'k \<Rightarrow> bool list) \<Rightarrow> 'k radix_op list \<Rightarrow> bool list \<Rightarrow> u64 option" where
  "map_run path ops = fold (map_step path) ops (\<lambda>_. None)"

text \<open>The result of an operation on a tree that stands for a map.\<close>

definition map_agrees :: "('k \<Rightarrow> 'k \<Rightarrow> bool list) \<Rightarrow> 'k radix_op \<Rightarrow> radix_rc \<Rightarrow> (bool list \<Rightarrow> u64 option) \<Rightarrow> bool" where
  "map_agrees path op rc m =
     (case op of Radix_insert key msk val \<Rightarrow> rc = fst (map_insert (path key msk) val m)
      | Radix_delete key msk \<Rightarrow> rc \<in> {Radix_OK, Radix_ERROR} \<and> (m (path key msk) \<noteq> None \<longrightarrow> rc = Radix_OK))"

fun map_run_agrees :: "('k \<Rightarrow> 'k \<Rightarrow> bool list) \<Rightarrow> 'k radix_op list \<Rightarrow> radix_rc list \<Rightarrow> (bool list \<Rightarrow> u64 option) \<Rightarrow> bool" where
  "map_run_agrees path [] rcs m = (rcs = [])"
| "map_run_agrees path (op # ops) rcs m =
     (case rcs of [] \<Rightarrow> False
      | rc # rcs \<Rightarrow> map_agrees path op rc m \<and> map_run_agrees path ops rcs (map_step path op m))"

locale radix_walk =
  fixes depth :: nat
    and path :: "'k \<Rightarrow> 'k \<Rightarrow> bool list"
    and full :: "'k \<Rightarrow> bool list"
    and ins :: "radix_tree \<Rightarrow> 'k \<Rightarrow> 'k \<Rightarrow> u64 \<Rightarrow> radix_rc \<times> radix_tree"
    and del :: "radix_tree \<Rightarrow> 'k \<Rightarrow> 'k \<Rightarrow> radix_rc \<times> radix_tree"
    and find :: "radix_tree \<Rightarrow> 'k \<Rightarrow> u64"
  assumes ins_path: "ins t key msk val = path_insert val (path key msk) t"
    and del_path: "del t key msk = path_delete (path key msk) True t"
    and find_path: "radix_depth depth t \<Longrightarrow> find t key = path_find (full key) NGX_RADIX_NO_VALUE t"
    and length_path: "length (path key msk) \<le> depth"
    and length_full: "length (full key) = depth"

begin

lemma run_cases:
  assumes "radix_depth depth t"
    and "(case op of Radix_insert key msk val \<Rightarrow> ins t key msk val | Radix_delete key msk \<Rightarrow> del t key msk) = (rc, t')"
  shows "radix_depth depth t'"
    and "rc \<noteq> Radix_null_deref \<Longrightarrow> radix_at t' = map_step path op (radix_at t)"
    and "rc \<noteq> Radix_null_deref \<Longrightarrow> map_agrees path op rc (radix_at t)"
    and "rc = Radix_null_deref \<Longrightarrow> \<exists>key msk. op = Radix_delete key msk \<and> path key msk = []"
proof -
  obtain bs where op: "(\<exists>val. (rc, t') = path_insert val bs t \<and> (\<exists>key msk. op = Radix_insert key msk val \<and> bs = path key msk))
      \<or> ((rc, t') = path_delete bs True t \<and> (\<exists>key msk. op = Radix_delete key msk \<and> bs = path key msk))"
    and len: "length bs \<le> depth"
    using assms(2) length_path by (cases op) (auto simp: ins_path del_path)
  show "radix_depth depth t'"
    using op path_insert_depth [OF len assms(1)] path_delete_depth [OF assms(1)] by (metis snd_conv)
  show "rc \<noteq> Radix_null_deref \<Longrightarrow> radix_at t' = map_step path op (radix_at t)"
    using op path_delete_at path_insert_at unfolding map_step_def
    by (smt (verit, best) fst_conv snd_conv radix_op.simps(5,6))
  show "rc \<noteq> Radix_null_deref \<Longrightarrow> map_agrees path op rc (radix_at t)"
    using op path_delete_at [of bs True t] path_insert_at [of bs _ t] path_delete_outcome(1) [of bs True t]
    by (auto simp: map_agrees_def dest!: arg_cong [where f = fst] intro: radix_rc.exhaust [of rc])
  show "rc = Radix_null_deref \<Longrightarrow> \<exists>key msk. op = Radix_delete key msk \<and> path key msk = []"
    using op path_insert_outcome [of _ bs t] path_delete_outcome(3) [of bs True t]
    by (metis empty_iff fst_conv insert_iff radix_rc.distinct(5,9))
qed

lemma run_correct:
  assumes "radix_depth depth t" "radix_run ins del ops t = (rcs, t')" "Radix_null_deref \<notin> set rcs"
  shows "radix_depth depth t' \<and> radix_at t' = fold (map_step path) ops (radix_at t)
    \<and> map_run_agrees path ops rcs (radix_at t)"
  using assms
proof (induction ops arbitrary: t rcs)
  case (Cons op ops)
  obtain rc t1 where step: "(case op of Radix_insert key msk val \<Rightarrow> ins t key msk val
      | Radix_delete key msk \<Rightarrow> del t key msk) = (rc, t1)" by fastforce
  obtain rcs' where rcs: "rcs = rc # rcs'" and run: "radix_run ins del ops t1 = (rcs', t')"
    using Cons.prems(2) step by (auto split: prod.splits)
  with Cons.prems(3) have "rc \<noteq> Radix_null_deref" "Radix_null_deref \<notin> set rcs'" by auto
  with run_cases [OF Cons.prems(1) step] Cons.IH [OF _ run] rcs show ?case by simp
qed simp

lemma run_null_deref:
  assumes "radix_depth depth t" "radix_run ins del ops t = (rcs, t')" "Radix_null_deref \<in> set rcs"
  shows "\<exists>key msk. Radix_delete key msk \<in> set ops \<and> path key msk = []"
  using assms
proof (induction ops arbitrary: t rcs)
  case (Cons op ops)
  obtain rc t1 where step: "(case op of Radix_insert key msk val \<Rightarrow> ins t key msk val
      | Radix_delete key msk \<Rightarrow> del t key msk) = (rc, t1)" by fastforce
  obtain rcs' where rcs: "rcs = rc # rcs'" and run: "radix_run ins del ops t1 = (rcs', t')"
    using Cons.prems(2) step by (auto split: prod.splits)
  with Cons.prems(3) have "rc = Radix_null_deref \<or> Radix_null_deref \<in> set rcs'" by auto
  then show ?case
  proof
    assume "rc = Radix_null_deref"
    with run_cases(4) [OF Cons.prems(1) step] show ?thesis by auto
  next
    assume "Radix_null_deref \<in> set rcs'"
    from Cons.IH [OF run_cases(1) [OF Cons.prems(1) step] run this] show ?thesis by auto
  qed
qed simp

lemma find_longest:
  "radix_depth depth t \<Longrightarrow> longest_match (radix_at t) (full key) NGX_RADIX_NO_VALUE (find t key)"
  using path_find_longest [of "full key" t] by (simp add: find_path length_full)

end

lemma top32_0: "0x80000000 = top32 0"
  by (simp add: top32_def)

lemma top8_0_128: "0 = (0 :: nat) div 8" "0x80 = top8 (0 mod 8)"
  by (simp_all add: top8_def)

lemma radix32tree_path:
  "ngx_radix32tree_insert t key msk val = path_insert val (path32 key msk) t"
  "ngx_radix32tree_delete t key msk = path_delete (path32 key msk) True t"
  by (simp_all only: ngx_radix32tree_insert_def ngx_radix32tree_delete_def path32_def top32_0
      radix32_insert_at_path radix32_delete_at_path)

lemma radix32tree_find_path:
  "radix_depth 32 t \<Longrightarrow> ngx_radix32tree_find t key = path_find (map (bits32 key) [0..<32]) NGX_RADIX_NO_VALUE t"
  unfolding ngx_radix32tree_find_def top32_0 by (simp add: radix32_find_at_path)

lemma radix128tree_path:
  "ngx_radix128tree_insert t key msk val = path_insert val (path128 key msk) t"
  "ngx_radix128tree_delete t key msk = path_delete (path128 key msk) True t"
  using radix128_insert_at_path [of 0] radix128_delete_at_path [of 0]
  by (simp_all add: ngx_radix128tree_insert_def ngx_radix128tree_delete_def path128_def top8_def)

lemma radix128tree_find_path:
  "radix_depth 128 t \<Longrightarrow> ngx_radix128tree_find t key = path_find (map (bits128 key) [0..<128]) NGX_RADIX_NO_VALUE t"
  using radix128_find_at_path [of 0 t key] by (simp add: ngx_radix128tree_find_def top8_def)

interpretation walk32: radix_walk 32 path32 "\<lambda>key. map (bits32 key) [0..<32]"
  ngx_radix32tree_insert ngx_radix32tree_delete ngx_radix32tree_find
  using length_walk_bits [of _ _ 0 32]
  by unfold_locales (simp_all add: radix32tree_path radix32tree_find_path path32_def)

interpretation walk128: radix_walk 128 path128 "\<lambda>key. map (bits128 key) [0..<128]"
  ngx_radix128tree_insert ngx_radix128tree_delete ngx_radix128tree_find
  using length_walk_bits [of _ _ 0 128]
  by unfold_locales (simp_all add: radix128tree_path radix128tree_find_path path128_def)

subsection \<open>Creation\<close>

text \<open>
  The nodes that are made in advance: for each length of the prefixes, a loop over the keys until the sum wraps to
  zero. A loop that does not end is \<open>None\<close>; a \<^verbatim>\<open>NULL\<close> that is returned is \<open>Some None\<close>.
\<close>

partial_function (option) radix_preallocate_keys ::
    "u32 \<Rightarrow> u32 \<Rightarrow> u32 \<Rightarrow> radix_tree \<Rightarrow> radix_tree option option" where
  "radix_preallocate_keys msk inc key tree =
     (case ngx_radix32tree_insert tree key msk NGX_RADIX_NO_VALUE of (rc, tree) \<Rightarrow>
        if rc \<noteq> Radix_OK then Some None
        else if key + inc = 0 then Some (Some tree)
        else radix_preallocate_keys msk inc (key + inc) tree)"

fun radix_preallocate :: "nat \<Rightarrow> u32 \<Rightarrow> u32 \<Rightarrow> radix_tree \<Rightarrow> radix_tree option option" where
  "radix_preallocate 0 msk inc tree = Some (Some tree)"
| "radix_preallocate (Suc n) msk inc tree =
     (let msk = drop_bit 1 msk OR 0x80000000
      in case radix_preallocate_keys msk inc 0 tree of
           Some (Some tree) \<Rightarrow> radix_preallocate n msk (drop_bit 1 inc) tree
         | res \<Rightarrow> res)"

definition sizeof_ngx_radix_node :: nat where "sizeof_ngx_radix_node = 32"

text \<open>\<open>None\<close> is the argument \<open>-1\<close>, which takes the number of levels from the page size.\<close>

definition radix_levels :: "nat \<Rightarrow> nat option \<Rightarrow> nat" where
  "radix_levels ngx_pagesize preallocate =
     (case preallocate of
        Some n \<Rightarrow> n
      | None \<Rightarrow>
          (if ngx_pagesize div sizeof_ngx_radix_node = 128 then 6
           else if ngx_pagesize div sizeof_ngx_radix_node = 256 then 7
           else 8))"

definition ngx_radix_tree_create :: "nat \<Rightarrow> nat option \<Rightarrow> radix_tree option option" where
  "ngx_radix_tree_create ngx_pagesize preallocate =
     radix_preallocate (radix_levels ngx_pagesize preallocate) 0 0x80000000 radix_root"

text \<open>A tree without values: its insertions of no value succeed and leave it so.\<close>

definition radix_blank :: "radix_tree \<Rightarrow> bool" where
  "radix_blank t \<longleftrightarrow> radix_depth 32 t \<and> radix_at t = (\<lambda>_. None)"

lemma radix_blank_insert:
  assumes "radix_blank t"
  obtains t' where "ngx_radix32tree_insert t key msk NGX_RADIX_NO_VALUE = (Radix_OK, t')" "radix_blank t'"
proof -
  obtain rc t' where ins: "ngx_radix32tree_insert t key msk NGX_RADIX_NO_VALUE = (rc, t')" by force
  moreover from this have "rc = Radix_OK \<and> radix_at t' = (\<lambda>_. None)"
    using path_insert_at [of "path32 key msk" NGX_RADIX_NO_VALUE t] assms
    by (auto simp: radix32tree_path map_insert_def radix_blank_def)
  moreover have "radix_depth 32 t'"
    using path_insert_depth [OF walk32.length_path [of key msk], of t NGX_RADIX_NO_VALUE] assms ins
    by (simp add: radix32tree_path radix_blank_def)
  ultimately show thesis using that by (simp add: radix_blank_def)
qed

lemma radix_preallocate_keys_returns:
  assumes "unat inc * Suc k + unat key = 2 ^ 32" "0 < unat inc" "radix_blank t"
  shows "\<exists>t'. radix_preallocate_keys msk inc key t = Some (Some t') \<and> radix_blank t'"
  using assms
proof (induction k arbitrary: key t)
  case 0
  from \<open>radix_blank t\<close> obtain t' where ins: "ngx_radix32tree_insert t key msk NGX_RADIX_NO_VALUE = (Radix_OK, t')"
    "radix_blank t'" by (rule radix_blank_insert)
  have "unat (key + inc) = (unat inc + unat key) mod 2 ^ 32" by (simp only: unat_word_ariths add.commute) simp
  then have "key + inc = 0" using 0 by (simp add: unat_eq_0)
  with ins show ?case by (subst radix_preallocate_keys.simps) simp
next
  case (Suc k)
  from \<open>radix_blank t\<close> obtain t' where ins: "ngx_radix32tree_insert t key msk NGX_RADIX_NO_VALUE = (Radix_OK, t')"
    "radix_blank t'" by (rule radix_blank_insert)
  have sum: "unat (key + inc) = unat key + unat inc"
    using Suc.prems(1,2) by (simp add: unat_word_ariths)
  moreover have "key + inc \<noteq> 0" using sum Suc.prems(2) by (metis add_is_0 unat_0 less_irrefl)
  moreover have "\<exists>t''. radix_preallocate_keys msk inc (key + inc) t' = Some (Some t'') \<and> radix_blank t''"
    using Suc.IH [OF _ Suc.prems(2) ins(2)] Suc.prems(1) sum by simp
  ultimately show ?case using ins by (subst radix_preallocate_keys.simps) simp
qed

lemma unat_top32: "i < 32 \<Longrightarrow> unat (top32 i) = 2 ^ (31 - i)"
proof -
  assume "i < 32"
  then have "top32 i = of_nat (2 ^ (31 - i))"
    by (intro bit_word_eqI) (auto simp: bit_top32 bit_exp_iff)
  moreover have "(2 :: nat) ^ (31 - i) < 2 ^ 32" by (rule power_strict_increasing) simp_all
  ultimately show ?thesis by (simp add: unsigned_of_nat take_bit_nat_eq_self del: of_nat_power)
qed

lemma radix_preallocate_returns:
  "i + n \<le> 32 \<Longrightarrow> radix_blank t \<Longrightarrow> \<exists>t'. radix_preallocate n msk (top32 i) t = Some (Some t') \<and> radix_blank t'"
proof (induction n arbitrary: i msk t)
  case (Suc n)
  have top: "unat (top32 i) * 2 ^ Suc i = 2 ^ 32" "0 < unat (top32 i)"
    using unat_top32 [of i] Suc.prems(1) by (simp_all flip: power_add power_Suc)
  obtain k where "2 ^ Suc i = Suc k" by (metis not0_implies_Suc power_not_zero zero_neq_numeral)
  with top have "unat (top32 i) * Suc k + unat (0 :: u32) = 2 ^ 32" by (metis add_0_right unat_0)
  then obtain t' where "radix_preallocate_keys (drop_bit 1 msk OR 0x80000000) (top32 i) 0 t = Some (Some t')" "radix_blank t'"
    using radix_preallocate_keys_returns [OF _ top(2) Suc.prems(2)] by blast
  with Suc.IH [of "Suc i" t'] Suc.prems show ?case by (simp add: Let_def top32_step)
qed simp

lemma radix_root_blank: "radix_blank radix_root"
  by (simp add: radix_blank_def radix_root_def fun_eq_iff radix_at_node split: list.split)

lemma radix_create_returns:
  assumes "radix_levels ngx_pagesize preallocate \<le> 32"
  obtains t where "ngx_radix_tree_create ngx_pagesize preallocate = Some (Some t)" "radix_blank t"
  using radix_preallocate_returns [of 0 _ radix_root 0, OF _ radix_root_blank] assms
  by (auto simp: ngx_radix_tree_create_def top32_def)

lemma radix_depth_mono: "radix_depth n t \<Longrightarrow> n \<le> k \<Longrightarrow> radix_depth k t"
  by (induction n t arbitrary: k rule: radix_depth.induct) (auto split: nat.splits)

context radix_walk
begin

text \<open>What holds of all the runs that start from an empty tree.\<close>

lemma run_blank:
  assumes "radix_blank t" "32 \<le> depth" "radix_run ins del ops t = (rcs, t')"
  shows "Radix_null_deref \<in> set rcs \<Longrightarrow> \<exists>key msk. Radix_delete key msk \<in> set ops \<and> path key msk = []"
    and "Radix_null_deref \<notin> set rcs \<Longrightarrow> map_run_agrees path ops rcs (\<lambda>_. None)
      \<and> longest_match (map_run path ops) (full key) NGX_RADIX_NO_VALUE (find t' key)"
proof -
  have t: "radix_depth depth t" "radix_at t = (\<lambda>_. None)"
    using assms(1,2) radix_depth_mono by (auto simp: radix_blank_def)
  show "Radix_null_deref \<in> set rcs \<Longrightarrow> \<exists>key msk. Radix_delete key msk \<in> set ops \<and> path key msk = []"
    using run_null_deref [OF t(1) assms(3)] .
  show "Radix_null_deref \<notin> set rcs \<Longrightarrow> map_run_agrees path ops rcs (\<lambda>_. None)
      \<and> longest_match (map_run path ops) (full key) NGX_RADIX_NO_VALUE (find t' key)"
    using run_correct [OF t(1) assms(3)] find_longest [of t' key] t(2) by (simp add: map_run_def)
qed

end

lemma radix_levels_32: "(\<And>n. preallocate = Some n \<Longrightarrow> n \<le> 32) \<Longrightarrow> radix_levels ngx_pagesize preallocate \<le> 32"
  by (simp add: radix_levels_def split: option.split)

subsection \<open>Properties\<close>

text \<open>
  C32. The creation of a tree returns for any number of levels in advance that a key has bits for, and for the
  number that is taken from the page size; no key has a value then.
\<close>

theorem radix_tree_create_returns:
  assumes "\<And>n. preallocate = Some n \<Longrightarrow> n \<le> 32"
  shows "\<exists>t. ngx_radix_tree_create ngx_pagesize preallocate = Some (Some t)
    \<and> (\<forall>key. ngx_radix32tree_find t key = NGX_RADIX_NO_VALUE)"
proof -
  obtain t where t: "ngx_radix_tree_create ngx_pagesize preallocate = Some (Some t)" "radix_blank t"
    using radix_create_returns radix_levels_32 [OF assms] by blast
  then have "ngx_radix32tree_find t key = NGX_RADIX_NO_VALUE" for key
    using walk32.find_longest [of t key] by (simp add: radix_blank_def longest_match_def)
  with t(1) show ?thesis by blast
qed

theorem radix_tree_create_returns_witness:
  "\<exists>t. ngx_radix_tree_create 4096 (Some 32) = Some (Some t) \<and> ngx_radix32tree_find t 0x0A010203 = NGX_RADIX_NO_VALUE"
  using radix_tree_create_returns [of "Some 32" 4096] by auto

text \<open>
  C6. After any insertions and deletions of 32-bit ranges in a tree that was created, a search returns the value of
  the longest of the stored prefixes that the key has, an insertion is refused exactly when its prefix has a value,
  and a deletion of a prefix that has one succeeds. The one exception is the removal of the whole range from a tree
  without branches, which follows the null parent of the root.
\<close>

theorem radix32_longest_prefix:
  assumes "\<And>n. preallocate = Some n \<Longrightarrow> n \<le> 32"
    and "ngx_radix_tree_create ngx_pagesize preallocate = Some (Some t)"
    and "radix_run ngx_radix32tree_insert ngx_radix32tree_delete ops t = (rcs, t')"
  shows "if Radix_null_deref \<in> set rcs then \<exists>key msk. Radix_delete key msk \<in> set ops \<and> path32 key msk = []
    else map_run_agrees path32 ops rcs (\<lambda>_. None)
      \<and> longest_match (map_run path32 ops) (map (bits32 key) [0..<32]) NGX_RADIX_NO_VALUE
          (ngx_radix32tree_find t' key)"
proof -
  have "radix_blank t" using radix_create_returns [OF radix_levels_32 [OF assms(1)]] assms(2) by (metis option.inject)
  then show ?thesis using walk32.run_blank [OF _ _ assms(3)] by simp
qed

theorem radix32_longest_prefix_witness:
  "let ops = [Radix_insert 0x0A000000 0xFF000000 7, Radix_insert 0x0A010000 0xFFFF0000 9,
              Radix_insert 0x0A010000 0xFFFF0000 8, Radix_delete 0x0A000000 0xFF000000];
       (rcs, t) = radix_run ngx_radix32tree_insert ngx_radix32tree_delete ops radix_root
   in rcs = [Radix_OK, Radix_OK, Radix_BUSY, Radix_OK]
     \<and> ngx_radix32tree_find t 0x0A010203 = 9 \<and> ngx_radix32tree_find t 0x0A020203 = NGX_RADIX_NO_VALUE
     \<and> longest_match (map_run path32 ops) (map (bits32 0x0A010203) [0..<32]) NGX_RADIX_NO_VALUE 9"
proof -
  let ?ops = "[Radix_insert 0x0A000000 0xFF000000 7, Radix_insert 0x0A010000 0xFFFF0000 9,
              Radix_insert 0x0A010000 0xFFFF0000 8, Radix_delete 0x0A000000 0xFF000000] :: u32 radix_op list"
  let ?run = "radix_run ngx_radix32tree_insert ngx_radix32tree_delete ?ops radix_root"
  have run: "fst ?run = [Radix_OK, Radix_OK, Radix_BUSY, Radix_OK]" by code_simp
  have find: "ngx_radix32tree_find (snd ?run) 0x0A010203 = 9" "ngx_radix32tree_find (snd ?run) 0x0A020203 = NGX_RADIX_NO_VALUE"
    by code_simp+
  have "ngx_radix_tree_create 4096 (Some 0) = Some (Some radix_root)" by (simp add: ngx_radix_tree_create_def radix_levels_def)
  from radix32_longest_prefix [OF _ this prod_eqI [of _ "(_, _)", unfolded prod.sel, OF run refl], of "0x0A010203"]
  have "longest_match (map_run path32 ?ops) (map (bits32 0x0A010203) [0..<32]) NGX_RADIX_NO_VALUE
      (ngx_radix32tree_find (snd ?run) 0x0A010203)"
    by (simp split: if_splits del: upt_rec_numeral radix_run.simps map_run_agrees.simps)
  with run find show ?thesis unfolding Let_def case_prod_beta by simp
qed

text \<open>
  The same of 128-bit ranges: a search returns the value of the longest of the stored prefixes of an address of
  16 bytes, whatever insertions and deletions went before.
\<close>

theorem radix128_longest_prefix:
  assumes "\<And>n. preallocate = Some n \<Longrightarrow> n \<le> 32"
    and "ngx_radix_tree_create ngx_pagesize preallocate = Some (Some t)"
    and "radix_run ngx_radix128tree_insert ngx_radix128tree_delete ops t = (rcs, t')"
  shows "if Radix_null_deref \<in> set rcs then \<exists>key msk. Radix_delete key msk \<in> set ops \<and> path128 key msk = []
    else map_run_agrees path128 ops rcs (\<lambda>_. None)
      \<and> longest_match (map_run path128 ops) (map (bits128 key) [0..<128]) NGX_RADIX_NO_VALUE
          (ngx_radix128tree_find t' key)"
proof -
  have "radix_blank t" using radix_create_returns [OF radix_levels_32 [OF assms(1)]] assms(2) by (metis option.inject)
  then show ?thesis using walk128.run_blank [OF _ _ assms(3)] by simp
qed

theorem radix128_longest_prefix_witness:
  "let key = 0x20 # 0x01 # replicate 14 0; ops = [Radix_insert key (0xFF # 0xF0 # replicate 14 0) 7,
         Radix_insert key (replicate 16 0xFF) 9, Radix_delete key (0xFF # 0xF0 # replicate 14 0)];
       (rcs, t) = radix_run ngx_radix128tree_insert ngx_radix128tree_delete ops radix_root
   in rcs = [Radix_OK, Radix_OK, Radix_OK] \<and> ngx_radix128tree_find t (0x20 # replicate 15 0) = NGX_RADIX_NO_VALUE
     \<and> longest_match (map_run path128 ops) (map (bits128 (0x20 # replicate 15 0)) [0..<128]) NGX_RADIX_NO_VALUE
         NGX_RADIX_NO_VALUE"
proof -
  let ?key = "0x20 # 0x01 # replicate 14 0 :: byte list"
  let ?ops = "[Radix_insert ?key (0xFF # 0xF0 # replicate 14 0) 7,
         Radix_insert ?key (replicate 16 0xFF) 9, Radix_delete ?key (0xFF # 0xF0 # replicate 14 0)]"
  let ?run = "radix_run ngx_radix128tree_insert ngx_radix128tree_delete ?ops radix_root"
  have run: "fst ?run = [Radix_OK, Radix_OK, Radix_OK]" by code_simp
  have find: "ngx_radix128tree_find (snd ?run) (0x20 # replicate 15 0) = NGX_RADIX_NO_VALUE" by code_simp
  have "ngx_radix_tree_create 4096 (Some 0) = Some (Some radix_root)"
    by (simp add: ngx_radix_tree_create_def radix_levels_def)
  from radix128_longest_prefix [OF _ this prod_eqI [of _ "(_, _)", unfolded prod.sel, OF run refl], of "0x20 # replicate 15 0"]
  have "longest_match (map_run path128 ?ops) (map (bits128 (0x20 # replicate 15 0)) [0..<128]) NGX_RADIX_NO_VALUE
      (ngx_radix128tree_find (snd ?run) (0x20 # replicate 15 0))"
    by (simp split: if_splits del: upt_rec_numeral radix_run.simps map_run_agrees.simps)
  with run find show ?thesis unfolding Let_def case_prod_beta by simp
qed

end
