(* ===== verification/Ngx_Sprintf.thy ===== *)
theory Ngx_Sprintf
  imports Ngx_Atoi
begin

section \<open>Formatted output\<close>

text \<open>
  \<^verbatim>\<open>ngx_vslprintf\<close> of \<^verbatim>\<open>src/core/ngx_string.c\<close> with \<^verbatim>\<open>ngx_sprintf_num\<close> and the functions that call it. The bytes
  written are a list, the end of the buffer is its greatest length. An argument is a word that \<^verbatim>\<open>va_arg\<close> cuts to
  the type of the conversion, a counted text, or the memory from a pointer on. A missing or misplaced argument,
  a format that ends inside a conversion (the function then goes on behind its terminating zero) and a
  \<^verbatim>\<open>double\<close> are outcomes of their own; arithmetic on a \<^verbatim>\<open>double\<close> is not modelled.
\<close>

datatype fmt_arg = Arg_word u64 | Arg_text "byte list" | Arg_memory "byte list" | Arg_double

datatype fmt_error = Fmt_argument | Fmt_end | Fmt_double

abbreviation chr_star :: byte where "chr_star \<equiv> 0x2a"
abbreviation chr_D :: byte where "chr_D \<equiv> 0x44"
abbreviation chr_L :: byte where "chr_L \<equiv> 0x4c"
abbreviation chr_M :: byte where "chr_M \<equiv> 0x4d"
abbreviation chr_N :: byte where "chr_N \<equiv> 0x4e"
abbreviation chr_O :: byte where "chr_O \<equiv> 0x4f"
abbreviation chr_P :: byte where "chr_P \<equiv> 0x50"
abbreviation chr_T :: byte where "chr_T \<equiv> 0x54"
abbreviation chr_V :: byte where "chr_V \<equiv> 0x56"
abbreviation chr_X :: byte where "chr_X \<equiv> 0x58"
abbreviation chr_c :: byte where "chr_c \<equiv> 0x63"
abbreviation chr_d :: byte where "chr_d \<equiv> 0x64"
abbreviation chr_i :: byte where "chr_i \<equiv> 0x69"
abbreviation chr_l :: byte where "chr_l \<equiv> 0x6c"
abbreviation chr_m :: byte where "chr_m \<equiv> 0x6d"
abbreviation chr_p :: byte where "chr_p \<equiv> 0x70"
abbreviation chr_r :: byte where "chr_r \<equiv> 0x72"
abbreviation chr_s :: byte where "chr_s \<equiv> 0x73"
abbreviation chr_u :: byte where "chr_u \<equiv> 0x75"
abbreviation chr_v :: byte where "chr_v \<equiv> 0x76"
abbreviation chr_x :: byte where "chr_x \<equiv> 0x78"

definition NGX_INT64_LEN :: nat where "NGX_INT64_LEN = 20"

subsection \<open>Numbers\<close>

text \<open>The digits, written from the last one back.\<close>

fun sprintf_dec :: "nat \<Rightarrow> byte list \<Rightarrow> byte list" where
  "sprintf_dec n p =
     (let p = word_of_nat (n mod 10 + 48) # p in if n div 10 = 0 then p else sprintf_dec (n div 10) p)"

declare sprintf_dec.simps [simp del]

function sprintf_hex :: "byte list \<Rightarrow> u64 \<Rightarrow> byte list \<Rightarrow> byte list" where
  "sprintf_hex hex ui64 p =
     (let p = hex ! unat (ui64 AND 0xf) # p; ui64 = drop_bit 4 ui64
      in if ui64 = 0 then p else sprintf_hex hex ui64 p)"
  by pat_completeness auto

termination
proof (relation "measure (\<lambda>(hex, ui64, p). unat ui64)", simp, clarsimp simp: unat_drop_bit)
  fix w :: u64
  assume "drop_bit 4 w \<noteq> 0"
  then have "w \<noteq> 0" by auto
  then show "unat w div 16 < unat w" by (simp add: unat_gt_0)
qed

declare sprintf_hex.simps [simp del]

definition hex_lower :: "byte list" where "hex_lower = bytes_of ''0123456789abcdef''"
definition hex_upper :: "byte list" where "hex_upper = bytes_of ''0123456789ABCDEF''"

definition sprintf_digits :: "u64 \<Rightarrow> nat \<Rightarrow> byte list" where
  "sprintf_digits ui64 hexadecimal =
     (if hexadecimal = 0 then
        if ui64 \<le> 0xffffffff then sprintf_dec (unat (ucast ui64 :: u32)) [] else sprintf_dec (unat ui64) []
      else if hexadecimal = 1 then sprintf_hex hex_lower ui64 []
      else sprintf_hex hex_upper ui64 [])"

text \<open>\<open>room\<close> is \<^verbatim>\<open>last - buf\<close>.\<close>

definition ngx_sprintf_num :: "nat \<Rightarrow> u64 \<Rightarrow> byte \<Rightarrow> nat \<Rightarrow> u64 \<Rightarrow> byte list" where
  "ngx_sprintf_num room ui64 zero hexadecimal width =
     (let p = sprintf_digits ui64 hexadecimal;
          pad = replicate (min room (unat width - length p)) zero;
          room = room - length pad
      in pad @ (if room < length p then take room p else p))"

subsection \<open>Conversions\<close>

record fmt_spec =
  fs_zero :: byte
  fs_width :: u64
  fs_sign :: bool
  fs_hex :: nat
  fs_max_width :: bool
  fs_frac_width :: u64
  fs_slen :: u64

fun fmt_number :: "u64 \<Rightarrow> byte list \<Rightarrow> u64 \<times> byte list" where
  "fmt_number w [] = (w, [])"
| "fmt_number w (c # fmt) =
     (if chr_0 \<le> c \<and> c \<le> chr_9 then fmt_number (w * 10 + (ucast c - 48)) fmt else (w, c # fmt))"

fun fmt_flags :: "fmt_spec \<Rightarrow> byte list \<Rightarrow> fmt_arg list \<Rightarrow> fmt_error + fmt_spec \<times> byte list \<times> fmt_arg list" where
  "fmt_flags s [] args = Inr (s, [], args)"
| "fmt_flags s (c # fmt) args =
     (if c = chr_u then fmt_flags (s\<lparr>fs_sign := False\<rparr>) fmt args
      else if c = chr_m then fmt_flags (s\<lparr>fs_max_width := True\<rparr>) fmt args
      else if c = chr_X then fmt_flags (s\<lparr>fs_hex := 2, fs_sign := False\<rparr>) fmt args
      else if c = chr_x then fmt_flags (s\<lparr>fs_hex := 1, fs_sign := False\<rparr>) fmt args
      else if c = chr_dot then
        (case fmt_number (fs_frac_width s) fmt of (w, fmt) \<Rightarrow> Inr (s\<lparr>fs_frac_width := w\<rparr>, fmt, args))
      else if c = chr_star then
        (case args of Arg_word w # args \<Rightarrow> fmt_flags (s\<lparr>fs_slen := w\<rparr>) fmt args | _ \<Rightarrow> Inl Fmt_argument)
      else Inr (s, c # fmt, args))"

text \<open>What a conversion writes: a text that is cut at the end of the buffer, one byte, or a number.\<close>

datatype fmt_piece =
    Piece_text "byte list"
  | Piece_byte byte
  | Piece_signed u64 fmt_spec
  | Piece_unsigned u64 fmt_spec

definition sign_extend_32 :: "u64 \<Rightarrow> u64" where "sign_extend_32 w = scast (ucast w :: u32)"
definition zero_extend_32 :: "u64 \<Rightarrow> u64" where "zero_extend_32 w = ucast (ucast w :: u32)"

definition fmt_integer :: "fmt_spec \<Rightarrow> u64 \<Rightarrow> fmt_piece" where
  "fmt_integer s w = (if fs_sign s then Piece_signed w s else Piece_unsigned w s)"

definition fmt_convert_word :: "fmt_spec \<Rightarrow> byte \<Rightarrow> u64 \<Rightarrow> fmt_piece" where
  "fmt_convert_word s c w =
     (if c = chr_O \<or> c = chr_T \<or> c = chr_r then Piece_signed w (s\<lparr>fs_sign := True\<rparr>)
      else if c = chr_P then Piece_signed (sign_extend_32 w) (s\<lparr>fs_sign := True\<rparr>)
      else if c = chr_M then
        (if w = - 1 then Piece_signed (- 1) (s\<lparr>fs_sign := True\<rparr>) else Piece_unsigned w (s\<lparr>fs_sign := False\<rparr>))
      else if c = chr_i \<or> c = chr_A then
        fmt_integer (if fs_max_width s then s\<lparr>fs_width := 20\<rparr> else s) w
      else if c = chr_d \<or> c = chr_D then
        fmt_integer s (if fs_sign s then sign_extend_32 w else zero_extend_32 w)
      else if c = chr_p then
        Piece_unsigned w (s\<lparr>fs_hex := 2, fs_sign := False, fs_zero := chr_0, fs_width := 16\<rparr>)
      else if c = chr_c then Piece_byte (ucast w)
      else fmt_integer s w)"

definition fmt_convert :: "fmt_spec \<Rightarrow> byte \<Rightarrow> fmt_arg list \<Rightarrow> fmt_error + fmt_piece \<times> fmt_arg list" where
  "fmt_convert s c args =
     (if c = chr_V \<or> c = chr_v then
        (case args of Arg_text bs # args \<Rightarrow> Inr (Piece_text bs, args) | _ \<Rightarrow> Inl Fmt_argument)
      else if c = chr_s then
        (case args of
           Arg_memory m # args \<Rightarrow>
             Inr (Piece_text (if fs_slen s = - 1 then takeWhile (\<lambda>b. b \<noteq> 0) m else take (unat (fs_slen s)) m), args)
         | _ \<Rightarrow> Inl Fmt_argument)
      else if c \<in> {chr_O, chr_P, chr_T, chr_M, 0x7a, chr_i, chr_d, chr_l, chr_D, chr_L, chr_A, chr_r, chr_p, chr_c} then
        (case args of Arg_word w # args \<Rightarrow> Inr (fmt_convert_word s c w, args) | _ \<Rightarrow> Inl Fmt_argument)
      else if c = chr_f then Inl Fmt_double
      else if c = chr_Z then Inr (Piece_byte 0, args)
      else if c = chr_N then Inr (Piece_byte chr_lf, args)
      else Inr (Piece_byte c, args))"

definition fmt_write :: "nat \<Rightarrow> fmt_piece \<Rightarrow> byte list" where
  "fmt_write room piece =
     (case piece of
        Piece_text bs \<Rightarrow> take room bs
      | Piece_byte b \<Rightarrow> [b]
      | Piece_unsigned w s \<Rightarrow> ngx_sprintf_num room w (fs_zero s) (fs_hex s) (fs_width s)
      | Piece_signed w s \<Rightarrow>
          (if sint w < 0 then chr_minus # ngx_sprintf_num (room - 1) (- w) (fs_zero s) (fs_hex s) (fs_width s)
           else ngx_sprintf_num room w (fs_zero s) (fs_hex s) (fs_width s)))"

text \<open>A conversion, from the byte after the percent sign on.\<close>

definition fmt_directive ::
    "nat \<Rightarrow> byte list \<Rightarrow> fmt_arg list \<Rightarrow> fmt_error + byte list \<times> byte list \<times> fmt_arg list" where
  "fmt_directive room fmt args =
     (let zero = (case fmt of c # _ \<Rightarrow> if c = chr_0 then chr_0 else chr_space | [] \<Rightarrow> chr_space);
          (width, fmt) = fmt_number 0 fmt
      in case fmt_flags \<lparr>fs_zero = zero, fs_width = width, fs_sign = True, fs_hex = 0, fs_max_width = False,
                         fs_frac_width = 0, fs_slen = - 1\<rparr> fmt args of
           Inl e \<Rightarrow> Inl e
         | Inr (s, [], args) \<Rightarrow> Inl Fmt_end
         | Inr (s, c # fmt, args) \<Rightarrow>
             (case fmt_convert s c args of
                Inl e \<Rightarrow> Inl e
              | Inr (piece, args) \<Rightarrow> Inr (fmt_write room piece, fmt, args)))"

lemma fmt_number_length: "fmt_number w fmt = (w', fmt') \<Longrightarrow> length fmt' \<le> length fmt"
  by (induction w fmt rule: fmt_number.induct) (auto split: if_splits)

lemma fmt_flags_length: "fmt_flags s fmt args = Inr (s', fmt', args') \<Longrightarrow> length fmt' \<le> length fmt"
  by (induction s fmt args rule: fmt_flags.induct)
    (auto split: if_splits list.splits fmt_arg.splits prod.splits dest: fmt_number_length)

lemma fmt_directive_length:
  assumes "fmt_directive room fmt args = Inr (bs, fmt', args')"
  shows "length fmt' < length fmt"
proof -
  obtain w fmt1 where num: "fmt_number 0 fmt = (w, fmt1)" by fastforce
  with assms obtain s s' c args1 where "fmt_flags s fmt1 args = Inr (s', c # fmt', args1)"
    by (auto simp: fmt_directive_def Let_def split: sum.splits list.splits prod.splits)
  from fmt_flags_length [OF this] fmt_number_length [OF num] show ?thesis by simp
qed

function vslprintf_loop :: "nat \<Rightarrow> byte list \<Rightarrow> byte list \<Rightarrow> fmt_arg list \<Rightarrow> fmt_error + byte list" where
  "vslprintf_loop limit buf [] args = Inr buf"
| "vslprintf_loop limit buf (c # fmt) args =
     (if limit \<le> length buf then Inr buf
      else if c = chr_percent then
        (case fmt_directive (limit - length buf) fmt args of
           Inl e \<Rightarrow> Inl e
         | Inr (bs, fmt, args) \<Rightarrow> vslprintf_loop limit (buf @ bs) fmt args)
      else vslprintf_loop limit (buf @ [c]) fmt args)"
  by pat_completeness auto

termination
  by (relation "measure (\<lambda>(limit, buf, fmt, args). length fmt)") (auto dest: fmt_directive_length)

text \<open>\<open>limit\<close> is \<^verbatim>\<open>last - buf\<close>; \<^verbatim>\<open>ngx_sprintf\<close> takes the end of the address space for \<^verbatim>\<open>last\<close>.\<close>

definition ngx_vslprintf :: "nat \<Rightarrow> byte list \<Rightarrow> fmt_arg list \<Rightarrow> fmt_error + byte list" where
  "ngx_vslprintf limit fmt args = vslprintf_loop limit [] fmt args"

definition ngx_sprintf :: "u64 \<Rightarrow> byte list \<Rightarrow> fmt_arg list \<Rightarrow> fmt_error + byte list" where
  "ngx_sprintf buf fmt args = ngx_vslprintf (unat (- 1 - buf)) fmt args"

definition ngx_snprintf :: "nat \<Rightarrow> byte list \<Rightarrow> fmt_arg list \<Rightarrow> fmt_error + byte list" where
  "ngx_snprintf maximum fmt args = ngx_vslprintf maximum fmt args"

definition ngx_slprintf :: "nat \<Rightarrow> byte list \<Rightarrow> fmt_arg list \<Rightarrow> fmt_error + byte list" where
  "ngx_slprintf limit fmt args = ngx_vslprintf limit fmt args"

subsection \<open>Bounds\<close>

lemma length_sprintf_num: "length (ngx_sprintf_num room w zero hex width) \<le> room"
  by (auto simp: ngx_sprintf_num_def Let_def)

lemma length_fmt_write: "0 < room \<Longrightarrow> length (fmt_write room piece) \<le> room"
proof -
  assume "0 < room"
  then have "length (ngx_sprintf_num (room - 1) w zero hex width) < room" for w zero hex width
    using length_sprintf_num [of "room - 1" w zero hex width] by linarith
  with length_sprintf_num [of room] \<open>0 < room\<close> show ?thesis
    by (cases piece) (auto simp: fmt_write_def Suc_le_eq)
qed

lemma fmt_directive_bound:
  assumes "fmt_directive room fmt args = Inr (bs, fmt', args')" "0 < room"
  shows "length bs \<le> room"
proof -
  obtain piece where "bs = fmt_write room piece"
    using assms(1) by (auto simp: fmt_directive_def Let_def split: sum.splits list.splits prod.splits)
  with length_fmt_write [OF assms(2)] show ?thesis by simp
qed

lemma vslprintf_loop_bound:
  "vslprintf_loop limit buf fmt args = Inr out \<Longrightarrow> length buf \<le> limit \<Longrightarrow> length out \<le> limit"
proof (induction limit buf fmt args rule: vslprintf_loop.induct)
  case (2 limit buf c fmt args)
  show ?case
  proof (cases "limit \<le> length buf")
    case True
    with 2 show ?thesis by simp
  next
    case False
    then show ?thesis using 2
      by (auto split: if_splits sum.splits prod.splits dest!: fmt_directive_bound)
  qed
qed simp

text \<open>The digits fit in the array of the function.\<close>

lemma length_sprintf_dec: "n < 10 ^ k \<Longrightarrow> 0 < k \<Longrightarrow> length (sprintf_dec n p) \<le> length p + k"
proof (induction n p arbitrary: k rule: sprintf_dec.induct)
  case (1 n p)
  show ?case
  proof (cases "n div 10 = 0")
    case True
    with 1 show ?thesis by (subst sprintf_dec.simps) (simp add: Let_def)
  next
    case False
    with 1(2) have "k \<noteq> 0" "k \<noteq> 1" by (auto intro!: gr0I)
    with 1(2) obtain k' where k: "k = Suc k'" "0 < k'" "n div 10 < 10 ^ k'"
      by (cases k) (auto simp: less_mult_imp_div_less mult.commute)
    from 1(1) [OF refl False k(3,2)] False k(1) show ?thesis
      by (subst sprintf_dec.simps) (simp add: Let_def)
  qed
qed

lemma length_sprintf_hex: "unat w < 16 ^ k \<Longrightarrow> 0 < k \<Longrightarrow> length (sprintf_hex hex w p) \<le> length p + k"
proof (induction hex w p arbitrary: k rule: sprintf_hex.induct)
  case (1 hex w p)
  show ?case
  proof (cases "drop_bit 4 w = 0")
    case True
    with 1 show ?thesis by (subst sprintf_hex.simps) (simp add: Let_def)
  next
    case False
    have "unat (drop_bit 4 w) = unat w div 16" by (simp add: unat_drop_bit)
    moreover from this False have "unat w div 16 \<noteq> 0" by (metis unat_eq_0)
    moreover from this 1(2) have "k \<noteq> 0" "k \<noteq> 1" by (auto intro!: gr0I)
    ultimately obtain k' where k: "k = Suc k'" "0 < k'" "unat (drop_bit 4 w) < 16 ^ k'"
      using 1(2) by (cases k) (auto simp: less_mult_imp_div_less mult.commute)
    from 1(1) [OF refl refl False k(3,2)] False k(1) show ?thesis
      by (subst sprintf_hex.simps) (simp add: Let_def)
  qed
qed

lemma length_sprintf_digits: "length (sprintf_digits w hexadecimal) \<le> NGX_INT64_LEN"
proof -
  have w: "unat w < 2 ^ 64" using unsigned_less [of w, where ?'a = nat] by simp
  have v: "unat (ucast w :: u32) < 2 ^ 32" using unsigned_less [of "ucast w :: u32", where ?'a = nat] by simp
  show ?thesis
    using length_sprintf_dec [of "unat w" 20 "[]"] length_sprintf_dec [of "unat (ucast w :: u32)" 10 "[]"]
      le_trans [OF length_sprintf_hex [of w 16 _ "[]"], of 20] w v
    by (auto simp: sprintf_digits_def NGX_INT64_LEN_def )
qed

subsection \<open>Truncation\<close>

lemma ngx_sprintf_num_take:
  "ngx_sprintf_num room w zero hex width =
     take room (replicate (unat width - length (sprintf_digits w hex)) zero @ sprintf_digits w hex)"
  by (auto simp: ngx_sprintf_num_def Let_def min_def)

lemma fmt_write_take: "0 < room \<Longrightarrow> room \<le> room' \<Longrightarrow> fmt_write room piece = take room (fmt_write room' piece)"
  by (cases piece) (auto simp: fmt_write_def ngx_sprintf_num_take take_Cons' min_def)

lemma fmt_directive_take:
  assumes "fmt_directive room' fmt args = Inr (bs, fmt', args')" "0 < room" "room \<le> room'"
  shows "fmt_directive room fmt args = Inr (take room bs, fmt', args')"
proof -
  obtain w fmt1 where num: "fmt_number 0 fmt = (w, fmt1)" by fastforce
  with assms(1) obtain s s' c args1 piece where
    "fmt_flags \<lparr>fs_zero = (case fmt of c # _ \<Rightarrow> if c = chr_0 then chr_0 else chr_space | [] \<Rightarrow> chr_space),
        fs_width = w, fs_sign = True, fs_hex = 0, fs_max_width = False, fs_frac_width = 0, fs_slen = - 1\<rparr> fmt1 args
      = Inr (s', c # fmt', args1)"
    "fmt_convert s' c args1 = Inr (piece, args')" "bs = fmt_write room' piece"
    unfolding fmt_directive_def Let_def by (auto simp only: prod.case split: sum.splits list.splits prod.splits)
  with num fmt_write_take [OF assms(2,3), of piece] show ?thesis
    unfolding fmt_directive_def Let_def by simp
qed

lemma vslprintf_loop_extends: "vslprintf_loop limit buf fmt args = Inr out \<Longrightarrow> \<exists>bs. out = buf @ bs"
proof (induction limit buf fmt args rule: vslprintf_loop.induct)
  case (2 limit buf c fmt args)
  have "\<exists>zs. out = buf @ zs" if "\<exists>zs. out = (buf @ bs) @ zs" for bs using that by auto
  with 2 show ?case by (simp split: if_splits sum.splits prod.splits) blast+
qed simp

lemma vslprintf_loop_take:
  "vslprintf_loop limit buf fmt args = Inr out \<Longrightarrow> n \<le> limit \<Longrightarrow>
     vslprintf_loop n (take n buf) fmt args = Inr (take n out)"
proof (induction limit buf fmt args rule: vslprintf_loop.induct)
  case (2 limit buf c fmt args)
  consider (full) "n \<le> length buf" | (room) "length buf < n" by linarith
  then show ?case
  proof cases
    case full
    with vslprintf_loop_extends [OF "2.prems"(1)] show ?thesis by auto
  next
    case room
    with "2.prems"(2) have lim: "length buf < limit" by simp
    show ?thesis
    proof (cases "c = chr_percent")
      case True
      with 2 lim obtain bs fmt' args' where dir: "fmt_directive (limit - length buf) fmt args = Inr (bs, fmt', args')"
        and run: "vslprintf_loop limit (buf @ bs) fmt' args' = Inr out"
        by (auto split: sum.splits prod.splits)
      have "vslprintf_loop n (take n (buf @ bs)) fmt' args' = Inr (take n out)"
        using "2.IH"(1) [OF _ True dir refl refl] lim run "2.prems"(2) by simp
      moreover have "fmt_directive (n - length buf) fmt args = Inr (take (n - length buf) bs, fmt', args')"
        using room "2.prems"(2) by (intro fmt_directive_take [OF dir]) simp_all
      ultimately show ?thesis using True room by simp
    next
      case False
      with 2 lim room show ?thesis by simp
    qed
  qed
qed simp

subsection \<open>The digits\<close>

lemma dec_char: "d < 10 \<Longrightarrow> dec_digit (word_of_nat (d + 48)) \<and> digit_value (word_of_nat (d + 48)) = int d"
proof -
  assume "d < 10"
  then have "unat (word_of_nat (d + 48) :: byte) = d + 48" by (simp add: unsigned_of_nat take_bit_nat_eq_self del: of_nat_add)
  with \<open>d < 10\<close> show ?thesis by (simp add: digit_value_def byte_simps del: of_nat_add)
qed

lemma sprintf_dec_digits:
  "list_all dec_digit (sprintf_dec n p) \<longleftrightarrow> list_all dec_digit p"
  "dec_value (sprintf_dec n p) = digits_value 10 digit_value (int n) p"
  "sprintf_dec n p \<noteq> []"
proof (induction n p rule: sprintf_dec.induct)
  case (1 n p)
  have d: "dec_digit (word_of_nat (n mod 10 + 48))" "digit_value (word_of_nat (n mod 10 + 48)) = int (n mod 10)"
    using dec_char [of "n mod 10"] by simp_all
  have n: "int (n div 10) * 10 + int (n mod 10) = int n"
    by (metis div_mult_mod_eq of_nat_add of_nat_mult of_nat_numeral)
  case 1
  show ?case using "1.IH"(1) d(1) by (cases "n div 10 = 0"; subst sprintf_dec.simps) (simp_all add: Let_def del: of_nat_add)
  case 2
  show ?case using "1.IH"(2) d(2) n
    by (cases "n div 10 = 0"; subst sprintf_dec.simps) (simp_all add: Let_def del: of_nat_add)
  case 3
  show ?case using "1.IH"(3) by (subst sprintf_dec.simps) (simp add: Let_def)
qed

lemma hex_chars:
  assumes "d < 16" "hex \<in> {hex_lower, hex_upper}"
  shows "hex_digit (hex ! d)" "hex_digit_value (hex ! d) = int d"
proof -
  have "list_all (\<lambda>d. hex_digit (hex ! d) \<and> hex_digit_value (hex ! d) = int d) [0..<16]"
    using assms(2) by (elim insertE emptyE; hypsubst_thin) code_simp+
  with assms(1) show "hex_digit (hex ! d)" "hex_digit_value (hex ! d) = int d"
    by (simp_all only: list_all_iff set_upt atLeastLessThan_iff) simp_all
qed

lemma sprintf_hex_digits:
  assumes "hex \<in> {hex_lower, hex_upper}"
  shows "(list_all hex_digit (sprintf_hex hex w p) \<longleftrightarrow> list_all hex_digit p)
    \<and> digits_value 16 hex_digit_value 0 (sprintf_hex hex w p) = digits_value 16 hex_digit_value (int (unat w)) p
    \<and> sprintf_hex hex w p \<noteq> []"
  using assms
proof (induction hex w p rule: sprintf_hex.induct)
  case (1 hex w p)
  let ?d = "hex ! unat (w AND 0xf)"
  have low: "unat (w AND 0xf) = unat w mod 16"
  proof -
    have "w AND 0xf = take_bit 4 w" by (simp add: take_bit_eq_mask mask_eq_exp_minus_1)
    then have "unat (w AND 0xf) = take_bit 4 (unat w)" by (simp only: unsigned_take_bit_eq)
    then show ?thesis by (simp add: take_bit_eq_mod)
  qed
  have d: "hex_digit ?d" "hex_digit_value ?d = int (unat w mod 16)"
    using hex_chars [of "unat w mod 16" hex] 1(2) by (simp_all add: low)
  have "unat (drop_bit 4 w) * 16 + unat w mod 16 = unat w" by (simp add: unat_drop_bit)
  then have w: "int (unat (drop_bit 4 w)) * 16 + int (unat w mod 16) = int (unat w)"
    by (metis of_nat_add of_nat_mult of_nat_numeral)
  show ?case
  proof (cases "drop_bit 4 w = 0")
    case True
    with w have "int (unat w mod 16) = int (unat w)" by simp
    with True d show ?thesis by (subst (1 2 3) sprintf_hex.simps) (simp add: Let_def)
  next
    case False
    with 1(1) [OF refl refl False 1(2)] d w show ?thesis
      by (subst (1 2 3) sprintf_hex.simps) (simp add: Let_def)
  qed
qed

lemma sprintf_digits_value:
  "list_all dec_digit (sprintf_digits w 0) \<and> dec_value (sprintf_digits w 0) = int (unat w) \<and> sprintf_digits w 0 \<noteq> []"
  "list_all hex_digit (sprintf_digits w 1) \<and> digits_value 16 hex_digit_value 0 (sprintf_digits w 1) = int (unat w)
     \<and> sprintf_digits w 1 \<noteq> []"
proof -
  have "unat (ucast w :: u32) = unat w" if "w \<le> 0xffffffff"
  proof -
    have "unat w < 2 ^ 32" using that by (simp add: word_le_nat_alt)
    then show ?thesis by (simp add: unsigned_ucast_eq take_bit_eq_mod)
  qed
  then show "list_all dec_digit (sprintf_digits w 0) \<and> dec_value (sprintf_digits w 0) = int (unat w) \<and> sprintf_digits w 0 \<noteq> []"
    by (simp add: sprintf_digits_def sprintf_dec_digits)
  show "list_all hex_digit (sprintf_digits w 1) \<and> digits_value 16 hex_digit_value 0 (sprintf_digits w 1) = int (unat w)
     \<and> sprintf_digits w 1 \<noteq> []"
    using sprintf_hex_digits [of hex_lower w "[]"] by (simp add: sprintf_digits_def)
qed

text \<open>The rules that evaluate a format.\<close>

lemmas fmt_eval = ngx_vslprintf_def ngx_sprintf_def ngx_snprintf_def fmt_directive_def bytes_of_def fmt_convert_def
  fmt_convert_word_def fmt_integer_def fmt_write_def ngx_sprintf_num_def sprintf_digits_def sprintf_dec.simps
  sprintf_hex.simps hex_lower_def zero_extend_32_def sign_extend_32_def

lemma u64_nonneg: "0 \<le> k \<Longrightarrow> k < 2 ^ 63 \<Longrightarrow> int (unat (word_of_int k :: u64)) = k"
  by (simp add: uint_nat [symmetric] unsigned_of_int take_bit_int_eq_self)

lemma sprintf_digits_19: "int (unat w) < 2 ^ 63 \<Longrightarrow> length (sprintf_digits w 0) \<le> 19"
proof -
  assume "int (unat w) < 2 ^ 63"
  also have "(2 :: int) ^ 63 \<le> int (10 ^ 19)" by simp
  finally have w: "unat w < 10 ^ 19" by (simp only: of_nat_less_iff)
  have "unat (ucast w :: u32) < 2 ^ 32" using unsigned_less [of "ucast w :: u32", where ?'a = nat] by simp
  then have "unat (ucast w :: u32) < 10 ^ 19" by simp
  with w length_sprintf_dec [of _ 19 "[]"] show ?thesis by (simp add: sprintf_digits_def)
qed

subsection \<open>Properties\<close>



text \<open>
  What \<^verbatim>\<open>ngx_snprintf\<close> writes is the beginning of what \<^verbatim>\<open>ngx_sprintf\<close> would write, cut at the size of the buffer.
\<close>

theorem ngx_snprintf_truncates:
  assumes "ngx_sprintf buf fmt args = Inr out" "maximum \<le> unat (- 1 - buf)"
  shows "ngx_snprintf maximum fmt args = Inr (take maximum out)"
  using assms vslprintf_loop_take [of "unat (- 1 - buf)" "[]" fmt args out maximum]
  by (simp add: ngx_sprintf_def ngx_snprintf_def ngx_vslprintf_def)

theorem ngx_snprintf_truncates_witness:
  "ngx_snprintf 4 (bytes_of ''%02d|%xd'') [Arg_word 7, Arg_word 255] = Inr (take 4 (bytes_of ''07|ff''))"
proof -
  have "ngx_sprintf 0x1000 (bytes_of ''%02d|%xd'') [Arg_word 7, Arg_word 255] = Inr (bytes_of ''07|ff'')"
    by (simp add: fmt_eval)
  from ngx_snprintf_truncates [OF this, of 4] show ?thesis by simp
qed



end
