(* ===== verification/Ngx_Gmtime.thy ===== *)
theory Ngx_Gmtime
  imports Prelude
begin

section \<open>The calendar\<close>

text \<open>
  \<^verbatim>\<open>ngx_gmtime\<close> of \<^verbatim>\<open>src/core/ngx_times.c\<close>, which makes a date of a number of seconds by the formula of Gauss, and the
  calendar it is measured against: dates that follow one another day by day. The variables are unsigned, but a
  difference that would wrap is brought back by the next addition, so that integers stand for them.
\<close>

record ngx_tm =
  tm_sec :: int
  tm_min :: int
  tm_hour :: int
  tm_mday :: int
  tm_mon :: int
  tm_year :: int
  tm_wday :: int

text \<open>The day of a year that starts in March, and the date of a number of days.\<close>

definition gm_leap :: "int \<Rightarrow> int" where
  "gm_leap year = (if year mod 4 = 0 \<and> (year mod 100 \<noteq> 0 \<or> year mod 400 = 0) then 1 else 0)"

definition gm_year :: "int \<Rightarrow> int \<times> int" where
  "gm_year days =
     (let year = (days + 2) * 400 div (365 * 400 + 100 - 4 + 1);
          yday = days - (365 * year + year div 4 - year div 100 + year div 400)
      in if yday < 0 then (year - 1, 365 + gm_leap year + yday) else (year, yday))"

definition gm_date :: "int \<Rightarrow> int \<Rightarrow> int \<times> int \<times> int" where
  "gm_date year yday =
     (let mon = (yday + 31) * 10 div 306;
          mday = yday - (367 * mon div 12 - 30) + 1
      in if 306 \<le> yday then (year + 1, mon - 10, mday) else (year, mon + 2, mday))"

definition ngx_gmtime :: "int \<Rightarrow> ngx_tm" where
  "ngx_gmtime t =
     (let t = (if t < 0 then 0 else t);
          days = t div 86400;
          sec = t mod 86400;
          (days, sec) = (if 2932896 < days then (2932896, 86399) else (days, sec));
          wday = (4 + days) mod 7;
          hour = sec div 3600;
          sec = sec mod 3600;
          minute = sec div 60;
          sec = sec mod 60;
          (year, yday) = gm_year (days - (31 + 28) + 719527);
          (year, mon, mday) = gm_date year yday
      in \<lparr>tm_sec = sec, tm_min = minute, tm_hour = hour, tm_mday = mday, tm_mon = mon, tm_year = year,
          tm_wday = wday\<rparr>)"

subsection \<open>Dates\<close>

type_synonym date = "int \<times> int \<times> int"

definition leap_year :: "int \<Rightarrow> bool" where
  "leap_year y \<longleftrightarrow> 4 dvd y \<and> (100 dvd y \<longrightarrow> 400 dvd y)"

definition month_days :: "int \<Rightarrow> int \<Rightarrow> int" where
  "month_days y m = (if m = 2 then if leap_year y then 29 else 28 else if m \<in> {4, 6, 9, 11} then 30 else 31)"

fun date_ok :: "date \<Rightarrow> bool" where
  "date_ok (y, m, d) = (1 \<le> m \<and> m \<le> 12 \<and> 1 \<le> d \<and> d \<le> month_days y m)"

text \<open>The day after.\<close>

fun date_next :: "date \<Rightarrow> date" where
  "date_next (y, m, d) =
     (if d < month_days y m then (y, m, d + 1) else if m < 12 then (y, m + 1, 1) else (y + 1, 1, 1))"

definition date_of_day :: "nat \<Rightarrow> date" where
  "date_of_day n = (date_next ^^ n) (1970, 1, 1)"

text \<open>The number of a date by the formula of Gauss: days since March 1 of the year 0.\<close>

definition gauss_years :: "int \<Rightarrow> int" where
  "gauss_years y = 365 * y + y div 4 - y div 100 + y div 400"

fun gauss_days :: "date \<Rightarrow> int" where
  "gauss_days (y, m, d) =
     (let (m, y) = (if m \<le> 2 then (m + 10, y - 1) else (m - 2, y)) in gauss_years y + (367 * m div 12 - 30) + d - 1)"

lemma div_add_1: "0 < k \<Longrightarrow> (y + 1) div k = y div k + (if k dvd y + 1 then 1 else 0)" for k y :: int
proof -
  assume k: "0 < k"
  define q r where "q = (y + 1) div k" and "r = (y + 1) mod k"
  have y: "y + 1 = k * q + r" "0 \<le> r" "r < k"
    using k pos_mod_sign [OF k, of "y + 1"] pos_mod_bound [OF k, of "y + 1"] by (simp_all add: q_def r_def)
  have dvd: "k dvd y + 1 \<longleftrightarrow> r = 0" by (simp add: r_def dvd_eq_mod_eq_0)
  show ?thesis
  proof (cases "r = 0")
    case True
    with y have "y = k * (q - 1) + (k - 1)" by (simp add: algebra_simps)
    then have "y div k = q - 1" using k int_div_pos_eq [of y k "q - 1" "k - 1"] by simp
    with True dvd show ?thesis by (simp add: q_def)
  next
    case False
    with y have "y = k * q + (r - 1)" "0 \<le> r - 1" "r - 1 < k" by simp_all
    then have "y div k = q" by (intro int_div_pos_eq)
    with False dvd show ?thesis by (simp add: q_def)
  qed
qed

lemma gm_leap_iff: "gm_leap y = (if leap_year y then 1 else 0)"
  unfolding gm_leap_def leap_year_def by (simp add: dvd_eq_mod_eq_0 disj_imp)

lemma gauss_years_Suc: "gauss_years (y + 1) = gauss_years y + 365 + (if leap_year (y + 1) then 1 else 0)"
proof -
  have "100 dvd y + 1 \<Longrightarrow> 4 dvd y + 1" "400 dvd y + 1 \<Longrightarrow> 100 dvd y + 1"
    by (rule dvd_trans [rotated], assumption, simp)+
  then show ?thesis
    by (cases "4 dvd y + 1"; cases "100 dvd y + 1"; cases "400 dvd y + 1")
      (simp_all add: gauss_years_def div_add_1 leap_year_def)
qed

lemma date_next_ok: "date_ok dt \<Longrightarrow> date_ok (date_next dt)"
  by (cases dt) (auto simp: month_days_def split: if_splits)

lemma month_cases: "1 \<le> m \<Longrightarrow> m \<le> 12 \<Longrightarrow> m \<in> {1, 2, 3, 4, 5, 6, 7, 8, 9, 10, 11, 12}" for m :: int
  by (simp only: insert_iff empty_iff) presburger

lemma gauss_days_next: "date_ok dt \<Longrightarrow> gauss_days (date_next dt) = gauss_days dt + 1"
proof -
  assume ok: "date_ok dt"
  obtain y m d where dt: "dt = (y, m, d)" by (cases dt)
  with ok have "m \<in> {1, 2, 3, 4, 5, 6, 7, 8, 9, 10, 11, 12}" "d \<le> month_days y m" using month_cases by auto
  then show ?thesis
    using gauss_years_Suc [of "y - 1"] unfolding dt
    by (elim insertE emptyE) (auto simp: month_days_def)
qed

subsection \<open>The formula of the year\<close>

lemma gauss_years_parts:
  assumes "0 \<le> b" "b \<le> 3" "0 \<le> c" "c \<le> 24" "0 \<le> d" "d \<le> 3"
  shows "gauss_years (400 * a + 100 * b + 4 * c + d) = 146097 * a + 36524 * b + 1461 * c + 365 * d"
proof -
  let ?y = "400 * a + 100 * b + 4 * c + d"
  have "?y div 4 = 100 * a + 25 * b + c" using assms int_div_pos_eq [of ?y 4 "100 * a + 25 * b + c" d] by simp
  moreover have "?y div 100 = 4 * a + b" using assms int_div_pos_eq [of ?y 100 "4 * a + b" "4 * c + d"] by simp
  moreover have "?y div 400 = a" using assms int_div_pos_eq [of ?y 400 a "100 * b + 4 * c + d"] by simp
  ultimately show ?thesis by (simp add: gauss_years_def)
qed

lemma year_parts:
  obtains a b c d :: int where "y = 400 * a + 100 * b + 4 * c + d"
    "0 \<le> b" "b \<le> 3" "0 \<le> c" "c \<le> 24" "0 \<le> d" "d \<le> 3"
proof -
  let ?b = "y mod 400 div 100" and ?r = "y mod 400 mod 100"
  have m: "0 \<le> y mod 400" "y mod 400 < 400" "0 \<le> ?r" "?r < 100" by simp_all
  have y: "y = 400 * (y div 400) + y mod 400" "y mod 400 = 100 * ?b + ?r" "?r = 4 * (?r div 4) + ?r mod 4" by simp_all
  then have "y = 400 * (y div 400) + 100 * ?b + 4 * (?r div 4) + ?r mod 4" by linarith
  moreover have "0 \<le> ?b" "?b \<le> 3" "0 \<le> ?r div 4" "?r div 4 \<le> 24" "0 \<le> ?r mod 4" "?r mod 4 \<le> 3"
    using m by linarith+
  ultimately show thesis using that by blast
qed

lemma gm_year_gauss:
  assumes "0 \<le> yday" "yday < 365 + gm_leap (y + 1)"
  shows "gm_year (gauss_years y + yday) = (y, yday)"
proof -
  obtain a b c d where y: "y = 400 * a + 100 * b + 4 * c + d"
    and parts: "0 \<le> b" "b \<le> 3" "0 \<le> c" "c \<le> 24" "0 \<le> d" "d \<le> 3" by (rule year_parts)
  let ?n = "(gauss_years y + yday + 2) * 400"
  define e where "e = 12 * c - 100 * b - 97 * d + 400 * (yday + 2)"
  have n: "?n = 146097 * y + e"
    using gauss_years_parts [OF parts, of a] by (simp add: y e_def)
  have yday: "yday \<le> 365" using assms(2) by (simp add: gm_leap_def split: if_splits)
  have e: "0 \<le> e" "e < 2 * 146097" using parts assms(1) yday by (simp_all add: e_def)
  have next_y: "gauss_years (y + 1) = gauss_years y + 365 + gm_leap (y + 1)"
    by (simp add: gauss_years_Suc gm_leap_iff)
  show ?thesis
  proof (cases "e < 146097")
    case True
    with n e have "?n div 146097 = y" using int_div_pos_eq [of ?n 146097 y e] by simp
    with assms(1) show ?thesis by (simp add: gm_year_def Let_def flip: gauss_years_def)
  next
    case False
    with n e have "?n div 146097 = y + 1" using int_div_pos_eq [of ?n 146097 "y + 1" "e - 146097"] by simp
    with assms next_y show ?thesis by (simp add: gm_year_def Let_def flip: gauss_years_def)
  qed
qed

text \<open>The days of the year that starts in March, checked one by one.\<close>

definition gauss_yday :: "int \<Rightarrow> int \<Rightarrow> int" where
  "gauss_yday m d = (367 * m div 12 - 30) + d - 1"

lemma gauss_table:
  "list_all (\<lambda>m. list_all (\<lambda>d. let yday = gauss_yday (if m \<le> 2 then m + 10 else m - 2) d; mon = (yday + 31) * 10 div 306 in
       0 \<le> yday \<and> yday \<le> 365 \<and> (yday = 365 \<longrightarrow> m = 2 \<and> d = 29) \<and>
       (306 \<le> yday \<longleftrightarrow> m \<le> 2) \<and> mon = (if m \<le> 2 then m + 10 else m - 2) \<and> yday - (367 * mon div 12 - 30) + 1 = d)
     [1 .. if m = 2 then 29 else if m \<in> {4, 6, 9, 11} then 30 else 31]) [1 .. 12]"
  by code_simp

lemma gauss_row:
  assumes "date_ok (y, m, d)"
  defines "mon \<equiv> if m \<le> 2 then m + 10 else m - 2"
  defines "yday \<equiv> gauss_yday mon d"
  shows "0 \<le> yday" "yday \<le> 365" "yday = 365 \<Longrightarrow> m = 2 \<and> d = 29" "306 \<le> yday \<longleftrightarrow> m \<le> 2"
    "(yday + 31) * 10 div 306 = mon" "yday - (367 * mon div 12 - 30) + 1 = d"
proof -
  have "m \<in> set [1 .. 12]" "d \<in> set [1 .. if m = 2 then 29 else if m \<in> {4, 6, 9, 11} then 30 else 31]"
    using assms(1) by (auto simp: month_days_def split: if_splits)
  with gauss_table have "let yday = gauss_yday mon d; mon' = (yday + 31) * 10 div 306 in
       0 \<le> yday \<and> yday \<le> 365 \<and> (yday = 365 \<longrightarrow> m = 2 \<and> d = 29) \<and>
       (306 \<le> yday \<longleftrightarrow> m \<le> 2) \<and> mon' = mon \<and> yday - (367 * mon' div 12 - 30) + 1 = d"
    unfolding list_all_iff mon_def by blast
  then show "0 \<le> yday" "yday \<le> 365" "yday = 365 \<Longrightarrow> m = 2 \<and> d = 29" "306 \<le> yday \<longleftrightarrow> m \<le> 2"
    "(yday + 31) * 10 div 306 = mon" "yday - (367 * mon div 12 - 30) + 1 = d"
    by (auto simp only: Let_def yday_def)
qed

lemma gm_gauss:
  assumes "date_ok (y, m, d)"
  shows "(case gm_year (gauss_days (y, m, d)) of (year, yday) \<Rightarrow> gm_date year yday) = (y, m, d)"
proof -
  let ?y = "if m \<le> 2 then y - 1 else y" and ?mon = "if m \<le> 2 then m + 10 else m - 2"
  note row = gauss_row [OF assms]
  have days: "gauss_days (y, m, d) = gauss_years ?y + gauss_yday ?mon d"
    by (simp add: gauss_yday_def)
  have "gauss_yday ?mon d < 365 + gm_leap (?y + 1)"
  proof (cases "gauss_yday ?mon d = 365")
    case True
    with row(3) have "m = 2" "d = 29" by blast+
    with assms show ?thesis using True by (auto simp: month_days_def gm_leap_iff split: if_splits)
  next
    case False
    with row(2) show ?thesis by (simp add: gm_leap_def split: if_splits)
  qed
  with gm_year_gauss [OF row(1)] days have "gm_year (gauss_days (y, m, d)) = (?y, gauss_yday ?mon d)" by simp
  moreover have "gm_date ?y (gauss_yday ?mon d) = (y, m, d)"
    unfolding gm_date_def Let_def row(4,5,6) by simp
  ultimately show ?thesis by (simp only: prod.case)
qed

subsection \<open>Property\<close>

lemma date_of_day_Suc: "date_of_day (Suc n) = date_next (date_of_day n)"
  by (simp add: date_of_day_def)

lemma date_of_day_ok: "date_ok (date_of_day n)"
proof (induction n)
  case 0
  show ?case by (simp add: date_of_day_def month_days_def)
next
  case (Suc n)
  then show ?case unfolding date_of_day_Suc by (rule date_next_ok)
qed

lemma gauss_date_of_day: "gauss_days (date_of_day n) = int n + 719468"
proof (induction n)
  case 0
  show ?case by (simp add: date_of_day_def gauss_years_def)
next
  case (Suc n)
  then show ?case unfolding date_of_day_Suc gauss_days_next [OF date_of_day_ok] by simp
qed

definition tm_date :: "ngx_tm \<Rightarrow> date" where
  "tm_date tp = (tm_year tp, tm_mon tp, tm_mday tp)"

lemma gmtime_day: "(case gm_year (int n - (31 + 28) + 719527) of (year, yday) \<Rightarrow> gm_date year yday) = date_of_day n"
proof -
  obtain y m d where dt: "date_of_day n = (y, m, d)" by (cases "date_of_day n")
  have "gauss_days (y, m, d) = int n - (31 + 28) + 719527" using gauss_date_of_day [of n] dt by simp
  with gm_gauss [of y m d] date_of_day_ok [of n] dt show ?thesis by simp
qed

lemma gmtime_clock:
  fixes sec :: int
  assumes "0 \<le> sec" "sec < 86400"
  shows "sec div 3600 * 3600 + sec mod 3600 div 60 * 60 + sec mod 3600 mod 60 = sec"
    "0 \<le> sec div 3600" "sec div 3600 < 24" "0 \<le> sec mod 3600 div 60" "sec mod 3600 div 60 < 60"
    "0 \<le> sec mod 3600 mod 60" "sec mod 3600 mod 60 < 60"
proof -
  show "sec div 3600 * 3600 + sec mod 3600 div 60 * 60 + sec mod 3600 mod 60 = sec" by simp
  have "0 \<le> sec mod 3600" "sec mod 3600 < 3600" by simp_all
  with assms show "0 \<le> sec div 3600" "sec div 3600 < 24" "0 \<le> sec mod 3600 div 60" "sec mod 3600 div 60 < 60"
    "0 \<le> sec mod 3600 mod 60" "sec mod 3600 mod 60 < 60" by linarith+
qed

lemma gmtime_eq:
  assumes "days = min (max t 0 div 86400) 2932896"
    and "sec = (if 2932896 < max t 0 div 86400 then 86399 else max t 0 mod 86400)"
    and "date_of_day (nat days) = (y, m, d)"
  shows "ngx_gmtime t = \<lparr>tm_sec = sec mod 3600 mod 60, tm_min = sec mod 3600 div 60, tm_hour = sec div 3600,
      tm_mday = d, tm_mon = m, tm_year = y, tm_wday = (4 + days) mod 7\<rparr>"
proof -
  have "0 \<le> max t 0 div 86400" by (rule pos_imp_zdiv_nonneg_iff [THEN iffD2]) simp_all
  then have "int (nat days) = days" using assms(1) by simp
  with gmtime_day [of "nat days"] assms(3)
  obtain year yday where g: "gm_year (days - (31 + 28) + 719527) = (year, yday)" "gm_date year yday = (y, m, d)"
    by (cases "gm_year (days - (31 + 28) + 719527)") simp
  have t: "(if t < 0 then 0 else t) = max t 0" by simp
  have sel: "(if 2932896 < max t 0 div 86400 then (2932896, 86399) else (max t 0 div 86400, max t 0 mod 86400)) = (days, sec)"
    using assms(1,2) by auto
  show ?thesis unfolding ngx_gmtime_def Let_def t sel prod.case g by (rule refl)
qed

text \<open>
  C12. A time is turned into the date of its day, as the days follow one another from Thursday, January 1, 1970, and
  into the hours, minutes and seconds of that day; a time before that is taken for its first second, and one after
  December 31, 9999 for the last second of that day.
\<close>

theorem ngx_gmtime_calendar:
  "let n = nat (min (max t 0 div 86400) 2932896);
       sec = (if 2932896 < max t 0 div 86400 then 86399 else max t 0 mod 86400);
       tp = ngx_gmtime t
   in tm_date tp = date_of_day n \<and> tm_wday tp = (4 + int n) mod 7
    \<and> tm_hour tp * 3600 + tm_min tp * 60 + tm_sec tp = sec
    \<and> 0 \<le> tm_hour tp \<and> tm_hour tp < 24 \<and> 0 \<le> tm_min tp \<and> tm_min tp < 60 \<and> 0 \<le> tm_sec tp \<and> tm_sec tp < 60"
proof -
  define days where "days = min (max t 0 div 86400) 2932896"
  define sec where "sec = (if 2932896 < max t 0 div 86400 then 86399 else max t 0 mod 86400)"
  obtain y m d where date: "date_of_day (nat days) = (y, m, d)" by (cases "date_of_day (nat days)")
  note tm = gmtime_eq [OF days_def sec_def date]
  have "0 \<le> max t 0 div 86400" by (rule pos_imp_zdiv_nonneg_iff [THEN iffD2]) simp_all
  then have "int (nat days) = days" by (simp add: days_def)
  moreover have "0 \<le> sec" "sec < 86400" by (simp_all add: sec_def)
  then have "tm_hour (ngx_gmtime t) * 3600 + tm_min (ngx_gmtime t) * 60 + tm_sec (ngx_gmtime t) = sec"
    "0 \<le> tm_hour (ngx_gmtime t)" "tm_hour (ngx_gmtime t) < 24" "0 \<le> tm_min (ngx_gmtime t)"
    "tm_min (ngx_gmtime t) < 60" "0 \<le> tm_sec (ngx_gmtime t)" "tm_sec (ngx_gmtime t) < 60"
    unfolding tm ngx_tm.simps by (rule gmtime_clock; assumption)+
  moreover have "tm_date (ngx_gmtime t) = date_of_day (nat days)" "tm_wday (ngx_gmtime t) = (4 + days) mod 7"
    unfolding tm tm_date_def ngx_tm.simps date by (rule refl)+
  ultimately show ?thesis unfolding Let_def days_def [symmetric] sec_def [symmetric] by metis
qed

end
