(* ===== verification/Ngx_Http_Time.thy ===== *)
theory Ngx_Http_Time
  imports Ngx_Sprintf Ngx_Gmtime
begin

section \<open>Times of HTTP\<close>

text \<open>
  The texts of a time: \<^verbatim>\<open>ngx_http_time\<close> and \<^verbatim>\<open>ngx_http_cookie_time\<close> of \<^verbatim>\<open>src/core/ngx_times.c\<close> write them,
  \<^verbatim>\<open>ngx_parse_http_time\<close> of \<^verbatim>\<open>src/core/ngx_parse_time.c\<close> reads the three forms of HTTP. The reader follows a
  pointer with few tests against the end of the text: to read past it is an outcome of its own.
\<close>

subsection \<open>Writing\<close>

definition week :: "byte list list" where
  "week = map bytes_of [''Sun'', ''Mon'', ''Tue'', ''Wed'', ''Thu'', ''Fri'', ''Sat'']"

definition months :: "byte list list" where
  "months = map bytes_of [''Jan'', ''Feb'', ''Mar'', ''Apr'', ''May'', ''Jun'',
                          ''Jul'', ''Aug'', ''Sep'', ''Oct'', ''Nov'', ''Dec'']"

text \<open>An argument of the type \<^verbatim>\<open>int\<close>, and the memory at a string literal.\<close>

definition arg_int :: "int \<Rightarrow> fmt_arg" where "arg_int n = Arg_word (word_of_int n)"
definition arg_literal :: "byte list \<Rightarrow> fmt_arg" where "arg_literal s = Arg_memory (s @ [0])"

definition ngx_http_time :: "u64 \<Rightarrow> int \<Rightarrow> fmt_error + byte list" where
  "ngx_http_time buf t =
     (let tm = ngx_gmtime t
      in ngx_sprintf buf (bytes_of ''%s, %02d %s %4d %02d:%02d:%02d GMT'')
           [arg_literal (week ! nat (tm_wday tm)),
            arg_int (tm_mday tm),
            arg_literal (months ! nat (tm_mon tm - 1)),
            arg_int (tm_year tm),
            arg_int (tm_hour tm),
            arg_int (tm_min tm),
            arg_int (tm_sec tm)])"

definition ngx_http_cookie_time :: "u64 \<Rightarrow> int \<Rightarrow> fmt_error + byte list" where
  "ngx_http_cookie_time buf t =
     (let tm = ngx_gmtime t
      in ngx_sprintf buf
           (if 2037 < tm_year tm then bytes_of ''%s, %02d-%s-%d %02d:%02d:%02d GMT''
            else bytes_of ''%s, %02d-%s-%02d %02d:%02d:%02d GMT'')
           [arg_literal (week ! nat (tm_wday tm)),
            arg_int (tm_mday tm),
            arg_literal (months ! nat (tm_mon tm - 1)),
            arg_int (if 2037 < tm_year tm then tm_year tm else tm_year tm mod 100),
            arg_int (tm_hour tm),
            arg_int (tm_min tm),
            arg_int (tm_sec tm)])"

subsection \<open>Reading\<close>

datatype 'a parsed = Parsed 'a | Parse_error | Read_past

fun parse_bind :: "'a parsed \<Rightarrow> ('a \<Rightarrow> 'b parsed) \<Rightarrow> 'b parsed" where
  "parse_bind (Parsed x) f = f x"
| "parse_bind Parse_error f = Parse_error"
| "parse_bind Read_past f = Read_past"

definition peek :: "byte list \<Rightarrow> nat \<Rightarrow> byte parsed" where
  "peek v p = (if p < length v then Parsed (v ! p) else Read_past)"

definition parse_if :: "bool \<Rightarrow> 'a parsed \<Rightarrow> 'a parsed" where
  "parse_if ok r = (if ok then r else Parse_error)"

definition expect :: "byte list \<Rightarrow> nat \<Rightarrow> byte \<Rightarrow> 'a parsed \<Rightarrow> 'a parsed" where
  "expect v p c r = parse_bind (peek v p) (\<lambda>b. if b = c then r else Parse_error)"

text \<open>A digit, and numbers of two and four digits.\<close>

definition digit_at :: "byte list \<Rightarrow> nat \<Rightarrow> (int \<Rightarrow> 'a parsed) \<Rightarrow> 'a parsed" where
  "digit_at v p f = parse_bind (peek v p) (\<lambda>c. if c < chr_0 \<or> chr_9 < c then Parse_error else f (digit_value c))"

definition digits2_at :: "byte list \<Rightarrow> nat \<Rightarrow> (int \<Rightarrow> 'a parsed) \<Rightarrow> 'a parsed" where
  "digits2_at v p f = digit_at v p (\<lambda>a. digit_at v (p + 1) (\<lambda>b. f (a * 10 + b)))"

definition digits4_at :: "byte list \<Rightarrow> nat \<Rightarrow> (int \<Rightarrow> 'a parsed) \<Rightarrow> 'a parsed" where
  "digits4_at v p f =
     digit_at v p (\<lambda>a. digit_at v (p + 1) (\<lambda>b. digit_at v (p + 2) (\<lambda>c. digit_at v (p + 3) (\<lambda>d.
       f (a * 1000 + b * 100 + c * 10 + d)))))"

datatype time_fmt = fmt_no | fmt_rfc822 | fmt_rfc850 | fmt_isoc

text \<open>The loops over the name of the day and over the spaces after it.\<close>

function time_day_end :: "byte list \<Rightarrow> nat \<Rightarrow> time_fmt \<times> nat" where
  "time_day_end v p =
     (if p < length v then
        if v ! p = 0x2c then (fmt_no, p)
        else if v ! p = chr_space then (fmt_isoc, p)
        else time_day_end v (p + 1)
      else (fmt_no, p))"
  by pat_completeness auto

termination by (relation "measure (\<lambda>(v, p). length v - p)") auto

declare time_day_end.simps [simp del]

function time_skip_spaces :: "byte list \<Rightarrow> nat \<Rightarrow> nat" where
  "time_skip_spaces v p = (if p < length v \<and> v ! p = chr_space then time_skip_spaces v (p + 1) else p)"
  by pat_completeness auto

termination by (relation "measure (\<lambda>(v, p). length v - p)") auto

declare time_skip_spaces.simps [simp del]

text \<open>The month, from 0, by its letters that tell it from the others.\<close>

definition time_month :: "byte list \<Rightarrow> nat \<Rightarrow> (int \<Rightarrow> 'a parsed) \<Rightarrow> 'a parsed" where
  "time_month v p f =
     parse_bind (peek v p) (\<lambda>c.
       if c = 0x4a then
         parse_bind (peek v (p + 1)) (\<lambda>c. if c = chr_a then f 0
           else parse_bind (peek v (p + 2)) (\<lambda>c. if c = 0x6e then f 5 else f 6))
       else if c = chr_F then f 1
       else if c = chr_M then parse_bind (peek v (p + 2)) (\<lambda>c. if c = chr_r then f 2 else f 4)
       else if c = chr_A then parse_bind (peek v (p + 1)) (\<lambda>c. if c = chr_p then f 3 else f 7)
       else if c = 0x53 then f 8
       else if c = chr_O then f 9
       else if c = chr_N then f 10
       else if c = chr_D then f 11
       else Parse_error)"

definition mday :: "int list" where
  "mday = [31, 28, 31, 30, 31, 30, 31, 31, 30, 31, 30, 31]"

text \<open>The number of seconds of a date, in 64 bits.\<close>

definition http_time_value :: "int \<Rightarrow> int \<Rightarrow> int \<Rightarrow> int \<Rightarrow> int \<Rightarrow> int \<Rightarrow> int parsed" where
  "http_time_value year month day hour minute sec =
     (if 23 < hour \<or> 59 < minute \<or> 59 < sec then Parse_error
      else if day = 29 \<and> month = 1 \<and> (year AND 3 \<noteq> 0 \<or> (year mod 100 = 0 \<and> year mod 400 \<noteq> 0)) then Parse_error
      else if \<not> (day = 29 \<and> month = 1) \<and> mday ! nat month < day then Parse_error
      else
        let (month, year) = (if month - 1 \<le> 0 then (month - 1 + 12, (year - 1) mod 2 ^ 64) else (month - 1, year));
            time = ((365 * year + year div 4 - year div 100 + year div 400 + 367 * month div 12 - 30 + day - 1
                     - 719527 + 31 + 28) * 86400 + hour * 3600 + minute * 60 + sec) mod 2 ^ 64
        in Parsed (s64 time))"

text \<open>The clock, and the year behind it in the format of C.\<close>

definition time_clock :: "byte list \<Rightarrow> time_fmt \<Rightarrow> nat \<Rightarrow> int \<Rightarrow> int \<Rightarrow> int \<Rightarrow> int parsed" where
  "time_clock v fmt p year month day =
     expect v p chr_space (digits2_at v (p + 1) (\<lambda>hour. expect v (p + 3) chr_colon (digits2_at v (p + 4) (\<lambda>minute.
     expect v (p + 6) chr_colon (digits2_at v (p + 7) (\<lambda>sec.
       if fmt = fmt_isoc then
         expect v (p + 9) chr_space (digits4_at v (p + 10) (\<lambda>year. http_time_value year month day hour minute sec))
       else http_time_value year month day hour minute sec))))))"

text \<open>The year and, in the format of C, the day, from the character behind the month on.\<close>

definition time_year :: "byte list \<Rightarrow> time_fmt \<Rightarrow> nat \<Rightarrow> int \<Rightarrow> int \<Rightarrow> int parsed" where
  "time_year v fmt p month day =
     (case fmt of
        fmt_rfc822 \<Rightarrow>
          expect v p chr_space (digits4_at v (p + 1) (\<lambda>year. time_clock v fmt (p + 5) year month day))
      | fmt_rfc850 \<Rightarrow>
          expect v p chr_minus (digits2_at v (p + 1) (\<lambda>year.
            time_clock v fmt (p + 3) (year + (if year < 70 then 2000 else 1900)) month day))
      | _ \<Rightarrow>
          parse_bind (peek v (p + 1)) (\<lambda>c.
            let p = (if c = chr_space then p + 2 else p + 1) in
            digit_at v p (\<lambda>day. parse_bind (peek v (p + 1)) (\<lambda>c.
              if c = chr_space then parse_if (p + 1 + 14 \<le> length v) (time_clock v fmt (p + 1) 0 month day)
              else digit_at v (p + 1) (\<lambda>d.
                parse_if (p + 2 + 14 \<le> length v) (time_clock v fmt (p + 2) 0 month (day * 10 + d)))))))"

definition time_date :: "byte list \<Rightarrow> time_fmt \<Rightarrow> nat \<Rightarrow> int parsed" where
  "time_date v fmt p =
     (if fmt = fmt_isoc then time_month v p (\<lambda>month. time_year v fmt (p + 3) month 0)
      else digits2_at v p (\<lambda>day. parse_bind (peek v (p + 2)) (\<lambda>c.
        if c = chr_space then
          parse_if (p + 2 + 18 \<le> length v)
            (time_month v (p + 3) (\<lambda>month. time_year v fmt_rfc822 (p + 6) month day))
        else if c = chr_minus then time_month v (p + 3) (\<lambda>month. time_year v fmt_rfc850 (p + 6) month day)
        else Parse_error)))"

definition ngx_parse_http_time :: "byte list \<Rightarrow> int parsed" where
  "ngx_parse_http_time v =
     (let (fmt, p) = time_day_end v 0;
          p = time_skip_spaces v (p + 1)
      in if length v < p + 18 then Parse_error else time_date v fmt p)"

subsection \<open>Nothing is read past the end\<close>

definition within :: "'a parsed \<Rightarrow> bool" where
  "within r \<longleftrightarrow> r \<noteq> Read_past"

lemma within_bind: "within m \<Longrightarrow> (\<And>x. within (f x)) \<Longrightarrow> within (parse_bind m f)"
  by (cases m) (simp_all add: within_def)

lemma within_peek: "p < length v \<Longrightarrow> within (peek v p)"
  by (simp add: peek_def within_def)

lemma within_error: "within Parse_error"
  by (simp add: within_def)

lemma within_if: "(ok \<Longrightarrow> within r) \<Longrightarrow> within (parse_if ok r)"
  by (simp add: parse_if_def within_def)

lemma within_split: "(b \<Longrightarrow> within r) \<Longrightarrow> (\<not> b \<Longrightarrow> within r') \<Longrightarrow> within (if b then r else r')"
  by simp

lemma within_digit: "p < length v \<Longrightarrow> (\<And>d. within (f d)) \<Longrightarrow> within (digit_at v p f)"
  by (simp add: digit_at_def within_bind within_peek within_error)

lemma within_digits2: "p + 2 \<le> length v \<Longrightarrow> (\<And>d. within (f d)) \<Longrightarrow> within (digits2_at v p f)"
  by (simp add: digits2_at_def within_digit)

lemma within_digits4: "p + 4 \<le> length v \<Longrightarrow> (\<And>d. within (f d)) \<Longrightarrow> within (digits4_at v p f)"
  by (simp add: digits4_at_def within_digit)

lemma within_expect: "p < length v \<Longrightarrow> within r \<Longrightarrow> within (expect v p c r)"
  by (simp add: expect_def within_bind within_peek within_error)

lemma within_month: "p + 3 \<le> length v \<Longrightarrow> (\<And>m. within (f m)) \<Longrightarrow> within (time_month v p f)"
  unfolding time_month_def by (intro within_bind within_peek within_split within_error) simp_all

lemma within_value: "within (http_time_value year month day hour minute sec)"
  by (simp add: http_time_value_def Let_def within_def)

lemmas within_intros = within_expect within_digits2 within_digits4 within_digit within_split within_value within_error
  within_if within_month within_bind within_peek

lemma within_clock:
  "p + (if fmt = fmt_isoc then 14 else 9) \<le> length v \<Longrightarrow> within (time_clock v fmt p year month day)"
  unfolding time_clock_def by (cases "fmt = fmt_isoc"; intro within_intros; simp)

lemma within_year:
  "p + 14 \<le> length v \<Longrightarrow> within (time_year v fmt_rfc822 p month day)"
  "p + 12 \<le> length v \<Longrightarrow> within (time_year v fmt_rfc850 p month day)"
  "p + 4 \<le> length v \<Longrightarrow> within (time_year v fmt_isoc p month day)"
  unfolding time_year_def time_fmt.case Let_def by (intro within_intros within_clock; simp)+

lemma within_date: "p + 18 \<le> length v \<Longrightarrow> within (time_date v fmt p)"
  unfolding time_date_def by (intro within_intros within_year) (simp_all add: within_year)

text \<open>
  C30. Reading a time never looks at a byte behind the end of the text, whatever the text is.
\<close>

theorem ngx_parse_http_time_within: "ngx_parse_http_time v \<noteq> Read_past"
proof -
  have "within (ngx_parse_http_time v)"
    unfolding ngx_parse_http_time_def Let_def case_prod_beta
    by (rule within_split [OF within_error]) (rule within_date, simp)
  then show ?thesis by (simp add: within_def)
qed

subsection \<open>The texts that are written\<close>

definition two_digits :: "int \<Rightarrow> byte list" where
  "two_digits n = [word_of_int (n div 10 + 48), word_of_int (n mod 10 + 48)]"

lemma sprintf_two:
  assumes "0 \<le> n" "n < 100" "2 \<le> room" "fs_zero s = chr_0" "fs_width s = 2" "fs_hex s = 0"
  shows "fmt_write room (Piece_signed (sign_extend_32 (word_of_int n)) s) = two_digits n"
proof -
  have all: "list_all (\<lambda>n. let w = sign_extend_32 (word_of_nat n) in \<not> sint w < 0
      \<and> replicate (2 - length (sprintf_digits w 0)) chr_0 @ sprintf_digits w 0 = two_digits (int n)) [0..<100]"
    by code_simp
  have "nat n \<in> set [0..<100]" using assms by simp
  with all assms(1) have "\<not> sint (sign_extend_32 (word_of_int n)) < 0"
    "replicate (2 - length (sprintf_digits (sign_extend_32 (word_of_int n)) 0)) chr_0
       @ sprintf_digits (sign_extend_32 (word_of_int n)) 0 = two_digits n"
    unfolding list_all_iff Let_def by (metis (no_types, lifting) int_nat_eq of_int_of_nat_eq)+
  moreover have "take room (two_digits n) = two_digits n" using assms(3) by (simp add: two_digits_def)
  ultimately show ?thesis using assms(4-) by (simp add: fmt_write_def ngx_sprintf_num_take del: take_append)
qed

definition four_digits :: "int \<Rightarrow> byte list" where
  "four_digits n = map (\<lambda>k. word_of_int (n div k mod 10 + 48)) [1000, 100, 10, 1]"

lemma sprintf_dec_four: "1000 \<le> n \<Longrightarrow> n < 10000 \<Longrightarrow> sprintf_dec n [] = four_digits (int n)"
proof -
  assume n: "1000 \<le> n" "n < 10000"
  have d: "n div 10 div 10 = n div 100" "n div 100 div 10 = n div 1000" "n div 1000 div 10 = 0"
    using n by (simp_all add: div_mult2_eq [symmetric])
  have nz: "n div 10 \<noteq> 0" "n div 100 \<noteq> 0" "n div 1000 \<noteq> 0" using n by (simp_all add: div_eq_0_iff)
  have step: "sprintf_dec m p = sprintf_dec (m div 10) (word_of_nat (m mod 10 + 48) # p)" if "m div 10 \<noteq> 0" for m p
    using that by (subst sprintf_dec.simps) (simp add: Let_def)
  have stop: "sprintf_dec m p = word_of_nat (m mod 10 + 48) # p" if "m div 10 = 0" for m p
    using that by (subst sprintf_dec.simps) (simp add: Let_def)
  have "sprintf_dec n [] = sprintf_dec (n div 10) [word_of_nat (n mod 10 + 48)]" by (rule step [OF nz(1)])
  also have "\<dots> = sprintf_dec (n div 100) [word_of_nat (n div 10 mod 10 + 48), word_of_nat (n mod 10 + 48)]"
    by (rule step [of "n div 10", unfolded d, OF nz(2)])
  also have "\<dots> = sprintf_dec (n div 1000) [word_of_nat (n div 100 mod 10 + 48), word_of_nat (n div 10 mod 10 + 48), word_of_nat (n mod 10 + 48)]"
    by (rule step [of "n div 100", unfolded d, OF nz(3)])
  also have "\<dots> = [word_of_nat (n div 1000 mod 10 + 48), word_of_nat (n div 100 mod 10 + 48), word_of_nat (n div 10 mod 10 + 48), word_of_nat (n mod 10 + 48)]"
    by (rule stop [of "n div 1000", OF d(3)])
  finally have dec: "sprintf_dec n [] = map (\<lambda>k. word_of_nat (n div k mod 10 + 48)) [1000, 100, 10, 1]" by simp
  have "word_of_int (int n div int k mod 10 + 48) = (word_of_nat (n div k mod 10 + 48) :: byte)" for k
    by (metis of_int_of_nat_eq of_nat_add of_nat_numeral zdiv_int zmod_int)
  from this [of 1000] this [of 100] this [of 10] this [of 1] show ?thesis
    unfolding dec four_digits_def by simp
qed

lemma sign_extend_small:
  assumes "0 \<le> n" "n < 2 ^ 31"
  shows "sign_extend_32 (word_of_int n) = word_of_int n"
proof -
  have "(ucast (word_of_int n :: u64) :: u32) = word_of_int n"
    by (simp add: ucast_eq unsigned_of_int take_bit_int_eq_self assms less_trans [OF assms(2)])
  moreover have "sint (word_of_int n :: u32) = n"
    using assms by (simp add: signed_of_int signed_take_bit_int_eq_self)
  ultimately show ?thesis by (simp add: sign_extend_32_def scast_eq)
qed

lemma word_small:
  assumes "0 \<le> n" "n < 2 ^ 31"
  shows "sint (word_of_int n :: u64) = n" "unat (word_of_int n :: u64) = nat n" "(word_of_int n :: u64) \<le> 0xffffffff"
    "unat (ucast (word_of_int n :: u64) :: u32) = nat n"
proof -
  show "sint (word_of_int n :: u64) = n" using assms by (simp add: signed_of_int signed_take_bit_int_eq_self)
  show u: "unat (word_of_int n :: u64) = nat n" using assms by (simp add: unsigned_of_int take_bit_int_eq_self)
  show "(word_of_int n :: u64) \<le> 0xffffffff" using assms by (simp add: word_le_nat_alt u)
  show "unat (ucast (word_of_int n :: u64) :: u32) = nat n"
    using assms by (simp add: unsigned_ucast_eq u take_bit_nat_eq_self)
qed

lemma sprintf_four:
  assumes "1000 \<le> n" "n < 10000" "4 \<le> room" "fs_zero s = z" "fs_width s = 4 \<or> fs_width s = 0" "fs_hex s = 0"
  shows "fmt_write room (Piece_signed (sign_extend_32 (word_of_int n)) s) = four_digits n"
proof -
  have n: "0 \<le> n" "n < 2 ^ 31" using assms(1,2) by simp_all
  have "sprintf_digits (word_of_int n) 0 = four_digits n"
    using sprintf_dec_four [of "nat n"] assms(1,2) word_small(3,4) [OF n] by (simp add: sprintf_digits_def)
  then show ?thesis
    using assms(3-6) n word_small(1) [OF n]
    by (auto simp: fmt_write_def ngx_sprintf_num_take sign_extend_small four_digits_def)
qed

text \<open>The names have three letters, none of which ends the text or the name of a day.\<close>

lemma names:
  "0 \<le> i \<Longrightarrow> i < 7 \<Longrightarrow> \<exists>a b c. week ! nat i = [a, b, c] \<and> a \<noteq> 0 \<and> b \<noteq> 0 \<and> c \<noteq> 0 \<and>
     a \<noteq> 0x2c \<and> b \<noteq> 0x2c \<and> c \<noteq> 0x2c \<and> a \<noteq> chr_space \<and> b \<noteq> chr_space \<and> c \<noteq> chr_space"
  "1 \<le> m \<Longrightarrow> m \<le> 12 \<Longrightarrow> \<exists>a b c. months ! nat (m - 1) = [a, b, c] \<and> a \<noteq> 0 \<and> b \<noteq> 0 \<and> c \<noteq> 0"
proof -
  assume "0 \<le> i" "i < 7"
  then have "i \<in> {0, 1, 2, 3, 4, 5, 6}" by (simp only: insert_iff empty_iff) presburger
  then show "\<exists>a b c. week ! nat i = [a, b, c] \<and> a \<noteq> 0 \<and> b \<noteq> 0 \<and> c \<noteq> 0 \<and>
     a \<noteq> 0x2c \<and> b \<noteq> 0x2c \<and> c \<noteq> 0x2c \<and> a \<noteq> chr_space \<and> b \<noteq> chr_space \<and> c \<noteq> chr_space"
    by (elim insertE emptyE) (simp_all add: week_def bytes_of_def)
next
  assume "1 \<le> m" "m \<le> 12"
  then have "m \<in> {1, 2, 3, 4, 5, 6, 7, 8, 9, 10, 11, 12}" by (rule month_cases)
  then show "\<exists>a b c. months ! nat (m - 1) = [a, b, c] \<and> a \<noteq> 0 \<and> b \<noteq> 0 \<and> c \<noteq> 0"
    by (elim insertE emptyE) (simp_all add: months_def bytes_of_def)
qed

text \<open>The steps of the formats.\<close>

lemma fmt_string_step:
  assumes "name = [a, b, c]" "a \<noteq> 0" "b \<noteq> 0" "c \<noteq> 0" "3 \<le> room"
  shows "fmt_directive room (chr_s # fmt) (arg_literal name # args) = Inr (name, fmt, args)"
  using assms by (simp add: fmt_directive_def fmt_convert_def arg_literal_def fmt_write_def)

lemma fmt_two_step:
  assumes "0 \<le> n" "n < 100" "2 \<le> room"
  shows "fmt_directive room (chr_0 # 0x32 # chr_d # fmt) (arg_int n # args) = Inr (two_digits n, fmt, args)"
  using assms by (simp add: fmt_directive_def fmt_convert_def fmt_convert_word_def fmt_integer_def arg_int_def sprintf_two)

lemma fmt_four_step:
  assumes "1000 \<le> n" "n < 10000" "4 \<le> room"
  shows "fmt_directive room (0x34 # chr_d # fmt) (arg_int n # args) = Inr (four_digits n, fmt, args)"
  using assms by (simp add: fmt_directive_def fmt_convert_def fmt_convert_word_def fmt_integer_def arg_int_def sprintf_four)

lemma vslprintf_steps:
  "length buf < limit \<Longrightarrow> c \<noteq> chr_percent \<Longrightarrow>
     vslprintf_loop limit buf (c # fmt) args = vslprintf_loop limit (buf @ [c]) fmt args"
  "length buf < limit \<Longrightarrow> fmt_directive (limit - length buf) fmt args = Inr (bs, fmt', args') \<Longrightarrow>
     vslprintf_loop limit buf (chr_percent # fmt) args = vslprintf_loop limit (buf @ bs) fmt' args'"
  by simp_all

text \<open>The text that a format of a name, a day, a month, a year and a clock writes.\<close>

definition clock_text :: "int \<Rightarrow> int \<Rightarrow> int \<Rightarrow> byte list" where
  "clock_text h mi s = chr_space # two_digits h @ chr_colon # two_digits mi @ chr_colon # two_digits s @ bytes_of '' GMT''"

definition clock_ok :: "int \<Rightarrow> int \<Rightarrow> int \<Rightarrow> bool" where
  "clock_ok h mi s \<longleftrightarrow> 0 \<le> h \<and> h < 24 \<and> 0 \<le> mi \<and> mi < 60 \<and> 0 \<le> s \<and> s < 60"

lemma length_digits [simp]: "length (two_digits n) = 2" "length (four_digits n) = 4"
  by (simp_all add: two_digits_def four_digits_def)

lemma clock_format:
  assumes "clock_ok h mi s" "length buf + 13 \<le> limit"
  shows "vslprintf_loop limit buf (bytes_of '' %02d:%02d:%02d GMT'') [arg_int h, arg_int mi, arg_int s] =
    Inr (buf @ clock_text h mi s)"
  using assms
  by (simp add: bytes_of_def vslprintf_steps fmt_two_step clock_ok_def clock_text_def del: vslprintf_loop.simps(2))

lemma http_date_format:
  assumes "clock_ok h mi s" "0 \<le> wday" "wday < 7" "1 \<le> m" "m \<le> 12" "0 \<le> d" "d < 100" "1000 \<le> y" "y < 10000" "29 \<le> limit"
  shows "ngx_vslprintf limit (bytes_of ''%s, %02d %s %4d %02d:%02d:%02d GMT'')
      [arg_literal (week ! nat wday), arg_int d, arg_literal (months ! nat (m - 1)), arg_int y, arg_int h, arg_int mi, arg_int s] =
    Inr (week ! nat wday @ bytes_of '', '' @ two_digits d @ chr_space # months ! nat (m - 1) @ chr_space # four_digits y
      @ clock_text h mi s)"
proof -
  obtain a b c where w: "week ! nat wday = [a, b, c]" "a \<noteq> 0" "b \<noteq> 0" "c \<noteq> 0" using names(1) assms(2,3) by blast
  obtain a' b' c' where mo: "months ! nat (m - 1) = [a', b', c']" "a' \<noteq> 0" "b' \<noteq> 0" "c' \<noteq> 0"
    using names(2) assms(4,5) by blast
  have fmt: "bytes_of ''%s, %02d %s %4d %02d:%02d:%02d GMT'' = chr_percent # chr_s # 0x2c # chr_space # chr_percent # chr_0 # 0x32 # chr_d
     # chr_space # chr_percent # chr_s # chr_space # chr_percent # 0x34 # chr_d # bytes_of '' %02d:%02d:%02d GMT''"
    by (simp add: bytes_of_def)
  show ?thesis
    using assms(6-) clock_format [OF assms(1)] unfolding ngx_vslprintf_def fmt
    by (simp add: vslprintf_steps fmt_string_step [OF refl w(2-4)] fmt_string_step [OF refl mo(2-4)] fmt_two_step fmt_four_step
        w(1) mo(1) bytes_of_def [of "'', ''"] del: vslprintf_loop.simps)
qed

lemma cookie_date_format:
  assumes "clock_ok h mi s" "0 \<le> wday" "wday < 7" "1 \<le> m" "m \<le> 12" "0 \<le> d" "d < 100" "0 \<le> y" "y < 100" "29 \<le> limit"
  shows "ngx_vslprintf limit (bytes_of ''%s, %02d-%s-%02d %02d:%02d:%02d GMT'')
      [arg_literal (week ! nat wday), arg_int d, arg_literal (months ! nat (m - 1)), arg_int y, arg_int h, arg_int mi, arg_int s] =
    Inr (week ! nat wday @ bytes_of '', '' @ two_digits d @ chr_minus # months ! nat (m - 1) @ chr_minus # two_digits y
      @ clock_text h mi s)"
proof -
  obtain a b c where w: "week ! nat wday = [a, b, c]" "a \<noteq> 0" "b \<noteq> 0" "c \<noteq> 0" using names(1) assms(2,3) by blast
  obtain a' b' c' where mo: "months ! nat (m - 1) = [a', b', c']" "a' \<noteq> 0" "b' \<noteq> 0" "c' \<noteq> 0"
    using names(2) assms(4,5) by blast
  have fmt: "bytes_of ''%s, %02d-%s-%02d %02d:%02d:%02d GMT'' = chr_percent # chr_s # 0x2c # chr_space # chr_percent # chr_0 # 0x32 # chr_d
     # chr_minus # chr_percent # chr_s # chr_minus # chr_percent # chr_0 # 0x32 # chr_d # bytes_of '' %02d:%02d:%02d GMT''"
    by (simp add: bytes_of_def)
  show ?thesis
    using assms(6-) clock_format [OF assms(1)] unfolding ngx_vslprintf_def fmt
    by (simp add: vslprintf_steps fmt_string_step [OF refl w(2-4)] fmt_string_step [OF refl mo(2-4)] fmt_two_step
        w(1) mo(1) bytes_of_def [of "'', ''"] del: vslprintf_loop.simps)
qed

subsection \<open>The texts that are read\<close>

lemma digit_char: "0 \<le> k \<Longrightarrow> k < 10 \<Longrightarrow> dec_digit (word_of_int (k + 48)) \<and> digit_value (word_of_int (k + 48)) = k"
  using dec_char [of "nat k"] by (simp add: of_nat_nat)

lemma digit_at_char:
  assumes "p < length v" "v ! p = word_of_int (k + 48)" "0 \<le> k" "k < 10"
  shows "digit_at v p f = f k"
  using digit_char [of k] assms by (auto simp: digit_at_def peek_def not_less)

lemma two_value: "0 \<le> n \<Longrightarrow> n < 100 \<Longrightarrow> n div 10 < 10 \<and> 0 \<le> n div 10 \<and> n div 10 * 10 + n mod 10 = (n :: int)"
  by auto

lemma digits2_at_two:
  assumes "v ! p = two_digits n ! 0" "v ! (p + 1) = two_digits n ! 1" "p + 2 \<le> length v" "0 \<le> n" "n < 100"
  shows "digits2_at v p f = f n"
  using assms two_value [of n] by (simp add: digits2_at_def two_digits_def digit_at_char)

lemma div_mod_ten: "n div 10 = n div 100 * 10 + n div 10 mod 10" "n div 100 = n div 1000 * 10 + n div 100 mod 10"
  for n :: int
proof -
  have "n div 10 = n div 10 div 10 * 10 + n div 10 mod 10" "n div 100 = n div 100 div 10 * 10 + n div 100 mod 10" by simp_all
  then show "n div 10 = n div 100 * 10 + n div 10 mod 10" "n div 100 = n div 1000 * 10 + n div 100 mod 10"
    by (simp_all add: div_mult2_eq [symmetric] zdiv_zmult2_eq [symmetric])
qed

lemma digits4_at_four:
  assumes "v ! p = four_digits n ! 0" "v ! (p + 1) = four_digits n ! 1" "v ! (p + 2) = four_digits n ! 2"
    "v ! (p + 3) = four_digits n ! 3" "p + 4 \<le> length v" "0 \<le> n" "n < 10000"
  shows "digits4_at v p f = f n"
proof -
  have sum4: "n div 1000 mod 10 * 1000 + n div 100 mod 10 * 100 + n div 10 mod 10 * 10 + n div 1 mod 10 = n"
  proof -
    have "n = n div 10 * 10 + n mod 10" by simp
    moreover have "n div 1000 < 10" using assms(7) by (simp add: int_div_less_iff)
    then have "n div 1000 mod 10 = n div 1000" using assms(6) by (intro mod_pos_pos_trivial) simp_all
    ultimately show ?thesis using div_mod_ten [of n] unfolding div_by_1 by linarith
  qed
  have char: "0 \<le> n div k mod 10" "n div k mod 10 < 10" for k by simp_all
  have "digits4_at v p f = f (n div 1000 mod 10 * 1000 + n div 100 mod 10 * 100 + n div 10 mod 10 * 10 + n div 1 mod 10)"
    unfolding digits4_at_def
    by (subst digit_at_char [OF _ _ char]; use assms(1-5) in \<open>simp add: four_digits_def del: div_by_1\<close>)+
  then show ?thesis unfolding sum4 .
qed

lemma time_month_name:
  assumes "1 \<le> m" "m \<le> 12" "months ! nat (m - 1) = [v ! p, v ! (p + 1), v ! (p + 2)]" "p + 3 \<le> length v"
  shows "time_month v p f = f (m - 1)"
proof -
  have "m \<in> {1, 2, 3, 4, 5, 6, 7, 8, 9, 10, 11, 12}" using assms(1,2) by (rule month_cases)
  then show ?thesis using assms(3,4)
    by (elim insertE emptyE) (simp_all add: months_def bytes_of_def time_month_def peek_def)
qed

lemma two_not_space: "0 \<le> n \<Longrightarrow> n < 100 \<Longrightarrow> (word_of_int (n div 10 + 48) :: byte) \<noteq> chr_space"
  using digit_char [of "n div 10"] two_value [of n] by (auto simp del: of_int_add)

lemma time_clock_text:
  assumes "clock_ok h mi s" "v = pre @ clock_text h mi s" "fmt \<noteq> fmt_isoc"
  shows "time_clock v fmt (length pre) year month day = http_time_value year month day h mi s"
proof -
  have len: "length v = length pre + 13" by (simp add: assms(2) clock_text_def bytes_of_def)
  have at: "v ! (length pre + k) = clock_text h mi s ! k" for k by (simp add: assms(2) nth_append)
  note chars = at [of 0] at [of 1] at [of 2] at [of 3] at [of 4] at [of 5] at [of 6] at [of 7] at [of 8]
  have "digits2_at v (length pre + 1) f = f h" "digits2_at v (length pre + 4) f = f mi" "digits2_at v (length pre + 7) f = f s" for f :: "int \<Rightarrow> int parsed"
    using assms(1) len chars
    by (auto intro!: digits2_at_two simp: clock_text_def two_digits_def clock_ok_def numeral_eq_Suc)
  then show ?thesis
    using assms(3) chars len
    by (simp add: time_clock_def expect_def peek_def clock_text_def two_digits_def)
qed

lemma parse_http_date:
  assumes "clock_ok h mi s" "0 \<le> wday" "wday < 7" "1 \<le> m" "m \<le> 12" "0 \<le> d" "d < 100" "0 \<le> y" "y < 10000"
  shows "ngx_parse_http_time (week ! nat wday @ bytes_of '', '' @ two_digits d @ chr_space # months ! nat (m - 1) @
      chr_space # four_digits y @ clock_text h mi s) = http_time_value y (m - 1) d h mi s"
proof -
  obtain a b c where w: "week ! nat wday = [a, b, c]" "a \<noteq> 0x2c" "b \<noteq> 0x2c" "c \<noteq> 0x2c"
    "a \<noteq> chr_space" "b \<noteq> chr_space" "c \<noteq> chr_space" using names(1) assms(2,3) by blast
  obtain a' b' c' where mo: "months ! nat (m - 1) = [a', b', c']" using names(2) assms(4,5) by blast
  let ?pre = "[a, b, c, 0x2c, chr_space] @ two_digits d @ [chr_space, a', b', c', chr_space] @ four_digits y"
  define v where "v = ?pre @ clock_text h mi s"
  have text_v: "week ! nat wday @ bytes_of '', '' @ two_digits d @ chr_space # months ! nat (m - 1) @
      chr_space # four_digits y @ clock_text h mi s = v" by (simp add: v_def w mo bytes_of_def)
  have len: "length v = 29" "length ?pre = 16" by (simp_all add: v_def clock_text_def bytes_of_def)
  have end_v: "time_day_end v 0 = (fmt_no, 3)"
    using w len(1) by (simp add: time_day_end.simps v_def)
  have skip: "time_skip_spaces v 4 = 5"
    using len(1) two_not_space [OF assms(6,7)] by (simp add: time_skip_spaces.simps v_def two_digits_def)
  have "digits2_at v 5 f = f d" for f :: "int \<Rightarrow> int parsed"
    using assms(6,7) len(1) by (intro digits2_at_two) (simp_all add: v_def two_digits_def)
  moreover have "time_month v 8 f = f (m - 1)" for f :: "int \<Rightarrow> int parsed"
    using assms(4,5) len(1) by (intro time_month_name) (simp_all add: mo v_def two_digits_def)
  moreover have "digits4_at v 12 f = f y" for f :: "int \<Rightarrow> int parsed"
    using assms(8,9) len(1) by (intro digits4_at_four) (simp_all add: v_def two_digits_def four_digits_def)
  moreover have "time_clock v fmt_rfc822 16 y (m - 1) d = http_time_value y (m - 1) d h mi s"
    using time_clock_text [OF assms(1) v_def] unfolding len(2) by simp
  moreover have "v ! 7 = chr_space" "v ! 11 = chr_space" by (simp_all add: v_def two_digits_def)
  ultimately show ?thesis unfolding text_v
    using end_v skip len(1)
    by (simp add: ngx_parse_http_time_def time_date_def time_year_def peek_def parse_if_def expect_def)
qed

lemma parse_cookie_date:
  assumes "clock_ok h mi s" "0 \<le> wday" "wday < 7" "1 \<le> m" "m \<le> 12" "0 \<le> d" "d < 100" "0 \<le> y" "y < 100"
  shows "ngx_parse_http_time (week ! nat wday @ bytes_of '', '' @ two_digits d @ chr_minus # months ! nat (m - 1) @
      chr_minus # two_digits y @ clock_text h mi s) =
    http_time_value (y + (if y < 70 then 2000 else 1900)) (m - 1) d h mi s"
proof -
  obtain a b c where w: "week ! nat wday = [a, b, c]" "a \<noteq> 0x2c" "b \<noteq> 0x2c" "c \<noteq> 0x2c"
    "a \<noteq> chr_space" "b \<noteq> chr_space" "c \<noteq> chr_space" using names(1) assms(2,3) by blast
  obtain a' b' c' where mo: "months ! nat (m - 1) = [a', b', c']" using names(2) assms(4,5) by blast
  let ?pre = "[a, b, c, 0x2c, chr_space] @ two_digits d @ [chr_minus, a', b', c', chr_minus] @ two_digits y"
  define v where "v = ?pre @ clock_text h mi s"
  have text_v: "week ! nat wday @ bytes_of '', '' @ two_digits d @ chr_minus # months ! nat (m - 1) @
      chr_minus # two_digits y @ clock_text h mi s = v" by (simp add: v_def w mo bytes_of_def)
  have len: "length v = 27" "length ?pre = 14" by (simp_all add: v_def clock_text_def bytes_of_def)
  have end_v: "time_day_end v 0 = (fmt_no, 3)"
    using w len(1) by (simp add: time_day_end.simps v_def)
  have skip: "time_skip_spaces v 4 = 5"
    using len(1) two_not_space [OF assms(6,7)] by (simp add: time_skip_spaces.simps v_def two_digits_def)
  have "digits2_at v 5 f = f d" "digits2_at v 12 f = f y" for f :: "int \<Rightarrow> int parsed"
    using assms(6-9) len(1) by (auto intro!: digits2_at_two simp: v_def two_digits_def)
  moreover have "time_month v 8 f = f (m - 1)" for f :: "int \<Rightarrow> int parsed"
    using assms(4,5) len(1) by (intro time_month_name) (simp_all add: mo v_def two_digits_def)
  moreover have "time_clock v fmt_rfc850 14 y' (m - 1) d = http_time_value y' (m - 1) d h mi s" for y'
    using time_clock_text [OF assms(1) v_def] unfolding len(2) by simp
  moreover have "v ! 7 = chr_minus" "v ! 11 = chr_minus" by (simp_all add: v_def two_digits_def)
  ultimately show ?thesis unfolding text_v
    using end_v skip len(1)
    by (simp add: ngx_parse_http_time_def time_date_def time_year_def peek_def parse_if_def expect_def)
qed

subsection \<open>The number of seconds\<close>

lemma gauss_years_mono: "y \<le> z \<Longrightarrow> gauss_years y \<le> gauss_years z"
proof (induction z rule: int_ge_induct)
  case (step z)
  then show ?case using gauss_years_Suc [of z] by (simp split: if_splits)
qed simp

lemma date_year_bounds:
  assumes "date_of_day n = (y, m, d)"
  shows "1970 \<le> y" "int n + 719468 < gauss_years z + 306 \<Longrightarrow> y \<le> z"
proof -
  have ok: "date_ok (y, m, d)" using date_of_day_ok [of n] assms by simp
  note row = gauss_row [OF ok]
  let ?y = "if m \<le> 2 then y - 1 else y" and ?yday = "gauss_yday (if m \<le> 2 then m + 10 else m - 2) d"
  have g: "gauss_years ?y + ?yday = int n + 719468"
    using gauss_date_of_day [of n] assms by (cases "m \<le> 2") (simp_all add: gauss_yday_def)
  have yday: "0 \<le> ?yday" "?yday \<le> 365" "306 \<le> ?yday \<longleftrightarrow> m \<le> 2" by (rule row(1), rule row(2), rule row(4))
  show "1970 \<le> y"
  proof (rule ccontr)
    assume "\<not> 1970 \<le> y"
    then have "gauss_years ?y \<le> gauss_years (if m \<le> 2 then 1968 else 1969)" by (intro gauss_years_mono) simp
    with g yday show False by (simp add: gauss_years_def split: if_splits)
  qed
  assume n: "int n + 719468 < gauss_years z + 306"
  show "y \<le> z"
  proof (rule ccontr)
    assume "\<not> y \<le> z"
    then have "gauss_years (if m \<le> 2 then z else z + 1) \<le> gauss_years ?y" by (intro gauss_years_mono) simp
    moreover have "gauss_years z + 365 \<le> gauss_years (z + 1)" using gauss_years_Suc [of z] by simp
    ultimately show False using g yday n by (simp split: if_splits)
  qed
qed

lemma and_3: "y AND 3 = y mod (4 :: int)"
proof -
  have "(3 :: int) = mask 2" by (simp add: mask_eq_exp_minus_1)
  then show ?thesis by (simp only: take_bit_eq_mask [symmetric] take_bit_eq_mod) simp
qed

lemma http_time_value_date:
  assumes "date_of_day n = (y, m, d)" "n \<le> 2932896" "clock_ok h mi s"
  shows "http_time_value y (m - 1) d h mi s = Parsed (int n * 86400 + h * 3600 + mi * 60 + s)"
proof -
  have ok: "date_ok (y, m, d)" using date_of_day_ok [of n] assms(1) by simp
  have y: "1970 \<le> y" "y \<le> 9999"
    using date_year_bounds(1) [OF assms(1)] date_year_bounds(2) [OF assms(1), of 9999] assms(2) by (simp_all add: gauss_years_def)
  have leap: "y AND 3 \<noteq> 0 \<or> (y mod 100 = 0 \<and> y mod 400 \<noteq> 0) \<longleftrightarrow> \<not> leap_year y"
    unfolding and_3 leap_year_def dvd_eq_mod_eq_0
    by (cases "y mod 4 = 0"; cases "y mod 100 = 0"; cases "y mod 400 = 0"; simp only: simp_thms)
  have "m \<in> {1, 2, 3, 4, 5, 6, 7, 8, 9, 10, 11, 12}" using ok month_cases by simp
  then have "(d = 29 \<and> m - 1 = 1 \<longrightarrow> leap_year y) \<and> (d = 29 \<and> m - 1 = 1 \<or> d \<le> mday ! nat (m - 1))"
    using ok by (elim insertE emptyE) (auto simp: month_days_def mday_def split: if_splits)
  then have day: "\<not> (d = 29 \<and> m - 1 = 1 \<and> (y AND 3 \<noteq> 0 \<or> (y mod 100 = 0 \<and> y mod 400 \<noteq> 0)))"
    "\<not> (\<not> (d = 29 \<and> m - 1 = 1) \<and> mday ! nat (m - 1) < d)"
    unfolding leap by auto
  let ?m = "if m \<le> 2 then m + 10 else m - 2" and ?y = "if m \<le> 2 then y - 1 else y"
  have g: "365 * ?y + ?y div 4 - ?y div 100 + ?y div 400 + 367 * ?m div 12 - 30 + d - 1 - 719527 + 31 + 28 = int n"
    using gauss_date_of_day [of n] assms(1) by (cases "m \<le> 2") (simp_all add: gauss_years_def)
  let ?t = "int n * 86400 + h * 3600 + mi * 60 + s"
  have clock: "\<not> (23 < h \<or> 59 < mi \<or> 59 < s)" using assms(3) by (auto simp: clock_ok_def)
  have shift: "(if m - 1 - 1 \<le> 0 then (m - 1 - 1 + 12, (y - 1) mod 2 ^ 64) else (m - 1 - 1, y)) = (?m, ?y)"
    using y by simp
  have t: "0 \<le> ?t" "?t \<le> 9223372036854775807" using assms(2,3) by (simp_all add: clock_ok_def)
  then have "?t mod 2 ^ 64 = ?t" by (intro mod_pos_pos_trivial) simp_all
  with t show ?thesis
    unfolding http_time_value_def if_not_P [OF clock] if_not_P [OF day(1)] if_not_P [OF day(2)] shift Let_def prod.case g by simp
qed

subsection \<open>Properties\<close>

lemma ngx_gmtime_cases:
  assumes "0 \<le> t" "t \<le> 253402300799"
  obtains h mi s m d y wday n where
    "ngx_gmtime t = \<lparr>tm_sec = s, tm_min = mi, tm_hour = h, tm_mday = d, tm_mon = m, tm_year = y, tm_wday = wday\<rparr>"
    "date_of_day n = (y, m, d)" "clock_ok h mi s" "0 \<le> wday" "wday < 7"
    "int n * 86400 + h * 3600 + mi * 60 + s = t" "n \<le> 2932896" "1 \<le> m" "m \<le> 12" "0 \<le> d" "d < 100"
proof -
  obtain y m d where date: "date_of_day (nat (t div 86400)) = (y, m, d)" by (cases "date_of_day (nat (t div 86400))")
  have days: "0 \<le> t div 86400" "t div 86400 \<le> 2932896" using assms by linarith+
  define sec where "sec = t mod 86400"
  have sec: "0 \<le> sec" "sec < 86400" "t div 86400 * 86400 + sec = t" by (simp_all add: sec_def)
  have t: "max t 0 = t" using assms(1) by (rule max_absorb1)
  have "t div 86400 = min (max t 0 div 86400) 2932896" unfolding t using days(2) by (rule min_absorb1 [symmetric])
  moreover have "\<not> 2932896 < t div 86400" using days(2) by (rule leD)
  then have "sec = (if 2932896 < max t 0 div 86400 then 86399 else max t 0 mod 86400)"
    unfolding t sec_def by (rule if_not_P [symmetric])
  ultimately have tm: "ngx_gmtime t = \<lparr>tm_sec = sec mod 3600 mod 60, tm_min = sec mod 3600 div 60, tm_hour = sec div 3600,
      tm_mday = d, tm_mon = m, tm_year = y, tm_wday = (4 + t div 86400) mod 7\<rparr>"
    using date by (rule gmtime_eq)
  have clock: "clock_ok (sec div 3600) (sec mod 3600 div 60) (sec mod 3600 mod 60)"
    using gmtime_clock(2-) [OF sec(1,2)] by (simp only: clock_ok_def simp_thms)
  have n: "int (nat (t div 86400)) = t div 86400" using days(1) by (rule int_nat_eq [THEN trans, OF if_P])
  have sum_t: "int (nat (t div 86400)) * 86400 + sec div 3600 * 3600 + sec mod 3600 div 60 * 60 + sec mod 3600 mod 60 = t"
    unfolding n using gmtime_clock(1) [OF sec(1,2)] sec(3) by linarith
  have "nat (t div 86400) \<le> 2932896" using days(2) n by linarith
  moreover have "1 \<le> m" "m \<le> 12" "0 \<le> d" "d < 100"
    using date_of_day_ok [of "nat (t div 86400)"] unfolding date by (auto simp: month_days_def split: if_splits)
  moreover have "0 \<le> (4 + t div 86400) mod 7" "(4 + t div 86400) mod 7 < 7" by simp_all
  ultimately show thesis using that [OF tm date clock _ _ sum_t] by blast
qed

text \<open>
  C10. The text that \<^verbatim>\<open>ngx_http_time\<close> writes of a time up to the end of the year 9999 takes 29 bytes and is read back
  as that time.
\<close>

theorem http_time_roundtrip:
  assumes "0 \<le> t" "t \<le> 253402300799" "29 \<le> unat (- 1 - buf)"
  shows "\<exists>s. ngx_http_time buf t = Inr s \<and> length s = 29 \<and> ngx_parse_http_time s = Parsed t"
proof -
  obtain h mi s m d y wday n where tm:
    "ngx_gmtime t = \<lparr>tm_sec = s, tm_min = mi, tm_hour = h, tm_mday = d, tm_mon = m, tm_year = y, tm_wday = wday\<rparr>"
    "date_of_day n = (y, m, d)" "clock_ok h mi s" "0 \<le> wday" "wday < 7"
    "int n * 86400 + h * 3600 + mi * 60 + s = t" "n \<le> 2932896" and md: "1 \<le> m" "m \<le> 12" "0 \<le> d" "d < 100"
    by (rule ngx_gmtime_cases [OF assms(1,2)])
  have y: "1970 \<le> y" "y \<le> 9999"
    using date_year_bounds(1) [OF tm(2)] date_year_bounds(2) [OF tm(2), of 9999] tm(7) by (simp_all add: gauss_years_def)
  let ?text = "week ! nat wday @ bytes_of '', '' @ two_digits d @ chr_space # months ! nat (m - 1) @
      chr_space # four_digits y @ clock_text h mi s"
  have "ngx_http_time buf t = Inr ?text"
    using http_date_format [OF tm(3-5) md _ _ assms(3), of y] y
    unfolding ngx_http_time_def Let_def ngx_sprintf_def tm(1) ngx_tm.simps by simp
  moreover have "length ?text = 29"
    using names(1) [OF tm(4,5)] names(2) [OF md(1,2)] by (auto simp: clock_text_def bytes_of_def)
  moreover have "ngx_parse_http_time ?text = Parsed t"
    using parse_http_date [OF tm(3-5) md, of y] http_time_value_date [OF tm(2,7,3)] y tm(6) by simp
  ultimately show ?thesis by blast
qed

theorem http_time_roundtrip_witness:
  "\<exists>s. ngx_http_time 0x1000 784111777 = Inr s \<and> length s = 29 \<and> ngx_parse_http_time s = Parsed 784111777"
  using http_time_roundtrip [of 784111777 "0x1000"] by simp

text \<open>
  The text of a cookie is read back as its time as long as its year has two digits, until the end of 2037.
\<close>

theorem http_cookie_time_roundtrip:
  assumes "0 \<le> t" "t < 2145916800" "29 \<le> unat (- 1 - buf)"
  shows "\<exists>s. ngx_http_cookie_time buf t = Inr s \<and> ngx_parse_http_time s = Parsed t"
proof -
  have "t \<le> 253402300799" using assms(2) by simp
  then obtain h mi s m d y wday n where tm:
    "ngx_gmtime t = \<lparr>tm_sec = s, tm_min = mi, tm_hour = h, tm_mday = d, tm_mon = m, tm_year = y, tm_wday = wday\<rparr>"
    "date_of_day n = (y, m, d)" "clock_ok h mi s" "0 \<le> wday" "wday < 7"
    "int n * 86400 + h * 3600 + mi * 60 + s = t" "n \<le> 2932896" and md: "1 \<le> m" "m \<le> 12" "0 \<le> d" "d < 100"
    by (rule ngx_gmtime_cases [OF assms(1)])
  have n: "int n \<le> 24836" using assms(1,2) tm(3,6) unfolding clock_ok_def by linarith
  have y: "1970 \<le> y" "y \<le> 2037"
    using date_year_bounds(1) [OF tm(2)] date_year_bounds(2) [OF tm(2), of 2037] n by (simp_all add: gauss_years_def)
  have y2: "0 \<le> y mod 100" "y mod 100 < 100" by simp_all
  have full: "y mod 100 + (if y mod 100 < 70 then 2000 else 1900) = y"
  proof (cases "y < 2000")
    case True
    with y have "y mod 100 = y - 1900" using int_mod_pos_eq [of y 100 19 "y - 1900"] by simp
    with y True show ?thesis by simp
  next
    case False
    with y have "y mod 100 = y - 2000" using int_mod_pos_eq [of y 100 20 "y - 2000"] by simp
    with y False show ?thesis by simp
  qed
  let ?text = "week ! nat wday @ bytes_of '', '' @ two_digits d @ chr_minus # months ! nat (m - 1) @
      chr_minus # two_digits (y mod 100) @ clock_text h mi s"
  have "\<not> 2037 < y" using y(2) by simp
  then have "ngx_http_cookie_time buf t = Inr ?text"
    using cookie_date_format [OF tm(3-5) md y2 assms(3)]
    unfolding ngx_http_cookie_time_def Let_def ngx_sprintf_def tm(1) ngx_tm.simps by (simp only: if_False)
  moreover have "ngx_parse_http_time ?text = Parsed t"
    using parse_cookie_date [OF tm(3-5) md y2] http_time_value_date [OF tm(2,7,3)] tm(6) unfolding full by simp
  ultimately show ?thesis by blast
qed

theorem http_cookie_time_roundtrip_witness:
  "\<exists>s. ngx_http_cookie_time 0x1000 784111777 = Inr s \<and> ngx_parse_http_time s = Parsed 784111777"
  using http_cookie_time_roundtrip [of 784111777 "0x1000"] by simp

end
