(* ===== verification/Ngx_Queue.thy ===== *)
theory Ngx_Queue
  imports Prelude "HOL-Library.Multiset"
begin

section \<open>Queues\<close>

text \<open>
  The queues of \<^verbatim>\<open>src/core/ngx_queue.h\<close> and \<^verbatim>\<open>ngx_queue.c\<close>: rings of nodes with a sentinel that are linked in both
  directions, changed in place. A store gives every node its two links; \<open>queue s h xs\<close> says that in the store
  \<open>s\<close> the nodes \<open>xs\<close> hang, in this order, on the sentinel \<open>h\<close>. The loops over a ring, which would not end in a
  store that is not one, are partial functions.
\<close>

type_synonym addr = nat

record qmem =
  q_prev :: "addr \<Rightarrow> addr"
  q_next :: "addr \<Rightarrow> addr"

definition set_prev :: "addr \<Rightarrow> addr \<Rightarrow> qmem \<Rightarrow> qmem" where
  "set_prev x y s = s\<lparr>q_prev := (q_prev s)(x := y)\<rparr>"

definition set_next :: "addr \<Rightarrow> addr \<Rightarrow> qmem \<Rightarrow> qmem" where
  "set_next x y s = s\<lparr>q_next := (q_next s)(x := y)\<rparr>"

subsection \<open>The macros\<close>

definition ngx_queue_init :: "addr \<Rightarrow> qmem \<Rightarrow> qmem" where
  "ngx_queue_init q s = set_next q q (set_prev q q s)"

definition ngx_queue_empty :: "addr \<Rightarrow> qmem \<Rightarrow> bool" where
  "ngx_queue_empty h s \<longleftrightarrow> h = q_prev s h"

definition ngx_queue_insert_head :: "addr \<Rightarrow> addr \<Rightarrow> qmem \<Rightarrow> qmem" where
  "ngx_queue_insert_head h x s =
     (let s = set_next x (q_next s h) s;
          s = set_prev (q_next s x) x s;
          s = set_prev x h s
      in set_next h x s)"

abbreviation ngx_queue_insert_after :: "addr \<Rightarrow> addr \<Rightarrow> qmem \<Rightarrow> qmem" where
  "ngx_queue_insert_after \<equiv> ngx_queue_insert_head"

definition ngx_queue_insert_tail :: "addr \<Rightarrow> addr \<Rightarrow> qmem \<Rightarrow> qmem" where
  "ngx_queue_insert_tail h x s =
     (let s = set_prev x (q_prev s h) s;
          s = set_next (q_prev s x) x s;
          s = set_next x h s
      in set_prev h x s)"

definition ngx_queue_head :: "addr \<Rightarrow> qmem \<Rightarrow> addr" where "ngx_queue_head h s = q_next s h"
definition ngx_queue_last :: "addr \<Rightarrow> qmem \<Rightarrow> addr" where "ngx_queue_last h s = q_prev s h"
definition ngx_queue_next :: "addr \<Rightarrow> qmem \<Rightarrow> addr" where "ngx_queue_next q s = q_next s q"
definition ngx_queue_prev :: "addr \<Rightarrow> qmem \<Rightarrow> addr" where "ngx_queue_prev q s = q_prev s q"

definition ngx_queue_remove :: "addr \<Rightarrow> qmem \<Rightarrow> qmem" where
  "ngx_queue_remove x s =
     (let s = set_prev (q_next s x) (q_prev s x) s
      in set_next (q_prev s x) (q_next s x) s)"

definition ngx_queue_split :: "addr \<Rightarrow> addr \<Rightarrow> addr \<Rightarrow> qmem \<Rightarrow> qmem" where
  "ngx_queue_split h q n s =
     (let s = set_prev n (q_prev s h) s;
          s = set_next (q_prev s n) n s;
          s = set_next n q s;
          s = set_prev h (q_prev s q) s;
          s = set_next (q_prev s h) h s
      in set_prev q n s)"

definition ngx_queue_add :: "addr \<Rightarrow> addr \<Rightarrow> qmem \<Rightarrow> qmem" where
  "ngx_queue_add h n s =
     (let s = set_next (q_prev s h) (q_next s n) s;
          s = set_prev (q_next s n) (q_prev s h) s;
          s = set_prev h (q_prev s n) s
      in set_next (q_prev s h) h s)"

subsection \<open>The functions\<close>

partial_function (option) queue_middle_loop :: "qmem \<Rightarrow> addr \<Rightarrow> addr \<Rightarrow> addr \<Rightarrow> addr option" where
  "queue_middle_loop s queue middle next =
     (let middle = ngx_queue_next middle s;
          next = ngx_queue_next next s
      in if next = ngx_queue_last queue s then Some middle
         else let next = ngx_queue_next next s
              in if next = ngx_queue_last queue s then Some middle
                 else queue_middle_loop s queue middle next)"

definition ngx_queue_middle :: "addr \<Rightarrow> qmem \<Rightarrow> addr option" where
  "ngx_queue_middle queue s =
     (let middle = ngx_queue_head queue s
      in if middle = ngx_queue_last queue s then Some middle
         else queue_middle_loop s queue middle (ngx_queue_head queue s))"

text \<open>The place of an element, found from the end of the sorted part on, and the loop over the elements.\<close>

partial_function (option) queue_sort_place ::
    "(addr \<Rightarrow> addr \<Rightarrow> int) \<Rightarrow> qmem \<Rightarrow> addr \<Rightarrow> addr \<Rightarrow> addr \<Rightarrow> addr option" where
  "queue_sort_place cmp s queue q prev =
     (if cmp prev q \<le> 0 then Some prev
      else let prev = ngx_queue_prev prev s
           in if prev = queue then Some prev else queue_sort_place cmp s queue q prev)"

partial_function (option) queue_sort_loop :: "(addr \<Rightarrow> addr \<Rightarrow> int) \<Rightarrow> addr \<Rightarrow> addr \<Rightarrow> qmem \<Rightarrow> qmem option" where
  "queue_sort_loop cmp queue q s =
     (if q = queue then Some s
      else let prev = ngx_queue_prev q s;
               next = ngx_queue_next q s;
               s = ngx_queue_remove q s
           in Option.bind (queue_sort_place cmp s queue q prev) (\<lambda>prev.
                queue_sort_loop cmp queue next (ngx_queue_insert_after prev q s)))"

definition ngx_queue_sort :: "(addr \<Rightarrow> addr \<Rightarrow> int) \<Rightarrow> addr \<Rightarrow> qmem \<Rightarrow> qmem option" where
  "ngx_queue_sort cmp queue s =
     (let q = ngx_queue_head queue s
      in if q = ngx_queue_last queue s then Some s
         else queue_sort_loop cmp queue (ngx_queue_next q s) s)"

subsection \<open>Rings\<close>

text \<open>Nodes that are linked one to the next, and the ring of a sentinel and its nodes.\<close>

fun chain :: "qmem \<Rightarrow> addr list \<Rightarrow> bool" where
  "chain s (a # b # zs) \<longleftrightarrow> q_next s a = b \<and> q_prev s b = a \<and> chain s (b # zs)"
| "chain s zs \<longleftrightarrow> True"

definition queue :: "qmem \<Rightarrow> addr \<Rightarrow> addr list \<Rightarrow> bool" where
  "queue s h xs \<longleftrightarrow> distinct (h # xs) \<and> chain s (h # xs @ [h])"

lemma links [simp]:
  "q_next (set_next x y s) z = (if z = x then y else q_next s z)" "q_prev (set_next x y s) z = q_prev s z"
  "q_prev (set_prev x y s) z = (if z = x then y else q_prev s z)" "q_next (set_prev x y s) z = q_next s z"
  by (simp_all add: set_next_def set_prev_def)

lemma chain_append:
  "xs \<noteq> [] \<Longrightarrow> ys \<noteq> [] \<Longrightarrow> chain s (xs @ ys) \<longleftrightarrow>
     chain s xs \<and> q_next s (last xs) = hd ys \<and> q_prev s (hd ys) = last xs \<and> chain s ys"
  by (induction s xs rule: chain.induct) (cases ys; auto)+

lemma chain_frame:
  "chain s zs \<Longrightarrow> (\<And>z. z \<in> set (butlast zs) \<Longrightarrow> q_next s' z = q_next s z) \<Longrightarrow>
    (\<And>z. z \<in> set (tl zs) \<Longrightarrow> q_prev s' z = q_prev s z) \<Longrightarrow> chain s' zs"
  by (induction s zs rule: chain.induct) auto

lemma queue_parts:
  "queue s h (xs @ ys) \<longleftrightarrow> distinct (h # xs @ ys) \<and> chain s (h # xs) \<and> chain s (ys @ [h]) \<and>
     q_next s (last (h # xs)) = hd (ys @ [h]) \<and> q_prev s (hd (ys @ [h])) = last (h # xs)"
  using chain_append [of "h # xs" "ys @ [h]" s] by (auto simp: queue_def)

lemma chain_Cons:
  "zs \<noteq> [] \<Longrightarrow> chain s (x # zs) \<longleftrightarrow> q_next s x = hd zs \<and> q_prev s (hd zs) = x \<and> chain s zs"
  by (cases zs) auto

lemma butlast_not_last: "distinct zs \<Longrightarrow> z \<in> set (butlast zs) \<Longrightarrow> z \<noteq> last zs"
  by (cases zs rule: rev_cases) auto

lemma tl_not_hd: "distinct zs \<Longrightarrow> z \<in> set (tl zs) \<Longrightarrow> z \<noteq> hd zs"
  by (cases zs) auto

lemma queue_ends: "queue s h xs \<Longrightarrow> q_next s h = hd (xs @ [h])" "queue s h xs \<Longrightarrow> q_prev s h = last (h # xs)"
  using queue_parts [of s h "[]" xs] queue_parts [of s h xs "[]"] by auto

text \<open>Every node of a ring is followed and preceded by its neighbours.\<close>

lemma queue_node:
  assumes "queue s h (xs @ x # ys)"
  shows "q_prev s x = last (h # xs)" "q_next s x = hd (ys @ [h])" "x \<noteq> h"
  using assms chain_Cons [of "ys @ [h]" s x] by (auto simp: queue_parts)

text \<open>A change of the links of other nodes leaves a ring as it is.\<close>

lemma queue_frame:
  assumes "queue s h xs" "\<And>z. z \<in> set (h # xs) \<Longrightarrow> q_next s' z = q_next s z \<and> q_prev s' z = q_prev s z"
  shows "queue s' h xs"
proof -
  have "chain s (h # xs @ [h])" using assms(1) by (simp add: queue_def)
  then have "chain s' (h # xs @ [h])"
    by (rule chain_frame) (use assms(2) in \<open>auto simp: butlast_append split: if_splits\<close>)
  with assms(1) show ?thesis by (simp add: queue_def)
qed

subsection \<open>The macros on rings\<close>

lemma queue_init: "queue (ngx_queue_init h s) h []"
  by (simp add: queue_def ngx_queue_init_def)

lemma queue_empty_iff: "queue s h xs \<Longrightarrow> ngx_queue_empty h s \<longleftrightarrow> xs = []"
  using queue_ends(2) [of s h xs] by (cases xs rule: rev_cases) (auto simp: ngx_queue_empty_def queue_def)

text \<open>The two parts of a ring, left and right of a gap, in a store that differs only at the gap.\<close>

lemma ring_pieces:
  assumes "distinct (h # xs @ ys)" "chain s (h # xs)" "chain s (ys @ [h])"
    and "\<And>z. z \<in> set (h # xs @ ys) \<Longrightarrow> z \<noteq> last (h # xs) \<Longrightarrow> q_next s' z = q_next s z"
    and "\<And>z. z \<in> set (h # xs @ ys) \<Longrightarrow> z \<noteq> hd (ys @ [h]) \<Longrightarrow> q_prev s' z = q_prev s z"
  shows "chain s' (h # xs)" "chain s' (ys @ [h])"
proof -
  have d: "distinct (h # xs)" "distinct (ys @ [h])" using assms(1) by auto
  show "chain s' (h # xs)"
  proof (rule chain_frame [OF assms(2)])
    fix z assume z: "z \<in> set (butlast (h # xs))"
    from in_set_butlastD [OF z] butlast_not_last [OF d(1) z] show "q_next s' z = q_next s z" by (intro assms(4)) auto
  next
    fix z assume "z \<in> set (tl (h # xs))"
    moreover from this have "z \<noteq> hd (ys @ [h])" using assms(1) by (cases ys) auto
    ultimately show "q_prev s' z = q_prev s z" using assms(5) by simp
  qed
  show "chain s' (ys @ [h])"
  proof (rule chain_frame [OF assms(3)])
    fix z assume "z \<in> set (butlast (ys @ [h]))"
    moreover from this have "z \<noteq> last (h # xs)" using assms(1) last_in_set [of "h # xs"] by auto
    ultimately show "q_next s' z = q_next s z" using assms(4) by simp
  next
    fix z assume "z \<in> set (tl (ys @ [h]))"
    with tl_not_hd [OF d(2)] assms(5) show "q_prev s' z = q_prev s z" by (cases ys) auto
  qed
qed

lemma queue_joinI:
  assumes "distinct (h # xs @ ys)" "chain s (h # xs)" "chain s (ys @ [h])"
    and "q_next s' (last (h # xs)) = hd (ys @ [h])" "q_prev s' (hd (ys @ [h])) = last (h # xs)"
    and "\<And>z. z \<in> set (h # xs @ ys) \<Longrightarrow> z \<noteq> last (h # xs) \<Longrightarrow> q_next s' z = q_next s z"
    and "\<And>z. z \<in> set (h # xs @ ys) \<Longrightarrow> z \<noteq> hd (ys @ [h]) \<Longrightarrow> q_prev s' z = q_prev s z"
  shows "queue s' h (xs @ ys)"
  using assms(1,4,5) ring_pieces [of h xs ys s s', OF assms(1-3,6,7)] by (simp add: queue_parts)

lemma gap_nodes: "last (h # xs) \<in> set (h # xs)" "hd (ys @ [h]) \<in> set (ys @ [h])"
  using last_in_set [of "h # xs"] by (auto simp: hd_append)

lemma queue_insert_after:
  assumes "queue s h (xs @ ys)" "x \<notin> set (h # xs @ ys)"
  shows "queue (ngx_queue_insert_after (last (h # xs)) x s) h (xs @ x # ys)"
proof -
  let ?p = "last (h # xs)" and ?n = "hd (ys @ [h])"
  let ?s = "ngx_queue_insert_after ?p x s"
  have parts: "distinct (h # xs @ ys)" "chain s (h # xs)" "chain s (ys @ [h])" "q_next s ?p = ?n"
    using assms(1) by (simp_all only: queue_parts)
  have x: "?p \<noteq> x" "?n \<noteq> x" using gap_nodes(1) [of h xs] gap_nodes(2) [of ys h] assms(2) by auto
  have links: "q_next ?s x = ?n" "q_prev ?s ?n = x" "q_prev ?s x = ?p" "q_next ?s ?p = x"
    "z \<noteq> x \<Longrightarrow> z \<noteq> ?p \<Longrightarrow> q_next ?s z = q_next s z" "z \<noteq> x \<Longrightarrow> z \<noteq> ?n \<Longrightarrow> q_prev ?s z = q_prev s z" for z
    using x by (simp_all add: ngx_queue_insert_head_def Let_def parts(4) del: last.simps)
  have agree: "q_next ?s z = q_next s z" if "z \<in> set (h # xs @ ys)" "z \<noteq> ?p" for z
    using that assms(2) by (intro links(5)) auto
  have agree': "q_prev ?s z = q_prev s z" if "z \<in> set (h # xs @ ys)" "z \<noteq> ?n" for z
    using that assms(2) by (intro links(6)) auto
  note ring_pieces [OF parts(1-3) agree agree']
  moreover have "distinct (h # xs @ x # ys)" using parts(1) assms(2) by auto
  ultimately show ?thesis
    using links(1-4) unfolding queue_parts [of _ h xs "x # ys"] append_Cons list.sel(1)
    by (simp add: chain_Cons del: last.simps)
qed

lemma queue_insert_head: "queue s h xs \<Longrightarrow> x \<notin> set (h # xs) \<Longrightarrow> queue (ngx_queue_insert_head h x s) h (x # xs)"
  using queue_insert_after [of s h "[]" xs x] by simp

lemma queue_insert_tail:
  assumes "queue s h xs" "x \<notin> set (h # xs)"
  shows "queue (ngx_queue_insert_tail h x s) h (xs @ [x])"
proof -
  have l: "last (h # xs) \<noteq> x" using last_in_set [of "h # xs"] assms(2) by auto
  have "ngx_queue_insert_tail h x s = ngx_queue_insert_after (last (h # xs)) x s"
  proof -
    have "q_next s (last (h # xs)) = h" "q_prev s h = last (h # xs)" "x \<noteq> h"
      using queue_parts [of s h xs "[]"] assms by auto
    with l show ?thesis
      by (auto simp: ngx_queue_insert_tail_def ngx_queue_insert_head_def Let_def set_next_def set_prev_def fun_eq_iff)
  qed
  then show ?thesis using queue_insert_after [of s h xs "[]" x] assms by simp
qed

lemma queue_remove:
  assumes "queue s h (xs @ x # ys)"
  shows "queue (ngx_queue_remove x s) h (xs @ ys)"
proof (rule queue_joinI)
  note node = queue_node [OF assms]
  have parts: "distinct (h # xs @ x # ys)" "chain s (h # xs)" "chain s (x # ys @ [h])"
    using assms by (simp_all add: queue_parts)
  show "distinct (h # xs @ ys)" "chain s (h # xs)" "chain s (ys @ [h])"
    using parts chain_Cons [of "ys @ [h]" s x] by auto
  have x: "hd (ys @ [h]) \<noteq> x" "last (h # xs) \<noteq> x" using parts(1) last_in_set [of "h # xs"] by (cases ys; auto)+
  then show "q_next (ngx_queue_remove x s) (last (h # xs)) = hd (ys @ [h])"
    "q_prev (ngx_queue_remove x s) (hd (ys @ [h])) = last (h # xs)"
    by (simp_all add: ngx_queue_remove_def node(1,2) Let_def)
  show "q_next (ngx_queue_remove x s) z = q_next s z" if "z \<noteq> last (h # xs)" for z
    using that x by (simp add: ngx_queue_remove_def node Let_def)
  show "q_prev (ngx_queue_remove x s) z = q_prev s z" if "z \<noteq> hd (ys @ [h])" for z
    using that x by (simp add: ngx_queue_remove_def node Let_def)
qed

text \<open>Splitting a ring before a node, and joining two rings.\<close>

lemma queue_split:
  assumes "queue s h (xs @ q # ys)" "n \<notin> set (h # xs @ q # ys)"
  shows "queue (ngx_queue_split h q n s) h xs" "queue (ngx_queue_split h q n s) n (q # ys)"
proof -
  let ?s = "ngx_queue_split h q n s" and ?p = "last (h # xs)" and ?l = "last (q # ys)"
  have parts: "distinct (h # xs @ q # ys)" "chain s (h # xs)" "chain s (q # ys @ [h])" "q_prev s q = ?p"
    using assms(1) by (simp_all only: queue_parts append_Cons list.sel(1))
  have h: "q_prev s h = ?l" using queue_ends(2) [OF assms(1)] by simp
  have p: "?p \<in> set (h # xs)" "?l \<in> set (q # ys)" by (rule gap_nodes(1))+
  then have d: "?p \<noteq> ?l" "?p \<noteq> n" "?l \<noteq> n" "?l \<noteq> h" "q \<noteq> h" "q \<noteq> n" "h \<noteq> n" "?p \<noteq> q"
    using parts(1) assms(2) by auto
  have links: "q_next ?s ?l = n" "q_prev ?s n = ?l" "q_next ?s n = q" "q_prev ?s q = n" "q_next ?s ?p = h" "q_prev ?s h = ?p"
    "z \<notin> {?l, n, ?p} \<Longrightarrow> q_next ?s z = q_next s z" "z \<notin> {n, q, h} \<Longrightarrow> q_prev ?s z = q_prev s z" for z
    using d by (auto simp: ngx_queue_split_def Let_def h parts(4) simp del: last.simps)
  show "queue ?s h xs"
  proof (rule queue_joinI [of h xs "[]" s, simplified append_Nil2])
    show "distinct (h # xs)" "chain s (h # xs)" "chain s ([] @ [h])" using parts by auto
    show "q_next ?s ?p = hd ([] @ [h])" "q_prev ?s (hd ([] @ [h])) = ?p" using links by simp_all
    fix z assume z: "z \<in> set (h # xs)"
    then have "z \<noteq> ?l" "z \<noteq> n" "z \<noteq> q" using parts(1) assms(2) p(2) by auto
    with links(7,8) show "z \<noteq> ?p \<Longrightarrow> q_next ?s z = q_next s z" "z \<noteq> hd ([] @ [h]) \<Longrightarrow> q_prev ?s z = q_prev s z"
      by simp_all
  qed
  have "chain ?s (q # ys)"
  proof (rule chain_frame)
    show "chain s (q # ys)" using parts(3) chain_append [of "q # ys" "[h]" s] by simp
    fix z assume z: "z \<in> set (butlast (q # ys))"
    then have "z \<noteq> ?l" using butlast_not_last [of "q # ys"] parts(1) by auto
    moreover have "z \<noteq> n" "z \<noteq> ?p" using in_set_butlastD [OF z] p(1) parts(1) assms(2) by auto
    ultimately show "q_next ?s z = q_next s z" using links(7) by simp
  next
    fix z assume "z \<in> set (tl (q # ys))"
    then have "z \<noteq> n" "z \<noteq> q" "z \<noteq> h" using parts(1) assms(2) by auto
    then show "q_prev ?s z = q_prev s z" using links(8) by simp
  qed
  then show "queue ?s n (q # ys)"
    unfolding queue_parts [of _ n "q # ys" "[]", simplified append_Nil2]
    using parts(1) assms(2) links by (simp add: chain_Cons del: last.simps) (simp add: links(1,2) last_ConsR)
qed

lemma queue_chain: "queue s h xs \<Longrightarrow> chain s xs"
  by (cases xs) (auto simp: queue_def chain_append [of "_ # _" "[h]", simplified])

lemma queue_add:
  assumes "queue s h xs" "queue s n ys" "set (h # xs) \<inter> set (n # ys) = {}"
  shows "queue (ngx_queue_add h n s) h (xs @ ys)"
proof -
  let ?s = "ngx_queue_add h n s" and ?p = "last (h # xs)"
  have ends: "q_prev s h = ?p" "q_next s n = hd (ys @ [n])" "q_prev s n = last (n # ys)"
    using queue_ends assms(1,2) by auto
  have p: "?p \<in> set (h # xs)" by (rule gap_nodes(1))
  show ?thesis
  proof (cases "ys = []")
    case True
    have "q_next s ?p = h" using assms(1) queue_parts [of s h xs "[]"] by simp
    with True ends p assms(3) have "q_next ?s z = q_next s z \<and> q_prev ?s z = q_prev s z" if "z \<in> set (h # xs)" for z
      using that by (auto simp: ngx_queue_add_def Let_def simp del: last.simps)
    with queue_frame [OF assms(1)] True show ?thesis by simp
  next
    case False
    let ?a = "hd ys" and ?l = "last ys"
    have ys: "?a \<in> set ys" "?l \<in> set ys" "hd (ys @ [n]) = ?a" "last (n # ys) = ?l" using False by simp_all
    then have d: "?p \<noteq> n" "?p \<noteq> ?l" "?a \<noteq> h" "?a \<noteq> n" "?l \<noteq> n" "h \<noteq> n"
      using assms(2,3) p by (auto simp: queue_def)
    have links: "q_next ?s ?p = ?a" "q_prev ?s ?a = ?p" "q_prev ?s h = ?l" "q_next ?s ?l = h"
      "z \<notin> {?p, ?l} \<Longrightarrow> q_next ?s z = q_next s z" "z \<notin> {?a, h} \<Longrightarrow> q_prev ?s z = q_prev s z" for z
      using d ends ys by (auto simp: ngx_queue_add_def Let_def simp del: last.simps)
    have dist: "distinct (h # xs)" "distinct ys" using assms(1,2) by (simp_all add: queue_def)
    have "chain ?s (h # xs)"
    proof (rule chain_frame)
      show "chain s (h # xs)" using assms(1) queue_parts [of s h xs "[]"] by simp
      fix z assume z: "z \<in> set (butlast (h # xs))"
      then have "z \<noteq> ?p" "z \<noteq> ?l"
        using butlast_not_last [OF dist(1) z] in_set_butlastD [OF z] ys(2) assms(3) by auto
      then show "q_next ?s z = q_next s z" using links(5) by simp
    next
      fix z assume "z \<in> set (tl (h # xs))"
      then have "z \<noteq> h" "z \<noteq> ?a" using dist(1) ys(1) assms(3) by auto
      then show "q_prev ?s z = q_prev s z" using links(6) by simp
    qed
    moreover have "chain ?s ys"
    proof (rule chain_frame [OF queue_chain [OF assms(2)]])
      fix z assume z: "z \<in> set (butlast ys)"
      then have "z \<noteq> ?p" "z \<noteq> ?l"
        using butlast_not_last [OF dist(2) z] in_set_butlastD [OF z] p assms(3) by auto
      then show "q_next ?s z = q_next s z" using links(5) by simp
    next
      fix z assume z: "z \<in> set (tl ys)"
      then have "z \<noteq> ?a" "z \<noteq> h" using tl_not_hd [OF dist(2) z] list.set_sel(2) [OF False] assms(3) by auto
      then show "q_prev ?s z = q_prev s z" using links(6) by simp
    qed
    ultimately have "chain ?s (ys @ [h])" "chain ?s (h # xs)"
      using False links(3,4) by (simp_all add: chain_append)
    moreover have "distinct (h # xs @ ys)" using dist assms(3) by auto
    ultimately show ?thesis using links(1,2) False by (simp add: queue_parts del: last.simps)
  qed
qed

subsection \<open>The functions on rings\<close>

lemma queue_nth:
  assumes "queue s h xs" "i \<le> length xs"
  shows "ngx_queue_next ((h # xs) ! i) s = (xs @ [h]) ! i"
proof -
  have "chain s (h # xs @ [h])" using assms(1) by (simp add: queue_def)
  moreover have "chain s (z # zs) \<Longrightarrow> i < length zs \<Longrightarrow> q_next s ((z # zs) ! i) = zs ! i" for z zs i
  proof (induction zs arbitrary: z i)
    case (Cons b zs)
    then show ?case by (cases i) auto
  qed simp
  ultimately have "q_next s ((h # xs @ [h]) ! i) = (xs @ [h]) ! i" using assms(2) by simp
  moreover have "(h # xs @ [h]) ! i = (h # xs) ! i" using assms(2) by (cases i) (auto simp: nth_append)
  ultimately show ?thesis by (simp add: ngx_queue_next_def)
qed

lemma queue_step: "queue s h xs \<Longrightarrow> Suc i < length xs \<Longrightarrow> ngx_queue_next (xs ! i) s = xs ! Suc i"
  using queue_nth [of s h xs "Suc i"] by (simp add: nth_append)

lemma queue_nth_last: "queue s h xs \<Longrightarrow> i < length xs \<Longrightarrow> xs ! i = ngx_queue_last h s \<longleftrightarrow> Suc i = length xs"
proof -
  assume q: "queue s h xs" and i: "i < length xs"
  then have "ngx_queue_last h s = xs ! (length xs - 1)"
    using queue_ends(2) [OF q] by (cases xs rule: rev_cases) (auto simp: ngx_queue_last_def)
  with q i show ?thesis by (auto simp: queue_def nth_eq_iff_index_eq)
qed

lemma queue_middle_loop_returns:
  assumes "queue s h xs" "Suc (2 * i) < length xs"
  shows "queue_middle_loop s h (xs ! i) (xs ! (2 * i)) = Some (xs ! (length xs div 2))"
  using assms(2)
proof (induction "length xs - 2 * i" arbitrary: i rule: less_induct)
  case less
  have step: "ngx_queue_next (xs ! i) s = xs ! Suc i" "ngx_queue_next (xs ! (2 * i)) s = xs ! Suc (2 * i)"
    using queue_step [OF assms(1)] less.prems by simp_all
  show ?case
  proof (cases "Suc (Suc (2 * i)) = length xs")
    case True
    then have "length xs div 2 = Suc i" by simp
    then show ?thesis using queue_nth_last [OF assms(1) less.prems] True step
      by (subst queue_middle_loop.simps) (simp add: Let_def)
  next
    case False
    then have i: "Suc (Suc (2 * i)) < length xs" using less.prems by simp
    then have step2: "ngx_queue_next (xs ! Suc (2 * i)) s = xs ! (2 * Suc i)"
      using queue_step [OF assms(1)] by simp
    have l1: "xs ! Suc (2 * i) \<noteq> ngx_queue_last h s" using queue_nth_last [OF assms(1) less.prems] False by simp
    show ?thesis
    proof (cases "Suc (2 * Suc i) = length xs")
      case True
      then have "length xs div 2 = Suc i" by simp
      then show ?thesis using l1 step step2 queue_nth_last [OF assms(1), of "2 * Suc i"] True
        by (subst queue_middle_loop.simps) (simp add: Let_def)
    next
      case False
      then have "queue_middle_loop s h (xs ! Suc i) (xs ! (2 * Suc i)) = Some (xs ! (length xs div 2))"
        using i by (intro less.hyps) simp_all
      then show ?thesis using l1 step step2 queue_nth_last [OF assms(1), of "2 * Suc i"] False i
        by (subst queue_middle_loop.simps) (simp add: Let_def)
    qed
  qed
qed

lemma queue_middle: "queue s h xs \<Longrightarrow> xs \<noteq> [] \<Longrightarrow> ngx_queue_middle h s = Some (xs ! (length xs div 2))"
proof -
  assume q: "queue s h xs" and "xs \<noteq> []"
  then have head: "ngx_queue_head h s = xs ! 0" using queue_ends(1) [OF q] by (cases xs) (auto simp: ngx_queue_head_def)
  show ?thesis
  proof (cases "length xs = 1")
    case True
    with q head queue_nth_last [OF q, of 0] show ?thesis by (simp add: ngx_queue_middle_def Let_def)
  next
    case False
    with \<open>xs \<noteq> []\<close> have "Suc (2 * 0) < length xs" by (cases xs) auto
    with queue_middle_loop_returns [OF q this] head queue_nth_last [OF q, of 0] \<open>xs \<noteq> []\<close> show ?thesis
      by (auto simp add: ngx_queue_middle_def Let_def)
  qed
qed

subsection \<open>Sorting on lists\<close>

text \<open>The insertion of an element behind the last one that is not greater.\<close>

definition sort_insert :: "('a \<Rightarrow> 'a \<Rightarrow> int) \<Rightarrow> 'a \<Rightarrow> 'a list \<Rightarrow> 'a list" where
  "sort_insert cmp q ys =
     rev (dropWhile (\<lambda>p. 0 < cmp p q) (rev ys)) @ q # rev (takeWhile (\<lambda>p. 0 < cmp p q) (rev ys))"

definition sort_list :: "('a \<Rightarrow> 'a \<Rightarrow> int) \<Rightarrow> 'a list \<Rightarrow> 'a list" where
  "sort_list cmp xs = fold (sort_insert cmp) xs []"

lemma sort_insert_parts: "rev (dropWhile P (rev ys)) @ rev (takeWhile P (rev ys)) = ys"
  by (metis rev_append rev_rev_ident takeWhile_dropWhile_id)

lemma mset_sort_insert: "mset (sort_insert cmp q ys) = add_mset q (mset ys)"
proof -
  have "mset ys = mset (rev (dropWhile (\<lambda>p. 0 < cmp p q) (rev ys))) + mset (rev (takeWhile (\<lambda>p. 0 < cmp p q) (rev ys)))"
    by (subst sort_insert_parts [of "\<lambda>p. 0 < cmp p q" ys, symmetric]) (simp only: mset_append)
  then show ?thesis by (simp add: sort_insert_def)
qed

lemma mset_sort_list: "mset (sort_list cmp xs) = mset xs"
proof -
  have "mset (fold (sort_insert cmp) xs ys) = mset ys + mset xs" for ys
    by (induction xs arbitrary: ys) (simp_all add: mset_sort_insert)
  then show ?thesis by (simp add: sort_list_def)
qed

text \<open>A function that compares the elements of a set as a total preorder.\<close>

locale comparison =
  fixes cmp :: "'a \<Rightarrow> 'a \<Rightarrow> int" and A :: "'a set"
  assumes cmp_trans: "a \<in> A \<Longrightarrow> b \<in> A \<Longrightarrow> c \<in> A \<Longrightarrow> cmp a b \<le> 0 \<Longrightarrow> cmp b c \<le> 0 \<Longrightarrow> cmp a c \<le> 0"
    and cmp_total: "a \<in> A \<Longrightarrow> b \<in> A \<Longrightarrow> 0 < cmp a b \<Longrightarrow> cmp b a \<le> 0"
begin

abbreviation "same a x \<equiv> cmp a x \<le> 0 \<and> cmp x a \<le> 0"

lemma sort_insert_sorted:
  assumes "sorted_wrt (\<lambda>a b. cmp a b \<le> 0) ys" "set ys \<subseteq> A" "q \<in> A"
  shows "sorted_wrt (\<lambda>a b. cmp a b \<le> 0) (sort_insert cmp q ys)"
proof -
  let ?P = "\<lambda>p. 0 < cmp p q"
  define as bs where "as = rev (dropWhile ?P (rev ys))" and "bs = rev (takeWhile ?P (rev ys))"
  have ys: "ys = as @ bs" by (simp only: as_def bs_def sort_insert_parts)
  have bs: "0 < cmp p q" if "p \<in> set bs" for p using that by (auto simp: bs_def dest: set_takeWhileD)
  have as: "cmp p q \<le> 0" if "p \<in> set as" for p
  proof -
    from that obtain as' l where l: "as = as' @ [l]" by (cases as rule: rev_cases) auto
    then have "dropWhile ?P (rev ys) = l # rev as'" by (simp add: as_def) (metis rev_rev_ident rev.simps(2) rev_append rev_singleton_conv append_Cons append_Nil)
    then have "\<not> ?P l" by (metis dropWhile_eq_Cons_conv)
    moreover have "p = l \<or> cmp p l \<le> 0" using that assms(1) l ys by (auto simp: sorted_wrt_append)
    moreover have "p \<in> A" "l \<in> A" using that l ys assms(2) by auto
    ultimately show ?thesis using cmp_trans [of p l q] assms(3) by auto
  qed
  have "sorted_wrt (\<lambda>a b. cmp a b \<le> 0) (as @ q # bs)"
    using assms ys as bs cmp_total by (auto simp: sorted_wrt_append less_imp_le) 
  then show ?thesis by (simp add: sort_insert_def as_def bs_def)
qed

lemma sort_insert_stable:
  assumes "set ys \<subseteq> A" "q \<in> A" "a \<in> A"
  shows "filter (same a) (sort_insert cmp q ys) = filter (same a) (ys @ [q])"
proof -
  let ?P = "\<lambda>p. 0 < cmp p q"
  define as bs where "as = rev (dropWhile ?P (rev ys))" and "bs = rev (takeWhile ?P (rev ys))"
  have ys: "ys = as @ bs" by (simp only: as_def bs_def sort_insert_parts)
  have "\<not> same a p" if "p \<in> set bs" "same a q" for p
  proof
    assume "same a p"
    moreover have "p \<in> A" using that(1) ys assms(1) by auto
    ultimately have "cmp p q \<le> 0" using cmp_trans [of p a q] that(2) assms by blast
    with that(1) show False by (auto simp: bs_def dest: set_takeWhileD)
  qed
  then have "same a q \<Longrightarrow> filter (same a) bs = []" by (auto simp: filter_empty_conv)
  then have "filter (same a) (as @ q # bs) = filter (same a) (as @ bs @ [q])" by auto
  moreover have "sort_insert cmp q ys = as @ q # bs" by (simp add: sort_insert_def as_def bs_def)
  ultimately show ?thesis by (simp only: ys append_assoc)
qed

lemma sort_list_sorted:
  assumes "set xs \<subseteq> A"
  shows "sorted_wrt (\<lambda>a b. cmp a b \<le> 0) (sort_list cmp xs)"
    and "a \<in> A \<Longrightarrow> filter (same a) (sort_list cmp xs) = filter (same a) xs"
proof -
  have "sorted_wrt (\<lambda>a b. cmp a b \<le> 0) (fold (sort_insert cmp) xs ys)
      \<and> (a \<in> A \<longrightarrow> filter (same a) (fold (sort_insert cmp) xs ys) = filter (same a) (ys @ xs))"
    if "sorted_wrt (\<lambda>a b. cmp a b \<le> 0) ys" "set ys \<subseteq> A" for ys
    using that assms
  proof (induction xs arbitrary: ys)
    case (Cons x xs)
    have "set (sort_insert cmp x ys) \<subseteq> A"
      using Cons.prems mset_sort_insert [of cmp x ys] by (metis insert_subset list.simps(15) set_mset_add_mset_insert set_mset_mset)
    with Cons.IH [of "sort_insert cmp x ys"] sort_insert_sorted [of ys x] sort_insert_stable [of ys x a] Cons.prems
    show ?case by auto
  qed simp
  from this [of "[]"] show "sorted_wrt (\<lambda>a b. cmp a b \<le> 0) (sort_list cmp xs)"
    "a \<in> A \<Longrightarrow> filter (same a) (sort_list cmp xs) = filter (same a) xs" by (auto simp: sort_list_def)
qed

end

subsection \<open>Sorting a ring\<close>

lemma queue_sort_place_returns:
  assumes "queue s h (ys @ zs)" "ys \<noteq> []"
  shows "queue_sort_place cmp s h q (last ys) = Some (last (h # rev (dropWhile (\<lambda>p. 0 < cmp p q) (rev ys))))"
  using assms
proof (induction ys arbitrary: zs rule: rev_induct)
  case (snoc p ys)
  have prev: "ngx_queue_prev p s = last (h # ys)"
    using queue_node(1) [of s h ys p zs] snoc.prems(1) by (simp add: ngx_queue_prev_def)
  have d: "h \<notin> set ys" using snoc.prems(1) by (auto simp: queue_def)
  show ?case
  proof (cases "cmp p q \<le> 0 \<or> ys = []")
    case True
    then show ?thesis using prev by (subst queue_sort_place.simps) auto
  next
    case False
    then have "last ys \<noteq> h" using d last_in_set by metis
    then show ?thesis
      using False prev snoc.IH [of "p # zs"] snoc.prems(1) by (subst queue_sort_place.simps) simp
  qed
qed simp

lemma queue_sort_loop_returns:
  "queue s h (ys @ zs) \<Longrightarrow> ys \<noteq> [] \<Longrightarrow>
     \<exists>s'. queue_sort_loop cmp h (hd (zs @ [h])) s = Some s' \<and> queue s' h (fold (sort_insert cmp) zs ys)"
proof (induction zs arbitrary: s ys)
  case Nil
  then show ?case by (subst queue_sort_loop.simps) simp
next
  case (Cons q zs)
  let ?P = "\<lambda>p. 0 < cmp p q"
  define as bs where "as = rev (dropWhile ?P (rev ys))" and "bs = rev (takeWhile ?P (rev ys))"
  have ys: "ys = as @ bs" by (simp only: as_def bs_def sort_insert_parts)
  note node = queue_node [OF Cons.prems(1)]
  let ?s = "ngx_queue_remove q s"
  have removed: "queue ?s h (as @ bs @ zs)" using queue_remove [OF Cons.prems(1)] ys by simp
  have "q \<notin> set (h # as @ bs @ zs)" using Cons.prems(1) ys by (auto simp: queue_def)
  with queue_insert_after [OF removed] have
    "queue (ngx_queue_insert_after (last (h # as)) q ?s) h (sort_insert cmp q ys @ zs)"
    by (simp add: sort_insert_def as_def bs_def)
  moreover have "sort_insert cmp q ys \<noteq> []" by (simp add: sort_insert_def)
  ultimately obtain s' where "queue_sort_loop cmp h (hd (zs @ [h])) (ngx_queue_insert_after (last (h # as)) q ?s) = Some s'"
    "queue s' h (fold (sort_insert cmp) zs (sort_insert cmp q ys))" using Cons.IH by blast
  moreover have "queue_sort_place cmp ?s h q (last ys) = Some (last (h # as))"
    using queue_sort_place_returns [of ?s h ys zs cmp q] queue_remove [OF Cons.prems(1)] Cons.prems(2) by (simp add: as_def)
  ultimately show ?case
    using node Cons.prems(2)
    by (subst queue_sort_loop.simps) (simp add: ngx_queue_prev_def ngx_queue_next_def del: last.simps, simp add: last_ConsR)
qed

lemma queue_sort_returns:
  assumes "queue s h xs"
  shows "\<exists>s'. ngx_queue_sort cmp h s = Some s' \<and> queue s' h (sort_list cmp xs)"
proof (cases xs)
  case Nil
  with assms queue_ends [OF assms] show ?thesis
    by (simp add: ngx_queue_sort_def ngx_queue_head_def ngx_queue_last_def sort_list_def)
next
  case (Cons x ys)
  have head: "ngx_queue_head h s = x" using queue_ends(1) [OF assms] Cons by (simp add: ngx_queue_head_def)
  have start: "sort_list cmp xs = fold (sort_insert cmp) ys [x]" by (simp add: Cons sort_list_def sort_insert_def)
  show ?thesis
  proof (cases "ys = []")
    case True
    with head start assms queue_ends(2) [OF assms] Cons show ?thesis
      by (simp add: ngx_queue_sort_def ngx_queue_last_def)
  next
    case False
    have "x \<noteq> ngx_queue_last h s"
      using queue_nth_last [OF assms, of 0] Cons False by simp
    moreover have "ngx_queue_next x s = hd (ys @ [h])"
      using queue_node(2) [of s h "[]" x ys] assms Cons by (simp add: ngx_queue_next_def)
    ultimately show ?thesis
      using queue_sort_loop_returns [of s h "[x]" ys cmp] head start assms Cons
      by (simp add: ngx_queue_sort_def)
  qed
qed

subsection \<open>Property\<close>

text \<open>
  C14. Sorting a queue in place ends, whatever the comparison returns, and leaves a queue of the same nodes on the
  same sentinel. When the comparison is a total preorder of the nodes the queue is then sorted, and nodes that
  compare as equal keep their order.
\<close>

theorem ngx_queue_sort_correct:
  assumes "queue s h xs"
  shows "\<exists>s' ys. ngx_queue_sort cmp h s = Some s' \<and> queue s' h ys \<and> mset ys = mset xs \<and>
    ((\<forall>a \<in> set xs. \<forall>b \<in> set xs. \<forall>c \<in> set xs. cmp a b \<le> 0 \<longrightarrow> cmp b c \<le> 0 \<longrightarrow> cmp a c \<le> 0) \<and>
     (\<forall>a \<in> set xs. \<forall>b \<in> set xs. 0 < cmp a b \<longrightarrow> cmp b a \<le> 0) \<longrightarrow>
       sorted_wrt (\<lambda>a b. cmp a b \<le> 0) ys \<and>
       (\<forall>a \<in> set xs. filter (\<lambda>x. cmp a x \<le> 0 \<and> cmp x a \<le> 0) ys = filter (\<lambda>x. cmp a x \<le> 0 \<and> cmp x a \<le> 0) xs))"
proof -
  obtain s' where s': "ngx_queue_sort cmp h s = Some s'" "queue s' h (sort_list cmp xs)"
    using queue_sort_returns [OF assms] by blast
  have "sorted_wrt (\<lambda>a b. cmp a b \<le> 0) (sort_list cmp xs) \<and>
      (\<forall>a \<in> set xs. filter (\<lambda>x. cmp a x \<le> 0 \<and> cmp x a \<le> 0) (sort_list cmp xs) =
        filter (\<lambda>x. cmp a x \<le> 0 \<and> cmp x a \<le> 0) xs)"
    if "\<forall>a \<in> set xs. \<forall>b \<in> set xs. \<forall>c \<in> set xs. cmp a b \<le> 0 \<longrightarrow> cmp b c \<le> 0 \<longrightarrow> cmp a c \<le> 0"
      "\<forall>a \<in> set xs. \<forall>b \<in> set xs. 0 < cmp a b \<longrightarrow> cmp b a \<le> 0"
  proof -
    have "comparison cmp (set xs)" using that by unfold_locales blast+
    then show ?thesis using comparison.sort_list_sorted [of cmp "set xs" xs] by blast
  qed
  with s' mset_sort_list show ?thesis by blast
qed

text \<open>Three nodes with the values 2, 1 and 2.\<close>

theorem ngx_queue_sort_correct_witness:
  "\<exists>s' ys. ngx_queue_sort (\<lambda>a b. [0, 2, 1, 2] ! a - [0, 2, 1, 2] ! b) 0
      (ngx_queue_insert_tail 0 3 (ngx_queue_insert_tail 0 2 (ngx_queue_insert_tail 0 1
        (ngx_queue_init 0 \<lparr>q_prev = \<lambda>_. 0, q_next = \<lambda>_. 0\<rparr>)))) = Some s' \<and>
    queue s' 0 ys \<and> mset ys = {#1, 2, 3#} \<and>
    sorted_wrt (\<lambda>a b. [0, 2, 1, 2] ! a - [0, 2, 1, 2] ! b \<le> (0 :: int)) ys \<and> filter (\<lambda>x. x = 1 \<or> x = 3) ys = [1, 3]"
proof -
  let ?cmp = "\<lambda>a b. [0, 2, 1, 2] ! a - [0, 2, 1, 2] ! b :: int"
  let ?s = "ngx_queue_insert_tail 0 3 (ngx_queue_insert_tail 0 2 (ngx_queue_insert_tail 0 1
        (ngx_queue_init 0 \<lparr>q_prev = \<lambda>_. 0, q_next = \<lambda>_. 0\<rparr>)))"
  have "queue ?s 0 ((([] @ [1]) @ [2]) @ [3])"
    by (intro queue_insert_tail queue_init) simp_all
  then have "queue ?s 0 [1, 2, 3]" by simp
  from ngx_queue_sort_correct [OF this, of ?cmp] obtain s' ys where
    r: "ngx_queue_sort ?cmp 0 ?s = Some s'" "queue s' 0 ys" "mset ys = {#1, 2, 3#}"
    "sorted_wrt (\<lambda>a b. ?cmp a b \<le> 0) ys" "filter (\<lambda>x. ?cmp 1 x \<le> 0 \<and> ?cmp x 1 \<le> 0) ys = [1, 3]"
    by auto
  have "set ys = {1, 2, 3}" using r(3) by (metis set_mset_mset set_mset_add_mset_insert set_mset_empty)
  then have "filter (\<lambda>x. ?cmp 1 x \<le> 0 \<and> ?cmp x 1 \<le> 0) ys = filter (\<lambda>x. x = 1 \<or> x = 3) ys"
    by (intro filter_cong) auto
  with r show ?thesis by auto
qed

end
