(* ===== verification/Http_Location_Conf.thy ===== *)
theory Http_Location_Conf
  imports Ngx_Queue "HOL-Library.List_Lexorder" "HOL-Library.Product_Lexorder"
begin

section \<open>Locations and their order\<close>

text \<open>
  The locations of a server (\<^verbatim>\<open>src/http/ngx_http_core_module.h\<close>) and the order in which
  \<^verbatim>\<open>src/http/ngx_http.c\<close> sorts them when the configuration has been read. A name is the list of its bytes; the
  zero that the configuration parser puts behind it is written where the code reads it. The objects the
  configuration is built of refer to each other and are values here: a location holds its nested locations, and a
  tree node or an array holds the locations its pointers lead to.
\<close>

subsection \<open>Types\<close>

text \<open>
  A location (\<^verbatim>\<open>ngx_http_core_loc_conf_t\<close>), an element of a queue of locations
  (\<^verbatim>\<open>ngx_http_location_queue_t\<close>) and a node of the search tree (\<^verbatim>\<open>ngx_http_location_tree_node_t\<close>), where
  \<open>Null\<close> is the null pointer. A compiled regular expression is a value of the type \<open>'r\<close>.
\<close>

datatype 'r loc_conf =
  Loc_Conf (loc_name: "byte list") (loc_regex: "'r option") (loc_noname: bool) (loc_named: bool)
    (loc_exact_match: bool) (loc_noregex: bool) (loc_auto_redirect: bool)
    (loc_locations: "'r location_queue list option") (loc_static: "'r tree_node") (loc_regexes: "'r loc_conf list")
and 'r location_queue =
  Location_Queue (lq_exact: "'r loc_conf option") (lq_inclusive: "'r loc_conf option") (lq_name: "byte list")
    (lq_list: "'r location_queue list")
and 'r tree_node =
  Null
| Node (node_left: "'r tree_node") (node_right: "'r tree_node") (node_tree: "'r tree_node")
    (node_exact: "'r loc_conf option") (node_inclusive: "'r loc_conf option")
    (node_auto_redirect: bool) (node_len: byte) (node_name: "byte list")

definition cstring :: "byte list \<Rightarrow> byte list" where
  "cstring s = s @ [chr_nul]"

subsection \<open>Comparing names\<close>

text \<open>
  \<^verbatim>\<open>ngx_filename_cmp\<close> of \<^verbatim>\<open>src/core/ngx_string.c\<close> on a file system with case, for strings that are read up to
  \<open>n\<close> bytes or to a common zero, and the \<^verbatim>\<open>strcmp\<close> of the C library, for strings with their terminating zeros.
\<close>

fun ngx_filename_cmp :: "byte list \<Rightarrow> byte list \<Rightarrow> nat \<Rightarrow> int" where
  "ngx_filename_cmp (c1 # s1) (c2 # s2) (Suc n) =
     (if c1 = c2 then if c1 \<noteq> chr_nul then ngx_filename_cmp s1 s2 n else 0
      else if c1 = chr_nul \<or> c2 = chr_nul then uint c1 - uint c2
      else let c1 = if c1 = chr_slash then 0 else c1;
               c2 = if c2 = chr_slash then 0 else c2
           in uint c1 - uint c2)"
| "ngx_filename_cmp s1 s2 n = 0"

fun ngx_strcmp :: "byte list \<Rightarrow> byte list \<Rightarrow> int" where
  "ngx_strcmp (c1 # s1) (c2 # s2) =
     (if c1 = c2 then if c1 \<noteq> chr_nul then ngx_strcmp s1 s2 else 0 else uint c1 - uint c2)"
| "ngx_strcmp s1 s2 = 0"

text \<open>The rank of a byte in a name: the end of the name comes first, then the slash.\<close>

definition byte_rank :: "byte \<Rightarrow> nat" where
  "byte_rank c = (if c = chr_nul then 0 else if c = chr_slash then 1 else unat c + 1)"

abbreviation name_rank :: "byte list \<Rightarrow> nat list" where
  "name_rank \<equiv> map byte_rank"

definition name_key :: "byte list \<Rightarrow> nat list" where
  "name_key s = name_rank (takeWhile (\<lambda>c. c \<noteq> chr_nul) s)"

lemma byte_rank_eq [simp]: "byte_rank c = byte_rank d \<longleftrightarrow> c = d"
  by (auto simp: byte_rank_def byte_eq_unat)

lemma inj_byte_rank: "inj byte_rank"
  by (simp add: inj_def)

lemma name_rank_eq [simp]: "name_rank a = name_rank b \<longleftrightarrow> a = b"
  by (simp add: inj_map_eq_map inj_byte_rank)

lemma uint_pos: "(c :: byte) \<noteq> 0 \<Longrightarrow> 0 < uint c"
  by (metis uint_0_iff uint_ge_0 order_le_less)

lemma byte_rank_pos: "c \<noteq> chr_nul \<Longrightarrow> 0 < byte_rank c"
  by (simp add: byte_rank_def)

lemma byte_less_rank: "c \<noteq> chr_nul \<Longrightarrow> d \<noteq> chr_nul \<Longrightarrow>
    uint (if c = chr_slash then 0 else c) < uint (if d = chr_slash then 0 else d) \<longleftrightarrow> byte_rank c < byte_rank d"
  using word_gt_0 [of d] by (auto simp: byte_rank_def word_less_def [symmetric] word_less_nat_alt)

text \<open>The sign of a comparison is the order of the ranks, up to a common zero.\<close>

lemma filename_cmp_step:
  "ngx_filename_cmp (c # a) (c # b) (Suc n) = (if c = chr_nul then 0 else ngx_filename_cmp a b n)"
  "c \<noteq> d \<Longrightarrow> ngx_filename_cmp (c # a) (d # b) (Suc n) < 0 \<longleftrightarrow> byte_rank c < byte_rank d"
  "c \<noteq> d \<Longrightarrow> ngx_filename_cmp (c # a) (d # b) (Suc n) \<noteq> 0"
  "c \<noteq> d \<Longrightarrow> ngx_filename_cmp (c # a) (d # b) (Suc n) \<le> 0 \<longleftrightarrow> byte_rank c < byte_rank d"
proof -
  assume "c \<noteq> d"
  then have "byte_rank c \<noteq> byte_rank d" "uint c \<noteq> uint d" by (simp_all only: byte_rank_eq word_uint_eq_iff [symmetric] not_False_eq_True)
  then show lt: "ngx_filename_cmp (c # a) (d # b) (Suc n) < 0 \<longleftrightarrow> byte_rank c < byte_rank d"
    and ne: "ngx_filename_cmp (c # a) (d # b) (Suc n) \<noteq> 0"
    using byte_less_rank [of c d] byte_less_rank [of d c] uint_pos [of c] uint_pos [of d]
    by (auto simp: Let_def byte_rank_def [of 0] byte_rank_pos linorder_neq_iff [of "byte_rank c"])
  from lt ne show "ngx_filename_cmp (c # a) (d # b) (Suc n) \<le> 0 \<longleftrightarrow> byte_rank c < byte_rank d" by linarith
qed simp

lemma filename_cmp_sign:
  assumes "n \<le> length a" "n \<le> length b" "chr_nul \<notin> set (take n b)"
  shows "ngx_filename_cmp a b n < 0 \<longleftrightarrow> name_rank (take n a) < name_rank (take n b)"
    and "ngx_filename_cmp a b n = 0 \<longleftrightarrow> take n a = take n b"
proof -
  have "(ngx_filename_cmp a b n < 0 \<longleftrightarrow> name_rank (take n a) < name_rank (take n b)) \<and>
      (ngx_filename_cmp a b n = 0 \<longleftrightarrow> take n a = take n b)"
    using assms
  proof (induction a b n rule: ngx_filename_cmp.induct)
    case (1 c1 s1 c2 s2 n)
    then show ?case by (cases "c1 = c2") (auto simp: filename_cmp_step simp del: ngx_filename_cmp.simps(1))
  qed auto
  then show "ngx_filename_cmp a b n < 0 \<longleftrightarrow> name_rank (take n a) < name_rank (take n b)"
    "ngx_filename_cmp a b n = 0 \<longleftrightarrow> take n a = take n b" by blast+
qed

text \<open>Two names with their terminating zeros.\<close>

lemma filename_cmp_key:
  "ngx_filename_cmp (cstring a) (cstring b) (Suc (min (length a) (length b))) \<le> 0 \<longleftrightarrow> name_key a \<le> name_key b"
  "ngx_filename_cmp (cstring a) (cstring b) (Suc (min (length a) (length b))) = 0 \<longleftrightarrow> name_key a = name_key b"
proof (induction a arbitrary: b)
  case Nil
  fix b show "ngx_filename_cmp (cstring []) (cstring b) (Suc (min (length []) (length b))) \<le> 0 \<longleftrightarrow> name_key [] \<le> name_key b"
    "ngx_filename_cmp (cstring []) (cstring b) (Suc (min (length []) (length b))) = 0 \<longleftrightarrow> name_key [] = name_key b"
    using uint_pos [of "hd b"] by (cases b; auto simp: cstring_def name_key_def)+
next
  case (Cons c a)
  fix b show "ngx_filename_cmp (cstring (c # a)) (cstring b) (Suc (min (length (c # a)) (length b))) \<le> 0 \<longleftrightarrow>
      name_key (c # a) \<le> name_key b"
    "ngx_filename_cmp (cstring (c # a)) (cstring b) (Suc (min (length (c # a)) (length b))) = 0 \<longleftrightarrow>
      name_key (c # a) = name_key b"
    using Cons.IH [of "tl b"] byte_rank_pos [of c] byte_rank_pos [of "hd b"]
    by (cases b; cases "c = hd b";
        auto simp: cstring_def name_key_def filename_cmp_step byte_rank_def [of 0] simp del: ngx_filename_cmp.simps(1))+
qed

lemma strcmp_key:
  "ngx_strcmp (cstring a) (cstring b) \<le> 0 \<longleftrightarrow>
     map unat (takeWhile (\<lambda>c. c \<noteq> chr_nul) a) \<le> map unat (takeWhile (\<lambda>c. c \<noteq> chr_nul) b)"
proof (induction a arbitrary: b)
  case Nil
  then show ?case by (cases b) (auto simp: cstring_def)
next
  case (Cons c a)
  show ?case
  proof (cases b)
    case Nil
    then show ?thesis using uint_pos [of c] by (auto simp: cstring_def)
  next
    case (Cons d b')
    have "uint c - uint d \<le> 0 \<longleftrightarrow> unat c < unat d" if "c \<noteq> d"
      using that order.order_iff_strict [of c d] by (simp add: word_le_def [symmetric] word_less_nat_alt [symmetric])
    with Cons.IH [of b'] uint_pos [of c] uint_pos [of d] byte_eq_unat [of c d] Cons show ?thesis
      by (auto simp: cstring_def)
  qed
qed

subsection \<open>Adding locations and comparing them\<close>

definition location_queue :: "'r loc_conf \<Rightarrow> 'r location_queue" where
  "location_queue clcf =
     (if loc_exact_match clcf \<or> loc_regex clcf \<noteq> None \<or> loc_named clcf \<or> loc_noname clcf
      then Location_Queue (Some clcf) None (loc_name clcf) []
      else Location_Queue None (Some clcf) (loc_name clcf) [])"

definition ngx_http_add_location :: "'r location_queue list option \<Rightarrow> 'r loc_conf \<Rightarrow> 'r location_queue list option" where
  "ngx_http_add_location locations clcf =
     (let qs = (case locations of None \<Rightarrow> [] | Some qs \<Rightarrow> qs) in Some (qs @ [location_queue clcf]))"

text \<open>The location of an element: \<^verbatim>\<open>lq->exact ? lq->exact : lq->inclusive\<close>.\<close>

definition lq_conf :: "'r location_queue \<Rightarrow> 'r loc_conf" where
  "lq_conf lq = (case lq_exact lq of Some clcf \<Rightarrow> clcf | None \<Rightarrow> the (lq_inclusive lq))"

definition ngx_http_cmp_locations :: "'r location_queue \<Rightarrow> 'r location_queue \<Rightarrow> int" where
  "ngx_http_cmp_locations lq1 lq2 =
     (let first = lq_conf lq1; second = lq_conf lq2
      in if loc_noname first \<and> \<not> loc_noname second then 1
         else if \<not> loc_noname first \<and> loc_noname second then -1
         else if loc_noname first \<or> loc_noname second then 0
         else if loc_named first \<and> \<not> loc_named second then 1
         else if \<not> loc_named first \<and> loc_named second then -1
         else if loc_named first \<and> loc_named second
         then ngx_strcmp (cstring (loc_name first)) (cstring (loc_name second))
         else if loc_regex first \<noteq> None \<and> loc_regex second = None then 1
         else if loc_regex first = None \<and> loc_regex second \<noteq> None then -1
         else if loc_regex first \<noteq> None \<or> loc_regex second \<noteq> None then 0
         else let rc = ngx_filename_cmp (cstring (loc_name first)) (cstring (loc_name second))
                         (min (length (loc_name first)) (length (loc_name second)) + 1)
              in if rc = 0 \<and> \<not> loc_exact_match first \<and> loc_exact_match second then 1 else rc)"

text \<open>The class of a location, in the order of the sorted queue, and what is compared within a class.\<close>

datatype loc_class = Static | Regex | Named | Noname

definition loc_class :: "'r loc_conf \<Rightarrow> loc_class" where
  "loc_class c = (if loc_noname c then Noname else if loc_named c then Named
     else if loc_regex c \<noteq> None then Regex else Static)"

definition loc_key :: "'r loc_conf \<Rightarrow> nat \<times> nat list \<times> nat" where
  "loc_key c = (case loc_class c of
     Static \<Rightarrow> (0, name_key (loc_name c), if loc_exact_match c then 0 else 1)
   | Regex \<Rightarrow> (1, [], 0)
   | Named \<Rightarrow> (2, map unat (takeWhile (\<lambda>c. c \<noteq> chr_nul) (loc_name c)), 0)
   | Noname \<Rightarrow> (3, [], 0))"

lemma cmp_locations_key: "ngx_http_cmp_locations a b \<le> 0 \<longleftrightarrow> loc_key (lq_conf a) \<le> loc_key (lq_conf b)"
  using filename_cmp_key [of "loc_name (lq_conf a)" "loc_name (lq_conf b)"]
    strcmp_key [of "loc_name (lq_conf a)" "loc_name (lq_conf b)"]
  by (auto simp: ngx_http_cmp_locations_def Let_def loc_key_def loc_class_def)

interpretation loc_cmp: comparison ngx_http_cmp_locations UNIV
proof unfold_locales
  show "ngx_http_cmp_locations a c \<le> 0"
    if "ngx_http_cmp_locations a b \<le> 0" "ngx_http_cmp_locations b c \<le> 0" for a b c :: "'r location_queue"
    using that order_trans by (auto simp: cmp_locations_key)
  show "ngx_http_cmp_locations b a \<le> 0" if "0 < ngx_http_cmp_locations a b" for a b :: "'r location_queue"
    using that linear [of "loc_key (lq_conf a)" "loc_key (lq_conf b)"] by (auto simp: cmp_locations_key not_le[symmetric])
qed

end
