(* ===== verification/Http_Location_Tree.thy ===== *)
theory Http_Location_Tree
  imports Http_Location_Conf "HOL-Library.Sublist"
begin

section \<open>The tree of the static locations\<close>

text \<open>
  How \<^verbatim>\<open>src/http/ngx_http.c\<close> turns the sorted queue of the static locations of a level into a search tree, and the
  walk of \<^verbatim>\<open>ngx_http_core_find_static_location\<close> over it (\<^verbatim>\<open>src/http/ngx_http_core_module.c\<close>). The queues are
  the lists of their elements: that the macros of \<^verbatim>\<open>ngx_queue.h\<close> act on rings as these definitions do on lists,
  that a sort in place is \<^const>\<open>sort_list\<close> and the middle element that of index \<open>length div 2\<close>, are the lemmas of
  \<open>Ngx_Queue\<close>. Memory is always available.
\<close>

subsection \<open>Joining, nesting and building the tree\<close>

text \<open>A duplicate location is an error that names it.\<close>

fun ngx_http_join_exact_locations ::
    "'r location_queue list \<Rightarrow> byte list + 'r location_queue list" where
  "ngx_http_join_exact_locations (lq # lx # xs) =
     (if length (lq_name lq) = length (lq_name lx)
         \<and> ngx_filename_cmp (lq_name lq) (lq_name lx) (length (lq_name lx)) = 0
      then if lq_exact lq \<noteq> None \<and> lq_exact lx \<noteq> None \<or> lq_inclusive lq \<noteq> None \<and> lq_inclusive lx \<noteq> None
           then Inl (lq_name lx)
           else ngx_http_join_exact_locations
                  (Location_Queue (lq_exact lq) (lq_inclusive lx) (lq_name lq) (lq_list lq) # xs)
      else case ngx_http_join_exact_locations (lx # xs) of Inl e \<Rightarrow> Inl e | Inr ys \<Rightarrow> Inr (lq # ys))"
| "ngx_http_join_exact_locations qs = Inr qs"

definition set_list :: "'r location_queue list \<Rightarrow> 'r location_queue \<Rightarrow> 'r location_queue" where
  "set_list qs lq = Location_Queue (lq_exact lq) (lq_inclusive lq) (lq_name lq) qs"

text \<open>The loop of \<^verbatim>\<open>ngx_http_create_locations_list\<close> goes on as long as the name is a prefix of the next one.\<close>

definition lq_prefix :: "'r location_queue \<Rightarrow> 'r location_queue \<Rightarrow> bool" where
  "lq_prefix lq lx \<longleftrightarrow> \<not> (length (lq_name lx) < length (lq_name lq)
     \<or> ngx_filename_cmp (lq_name lq) (lq_name lx) (length (lq_name lq)) \<noteq> 0)"

abbreviation lqs_size :: "'r location_queue list \<Rightarrow> nat" where
  "lqs_size \<equiv> size_list size"

lemma size_lq_list: "lqs_size (lq_list lq) < size lq"
  by (cases lq) auto

lemma size_lq_list_le: "lqs_size (lq_list lq) < Suc (size lq + n)"
  using size_lq_list [of lq] by simp

lemma lqs_size_append: "lqs_size (xs @ ys) = lqs_size xs + lqs_size ys"
  by (induction xs) auto

lemma lqs_size_takeWhile: "lqs_size (takeWhile P xs) + lqs_size (dropWhile P xs) = lqs_size xs"
  by (metis lqs_size_append takeWhile_dropWhile_id)

function ngx_http_create_locations_list :: "'r location_queue list \<Rightarrow> 'r location_queue list" where
  "ngx_http_create_locations_list [] = []"
| "ngx_http_create_locations_list [lq] = [lq]"
| "ngx_http_create_locations_list (lq # lx # xs) =
     (if lq_inclusive lq = None then lq # ngx_http_create_locations_list (lx # xs)
      else let inner = takeWhile (lq_prefix lq) (lx # xs);
               x = dropWhile (lq_prefix lq) (lx # xs)
           in if inner = [] then lq # ngx_http_create_locations_list x
              else if x = [] then [set_list (ngx_http_create_locations_list (lq_list lq @ inner)) lq]
              else set_list (ngx_http_create_locations_list (lq_list lq @ inner)) lq
                     # ngx_http_create_locations_list x)"
  by pat_completeness auto
termination
proof (relation "measure lqs_size")
  fix lq lx :: "'r location_queue" and xs inner x
  assume "inner = takeWhile (lq_prefix lq) (lx # xs)" "x = dropWhile (lq_prefix lq) (lx # xs)"
  then have "lqs_size inner + lqs_size x = lqs_size (lx # xs)" by (simp only: lqs_size_takeWhile)
  then show "(lq_list lq @ inner, lq # lx # xs) \<in> measure lqs_size" "(lq_list lq @ inner, lq # lx # xs) \<in> measure lqs_size"
    "(x, lq # lx # xs) \<in> measure lqs_size" "(x, lq # lx # xs) \<in> measure lqs_size"
    using size_lq_list [of lq] by (simp_all add: lqs_size_append)
qed auto

text \<open>
  The tree of a queue that is not empty. The node holds the part of the name behind the common prefix of its level;
  its length is stored in a byte.
\<close>

function ngx_http_create_locations_tree :: "'r location_queue list \<Rightarrow> nat \<Rightarrow> 'r tree_node" where
  "ngx_http_create_locations_tree locations offset =
     (if locations = [] then Null
      else let middle = length locations div 2;
               lq = locations ! middle;
               len = length (lq_name lq) - offset;
               head = take middle locations;
               tail = drop (Suc middle) locations;
               left = (if head = [] then Null else ngx_http_create_locations_tree head offset);
               right = (if head = [] \<or> tail = [] then Null else ngx_http_create_locations_tree tail offset);
               tree = (if lq_list lq = [] then Null else ngx_http_create_locations_tree (lq_list lq) (offset + len))
           in Node left right tree (lq_exact lq) (lq_inclusive lq)
                (lq_exact lq \<noteq> None \<and> loc_auto_redirect (the (lq_exact lq))
                 \<or> lq_inclusive lq \<noteq> None \<and> loc_auto_redirect (the (lq_inclusive lq)))
                (word_of_nat len) (take len (drop offset (lq_name lq))))"
  by pat_completeness auto
termination
proof (relation "measure (\<lambda>(qs, _). lqs_size qs)")
  fix locations head tail :: "'r location_queue list" and offset middle lq len
  assume "locations \<noteq> []" and middle: "middle = length locations div 2" "lq = locations ! middle"
    "head = take middle locations" "tail = drop (Suc middle) locations"
  then have "locations = head @ lq # tail" by (simp add: id_take_nth_drop)
  then have "lqs_size locations = lqs_size head + size lq + lqs_size tail + 1" by (simp add: lqs_size_append)
  with size_lq_list [of lq] show "((head, offset), (locations, offset)) \<in> measure (\<lambda>(qs, _). lqs_size qs)"
    "((tail, offset), (locations, offset)) \<in> measure (\<lambda>(qs, _). lqs_size qs)"
    "((lq_list lq, offset + len), (locations, offset)) \<in> measure (\<lambda>(qs, _). lqs_size qs)" by simp_all
qed auto

declare ngx_http_create_locations_tree.simps [simp del]

subsection \<open>The walk\<close>

text \<open>
  The state is the return value so far and the location of the request. A node with neither location, where the
  code would follow a null pointer, is \<^const>\<open>NGX_ABORT\<close>, which it returns nowhere else.
\<close>

fun ngx_http_core_find_static_location ::
    "byte list \<Rightarrow> 'r tree_node \<Rightarrow> ngx_rc \<times> 'r loc_conf \<Rightarrow> ngx_rc \<times> 'r loc_conf" where
  "ngx_http_core_find_static_location uri Null (rv, conf) = (rv, conf)"
| "ngx_http_core_find_static_location uri (Node left right tree exact inclusive auto_redirect len name) (rv, conf) =
     (let n = (if length uri \<le> unat len then length uri else unat len);
          rc = ngx_filename_cmp uri name n
      in if rc \<noteq> 0 then ngx_http_core_find_static_location uri (if rc < 0 then left else right) (rv, conf)
         else if length uri > unat len
         then case inclusive of
                Some c \<Rightarrow> ngx_http_core_find_static_location (drop n uri) tree (NGX_AGAIN, c)
              | None \<Rightarrow> ngx_http_core_find_static_location uri right (rv, conf)
         else if length uri = unat len
         then case exact of
                Some c \<Rightarrow> (NGX_OK, c)
              | None \<Rightarrow> (case inclusive of Some c \<Rightarrow> (NGX_AGAIN, c) | None \<Rightarrow> (NGX_ABORT, conf))
         else let (rv, conf) = (if length uri + 1 = unat len \<and> auto_redirect
                    then (NGX_DONE, case exact of Some c \<Rightarrow> c | None \<Rightarrow> the inclusive)
                    else (rv, conf))
              in ngx_http_core_find_static_location uri left (rv, conf))"

subsection \<open>Names in order\<close>

lemma name_rank_less_prefix: "length a \<le> length b \<Longrightarrow> name_rank a < name_rank (take (length a) b) \<Longrightarrow>
    name_rank (a @ x) < name_rank (b @ y)"
proof (induction a arbitrary: b)
  case (Cons c a)
  then show ?case by (cases b) auto
qed simp

lemma name_rank_less_take:
  assumes "k \<le> length a" "k \<le> length b" "name_rank (take k a) < name_rank (take k b)"
  shows "name_rank (a @ x) < name_rank (b @ y)"
  using name_rank_less_prefix [of "take k a" "take k b" "drop k a @ x" "drop k b @ y"] assms
  by (simp add: min_absorb2 flip: append_assoc)

lemma prefix_rank_le: "prefix a b \<Longrightarrow> name_rank a \<le> name_rank b"
proof (induction a arbitrary: b)
  case (Cons c a)
  then show ?case by (cases b) auto
qed simp

lemma rank_less_not_prefix: "name_rank a < name_rank b \<Longrightarrow> \<not> prefix b a"
  using prefix_rank_le [of b a] by auto

text \<open>The slash comes before every other byte of a name.\<close>

lemma slash_least: "c \<noteq> chr_nul \<Longrightarrow> name_rank (u @ [chr_slash]) \<le> name_rank (u @ c # v)"
  by (induction u) (auto simp: byte_rank_def)

subsection \<open>Levels\<close>

text \<open>The elements of a level and, behind each, those nested in it.\<close>

function flat :: "'r location_queue list \<Rightarrow> 'r location_queue list" where
  "flat [] = []"
| "flat (lq # qs) = set_list [] lq # flat (lq_list lq) @ flat qs"
  by pat_completeness auto
termination
  by (relation "measure lqs_size") (simp_all add: size_lq_list_le)

definition lq_redirect :: "'r location_queue \<Rightarrow> bool" where
  "lq_redirect lq \<longleftrightarrow> lq_exact lq \<noteq> None \<and> loc_auto_redirect (the (lq_exact lq))
     \<or> lq_inclusive lq \<noteq> None \<and> loc_auto_redirect (the (lq_inclusive lq))"

text \<open>An element of the sorted queue: it has a location, and names are those of the configuration.\<close>

definition wf_lq :: "'r location_queue \<Rightarrow> bool" where
  "wf_lq lq \<longleftrightarrow> (lq_exact lq \<noteq> None \<or> lq_inclusive lq \<noteq> None) \<and> chr_nul \<notin> set (lq_name lq) \<and> length (lq_name lq) < 256 \<and>
     (lq_redirect lq \<longrightarrow> (\<exists>u. lq_name lq = u @ [chr_slash]))"

lemma set_list_simps [simp]:
  "lq_exact (set_list qs lq) = lq_exact lq" "lq_inclusive (set_list qs lq) = lq_inclusive lq"
  "lq_name (set_list qs lq) = lq_name lq" "lq_list (set_list qs lq) = qs"
  "lq_redirect (set_list qs lq) = lq_redirect lq" "wf_lq (set_list qs lq) = wf_lq lq"
  "lq_conf (set_list qs lq) = lq_conf lq"
  by (simp_all add: set_list_def lq_redirect_def wf_lq_def lq_conf_def split: option.split)

lemma flat_append: "flat (xs @ ys) = flat xs @ flat ys"
  by (induction xs) simp_all

lemma flat_Nil [simp]: "flat qs = [] \<longleftrightarrow> qs = []"
  by (cases qs) simp_all

text \<open>
  A level of the nested queues under a common prefix: a location that is a prefix of others holds all of them, and
  only such a location holds any.
\<close>

function level :: "byte list \<Rightarrow> 'r location_queue list \<Rightarrow> bool" where
  "level p [] \<longleftrightarrow> True"
| "level p (lq # qs) \<longleftrightarrow>
     wf_lq lq \<and> prefix p (lq_name lq) \<and> level (lq_name lq) (lq_list lq) \<and>
     (\<forall>x \<in> set (flat (lq_list lq)). strict_prefix (lq_name lq) (lq_name x)) \<and>
     (lq_list lq \<noteq> [] \<longrightarrow> lq_inclusive lq \<noteq> None) \<and>
     (lq_inclusive lq \<noteq> None \<longrightarrow> (\<forall>x \<in> set (flat qs). \<not> prefix (lq_name lq) (lq_name x))) \<and>
     level p qs"
  by pat_completeness auto
termination
  by (relation "measure (\<lambda>(_, qs). lqs_size qs)") (simp_all add: size_lq_list_le)

lemma level_append:
  "level p (xs @ ys) \<longleftrightarrow> level p xs \<and> level p ys \<and>
     (\<forall>lq \<in> set xs. lq_inclusive lq \<noteq> None \<longrightarrow> (\<forall>x \<in> set (flat ys). \<not> prefix (lq_name lq) (lq_name x)))"
  by (induction xs) (auto simp: flat_append)

lemma level_flat: "level p qs \<Longrightarrow> x \<in> set (flat qs) \<Longrightarrow> wf_lq x \<and> prefix p (lq_name x)"
proof (induction qs arbitrary: p rule: flat.induct)
  case (2 lq qs)
  then show ?case by (auto dest: prefix_order.trans)
qed simp

text \<open>What a nested element includes, the element of the level that holds it includes, too.\<close>

lemma flat_owner:
  "level p qs \<Longrightarrow> x \<in> set (flat qs) \<Longrightarrow> lq_inclusive x \<noteq> None \<Longrightarrow>
     \<exists>lq \<in> set qs. lq_inclusive lq \<noteq> None \<and> prefix (lq_name lq) (lq_name x)"
proof (induction qs)
  case (Cons lq qs)
  consider "x = set_list [] lq" | "x \<in> set (flat (lq_list lq))" | "x \<in> set (flat qs)" using Cons.prems(2) by auto
  then show ?case
  proof cases
    case 2
    with Cons.prems(1) show ?thesis by (cases "lq_list lq = []") (auto simp: strict_prefix_def)
  qed (use Cons in auto)
qed simp

abbreviation sorted_names :: "'r location_queue list \<Rightarrow> bool" where
  "sorted_names qs \<equiv> sorted_wrt (\<lambda>a b. name_rank (lq_name a) < name_rank (lq_name b)) qs"

subsection \<open>What a request for a URI finds\<close>

text \<open>
  The location for \<open>u\<close>: the exact one with this name, else the inclusive one with this name, else a redirect to the
  name with a slash added, else the inclusive location with the longest name that is a prefix.
\<close>

definition locate :: "'r location_queue list \<Rightarrow> byte list \<Rightarrow> ngx_rc \<times> 'r loc_conf \<Rightarrow> ngx_rc \<times> 'r loc_conf" where
  "locate S u r =
     (case find (\<lambda>q. lq_name q = u) S of
        Some q \<Rightarrow> (case lq_exact q of Some c \<Rightarrow> (NGX_OK, c) | None \<Rightarrow> (NGX_AGAIN, the (lq_inclusive q)))
      | None \<Rightarrow>
          (case find (\<lambda>q. lq_name q = u @ [chr_slash] \<and> lq_redirect q) S of
             Some q \<Rightarrow> (NGX_DONE, lq_conf q)
           | None \<Rightarrow>
               (case filter (\<lambda>q. lq_inclusive q \<noteq> None \<and> prefix (lq_name q) u) S of
                  [] \<Rightarrow> r
                | qs \<Rightarrow> (NGX_AGAIN, the (lq_inclusive (last qs))))))"

definition relevant :: "byte list \<Rightarrow> 'r location_queue \<Rightarrow> bool" where
  "relevant u q \<longleftrightarrow> lq_name q = u \<or> lq_name q = u @ [chr_slash] \<and> lq_redirect q
     \<or> lq_inclusive q \<noteq> None \<and> prefix (lq_name q) u"

lemma find_relevant: "(\<And>q. P q \<Longrightarrow> R q) \<Longrightarrow> find P (filter R S) = find P S"
  by (induction S) auto

lemma locate_relevant: "locate (filter (relevant u) S) u r = locate S u r"
proof -
  have "find (\<lambda>q. lq_name q = u) (filter (relevant u) S) = find (\<lambda>q. lq_name q = u) S"
    "find (\<lambda>q. lq_name q = u @ [chr_slash] \<and> lq_redirect q) (filter (relevant u) S) =
       find (\<lambda>q. lq_name q = u @ [chr_slash] \<and> lq_redirect q) S"
    by (rule find_relevant, simp add: relevant_def)+
  moreover have "filter (\<lambda>q. lq_inclusive q \<noteq> None \<and> prefix (lq_name q) u) (filter (relevant u) S) =
      filter (\<lambda>q. lq_inclusive q \<noteq> None \<and> prefix (lq_name q) u) S"
    by (induction S) (auto simp: relevant_def)
  ultimately show ?thesis by (simp only: locate_def)
qed

lemma locate_cong: "filter (relevant u) S = filter (relevant u) T \<Longrightarrow> locate S u r = locate T u r"
  using locate_relevant [of u S r] locate_relevant [of u T r] by simp

lemma locate_parts:
  "(\<And>q. q \<in> set T \<Longrightarrow> \<not> relevant u q) \<Longrightarrow> locate (S @ T) u r = locate S u r"
  "(\<And>q. q \<in> set T \<Longrightarrow> \<not> relevant u q) \<Longrightarrow> locate (T @ S) u r = locate S u r"
  by (rule locate_cong, simp add: filter_empty_conv)+

subsection \<open>The walk finds it\<close>

lemma rank_less_cases: "name_rank a < name_rank b \<Longrightarrow> prefix a b \<or> (\<forall>x y. name_rank (a @ x) < name_rank (b @ y))"
proof (induction a arbitrary: b)
  case (Cons c a)
  then show ?case by (cases b) auto
qed simp

lemma rank_append [simp]: "name_rank p @ a < name_rank p @ b \<longleftrightarrow> a < b"
  by (induction p) simp_all

lemma rank_snoc: "name_rank u < name_rank (u @ [c])"
  by (induction u) simp_all

text \<open>What is left and right of a name, when the URI is not.\<close>

lemma left_irrelevant:
  assumes "name_rank (lq_name x) < name_rank N" "lq_inclusive x \<noteq> None \<longrightarrow> \<not> prefix (lq_name x) N" "name_rank N \<le> name_rank u"
  shows "\<not> relevant u x"
proof
  assume "relevant u x"
  then consider "lq_name x = u" | "lq_name x = u @ [chr_slash]"
    | v where "lq_inclusive x \<noteq> None" "u = lq_name x @ v" by (auto simp: relevant_def prefix_def)
  then show False
  proof cases
    case 3
    with rank_less_cases [OF assms(1)] assms(2) have "name_rank (lq_name x @ v) < name_rank (N @ [])" by blast
    with 3 assms(3) show False by simp
  qed (use assms rank_snoc [of u chr_slash] in auto)
qed

lemma right_irrelevant:
  assumes "name_rank (u @ [chr_slash]) < name_rank (lq_name x)"
  shows "\<not> relevant u x"
  using assms rank_snoc [of u chr_slash] prefix_rank_le [of "lq_name x" u] by (auto simp: relevant_def)

lemma not_prefix_irrelevant:
  assumes "prefix N (lq_name x)" "name_rank N < name_rank u" "\<not> prefix N u"
  shows "\<not> relevant u x"
  using assms rank_snoc [of u chr_slash] prefix_order.trans [of N "lq_name x" u] by (auto simp: relevant_def)

lemma behind_irrelevant:
  assumes "name_rank N < name_rank (lq_name x)" "\<not> prefix N (lq_name x)" "prefix N u"
  shows "\<not> relevant u x"
  using assms prefix_same_cases [of "lq_name x" u N] prefix_rank_le [of "lq_name x" N] by (auto simp: relevant_def)

lemma find_none: "(\<And>x. x \<in> set S \<Longrightarrow> \<not> P x) \<Longrightarrow> find P S = None"
  by (simp add: find_None_iff)

text \<open>The element with the name of the URI.\<close>

lemma locate_here:
  assumes "lq_name m = u" "\<And>x. x \<in> set ls \<Longrightarrow> lq_name x \<noteq> u"
  shows "locate (ls @ m # T) u r = (case lq_exact m of Some c \<Rightarrow> (NGX_OK, c) | None \<Rightarrow> (NGX_AGAIN, the (lq_inclusive m)))"
proof -
  have "find (\<lambda>q. lq_name q = u) (ls @ m # T) = Some m" using assms by (induction ls) auto
  then show ?thesis by (simp add: locate_def)
qed

text \<open>An inclusive location that is a prefix of the URI stands in for the return value.\<close>

lemma locate_inner:
  assumes "lq_inclusive m = Some c" "prefix (lq_name m) u" "lq_name m \<noteq> u"
  shows "locate (m # S) u r = locate S u (NGX_AGAIN, c)"
proof -
  have "find P (m # S) = find P S" if "\<not> P m" for P using that by simp
  moreover have "lq_name m \<noteq> u @ [chr_slash]" using assms(2) by auto
  ultimately show ?thesis using assms by (simp add: locate_def split: option.split list.split)
qed

text \<open>A redirect stands in for it, too, when no inclusive location is left.\<close>

lemma locate_redirect:
  assumes "lq_name m = u @ [chr_slash]" "lq_redirect m"
    "\<And>x. x \<in> set ls \<Longrightarrow> lq_name x \<noteq> u @ [chr_slash] \<and> \<not> (lq_inclusive x \<noteq> None \<and> prefix (lq_name x) u)"
  shows "locate (ls @ [m]) u r = locate ls u (NGX_DONE, lq_conf m)"
proof -
  have "find (\<lambda>q. lq_name q = u) (ls @ [m]) = find (\<lambda>q. lq_name q = u) ls" using assms(1) by (induction ls) auto
  moreover have "find (\<lambda>q. lq_name q = u @ [chr_slash] \<and> lq_redirect q) ls = None" using assms(3) by (intro find_none) blast
  moreover have "find (\<lambda>q. lq_name q = u @ [chr_slash] \<and> lq_redirect q) (ls @ [m]) = Some m"
    using assms by (induction ls) auto
  moreover have "filter (\<lambda>q. lq_inclusive q \<noteq> None \<and> prefix (lq_name q) u) ls = []" using assms(3) by (simp add: filter_empty_conv)
  ultimately show ?thesis by (simp add: locate_def split: option.split)
qed

text \<open>A level, split at an element.\<close>

lemma level_split:
  assumes "level p (ls @ m # rs)" "sorted_names (flat (ls @ m # rs))"
  shows "\<And>x. x \<in> set (flat ls) \<Longrightarrow> name_rank (lq_name x) < name_rank (lq_name m)"
    and "\<And>x. x \<in> set (flat ls) \<Longrightarrow> lq_inclusive x \<noteq> None \<Longrightarrow> \<not> prefix (lq_name x) (lq_name m)"
    and "\<And>x. x \<in> set (flat (lq_list m)) \<Longrightarrow> strict_prefix (lq_name m) (lq_name x)"
    and "\<And>x. x \<in> set (flat (lq_list m) @ flat rs) \<Longrightarrow> name_rank (lq_name m) < name_rank (lq_name x)"
    and "\<And>x. x \<in> set (flat rs) \<Longrightarrow> lq_inclusive m \<noteq> None \<Longrightarrow> \<not> prefix (lq_name m) (lq_name x)"
proof -
  show "\<not> prefix (lq_name x) (lq_name m)" if x: "x \<in> set (flat ls)" "lq_inclusive x \<noteq> None" for x
  proof
    assume p: "prefix (lq_name x) (lq_name m)"
    from assms(1) have "level p ls" by (simp add: level_append)
    from flat_owner [OF this x] obtain lq where lq: "lq \<in> set ls" "lq_inclusive lq \<noteq> None" "prefix (lq_name lq) (lq_name x)"
      by blast
    with p have "prefix (lq_name lq) (lq_name m)" using prefix_order.trans by blast
    with assms(1) lq show False by (auto simp: level_append)
  qed
qed (use assms in \<open>auto simp: level_append flat_append sorted_wrt_append\<close>)

text \<open>What is left to do behind an element, whichever way the comparison goes.\<close>

lemmas level_flat_split = flat_append flat.simps(2) append_Cons append_Nil append.assoc

lemma locate_less:
  assumes "level p (ls @ m # rs)" "sorted_names (flat (ls @ m # rs))" "name_rank (u @ [chr_slash]) < name_rank (lq_name m)"
  shows "locate (flat (ls @ m # rs)) u r = locate (flat ls) u r"
proof -
  note split = level_split [OF assms(1,2)]
  have "\<not> relevant u x" if "x \<in> set (set_list [] m # flat (lq_list m) @ flat rs)" for x
    using that split(4) assms(3) by (intro right_irrelevant) (fastforce intro: less_trans)
  then show ?thesis unfolding level_flat_split by (rule locate_parts(1))
qed

lemma locate_greater:
  assumes "level p (ls @ m # rs)" "sorted_names (flat (ls @ m # rs))"
    "name_rank (lq_name m) < name_rank u" "\<not> prefix (lq_name m) u"
  shows "locate (flat (ls @ m # rs)) u r = locate (flat rs) u r"
proof -
  note split = level_split [OF assms(1,2)]
  have "\<not> relevant u x" if x: "x \<in> set (flat ls @ set_list [] m # flat (lq_list m))" for x
  proof (cases "x \<in> set (flat ls)")
    case True
    with split(1,2) assms(3) show ?thesis by (intro left_irrelevant [of _ "lq_name m"]) auto
  next
    case False
    with x split(3) assms(3,4) show ?thesis
      by (intro not_prefix_irrelevant [of "lq_name m"]) (auto simp: strict_prefix_def)
  qed
  then have "locate ((flat ls @ set_list [] m # flat (lq_list m)) @ flat rs) u r = locate (flat rs) u r"
    by (rule locate_parts(2))
  then show ?thesis by (simp add: flat_append)
qed

lemma prefix_left_irrelevant:
  assumes "level p (ls @ m # rs)" "sorted_names (flat (ls @ m # rs))" "prefix (lq_name m) u" "x \<in> set (flat ls)"
  shows "\<not> relevant u x"
  using level_split(1,2) [OF assms(1,2,4)] prefix_rank_le [OF assms(3)] by (intro left_irrelevant [of _ "lq_name m"]) auto

lemma locate_same:
  assumes "level p (ls @ m # rs)" "sorted_names (flat (ls @ m # rs))" "lq_name m = u"
  shows "locate (flat (ls @ m # rs)) u r =
    (case lq_exact m of Some c \<Rightarrow> (NGX_OK, c) | None \<Rightarrow> (NGX_AGAIN, the (lq_inclusive m)))"
proof -
  have "lq_name x \<noteq> u" if "x \<in> set (flat ls)" for x using that level_split(1) [OF assms(1,2)] assms(3) by force
  then show ?thesis unfolding level_flat_split by (subst locate_here) (simp_all add: assms(3) split: option.split)
qed

lemma locate_longer:
  assumes "level p (ls @ m # rs)" "sorted_names (flat (ls @ m # rs))" "strict_prefix (lq_name m) u"
  shows "lq_inclusive m = Some c \<Longrightarrow> locate (flat (ls @ m # rs)) u r = locate (flat (lq_list m)) u (NGX_AGAIN, c)"
    and "lq_inclusive m = None \<Longrightarrow> locate (flat (ls @ m # rs)) u r = locate (flat rs) u r"
proof -
  note split = level_split [OF assms(1,2)]
  have pre: "prefix (lq_name m) u" "lq_name m \<noteq> u" using assms(3) by (auto simp: strict_prefix_def)
  note left = prefix_left_irrelevant [OF assms(1,2) pre(1)]
  {
    assume c: "lq_inclusive m = Some c"
    have "\<not> relevant u x" if "x \<in> set (flat rs)" for x
      using that split(4,5) pre(1) c by (intro behind_irrelevant [of "lq_name m"]) auto
    then have "locate ((set_list [] m # flat (lq_list m)) @ flat rs) u r = locate (set_list [] m # flat (lq_list m)) u r"
      by (rule locate_parts(1))
    also have "\<dots> = locate (flat (lq_list m)) u (NGX_AGAIN, c)" using pre c by (intro locate_inner) simp_all
    finally show "locate (flat (ls @ m # rs)) u r = locate (flat (lq_list m)) u (NGX_AGAIN, c)"
      using left by (simp add: flat_append locate_parts(2))
  next
    assume none: "lq_inclusive m = None"
    then have "lq_list m = []" using assms(1) by (auto simp: level_append)
    have "\<not> relevant u (set_list [] m)" using none pre by (auto simp: relevant_def)
    with left have "\<not> relevant u x" if "x \<in> set (flat ls @ [set_list [] m])" for x using that by auto
    then have "locate ((flat ls @ [set_list [] m]) @ flat rs) u r = locate (flat rs) u r"
      by (rule locate_parts(2))
    with \<open>lq_list m = []\<close> show "locate (flat (ls @ m # rs)) u r = locate (flat rs) u r" by (simp add: flat_append)
  }
qed

lemma locate_shorter:
  assumes "level p (ls @ m # rs)" "sorted_names (flat (ls @ m # rs))" "lq_name m = u @ c # v"
  shows "locate (flat (ls @ m # rs)) u r =
    locate (flat ls) u (if v = [] \<and> lq_redirect m then (NGX_DONE, lq_conf m) else r)"
proof -
  note split = level_split [OF assms(1,2)]
  have wf: "wf_lq m" using assms(1) by (simp add: level_append)
  with assms(3) have "name_rank (u @ [chr_slash]) \<le> name_rank (lq_name m)"
    using slash_least [of c u v] by (auto simp: wf_lq_def)
  with split(4) have right: "\<not> relevant u x" if "x \<in> set (flat (lq_list m) @ flat rs)" for x
    using that by (intro right_irrelevant) (fastforce intro: le_less_trans)
  show ?thesis
  proof (cases "v = [] \<and> lq_redirect m")
    case True
    then have "lq_name m = u @ [chr_slash]" using wf assms(3) by (auto simp: wf_lq_def)
    moreover from this split(1,2) have "lq_name x \<noteq> u @ [chr_slash] \<and> \<not> (lq_inclusive x \<noteq> None \<and> prefix (lq_name x) u)"
      if "x \<in> set (flat ls)" for x using that by fastforce
    ultimately have "locate (flat ls @ [set_list [] m]) u r = locate (flat ls) u (NGX_DONE, lq_conf m)"
      using True by (subst locate_redirect) auto
    moreover have "locate ((flat ls @ [set_list [] m]) @ flat (lq_list m) @ flat rs) u r = locate (flat ls @ [set_list [] m]) u r"
      using right by (rule locate_parts(1))
    ultimately show ?thesis using True by (simp add: flat_append)
  next
    case False
    then have "\<not> relevant u (set_list [] m)" using assms(3) by (auto simp: relevant_def prefix_def)
    with right have "locate (flat ls @ set_list [] m # flat (lq_list m) @ flat rs) u r = locate (flat ls) u r"
      by (intro locate_parts(1)) auto
    with False show ?thesis by (auto simp: flat_append)
  qed
qed

text \<open>A node whose subtrees find what their levels hold finds what the whole level holds.\<close>

lemma take_less_extend:
  assumes "k \<le> length a" "k \<le> length b" "name_rank (take k a) < name_rank (take k b)"
  shows "name_rank (p @ a @ v) < name_rank (p @ b)"
  using name_rank_less_take [OF assms, of v "[]"] by simp

lemma find_node:
  assumes L: "level p (ls @ m # rs)" "sorted_names (flat (ls @ m # rs))"
    and N: "lq_name m = p @ N"
    and left: "\<And>w r. ngx_http_core_find_static_location w left r = locate (flat ls) (p @ w) r"
    and right: "\<And>w r. ngx_http_core_find_static_location w right r = locate (flat rs) (p @ w) r"
    and tree: "\<And>w r. ngx_http_core_find_static_location w tree r = locate (flat (lq_list m)) (p @ N @ w) r"
  shows "ngx_http_core_find_static_location w
      (Node left right tree (lq_exact m) (lq_inclusive m) (lq_redirect m) (word_of_nat (length N)) N) r
    = locate (flat (ls @ m # rs)) (p @ w) r"
proof -
  obtain rv conf where r: "r = (rv, conf)" by (cases r)
  let ?n = "min (length w) (length N)"
  have wf: "wf_lq m" using L(1) by (simp add: level_append)
  have len: "unat (word_of_nat (length N) :: byte) = length N"
    using wf N by (simp add: wf_lq_def unat_of_nat)
  have n: "(if length w \<le> length N then length w else length N) = ?n" by simp
  have "chr_nul \<notin> set (take ?n N)" using wf N in_set_takeD [of chr_nul ?n N] by (auto simp: wf_lq_def)
  note sign = filename_cmp_sign [of ?n w N, OF min.cobounded1 min.cobounded2 this]
  let ?walk = ngx_http_core_find_static_location
  have step: "?walk w (Node left right tree (lq_exact m) (lq_inclusive m) (lq_redirect m) (word_of_nat (length N)) N) r =
      (if ngx_filename_cmp w N ?n < 0 then ?walk w left r
       else if 0 < ngx_filename_cmp w N ?n then ?walk w right r
       else if length N < length w
       then (case lq_inclusive m of Some c \<Rightarrow> ?walk (drop (length N) w) tree (NGX_AGAIN, c) | None \<Rightarrow> ?walk w right r)
       else if length w = length N
       then (case lq_exact m of Some c \<Rightarrow> (NGX_OK, c) | None \<Rightarrow> (NGX_AGAIN, the (lq_inclusive m)))
       else ?walk w left (if length w + 1 = length N \<and> lq_redirect m then (NGX_DONE, lq_conf m) else r))"
    unfolding r ngx_http_core_find_static_location.simps len n Let_def
    using wf by (auto simp: lq_conf_def wf_lq_def split: option.split)
  consider (less) "ngx_filename_cmp w N ?n < 0" | (greater) "0 < ngx_filename_cmp w N ?n"
    | (equal) "ngx_filename_cmp w N ?n = 0" by linarith
  then show ?thesis
  proof cases
    case less
    with sign(1) have "name_rank ((p @ w) @ [chr_slash]) < name_rank (lq_name m)"
      using take_less_extend [of ?n w N p "[chr_slash]"] by (simp add: N)
    from locate_less [OF L this] less show ?thesis by (simp add: step left)
  next
    case greater
    with sign less_linear [of "name_rank (take ?n w)" "name_rank (take ?n N)"]
    have gt: "name_rank (take ?n N) < name_rank (take ?n w)" by auto
    with take_less_extend [of ?n N w p "[]"] have "name_rank (lq_name m) < name_rank (p @ w)" by (simp add: N)
    moreover have "\<not> prefix (lq_name m) (p @ w)" using gt by (auto simp: N prefix_def)
    ultimately show ?thesis using greater by (simp add: step right locate_greater [OF L])
  next
    case equal
    with sign(2) have take: "take ?n w = take ?n N" by simp
    consider (longer) x v where "w = N @ x # v" | (same) "w = N" | (shorter) x v where "N = w @ x # v"
    proof (cases "length N \<le> length w")
      case True
      with take have "w = N @ drop (length N) w" using append_take_drop_id [of "length N" w] by simp
      then show ?thesis using that(1,2) by (cases "drop (length N) w") auto
    next
      case False
      with take have "N = w @ drop (length w) N" using append_take_drop_id [of "length w" N] by simp
      then show ?thesis using that(2,3) by (cases "drop (length w) N") auto
    qed
    then show ?thesis
    proof cases
      case longer
      then have "strict_prefix (lq_name m) (p @ w)" by (simp add: N strict_prefix_def)
      note found = locate_longer [OF L this]
      show ?thesis
        using step equal longer found by (cases "lq_inclusive m") (simp_all add: right tree)
    next
      case same
      then show ?thesis using step equal locate_same [OF L, of "p @ w"] by (simp add: N)
    next
      case shorter
      then show ?thesis using step equal locate_shorter [OF L, of "p @ w" x v] by (simp add: N left)
    qed
  qed
qed

lemma find_tree:
  assumes "level p qs" "sorted_names (flat qs)"
  shows "ngx_http_core_find_static_location w (ngx_http_create_locations_tree qs (length p)) r = locate (flat qs) (p @ w) r"
  using assms
proof (induction "lqs_size qs" arbitrary: p qs w r rule: less_induct)
  case less
  show ?case
  proof (cases "qs = []")
    case True
    then show ?thesis by (cases r) (simp add: ngx_http_create_locations_tree.simps locate_def)
  next
    case False
    define m ls rs where "m = qs ! (length qs div 2)" and "ls = take (length qs div 2) qs" and "rs = drop (Suc (length qs div 2)) qs"
    have qs: "qs = ls @ m # rs" using False by (simp add: m_def ls_def rs_def id_take_nth_drop)
    from less.prems have L: "level p (ls @ m # rs)" "sorted_names (flat (ls @ m # rs))" by (simp_all add: qs)
    have parts: "level p ls" "level p rs" "level (lq_name m) (lq_list m)" "sorted_names (flat ls)" "sorted_names (flat rs)"
      "sorted_names (flat (lq_list m))" using L by (simp_all add: level_append flat_append sorted_wrt_append)
    have size: "lqs_size ls < lqs_size qs" "lqs_size rs < lqs_size qs" "lqs_size (lq_list m) < lqs_size qs"
      using size_lq_list [of m] by (simp_all add: qs lqs_size_append)
    from L(1) obtain N where N: "lq_name m = p @ N" by (auto simp: level_append prefix_def)
    have nil: "ngx_http_create_locations_tree [] k = Null" for k by (simp add: ngx_http_create_locations_tree.simps)
    have tail: "ls = [] \<Longrightarrow> rs = []" using False by (auto simp: ls_def rs_def)
    have tree: "ngx_http_create_locations_tree qs (length p) =
        Node (ngx_http_create_locations_tree ls (length p)) (ngx_http_create_locations_tree rs (length p))
          (ngx_http_create_locations_tree (lq_list m) (length p + length N))
          (lq_exact m) (lq_inclusive m) (lq_redirect m) (word_of_nat (length N)) N"
      unfolding ngx_http_create_locations_tree.simps [of qs] Let_def m_def [symmetric] ls_def [symmetric] rs_def [symmetric]
      using tail False by (auto simp: nil N lq_redirect_def)
    have "ngx_http_core_find_static_location w (ngx_http_create_locations_tree (lq_list m) (length p + length N)) r =
        locate (flat (lq_list m)) (p @ N @ w) r" for w r
      using less.hyps [OF size(3) parts(3,6)] by (simp add: N)
    with less.hyps [OF size(1) parts(1,4)] less.hyps [OF size(2) parts(2,5)] show ?thesis
      unfolding tree by (subst find_node [OF L N]) (simp_all add: qs)
  qed
qed

end
