(* ===== verification/Http_Locations.thy ===== *)
theory Http_Locations
  imports Http_Location_Tree
begin

section \<open>The static locations of a level\<close>

text \<open>
  The search tree, built from the locations of a level as the configuration lists them, finds what their names
  promise: nesting makes levels, joining makes the names unique, and the order of the configuration does not
  matter.
\<close>

subsection \<open>Nesting makes levels\<close>

lemma prefix_take: "prefix a b \<longleftrightarrow> length a \<le> length b \<and> take (length a) b = a"
proof
  assume "length a \<le> length b \<and> take (length a) b = a"
  then have "b = a @ drop (length a) b" by (metis append_take_drop_id)
  then show "prefix a b" by (rule prefixI)
qed (auto simp: prefix_def)

lemma lq_prefix_iff:
  assumes "wf_lq a" "wf_lq b" shows "lq_prefix a b \<longleftrightarrow> prefix (lq_name a) (lq_name b)"
proof (cases "length (lq_name a) \<le> length (lq_name b)")
  case True
  have "chr_nul \<notin> set (take (length (lq_name a)) (lq_name b))"
    using assms(2) by (auto simp: wf_lq_def dest: in_set_takeD)
  from filename_cmp_sign(2) [OF order_refl True this] True show ?thesis
    by (auto simp: lq_prefix_def prefix_take not_less)
qed (simp add: lq_prefix_def prefix_take)

text \<open>A name between a name and one it is a prefix of has that prefix.\<close>

lemma prefix_between:
  assumes "name_rank a < name_rank b" "name_rank b < name_rank c" "prefix a c"
  shows "prefix a b"
proof -
  obtain v where "c = a @ v" using assms(3) by (auto simp: prefix_def)
  with assms(2) have "\<not> name_rank (a @ v) < name_rank (b @ [])" by simp
  with rank_less_cases [OF assms(1)] show ?thesis by blast
qed

lemma dropWhile_not_prefix:
  assumes "sorted_names (lq # xs)" "list_all wf_lq (lq # xs)" "x \<in> set (dropWhile (lq_prefix lq) xs)"
  shows "\<not> prefix (lq_name lq) (lq_name x)"
proof
  assume p: "prefix (lq_name lq) (lq_name x)"
  obtain y ys where y: "dropWhile (lq_prefix lq) xs = y # ys" using assms(3) by (cases "dropWhile (lq_prefix lq) xs") auto
  define zs where "zs = takeWhile (lq_prefix lq) xs"
  have xs: "xs = zs @ y # ys" unfolding zs_def y [symmetric] by simp
  have "\<not> lq_prefix lq y" using y by (metis dropWhile_eq_Cons_conv)
  with assms(2) xs have ny: "\<not> prefix (lq_name lq) (lq_name y)" by (simp add: lq_prefix_iff)
  with p assms(3) y have "x \<in> set ys" by auto
  with assms(1) xs have "name_rank (lq_name lq) < name_rank (lq_name y)" "name_rank (lq_name y) < name_rank (lq_name x)"
    by (auto simp: sorted_wrt_append)
  with p ny prefix_between show False by blast
qed

lemma set_list_twice [simp]: "set_list qs (set_list rs lq) = set_list qs lq"
  by (simp add: set_list_def)

lemma set_list_id [simp]: "lq_list lq = qs \<Longrightarrow> set_list qs lq = lq"
  by (cases lq) (simp add: set_list_def)

lemma create_list_level:
  "list_all (\<lambda>q. wf_lq q \<and> lq_list q = [] \<and> prefix p (lq_name q)) qs \<Longrightarrow> sorted_names qs \<Longrightarrow>
     flat (ngx_http_create_locations_list qs) = qs \<and> level p (ngx_http_create_locations_list qs)"
proof (induction qs arbitrary: p rule: ngx_http_create_locations_list.induct)
  case (3 lq lx xs)
  let ?in = "takeWhile (lq_prefix lq) (lx # xs)" and ?x = "dropWhile (lq_prefix lq) (lx # xs)"
  have parts: "?in @ ?x = lx # xs" by (rule takeWhile_dropWhile_id)
  have all: "list_all (\<lambda>q. wf_lq q \<and> lq_list q = [] \<and> prefix p (lq_name q)) (?in @ ?x)" "sorted_names (?in @ ?x)"
    using "3.prems" unfolding parts by auto
  have wf: "list_all wf_lq (lq # lx # xs)" using "3.prems"(1) by (auto simp: list_all_iff)
  have nil: "lq_list lq = []" "wf_lq lq" "prefix p (lq_name lq)" using "3.prems"(1) by auto
  have not: "\<not> prefix (lq_name lq) (lq_name y)" if "y \<in> set ?x" for y
    using that dropWhile_not_prefix [OF "3.prems"(2) wf] by blast
  show ?case
  proof (cases "lq_inclusive lq = None")
    case True
    with "3.IH"(1) [of p] "3.prems" nil show ?thesis by auto
  next
    case False
    show ?thesis
    proof (cases "?in = []")
      case True
      then have x: "?x = lx # xs" using parts by simp
      with True False "3.IH"(2) [of ?in ?x p] "3.prems" nil not show ?thesis by auto
    next
      case in': False
      have inner: "strict_prefix (lq_name lq) (lq_name y)" if y: "y \<in> set ?in" for y
      proof -
        have "y \<in> set (lx # xs)" "lq_prefix lq y" using y set_takeWhileD by metis+
        then show ?thesis using wf lq_prefix_iff [of lq y] "3.prems"(2) by (auto simp: list_all_iff strict_prefix_def)
      qed
      have in_all: "list_all (\<lambda>q. wf_lq q \<and> lq_list q = [] \<and> prefix (lq_name lq) (lq_name q)) ?in" "sorted_names ?in"
        using all inner by (auto simp: list_all_iff sorted_wrt_append strict_prefix_def)
      have x_all: "list_all (\<lambda>q. wf_lq q \<and> lq_list q = [] \<and> prefix p (lq_name q)) ?x" "sorted_names ?x"
        using all by (auto simp: sorted_wrt_append)
      have IH: "flat (ngx_http_create_locations_list ?in) = ?in" "level (lq_name lq) (ngx_http_create_locations_list ?in)"
        using "3.IH"(3,4) [of ?in ?x "lq_name lq"] False in' in_all nil by (cases "?x = []"; simp)+
      show ?thesis
      proof (cases "?x = []")
        case True
        then have "?in = lx # xs" using parts by simp
        with inner have "\<forall>y \<in> set (lx # xs). strict_prefix (lq_name lq) (lq_name y)" by metis
        with True False in' IH nil \<open>?in = lx # xs\<close> show ?thesis by auto
      next
        case x': False
        have "flat (ngx_http_create_locations_list ?x) = ?x" "level p (ngx_http_create_locations_list ?x)"
          using "3.IH"(5) [of ?in ?x p] False in' x' x_all by simp_all
        with False in' x' IH inner nil parts not show ?thesis by auto
      qed
    qed
  qed
qed simp_all

subsection \<open>Joining\<close>

text \<open>
  The queue in the order of the names, an exact location before the inclusive one with its name; the locations
  of either kind, in their order.
\<close>

abbreviation lq_order :: "'r location_queue \<Rightarrow> 'r location_queue \<Rightarrow> bool" where
  "lq_order a b \<equiv> name_rank (lq_name a) < name_rank (lq_name b)
     \<or> lq_name a = lq_name b \<and> (lq_exact b \<noteq> None \<longrightarrow> lq_inclusive a = None)"

abbreviation exacts :: "'r location_queue list \<Rightarrow> 'r location_queue list" where
  "exacts qs \<equiv> filter (\<lambda>q. lq_exact q \<noteq> None) qs"

abbreviation inclusives :: "'r location_queue list \<Rightarrow> 'r location_queue list" where
  "inclusives qs \<equiv> filter (\<lambda>q. lq_inclusive q \<noteq> None) qs"

definition exact_names :: "'r location_queue list \<Rightarrow> (byte list \<times> 'r loc_conf option) list" where
  "exact_names qs = map (\<lambda>q. (lq_name q, lq_exact q)) (exacts qs)"

definition inclusive_names :: "'r location_queue list \<Rightarrow> (byte list \<times> 'r loc_conf option) list" where
  "inclusive_names qs = map (\<lambda>q. (lq_name q, lq_inclusive q)) (inclusives qs)"

lemma names_Cons [simp]:
  "exact_names (q # qs) = (if lq_exact q = None then [] else [(lq_name q, lq_exact q)]) @ exact_names qs"
  "inclusive_names (q # qs) = (if lq_inclusive q = None then [] else [(lq_name q, lq_inclusive q)]) @ inclusive_names qs"
  "exact_names [] = []" "inclusive_names [] = []"
  by (simp_all add: exact_names_def inclusive_names_def)

lemma exact_names_in: "(n, c) \<in> set (exact_names qs) \<longleftrightarrow> (\<exists>q \<in> set qs. lq_name q = n \<and> lq_exact q = c \<and> c \<noteq> None)"
  by (auto simp: exact_names_def)

lemma inclusive_names_in: "(n, c) \<in> set (inclusive_names qs) \<longleftrightarrow> (\<exists>q \<in> set qs. lq_name q = n \<and> lq_inclusive q = c \<and> c \<noteq> None)"
  by (auto simp: inclusive_names_def)

lemma names_fresh:
  assumes "\<And>q. q \<in> set qs \<Longrightarrow> name_rank (lq_name m) < name_rank (lq_name q)"
  shows "lq_name m \<notin> set (map fst (exact_names qs))" "lq_name m \<notin> set (map fst (inclusive_names qs))"
    and "distinct (map fst (exact_names (m # qs))) = distinct (map fst (exact_names qs))"
      "distinct (map fst (inclusive_names (m # qs))) = distinct (map fst (inclusive_names qs))"
    and "exact_names rs = exact_names qs \<and> inclusive_names rs = inclusive_names qs \<Longrightarrow> list_all (\<lambda>q. wf_lq q \<and> lq_list q = []) rs \<Longrightarrow>
      r \<in> set rs \<Longrightarrow> name_rank (lq_name m) < name_rank (lq_name r)"
proof -
  have "\<forall>q \<in> set qs. lq_name q \<noteq> lq_name m" using assms by force
  then show fresh: "lq_name m \<notin> set (map fst (exact_names qs))" "lq_name m \<notin> set (map fst (inclusive_names qs))"
    by (auto simp: exact_names_def inclusive_names_def)
  then show "distinct (map fst (exact_names (m # qs))) = distinct (map fst (exact_names qs))"
    "distinct (map fst (inclusive_names (m # qs))) = distinct (map fst (inclusive_names qs))" by simp_all
  assume rs: "exact_names rs = exact_names qs \<and> inclusive_names rs = inclusive_names qs" "list_all (\<lambda>q. wf_lq q \<and> lq_list q = []) rs" "r \<in> set rs"
  then have "lq_exact r \<noteq> None \<or> lq_inclusive r \<noteq> None" by (simp add: list_all_iff wf_lq_def)
  with rs(3) have "(lq_name r, lq_exact r) \<in> set (exact_names rs) \<or> (lq_name r, lq_inclusive r) \<in> set (inclusive_names rs)"
    by (auto simp: exact_names_in inclusive_names_in)
  then obtain q where "q \<in> set qs" "lq_name q = lq_name r"
    unfolding conjunct1 [OF rs(1)] conjunct2 [OF rs(1)] exact_names_in inclusive_names_in by blast
  with assms [of q] show "name_rank (lq_name m) < name_rank (lq_name r)" by simp
qed

lemma same_name_iff:
  "chr_nul \<notin> set b \<Longrightarrow> length a = length b \<and> ngx_filename_cmp a b (length b) = 0 \<longleftrightarrow> a = b"
  using filename_cmp_sign(2) [of "length b" a b] by (cases "length a = length b") auto

lemma join_correct:
  assumes "sorted_wrt lq_order qs" "list_all (\<lambda>q. wf_lq q \<and> lq_list q = []) qs"
  shows "(\<exists>rs. ngx_http_join_exact_locations qs = Inr rs) \<longleftrightarrow>
      distinct (map fst (exact_names qs)) \<and> distinct (map fst (inclusive_names qs))" (is ?succeeds)
    and "ngx_http_join_exact_locations qs = Inr rs \<Longrightarrow> sorted_names rs \<and> list_all (\<lambda>q. wf_lq q \<and> lq_list q = []) rs \<and>
      exact_names rs = exact_names qs \<and> inclusive_names rs = inclusive_names qs"
proof -
  have "?succeeds \<and> (\<forall>rs. ngx_http_join_exact_locations qs = Inr rs \<longrightarrow>
      sorted_names rs \<and> list_all (\<lambda>q. wf_lq q \<and> lq_list q = []) rs \<and>
      exact_names rs = exact_names qs \<and> inclusive_names rs = inclusive_names qs)"
    using assms
  proof (induction qs rule: ngx_http_join_exact_locations.induct)
    case (1 lq lx xs)
    have wf: "wf_lq lq" "wf_lq lx" "lq_list lq = []" using "1.prems"(2) by auto
    then have same: "length (lq_name lq) = length (lq_name lx)
        \<and> ngx_filename_cmp (lq_name lq) (lq_name lx) (length (lq_name lx)) = 0 \<longleftrightarrow> lq_name lq = lq_name lx"
      by (intro same_name_iff) (simp add: wf_lq_def)
    show ?case
    proof (cases "lq_name lq = lq_name lx")
      case True
      let ?both = "lq_exact lq \<noteq> None \<and> lq_exact lx \<noteq> None \<or> lq_inclusive lq \<noteq> None \<and> lq_inclusive lx \<noteq> None"
      show ?thesis
      proof (cases ?both)
        case both: True
        with True same show ?thesis by auto
      next
        case both: False
        let ?m = "Location_Queue (lq_exact lq) (lq_inclusive lx) (lq_name lq) (lq_list lq)"
        have kinds: "lq_exact lx = None" "lq_inclusive lq = None" "lq_exact lq \<noteq> None" "lq_inclusive lx \<noteq> None"
          using both wf True "1.prems"(1) by (auto simp: wf_lq_def)
        have "wf_lq ?m" using wf True kinds by (auto simp: wf_lq_def lq_redirect_def)
        moreover have "sorted_wrt lq_order (?m # xs)" using "1.prems"(1) True kinds by auto
        ultimately have "sorted_wrt lq_order (?m # xs)" "list_all (\<lambda>q. wf_lq q \<and> lq_list q = []) (?m # xs)"
          using "1.prems"(2) by auto
        note IH = "1.IH"(1) [OF iffD2 [OF same True] both this]
        have eqs: "exact_names (?m # xs) = exact_names (lq # lx # xs)" "inclusive_names (?m # xs) = inclusive_names (lq # lx # xs)"
          "ngx_http_join_exact_locations (lq # lx # xs) = ngx_http_join_exact_locations (?m # xs)"
          using kinds True same both by auto
        from IH [unfolded eqs(1,2)] show ?thesis unfolding eqs(3) .
      qed
    next
      case False
      have IH: "(\<exists>rs. ngx_http_join_exact_locations (lx # xs) = Inr rs) \<longleftrightarrow>
            distinct (map fst (exact_names (lx # xs))) \<and> distinct (map fst (inclusive_names (lx # xs)))"
        "\<And>rs. ngx_http_join_exact_locations (lx # xs) = Inr rs \<Longrightarrow>
            sorted_names rs \<and> list_all (\<lambda>q. wf_lq q \<and> lq_list q = []) rs \<and>
            exact_names rs = exact_names (lx # xs) \<and> inclusive_names rs = inclusive_names (lx # xs)"
        using "1.IH"(2) same False "1.prems" by auto
      have below: "name_rank (lq_name lq) < name_rank (lq_name q)" if "q \<in> set (lx # xs)" for q
      proof -
        have lx: "name_rank (lq_name lq) < name_rank (lq_name lx)" using "1.prems"(1) False by auto
        with that "1.prems"(1) show ?thesis by (auto intro: less_trans)
      qed
      note fresh = names_fresh [of "lx # xs" lq, OF this]
      have join: "ngx_http_join_exact_locations (lq # lx # xs) =
          (case ngx_http_join_exact_locations (lx # xs) of Inl e \<Rightarrow> Inl e | Inr ys \<Rightarrow> Inr (lq # ys))"
        unfolding ngx_http_join_exact_locations.simps(1) same using False by (simp only: if_False)
      show ?thesis
      proof (cases "ngx_http_join_exact_locations (lx # xs)")
        case (Inl e)
        have "\<not> (distinct (map fst (exact_names (lx # xs))) \<and> distinct (map fst (inclusive_names (lx # xs))))"
          unfolding IH(1) [symmetric] Inl by simp
        moreover have "ngx_http_join_exact_locations (lq # lx # xs) = Inl e" unfolding join Inl by simp
        ultimately show ?thesis using fresh(3,4) by (simp del: names_Cons ngx_http_join_exact_locations.simps)
      next
        case (Inr rs)
        note rs = IH(2) [OF Inr]
        have "distinct (map fst (exact_names (lx # xs))) \<and> distinct (map fst (inclusive_names (lx # xs)))"
          unfolding IH(1) [symmetric] Inr by simp
        moreover have "ngx_http_join_exact_locations (lq # lx # xs) = Inr (lq # rs)" unfolding join Inr by simp
        moreover have "sorted_names (lq # rs)" using rs fresh(5) by auto
        moreover have "exact_names (lq # rs) = exact_names (lq # lx # xs)" "inclusive_names (lq # rs) = inclusive_names (lq # lx # xs)"
          using rs by (simp_all only: names_Cons(1,2) [of lq])
        ultimately show ?thesis using rs wf fresh(3,4) by (simp del: names_Cons ngx_http_join_exact_locations.simps)
      qed
    qed
  qed simp_all
  then show ?succeeds and "ngx_http_join_exact_locations qs = Inr rs \<Longrightarrow>
      sorted_names rs \<and> list_all (\<lambda>q. wf_lq q \<and> lq_list q = []) rs \<and>
      exact_names rs = exact_names qs \<and> inclusive_names rs = inclusive_names qs" by blast+
qed

subsection \<open>The static locations of a level\<close>

text \<open>
  The location a URI selects among those of the configuration, in any order: the exact location with its name, the
  prefix location with its name, the location with its name and a slash when that one asks for a redirect, and
  then the prefix location with the longest name.
\<close>

definition exact_location :: "'r loc_conf list \<Rightarrow> byte list \<Rightarrow> 'r loc_conf option" where
  "exact_location cs n = find (\<lambda>c. loc_exact_match c \<and> loc_name c = n) cs"

definition prefix_location :: "'r loc_conf list \<Rightarrow> byte list \<Rightarrow> 'r loc_conf option" where
  "prefix_location cs n = find (\<lambda>c. \<not> loc_exact_match c \<and> loc_name c = n) cs"

definition longest_prefix :: "'r loc_conf list \<Rightarrow> byte list \<Rightarrow> 'r loc_conf option" where
  "longest_prefix cs u =
     (let ps = filter (\<lambda>c. \<not> loc_exact_match c \<and> prefix (loc_name c) u) cs
      in find (\<lambda>c. \<forall>d \<in> set ps. length (loc_name d) \<le> length (loc_name c)) ps)"

definition select_location :: "'r loc_conf list \<Rightarrow> byte list \<Rightarrow> 'r loc_conf \<Rightarrow> ngx_rc \<times> 'r loc_conf" where
  "select_location cs u conf =
     (case exact_location cs u of Some c \<Rightarrow> (NGX_OK, c)
      | None \<Rightarrow> (case prefix_location cs u of Some c \<Rightarrow> (NGX_AGAIN, c)
      | None \<Rightarrow>
          let slash = u @ [chr_slash]
          in if \<exists>c \<in> set cs. loc_name c = slash \<and> loc_auto_redirect c
             then (NGX_DONE, case exact_location cs slash of Some c \<Rightarrow> c | None \<Rightarrow> the (prefix_location cs slash))
             else case longest_prefix cs u of Some c \<Rightarrow> (NGX_AGAIN, c) | None \<Rightarrow> (NGX_DECLINED, conf)))"

text \<open>A name in a configuration: without a zero, short enough for a node, and with a slash where redirects go.\<close>

definition static_ok :: "'r loc_conf \<Rightarrow> bool" where
  "static_ok c \<longleftrightarrow> loc_class c = Static \<and> chr_nul \<notin> set (loc_name c) \<and> length (loc_name c) < 256 \<and>
     (loc_auto_redirect c \<longrightarrow> suffix [chr_slash] (loc_name c))"

abbreviation kind :: "'r loc_conf \<Rightarrow> byte list \<times> bool" where
  "kind c \<equiv> (loc_name c, loc_exact_match c)"

lemma location_queue_static [simp]:
  assumes "loc_class c = Static"
  shows "lq_exact (location_queue c) = (if loc_exact_match c then Some c else None)"
    "lq_inclusive (location_queue c) = (if loc_exact_match c then None else Some c)"
    "lq_name (location_queue c) = loc_name c" "lq_list (location_queue c) = []"
    "lq_conf (location_queue c) = c"
  using assms by (auto simp: location_queue_def lq_conf_def loc_class_def split: if_splits)

lemma location_queue_wf: "static_ok c \<Longrightarrow> wf_lq (location_queue c)"
  by (auto simp: static_ok_def wf_lq_def lq_redirect_def suffix_def)

lemma name_key_nul: "chr_nul \<notin> set s \<Longrightarrow> name_key s = name_rank s"
  by (simp add: name_key_def takeWhile_eq_all_conv) (metis takeWhile_eq_all_conv)

lemma static_key:
  assumes "static_ok a" "static_ok b" "ngx_http_cmp_locations (location_queue a) (location_queue b) \<le> 0"
  shows "lq_order (location_queue a) (location_queue b)"
  using assms order.order_iff_strict [of "name_rank (loc_name a)" "name_rank (loc_name b)"]
  by (auto simp: cmp_locations_key loc_key_def name_key_nul static_ok_def split: if_splits)

text \<open>The sorted queue of the locations.\<close>

definition sorted_queue :: "'r loc_conf list \<Rightarrow> 'r location_queue list \<Rightarrow> bool" where
  "sorted_queue cs qs \<longleftrightarrow> sorted_wrt (\<lambda>a b. ngx_http_cmp_locations a b \<le> 0) qs \<and> mset qs = mset (map location_queue cs)"

lemma sort_list_sorted_queue: "sorted_queue cs (sort_list ngx_http_cmp_locations (map location_queue cs))"
  unfolding sorted_queue_def by (intro conjI loc_cmp.sort_list_sorted(1) mset_sort_list) simp

lemma sorted_locations:
  assumes "list_all static_ok cs" "sorted_queue cs qs"
  shows "sorted_wrt lq_order qs" and "set qs = location_queue ` set cs"
proof -
  have "mset qs = mset (map location_queue cs)" using assms(2) by (simp add: sorted_queue_def)
  then show set: "set qs = location_queue ` set cs" by (metis set_map set_mset_mset)
  have "sorted_wrt (\<lambda>a b. ngx_http_cmp_locations a b \<le> 0) qs" using assms(2) by (simp add: sorted_queue_def)
  then show "sorted_wrt lq_order qs"
    by (rule sorted_wrt_mono_rel [rotated]) (use assms static_key in \<open>force simp: set list_all_iff\<close>)
qed

lemma mset_names:
  "mset qs = mset rs \<Longrightarrow> mset (exact_names qs) = mset (exact_names rs) \<and> mset (inclusive_names qs) = mset (inclusive_names rs)"
  by (simp add: exact_names_def inclusive_names_def)

lemma static_names:
  "list_all static_ok cs \<Longrightarrow> exact_names (map location_queue cs) = map (\<lambda>c. (loc_name c, Some c)) (filter loc_exact_match cs)"
  "list_all static_ok cs \<Longrightarrow>
     inclusive_names (map location_queue cs) = map (\<lambda>c. (loc_name c, Some c)) (filter (\<lambda>c. \<not> loc_exact_match c) cs)"
  by (induction cs) (simp_all add: static_ok_def)

lemma distinct_kinds:
  "distinct (map kind cs) \<longleftrightarrow>
     distinct (map loc_name (filter loc_exact_match cs)) \<and> distinct (map loc_name (filter (\<lambda>c. \<not> loc_exact_match c) cs))"
  by (induction cs) (auto simp: image_iff)

lemma kind_location:
  "distinct (map kind cs) \<Longrightarrow> exact_location cs n = Some c \<longleftrightarrow> c \<in> set cs \<and> loc_exact_match c \<and> loc_name c = n"
  "distinct (map kind cs) \<Longrightarrow> prefix_location cs n = Some c \<longleftrightarrow> c \<in> set cs \<and> \<not> loc_exact_match c \<and> loc_name c = n"
  by (induction cs) (auto simp: exact_location_def prefix_location_def)

lemma sorted_distinct_kinds:
  assumes "list_all static_ok cs" "sorted_queue cs qs"
  shows "distinct (map kind cs) \<longleftrightarrow> distinct (map fst (exact_names qs)) \<and> distinct (map fst (inclusive_names qs))"
proof -
  have "mset qs = mset (map location_queue cs)" using assms(2) by (simp add: sorted_queue_def)
  note names = mset_names [OF this]
  then have "distinct (map fst (exact_names qs)) \<longleftrightarrow> distinct (map fst (exact_names (map location_queue cs)))"
    "distinct (map fst (inclusive_names qs)) \<longleftrightarrow> distinct (map fst (inclusive_names (map location_queue cs)))"
    by (intro mset_eq_imp_distinct_iff; simp)+
  then show ?thesis by (simp add: distinct_kinds static_names [OF assms(1)] comp_def)
qed

lemma sorted_wf:
  assumes "list_all static_ok cs" "sorted_queue cs qs"
  shows "list_all (\<lambda>q. wf_lq q \<and> lq_list q = []) qs"
  using assms(1) location_queue_wf by (auto simp: list_all_iff sorted_locations(2) [OF assms] static_ok_def)

text \<open>The joined queue, and what its elements are.\<close>

lemma joined_names:
  assumes ok: "list_all static_ok cs" "distinct (map kind cs)" and qs: "sorted_queue cs qs"
  obtains rs where "ngx_http_join_exact_locations qs = Inr rs"
    "sorted_names rs" "list_all (\<lambda>q. wf_lq q \<and> lq_list q = []) rs"
    "\<And>n c. (\<exists>q \<in> set rs. lq_name q = n \<and> lq_exact q = Some c) \<longleftrightarrow> exact_location cs n = Some c"
    "\<And>n c. (\<exists>q \<in> set rs. lq_name q = n \<and> lq_inclusive q = Some c) \<longleftrightarrow> prefix_location cs n = Some c"
proof -
  note join = join_correct [OF sorted_locations(1) [OF ok(1) qs] sorted_wf [OF ok(1) qs]]
  obtain rs where rs: "ngx_http_join_exact_locations qs = Inr rs"
    using join(1) sorted_distinct_kinds [OF ok(1) qs] ok(2) by blast
  note joined = join(2) [OF rs]
  have names: "mset (exact_names qs) = mset (exact_names (map location_queue cs))"
    "mset (inclusive_names qs) = mset (inclusive_names (map location_queue cs))"
    using qs mset_names [of qs "map location_queue cs"] by (simp_all add: sorted_queue_def)
  have E: "(\<exists>q \<in> set rs. lq_name q = n \<and> lq_exact q = Some c) \<longleftrightarrow> exact_location cs n = Some c" for n c
  proof -
    have "(\<exists>q \<in> set rs. lq_name q = n \<and> lq_exact q = Some c) \<longleftrightarrow> (n, Some c) \<in> set (exact_names rs)"
      unfolding exact_names_in by simp
    also have "\<dots> \<longleftrightarrow> (n, Some c) \<in> set (exact_names qs)" using joined by simp
    also have "\<dots> \<longleftrightarrow> exact_location cs n = Some c"
      unfolding mset_eq_setD [OF names(1)] static_names(1) [OF ok(1)] kind_location(1) [OF ok(2)] by auto
    finally show ?thesis .
  qed
  have I: "(\<exists>q \<in> set rs. lq_name q = n \<and> lq_inclusive q = Some c) \<longleftrightarrow> prefix_location cs n = Some c" for n c
  proof -
    have "(\<exists>q \<in> set rs. lq_name q = n \<and> lq_inclusive q = Some c) \<longleftrightarrow> (n, Some c) \<in> set (inclusive_names rs)"
      unfolding inclusive_names_in by simp
    also have "\<dots> \<longleftrightarrow> (n, Some c) \<in> set (inclusive_names qs)" using joined by simp
    also have "\<dots> \<longleftrightarrow> prefix_location cs n = Some c"
      unfolding mset_eq_setD [OF names(2)] static_names(2) [OF ok(1)] kind_location(2) [OF ok(2)] by auto
    finally show ?thesis .
  qed
  from joined show thesis by (intro that [OF rs _ _ E I]) blast+
qed

lemma find_SomeD: "find P xs = Some x \<Longrightarrow> x \<in> set xs \<and> P x"
  by (induction xs) (auto split: if_splits)

lemma longest_prefixI:
  assumes "distinct (map kind cs)" "c \<in> set cs" "\<not> loc_exact_match c" "prefix (loc_name c) u"
    and longest: "\<And>d. d \<in> set cs \<Longrightarrow> \<not> loc_exact_match d \<Longrightarrow> prefix (loc_name d) u \<Longrightarrow> length (loc_name d) \<le> length (loc_name c)"
  shows "longest_prefix cs u = Some c"
proof -
  define ps where "ps = filter (\<lambda>c. \<not> loc_exact_match c \<and> prefix (loc_name c) u) cs"
  let ?P = "\<lambda>c. \<forall>d \<in> set ps. length (loc_name d) \<le> length (loc_name c)"
  have c: "c \<in> set ps" "?P c" using assms by (auto simp: ps_def)
  then have "find ?P ps \<noteq> None" by (auto simp: find_None_iff)
  then obtain d where d: "find ?P ps = Some d" by blast
  from find_SomeD [OF d] have "d \<in> set ps" "?P d" by blast+
  with c have "length (loc_name d) = length (loc_name c)" by (intro order_antisym) blast+
  moreover have "prefix (loc_name d) u" using \<open>d \<in> set ps\<close> by (simp add: ps_def)
  ultimately have "loc_name d = loc_name c" using assms(4) by (simp add: prefix_take)
  moreover have "d \<in> set cs" "\<not> loc_exact_match d" using \<open>d \<in> set ps\<close> by (simp_all add: ps_def)
  ultimately have "prefix_location cs (loc_name c) = Some d" by (simp add: kind_location(2) [OF assms(1)])
  then have "d = c" using kind_location(2) [OF assms(1), of "loc_name c" c] assms(2,3) by simp
  with d show ?thesis by (simp add: longest_prefix_def ps_def Let_def)
qed

lemma longest_prefix_None:
  "(\<And>c. c \<in> set cs \<Longrightarrow> \<not> loc_exact_match c \<Longrightarrow> \<not> prefix (loc_name c) u) \<Longrightarrow> longest_prefix cs u = None"
  using filter_empty_conv [of "\<lambda>c. \<not> loc_exact_match c \<and> prefix (loc_name c) u" cs] by (auto simp: longest_prefix_def)

lemma sorted_names_unique:
  assumes "sorted_names rs" "q \<in> set rs" "q' \<in> set rs" "lq_name q = lq_name q'"
  shows "q = q'"
  using assms by (induction rs) auto

lemma last_filter_greatest:
  assumes "sorted_names rs" "filter P rs = qs" "q \<in> set qs"
  shows "last qs \<in> set rs \<and> P (last qs) \<and> name_rank (lq_name q) \<le> name_rank (lq_name (last qs))"
proof -
  obtain ys y where qs: "qs = ys @ [y]" using assms(3) by (cases qs rule: rev_cases) auto
  moreover have "sorted_names qs" unfolding assms(2) [symmetric] using assms(1) by (rule sorted_wrt_filter)
  moreover have "y \<in> set (filter P rs)" using qs assms(2) by simp
  ultimately show ?thesis using assms(3) by (auto simp: sorted_wrt_append)
qed

lemma prefix_rank_length:
  assumes "prefix a u" "prefix b u" "name_rank a \<le> name_rank b"
  shows "length a \<le> length b"
  using prefix_same_cases [OF assms(1,2)] prefix_rank_le [of b a] assms(3) prefix_length_le by fastforce

lemma option_eqI: "(\<And>c. a = Some c \<longleftrightarrow> b = Some c) \<Longrightarrow> a = b"
  by (cases a; cases b) auto

lemma locate_select:
  assumes cs: "distinct (map kind cs)" and rs: "sorted_names rs" "list_all (\<lambda>q. wf_lq q \<and> lq_list q = []) rs"
    and E: "\<And>n c. (\<exists>q \<in> set rs. lq_name q = n \<and> lq_exact q = Some c) \<longleftrightarrow> exact_location cs n = Some c"
    and I: "\<And>n c. (\<exists>q \<in> set rs. lq_name q = n \<and> lq_inclusive q = Some c) \<longleftrightarrow> prefix_location cs n = Some c"
  shows "locate rs u (NGX_DECLINED, conf) = select_location cs u conf"
proof -
  let ?slash = "u @ [chr_slash]"
  have in': "lq_exact q = exact_location cs (lq_name q)" "lq_inclusive q = prefix_location cs (lq_name q)"
    if q: "q \<in> set rs" for q
  proof -
    have "lq_exact q = Some c \<longleftrightarrow> exact_location cs (lq_name q) = Some c" for c
      unfolding E [symmetric] using q sorted_names_unique [OF rs(1) _ q] by blast
    then show "lq_exact q = exact_location cs (lq_name q)" by (rule option_eqI)
    have "lq_inclusive q = Some c \<longleftrightarrow> prefix_location cs (lq_name q) = Some c" for c
      unfolding I [symmetric] using q sorted_names_unique [OF rs(1) _ q] by blast
    then show "lq_inclusive q = prefix_location cs (lq_name q)" by (rule option_eqI)
  qed
  have out: "exact_location cs n = None" "prefix_location cs n = None" if "\<forall>q \<in> set rs. lq_name q \<noteq> n" for n
    using that E [of n] I [of n] by (cases "exact_location cs n"; cases "prefix_location cs n"; blast)+
  have redirect: "(\<exists>c \<in> set cs. loc_name c = n \<and> loc_auto_redirect c) \<longleftrightarrow> (\<exists>q \<in> set rs. lq_name q = n \<and> lq_redirect q)" for n
  proof -
    have "(\<exists>c \<in> set cs. loc_name c = n \<and> loc_auto_redirect c) \<longleftrightarrow>
        (\<exists>c. (exact_location cs n = Some c \<or> prefix_location cs n = Some c) \<and> loc_auto_redirect c)"
      unfolding kind_location [OF cs] by blast
    also have "\<dots> \<longleftrightarrow> (\<exists>c. ((\<exists>q \<in> set rs. lq_name q = n \<and> lq_exact q = Some c) \<or>
        (\<exists>q \<in> set rs. lq_name q = n \<and> lq_inclusive q = Some c)) \<and> loc_auto_redirect c)"
      unfolding E I ..
    also have "\<dots> \<longleftrightarrow> (\<exists>q \<in> set rs. lq_name q = n \<and> lq_redirect q)"
      by (auto simp: lq_redirect_def)
    finally show ?thesis .
  qed
  have wf: "lq_exact q \<noteq> None \<or> lq_inclusive q \<noteq> None" if "q \<in> set rs" for q
    using that rs(2) by (simp add: list_all_iff wf_lq_def)
  consider (same) q where "find (\<lambda>q. lq_name q = u) rs = Some q"
    | (slash) q where "find (\<lambda>q. lq_name q = u) rs = None" "find (\<lambda>q. lq_name q = ?slash \<and> lq_redirect q) rs = Some q"
    | (other) "find (\<lambda>q. lq_name q = u) rs = None" "find (\<lambda>q. lq_name q = ?slash \<and> lq_redirect q) rs = None"
    by (cases "find (\<lambda>q. lq_name q = u) rs"; cases "find (\<lambda>q. lq_name q = ?slash \<and> lq_redirect q) rs") auto
  then show ?thesis
  proof cases
    case same
    from find_SomeD [OF this] have "q \<in> set rs" "lq_name q = u" by blast+
    with in' [of q] wf [of q] same show ?thesis by (auto simp: locate_def select_location_def split: option.split)
  next
    case slash
    from find_SomeD [OF this(2)] have q: "q \<in> set rs" "lq_name q = ?slash" "lq_redirect q" by blast+
    have "\<forall>q \<in> set rs. lq_name q \<noteq> u" using slash(1) by (simp add: find_None_iff)
    with out [of u] have "exact_location cs u = None" "prefix_location cs u = None" by blast+
    moreover have "\<exists>c \<in> set cs. loc_name c = ?slash \<and> loc_auto_redirect c" unfolding redirect using q by blast
    moreover have "lq_conf q = (case exact_location cs ?slash of Some c \<Rightarrow> c | None \<Rightarrow> the (prefix_location cs ?slash))"
      using in' [OF q(1)] q(2) by (simp add: lq_conf_def split: option.split)
    ultimately show ?thesis using slash by (simp add: locate_def select_location_def Let_def)
  next
    case other
    have "\<forall>q \<in> set rs. lq_name q \<noteq> u" using other(1) by (simp add: find_None_iff)
    with out [of u] have none: "exact_location cs u = None" "prefix_location cs u = None" by blast+
    have "\<not> (\<exists>q \<in> set rs. lq_name q = ?slash \<and> lq_redirect q)" using other(2) by (auto simp: find_None_iff)
    then have no: "\<not> (\<exists>c \<in> set cs. loc_name c = ?slash \<and> loc_auto_redirect c)" by (simp only: redirect not_False_eq_True)
    define qs where "qs = filter (\<lambda>q. lq_inclusive q \<noteq> None \<and> prefix (lq_name q) u) rs"
    have located: "locate rs u (NGX_DECLINED, conf) =
        (if qs = [] then (NGX_DECLINED, conf) else (NGX_AGAIN, the (lq_inclusive (last qs))))"
      unfolding locate_def other option.case qs_def [symmetric] by (simp split: list.split)
    have selected: "select_location cs u conf =
        (case longest_prefix cs u of Some c \<Rightarrow> (NGX_AGAIN, c) | None \<Rightarrow> (NGX_DECLINED, conf))"
      by (simp only: select_location_def none no option.case Let_def if_False)
    have inc: "\<exists>q \<in> set qs. lq_name q = loc_name d" if "d \<in> set cs" "\<not> loc_exact_match d" "prefix (loc_name d) u" for d
    proof -
      have "prefix_location cs (loc_name d) = Some d" using that by (simp add: kind_location(2) [OF cs])
      with that I [of "loc_name d" d] show ?thesis by (auto simp: qs_def)
    qed
    show ?thesis
    proof (cases "qs = []")
      case True
      with inc have "longest_prefix cs u = None" by (intro longest_prefix_None) auto
      with True located selected show ?thesis by simp
    next
      case False
      let ?l = "last qs"
      note greatest = last_filter_greatest [OF rs(1) qs_def [symmetric]]
      have l: "?l \<in> set rs" "prefix (lq_name ?l) u" using greatest [OF last_in_set [OF False]] by auto
      obtain c where c: "lq_inclusive ?l = Some c" using greatest [OF last_in_set [OF False]] by auto
      then have "prefix_location cs (lq_name ?l) = Some c" using in'(2) [OF l(1)] by simp
      then have c': "c \<in> set cs" "\<not> loc_exact_match c" "loc_name c = lq_name ?l" by (simp_all add: kind_location(2) [OF cs])
      have "longest_prefix cs u = Some c"
      proof (rule longest_prefixI [OF cs c'(1,2)])
        show "prefix (loc_name c) u" using l(2) c'(3) by simp
        fix d assume d: "d \<in> set cs" "\<not> loc_exact_match d" "prefix (loc_name d) u"
        with inc obtain q where "q \<in> set qs" "lq_name q = loc_name d" by blast
        with greatest [of q] have "name_rank (loc_name d) \<le> name_rank (lq_name ?l)" by simp
        with d(3) l(2) c'(3) show "length (loc_name d) \<le> length (loc_name c)" using prefix_rank_length by simp
      qed
      with located selected False c show ?thesis by simp
    qed
  qed
qed

subsection \<open>Properties\<close>

text \<open>The tree of a sorted queue of static locations, as \<^verbatim>\<open>ngx_http_init_static_location_trees\<close> builds it.\<close>

definition static_location_tree :: "'r location_queue list \<Rightarrow> byte list + 'r tree_node" where
  "static_location_tree locations =
     (case ngx_http_join_exact_locations locations of
        Inl name \<Rightarrow> Inl name
      | Inr qs \<Rightarrow> Inr (ngx_http_create_locations_tree (ngx_http_create_locations_list qs) 0))"

lemma sorted_queue_find:
  assumes "list_all static_ok cs" "distinct (map kind cs)" "sorted_queue cs qs"
  shows "\<exists>tree. static_location_tree qs = Inr tree \<and>
    (\<forall>uri conf. ngx_http_core_find_static_location uri tree (NGX_DECLINED, conf) = select_location cs uri conf)"
proof -
  obtain rs where rs: "ngx_http_join_exact_locations qs = Inr rs"
    "sorted_names rs" "list_all (\<lambda>q. wf_lq q \<and> lq_list q = []) rs"
    "\<And>n c. (\<exists>q \<in> set rs. lq_name q = n \<and> lq_exact q = Some c) \<longleftrightarrow> exact_location cs n = Some c"
    "\<And>n c. (\<exists>q \<in> set rs. lq_name q = n \<and> lq_inclusive q = Some c) \<longleftrightarrow> prefix_location cs n = Some c"
    by (rule joined_names [OF assms]) blast
  have level: "flat (ngx_http_create_locations_list rs) = rs" "level [] (ngx_http_create_locations_list rs)"
    using create_list_level [of "[]" rs] rs(2,3) by simp_all
  have "ngx_http_core_find_static_location uri (ngx_http_create_locations_tree (ngx_http_create_locations_list rs) 0)
      (NGX_DECLINED, conf) = select_location cs uri conf" for uri conf
    using find_tree [OF level(2), of uri "(NGX_DECLINED, conf)"] level(1) rs(2) locate_select [OF assms(2) rs(2-5)] by simp
  with rs(1) show ?thesis by (simp add: static_location_tree_def)
qed

lemma sorted_queue_duplicates:
  assumes "list_all static_ok cs" "sorted_queue cs qs"
  shows "(\<exists>name. static_location_tree qs = Inl name) \<longleftrightarrow> \<not> distinct (map kind cs)"
proof -
  have "(\<exists>rs. ngx_http_join_exact_locations qs = Inr rs) \<longleftrightarrow> distinct (map kind cs)"
    using join_correct(1) [OF sorted_locations(1) [OF assms] sorted_wf [OF assms]] sorted_distinct_kinds [OF assms] by simp
  then show ?thesis by (cases "ngx_http_join_exact_locations qs") (auto simp: static_location_tree_def)
qed

abbreviation sorted_locations_of :: "'r loc_conf list \<Rightarrow> 'r location_queue list" where
  "sorted_locations_of cs \<equiv> sort_list ngx_http_cmp_locations (map location_queue cs)"

text \<open>
  C1. The tree of the static locations of a server finds, for every URI, the location that the configuration
  selects: the exact location with this name, else the prefix location with this name, else, for a URI that lacks
  only the final slash of a location that redirects, this location, and else the prefix location with the longest
  name. The locations may have been added in any order; their names have no zero byte, are shorter than 256
  bytes and no two of one kind are equal.
\<close>

theorem static_location_selected:
  assumes "list_all static_ok cs" "distinct (map kind cs)" "static_location_tree (sorted_locations_of cs) = Inr tree"
  shows "ngx_http_core_find_static_location uri tree (NGX_DECLINED, conf) = select_location cs uri conf"
  using sorted_queue_find [OF assms(1,2) sort_list_sorted_queue] assms(3) by auto

text \<open>
  C20. Two locations of one kind with one name are rejected, and nothing else is: the tree of locations with proper
  names is built unless two exact locations or two prefix locations have the same name.
\<close>

theorem duplicate_locations_rejected:
  assumes "list_all static_ok cs"
  shows "(\<exists>name. static_location_tree (sorted_locations_of cs) = Inl name) \<longleftrightarrow> \<not> distinct (map kind cs)"
  by (rule sorted_queue_duplicates [OF assms sort_list_sorted_queue])

text \<open>Four locations: \<^verbatim>\<open>= /a\<close>, \<^verbatim>\<open>/\<close>, \<^verbatim>\<open>/a/\<close> with a redirect and \<^verbatim>\<open>/a/b\<close>.\<close>

definition sample_location :: "byte list \<Rightarrow> bool \<Rightarrow> bool \<Rightarrow> nat loc_conf" where
  "sample_location name exact redirect = Loc_Conf name None False False exact False redirect None Null []"

definition sample_locations :: "nat loc_conf list" where
  "sample_locations = [sample_location [chr_slash] False False, sample_location [chr_slash, chr_a, chr_slash, 0x62] False False,
     sample_location [chr_slash, chr_a] True False, sample_location [chr_slash, 0x62, chr_slash] False True]"

lemma sample_locations_ok: "list_all static_ok sample_locations" "distinct (map kind sample_locations)"
  by (simp_all add: sample_locations_def sample_location_def static_ok_def loc_class_def suffix_def)

theorem static_location_selected_witness:
  "\<exists>tree. static_location_tree (sorted_locations_of sample_locations) = Inr tree \<and>
     ngx_http_core_find_static_location [chr_slash, chr_a] tree (NGX_DECLINED, sample_location [] False False)
       = (NGX_OK, sample_location [chr_slash, chr_a] True False) \<and>
     ngx_http_core_find_static_location [chr_slash, 0x62] tree (NGX_DECLINED, sample_location [] False False)
       = (NGX_DONE, sample_location [chr_slash, 0x62, chr_slash] False True) \<and>
     ngx_http_core_find_static_location [chr_slash, chr_a, chr_slash, 0x62, 0x63] tree (NGX_DECLINED, sample_location [] False False)
       = (NGX_AGAIN, sample_location [chr_slash, chr_a, chr_slash, 0x62] False False)"
proof -
  obtain tree where tree: "static_location_tree (sorted_locations_of sample_locations) = Inr tree"
    using sorted_queue_find [OF sample_locations_ok sort_list_sorted_queue] by blast
  note found = static_location_selected [OF sample_locations_ok tree]
  have "select_location sample_locations [chr_slash, chr_a] conf = (NGX_OK, sample_location [chr_slash, chr_a] True False)"
    "select_location sample_locations [chr_slash, 0x62] conf = (NGX_DONE, sample_location [chr_slash, 0x62, chr_slash] False True)"
    "select_location sample_locations [chr_slash, chr_a, chr_slash, 0x62, 0x63] conf =
       (NGX_AGAIN, sample_location [chr_slash, chr_a, chr_slash, 0x62] False False)" for conf
    by (simp_all add: select_location_def exact_location_def prefix_location_def longest_prefix_def
        sample_locations_def sample_location_def Let_def)
  with tree found show ?thesis by simp
qed

theorem duplicate_locations_rejected_witness:
  "\<exists>name. static_location_tree (sorted_locations_of [sample_location [chr_slash] False False, sample_location [chr_slash] True False,
     sample_location [chr_slash] False True]) = Inl name"
  by (subst duplicate_locations_rejected)
    (simp_all add: static_ok_def sample_location_def loc_class_def suffix_def)

text \<open>
  A name of 256 bytes has the length 0 in its node: a server with such a location passes every URI to it.
\<close>

theorem long_location_name:
  assumes "loc_class c = Static" "\<not> loc_exact_match c" "length (loc_name c) = 256" "uri \<noteq> []"
  shows "\<exists>tree. static_location_tree (sorted_locations_of [c]) = Inr tree \<and>
    ngx_http_core_find_static_location uri tree (NGX_DECLINED, conf) = (NGX_AGAIN, c)"
proof -
  have "static_location_tree (sorted_locations_of [c]) = Inr (ngx_http_create_locations_tree [location_queue c] 0)"
    by (simp add: static_location_tree_def sort_list_def sort_insert_def)
  moreover have "ngx_http_create_locations_tree [location_queue c] 0 =
      Node Null Null Null None (Some c) (loc_auto_redirect c) 0 (loc_name c)"
    using assms by (subst ngx_http_create_locations_tree.simps) (simp add: Let_def)
  ultimately show ?thesis using assms(4) by simp
qed

end
