(* ===== verification/Http_Find_Location.thy ===== *)
theory Http_Find_Location
  imports Http_Locations
begin

section \<open>The locations of a server and the location of a request\<close>

text \<open>
  \<^verbatim>\<open>ngx_http_init_locations\<close> and \<^verbatim>\<open>ngx_http_init_static_location_trees\<close> of \<^verbatim>\<open>src/http/ngx_http.c\<close>, which go
  through the nested locations of a server when the configuration has been read, and \<^verbatim>\<open>ngx_http_core_find_location\<close> of
  \<^verbatim>\<open>src/http/ngx_http_core_module.c\<close>, which looks up the location of a request in what they have built. A location
  that is changed in place is returned changed. The matching of a regular expression is PCRE's: it is a parameter
  that returns the number of captures, \<^verbatim>\<open>NGX_REGEX_NO_MATCHED\<close> or another negative number.
\<close>

subsection \<open>After the configuration has been read\<close>

text \<open>
  A duplicate location is an error, and \<open>Null_pointer\<close> is what the code does with a named location that is not on
  the server level, or with a queue element that has no location: the configuration parser makes neither.
\<close>

datatype location_error = Duplicate_location "byte list" | Null_pointer

definition lq_location :: "'r location_queue \<Rightarrow> 'r loc_conf option" where
  "lq_location lq = (case lq_exact lq of Some clcf \<Rightarrow> Some clcf | None \<Rightarrow> lq_inclusive lq)"

definition lq_changed :: "'r loc_conf \<Rightarrow> 'r location_queue \<Rightarrow> 'r location_queue" where
  "lq_changed clcf lq =
     (if lq_exact lq \<noteq> None then Location_Queue (Some clcf) (lq_inclusive lq) (lq_name lq) (lq_list lq)
      else Location_Queue None (Some clcf) (lq_name lq) (lq_list lq))"

definition loc_changed :: "'r loc_conf \<Rightarrow> 'r location_queue list option \<Rightarrow> 'r tree_node \<Rightarrow> 'r loc_conf list \<Rightarrow> 'r loc_conf" where
  "loc_changed c locations static regexes =
     Loc_Conf (loc_name c) (loc_regex c) (loc_noname c) (loc_named c) (loc_exact_match c) (loc_noregex c)
       (loc_auto_redirect c) locations static regexes"

text \<open>An array of pointers to the exact locations of a queue, up to the null pointer that ends it.\<close>

definition clcf_array :: "'r location_queue list \<Rightarrow> 'r loc_conf list" where
  "clcf_array qs = map the (takeWhile (\<lambda>c. c \<noteq> None) (map lq_exact qs))"

lemma loc_locations_size: "loc_locations c = Some qs \<Longrightarrow> lqs_size qs < size c"
  by (cases c) auto

lemma lq_location_size: "lq_location lq = Some c \<Longrightarrow> size c < size lq"
  by (cases lq) (auto simp: lq_location_def split: option.splits)

lemma size_list_mset: "size_list f xs = (\<Sum>x \<in># mset xs. f x) + size (mset xs)"
  by (induction xs) simp_all

lemma lqs_size_sort: "lqs_size (sort_list cmp qs) = lqs_size qs"
  by (simp only: size_list_mset mset_sort_list)

text \<open>
  The loop over the sorted queue stops at the first location without a name, which it has still gone through, and
  cuts the queue there. The server level comes with a server configuration, for its named locations.
\<close>

function ngx_http_init_locations :: "bool \<Rightarrow> 'r loc_conf \<Rightarrow> location_error + 'r loc_conf \<times> 'r loc_conf list option"
  and init_location_queue :: "'r location_queue list \<Rightarrow> location_error + 'r location_queue list" where
  "ngx_http_init_locations cscf pclcf =
     (case loc_locations pclcf of
        None \<Rightarrow> Inr (pclcf, None)
      | Some qs \<Rightarrow>
          (case init_location_queue (sort_list ngx_http_cmp_locations qs) of
             Inl e \<Rightarrow> Inl e
           | Inr locations \<Rightarrow>
               let is_named = (\<lambda>lq. loc_regex (lq_conf lq) = None \<and> loc_named (lq_conf lq));
                   named = dropWhile (\<lambda>lq. \<not> is_named lq) locations;
                   locations = takeWhile (\<lambda>lq. \<not> is_named lq) locations;
                   regex = dropWhile (\<lambda>lq. loc_regex (lq_conf lq) = None) locations;
                   locations = takeWhile (\<lambda>lq. loc_regex (lq_conf lq) = None) locations
               in if named \<noteq> [] \<and> \<not> cscf then Inl Null_pointer
                  else Inr (loc_changed pclcf (Some locations) (loc_static pclcf)
                              (if regex = [] then loc_regexes pclcf else clcf_array regex),
                            if named = [] then None else Some (clcf_array named))))"
| "init_location_queue [] = Inr []"
| "init_location_queue (lq # qs) =
     (case lq_location lq of
        None \<Rightarrow> Inl Null_pointer
      | Some clcf \<Rightarrow>
          (case ngx_http_init_locations False clcf of
             Inl e \<Rightarrow> Inl e
           | Inr (clcf, _) \<Rightarrow>
               if loc_regex clcf = None \<and> \<not> loc_named clcf \<and> loc_noname clcf then Inr []
               else (case init_location_queue qs of Inl e \<Rightarrow> Inl e | Inr rs \<Rightarrow> Inr (lq_changed clcf lq # rs))))"
  by pat_completeness auto
termination
  by (relation "measure (\<lambda>x. case x of Inl (_, c) \<Rightarrow> size c | Inr qs \<Rightarrow> lqs_size qs)")
    (auto simp: lqs_size_sort loc_locations_size dest: lq_location_size)

text \<open>
  The trees are built from the leaves of the nesting on. The queue, which is not read any more afterwards, is kept.
\<close>

function ngx_http_init_static_location_trees :: "'r loc_conf \<Rightarrow> location_error + 'r loc_conf"
  and init_tree_queue :: "'r location_queue list \<Rightarrow> location_error + 'r location_queue list" where
  "ngx_http_init_static_location_trees pclcf =
     (case loc_locations pclcf of
        None \<Rightarrow> Inr pclcf
      | Some qs \<Rightarrow>
          if qs = [] then Inr pclcf
          else (case init_tree_queue qs of
                  Inl e \<Rightarrow> Inl e
                | Inr locations \<Rightarrow>
                    (case static_location_tree locations of
                       Inl name \<Rightarrow> Inl (Duplicate_location name)
                     | Inr tree \<Rightarrow> Inr (loc_changed pclcf (Some locations) tree (loc_regexes pclcf)))))"
| "init_tree_queue [] = Inr []"
| "init_tree_queue (lq # qs) =
     (case lq_location lq of
        None \<Rightarrow> Inl Null_pointer
      | Some clcf \<Rightarrow>
          (case ngx_http_init_static_location_trees clcf of
             Inl e \<Rightarrow> Inl e
           | Inr clcf \<Rightarrow> (case init_tree_queue qs of Inl e \<Rightarrow> Inl e | Inr rs \<Rightarrow> Inr (lq_changed clcf lq # rs))))"
  by pat_completeness auto
termination
  by (relation "measure (\<lambda>x. case x of Inl c \<Rightarrow> size c | Inr qs \<Rightarrow> lqs_size qs)")
    (auto simp: loc_locations_size dest: lq_location_size)

declare ngx_http_init_locations.simps [simp del] ngx_http_init_static_location_trees.simps [simp del]

subsection \<open>Looking up a request\<close>

definition ngx_http_regex_exec :: "('r \<Rightarrow> byte list \<Rightarrow> int) \<Rightarrow> 'r \<Rightarrow> byte list \<Rightarrow> ngx_rc" where
  "ngx_http_regex_exec pcre re s =
     (let rc = pcre re s in if rc = -1 then NGX_DECLINED else if rc < 0 then NGX_ERROR else NGX_OK)"

lemma find_static_size:
  "ngx_http_core_find_static_location uri t r = (NGX_AGAIN, conf) \<Longrightarrow> r = (NGX_AGAIN, conf) \<or> size conf < size t"
proof (induction uri t r rule: ngx_http_core_find_static_location.induct)
  case (2 uri left right tree exact inclusive auto_redirect len name rv conf)
  then show ?case
    by (fastforce simp: Let_def split: if_splits option.splits) 
qed simp

lemma loc_static_size: "size (loc_static c) < size c"
  by (cases c) auto

lemma find_again_size:
  "(NGX_AGAIN, conf) = ngx_http_core_find_static_location uri (loc_static c) (NGX_DECLINED, d) \<Longrightarrow> size conf < size c"
  by (drule find_static_size [OF sym]) (use loc_static_size [of c] in auto)

lemma loc_regexes_size: "size_list size (loc_regexes c) < size c"
  by (cases c) auto

text \<open>
  The location of a request and the return value. The location is that of the server first; a regular expression
  is tried on the locations of this level unless the prefix location that was found forbids it.
\<close>

function ngx_http_core_find_location ::
    "('r \<Rightarrow> byte list \<Rightarrow> int) \<Rightarrow> byte list \<Rightarrow> 'r loc_conf \<Rightarrow> ngx_rc \<times> 'r loc_conf"
  and find_regex_location ::
    "('r \<Rightarrow> byte list \<Rightarrow> int) \<Rightarrow> byte list \<Rightarrow> 'r loc_conf list \<Rightarrow> ngx_rc \<times> 'r loc_conf \<Rightarrow> ngx_rc \<times> 'r loc_conf" where
  "ngx_http_core_find_location pcre uri pclcf =
     (case ngx_http_core_find_static_location uri (loc_static pclcf) (NGX_DECLINED, pclcf) of
        (rc, conf) \<Rightarrow>
          let noregex = (rc = NGX_AGAIN \<and> loc_noregex conf)
          in case (if rc = NGX_AGAIN then ngx_http_core_find_location pcre uri conf else (rc, conf)) of
               (rc, conf) \<Rightarrow>
                 if rc = NGX_OK \<or> rc = NGX_DONE then (rc, conf)
                 else if \<not> noregex then find_regex_location pcre uri (loc_regexes pclcf) (rc, conf)
                 else (rc, conf))"
| "find_regex_location pcre uri [] r = r"
| "find_regex_location pcre uri (clcf # cs) r =
     (case ngx_http_regex_exec pcre (the (loc_regex clcf)) uri of
        NGX_OK \<Rightarrow>
          (case ngx_http_core_find_location pcre uri clcf of
             (rc, conf) \<Rightarrow> (if rc = NGX_ERROR then rc else NGX_OK, conf))
      | NGX_DECLINED \<Rightarrow> find_regex_location pcre uri cs r
      | _ \<Rightarrow> (NGX_ERROR, snd r))"
  by pat_completeness auto
termination
  by (relation "measure (\<lambda>x. case x of Inl (_, _, c) \<Rightarrow> size c | Inr (_, _, cs, _) \<Rightarrow> size_list size cs)")
    (auto simp: loc_regexes_size dest: find_again_size)

declare ngx_http_core_find_location.simps [simp del]

subsection \<open>What initialisation keeps\<close>

definition same_loc :: "'r loc_conf \<Rightarrow> 'r loc_conf \<Rightarrow> bool" where
  "same_loc c d \<longleftrightarrow> loc_name d = loc_name c \<and> loc_regex d = loc_regex c \<and> loc_noname d = loc_noname c \<and> loc_named d = loc_named c \<and>
     loc_exact_match d = loc_exact_match c \<and> loc_noregex d = loc_noregex c \<and> loc_auto_redirect d = loc_auto_redirect c"

lemma same_loc_refl [simp]: "same_loc c c" and same_loc_trans: "same_loc a b \<Longrightarrow> same_loc b c \<Longrightarrow> same_loc a c"
  and same_loc_changed [simp]: "same_loc c (loc_changed c locations static regexes)"
  by (simp_all add: same_loc_def loc_changed_def)

lemma loc_changed_sel [simp]:
  "loc_locations (loc_changed c locations static regexes) = locations"
  "loc_static (loc_changed c locations static regexes) = static"
  "loc_regexes (loc_changed c locations static regexes) = regexes"
  by (simp_all add: loc_changed_def)

lemma init_locations_same: "ngx_http_init_locations cscf c = Inr (d, named) \<Longrightarrow> same_loc c d"
  by (auto simp: ngx_http_init_locations.simps [of cscf c] Let_def split: option.splits sum.splits if_splits)

lemma init_trees_same: "ngx_http_init_static_location_trees c = Inr d \<Longrightarrow> same_loc c d"
  by (auto simp: ngx_http_init_static_location_trees.simps [of c] split: option.splits sum.splits if_splits)

lemma lq_changed_queue: "same_loc c d \<Longrightarrow> lq_changed d (location_queue c) = location_queue d"
  by (auto simp: lq_changed_def location_queue_def same_loc_def)

lemma lq_location_queue [simp]: "lq_location (location_queue c) = Some c" "lq_conf (location_queue c) = c"
  by (auto simp: lq_location_def lq_conf_def location_queue_def)

lemma same_loc_class: "same_loc c d \<Longrightarrow> loc_class d = loc_class c"
  by (simp add: same_loc_def loc_class_def)

lemma same_loc_ok: "same_loc c d \<Longrightarrow> static_ok d = static_ok c"
  by (simp add: static_ok_def same_loc_class) (simp add: same_loc_def)

lemma same_loc_key: "same_loc c d \<Longrightarrow> loc_key d = loc_key c"
  by (cases "loc_class c") (simp_all add: loc_key_def same_loc_class, simp_all add: same_loc_def)

text \<open>A location that was gone through, in the first and in both passes.\<close>

definition prepared :: "'r loc_conf \<Rightarrow> 'r loc_conf" where
  "prepared c = (case ngx_http_init_locations False c of Inr (d, _) \<Rightarrow> d | Inl _ \<Rightarrow> c)"

definition with_tree :: "'r loc_conf \<Rightarrow> 'r loc_conf" where
  "with_tree c = (case ngx_http_init_static_location_trees c of Inr d \<Rightarrow> d | Inl _ \<Rightarrow> c)"

lemma prepared_same [simp]: "same_loc c (prepared c)"
  using init_locations_same by (auto simp: prepared_def split: sum.split)

text \<open>
  The locations nested in a regular expression get no tree: only their regular expressions are looked up, whatever
  prefix and exact locations the configuration has there.
\<close>

lemma regex_location_without_tree:
  assumes "loc_static c = Null"
  shows "ngx_http_core_find_static_location uri (loc_static (prepared c)) (NGX_DECLINED, conf) = (NGX_DECLINED, conf)"
proof -
  have "loc_static d = loc_static c" if "ngx_http_init_locations False c = Inr (d, named)" for d named
    using that by (auto simp: ngx_http_init_locations.simps [of False c] Let_def split: option.splits sum.splits if_splits)
  with assms show ?thesis by (auto simp: prepared_def split: sum.split)
qed

lemma with_tree_same [simp]: "same_loc c (with_tree c)"
  using init_trees_same by (auto simp: with_tree_def split: sum.split)

lemma lq_changed_prepared [simp]: "lq_changed (prepared c) (location_queue c) = location_queue (prepared c)"
  "lq_changed (with_tree c) (location_queue c) = location_queue (with_tree c)"
  by (simp_all add: lq_changed_queue)

text \<open>A location is of one class.\<close>

definition one_class :: "'r loc_conf \<Rightarrow> bool" where
  "one_class c \<longleftrightarrow> (loc_noname c \<longrightarrow> \<not> loc_named c \<and> loc_regex c = None) \<and> (loc_named c \<longrightarrow> loc_regex c = None)"

lemma init_queue_prepared:
  "list_all one_class cs \<Longrightarrow> init_location_queue (map location_queue cs) = Inr qs \<Longrightarrow>
     qs = map (\<lambda>c. location_queue (prepared c)) (takeWhile (\<lambda>c. loc_class c \<noteq> Noname) cs)"
proof (induction cs arbitrary: qs)
  case (Cons c cs)
  from Cons.prems(2) obtain d n where d: "ngx_http_init_locations False c = Inr (d, n)"
    by (auto split: sum.splits prod.splits)
  then have p: "prepared c = d" by (simp add: prepared_def)
  have same: "same_loc c d" using init_locations_same d by blast
  have "loc_regex d = None \<and> \<not> loc_named d \<and> loc_noname d \<longleftrightarrow> loc_class c = Noname"
    using Cons.prems(1) same by (auto simp: one_class_def same_loc_def loc_class_def)
  with Cons d p show ?case by (auto split: sum.splits if_splits)
qed simp

lemma init_tree_queue_prepared:
  "init_tree_queue (map location_queue cs) = Inr qs \<Longrightarrow> qs = map (\<lambda>c. location_queue (with_tree c)) cs"
proof (induction cs arbitrary: qs)
  case (Cons c cs)
  from Cons.prems obtain d where "ngx_http_init_static_location_trees c = Inr d" by (auto split: sum.splits)
  with Cons show ?case by (auto simp: with_tree_def simp del: lq_changed_prepared split: sum.splits)
      (metis init_trees_same lq_changed_queue)
qed simp

subsection \<open>The sorted locations by class\<close>

definition sorted_confs :: "'r loc_conf list \<Rightarrow> 'r loc_conf list" where
  "sorted_confs cs = sort_list (\<lambda>a b. ngx_http_cmp_locations (location_queue a) (location_queue b)) cs"

lemma sort_insert_map: "sort_insert cmp (f q) (map f ys) = map f (sort_insert (\<lambda>a b. cmp (f a) (f b)) q ys)"
  by (simp add: sort_insert_def rev_map dropWhile_map takeWhile_map comp_def)

lemma sort_list_map: "sort_list cmp (map f cs) = map f (sort_list (\<lambda>a b. cmp (f a) (f b)) cs)"
proof -
  have "fold (sort_insert cmp) (map f cs) (map f ys) = map f (fold (sort_insert (\<lambda>a b. cmp (f a) (f b))) cs ys)" for ys
    by (induction cs arbitrary: ys) (simp_all add: sort_insert_map)
  from this [of "[]"] show ?thesis by (simp add: sort_list_def)
qed

lemma sorted_confs_queue: "sorted_locations_of cs = map location_queue (sorted_confs cs)"
  by (simp add: sorted_confs_def sort_list_map)

lemma mset_sorted_confs: "mset (sorted_confs cs) = mset cs"
  by (simp add: sorted_confs_def mset_sort_list)

lemma sorted_confs_keys: "sorted_wrt (\<lambda>a b. loc_key a \<le> loc_key b) (sorted_confs cs)"
proof -
  have "sorted_wrt (\<lambda>a b. ngx_http_cmp_locations a b \<le> 0) (sorted_locations_of cs)"
    by (rule loc_cmp.sort_list_sorted(1)) simp
  then show ?thesis by (simp add: sorted_confs_queue sorted_wrt_map cmp_locations_key)
qed

text \<open>Regular expressions stay in the order of the configuration.\<close>

lemma sorted_confs_regex:
  fixes cs :: "'r loc_conf list"
  shows "filter (\<lambda>c. loc_class c = Regex) (sorted_confs cs) = filter (\<lambda>c. loc_class c = Regex) cs"
proof (cases "\<exists>r \<in> set cs. loc_class r = Regex")
  case True
  then obtain r :: "'r loc_conf" where r: "loc_class r = Regex" by blast
  have same: "loc_cmp.same (location_queue r) (location_queue c) \<longleftrightarrow> loc_class c = Regex" for c :: "'r loc_conf"
    using r by (cases "loc_class c") (auto simp: cmp_locations_key loc_key_def)
  have "filter (loc_cmp.same (location_queue r)) (sorted_locations_of cs) = filter (loc_cmp.same (location_queue r)) (map location_queue cs)"
    by (rule loc_cmp.sort_list_sorted(2)) simp_all
  then have "map lq_conf (filter (loc_cmp.same (location_queue r)) (map location_queue (sorted_confs cs))) =
      map lq_conf (filter (loc_cmp.same (location_queue r)) (map location_queue cs))" by (simp only: sorted_confs_queue)
  then show ?thesis unfolding filter_map comp_def same by (simp add: comp_def)
next
  case False
  moreover have "set (sorted_confs cs) = set cs" using mset_sorted_confs mset_eq_setD by blast
  ultimately show ?thesis by (metis (mono_tags, lifting) filter_False)
qed

definition class_rank :: "loc_class \<Rightarrow> nat" where
  "class_rank k = (case k of Static \<Rightarrow> 0 | Regex \<Rightarrow> 1 | Named \<Rightarrow> 2 | Noname \<Rightarrow> 3)"

abbreviation of_class :: "loc_class \<Rightarrow> 'r loc_conf list \<Rightarrow> 'r loc_conf list" where
  "of_class k \<equiv> filter (\<lambda>c. loc_class c = k)"

lemma key_class: "loc_key a \<le> loc_key b \<Longrightarrow> class_rank (loc_class a) \<le> class_rank (loc_class b)"
  by (cases "loc_class a"; cases "loc_class b") (auto simp: loc_key_def class_rank_def)

lemma classes_split:
  assumes "sorted_wrt (\<lambda>a b. class_rank (loc_class a) \<le> class_rank (loc_class b)) ss"
  shows "ss = of_class Static ss @ of_class Regex ss @ of_class Named ss @ of_class Noname ss"
  using assms
proof (induction ss)
  case (Cons c ss)
  have "of_class k ss = []" if "class_rank k < class_rank (loc_class c)" for k
    using Cons.prems that by (fastforce simp: filter_empty_conv)
  with Cons show ?case by (cases "loc_class c") (auto simp: class_rank_def)
qed simp

lemma sorted_confs_split:
  "sorted_confs cs = of_class Static (sorted_confs cs) @ of_class Regex cs @ of_class Named (sorted_confs cs) @ of_class Noname (sorted_confs cs)"
proof -
  have "sorted_wrt (\<lambda>a b. class_rank (loc_class a) \<le> class_rank (loc_class b)) (sorted_confs cs)"
    by (rule sorted_wrt_mono_rel [OF _ sorted_confs_keys]) (rule key_class)
  from classes_split [OF this] show ?thesis by (simp only: sorted_confs_regex)
qed

subsection \<open>The two passes\<close>

lemma clcf_array_queue: "list_all (\<lambda>c. loc_class c \<noteq> Static) cs \<Longrightarrow> clcf_array (map location_queue cs) = cs"
  by (induction cs) (auto simp: clcf_array_def location_queue_def loc_class_def split: if_splits)

lemma named_iff: "one_class c \<Longrightarrow> loc_class c \<noteq> Noname \<Longrightarrow> loc_named (prepared c) \<longleftrightarrow> loc_class c = Named"
  using prepared_same [of c] by (auto simp: same_loc_def one_class_def loc_class_def)

lemma regex_iff: "one_class c \<Longrightarrow> loc_regex (prepared c) = None \<longleftrightarrow> loc_class c \<noteq> Regex"
  using prepared_same [of c] by (auto simp: same_loc_def one_class_def loc_class_def)

lemma While_append:
  assumes "list_all P xs" "list_all (\<lambda>x. \<not> P x) ys"
  shows "takeWhile P (xs @ ys) = xs" "dropWhile P (xs @ ys) = ys"
  using assms by (induction xs) (cases ys; auto)+

lemma init_locations_result:
  assumes "loc_locations c = Some (map location_queue cs)" "list_all one_class cs" "loc_regexes c = []"
    and init: "ngx_http_init_locations cscf c = Inr (d, named)"
  shows "loc_locations d = Some (map location_queue (map prepared (of_class Static (sorted_confs cs))))"
    and "loc_regexes d = map prepared (of_class Regex cs)" and "loc_static d = loc_static c"
    and "named = (if of_class Named cs = [] then None else Some (map prepared (of_class Named (sorted_confs cs))))"
proof -
  let ?S = "of_class Static (sorted_confs cs)" and ?R = "of_class Regex cs" and ?N = "of_class Named (sorted_confs cs)"
  let ?lq = "\<lambda>c. location_queue (prepared c)"
  let ?named = "\<lambda>lq. loc_regex (lq_conf lq) = None \<and> loc_named (lq_conf lq)"
  have "set (sorted_confs cs) = set cs" using mset_sorted_confs mset_eq_setD by blast
  with assms(2) have one: "list_all one_class (sorted_confs cs)" by (simp add: list_all_iff)
  have one': "\<And>c. c \<in> set (sorted_confs cs) \<Longrightarrow> one_class c" "\<And>c. c \<in> set cs \<Longrightarrow> one_class c"
    using one assms(2) by (simp_all add: list_all_iff)
  from init assms(1) obtain qs where qs: "init_location_queue (sorted_locations_of cs) = Inr qs"
    by (auto simp: ngx_http_init_locations.simps [of cscf c] split: sum.splits)
  have "takeWhile (\<lambda>c. loc_class c \<noteq> Noname) ((?S @ ?R @ ?N) @ of_class Noname (sorted_confs cs)) = ?S @ ?R @ ?N"
    by (rule While_append) (auto simp: list_all_iff)
  then have kept: "qs = map ?lq (?S @ ?R) @ map ?lq ?N"
    using init_queue_prepared [OF one, of qs] qs sorted_confs_split [of cs] by (simp add: sorted_confs_queue)
  have "list_all (\<lambda>lq. \<not> ?named lq) (map ?lq (?S @ ?R))" "list_all (\<lambda>lq. \<not> \<not> ?named lq) (map ?lq ?N)"
    by (auto simp: list_all_iff named_iff regex_iff one' simp del: not_None_eq)
  note named = While_append [OF this, folded kept]
  have "list_all (\<lambda>lq. loc_regex (lq_conf lq) = None) (map ?lq ?S)" "list_all (\<lambda>lq. \<not> loc_regex (lq_conf lq) = None) (map ?lq ?R)"
    by (auto simp: list_all_iff regex_iff one' simp del: not_None_eq)
  note regex = While_append [OF this, folded map_append]
  have arrays: "clcf_array (map ?lq ?R) = map prepared ?R" "clcf_array (map ?lq ?N) = map prepared ?N"
    using clcf_array_queue [of "map prepared ?R"] clcf_array_queue [of "map prepared ?N"]
    by (simp_all add: list_all_iff same_loc_class [OF prepared_same] comp_def)
  have none: "?N = [] \<longleftrightarrow> of_class Named cs = []"
    using \<open>set (sorted_confs cs) = set cs\<close> by (simp add: filter_empty_conv)
  from init qs assms(1,3) have "\<not> (?N \<noteq> [] \<and> \<not> cscf)"
    and d: "d = loc_changed c (Some (map ?lq ?S)) (loc_static c) (map prepared ?R)"
    and n: "named = (if ?N = [] then None else Some (map prepared ?N))"
    unfolding ngx_http_init_locations.simps [of cscf c] Let_def
    by (simp_all only: option.case sum.case named regex arrays map_is_Nil_conv split: if_splits) auto
  from d show "loc_locations d = Some (map location_queue (map prepared (of_class Static (sorted_confs cs))))"
    "loc_regexes d = map prepared (of_class Regex cs)" "loc_static d = loc_static c" by (simp_all add: comp_def)
  from n none show "named = (if of_class Named cs = [] then None else Some (map prepared (of_class Named (sorted_confs cs))))" by simp
qed

text \<open>A location after both passes.\<close>

definition ready :: "'r loc_conf \<Rightarrow> 'r loc_conf" where
  "ready c = with_tree (prepared c)"

lemma ready_same [simp]: "same_loc c (ready c)"
  unfolding ready_def by (rule same_loc_trans [OF prepared_same with_tree_same])

lemma ready_sorted_queue:
  "sorted_queue (map ready (of_class Static cs)) (map location_queue (map ready (of_class Static (sorted_confs cs))))"
proof -
  have "sorted_wrt (\<lambda>a b. loc_key a \<le> loc_key b) (of_class Static (sorted_confs cs))"
    by (rule sorted_wrt_filter [OF sorted_confs_keys])
  then have "sorted_wrt (\<lambda>a b. ngx_http_cmp_locations a b \<le> 0) (map location_queue (map ready (of_class Static (sorted_confs cs))))"
    by (simp add: sorted_wrt_map cmp_locations_key same_loc_key [OF ready_same])
  moreover have "mset (of_class Static (sorted_confs cs)) = mset (of_class Static cs)" by (simp add: mset_sorted_confs)
  ultimately show ?thesis by (simp add: sorted_queue_def)
qed

lemma init_trees_result:
  assumes "loc_locations d = Some (map location_queue (map prepared (of_class Static (sorted_confs cs))))" "loc_static d = Null"
    and ok: "list_all static_ok (of_class Static cs)" and init: "ngx_http_init_static_location_trees d = Inr e"
  shows "loc_regexes e = loc_regexes d" and "distinct (map kind (of_class Static cs))"
    and "ngx_http_core_find_static_location uri (loc_static e) (NGX_DECLINED, conf) =
      select_location (map ready (of_class Static cs)) uri conf"
proof -
  let ?S = "of_class Static (sorted_confs cs)" and ?q = "map location_queue (map ready (of_class Static (sorted_confs cs)))"
  have ok': "list_all static_ok (map ready (of_class Static cs))"
    using ok by (simp add: list_all_iff same_loc_ok [OF ready_same])
  have kinds: "map kind (map ready (of_class Static cs)) = map kind (of_class Static cs)"
    by (simp add: ready_same [unfolded same_loc_def])
  have "loc_regexes e = loc_regexes d \<and> distinct (map kind (of_class Static cs)) \<and>
      ngx_http_core_find_static_location uri (loc_static e) (NGX_DECLINED, conf) = select_location (map ready (of_class Static cs)) uri conf"
  proof (cases "?S = []")
    case True
    have "mset ?S = mset (of_class Static cs)" by (simp add: mset_sorted_confs)
    with True have "of_class Static cs = []" by simp
    moreover have "e = d" using init assms(1) True by (simp add: ngx_http_init_static_location_trees.simps [of d])
    ultimately show ?thesis
      by (simp add: assms(2) select_location_def exact_location_def prefix_location_def longest_prefix_def)
  next
    case False
    with init assms(1) obtain qs tree where qs: "init_tree_queue (map location_queue (map prepared ?S)) = Inr qs"
      and tree: "static_location_tree qs = Inr tree" and e: "e = loc_changed d (Some qs) tree (loc_regexes d)"
      by (auto simp: ngx_http_init_static_location_trees.simps [of d] split: sum.splits)
    have "qs = ?q" using init_tree_queue_prepared [OF qs] by (simp add: ready_def comp_def)
    with tree have tree': "static_location_tree ?q = Inr tree" by simp
    have dist: "distinct (map kind (map ready (of_class Static cs)))"
      using sorted_queue_duplicates [OF ok' ready_sorted_queue] tree' by simp
    then have "distinct (map kind (of_class Static cs))" by (simp only: kinds)
    with sorted_queue_find [OF ok' dist ready_sorted_queue] tree' e show ?thesis by auto
  qed
  then show "loc_regexes e = loc_regexes d" "distinct (map kind (of_class Static cs))"
    "ngx_http_core_find_static_location uri (loc_static e) (NGX_DECLINED, conf) =
      select_location (map ready (of_class Static cs)) uri conf" by blast+
qed

subsection \<open>The location of a request\<close>

text \<open>
  How a server with the static locations \<open>ss\<close> and the regular expressions \<open>rs\<close>, in the order of the
  configuration, serves a URI: an exact match or a redirect ends the search. Otherwise the nested locations of the
  prefix location are searched, and unless they settle it or the prefix location forbids regular expressions the
  first regular expression that matches takes precedence, with the locations nested in it.
\<close>

definition location_policy ::
    "('r \<Rightarrow> byte list \<Rightarrow> int) \<Rightarrow> byte list \<Rightarrow> 'r loc_conf list \<Rightarrow> 'r loc_conf list \<Rightarrow> 'r loc_conf \<Rightarrow> ngx_rc \<times> 'r loc_conf" where
  "location_policy pcre uri ss rs server =
     (let (rc, c) = select_location ss uri server;
          (rc', c') = (if rc = NGX_AGAIN then ngx_http_core_find_location pcre uri c else (rc, c));
          settled = (rc' = NGX_OK \<or> rc' = NGX_DONE \<or> rc = NGX_AGAIN \<and> loc_noregex c)
      in if settled then (rc', c')
         else case find (\<lambda>r. pcre (the (loc_regex r)) uri \<noteq> -1) rs of
                None \<Rightarrow> (rc', c')
              | Some r \<Rightarrow>
                  if pcre (the (loc_regex r)) uri < 0 then (NGX_ERROR, c')
                  else let (rc2, c2) = ngx_http_core_find_location pcre uri r
                       in (if rc2 = NGX_ERROR then NGX_ERROR else NGX_OK, c2))"

lemma find_regex_location_first:
  "find_regex_location pcre uri rs r =
     (case find (\<lambda>r. pcre (the (loc_regex r)) uri \<noteq> -1) rs of
        None \<Rightarrow> r
      | Some c \<Rightarrow>
          if pcre (the (loc_regex c)) uri < 0 then (NGX_ERROR, snd r)
          else let (rc2, c2) = ngx_http_core_find_location pcre uri c
               in (if rc2 = NGX_ERROR then NGX_ERROR else NGX_OK, c2))"
  by (induction rs) (auto simp: ngx_http_regex_exec_def Let_def split: prod.splits)

lemma server_lookup:
  assumes "loc_locations server = Some (map location_queue cs)" "loc_static server = Null" "loc_regexes server = []"
    and "list_all one_class cs" "list_all static_ok (of_class Static cs)"
    and "ngx_http_init_locations True server = Inr (server1, named)"
    and "ngx_http_init_static_location_trees server1 = Inr server2"
  shows "ngx_http_core_find_location pcre uri server2 =
      location_policy pcre uri (map ready (of_class Static cs)) (map prepared (of_class Regex cs)) server2
    \<and> named = (if of_class Named cs = [] then None else Some (map prepared (of_class Named (sorted_confs cs))))"
proof
  note first = init_locations_result [OF assms(1,4,3,6)]
  note second = init_trees_result [OF first(1) _ assms(5,7), unfolded first(2,3), OF assms(2)]
  show "ngx_http_core_find_location pcre uri server2 =
      location_policy pcre uri (map ready (of_class Static cs)) (map prepared (of_class Regex cs)) server2"
    unfolding ngx_http_core_find_location.simps [of pcre uri server2] second find_regex_location_first location_policy_def
    by (auto simp: Let_def split: prod.splits option.splits)
qed (rule init_locations_result(4) [OF assms(1,4,3,6)])

text \<open>
  C2. From the configuration to the request: when a server has been initialised, the location of a request and the
  return value are those of the policy on the locations as they are written in the configuration, in any order,
  but that of the regular expressions, which is kept; and its named locations are those of the configuration.
  Names of prefix and exact locations have no zero byte and are shorter than 256 bytes.
\<close>

theorem server_location_policy:
  assumes "loc_locations server = Some (map location_queue cs)" "loc_static server = Null" "loc_regexes server = []"
    and "list_all one_class cs" "list_all static_ok (of_class Static cs)"
    and "ngx_http_init_locations True server = Inr (server1, named)"
    and "ngx_http_init_static_location_trees server1 = Inr server2"
  shows "ngx_http_core_find_location pcre uri server2 =
      location_policy pcre uri (map ready (of_class Static cs)) (map prepared (of_class Regex cs)) server2
    \<and> named = (if of_class Named cs = [] then None else Some (map prepared (of_class Named (sorted_confs cs))))"
  by (rule server_lookup [OF assms])

end
