(* ===== verification/Http_Core_Location.thy ===== *)
theory Http_Core_Location
  imports Http_Find_Location
begin

section \<open>Locations from the configuration\<close>

text \<open>
  What the directives of a configuration make of the locations of a server: \<^verbatim>\<open>ngx_http_core_location\<close> and
  \<^verbatim>\<open>ngx_http_core_regex_location\<close> (\<^verbatim>\<open>src/http/ngx_http_core_module.c\<close>), the part of
  \<^verbatim>\<open>ngx_http_rewrite_if\<close> that adds a location without a name (\<^verbatim>\<open>src/http/modules/ngx_http_rewrite_module.c\<close>) and
  that of \<^verbatim>\<open>ngx_http_proxy_pass\<close> that asks for redirects (\<^verbatim>\<open>src/http/modules/ngx_http_proxy_module.c\<close>). A
  configuration is the tree of its directives, the arguments of a directive start with its own name, and a
  location, which the code adds to the queue of its parent before it reads the block, is added when the block has
  been read: nothing else is added to the queue in between. The compilation of a regular expression is PCRE's.
\<close>

abbreviation chr_star :: byte where "chr_star \<equiv> 0x2a"
abbreviation chr_at :: byte where "chr_at \<equiv> 0x40"
abbreviation chr_caret :: byte where "chr_caret \<equiv> 0x5e"
abbreviation chr_tilde :: byte where "chr_tilde \<equiv> 0x7e"

datatype loc_directive =
  Location "byte list list" "loc_directive list"
| If_block "loc_directive list"
| Proxy_pass

text \<open>Where a directive stands: \<^verbatim>\<open>cf->cmd_type\<close>, for a server, a location and the if blocks in them.\<close>

datatype conf_context = Srv_conf | Loc_context | Sif_conf | Lif_conf

text \<open>
  The messages of the parser. \<open>Read_before_name\<close> stands for the test of the last byte of an empty name.
\<close>

datatype conf_error =
  Not_allowed | Invalid_number_of_arguments | Invalid_modifier "byte list" | Regex_failed "byte list"
| Inside_exact "byte list" | Inside_named "byte list" | Named_not_on_server "byte list" | Outside_location "byte list"
| Read_before_name

text \<open>The location that \<^verbatim>\<open>ngx_http_core_create_loc_conf\<close> allocates.\<close>

definition ngx_http_core_create_loc_conf :: "'r loc_conf" where
  "ngx_http_core_create_loc_conf = Loc_Conf [] None False False False False False None Null []"

definition location_named ::
    "byte list \<Rightarrow> 'r option \<Rightarrow> bool \<Rightarrow> bool \<Rightarrow> bool \<Rightarrow> 'r loc_conf" where
  "location_named name regex named exact noregex =
     (case ngx_http_core_create_loc_conf of Loc_Conf _ _ noname _ _ _ redirect locations static regexes \<Rightarrow>
        Loc_Conf name regex noname named exact noregex redirect locations static regexes)"

definition ngx_http_core_regex_location ::
    "(byte list \<Rightarrow> bool \<Rightarrow> 'r option) \<Rightarrow> byte list \<Rightarrow> bool \<Rightarrow> conf_error + 'r loc_conf" where
  "ngx_http_core_regex_location compile name caseless =
     (case compile name caseless of
        None \<Rightarrow> Inl (Regex_failed name)
      | Some regex \<Rightarrow> Inr (location_named name (Some regex) False False False))"

text \<open>The name and the modifier, given apart or in one argument.\<close>

definition location_of_args ::
    "(byte list \<Rightarrow> bool \<Rightarrow> 'r option) \<Rightarrow> byte list list \<Rightarrow> conf_error + 'r loc_conf" where
  "location_of_args compile args =
     (if length args = 3
      then let mod0 = args ! 1; name = args ! 2
           in if length mod0 = 1 \<and> mod0 ! 0 = chr_eq then Inr (location_named name None False True False)
              else if length mod0 = 2 \<and> mod0 ! 0 = chr_caret \<and> mod0 ! 1 = chr_tilde
              then Inr (location_named name None False False True)
              else if length mod0 = 1 \<and> mod0 ! 0 = chr_tilde then ngx_http_core_regex_location compile name False
              else if length mod0 = 2 \<and> mod0 ! 0 = chr_tilde \<and> mod0 ! 1 = chr_star
              then ngx_http_core_regex_location compile name True
              else Inl (Invalid_modifier mod0)
      else let name = args ! 1; data = cstring name
           in if data ! 0 = chr_eq then Inr (location_named (drop 1 name) None False True False)
              else if data ! 0 = chr_caret \<and> data ! 1 = chr_tilde then Inr (location_named (drop 2 name) None False False True)
              else if data ! 0 = chr_tilde
              then if data ! 1 = chr_star then ngx_http_core_regex_location compile (drop 2 name) True
                   else ngx_http_core_regex_location compile (drop 1 name) False
              else Inr (location_named name None (data ! 0 = chr_at) False False))"

text \<open>What a location inside another has to be.\<close>

definition nested_location_error :: "'r loc_conf \<Rightarrow> 'r loc_conf \<Rightarrow> conf_error option" where
  "nested_location_error pclcf clcf =
     (if loc_exact_match pclcf then Some (Inside_exact (loc_name clcf))
      else if loc_named pclcf then Some (Inside_named (loc_name clcf))
      else if loc_named clcf then Some (Named_not_on_server (loc_name clcf))
      else if loc_regex clcf = None
           \<and> ngx_filename_cmp (cstring (loc_name clcf)) (cstring (loc_name pclcf)) (length (loc_name pclcf)) \<noteq> 0
      then Some (Outside_location (loc_name clcf))
      else None)"

definition set_auto_redirect :: "'r loc_conf \<Rightarrow> 'r loc_conf" where
  "set_auto_redirect c =
     Loc_Conf (loc_name c) (loc_regex c) (loc_noname c) (loc_named c) (loc_exact_match c) (loc_noregex c) True
       (loc_locations c) (loc_static c) (loc_regexes c)"

definition location_if :: "'r loc_conf \<Rightarrow> 'r loc_conf" where
  "location_if pclcf =
     (case ngx_http_core_create_loc_conf of Loc_Conf _ regex _ named exact noregex redirect locations static regexes \<Rightarrow>
        Loc_Conf (loc_name pclcf) regex True named exact noregex redirect locations static regexes)"

definition add_to :: "'r loc_conf \<Rightarrow> 'r loc_conf \<Rightarrow> 'r loc_conf" where
  "add_to pclcf clcf = loc_changed pclcf (ngx_http_add_location (loc_locations pclcf) clcf) (loc_static pclcf) (loc_regexes pclcf)"

text \<open>A directive changes the location or the server that it stands in.\<close>

fun conf_directive :: "(byte list \<Rightarrow> bool \<Rightarrow> 'r option) \<Rightarrow> conf_context \<Rightarrow> 'r loc_conf \<Rightarrow> loc_directive \<Rightarrow> conf_error + 'r loc_conf"
  and conf_block :: "(byte list \<Rightarrow> bool \<Rightarrow> 'r option) \<Rightarrow> conf_context \<Rightarrow> 'r loc_conf \<Rightarrow> loc_directive list \<Rightarrow> conf_error + 'r loc_conf" where
  "conf_directive compile ctx pclcf (Location args block) =
     (if ctx \<noteq> Srv_conf \<and> ctx \<noteq> Loc_context then Inl Not_allowed
      else if length args \<noteq> 2 \<and> length args \<noteq> 3 then Inl Invalid_number_of_arguments
      else case location_of_args compile args of
             Inl e \<Rightarrow> Inl e
           | Inr clcf \<Rightarrow>
               (case (if ctx = Loc_context then nested_location_error pclcf clcf else None) of
                  Some e \<Rightarrow> Inl e
                | None \<Rightarrow>
                    (case conf_block compile Loc_context clcf block of
                       Inl e \<Rightarrow> Inl e
                     | Inr clcf \<Rightarrow> Inr (add_to pclcf clcf))))"
| "conf_directive compile ctx pclcf (If_block block) =
     (if ctx \<noteq> Srv_conf \<and> ctx \<noteq> Loc_context then Inl Not_allowed
      else case conf_block compile (if ctx = Srv_conf then Sif_conf else Lif_conf) (location_if pclcf) block of
             Inl e \<Rightarrow> Inl e
           | Inr clcf \<Rightarrow> Inr (add_to pclcf clcf))"
| "conf_directive compile ctx pclcf Proxy_pass =
     (if ctx \<noteq> Loc_context \<and> ctx \<noteq> Lif_conf then Inl Not_allowed
      else if loc_name pclcf = [] then Inl Read_before_name
      else if loc_name pclcf ! (length (loc_name pclcf) - 1) = chr_slash then Inr (set_auto_redirect pclcf)
      else Inr pclcf)"
| "conf_block compile ctx pclcf [] = Inr pclcf"
| "conf_block compile ctx pclcf (d # ds) =
     (case conf_directive compile ctx pclcf d of
        Inl e \<Rightarrow> Inl e
      | Inr pclcf \<Rightarrow> conf_block compile ctx pclcf ds)"

definition conf_server :: "(byte list \<Rightarrow> bool \<Rightarrow> 'r option) \<Rightarrow> loc_directive list \<Rightarrow> conf_error + 'r loc_conf" where
  "conf_server compile ds = conf_block compile Srv_conf ngx_http_core_create_loc_conf ds"

subsection \<open>What a configuration is made of\<close>

definition self_ok :: "'r loc_conf \<Rightarrow> bool" where
  "self_ok c \<longleftrightarrow> one_class c \<and> (loc_auto_redirect c \<longrightarrow> suffix [chr_slash] (loc_name c))"

function conf_ok :: "bool \<Rightarrow> 'r loc_conf \<Rightarrow> bool" where
  "conf_ok server c \<longleftrightarrow> loc_static c = Null \<and> loc_regexes c = [] \<and>
     (case loc_locations c of
        None \<Rightarrow> True
      | Some qs \<Rightarrow> list_all (\<lambda>lq. case lq_location lq of
          None \<Rightarrow> False
        | Some d \<Rightarrow> lq = location_queue d \<and> self_ok d \<and> (loc_named d \<longrightarrow> server) \<and> conf_ok False d) qs)"
  by pat_completeness auto
termination
proof (relation "measure (\<lambda>(_, c). size c)")
  fix server c and qs :: "'r location_queue list" and lq d
  assume "loc_locations c = Some qs" "lq \<in> set qs" "lq_location lq = Some d"
  then have "size d < size lq" "size lq \<le> lqs_size qs" "lqs_size qs < size c"
    using lq_location_size loc_locations_size by (auto simp: size_list_estimation')
  then show "((False, d), (server, c)) \<in> measure (\<lambda>(_, c). size c)" by simp
qed simp

declare conf_ok.simps [simp del]

abbreviation child_ok :: "bool \<Rightarrow> 'r location_queue \<Rightarrow> bool" where
  "child_ok server lq \<equiv> (case lq_location lq of
     None \<Rightarrow> False
   | Some d \<Rightarrow> lq = location_queue d \<and> self_ok d \<and> (loc_named d \<longrightarrow> server) \<and> conf_ok False d)"

lemma conf_ok_add:
  assumes "conf_ok server c" "self_ok d" "loc_named d \<longrightarrow> server" "conf_ok False d"
  shows "conf_ok server (add_to c d)"
  using assms by (cases "loc_locations c") (simp_all add: conf_ok.simps [of server] add_to_def ngx_http_add_location_def Let_def)

lemma add_to_sel [simp]:
  "loc_name (add_to c d) = loc_name c" "loc_named (add_to c d) = loc_named c" "self_ok (add_to c d) = self_ok c"
  by (simp_all add: add_to_def loc_changed_def self_ok_def one_class_def)

lemma set_auto_redirect_sel [simp]:
  "loc_name (set_auto_redirect c) = loc_name c" "loc_named (set_auto_redirect c) = loc_named c"
  "conf_ok server (set_auto_redirect c) = conf_ok server c"
  by (simp_all add: set_auto_redirect_def conf_ok.simps [of server])

lemma last_slash: "s \<noteq> [] \<Longrightarrow> s ! (length s - 1) = chr_slash \<Longrightarrow> suffix [chr_slash] s"
  by (cases s rule: rev_cases) (auto simp: suffix_def)

lemma location_named_ok:
  "regex = None \<or> \<not> named \<Longrightarrow> self_ok (location_named name regex named exact noregex)"
  "conf_ok server (location_named name regex named exact noregex)"
  "loc_named (location_named name regex named exact noregex) = named"
  by (auto simp: location_named_def ngx_http_core_create_loc_conf_def self_ok_def one_class_def conf_ok.simps [of server])

lemma location_of_args_ok:
  "location_of_args compile args = Inr c \<Longrightarrow> self_ok c \<and> conf_ok server c"
  by (auto simp: location_of_args_def ngx_http_core_regex_location_def Let_def location_named_ok split: if_splits option.splits)

lemma location_if_ok: "self_ok (location_if c)" "conf_ok server (location_if c)" "\<not> loc_named (location_if c)"
  by (simp_all add: location_if_def ngx_http_core_create_loc_conf_def self_ok_def one_class_def conf_ok.simps [of server])

lemma conf_parse_ok:
  "conf_directive compile ctx c d = Inr c' \<Longrightarrow> self_ok c \<Longrightarrow> conf_ok (ctx = Srv_conf) c \<Longrightarrow>
     self_ok c' \<and> conf_ok (ctx = Srv_conf) c' \<and> loc_named c' = loc_named c"
  "conf_block compile ctx c ds = Inr c' \<Longrightarrow> self_ok c \<Longrightarrow> conf_ok (ctx = Srv_conf) c \<Longrightarrow>
     self_ok c' \<and> conf_ok (ctx = Srv_conf) c' \<and> loc_named c' = loc_named c"
proof (induction compile ctx c d and compile ctx c ds arbitrary: c' and c' rule: conf_directive_conf_block.induct)
  case (1 compile ctx pclcf args block)
  then obtain clcf clcf' where clcf: "location_of_args compile args = Inr clcf"
    and nested: "(if ctx = Loc_context then nested_location_error pclcf clcf else None) = None"
    and block: "conf_block compile Loc_context clcf block = Inr clcf'" and c': "c' = add_to pclcf clcf'"
    and ctx: "ctx = Srv_conf \<or> ctx = Loc_context" and n: "length args = 2 \<or> length args = 3"
    by (auto split: if_splits sum.splits option.splits)
  have "self_ok clcf" "conf_ok False clcf" using location_of_args_ok [OF clcf] by blast+
  moreover from calculation have "self_ok clcf' \<and> conf_ok (Loc_context = Srv_conf) clcf' \<and> loc_named clcf' = loc_named clcf"
    using "1.IH" [OF _ _ clcf nested block] ctx n by auto
  moreover have "loc_named clcf \<longrightarrow> ctx = Srv_conf" using nested ctx by (auto simp: nested_location_error_def split: if_splits)
  ultimately show ?case using "1.prems" c' by (simp add: conf_ok_add)
next
  case (2 compile ctx pclcf block)
  then obtain clcf where block: "conf_block compile (if ctx = Srv_conf then Sif_conf else Lif_conf) (location_if pclcf) block = Inr clcf"
    and c': "c' = add_to pclcf clcf" and ctx: "ctx = Srv_conf \<or> ctx = Loc_context"
    by (auto split: if_splits sum.splits)
  have "self_ok clcf \<and> conf_ok False clcf \<and> \<not> loc_named clcf"
    using "2.IH" [OF _ block] ctx location_if_ok by (auto split: if_splits)
  with "2.prems" c' show ?case by (simp add: conf_ok_add)
next
  case (3 compile ctx pclcf)
  then show ?case
    using last_slash [of "loc_name pclcf"] by (auto simp: self_ok_def one_class_def set_auto_redirect_def [of pclcf] conf_ok.simps split: if_splits)
next
  case (5 compile ctx pclcf d ds)
  then show ?case by (auto split: sum.splits)
qed simp

subsection \<open>Initialising what was configured\<close>

lemma conf_ok_iff:
  "conf_ok server c \<longleftrightarrow> loc_static c = Null \<and> loc_regexes c = [] \<and>
     (\<forall>qs. loc_locations c = Some qs \<longrightarrow> list_all (child_ok server) qs)"
  by (subst conf_ok.simps) (auto split: option.split)

text \<open>No element of a queue is without its location, however deep it is nested.\<close>

inductive linked :: "'r loc_conf \<Rightarrow> bool" where
  "loc_locations c = None \<Longrightarrow> linked c"
| "loc_locations c = Some qs \<Longrightarrow> (\<And>lq. lq \<in> set qs \<Longrightarrow> \<exists>d. lq_location lq = Some d \<and> linked d) \<Longrightarrow> linked c"

inductive_cases linkedE: "linked c"

lemma linked_child: "linked c \<Longrightarrow> loc_locations c = Some qs \<Longrightarrow> lq \<in> set qs \<Longrightarrow> \<exists>d. lq_location lq = Some d \<and> linked d"
  by (erule linkedE) auto

lemma lq_location_changed: "lq_location (lq_changed c lq) = Some c"
  by (simp add: lq_location_def lq_changed_def)

lemma lq_conf_changed: "lq_conf (lq_changed c lq) = c"
  by (simp add: lq_conf_def lq_changed_def)

lemma init_total:
  fixes c :: "'r loc_conf" and qs :: "'r location_queue list"
  shows "conf_ok server c \<Longrightarrow> \<exists>d named. ngx_http_init_locations server c = Inr (d, named) \<and> linked d"
  "list_all (child_ok server) qs \<Longrightarrow>
     \<exists>rs. init_location_queue qs = Inr rs \<and>
       (\<forall>lq \<in> set rs. (\<exists>d. lq_location lq = Some d \<and> lq_conf lq = d \<and> linked d \<and> (loc_named d \<longrightarrow> server)))"
proof (induction server c and qs arbitrary: and server rule: ngx_http_init_locations_init_location_queue.induct)
  case (1 cscf pclcf)
  show ?case
  proof (cases "loc_locations pclcf")
    case None
    with linked.intros(1) show ?thesis by (simp add: ngx_http_init_locations.simps [of cscf pclcf])
  next
    case (Some qs)
    let ?sorted = "sort_list ngx_http_cmp_locations qs"
    have "set ?sorted = set qs" by (rule mset_eq_setD) (rule mset_sort_list)
    moreover have "list_all (child_ok cscf) qs" using conf_ok_iff [of cscf pclcf] Some "1.prems" by blast
    ultimately have "list_all (child_ok cscf) ?sorted" by (simp add: list_all_iff)
    from "1.IH" [OF Some this] obtain rs where rs: "init_location_queue ?sorted = Inr rs"
      and el: "\<And>lq. lq \<in> set rs \<Longrightarrow> \<exists>d. lq_location lq = Some d \<and> lq_conf lq = d \<and> linked d \<and> (loc_named d \<longrightarrow> cscf)" by blast
    let ?named = "\<lambda>lq. loc_regex (lq_conf lq) = None \<and> loc_named (lq_conf lq)"
    have nn: "dropWhile (\<lambda>lq. \<not> ?named lq) rs = [] \<or> cscf"
    proof (rule disjCI)
      assume "\<not> cscf"
      moreover have "loc_named (lq_conf lq) \<longrightarrow> cscf" if "lq \<in> set rs" for lq using el [OF that] by blast
      ultimately show "dropWhile (\<lambda>lq. \<not> ?named lq) rs = []" unfolding dropWhile_eq_Nil_conv by blast
    qed
    have sub: "set (takeWhile (\<lambda>lq. loc_regex (lq_conf lq) = None) (takeWhile (\<lambda>lq. \<not> ?named lq) rs)) \<subseteq> set rs"
      by (intro subsetI) (drule set_takeWhileD, drule conjunct1, drule set_takeWhileD, erule conjunct1)
    have "\<not> (dropWhile (\<lambda>lq. \<not> ?named lq) rs \<noteq> [] \<and> \<not> cscf)" using nn by blast
    then obtain d named where d: "ngx_http_init_locations cscf pclcf = Inr (d, named)"
      "loc_locations d = Some (takeWhile (\<lambda>lq. loc_regex (lq_conf lq) = None) (takeWhile (\<lambda>lq. \<not> ?named lq) rs))"
      unfolding ngx_http_init_locations.simps [of cscf pclcf] Some rs option.case sum.case Let_def by (simp only: if_False) simp
    from d(2) have "linked d" by (rule linked.intros(2)) (use el sub in blast)
    with d(1) show ?thesis by blast
  qed
next
  case (3 lq qs)
  from "3.prems" obtain clcf where clcf: "lq_location lq = Some clcf" and ok: "lq = location_queue clcf" "loc_named clcf \<longrightarrow> server"
    "conf_ok False clcf" by (auto split: option.splits)
  from "3.IH"(1) [OF clcf ok(3)] obtain d n where d: "ngx_http_init_locations False clcf = Inr (d, n)" "linked d" by blast
  have named: "loc_named d \<longrightarrow> server" using init_locations_same [OF d(1)] ok(2) by (simp add: same_loc_def)
  show ?case
  proof (cases "loc_regex d = None \<and> \<not> loc_named d \<and> loc_noname d")
    case True
    with clcf d show ?thesis by simp
  next
    case False
    from "3.IH"(2) [OF clcf d(1) _ False, of n server] "3.prems" obtain rs where "init_location_queue qs = Inr rs"
      "\<forall>lq \<in> set rs. \<exists>d. lq_location lq = Some d \<and> lq_conf lq = d \<and> linked d \<and> (loc_named d \<longrightarrow> server)" by auto
    moreover from this have "init_location_queue (lq # qs) = Inr (lq_changed d lq # rs)"
      using clcf d(1) False by (simp only: init_location_queue.simps option.case sum.case prod.case if_False)
    ultimately show ?thesis using d(2) named by (simp add: lq_location_changed lq_conf_changed)
  qed
qed simp

lemma trees_linked:
  fixes c :: "'r loc_conf" and qs :: "'r location_queue list"
  shows "linked c \<Longrightarrow> ngx_http_init_static_location_trees c \<noteq> Inl Null_pointer"
  "(\<And>lq. lq \<in> set qs \<Longrightarrow> \<exists>d. lq_location lq = Some d \<and> linked d) \<Longrightarrow> init_tree_queue qs \<noteq> Inl Null_pointer"
proof (induction c and qs rule: ngx_http_init_static_location_trees_init_tree_queue.induct)
  case (1 pclcf)
  show ?case
  proof (cases "loc_locations pclcf")
    case (Some qs)
    with "1.IH" [OF Some] linked_child [OF "1.prems" Some] show ?thesis
      by (auto simp: ngx_http_init_static_location_trees.simps [of pclcf] split: sum.split)
  qed (simp add: ngx_http_init_static_location_trees.simps)
next
  case (3 lq qs)
  then obtain clcf where "lq_location lq = Some clcf" "linked clcf" by fastforce
  with 3 show ?case by (auto split: sum.split)
qed simp

lemma conf_server_init:
  fixes server :: "'r loc_conf"
  assumes "conf_server compile ds = Inr server"
  shows "\<exists>server1 named. ngx_http_init_locations True server = Inr (server1, named) \<and>
    ((\<exists>server2. ngx_http_init_static_location_trees server1 = Inr server2) \<or>
     (\<exists>name. ngx_http_init_static_location_trees server1 = Inl (Duplicate_location name)))"
proof -
  have "self_ok (ngx_http_core_create_loc_conf :: 'r loc_conf)" "conf_ok True (ngx_http_core_create_loc_conf :: 'r loc_conf)"
    by (simp_all add: ngx_http_core_create_loc_conf_def self_ok_def one_class_def conf_ok_iff)
  then have "conf_ok True server" using conf_parse_ok(2) [of compile Srv_conf ngx_http_core_create_loc_conf ds server] assms
    by (simp add: conf_server_def)
  from init_total(1) [OF this] obtain server1 named where
    s: "ngx_http_init_locations True server = Inr (server1, named)" "linked server1" by blast
  have "e = Null_pointer \<or> (\<exists>name. e = Duplicate_location name)" for e by (cases e) auto
  with s trees_linked(1) [OF s(2)] show ?thesis by (cases "ngx_http_init_static_location_trees server1") auto
qed

text \<open>
  C15. A server whose configuration was accepted is initialised: its locations are of one class each, nothing runs
  into a null pointer, and the only error left is a duplicate location.
\<close>

theorem configured_server_initialises:
  fixes server :: "'r loc_conf"
  assumes "conf_server compile ds = Inr server"
  shows "\<exists>server1 named. ngx_http_init_locations True server = Inr (server1, named) \<and>
    ((\<exists>server2. ngx_http_init_static_location_trees server1 = Inr server2) \<or>
     (\<exists>name. ngx_http_init_static_location_trees server1 = Inl (Duplicate_location name)))"
  by (rule conf_server_init [OF assms])

text \<open>
  A server with \<^verbatim>\<open>location = /a\<close>, a prefix location \<^verbatim>\<open>/\<close> with a proxy, \<^verbatim>\<open>location ~ p\<close> and a named location; a
  pattern matches the URIs that end with it.
\<close>

definition sample_conf :: "loc_directive list" where
  "sample_conf = [Location [[], [chr_slash]] [Proxy_pass], Location [[], [chr_tilde], [0x70]] [],
     Location [[], [chr_at, chr_a]] [], Location [[], [chr_eq], [chr_slash, chr_a]] []]"

definition sample_compile :: "byte list \<Rightarrow> bool \<Rightarrow> byte list option" where
  "sample_compile name caseless = Some name"

definition sample_pcre :: "byte list \<Rightarrow> byte list \<Rightarrow> int" where
  "sample_pcre pattern uri = (if suffix pattern uri then 1 else -1)"

definition sample_confs :: "byte list loc_conf list" where
  "sample_confs = [Loc_Conf [chr_slash] None False False False False True None Null [],
     Loc_Conf [0x70] (Some [0x70]) False False False False False None Null [],
     Loc_Conf [chr_at, chr_a] None False True False False False None Null [],
     Loc_Conf [chr_slash, chr_a] None False False True False False None Null []]"

lemma sample_conf_server:
  "conf_server sample_compile sample_conf =
     Inr (Loc_Conf [] None False False False False False (Some (map location_queue sample_confs)) Null [])"
  by (simp add: conf_server_def sample_conf_def sample_compile_def sample_confs_def location_of_args_def cstring_def
      ngx_http_core_regex_location_def location_named_def ngx_http_core_create_loc_conf_def set_auto_redirect_def
      add_to_def loc_changed_def ngx_http_add_location_def Let_def)

lemma prepared_leaf: "loc_locations c = None \<Longrightarrow> prepared c = c" "loc_locations c = None \<Longrightarrow> with_tree c = c"
  by (simp_all add: prepared_def ngx_http_init_locations.simps [of False c]
      with_tree_def ngx_http_init_static_location_trees.simps [of c])

lemma leaf_trees: "loc_locations c = None \<Longrightarrow> ngx_http_init_static_location_trees c = Inr c"
  by (simp add: ngx_http_init_static_location_trees.simps [of c])

lemma lq_changed_id: "lq_changed c (location_queue c) = location_queue c"
  by (simp add: lq_changed_queue)

lemma sample_initialised:
  "\<exists>server1 named server2. ngx_http_init_locations True
       (Loc_Conf [] None False False False False False (Some (map location_queue sample_confs)) Null []) = Inr (server1, named) \<and>
     ngx_http_init_static_location_trees server1 = Inr server2"
proof -
  let ?server = "Loc_Conf [] None False False False False False (Some (map location_queue sample_confs)) Null []"
  from conf_server_init [OF sample_conf_server] obtain server1 named where
    s: "ngx_http_init_locations True ?server = Inr (server1, named)"
    and t: "(\<exists>server2. ngx_http_init_static_location_trees server1 = Inr server2) \<or>
     (\<exists>name. ngx_http_init_static_location_trees server1 = Inl (Duplicate_location name))" by blast
  have "loc_locations server1 = Some (map location_queue (map prepared (of_class Static (sorted_confs sample_confs))))"
    by (rule init_locations_result(1) [OF _ _ _ s]) (simp_all add: sample_confs_def one_class_def)
  moreover have "of_class Static (sorted_confs sample_confs) = [sample_confs ! 0, sample_confs ! 3]"
    by (simp add: sorted_confs_def sort_list_def sort_insert_def sample_confs_def ngx_http_cmp_locations_def
        location_queue_def lq_conf_def loc_class_def Let_def cstring_def)
  ultimately have locs: "loc_locations server1 = Some [location_queue (sample_confs ! 0), location_queue (sample_confs ! 3)]"
    by (simp add: sample_confs_def prepared_leaf)
  have "loc_locations (sample_confs ! 0) = None" "loc_locations (sample_confs ! 3) = None" by (simp_all add: sample_confs_def)
  then have "init_tree_queue [location_queue (sample_confs ! 0), location_queue (sample_confs ! 3)] =
      Inr [location_queue (sample_confs ! 0), location_queue (sample_confs ! 3)]"
    by (simp add: leaf_trees lq_changed_id)
  moreover have "\<exists>tree. static_location_tree [location_queue (sample_confs ! 0), location_queue (sample_confs ! 3)] = Inr tree"
    by (simp add: static_location_tree_def sample_confs_def location_queue_def)
  ultimately have "\<exists>server2. ngx_http_init_static_location_trees server1 = Inr server2"
    using locs by (auto simp: ngx_http_init_static_location_trees.simps [of server1])
  with s show ?thesis by blast
qed

theorem configured_server_initialises_witness:
  "\<exists>server1 named. ngx_http_init_locations True
       (Loc_Conf [] None False False False False False (Some (map location_queue sample_confs)) Null []) = Inr (server1, named)"
  using configured_server_initialises [OF sample_conf_server] by blast

theorem server_location_policy_witness:
  "\<exists>server2. ngx_http_core_find_location sample_pcre [chr_slash, 0x70] server2 = (NGX_OK, sample_confs ! 1) \<and>
     ngx_http_core_find_location sample_pcre [chr_slash, chr_a] server2 = (NGX_OK, sample_confs ! 3) \<and>
     ngx_http_core_find_location sample_pcre [chr_slash, 0x62] server2 = (NGX_DECLINED, sample_confs ! 0)"
proof -
  let ?server = "Loc_Conf [] None False False False False False (Some (map location_queue sample_confs)) Null []"
  obtain server1 named server2 where init: "ngx_http_init_locations True ?server = Inr (server1, named)"
    "ngx_http_init_static_location_trees server1 = Inr server2" using sample_initialised by blast
  have ok: "list_all one_class sample_confs" "list_all static_ok (of_class Static sample_confs)"
    by (simp_all add: sample_confs_def one_class_def static_ok_def loc_class_def suffix_def)
  have policy: "ngx_http_core_find_location sample_pcre uri server2 =
      location_policy sample_pcre uri (map ready (of_class Static sample_confs)) (map prepared (of_class Regex sample_confs)) server2" for uri
    using server_location_policy [OF _ _ _ ok init, of sample_pcre uri] by simp
  have classes: "map ready (of_class Static sample_confs) = [sample_confs ! 0, sample_confs ! 3]"
    "map prepared (of_class Regex sample_confs) = [sample_confs ! 1]"
    by (simp_all add: sample_confs_def loc_class_def ready_def prepared_leaf)
  have leaf: "ngx_http_core_find_location sample_pcre uri c = (NGX_DECLINED, c)" if "loc_static c = Null" "loc_regexes c = []" for uri c
    using that by (simp add: ngx_http_core_find_location.simps [of sample_pcre uri c])
  show ?thesis
    by (rule exI [of _ server2], unfold policy classes)
      (simp add: location_policy_def select_location_def exact_location_def prefix_location_def longest_prefix_def
        sample_confs_def leaf sample_pcre_def suffix_def Let_def)
qed

end
