(* ===== verification/Http_Find_Config.thy ===== *)
theory Http_Find_Config
  imports Http_Core_Location
begin

section \<open>The find-config phase and named locations\<close>

text \<open>
  \<^verbatim>\<open>ngx_http_core_find_config_phase\<close> and \<^verbatim>\<open>ngx_http_named_location\<close> of
  \<^verbatim>\<open>src/http/ngx_http_core_module.c\<close>: what becomes of a request once its location is known. The settings of a
  location that only matter here, \<^verbatim>\<open>internal\<close> and \<^verbatim>\<open>client_max_body_size\<close>, are functions of the location. What
  the code does to the request when it goes on in the location, its update from the configuration and the run of
  the next phases, is left out.
\<close>

record location_request =
  lr_uri :: "byte list"
  lr_args :: "byte list"
  lr_internal :: bool
  lr_content_length_n :: int
  lr_discard_body :: bool

text \<open>The request is finalised with a status, with the value of a Location header for 301, or goes on in its location.\<close>

datatype 'r phase_outcome =
  Finalize nat | Moved_permanently "byte list" | In_location "'r loc_conf"

definition NGX_HTTP_NOT_FOUND :: nat where "NGX_HTTP_NOT_FOUND = 404"
definition NGX_HTTP_REQUEST_ENTITY_TOO_LARGE :: nat where "NGX_HTTP_REQUEST_ENTITY_TOO_LARGE = 413"
definition NGX_HTTP_INTERNAL_SERVER_ERROR :: nat where "NGX_HTTP_INTERNAL_SERVER_ERROR = 500"

definition ngx_http_core_find_config_phase ::
    "('r \<Rightarrow> byte list \<Rightarrow> int) \<Rightarrow> ('r loc_conf \<Rightarrow> bool) \<Rightarrow> ('r loc_conf \<Rightarrow> int) \<Rightarrow> 'r loc_conf \<Rightarrow> location_request \<Rightarrow> 'r phase_outcome" where
  "ngx_http_core_find_config_phase pcre internal client_max_body_size server r =
     (let (rc, clcf) = ngx_http_core_find_location pcre (lr_uri r) server
      in if rc = NGX_ERROR then Finalize NGX_HTTP_INTERNAL_SERVER_ERROR
         else if \<not> lr_internal r \<and> internal clcf then Finalize NGX_HTTP_NOT_FOUND
         else if lr_content_length_n r \<noteq> -1 \<and> \<not> lr_discard_body r \<and> client_max_body_size clcf \<noteq> 0
           \<and> client_max_body_size clcf < lr_content_length_n r
         then Finalize NGX_HTTP_REQUEST_ENTITY_TOO_LARGE
         else if rc = NGX_DONE
         then if lr_args r = [] then Moved_permanently (loc_name clcf)
              else Moved_permanently (loc_name clcf @ [chr_quest] @ lr_args r)
         else In_location clcf)"

text \<open>The comparison of at most \<open>n\<close> bytes by the C library.\<close>

fun ngx_strncmp :: "byte list \<Rightarrow> byte list \<Rightarrow> nat \<Rightarrow> int" where
  "ngx_strncmp (c1 # s1) (c2 # s2) (Suc n) =
     (if c1 = c2 then if c1 \<noteq> chr_nul then ngx_strncmp s1 s2 n else 0 else uint c1 - uint c2)"
| "ngx_strncmp s1 s2 n = 0"

fun find_named_location :: "'r loc_conf list \<Rightarrow> byte list \<Rightarrow> 'r loc_conf option" where
  "find_named_location [] name = None"
| "find_named_location (clcf # cs) name =
     (if length name \<noteq> length (loc_name clcf) \<or> ngx_strncmp name (loc_name clcf) (length name) \<noteq> 0
      then find_named_location cs name
      else Some clcf)"

text \<open>The counter of the changes of the URI is a bit field of four bits.\<close>

definition ngx_http_named_location ::
    "'r loc_conf list option \<Rightarrow> byte list \<Rightarrow> byte list \<Rightarrow> 4 word \<Rightarrow> 4 word \<times> 'r phase_outcome" where
  "ngx_http_named_location named_locations uri name uri_changes =
     (let uri_changes = uri_changes - 1
      in if uri_changes = 0 then (uri_changes, Finalize NGX_HTTP_INTERNAL_SERVER_ERROR)
         else if uri = [] then (uri_changes, Finalize NGX_HTTP_INTERNAL_SERVER_ERROR)
         else case (case named_locations of Some cs \<Rightarrow> find_named_location cs name | None \<Rightarrow> None) of
                Some clcf \<Rightarrow> (uri_changes, In_location clcf)
              | None \<Rightarrow> (uri_changes, Finalize NGX_HTTP_INTERNAL_SERVER_ERROR))"

subsection \<open>Named locations\<close>

lemma strncmp_eq:
  "length a = length b \<Longrightarrow> chr_nul \<notin> set a \<Longrightarrow> ngx_strncmp a b (length a) = 0 \<longleftrightarrow> a = b"
  by (induction a b rule: list_induct2) (auto simp flip: word_uint_eq_iff simp: uint_0_iff)

lemma find_named_location_find:
  "chr_nul \<notin> set name \<Longrightarrow> find_named_location cs name = find (\<lambda>c. loc_name c = name) cs"
proof (induction cs)
  case (Cons c cs)
  with strncmp_eq [of name "loc_name c"] show ?case by (cases "length name = length (loc_name c)") auto
qed simp

text \<open>A request for a named location goes on in a location of this name, when the server has one.\<close>

lemma named_location_found:
  assumes "loc_locations server = Some (map location_queue cs)" "loc_static server = Null" "loc_regexes server = []"
    and "list_all one_class cs" and "ngx_http_init_locations True server = Inr (server1, named)"
    and "chr_nul \<notin> set name" "uri \<noteq> []" "uri_changes \<noteq> 1"
  shows "\<exists>c. ngx_http_named_location named uri name uri_changes = (uri_changes - 1, c) \<and>
    (if \<exists>d \<in> set cs. loc_class d = Named \<and> loc_name d = name
     then \<exists>d \<in> set cs. loc_class d = Named \<and> loc_name d = name \<and> c = In_location (prepared d)
     else c = Finalize NGX_HTTP_INTERNAL_SERVER_ERROR)"
proof -
  let ?N = "map prepared (of_class Named (sorted_confs cs))"
  have set: "set (sorted_confs cs) = set cs" by (rule mset_eq_setD) (rule mset_sorted_confs)
  have named: "named = (if of_class Named cs = [] then None else Some ?N)"
    by (rule init_locations_result(4) [OF assms(1,4,3,5)])
  have name: "loc_name (prepared d) = loc_name d" for d :: "'a loc_conf"
    using prepared_same [of d] by (simp add: same_loc_def)
  have none: "of_class Named cs = [] \<Longrightarrow> ?N = []" using set by (simp add: filter_empty_conv)
  define found where "found = find (\<lambda>c. loc_name c = name) ?N"
  have lookup: "(case named of Some cs \<Rightarrow> find_named_location cs name | None \<Rightarrow> None) = found"
    using none by (auto simp: named found_def find_named_location_find [OF assms(6)])
  have result: "ngx_http_named_location named uri name uri_changes = (uri_changes - 1,
      case found of Some clcf \<Rightarrow> In_location clcf | None \<Rightarrow> Finalize NGX_HTTP_INTERNAL_SERVER_ERROR)"
    using assms(7,8) by (simp add: ngx_http_named_location_def Let_def lookup split: option.split)
  show ?thesis
  proof (cases found)
    case None
    then have "\<not> (\<exists>d \<in> set cs. loc_class d = Named \<and> loc_name d = name)"
      using set by (auto simp: found_def find_None_iff name)
    with None result show ?thesis by auto
  next
    case (Some c)
    with find_SomeD [of _ ?N c] obtain d where "d \<in> set cs" "loc_class d = Named" "loc_name d = name" "c = prepared d"
      using set by (fastforce simp: found_def name)
    with Some result show ?thesis by auto
  qed
qed

subsection \<open>Redirects\<close>

text \<open>A redirect leads to the URI with a slash added, and keeps the arguments.\<close>

lemma select_redirect:
  assumes "distinct (map kind cs)" "select_location cs uri conf = (NGX_DONE, c)"
  shows "c \<in> set cs \<and> loc_name c = uri @ [chr_slash]"
proof -
  let ?slash = "uri @ [chr_slash]"
  have r: "\<exists>d \<in> set cs. loc_name d = ?slash" and
    c: "c = (case exact_location cs ?slash of Some c \<Rightarrow> c | None \<Rightarrow> the (prefix_location cs ?slash))"
    using assms(2) by (auto simp: select_location_def Let_def split: option.splits if_splits)
  show ?thesis
  proof (cases "exact_location cs ?slash")
    case None
    from r obtain d where d: "d \<in> set cs" "loc_name d = ?slash" by blast
    with None kind_location(1) [OF assms(1), of ?slash d] have "\<not> loc_exact_match d" by auto
    with d have p: "prefix_location cs ?slash = Some d" by (simp add: kind_location(2) [OF assms(1)])
    with None c d show ?thesis by simp
  next
    case (Some d)
    with c kind_location(1) [OF assms(1)] show ?thesis by simp
  qed
qed



end
