(* ===== verification/Ngx_Inet.thy ===== *)
theory Ngx_Inet
  imports Ngx_Sprintf
begin

section \<open>Internet addresses and their texts\<close>

text \<open>
  \<^verbatim>\<open>ngx_inet_addr\<close>, \<^verbatim>\<open>ngx_inet6_addr\<close> and \<^verbatim>\<open>ngx_inet6_ntop\<close> of \<^verbatim>\<open>src/core/ngx_inet.c\<close>. An \<^verbatim>\<open>in_addr_t\<close> is the 32-bit
  word of the little-endian build, whose bytes in memory are those of the address in order; an \<^verbatim>\<open>in6_addr\<close> is
  the list of its 16 bytes. The texts that \<^verbatim>\<open>ngx_inet6_ntop\<close> writes are read back as the same address, except two.
\<close>

definition INADDR_NONE :: u32 where "INADDR_NONE = 0xffffffff"
definition INADDR_ANY :: u32 where "INADDR_ANY = 0"

text \<open>The bytes of a word in memory, and the exchange of the byte orders.\<close>

definition in_bytes :: "u32 \<Rightarrow> byte list" where
  "in_bytes w = [ucast w, ucast (drop_bit 8 w), ucast (drop_bit 16 w), ucast (drop_bit 24 w)]"

definition htonl :: "u32 \<Rightarrow> u32" where
  "htonl w = push_bit 24 (w AND 0xff) OR push_bit 8 (w AND 0xff00) OR drop_bit 8 (w AND 0xff0000) OR drop_bit 24 w"

definition ntohl :: "u32 \<Rightarrow> u32" where "ntohl w = htonl w"

subsection \<open>IPv4\<close>

text \<open>\<open>octet\<close> is at most 255 when a digit comes, so that its \<^verbatim>\<open>ngx_uint_t\<close> does not overflow; \<open>n\<close> counts the dots.\<close>

fun inet_addr_loop :: "u32 \<Rightarrow> nat \<Rightarrow> nat \<Rightarrow> byte list \<Rightarrow> u32" where
  "inet_addr_loop addr octet n [] =
     (if n = 3 then htonl (push_bit 8 addr + of_nat octet) else INADDR_NONE)"
| "inet_addr_loop addr octet n (c # text) =
     (if chr_0 \<le> c \<and> c \<le> chr_9 then
        let octet = octet * 10 + unat (c - chr_0)
        in if octet > 255 then INADDR_NONE else inet_addr_loop addr octet n text
      else if c = chr_dot then inet_addr_loop (push_bit 8 addr + of_nat octet) 0 (Suc n) text
      else INADDR_NONE)"

definition ngx_inet_addr :: "byte list \<Rightarrow> u32" where
  "ngx_inet_addr text = inet_addr_loop 0 0 0 text"

subsection \<open>IPv6\<close>

text \<open>
  The state of the loop: the bytes written through \<^verbatim>\<open>addr\<close>, the place of the double colon among them, the text
  after the last colon (\<^verbatim>\<open>digit\<close> and \<^verbatim>\<open>len4\<close>), the digits of the current group and its value, which four digits
  keep below \<open>2 ^ 16\<close>, and the number of groups that are left.
\<close>

record inet6_state =
  i6_out :: "byte list"
  i6_zero :: "nat option"
  i6_digit :: "byte list option"
  i6_nibbles :: nat
  i6_word :: nat
  i6_n :: nat

definition word_high :: "nat \<Rightarrow> byte" where "word_high w = word_of_nat (w div 256)"
definition word_low :: "nat \<Rightarrow> byte" where "word_low w = word_of_nat (w mod 256)"

text \<open>A colon: it ends a group, or it is the second one of the double colon.\<close>

definition inet6_colon :: "byte list \<Rightarrow> inet6_state \<Rightarrow> inet6_state option" where
  "inet6_colon p s =
     (if i6_nibbles s \<noteq> 0 then
        let s = s\<lparr>i6_digit := Some p, i6_out := i6_out s @ [word_high (i6_word s), word_low (i6_word s)],
                  i6_n := i6_n s - 1\<rparr>
        in if i6_n s \<noteq> 0 then Some (s\<lparr>i6_nibbles := 0, i6_word := 0\<rparr>) else None
      else if i6_zero s = None then Some (s\<lparr>i6_digit := Some p, i6_zero := Some (length (i6_out s))\<rparr>)
      else None)"

text \<open>A dot after a digit: what follows the last colon is an IPv4 address.\<close>

definition inet6_dotted :: "inet6_state \<Rightarrow> inet6_state option" where
  "inet6_dotted s =
     (case i6_digit s of
        None \<Rightarrow> None
      | Some digit \<Rightarrow>
          if i6_n s < 2 then None
          else
            let word = ngx_inet_addr digit
            in if word = INADDR_NONE then None
               else
                 let word = unat (ntohl word)
                 in Some (s\<lparr>i6_word := word, i6_n := i6_n s - 1,
                            i6_out := i6_out s @ [word_high (word div 65536), word_low (word div 65536)]\<rparr>))"

fun inet6_loop :: "byte list \<Rightarrow> inet6_state \<Rightarrow> inet6_state option" where
  "inet6_loop [] s = Some s"
| "inet6_loop (c # p) s =
     (if c = chr_colon then
        (case inet6_colon p s of None \<Rightarrow> None | Some s \<Rightarrow> inet6_loop p s)
      else if c = chr_dot \<and> i6_nibbles s \<noteq> 0 then inet6_dotted s
      else
        let s = s\<lparr>i6_nibbles := i6_nibbles s + 1\<rparr>
        in if i6_nibbles s > 4 then None
           else if chr_0 \<le> c \<and> c \<le> chr_9 then
             inet6_loop p (s\<lparr>i6_word := i6_word s * 16 + unat (c - chr_0)\<rparr>)
           else
             let c = c OR 0x20
             in if chr_a \<le> c \<and> c \<le> chr_f then
                  inet6_loop p (s\<lparr>i6_word := i6_word s * 16 + unat (c - chr_a) + 10\<rparr>)
                else None)"

text \<open>The last group, and the zeros that the double colon stands for, for which the bytes behind it move up.\<close>

definition inet6_finish :: "inet6_state \<Rightarrow> byte list option" where
  "inet6_finish s =
     (if i6_nibbles s = 0 \<and> i6_zero s = None then None
      else
        let out = i6_out s @ [word_high (i6_word s), word_low (i6_word s)]; n = i6_n s - 1
        in if n \<noteq> 0 then
             (case i6_zero s of
                Some zero \<Rightarrow> Some (take zero out @ replicate (n * 2) 0 @ drop zero out)
              | None \<Rightarrow> None)
           else if i6_zero s = None then Some out else None)"

definition inet6_start :: inet6_state where
  "inet6_start = \<lparr>i6_out = [], i6_zero = None, i6_digit = None, i6_nibbles = 0, i6_word = 0, i6_n = 8\<rparr>"

definition ngx_inet6_addr :: "byte list \<Rightarrow> byte list option" where
  "ngx_inet6_addr text =
     (case text of
        [] \<Rightarrow> None
      | c # p \<Rightarrow>
          (case inet6_loop (if c = chr_colon then p else text) inet6_start of
             None \<Rightarrow> None
           | Some s \<Rightarrow> inet6_finish s))"

subsection \<open>Texts of addresses\<close>

text \<open>
  \<^verbatim>\<open>ngx_sprintf\<close> into a buffer that is not at the end of the address space; the formats here are well-formed.
\<close>

definition inet_sprintf :: "string \<Rightarrow> fmt_arg list \<Rightarrow> byte list" where
  "inet_sprintf fmt args = (case ngx_sprintf 0 (bytes_of fmt) args of Inr out \<Rightarrow> out | Inl _ \<Rightarrow> [])"

definition NGX_INET_ADDRSTRLEN :: nat where "NGX_INET_ADDRSTRLEN = 15"
definition NGX_INET6_ADDRSTRLEN :: nat where "NGX_INET6_ADDRSTRLEN = 45"

abbreviation byte_arg :: "byte \<Rightarrow> fmt_arg" where "byte_arg b \<equiv> Arg_word (ucast b)"

text \<open>The longest run of zero groups that is longer than one: its offset and its number of groups.\<close>

fun ntop_zeros ::
    "nat \<Rightarrow> nat option \<Rightarrow> nat option \<Rightarrow> nat \<Rightarrow> nat \<Rightarrow> byte list \<Rightarrow> nat option \<times> nat" where
  "ntop_zeros i zero start longest n (a # b # p) =
     (if a \<noteq> 0 \<or> b \<noteq> 0 then
        if longest < n then ntop_zeros (i + 2) start start n 0 p else ntop_zeros (i + 2) zero start longest 0 p
      else ntop_zeros (i + 2) zero (if n = 0 then Some i else start) longest (n + 1) p)"
| "ntop_zeros i zero start longest n p = (if longest < n then (start, n) else (zero, longest))"

definition group_text :: "byte list \<Rightarrow> nat \<Rightarrow> byte list" where
  "group_text p i = inet_sprintf ''%xd'' [Arg_word (ucast (p ! i) * 256 + ucast (p ! (i + 1)))]"

function ntop_groups :: "byte list \<Rightarrow> nat option \<Rightarrow> nat \<Rightarrow> nat \<Rightarrow> nat \<Rightarrow> byte list" where
  "ntop_groups p zero longest n i =
     (if i < n then
        if Some i = zero then chr_colon # ntop_groups p zero longest n (i + (longest - 1) * 2 + 2)
        else group_text p i @ (if i < 14 then [chr_colon] else []) @ ntop_groups p zero longest n (i + 2)
      else [])"
  by pat_completeness auto

termination by (relation "measure (\<lambda>(p, zero, longest, n, i). n - i)") auto

declare ntop_groups.simps [simp del]

definition ngx_inet6_ntop :: "byte list \<Rightarrow> nat \<Rightarrow> byte list" where
  "ngx_inet6_ntop p len =
     (if len < NGX_INET6_ADDRSTRLEN then []
      else
        case ntop_zeros 0 None None 1 0 p of
          (zero, longest) \<Rightarrow>
            let n = (if zero = Some 0 \<and>
                        (longest = 5 \<and> p ! 10 = 0xff \<and> p ! 11 = 0xff \<or> longest = 6 \<or> longest = 7 \<and> p ! 14 \<noteq> 0 \<and> p ! 15 \<noteq> 1)
                     then 12 else 16)
            in (if zero = Some 0 then [chr_colon] else []) @ ntop_groups p zero longest n 0 @
               (if n = 12
                then inet_sprintf ''%ud.%ud.%ud.%ud'' [byte_arg (p ! 12), byte_arg (p ! 13), byte_arg (p ! 14), byte_arg (p ! 15)]
                else []))"


subsection \<open>Words and their bytes\<close>

definition in_word :: "byte list \<Rightarrow> u32" where
  "in_word bs = word_of_nat (foldr (\<lambda>b n. unat b + 256 * n) bs 0)"

lemma in_bytes_unat:
  "in_bytes w = [word_of_nat (unat w), word_of_nat (unat w div 256), word_of_nat (unat w div 65536),
                 word_of_nat (unat w div 16777216)]"
proof -
  have "ucast (drop_bit k w) = (word_of_nat (unat w div 2 ^ k) :: byte)" for k
    by (simp add: word_unat_eq_iff unsigned_ucast_eq unsigned_of_nat unat_drop_bit)
  from this [of 0] this [of 8] this [of 16] this [of 24] show ?thesis by (simp add: in_bytes_def)
qed

lemma htonl_masks: "(0xff :: u32) = mask 8" "(0xff00 :: u32) = push_bit 8 (mask 8)" "(0xff0000 :: u32) = push_bit 16 (mask 8)"
  by (simp_all add: mask_eq_exp_minus_1 push_bit_eq_mult)

lemma bit_htonl:
  "bit (htonl w) n \<longleftrightarrow> n < 32 \<and> bit w (if n < 8 then n + 24 else if n < 16 then n + 8 else if n < 24 then n - 8 else n - 24)"
  unfolding htonl_def htonl_masks by (auto simp: bit_simps add.commute dest: bit_imp_le_length)

lemma htonl_htonl [simp]: "htonl (htonl w) = w"
  by (rule bit_word_eqI) (auto simp: bit_htonl less_diff_conv2 not_less)

lemma in_bytes_htonl: "in_bytes (htonl w) = rev (in_bytes w)"
  by (simp add: in_bytes_def) (intro conjI; (rule bit_word_eqI, auto simp: bit_simps bit_htonl ac_simps))

lemma byte_of_nat_eq: "n mod 256 = unat b \<Longrightarrow> word_of_nat n = (b :: byte)"
  by (simp add: byte_eq_unat unsigned_of_nat take_bit_nat_def)

lemma in_word_bytes: "in_bytes (in_word [a, b, c, d]) = [a, b, c, d]"
proof -
  define n2 where "n2 = unat c + 256 * unat d"
  define n1 where "n1 = unat b + 256 * n2"
  define n where "n = unat a + 256 * n1"
  have step: "x < 256 \<Longrightarrow> (x + 256 * m) div 256 = m \<and> (x + 256 * m) mod 256 = x" for x m :: nat by simp
  note less = unat_byte_less [of a] unat_byte_less [of b] unat_byte_less [of c] unat_byte_less [of d]
  have "n2 \<le> 65535" unfolding n2_def using less by linarith
  then have "n1 \<le> 16777215" unfolding n1_def using less by linarith
  then have "n \<le> 4294967295" unfolding n_def using less by linarith
  then have "n < 2 ^ LENGTH(32)" by simp
  then have w: "unat (in_word [a, b, c, d]) = n"
    by (simp only: in_word_def foldr.simps o_apply id_apply unsigned_of_nat take_bit_nat_eq_self mult_0_right add_0_right
        n_def n1_def n2_def of_nat_id)
  have parts: "n div 256 = n1" "n mod 256 = unat a" "n1 div 256 = n2" "n1 mod 256 = unat b" "n2 div 256 = unat d" "n2 mod 256 = unat c"
    unfolding n_def n1_def n2_def using less by (simp_all only: step)
  moreover have "m div 65536 = m div 256 div 256" "m div 16777216 = m div 256 div 256 div 256" for m :: nat
    by (simp_all add: div_mult2_eq [symmetric])
  ultimately show ?thesis
    unfolding in_bytes_unat w by (simp add: byte_of_nat_eq)
qed

lemma in_bytes_inj: "in_bytes v = in_bytes w \<longleftrightarrow> v = w"
proof
  assume eq: "in_bytes v = in_bytes w"
  have "bit v n = bit w n" if "n < 32" for n
  proof -
    have "\<And>k. k \<in> {0, 8, 16, 24} \<Longrightarrow> (ucast (drop_bit k v) :: byte) = ucast (drop_bit k w)"
      using eq by (auto simp: in_bytes_def)
    then have *: "\<And>k m. k \<in> {0, 8, 16, 24} \<Longrightarrow> m < 8 \<Longrightarrow> bit v (k + m) = bit w (k + m)"
      by (auto simp: bit_eq_iff bit_simps)
    consider "n < 8" | "8 \<le> n" "n < 16" | "16 \<le> n" "n < 24" | "24 \<le> n" using that by linarith
    then show ?thesis
      using *[of 0 n] *[of 8 "n - 8"] *[of 16 "n - 16"] *[of 24 "n - 24"] that by cases simp_all
  qed
  then show "v = w" by (intro bit_word_eqI) simp
qed simp

subsection \<open>A reference for IPv4\<close>

text \<open>The text is cut at its dots; there are four parts, each of digits with a value up to 255.\<close>

fun split_on :: "byte \<Rightarrow> byte list \<Rightarrow> byte list list" where
  "split_on c [] = [[]]"
| "split_on c (x # xs) =
     (if x = c then [] # split_on c xs
      else case split_on c xs of p # ps \<Rightarrow> (x # p) # ps | [] \<Rightarrow> [])"

definition is_octet :: "byte list \<Rightarrow> bool" where
  "is_octet ds \<longleftrightarrow> list_all dec_digit ds \<and> dec_value ds \<le> 255"

definition ipv4_value :: "byte list \<Rightarrow> byte list option" where
  "ipv4_value text =
     (let parts = split_on chr_dot text
      in if length parts = 4 \<and> list_all is_octet parts then Some (map (\<lambda>ds. word_of_int (dec_value ds)) parts)
         else None)"

lemma split_on_Cons: "\<exists>p ps. split_on c xs = p # ps"
  by (induction xs) auto

lemma inet_addr_loop_split:
  "octet \<le> 255 \<Longrightarrow> split_on chr_dot cs = p # ps \<Longrightarrow>
   inet_addr_loop addr octet n cs =
     (if list_all dec_digit p \<and> digits_value 10 digit_value (int octet) p \<le> 255 \<and> list_all is_octet ps \<and> n + length ps = 3
      then htonl (foldl (\<lambda>a v. push_bit 8 a + word_of_int v) addr
             (digits_value 10 digit_value (int octet) p # map dec_value ps))
      else INADDR_NONE)"
proof (induction addr octet n cs arbitrary: p ps rule: inet_addr_loop.induct)
  case (2 addr octet n c cs)
  obtain q qs where q: "split_on chr_dot cs = q # qs" using split_on_Cons by metis
  consider (digit) "dec_digit c" | (dot) "c = chr_dot" | (other) "\<not> dec_digit c" "c \<noteq> chr_dot" by blast
  then show ?case
  proof cases
    case digit
    let ?o = "octet * 10 + unat (c - chr_0)"
    have c: "c \<noteq> chr_dot" "int ?o = int octet * 10 + digit_value c" using digit by (auto simp: digit_value_def byte_simps)
    have p: "p = c # q" "ps = qs" using 2(4) q c(1) by simp_all
    show ?thesis
    proof (cases "?o > 255")
      case True
      then have "255 < int ?o" by linarith
      then have "\<not> (list_all dec_digit q \<and> digits_value 10 digit_value (int ?o) q \<le> 255)"
        using dec.value_mono [of "int ?o" q] by linarith
      with True digit c p show ?thesis by (auto simp: Let_def)
    next
      case False
      with 2(1) [OF digit refl False _ q] digit c p show ?thesis by (simp add: Let_def)
    qed
  next
    case dot
    with 2 q have "p = []" "ps = q # qs" by simp_all
    with 2(2) [OF _ dot _ q] dot 2(3) show ?thesis by (auto simp: is_octet_def)
  next
    case other
    with 2 q show ?thesis by (auto simp: byte_simps)
  qed
qed auto


lemma in_word_Cons: "in_word (b # bs) = 256 * in_word bs + of_nat (unat b)"
  unfolding in_word_def by (simp only: foldr.simps o_apply of_nat_add of_nat_mult of_nat_numeral add.commute)

lemma foldl_in_word:
  assumes "list_all (\<lambda>v. 0 \<le> v \<and> v \<le> 255) [a, b, c, d]"
  shows "htonl (foldl (\<lambda>w v. push_bit 8 w + word_of_int v) 0 [a, b, c, d]) = in_word (map word_of_int [a, b, c, d])"
proof -
  have byte: "0 \<le> v \<Longrightarrow> v \<le> 255 \<Longrightarrow> of_nat (unat (word_of_int v :: byte)) = (word_of_int v :: u32)" for v
  proof -
    assume "0 \<le> v" "v \<le> 255"
    then have "uint (word_of_int v :: byte) = v" by (simp add: unsigned_of_int take_bit_int_eq_self)
    then show ?thesis by (metis of_int_of_nat_eq uint_nat)
  qed
  have bytes: "of_nat (unat (word_of_int v :: byte)) = (word_of_int v :: u32)" if "v \<in> {a, b, c, d}" for v
    using assms that by (intro byte) auto
  have shift: "push_bit 8 w = 256 * w" for w :: u32 by (simp add: push_bit_eq_mult)
  have "foldl (\<lambda>w v. push_bit 8 w + word_of_int v) 0 [a, b, c, d] = in_word (map word_of_int [d, c, b, a])"
    by (simp only: foldl.simps list.map in_word_Cons bytes insert_iff simp_thms shift) (simp add: in_word_def)
  then show ?thesis
    by (simp only: in_bytes_htonl list.map in_word_bytes rev.simps append.simps in_bytes_inj [symmetric])
qed

lemma ngx_inet_addr_reference:
  "ngx_inet_addr cs = (case ipv4_value cs of Some bs \<Rightarrow> in_word bs | None \<Rightarrow> INADDR_NONE)"
proof -
  obtain p ps where p: "split_on chr_dot cs = p # ps" using split_on_Cons by metis
  show ?thesis
  proof (cases "list_all is_octet (p # ps) \<and> length ps = 3")
    case True
    then obtain q r t where ps: "ps = [q, r, t]" by (auto simp: numeral_3_eq_3 length_Suc_conv)
    have "0 \<le> dec_value ds \<and> dec_value ds \<le> 255" if "ds \<in> set (p # ps)" for ds
      using True that dec_value_nonneg by (auto simp: list_all_iff is_octet_def)
    then have "list_all (\<lambda>v. 0 \<le> v \<and> v \<le> 255) [dec_value p, dec_value q, dec_value r, dec_value t]"
      using ps by simp
    from foldl_in_word [OF this] True p ps show ?thesis
      using inet_addr_loop_split [of 0 cs p ps 0 0]
      by (simp add: ngx_inet_addr_def ipv4_value_def is_octet_def)
  next
    case False
    then show ?thesis
      using inet_addr_loop_split [of 0 cs p ps 0 0] p
      by (auto simp: ngx_inet_addr_def ipv4_value_def is_octet_def)
  qed
qed


subsection \<open>The text of an IPv4 address\<close>

abbreviation dec_text :: "byte \<Rightarrow> byte list" where "dec_text b \<equiv> sprintf_dec (unat b) []"

lemma byte_as_word:
  "unat (ucast (b :: byte) :: u64) = unat b" "unat (ucast (ucast b :: u64) :: u32) = unat b"
  "unat b \<le> 4294967295"
proof -
  have t: "take_bit LENGTH(64) (unat b) = unat b" "take_bit LENGTH(32) (unat b) = unat b"
    by (rule take_bit_nat_eq_self, rule less_trans [OF unat_byte_less], simp)+
  show "unat (ucast b :: u64) = unat b" by (simp only: unsigned_ucast_eq t)
  then show "unat (ucast (ucast b :: u64) :: u32) = unat b" by (metis t(2) unsigned_ucast_eq)
  show "unat b \<le> 4294967295" by (rule order.trans [OF less_imp_le [OF unat_byte_less]]) simp
qed

lemma length_dec_text: "length (dec_text b) \<le> 3"
  using length_sprintf_dec [of "unat b" 3 "[]"] unat_byte_less [of b] by simp

lemma fmt_ud:
  assumes "3 \<le> room"
  shows "fmt_directive room (chr_u # chr_d # fmt) (byte_arg b # args) = Inr (dec_text b, fmt, args)"
proof -
  have "(ucast b :: u64) \<le> 0xffffffff" by (simp add: word_le_nat_alt byte_as_word)
  then have digits: "sprintf_digits (ucast b) 0 = dec_text b"
    by (simp only: sprintf_digits_def simp_thms if_True byte_as_word)
  have "zero_extend_32 (ucast b) = (of_nat (unat (ucast (ucast b :: u64) :: u32)) :: u64)"
    unfolding zero_extend_32_def by (simp only: of_nat_unat)
  then have "zero_extend_32 (ucast b) = ucast b"
    unfolding byte_as_word by simp
  moreover have "ngx_sprintf_num room (ucast b) z 0 0 = dec_text b" for z
    using length_dec_text [of b] assms by (simp add: ngx_sprintf_num_take digits)
  ultimately show ?thesis
    by (simp add: fmt_directive_def fmt_convert_def fmt_convert_word_def fmt_integer_def fmt_write_def)
qed

lemma inet_dotted_text:
  "inet_sprintf ''%ud.%ud.%ud.%ud'' [byte_arg a, byte_arg b, byte_arg c, byte_arg d] =
     dec_text a @ chr_dot # dec_text b @ chr_dot # dec_text c @ chr_dot # dec_text d"
proof -
  note len = length_dec_text
  have fmt: "bytes_of ''%ud.%ud.%ud.%ud'' = [chr_percent, chr_u, chr_d, chr_dot, chr_percent, chr_u, chr_d, chr_dot,
      chr_percent, chr_u, chr_d, chr_dot, chr_percent, chr_u, chr_d]"
    by (simp add: bytes_of_def)
  have "50 \<le> unat (- 1 - 0 :: u64)" by (simp add: unsigned_minus_1_eq_mask mask_eq_exp_minus_1)
  then show ?thesis
    using len [of a] len [of b] len [of c]
    by (simp add: inet_sprintf_def ngx_sprintf_def ngx_vslprintf_def fmt fmt_ud del: diff_zero)
qed


lemma dec_text_digits: "list_all dec_digit (dec_text b)" "dec_value (dec_text b) = int (unat b)" "dec_text b \<noteq> []" "is_octet (dec_text b)"
proof -
  have "int (unat b) \<le> 255" using unat_byte_less [of b] by linarith
  then show "list_all dec_digit (dec_text b)" "dec_value (dec_text b) = int (unat b)" "dec_text b \<noteq> []" "is_octet (dec_text b)"
    using sprintf_dec_digits [of "unat b" "[]"] by (simp_all add: is_octet_def)
qed

lemma split_on_append: "c \<notin> set xs \<Longrightarrow> split_on c (xs @ c # ys) = xs # split_on c ys"
  by (induction xs) auto

lemma split_on_single: "c \<notin> set xs \<Longrightarrow> split_on c xs = [xs]"
  by (induction xs) auto

lemma dot_no_digit: "list_all dec_digit ds \<Longrightarrow> chr_dot \<notin> set ds"
  by (auto simp: list_all_iff)

lemma inet_addr_dotted:
  "ngx_inet_addr (dec_text a @ chr_dot # dec_text b @ chr_dot # dec_text c @ chr_dot # dec_text d) = in_word [a, b, c, d]"
  using dec_text_digits
  by (simp add: ngx_inet_addr_reference ipv4_value_def split_on_append split_on_single dot_no_digit)

subsection \<open>The groups of an IPv6 address\<close>

definition group_value :: "byte list \<Rightarrow> nat \<Rightarrow> nat" where
  "group_value p i = unat (p ! i) * 256 + unat (p ! (i + 1))"

lemma group_text_hex:
  "list_all hex_digit (group_text p i) \<and> digits_value 16 hex_digit_value 0 (group_text p i) = int (group_value p i)
    \<and> group_text p i \<noteq> [] \<and> length (group_text p i) \<le> 4"
proof -
  let ?w = "ucast (p ! i) * 256 + ucast (p ! (i + 1)) :: u64"
  have less: "group_value p i < 65536"
    using unat_byte_less [of "p ! i"] unat_byte_less [of "p ! (i + 1)"] unfolding group_value_def by linarith
  have w: "?w = of_nat (group_value p i)"
    by (simp only: group_value_def of_nat_add of_nat_mult of_nat_unat of_nat_numeral)
  have v: "unat ?w = group_value p i"
    unfolding w using less by (simp add: unsigned_of_nat take_bit_nat_eq_self)
  have "group_text p i = sprintf_hex hex_lower ?w []"
  proof -
    have z: "zero_extend_32 ?w = ?w"
      unfolding zero_extend_32_def w using less by (simp add: word_unat_eq_iff unsigned_ucast_eq unsigned_of_nat take_bit_nat_eq_self)
    have room: "50 \<le> unat (- 1 - 0 :: u64)" by (simp add: unsigned_minus_1_eq_mask mask_eq_exp_minus_1)
    have "ngx_sprintf_num (unat (- 1 - 0 :: u64)) ?w chr_space 1 0 = sprintf_hex hex_lower ?w []"
      using length_sprintf_digits [of ?w 1] room by (simp add: ngx_sprintf_num_take sprintf_digits_def NGX_INT64_LEN_def)
    then show ?thesis
      using z room
      by (simp add: group_text_def inet_sprintf_def ngx_sprintf_def ngx_vslprintf_def bytes_of_def fmt_directive_def
          fmt_convert_def fmt_convert_word_def fmt_integer_def fmt_write_def del: diff_zero)
  qed
  with sprintf_hex_digits [of hex_lower ?w "[]"] length_sprintf_hex [of ?w 4 hex_lower "[]"] v less
  show ?thesis by (simp del: of_nat_unat)
qed


lemma inet6_digit:
  assumes "hex_digit c" "i6_nibbles s < 4"
  shows "inet6_loop (c # p) s =
    inet6_loop p (s\<lparr>i6_nibbles := i6_nibbles s + 1, i6_word := i6_word s * 16 + nat (hex_digit_value c)\<rparr>)"
proof (cases "dec_digit c")
  case True
  then have "c \<noteq> chr_colon" "c \<noteq> chr_dot" by auto
  moreover have "unat (c - chr_0) = nat (hex_digit_value c)"
  proof -
    have "unat (c - chr_0) = unat c - 48" "48 \<le> unat c" "hex_digit_value c = int (unat c) - 48"
      using True by (simp_all add: unat_byte_diff hex_digit_value_def byte_le_unat)
    then show ?thesis by linarith
  qed
  ultimately show ?thesis using True assms by (simp add: Let_def)
next
  case False
  with assms(1) have "c \<noteq> chr_colon" "c \<noteq> chr_dot" by (auto simp: hex_digit_def byte_simps)
  moreover have "unat ((c OR 0x20) - chr_a) + 10 = nat (hex_digit_value c)"
  proof -
    have e: "chr_a \<le> c OR 0x20" using hex_letter(1) [OF False] assms(1) by simp
    then have "97 \<le> unat (c OR 0x20)" by (simp only: byte_le_unat) simp
    moreover have "unat ((c OR 0x20) - chr_a) = unat (c OR 0x20) - 97" using e by (simp add: unat_byte_diff)
    ultimately show ?thesis using hex_letter(2) [OF False assms(1)] by linarith
  qed
  ultimately show ?thesis using False assms hex_letter(1) [OF False] by (auto simp: Let_def add.assoc)
qed

lemma inet6_digits:
  "list_all hex_digit ds \<Longrightarrow> i6_nibbles s + length ds \<le> 4 \<Longrightarrow>
   inet6_loop (ds @ p) s =
     inet6_loop p (s\<lparr>i6_nibbles := i6_nibbles s + length ds,
                     i6_word := nat (digits_value 16 hex_digit_value (int (i6_word s)) ds)\<rparr>)"
proof (induction ds arbitrary: s)
  case (Cons c ds)
  then have "0 \<le> hex_digit_value c" using hex_digit_value_range [of c] by simp
  then have "int (i6_word s * 16 + nat (hex_digit_value c)) = int (i6_word s) * 16 + hex_digit_value c" by simp
  with Cons show ?case by (simp add: inet6_digit del: inet6_loop.simps)
qed simp

text \<open>The groups of a text, and what they leave in the state.\<close>

definition group_bytes :: "nat \<Rightarrow> byte list" where "group_bytes w = [word_high w, word_low w]"

lemma group_bytes_value: "group_bytes (group_value p i) = [p ! i, p ! (i + 1)]"
  by (simp add: group_bytes_def group_value_def word_high_def word_low_def div_mult_mod_eq byte_of_nat_eq)

lemma inet6_group:
  assumes "i6_nibbles s = 0" "i6_word s = 0"
  shows "inet6_loop (group_text p i @ rest) s =
    inet6_loop rest (s\<lparr>i6_nibbles := length (group_text p i), i6_word := group_value p i\<rparr>)"
  using group_text_hex [of p i] assms by (simp add: inet6_digits)

lemma inet6_group_colon:
  assumes "i6_nibbles s = 0" "i6_word s = 0" "2 \<le> i6_n s"
  shows "inet6_loop (group_text p i @ chr_colon # rest) s =
    inet6_loop rest (s\<lparr>i6_digit := Some rest, i6_out := i6_out s @ [p ! i, p ! (i + 1)], i6_n := i6_n s - 1\<rparr>)"
  using assms group_text_hex [of p i] group_bytes_value [of p i]
  by (simp add: inet6_group inet6_colon_def Let_def group_bytes_def) (cases s, simp)


declare inet6_loop.simps(2) [simp del]

fun colon_groups :: "byte list \<Rightarrow> nat \<Rightarrow> nat \<Rightarrow> byte list" where
  "colon_groups p i 0 = []"
| "colon_groups p i (Suc k) = group_text p i @ chr_colon # colon_groups p (i + 2) k"

lemma ntop_groups_run:
  "i + 2 * k \<le> n \<Longrightarrow> i + 2 * k \<le> 14 \<Longrightarrow> (\<forall>j < k. zero \<noteq> Some (i + 2 * j)) \<Longrightarrow>
   ntop_groups p zero m n i = colon_groups p i k @ ntop_groups p zero m n (i + 2 * k)"
proof (induction k arbitrary: i)
  case (Suc k)
  have "ntop_groups p zero m n (i + 2) = colon_groups p (i + 2) k @ ntop_groups p zero m n (i + 2 + 2 * k)"
  proof (rule Suc.IH)
    show "\<forall>j < k. zero \<noteq> Some (i + 2 + 2 * j)"
    proof (intro allI impI)
      fix j assume "j < k"
      with Suc.prems(3) show "zero \<noteq> Some (i + 2 + 2 * j)" by (auto dest: spec [of _ "Suc j"])
    qed
  qed (use Suc.prems in simp_all)
  moreover have "zero \<noteq> Some i" using Suc.prems(3) by (auto dest: spec [of _ 0])
  ultimately show ?case using Suc.prems(1,2) by (subst ntop_groups.simps) simp
qed simp

lemma ntop_groups_end: "i \<ge> n \<Longrightarrow> ntop_groups p zero m n i = []"
  by (subst ntop_groups.simps) simp

lemma ntop_groups_last: "zero \<noteq> Some 14 \<Longrightarrow> ntop_groups p zero m 16 14 = group_text p 14"
  by (subst ntop_groups.simps) (simp add: ntop_groups_end)

lemma ntop_groups_zero: "i < n \<Longrightarrow> 1 \<le> m \<Longrightarrow> ntop_groups p (Some i) m n i = chr_colon # ntop_groups p (Some i) m n (i + 2 * m)"
  by (cases m) (simp_all add: ntop_groups.simps [of p "Some i" m n i] ntop_groups.simps [of p "Some i" "Suc _" n i] mult.commute)

lemma take_two: "Suc i < length p \<Longrightarrow> take (2 * Suc k) (drop i p) = p ! i # p ! Suc i # take (2 * k) (drop (i + 2) p)"
  by (simp add: Cons_nth_drop_Suc [symmetric])

lemma inet6_groups:
  "i6_nibbles s = 0 \<Longrightarrow> i6_word s = 0 \<Longrightarrow> k < i6_n s \<Longrightarrow> i + 2 * k \<le> length p \<Longrightarrow>
   inet6_loop (colon_groups p i k @ rest) s =
     inet6_loop rest (s\<lparr>i6_digit := (if k = 0 then i6_digit s else Some rest),
                        i6_out := i6_out s @ take (2 * k) (drop i p), i6_n := i6_n s - k\<rparr>)"
proof (induction k arbitrary: i s)
  case (Suc k)
  let ?s = "s\<lparr>i6_digit := Some (colon_groups p (i + 2) k @ rest), i6_out := i6_out s @ [p ! i, p ! (i + 1)], i6_n := i6_n s - 1\<rparr>"
  have "inet6_loop (colon_groups p i (Suc k) @ rest) s = inet6_loop (colon_groups p (i + 2) k @ rest) ?s"
    using Suc.prems by (simp add: inet6_group_colon)
  also have "\<dots> = inet6_loop rest (?s\<lparr>i6_digit := (if k = 0 then i6_digit ?s else Some rest),
      i6_out := i6_out ?s @ take (2 * k) (drop (i + 2) p), i6_n := i6_n ?s - k\<rparr>)"
    using Suc.prems by (intro Suc.IH) simp_all
  finally have "inet6_loop (colon_groups p i (Suc k) @ rest) s = \<dots>" .
  moreover have "Suc i < length p" using Suc.prems by simp
  ultimately show ?case
    using Suc.prems take_two [of i p k] by (cases "k = 0") (simp_all del: mult_Suc_right)
qed simp


text \<open>What the scan for zeros finds.\<close>

definition zero_run :: "byte list \<Rightarrow> nat \<Rightarrow> nat \<Rightarrow> bool" where
  "zero_run p z m \<longleftrightarrow> even z \<and> z + 2 * m \<le> length p \<and> (\<forall>j. z \<le> j \<and> j < z + 2 * m \<longrightarrow> p ! j = 0)"

lemma zero_run_extend:
  "zero_run p z n \<Longrightarrow> p ! (z + 2 * n) = 0 \<Longrightarrow> p ! Suc (z + 2 * n) = 0 \<Longrightarrow> Suc (z + 2 * n) < length p \<Longrightarrow> zero_run p z (Suc n)"
  by (auto simp: zero_run_def less_Suc_eq)

lemma ntop_zeros_run:
  assumes "ntop_zeros i zero start longest n (drop i p) = (z, m)"
    and "even i" "i \<le> length p" "even (length p)" "1 \<le> longest"
    and "0 < n \<Longrightarrow> \<exists>x. start = Some x \<and> x + 2 * n = i \<and> zero_run p x n"
    and "\<And>x. zero = Some x \<Longrightarrow> zero_run p x longest \<and> 2 \<le> longest"
  shows "case z of None \<Rightarrow> True | Some x \<Rightarrow> zero_run p x m \<and> 2 \<le> m"
  using assms
proof (induction i zero start longest n "drop i p" rule: ntop_zeros.induct [case_names group none one])
  case (group i zero start longest n a b q)
  note IH = group(1-3) and cut = group(4) and scan = group(5) and run = group(10) and best = group(11)
  have "length (a # b # q) = length p - i" using cut by simp
  then have i: "Suc i < length p" by simp
  then have "drop i p = p ! i # p ! Suc i # drop (i + 2) p" by (simp add: Cons_nth_drop_Suc)
  with cut have at: "p ! i = a" "p ! Suc i = b" "q = drop (i + 2) p" by simp_all
  have next_i: "even (i + 2)" "i + 2 \<le> length p" using group(6) i by simp_all
  show ?case
  proof (cases "a \<noteq> 0 \<or> b \<noteq> 0")
    case nonzero: True
    show ?thesis
    proof (cases "longest < n")
      case longer: True
      with group(9) run obtain x where x: "start = Some x" "zero_run p x n" by auto
      show ?thesis
      proof (rule IH(1) [OF nonzero longer at(3)])
        show "ntop_zeros (i + 2) start start n 0 (drop (i + 2) p) = (z, m)"
          using scan nonzero longer unfolding cut [symmetric] at(3) [symmetric] by simp
      qed (use next_i group(8,9) longer x in auto)
    next
      case False
      show ?thesis
      proof (rule IH(2) [OF nonzero False at(3)])
        show "ntop_zeros (i + 2) zero start longest 0 (drop (i + 2) p) = (z, m)"
          using scan nonzero False unfolding cut [symmetric] at(3) [symmetric] by simp
      qed (use next_i group(8,9) best in auto)
    qed
  next
    case False
    have extended: "\<exists>x. (if n = 0 then Some i else start) = Some x \<and> x + 2 * (n + 1) = i + 2 \<and> zero_run p x (n + 1)"
    proof (cases "n = 0")
      case True
      have "zero_run p i 0" using group(6,7) by (auto simp: zero_run_def)
      from zero_run_extend [OF this] True False at i show ?thesis by simp
    next
      case n: False
      with run obtain x where x: "start = Some x" "x + 2 * n = i" "zero_run p x n" by auto
      with zero_run_extend [OF x(3)] n False at i show ?thesis by simp
    qed
    show ?thesis
    proof (rule IH(3) [OF False at(3)])
      show "ntop_zeros (i + 2) zero (if n = 0 then Some i else start) longest (n + 1) (drop (i + 2) p) = (z, m)"
        using scan False unfolding cut [symmetric] at(3) [symmetric] by simp
    qed (use next_i group(8,9) best extended in auto)
  qed
next
  case (none i zero start longest n)
  then show ?case by (auto split: if_splits option.splits)
next
  case (one i zero start longest n v)
  have "length p - i = length [v]" using one(1) by (simp only: length_drop)
  with one(3-5) show ?case by (simp, presburger)
qed


subsection \<open>Reading back\<close>

lemma ntop_zeros_cases:
  assumes "length p = 16" "ntop_zeros 0 None None 1 0 p = (z, m)"
  obtains (none) "z = None"
    | (run) k where "z = Some (2 * k)" "zero_run p (2 * k) m" "2 \<le> m" "k + m \<le> 8"
proof (cases z)
  case (Some x)
  have "zero_run p x m" "2 \<le> m"
    using ntop_zeros_run [of 0 None None 1 0 p z m] assms Some by simp_all
  moreover from this obtain k where "x = 2 * k" by (auto simp: zero_run_def)
  ultimately show ?thesis using run [of k] Some assms(1) by (simp add: zero_run_def)
qed (rule none)

lemma take_zero_run: "zero_run p z m \<Longrightarrow> take (2 * m) (drop z p) = replicate (2 * m) 0"
  by (intro nth_equalityI) (auto simp: zero_run_def)

lemma zero_run_parts:
  assumes "zero_run p z m"
  shows "take z p @ replicate (2 * m) 0 @ drop (z + 2 * m) p = p"
proof -
  have "drop z p = replicate (2 * m) 0 @ drop (z + 2 * m) p"
    using take_zero_run [OF assms] append_take_drop_id [of "2 * m" "drop z p"] by (simp add: add.commute)
  then show ?thesis by (metis append_take_drop_id)
qed

lemma group_text_not_colon: "\<exists>c cs. group_text p i = c # cs \<and> c \<noteq> chr_colon"
  using group_text_hex [of p i] by (cases "group_text p i") (auto simp: hex_digit_def byte_simps)

text \<open>The end of the text: the groups from an offset to the last one.\<close>

lemma inet6_tail:
  assumes "length p = 16" "i + 2 * Suc k = 16" "i6_nibbles s = 0" "i6_word s = 0" "k < i6_n s"
  shows "\<exists>s'. inet6_loop (colon_groups p i k @ group_text p 14) s = Some s' \<and> i6_nibbles s' \<noteq> 0 \<and>
    i6_out s' @ [word_high (i6_word s'), word_low (i6_word s')] = i6_out s @ drop i p \<and>
    i6_n s' = i6_n s - k \<and> i6_zero s' = i6_zero s"
proof -
  have "drop i p = take (2 * k) (drop i p) @ drop 14 p"
    using assms(2) append_take_drop_id [of "2 * k" "drop i p"] by (simp add: add.commute)
  moreover have "drop 14 p = [p ! 14, p ! 15]"
    using assms(1) Cons_nth_drop_Suc [of 14 p] Cons_nth_drop_Suc [of 15 p] by simp
  ultimately have d: "i6_out s @ take (2 * k) (drop i p) @ [p ! 14, p ! 15] = i6_out s @ drop i p" by simp
  have "inet6_loop (colon_groups p i k @ group_text p 14) s = Some (s\<lparr>i6_digit := (if k = 0 then i6_digit s else Some (group_text p 14)),
      i6_out := i6_out s @ take (2 * k) (drop i p), i6_n := i6_n s - k,
      i6_nibbles := length (group_text p 14), i6_word := group_value p 14\<rparr>)"
    using assms inet6_group [of _ p 14 "[]"] by (simp add: inet6_groups)
  then show ?thesis using group_text_hex [of p 14] group_bytes_value [of p 14] d by (auto simp: group_bytes_def)
qed


lemma ntop_text_none:
  assumes "length p = 16" "45 \<le> len" "ntop_zeros 0 None None 1 0 p = (None, m)"
  shows "ngx_inet6_ntop p len = colon_groups p 0 7 @ group_text p 14"
  using assms ntop_groups_run [of 0 7 16 None p m]
  by (simp add: ngx_inet6_ntop_def Let_def NGX_INET6_ADDRSTRLEN_def ntop_groups_last)

lemma read_none:
  assumes "length p = 16"
  shows "ngx_inet6_addr (colon_groups p 0 7 @ group_text p 14) = Some p"
proof -
  obtain s where s: "inet6_loop (colon_groups p 0 7 @ group_text p 14) inet6_start = Some s" "i6_nibbles s \<noteq> 0"
    "i6_out s @ [word_high (i6_word s), word_low (i6_word s)] = p" "i6_n s = 1" "i6_zero s = None"
    using inet6_tail [of p 0 7 inet6_start] assms by (auto simp: inet6_start_def)
  obtain c cs where c: "colon_groups p 0 7 @ group_text p 14 = c # cs" "c \<noteq> chr_colon"
    using group_text_not_colon [of p 0] by (auto simp: numeral_eq_Suc)
  then have "ngx_inet6_addr (colon_groups p 0 7 @ group_text p 14) = inet6_finish s"
    using s(1) by (simp add: ngx_inet6_addr_def)
  then show ?thesis using s by (simp add: inet6_finish_def)
qed

text \<open>The text after the double colon.\<close>

definition after_zeros :: "byte list \<Rightarrow> nat \<Rightarrow> byte list" where
  "after_zeros p i = (if i = 16 then [] else colon_groups p i ((14 - i) div 2) @ group_text p 14)"

lemma ntop_after_zeros:
  assumes "even i" "i \<le> 16" "z < i"
  shows "ntop_groups p (Some z) m 16 i = after_zeros p i"
proof (cases "i = 16")
  case False
  then obtain j where j: "i + 2 * j = 14" using assms by (auto elim!: evenE intro!: that [of "(14 - i) div 2"])
  then have "(14 - i) div 2 = j" by linarith
  with j ntop_groups_run [of i j 16 "Some z" p m] assms show ?thesis
    by (auto simp: after_zeros_def ntop_groups_last)
qed (simp add: after_zeros_def ntop_groups_end)

lemma ntop_text_run:
  assumes "ntop_zeros 0 None None 1 0 p = (Some (2 * k), m)" "zero_run p (2 * k) m" "2 \<le> m" "k + m \<le> 8" "45 \<le> len"
    and "\<not> (k = 0 \<and> (m = 5 \<and> p ! 10 = 0xff \<and> p ! 11 = 0xff \<or> m = 6 \<or> m = 7 \<and> p ! 14 \<noteq> 0 \<and> p ! 15 \<noteq> 1))"
  shows "ngx_inet6_ntop p len = (if k = 0 then [chr_colon] else []) @ colon_groups p 0 k @ chr_colon # after_zeros p (2 * (k + m))"
proof -
  have "ntop_groups p (Some (2 * k)) m 16 0 = colon_groups p 0 k @ ntop_groups p (Some (2 * k)) m 16 (2 * k)"
    using ntop_groups_run [of 0 k 16 "Some (2 * k)" p m] assms(3,4) by simp
  also have "ntop_groups p (Some (2 * k)) m 16 (2 * k) = chr_colon # after_zeros p (2 * (k + m))"
    using ntop_groups_zero [of "2 * k" 16 m p] ntop_after_zeros [of "2 * (k + m)" "2 * k" p m] assms(3,4) by simp
  finally show ?thesis
    using assms by (auto simp: ngx_inet6_ntop_def Let_def NGX_INET6_ADDRSTRLEN_def)
qed


lemma read_run:
  assumes "length p = 16" "zero_run p (2 * k) m" "2 \<le> m" "k + m \<le> 8"
  shows "ngx_inet6_addr ((if k = 0 then [chr_colon] else []) @ colon_groups p 0 k @ chr_colon # after_zeros p (2 * (k + m))) = Some p"
proof -
  let ?rest = "after_zeros p (2 * (k + m))" and ?i = "2 * (k + m)"
  define s1 where "s1 = inet6_start\<lparr>i6_digit := Some ?rest, i6_zero := Some (2 * k), i6_out := take (2 * k) p, i6_n := 8 - k\<rparr>"
  have first: "ngx_inet6_addr ((if k = 0 then [chr_colon] else []) @ colon_groups p 0 k @ chr_colon # ?rest) =
      (case inet6_loop (colon_groups p 0 k @ chr_colon # ?rest) inet6_start of None \<Rightarrow> None | Some s \<Rightarrow> inet6_finish s)"
    using group_text_not_colon [of p 0] by (cases k) (auto simp: ngx_inet6_addr_def)
  have "inet6_loop (colon_groups p 0 k @ chr_colon # ?rest) inet6_start = inet6_loop ?rest s1"
    using assms inet6_groups [of inet6_start k 0 p "chr_colon # ?rest"]
    by (simp add: inet6_start_def s1_def inet6_loop.simps(2) [of chr_colon] inet6_colon_def min_def)
  also have "\<exists>s'. inet6_loop ?rest s1 = Some s' \<and> inet6_finish s' = Some p"
  proof (cases "k + m = 8")
    case True
    have "drop 16 p = []" using assms(1) by simp
    moreover have "replicate (2 * m) 0 = replicate (2 * (m - 1)) 0 @ [0, 0 :: byte]"
      using assms(3) by (cases m) (simp_all add: replicate_app_Cons_same)
    ultimately have "take (2 * k) p @ replicate ((m - 1) * 2) 0 @ [0, 0] = p"
      using zero_run_parts [OF assms(2)] True by (simp add: mult.commute distrib_left [symmetric])
    moreover have "7 - k = m - Suc 0" using True by linarith
    ultimately show ?thesis
      using True assms by (auto simp: after_zeros_def s1_def inet6_start_def inet6_finish_def Let_def word_high_def word_low_def)
  next
    case False
    define j where "j = (14 - ?i) div 2"
    have j: "?i + 2 * Suc j = 16" using False assms(4) by (simp add: j_def)
    then have jk: "j < 8 - k" using assms(3) by (simp add: less_diff_conv)
    obtain s2 where run: "inet6_loop (colon_groups p ?i j @ group_text p 14) s1 = Some s2" and s2: "i6_nibbles s2 \<noteq> 0"
      "i6_out s2 @ [word_high (i6_word s2), word_low (i6_word s2)] = take (2 * k) p @ drop ?i p"
      "i6_n s2 = 8 - k - j" "i6_zero s2 = Some (2 * k)"
      using inet6_tail [of p ?i j s1] assms(1) j jk by (auto simp: s1_def inet6_start_def)
    have "8 - k - j - 1 = m" using j assms(4) by simp
    then have "inet6_finish s2 = Some p"
      using s2 zero_run_parts [OF assms(2)] assms(1,3,4) unfolding inet6_finish_def Let_def
      by (simp add: mult.commute distrib_left)
    moreover have "?rest = colon_groups p ?i j @ group_text p 14" using False by (simp add: after_zeros_def j_def)
    ultimately show ?thesis using run by simp
  qed
  finally show ?thesis using first by auto
qed


lemma in_word_NONE: "in_word [a, b, c, d] = INADDR_NONE \<longleftrightarrow> [a, b, c, d] = [0xff, 0xff, 0xff, 0xff]"
proof -
  have "in_bytes INADDR_NONE = [0xff, 0xff, 0xff, 0xff]" by (simp add: in_bytes_def INADDR_NONE_def)
  then show ?thesis using in_bytes_inj [of "in_word [a, b, c, d]" INADDR_NONE] by (simp only: in_word_bytes)
qed

lemma ntohl_words:
  fixes a b c d :: byte
  defines "w \<equiv> unat (ntohl (in_word [a, b, c, d]))"
  shows "word_high (w div 65536) = a" "word_low (w div 65536) = b" "word_high w = c" "word_low w = d"
proof -
  have "in_bytes (ntohl (in_word [a, b, c, d])) = [d, c, b, a]"
    by (simp only: ntohl_def in_bytes_htonl in_word_bytes rev.simps append.simps)
  moreover have "word_of_nat (n mod 256) = (word_of_nat n :: byte)" for n by (intro byte_of_nat_eq) (simp add: unsigned_of_nat take_bit_nat_def)
  moreover have "w div 65536 div 256 = w div 16777216" by (simp add: div_mult2_eq [symmetric])
  ultimately show "word_high (w div 65536) = a" "word_low (w div 65536) = b" "word_high w = c" "word_low w = d"
    unfolding w_def in_bytes_unat word_high_def word_low_def by simp_all
qed


abbreviation dotted :: "byte \<Rightarrow> byte \<Rightarrow> byte \<Rightarrow> byte \<Rightarrow> byte list" where
  "dotted a b c d \<equiv> dec_text a @ chr_dot # dec_text b @ chr_dot # dec_text c @ chr_dot # dec_text d"

lemma inet6_dotted_step:
  assumes "i6_nibbles s = 0" "i6_word s = 0" "2 \<le> i6_n s" "i6_digit s = Some (dotted a b c d)"
  shows "if [a, b, c, d] = [0xff, 0xff, 0xff, 0xff] then inet6_loop (dotted a b c d) s = None
    else \<exists>s'. inet6_loop (dotted a b c d) s = Some s' \<and> i6_nibbles s' \<noteq> 0 \<and> i6_n s' = i6_n s - 1 \<and> i6_zero s' = i6_zero s \<and>
      i6_out s' @ [word_high (i6_word s'), word_low (i6_word s')] = i6_out s @ [a, b, c, d]"
proof -
  have "list_all hex_digit (dec_text a)" "length (dec_text a) \<le> 4" "dec_text a \<noteq> []"
    using dec_text_digits [of a] length_dec_text [of a]
    by (auto simp: hex_digit_def list_all_iff)
  then show ?thesis
    using assms ntohl_words [where a=a and b=b and c=c and d=d]
    unfolding in_word_NONE [symmetric]
    by (simp add: inet6_digits inet6_loop.simps(2) [of chr_dot] inet6_dotted_def inet_addr_dotted Let_def)
qed

lemma ntop_text_dotted:
  assumes "ntop_zeros 0 None None 1 0 p = (Some 0, m)" "45 \<le> len"
    and "m = 5 \<and> p ! 10 = 0xff \<and> p ! 11 = 0xff \<or> m = 6 \<or> m = 7 \<and> p ! 14 \<noteq> 0 \<and> p ! 15 \<noteq> 1"
  shows "ngx_inet6_ntop p len = chr_colon # chr_colon # (if m = 5 then group_text p 10 @ [chr_colon] else []) @
    dotted (p ! 12) (p ! 13) (p ! 14) (p ! 15)"
proof -
  have "ntop_groups p (Some 0) m 12 0 = chr_colon # ntop_groups p (Some 0) m 12 (2 * m)"
    using ntop_groups_zero [of 0 12 m p] assms(3) by auto
  also have "ntop_groups p (Some 0) m 12 (2 * m) = (if m = 5 then group_text p 10 @ [chr_colon] else [])"
    using assms(3) ntop_groups_run [of 10 1 12 "Some 0" p m] by (auto simp: ntop_groups_end)
  finally show ?thesis
    using assms by (simp add: ngx_inet6_ntop_def Let_def NGX_INET6_ADDRSTRLEN_def inet_dotted_text)
qed


lemma read_dotted:
  assumes p: "length p = 16" "zero_run p 0 m"
    and m: "m = 5 \<and> p ! 10 = 0xff \<and> p ! 11 = 0xff \<or> m = 6 \<or> m = 7 \<and> p ! 14 \<noteq> 0 \<and> p ! 15 \<noteq> 1"
  shows "ngx_inet6_addr (chr_colon # chr_colon # (if m = 5 then group_text p 10 @ [chr_colon] else []) @
      dotted (p ! 12) (p ! 13) (p ! 14) (p ! 15)) =
    (if drop 12 p = [0xff, 0xff, 0xff, 0xff] then None else Some p)"
proof -
  let ?d = "dotted (p ! 12) (p ! 13) (p ! 14) (p ! 15)"
  define s1 where "s1 = inet6_start\<lparr>i6_digit := Some ?d, i6_zero := Some 0,
    i6_out := (if m = 5 then [p ! 10, p ! 11] else []), i6_n := (if m = 5 then 7 else 8)\<rparr>"
  have last4: "drop 12 p = [p ! 12, p ! 13, p ! 14, p ! 15]"
    using p(1) by (simp add: Cons_nth_drop_Suc [symmetric])
  have "ngx_inet6_addr (chr_colon # chr_colon # (if m = 5 then group_text p 10 @ [chr_colon] else []) @ ?d) =
      (case inet6_loop ?d s1 of None \<Rightarrow> None | Some s \<Rightarrow> inet6_finish s)"
    by (simp add: ngx_inet6_addr_def inet6_loop.simps(2) [of chr_colon] inet6_colon_def inet6_start_def s1_def
        inet6_group_colon)
  moreover have "if m = 5 then replicate 10 0 @ [p ! 10, p ! 11, p ! 12, p ! 13, p ! 14, p ! 15] = p
    else replicate 12 0 @ [p ! 12, p ! 13, p ! 14, p ! 15] = p"
  proof -
    have "p = replicate (2 * m) 0 @ drop (2 * m) p" using zero_run_parts [OF p(2)] by simp
    moreover have "drop 10 p = p ! 10 # p ! 11 # drop 12 p" "drop 12 p = p ! 12 # p ! 13 # drop 14 p"
      using p(1) by (simp_all add: Cons_nth_drop_Suc [symmetric])
    moreover have "m = 7 \<Longrightarrow> p ! 12 = 0 \<and> p ! 13 = 0" using p(2) by (auto simp: zero_run_def)
    ultimately show ?thesis using m last4 by (auto simp: eval_nat_numeral)
  qed
  ultimately show ?thesis
    using inet6_dotted_step [of s1 "p ! 12" "p ! 13" "p ! 14" "p ! 15"]
    unfolding last4
    by (cases "m = 5") (auto simp: s1_def inet6_start_def inet6_finish_def Let_def split: if_splits)
qed


subsection \<open>Bounds\<close>

lemma length_colon_groups: "length (colon_groups p i k) \<le> 5 * k"
proof (induction k arbitrary: i)
  case (Suc k)
  from Suc.IH [of "i + 2"] group_text_hex [of p i] show ?case by simp
qed simp

lemma length_dotted: "length (dotted a b c d) \<le> NGX_INET_ADDRSTRLEN"
proof -
  from length_dec_text [of a] length_dec_text [of b] length_dec_text [of c] length_dec_text [of d] show ?thesis by (simp add: NGX_INET_ADDRSTRLEN_def)
qed

text \<open>What \<^verbatim>\<open>ngx_inet6_ntop\<close> writes, by the zeros of the address.\<close>

lemma inet6_text_cases:
  assumes "length p = 16" "NGX_INET6_ADDRSTRLEN \<le> len"
  obtains (plain) "ngx_inet6_addr (ngx_inet6_ntop p len) = Some p" "length (ngx_inet6_ntop p len) \<le> 41"
      "\<nexists>m. ntop_zeros 0 None None 1 0 p = (Some 0, m) \<and>
        (m = 5 \<and> p ! 10 = 0xff \<and> p ! 11 = 0xff \<or> m = 6 \<or> m = 7 \<and> p ! 14 \<noteq> 0 \<and> p ! 15 \<noteq> 1)"
    | (mapped) m where "zero_run p 0 m" "m = 5 \<and> p ! 10 = 0xff \<and> p ! 11 = 0xff \<or> m = 6 \<or> m = 7 \<and> p ! 14 \<noteq> 0 \<and> p ! 15 \<noteq> 1"
      "ngx_inet6_addr (ngx_inet6_ntop p len) = (if drop 12 p = [0xff, 0xff, 0xff, 0xff] then None else Some p)"
      "length (ngx_inet6_ntop p len) \<le> 41"
proof -
  have len: "45 \<le> len" using assms(2) by (simp add: NGX_INET6_ADDRSTRLEN_def)
  obtain z m where scan: "ntop_zeros 0 None None 1 0 p = (z, m)" by fastforce
  note group = group_text_hex [of p 14, THEN conjunct2, THEN conjunct2, THEN conjunct2]
  show thesis
  proof (rule ntop_zeros_cases [OF assms(1) scan])
    assume z: "z = None"
    have "length (ngx_inet6_ntop p len) \<le> 41"
      using ntop_text_none [OF assms(1) len] scan z length_colon_groups [of p 0 7] group by simp
    then show thesis using plain ntop_text_none [OF assms(1) len] read_none [OF assms(1)] scan z by simp
  next
    fix k assume z: "z = Some (2 * k)" "zero_run p (2 * k) m" "2 \<le> m" "k + m \<le> 8"
    let ?c = "m = 5 \<and> p ! 10 = 0xff \<and> p ! 11 = 0xff \<or> m = 6 \<or> m = 7 \<and> p ! 14 \<noteq> 0 \<and> p ! 15 \<noteq> 1"
    show thesis
    proof (cases "k = 0 \<and> ?c")
      case True
      then have out: "ngx_inet6_ntop p len = chr_colon # chr_colon # (if m = 5 then group_text p 10 @ [chr_colon] else []) @
          dotted (p ! 12) (p ! 13) (p ! 14) (p ! 15)"
        using ntop_text_dotted [of p m len] scan z(1) len by simp
      have "length (ngx_inet6_ntop p len) \<le> 41"
        using length_dotted [of "p ! 12" "p ! 13" "p ! 14" "p ! 15"] group_text_hex [of p 10]
        by (simp add: out NGX_INET_ADDRSTRLEN_def)
      with True mapped [of m] z read_dotted [OF assms(1), of m] show thesis by (simp add: out)
    next
      case False
      then have out: "ngx_inet6_ntop p len =
          (if k = 0 then [chr_colon] else []) @ colon_groups p 0 k @ chr_colon # after_zeros p (2 * (k + m))"
        using scan z len by (intro ntop_text_run) simp_all
      define j where "j = (14 - 2 * (k + m)) div 2"
      have "k + j \<le> 6" using z(3,4) unfolding j_def by presburger
      moreover have "length (after_zeros p (2 * (k + m))) \<le> 5 * j + 4"
        using length_colon_groups [of p "2 * (k + m)" j] group by (simp add: after_zeros_def j_def)
      ultimately have "length (ngx_inet6_ntop p len) \<le> 41"
        using length_colon_groups [of p 0 k] by (auto simp: out)
      moreover have "ngx_inet6_addr (ngx_inet6_ntop p len) = Some p"
        unfolding out by (rule read_run [OF assms(1) z(2-4)])
      ultimately show thesis using plain scan z(1) False by auto
    qed
  qed
qed

lemma ngx_inet6_ntop_short: "length p = 16 \<Longrightarrow> length (ngx_inet6_ntop p len) \<le> 41"
  by (cases "NGX_INET6_ADDRSTRLEN \<le> len") (auto elim!: inet6_text_cases simp: ngx_inet6_ntop_def)

text \<open>What is written through \<^verbatim>\<open>addr\<close> stays within the 16 bytes of the address.\<close>

definition inet6_room :: "inet6_state \<Rightarrow> bool" where
  "inet6_room s \<longleftrightarrow> 1 \<le> i6_n s \<and> length (i6_out s) + 2 * i6_n s = 16 \<and>
     (case i6_zero s of None \<Rightarrow> True | Some z \<Rightarrow> z \<le> length (i6_out s))"

lemma inet6_loop_room: "inet6_loop p s = Some s' \<Longrightarrow> inet6_room s \<Longrightarrow> inet6_room s'"
proof (induction p s rule: inet6_loop.induct)
  case (2 c p s)
  have colon: "inet6_colon p s = Some t \<Longrightarrow> inet6_room t" for t
    using 2(5) by (auto simp: inet6_colon_def inet6_room_def Let_def split: if_splits option.splits)
  have dot: "inet6_dotted s = Some t \<Longrightarrow> inet6_room t" for t
    using 2(5) by (auto simp: inet6_dotted_def inet6_room_def Let_def split: if_splits option.splits)
  have digit: "inet6_room (s\<lparr>i6_nibbles := i, i6_word := w\<rparr>)" for i w
    using 2(5) by (simp add: inet6_room_def split: option.splits)
  show ?case
  proof (cases "c = chr_colon")
    case True
    with 2(4) obtain t where "inet6_colon p s = Some t" "inet6_loop p t = Some s'"
      by (auto simp: inet6_loop.simps(2) split: option.splits)
    with 2(1) True colon show ?thesis by blast
  next
    case False
    with 2(4) show ?thesis
      by (auto simp: inet6_loop.simps(2) [of c] Let_def intro: dot 2(2) [OF False _ refl _ _ _ digit]
          2(3) [OF False _ refl _ _ refl _ _ digit] split: if_splits)
  qed
qed simp

lemma length_inet6_addr: "ngx_inet6_addr cs = Some a \<Longrightarrow> length a = 16"
proof -
  assume "ngx_inet6_addr cs = Some a"
  then obtain p s where loop: "inet6_loop p inet6_start = Some s" and fin: "inet6_finish s = Some a"
    by (auto simp: ngx_inet6_addr_def split: list.splits option.splits)
  have "inet6_room s" by (rule inet6_loop_room [OF loop]) (simp add: inet6_room_def inet6_start_def)
  with fin show ?thesis
    by (auto simp: inet6_finish_def inet6_room_def Let_def split: if_splits option.splits)
qed

subsection \<open>Properties\<close>

text \<open>
  C37. An IPv4 text is read as a reference reading cuts it at its dots: four parts of digits, each of a value up to
  255, are the four bytes of the address. Everything else, and \<^verbatim>\<open>255.255.255.255\<close>, is \<^verbatim>\<open>INADDR_NONE\<close>.
\<close>

theorem ngx_inet_addr_equivalent:
  "in_bytes (ngx_inet_addr cs) = (case ipv4_value cs of Some bs \<Rightarrow> bs | None \<Rightarrow> [0xff, 0xff, 0xff, 0xff])"
proof (cases "ipv4_value cs")
  case None
  then show ?thesis by (simp add: ngx_inet_addr_reference in_bytes_def INADDR_NONE_def)
next
  case (Some bs)
  then have "length bs = 4" by (auto simp: ipv4_value_def Let_def split: if_splits)
  then obtain a b c d where "bs = [a, b, c, d]" by (auto simp: length_Suc_conv eval_nat_numeral)
  with Some show ?thesis by (simp add: ngx_inet_addr_reference in_word_bytes)
qed

definition inet6_refused :: "byte list set" where
  "inet6_refused = {[0,0,0,0,0,0,0,0,0,0,0,0,0xff,0xff,0xff,0xff], [0,0,0,0,0,0,0,0,0,0,0xff,0xff,0xff,0xff,0xff,0xff]}"

lemma inet6_roundtrip:
  assumes "length p = 16" "NGX_INET6_ADDRSTRLEN \<le> len"
  shows "ngx_inet6_addr (ngx_inet6_ntop p len) =
      (if p \<in> inet6_refused then None else Some p)"
proof -
  have zeros: "replicate 10 (0 :: byte) = [0,0,0,0,0,0,0,0,0,0]" "replicate 12 (0 :: byte) = [0,0,0,0,0,0,0,0,0,0,0,0]"
    by (simp_all add: eval_nat_numeral)
  have bad: "\<exists>m. ntop_zeros 0 None None 1 0 p = (Some 0, m) \<and>
      (m = 5 \<and> p ! 10 = 0xff \<and> p ! 11 = 0xff \<or> m = 6 \<or> m = 7 \<and> p ! 14 \<noteq> 0 \<and> p ! 15 \<noteq> 1)"
    if "p \<in> inet6_refused"
    using that by (auto simp: inet6_refused_def)
  show ?thesis using assms
  proof (cases rule: inet6_text_cases)
    case plain
    then show ?thesis using bad by (auto simp: NGX_INET6_ADDRSTRLEN_def)
  next
    case (mapped m)
    have "drop 12 p = [0xff, 0xff, 0xff, 0xff] \<longleftrightarrow> p \<in> inet6_refused"
    proof
      assume last4: "drop 12 p = [0xff, 0xff, 0xff, 0xff]"
      have "p = replicate (2 * m) 0 @ drop (2 * m) p" using zero_run_parts [OF mapped(1)] by simp
      moreover have "drop 10 p = p ! 10 # p ! 11 # drop 12 p" using assms(1) by (simp add: Cons_nth_drop_Suc [symmetric])
      moreover have "p ! 12 = 0xff" using last4 assms(1) by (simp add: Cons_nth_drop_Suc [symmetric])
      then have "m \<noteq> 7" using mapped(1) by (auto simp: zero_run_def)
      ultimately show "p \<in> inet6_refused"
        using mapped(2) last4 by (auto simp: inet6_refused_def zeros)
    qed (auto simp: inet6_refused_def)
    with mapped show ?thesis by (simp add: NGX_INET6_ADDRSTRLEN_def)
  qed
qed

text \<open>
  C17. What \<^verbatim>\<open>ngx_inet6_ntop\<close> writes for an address is read back by \<^verbatim>\<open>ngx_inet6_addr\<close> as that address, but for
  \<^verbatim>\<open>::255.255.255.255\<close> and \<^verbatim>\<open>::ffff:255.255.255.255\<close>, which are refused; and it fits in the buffer.
\<close>

theorem ngx_inet6_text_roundtrip:
  assumes "length p = 16" "NGX_INET6_ADDRSTRLEN \<le> len"
  shows "ngx_inet6_addr (ngx_inet6_ntop p len) =
      (if p \<in> inet6_refused then None else Some p)
    \<and> length (ngx_inet6_ntop p len) \<le> NGX_INET6_ADDRSTRLEN"
  using inet6_roundtrip [OF assms] ngx_inet6_ntop_short [OF assms(1), of len] by (simp add: NGX_INET6_ADDRSTRLEN_def)

theorem ngx_inet6_text_roundtrip_witness:
  "ngx_inet6_addr (ngx_inet6_ntop [0,0,0,0,0,0,0,0,0,0,0,0,0,0,0,1] 45) = Some [0,0,0,0,0,0,0,0,0,0,0,0,0,0,0,1]"
  using ngx_inet6_text_roundtrip [of "[0,0,0,0,0,0,0,0,0,0,0,0,0,0,0,1]" 45]
  by (simp add: NGX_INET6_ADDRSTRLEN_def inet6_refused_def)

text \<open>Texts that the standard reading of addresses treats otherwise.\<close>

lemma unusual_texts:
  "ngx_inet_addr (bytes_of ''...'') = INADDR_ANY"
  "ngx_inet6_addr (bytes_of ''::1:'') = ngx_inet6_addr (bytes_of ''::1:0'')"
  "ngx_inet6_addr (bytes_of '':1:2:3:4:5:6:7:8'') = ngx_inet6_addr (bytes_of ''1:2:3:4:5:6:7:8'')"
  "ngx_inet6_addr (bytes_of ''1:2:3:4:5:6:7::'') = None"
  by (simp_all add: bytes_of_def ngx_inet_addr_def INADDR_ANY_def htonl_def ngx_inet6_addr_def inet6_start_def
      inet6_loop.simps Let_def inet6_colon_def inet6_finish_def)

end
