(* ===== verification/Ngx_Addr.thy ===== *)
theory Ngx_Addr
  imports Ngx_Inet Ngx_String
begin

section \<open>Socket addresses, networks and URLs\<close>

text \<open>
  The rest of \<^verbatim>\<open>src/core/ngx_inet.c\<close>. A socket address is a datatype of the three families, its port a 16-bit
  word in network order as in the structure; the path of a Unix domain socket is what of \<^verbatim>\<open>sun_path\<close> its length
  covers. \<^verbatim>\<open>getaddrinfo\<close> is a parameter. Addresses with ports are written and read back, a network matches the
  addresses that begin with its bits, and a URL is cut into the parts it is made of.
\<close>

type_synonym u16 = "16 word"

definition htons :: "u16 \<Rightarrow> u16" where "htons w = push_bit 8 w OR drop_bit 8 w"
definition ntohs :: "u16 \<Rightarrow> u16" where "ntohs w = htons w"

lemma htons_htons [simp]: "htons (htons w) = w"
  unfolding htons_def by (rule bit_word_eqI) (auto simp: bit_simps dest: bit_imp_le_length)

datatype address_family = AF_INET | AF_INET6 | AF_UNIX

datatype sockaddr =
    Sockaddr_in (sa_port: u16) u32
  | Sockaddr_in6 (sa_port: u16) "byte list"
  | Sockaddr_un "byte list"

fun sa_family :: "sockaddr \<Rightarrow> address_family" where
  "sa_family (Sockaddr_in _ _) = AF_INET"
| "sa_family (Sockaddr_in6 _ _) = AF_INET6"
| "sa_family (Sockaddr_un _) = AF_UNIX"

fun ngx_inet_get_port :: "sockaddr \<Rightarrow> u16" where
  "ngx_inet_get_port (Sockaddr_in6 port _) = ntohs port"
| "ngx_inet_get_port (Sockaddr_un _) = 0"
| "ngx_inet_get_port (Sockaddr_in port _) = ntohs port"

fun ngx_inet_set_port :: "sockaddr \<Rightarrow> u16 \<Rightarrow> sockaddr" where
  "ngx_inet_set_port (Sockaddr_in6 _ addr) port = Sockaddr_in6 (htons port) addr"
| "ngx_inet_set_port (Sockaddr_un path) port = Sockaddr_un path"
| "ngx_inet_set_port (Sockaddr_in _ addr) port = Sockaddr_in (htons port) addr"

definition sun_path_size :: nat where "sun_path_size = 108"

text \<open>\<^verbatim>\<open>ngx_memcmp\<close> of the paths goes as far as the shorter of the two lengths.\<close>

fun ngx_cmp_sockaddr :: "sockaddr \<Rightarrow> sockaddr \<Rightarrow> bool \<Rightarrow> ngx_rc" where
  "ngx_cmp_sockaddr (Sockaddr_in6 port1 addr1) (Sockaddr_in6 port2 addr2) cmp_port =
     (if cmp_port \<and> port1 \<noteq> port2 then NGX_DECLINED
      else if addr1 \<noteq> addr2 then NGX_DECLINED else NGX_OK)"
| "ngx_cmp_sockaddr (Sockaddr_un path1) (Sockaddr_un path2) cmp_port =
     (let len = min (if length path1 < length path2 then length path1 else length path2) sun_path_size
      in if take len path1 \<noteq> take len path2 then NGX_DECLINED else NGX_OK)"
| "ngx_cmp_sockaddr (Sockaddr_in port1 addr1) (Sockaddr_in port2 addr2) cmp_port =
     (if cmp_port \<and> port1 \<noteq> port2 then NGX_DECLINED
      else if addr1 \<noteq> addr2 then NGX_DECLINED else NGX_OK)"
| "ngx_cmp_sockaddr _ _ cmp_port = NGX_DECLINED"

subsection \<open>Texts of socket addresses\<close>

definition inet_snprintf :: "nat \<Rightarrow> string \<Rightarrow> fmt_arg list \<Rightarrow> byte list" where
  "inet_snprintf len fmt args = (case ngx_snprintf len (bytes_of fmt) args of Inr out \<Rightarrow> out | Inl _ \<Rightarrow> [])"

abbreviation in_args :: "u32 \<Rightarrow> fmt_arg list" where "in_args addr \<equiv> map byte_arg (in_bytes addr)"

definition port_arg :: "u16 \<Rightarrow> fmt_arg" where "port_arg port = Arg_word (ucast (ntohs port))"

text \<open>The text that is written; the trailing zero of a Unix domain address is not counted.\<close>

fun ngx_sock_ntop :: "sockaddr \<Rightarrow> nat \<Rightarrow> bool \<Rightarrow> byte list" where
  "ngx_sock_ntop (Sockaddr_in sin_port sin_addr) len port =
     (if port then inet_snprintf len ''%ud.%ud.%ud.%ud:%d'' (in_args sin_addr @ [port_arg sin_port])
      else inet_snprintf len ''%ud.%ud.%ud.%ud'' (in_args sin_addr))"
| "ngx_sock_ntop (Sockaddr_in6 sin6_port sin6_addr) len port =
     (if port then [0x5b] @ ngx_inet6_ntop sin6_addr len @ inet_sprintf '']:%d'' [port_arg sin6_port]
      else ngx_inet6_ntop sin6_addr len)"
| "ngx_sock_ntop (Sockaddr_un sun_path) len port =
     (if sun_path = [] then butlast (inet_snprintf len ''unix:%Z'' [])
      else
        let n = length (takeWhile (\<lambda>b. b \<noteq> 0) sun_path)
        in butlast (inet_snprintf len ''unix:%*s%Z'' [Arg_word (of_nat n), Arg_memory sun_path]))"

definition ngx_inet_ntop :: "address_family \<Rightarrow> byte list \<Rightarrow> nat \<Rightarrow> byte list" where
  "ngx_inet_ntop family addr len =
     (case family of
        AF_INET \<Rightarrow> inet_snprintf len ''%ud.%ud.%ud.%ud'' (map byte_arg (take 4 addr))
      | AF_INET6 \<Rightarrow> ngx_inet6_ntop addr len
      | _ \<Rightarrow> [])"

subsection \<open>Networks\<close>

fun ngx_strlchr :: "byte list \<Rightarrow> byte \<Rightarrow> nat option" where
  "ngx_strlchr [] c = None"
| "ngx_strlchr (b # p) c = (if b = c then Some 0 else map_option Suc (ngx_strlchr p c))"

datatype ngx_cidr = Cidr_in u32 u32 | Cidr_in6 "byte list" "byte list" | Cidr_un

fun cidr_family :: "ngx_cidr \<Rightarrow> address_family" where
  "cidr_family (Cidr_in _ _) = AF_INET"
| "cidr_family (Cidr_in6 _ _) = AF_INET6"
| "cidr_family Cidr_un = AF_UNIX"

text \<open>The masks of the bytes of an IPv6 address, and the address under them.\<close>

fun ptocidr_masks :: "nat \<Rightarrow> byte list \<Rightarrow> byte list" where
  "ptocidr_masks shift [] = []"
| "ptocidr_masks shift (a # addr) =
     (let s = (if shift > 8 then 8 else shift); shift = shift - s
      in push_bit (8 - s) 0xff # ptocidr_masks shift addr)"

definition bytes_and :: "byte list \<Rightarrow> byte list \<Rightarrow> byte list" where
  "bytes_and addr msk = map2 (\<lambda>a m. a AND m) addr msk"

definition ptocidr_in6 :: "byte list \<Rightarrow> nat \<Rightarrow> ngx_rc \<times> ngx_cidr" where
  "ptocidr_in6 addr shift =
     (let mask = ptocidr_masks shift addr; masked = bytes_and addr mask
      in (if addr \<noteq> masked then NGX_DONE else NGX_OK, Cidr_in6 masked mask))"

definition ptocidr_in :: "u32 \<Rightarrow> nat \<Rightarrow> ngx_rc \<times> ngx_cidr" where
  "ptocidr_in addr shift =
     (let mask = (if shift \<noteq> 0 then htonl (push_bit (32 - shift) 0xffffffff) else 0)
      in if addr = addr AND mask then (NGX_OK, Cidr_in addr mask) else (NGX_DONE, Cidr_in (addr AND mask) mask))"

text \<open>\<^verbatim>\<open>NGX_ERROR\<close> is \<open>None\<close>; it leaves no network that is used.\<close>

definition ngx_ptocidr :: "byte list \<Rightarrow> (ngx_rc \<times> ngx_cidr) option" where
  "ngx_ptocidr cs =
     (let mask = ngx_strlchr cs chr_slash;
          len = (case mask of Some m \<Rightarrow> m | None \<Rightarrow> length cs);
          addr = ngx_inet_addr (take len cs)
      in if addr \<noteq> INADDR_NONE then
           (case mask of
              None \<Rightarrow> Some (NGX_OK, Cidr_in addr 0xffffffff)
            | Some m \<Rightarrow>
                (case ngx_atoi (drop (m + 1) cs) of
                   None \<Rightarrow> None
                 | Some shift \<Rightarrow> if shift > 32 then None else Some (ptocidr_in addr (nat shift))))
         else
           (case ngx_inet6_addr (take len cs) of
              None \<Rightarrow> None
            | Some addr \<Rightarrow>
                (case mask of
                   None \<Rightarrow> Some (NGX_OK, Cidr_in6 addr (replicate 16 0xff))
                 | Some m \<Rightarrow>
                     (case ngx_atoi (drop (m + 1) cs) of
                        None \<Rightarrow> None
                      | Some shift \<Rightarrow> if shift > 128 then None else Some (ptocidr_in6 addr (nat shift))))))"

definition IN6_IS_ADDR_V4MAPPED :: "byte list \<Rightarrow> bool" where
  "IN6_IS_ADDR_V4MAPPED addr \<longleftrightarrow> take 12 addr = replicate 10 0 @ [0xff, 0xff]"

text \<open>The address that is looked for: an IPv6 address that stands for an IPv4 one is taken as that one.\<close>

fun cidr_match_address :: "sockaddr \<Rightarrow> sockaddr" where
  "cidr_match_address (Sockaddr_in6 port p) =
     (if IN6_IS_ADDR_V4MAPPED p then
        let inaddr = push_bit 24 (ucast (p ! 12)); inaddr = inaddr + push_bit 16 (ucast (p ! 13));
            inaddr = inaddr + push_bit 8 (ucast (p ! 14)); inaddr = inaddr + ucast (p ! 15)
        in Sockaddr_in port (htonl inaddr)
      else Sockaddr_in6 port p)"
| "cidr_match_address sa = sa"

fun cidr_matches :: "sockaddr \<Rightarrow> ngx_cidr \<Rightarrow> bool" where
  "cidr_matches (Sockaddr_in6 _ addr) (Cidr_in6 cidr msk) = (bytes_and addr msk = cidr)"
| "cidr_matches (Sockaddr_un _) Cidr_un = True"
| "cidr_matches (Sockaddr_in _ inaddr) (Cidr_in cidr msk) = (inaddr AND msk = cidr)"
| "cidr_matches _ _ = False"

fun cidr_loop :: "sockaddr \<Rightarrow> ngx_cidr list \<Rightarrow> ngx_rc" where
  "cidr_loop sa [] = NGX_DECLINED"
| "cidr_loop sa (cidr # cidrs) = (if cidr_matches sa cidr then NGX_OK else cidr_loop sa cidrs)"

definition ngx_cidr_match :: "sockaddr \<Rightarrow> ngx_cidr list \<Rightarrow> ngx_rc" where
  "ngx_cidr_match sa cidrs = cidr_loop (cidr_match_address sa) cidrs"

subsection \<open>Addresses\<close>

text \<open>\<^verbatim>\<open>NGX_DECLINED\<close> is \<open>None\<close>. The structure is zero but for its family and its address.\<close>

definition ngx_parse_addr :: "byte list \<Rightarrow> sockaddr option" where
  "ngx_parse_addr cs =
     (let inaddr = ngx_inet_addr cs
      in if inaddr \<noteq> INADDR_NONE then Some (Sockaddr_in 0 inaddr)
         else case ngx_inet6_addr cs of Some inaddr6 \<Rightarrow> Some (Sockaddr_in6 0 inaddr6) | None \<Rightarrow> None)"

text \<open>The address without its brackets and the place of the port, if there is a colon for it.\<close>

definition addr_port_split :: "byte list \<Rightarrow> (byte list \<times> byte list) option" where
  "addr_port_split cs =
     (if cs \<noteq> [] \<and> hd cs = 0x5b then
        (case ngx_strlchr cs 0x5d of
           None \<Rightarrow> None
         | Some p \<Rightarrow>
             if p = length cs - 1 \<or> cs ! (p + 1) \<noteq> chr_colon then None
             else
               let plen = length cs - (p + 2); len = length cs - 2 - (plen + 1)
               in Some (take len (drop 1 cs), drop (p + 2) cs))
      else
        (case ngx_strlchr cs chr_colon of
           None \<Rightarrow> None
         | Some p \<Rightarrow>
             let plen = length cs - (p + 1); len = length cs - (plen + 1)
             in Some (take len cs, drop (p + 1) cs)))"

definition ngx_parse_addr_port :: "byte list \<Rightarrow> sockaddr option" where
  "ngx_parse_addr_port cs =
     (case ngx_parse_addr cs of
        Some addr \<Rightarrow> Some addr
      | None \<Rightarrow>
          (case addr_port_split cs of
             None \<Rightarrow> None
           | Some (addr, port) \<Rightarrow>
               (case ngx_atoi port of
                  None \<Rightarrow> None
                | Some port \<Rightarrow>
                    if port < 1 \<or> port > 65535 then None
                    else map_option (\<lambda>sa. ngx_inet_set_port sa (word_of_int port)) (ngx_parse_addr addr))))"


subsection \<open>Ports and characters\<close>

lemma unat_u16_less: "unat (w :: u16) < 65536"
  using unsigned_less [of w] by simp

abbreviation port_text :: "u16 \<Rightarrow> byte list" where "port_text port \<equiv> sprintf_dec (unat port) []"

lemma port_text_digits:
  "list_all dec_digit (port_text port)" "dec_value (port_text port) = int (unat port)" "port_text port \<noteq> []"
  "length (port_text port) \<le> 5"
  using sprintf_dec_digits [of "unat port" "[]"] length_sprintf_dec [of "unat port" 5 "[]"] unat_u16_less [of port]
  by simp_all

lemma ngx_atoi_port: "ngx_atoi (port_text port) = Some (int (unat port))"
proof -
  have "int (unat port) \<le> NGX_MAX_INT_T_VALUE" using unat_u16_less [of port] by linarith
  with port_text_digits [of port] show ?thesis by (simp add: ngx_atoi_Some)
qed

lemma ngx_strlchr_append: "c \<notin> set xs \<Longrightarrow> ngx_strlchr (xs @ c # ys) c = Some (length xs)"
  by (induction xs) auto

lemma ngx_strlchr_None: "c \<notin> set xs \<Longrightarrow> ngx_strlchr xs c = None"
  by (induction xs) auto

lemma ngx_strlchr_takeWhile:
  "ngx_strlchr cs c = Some i \<Longrightarrow> i < length cs \<and> cs ! i = c \<and> take i cs = takeWhile (\<lambda>b. b \<noteq> c) cs \<and> c \<notin> set (take i cs)"
  by (induction cs c arbitrary: i rule: ngx_strlchr.induct) (auto split: if_splits)

lemma inet_addr_loop_foreign: "c \<in> set cs \<Longrightarrow> \<not> dec_digit c \<Longrightarrow> c \<noteq> chr_dot \<Longrightarrow> inet_addr_loop addr octet n cs = INADDR_NONE"
  by (induction addr octet n cs rule: inet_addr_loop.induct) (auto simp: Let_def)

lemma inet_addr_foreign: "c \<in> set cs \<Longrightarrow> \<not> dec_digit c \<Longrightarrow> c \<noteq> chr_dot \<Longrightarrow> ngx_inet_addr cs = INADDR_NONE"
  unfolding ngx_inet_addr_def by (rule inet_addr_loop_foreign)

abbreviation addr_char :: "byte \<Rightarrow> bool" where "addr_char c \<equiv> hex_digit c \<or> c = chr_colon \<or> c = chr_dot"

lemma ntop_groups_chars: "list_all addr_char (ntop_groups p zero m n i)"
proof (induction p zero m n i rule: ntop_groups.induct)
  case (1 p zero m n i)
  have "list_all addr_char (group_text p i)" using group_text_hex [of p i] by (simp add: list_all_iff)
  with 1 show ?case by (subst ntop_groups.simps) simp
qed

lemma dotted_chars: "list_all addr_char (dotted a b c d)"
  using dec_text_digits [of a] dec_text_digits [of b] dec_text_digits [of c] dec_text_digits [of d]
  by (auto simp: list_all_iff hex_digit_def)

lemma inet6_ntop_chars: "list_all addr_char (ngx_inet6_ntop p len)"
  using dotted_chars ntop_groups_chars
  by (auto simp: ngx_inet6_ntop_def Let_def inet_dotted_text split: prod.splits)

lemma inet6_ntop_colon:
  assumes "NGX_INET6_ADDRSTRLEN \<le> len"
  shows "chr_colon \<in> set (ngx_inet6_ntop p len)"
proof -
  obtain z m where scan: "ntop_zeros 0 None None 1 0 p = (z, m)" by fastforce
  have "z \<noteq> Some 0 \<Longrightarrow> chr_colon \<in> set (ntop_groups p z m 16 0)" by (subst ntop_groups.simps) auto
  with scan assms show ?thesis by (cases "z = Some 0") (simp_all add: ngx_inet6_ntop_def Let_def)
qed

lemma parse_addr_inet6:
  assumes "length p = 16" "NGX_INET6_ADDRSTRLEN \<le> len" "p \<notin> inet6_refused"
  shows "ngx_parse_addr (ngx_inet6_ntop p len) = Some (Sockaddr_in6 0 p)"
  using inet_addr_foreign [OF inet6_ntop_colon [OF assms(2)]] inet6_roundtrip [OF assms(1,2)] assms(3)
  by (simp add: ngx_parse_addr_def)


lemma small_word:
  assumes "m < 65536"
  shows "unat (of_nat m :: u64) = m" "unat (of_nat m :: u32) = m" "sint (of_nat m :: u64) = int m"
    "sign_extend_32 (of_nat m) = of_nat m"
proof -
  show unat: "unat (of_nat m :: u64) = m" "unat (of_nat m :: u32) = m" and "sint (of_nat m :: u64) = int m"
    using assms by (simp_all add: unsigned_of_nat signed_of_nat take_bit_nat_eq_self signed_take_bit_int_eq_self)
  have "(ucast (of_nat m :: u64) :: u32) = of_nat m"
    by (metis unat(1) of_nat_unat)
  moreover have "sint (of_nat m :: u32) = int m"
    using assms by (simp add: signed_of_nat signed_take_bit_int_eq_self)
  ultimately show "sign_extend_32 (of_nat m) = of_nat m"
    by (simp only: sign_extend_32_def scast_eq of_int_of_nat_eq)
qed

lemma fmt_d_port:
  assumes "5 \<le> room"
  shows "fmt_directive room (chr_d # fmt) (port_arg port # args) = Inr (port_text (ntohs port), fmt, args)"
proof -
  let ?n = "unat (ntohs port)"
  have less: "?n < 65536" by (rule unat_u16_less)
  have arg: "port_arg port = Arg_word (of_nat ?n)" by (simp only: port_arg_def of_nat_unat)
  have "(of_nat ?n :: u64) \<le> 0xffffffff"
    using less small_word(1) [OF less] by (simp add: word_le_nat_alt del: of_nat_unat)
  moreover have "unat (ucast (of_nat ?n :: u64) :: u32) = ?n"
    using small_word [OF less] by (metis of_nat_unat)
  ultimately have "sprintf_digits (of_nat ?n) 0 = port_text (ntohs port)"
    by (simp only: sprintf_digits_def simp_thms if_True)
  then have "ngx_sprintf_num room (of_nat ?n) z 0 0 = port_text (ntohs port)" for z
    using port_text_digits(4) [of "ntohs port"] assms by (simp add: ngx_sprintf_num_take del: of_nat_unat)
  then show ?thesis
    unfolding arg using small_word(3,4) [OF less]
    by (simp add: fmt_directive_def fmt_convert_def fmt_convert_word_def fmt_integer_def fmt_write_def del: of_nat_unat)
qed

lemma in_bytes_four: "in_bytes addr = [a, b, c, d] \<Longrightarrow> in_word [a, b, c, d] = addr"
  using in_word_bytes in_bytes_inj by metis

lemma sock_ntop_in:
  assumes "NGX_INET_ADDRSTRLEN + 6 \<le> len" "in_bytes addr = [a, b, c, d]"
  shows "ngx_sock_ntop (Sockaddr_in port addr) len True = dotted a b c d @ chr_colon # port_text (ntohs port)"
proof -
  have fmt: "bytes_of ''%ud.%ud.%ud.%ud:%d'' = [chr_percent, chr_u, chr_d, chr_dot, chr_percent, chr_u, chr_d, chr_dot,
      chr_percent, chr_u, chr_d, chr_dot, chr_percent, chr_u, chr_d, chr_colon, chr_percent, chr_d]"
    by (simp add: bytes_of_def)
  show ?thesis
    using assms length_dec_text [of a] length_dec_text [of b] length_dec_text [of c] length_dec_text [of d]
    by (simp add: inet_snprintf_def ngx_snprintf_def ngx_vslprintf_def fmt fmt_ud fmt_d_port NGX_INET_ADDRSTRLEN_def)
qed


lemma sock_ntop_in6:
  "ngx_sock_ntop (Sockaddr_in6 port addr) len True =
     0x5b # ngx_inet6_ntop addr len @ 0x5d # chr_colon # port_text (ntohs port)"
proof -
  have "50 \<le> unat (- 1 - 0 :: u64)" by (simp add: unsigned_minus_1_eq_mask mask_eq_exp_minus_1)
  then have "inet_sprintf '']:%d'' [port_arg port] = 0x5d # chr_colon # port_text (ntohs port)"
    by (simp add: inet_sprintf_def ngx_sprintf_def ngx_vslprintf_def bytes_of_def fmt_d_port del: diff_zero)
  then show ?thesis by simp
qed

lemma parse_port:
  assumes "ngx_parse_addr cs = None" "addr_port_split cs = Some (addr, port_text port)" "port \<noteq> 0"
  shows "ngx_parse_addr_port cs = map_option (\<lambda>sa. ngx_inet_set_port sa port) (ngx_parse_addr addr)"
proof -
  have "unat port \<noteq> 0" using assms(3) by (simp add: unat_eq_0)
  then have "1 \<le> int (unat port)" "int (unat port) \<le> 65535" using unat_u16_less [of port] by linarith+
  moreover have "word_of_int (int (unat port)) = port" by simp
  ultimately show ?thesis
    using assms(1,2) by (simp add: ngx_parse_addr_port_def ngx_atoi_port del: of_nat_unat)
qed

lemma colon_not_dotted: "chr_colon \<notin> set (dotted a b c d)"
  using dec_text_digits [of a] dec_text_digits [of b] dec_text_digits [of c] dec_text_digits [of d]
  by (auto simp: list_all_iff)

lemma inet6_addr_dotted_first:
  assumes "list_all dec_digit ds" "ds \<noteq> []" "length ds \<le> 4"
  shows "ngx_inet6_addr (ds @ chr_dot # rest) = None"
proof -
  have "list_all hex_digit ds" using assms(1) by (auto simp: list_all_iff hex_digit_def)
  then have "inet6_loop (ds @ chr_dot # rest) inet6_start = None"
    using assms(2,3) by (simp add: inet6_digits inet6_loop.simps(2) [of chr_dot] inet6_dotted_def inet6_start_def)
  moreover have "hd ds \<noteq> chr_colon" using assms(1,2) by (auto simp: neq_Nil_conv)
  moreover from this assms(2) obtain c cs where "ds = c # cs" "c \<noteq> chr_colon" by (cases ds) simp_all
  ultimately show ?thesis by (simp add: ngx_inet6_addr_def)
qed

lemma addr_port_split_colon:
  assumes "cs \<noteq> []" "hd cs \<noteq> 0x5b" "chr_colon \<notin> set cs"
  shows "addr_port_split (cs @ chr_colon # port) = Some (cs, port)"
  using assms ngx_strlchr_append [OF assms(3), of port] by (simp add: addr_port_split_def)

lemma read_sock_in:
  assumes "addr \<noteq> INADDR_NONE" "ntohs port \<noteq> 0" "NGX_INET_ADDRSTRLEN + 6 \<le> len"
  shows "ngx_parse_addr_port (ngx_sock_ntop (Sockaddr_in port addr) len True) = Some (Sockaddr_in port addr)"
proof -
  obtain a b c d where bytes: "in_bytes addr = [a, b, c, d]" by (simp add: in_bytes_def)
  let ?d = "dotted a b c d" and ?p = "port_text (ntohs port)"
  have "chr_colon \<in> set (?d @ chr_colon # ?p)" by simp
  then have "ngx_inet_addr (?d @ chr_colon # ?p) = INADDR_NONE" by (rule inet_addr_foreign) simp_all
  moreover have "ngx_inet6_addr (?d @ chr_colon # ?p) = None"
    using inet6_addr_dotted_first [OF dec_text_digits(1,3) [of a]] length_dec_text [of a] by simp
  ultimately have "ngx_parse_addr (?d @ chr_colon # ?p) = None" by (simp add: ngx_parse_addr_def)
  moreover have "addr_port_split (?d @ chr_colon # ?p) = Some (?d, ?p)"
    using dec_text_digits(1,3) [of a] by (intro addr_port_split_colon colon_not_dotted) (auto simp: neq_Nil_conv)
  moreover have "ngx_parse_addr ?d = Some (Sockaddr_in 0 addr)"
    using assms(1) in_bytes_four [OF bytes] by (simp add: ngx_parse_addr_def inet_addr_dotted)
  ultimately show ?thesis
    unfolding sock_ntop_in [OF assms(3) bytes] using parse_port assms(2) by (simp add: ntohs_def)
qed

lemma read_sock_in6:
  assumes "length addr = 16" "addr \<notin> inet6_refused" "ntohs port \<noteq> 0" "NGX_INET6_ADDRSTRLEN \<le> len"
  shows "ngx_parse_addr_port (ngx_sock_ntop (Sockaddr_in6 port addr) len True) = Some (Sockaddr_in6 port addr)"
proof -
  let ?a = "ngx_inet6_ntop addr len" and ?p = "port_text (ntohs port)"
  let ?t = "0x5b # ?a @ 0x5d # chr_colon # ?p"
  have "(0x5b :: byte) \<in> set ?t" by simp
  then have "ngx_inet_addr ?t = INADDR_NONE" by (rule inet_addr_foreign) simp_all
  moreover have "ngx_inet6_addr ?t = None"
    by (simp add: ngx_inet6_addr_def inet6_loop.simps(2) inet6_start_def Let_def)
  ultimately have "ngx_parse_addr ?t = None" by (simp add: ngx_parse_addr_def)
  moreover have "addr_port_split ?t = Some (?a, ?p)"
  proof -
    have "(0x5d :: byte) \<notin> set (0x5b # ?a)"
      using inet6_ntop_chars [of addr len] by (auto simp: list_all_iff hex_digit_def byte_simps)
    from ngx_strlchr_append [OF this, of "chr_colon # ?p"]
    have "ngx_strlchr ?t 0x5d = Some (length ?a + 1)" by simp
    then show ?thesis by (simp add: addr_port_split_def nth_append)
  qed
  ultimately show ?thesis
    unfolding sock_ntop_in6 using parse_port parse_addr_inet6 [OF assms(1,4,2)] assms(3) by (simp add: ntohs_def)
qed


subsection \<open>The bits of an address\<close>

definition bits_of_byte :: "byte \<Rightarrow> bool list" where
  "bits_of_byte b = map (bit b) [7, 6, 5, 4, 3, 2, 1, 0]"

definition addr_bits :: "byte list \<Rightarrow> bool list" where
  "addr_bits bs = concat (map bits_of_byte bs)"

fun sockaddr_bytes :: "sockaddr \<Rightarrow> byte list" where
  "sockaddr_bytes (Sockaddr_in _ addr) = in_bytes addr"
| "sockaddr_bytes (Sockaddr_in6 _ addr) = addr"
| "sockaddr_bytes (Sockaddr_un _) = []"

lemma addr_bits_Cons: "addr_bits (b # bs) = bits_of_byte b @ addr_bits bs"
  by (simp add: addr_bits_def)

lemma length_bits_of_byte: "length (bits_of_byte b) = 8"
  by (simp add: bits_of_byte_def)

lemma take_addr_bits:
  "take s (addr_bits (b # bs)) = take (min s 8) (bits_of_byte b) @ take (s - 8) (addr_bits bs)"
  using length_bits_of_byte [of b] by (cases "s \<le> 8") (simp_all add: addr_bits_Cons)

lemma byte_mask_bits:
  assumes "s \<le> 8"
  shows "a AND push_bit (8 - s) 0xff = b AND push_bit (8 - s) 0xff \<longleftrightarrow> take s (bits_of_byte a) = take s (bits_of_byte b)"
proof -
  have "(0xff :: byte) = mask 8" by (simp add: mask_eq_exp_minus_1)
  then have bits: "a AND push_bit (8 - s) 0xff = b AND push_bit (8 - s) 0xff \<longleftrightarrow> (\<forall>n < 8. 8 - s \<le> n \<longrightarrow> bit a n = bit b n)"
    by (auto simp: bit_eq_iff bit_simps)
  have "bits_of_byte x = map (\<lambda>i. bit x (7 - i)) [0..<8]" for x :: byte
    by (simp add: upt_conv_Cons bits_of_byte_def)
  then have taken: "take s (bits_of_byte a) = take s (bits_of_byte b) \<longleftrightarrow> (\<forall>i < s. bit a (7 - i) = bit b (7 - i))"
    using assms by (simp only: take_map) (auto simp: list_eq_iff_nth_eq)
  have "bit a n = bit b n" if "\<forall>i < s. bit a (7 - i) = bit b (7 - i)" "n < 8" "8 - s \<le> n" for n
  proof -
    from that(2,3) have "7 - n < s" "7 - (7 - n) = n" by simp_all
    with that(1) show ?thesis by metis
  qed
  moreover have "bit a (7 - i) = bit b (7 - i)" if "\<forall>n < 8. 8 - s \<le> n \<longrightarrow> bit a n = bit b n" "i < s" for i
  proof -
    from that(2) have "7 - i < 8" "8 - s \<le> 7 - i" by simp_all
    with that(1) show ?thesis by blast
  qed
  ultimately show ?thesis unfolding bits taken by blast
qed

lemma masked_bits:
  "length a = length b \<Longrightarrow> length b = length c \<Longrightarrow>
   bytes_and a (ptocidr_masks s c) = bytes_and b (ptocidr_masks s c) \<longleftrightarrow> take s (addr_bits a) = take s (addr_bits b)"
proof (induction c arbitrary: a b s)
  case Nil
  then show ?case by (simp add: bytes_and_def)
next
  case (Cons z c)
  obtain x a' y b' where ab: "a = x # a'" "b = y # b'" "length a' = length b'" "length b' = length c"
    using Cons.prems by (cases a; cases b) auto
  have masks: "ptocidr_masks s (z # c) = push_bit (8 - min s 8) 0xff # ptocidr_masks (s - 8) c"
    by (simp add: Let_def min_def)
  have "length (take (min s 8) (bits_of_byte x)) = length (take (min s 8) (bits_of_byte y))"
    by (simp add: length_bits_of_byte)
  then show ?case
    using Cons.IH [OF ab(3,4), of "s - 8"] byte_mask_bits [of "min s 8" x y]
    unfolding ab masks take_addr_bits by (simp add: bytes_and_def)
qed

lemma byte_own_bits:
  assumes "s \<le> 8"
  shows "a AND push_bit (8 - s) 0xff = a \<longleftrightarrow> True \<notin> set (drop s (bits_of_byte a))"
proof -
  have "(0xff :: byte) = mask 8" by (simp add: mask_eq_exp_minus_1)
  then have bits: "a AND push_bit (8 - s) 0xff = a \<longleftrightarrow> (\<forall>n < 8. n < 8 - s \<longrightarrow> \<not> bit a n)"
    by (auto simp: bit_eq_iff bit_simps not_le)
  have "bits_of_byte a = map (\<lambda>i. bit a (7 - i)) [0..<8]"
    by (simp add: upt_conv_Cons bits_of_byte_def)
  then have "True \<notin> set (drop s (bits_of_byte a)) \<longleftrightarrow> (\<forall>i. s \<le> i \<and> i < 8 \<longrightarrow> \<not> bit a (7 - i))"
    using assms by (simp add: drop_map drop_upt image_iff) auto
  moreover have "\<not> bit a n" if "\<forall>i. s \<le> i \<and> i < 8 \<longrightarrow> \<not> bit a (7 - i)" "n < 8 - s" for n
  proof -
    from that(2) have "s \<le> 7 - n" "7 - n < 8" "7 - (7 - n) = n" by simp_all
    with that(1) show ?thesis by metis
  qed
  moreover have "\<not> bit a (7 - i)" if "\<forall>n < 8. n < 8 - s \<longrightarrow> \<not> bit a n" "s \<le> i" "i < 8" for i
  proof -
    from that(2,3) have "7 - i < 8" "7 - i < 8 - s" by simp_all
    with that(1) show ?thesis by blast
  qed
  ultimately show ?thesis unfolding bits by blast
qed

lemma drop_addr_bits:
  "drop s (addr_bits (b # bs)) = drop (min s 8) (bits_of_byte b) @ drop (s - 8) (addr_bits bs)"
  using length_bits_of_byte [of b] by (cases "s \<le> 8") (simp_all add: addr_bits_Cons)

lemma masked_own_bits:
  "length b = length c \<Longrightarrow> bytes_and b (ptocidr_masks s c) = b \<longleftrightarrow> True \<notin> set (drop s (addr_bits b))"
proof (induction c arbitrary: b s)
  case Nil
  then show ?case by (simp add: bytes_and_def addr_bits_def)
next
  case (Cons z c)
  obtain y b' where b: "b = y # b'" "length b' = length c" using Cons.prems by (cases b) auto
  have masks: "ptocidr_masks s (z # c) = push_bit (8 - min s 8) 0xff # ptocidr_masks (s - 8) c"
    by (simp add: Let_def min_def)
  show ?case
    using Cons.IH [OF b(2), of "s - 8"] byte_own_bits [of "min s 8" y]
    unfolding b masks drop_addr_bits by (simp add: bytes_and_def)
qed

subsection \<open>Masks of IPv4\<close>

lemma in_bytes_and: "in_bytes (a AND b) = bytes_and (in_bytes a) (in_bytes b)"
  by (simp add: in_bytes_def bytes_and_def) (intro conjI; rule bit_word_eqI; simp add: bit_simps)

definition in_mask :: "nat \<Rightarrow> u32" where
  "in_mask shift = (if shift \<noteq> 0 then htonl (push_bit (32 - shift) 0xffffffff) else 0)"

lemma in_mask_byte:
  assumes "s \<le> 32" "k \<le> 24" "s \<noteq> 0"
  shows "ucast (drop_bit k (push_bit (32 - s) 0xffffffff :: u32)) = (push_bit (8 - min (s - (24 - k)) 8) 0xff :: byte)"
proof (rule bit_word_eqI)
  fix n assume "n < LENGTH(8)"
  then have n: "n < 8" by simp
  have masks: "(0xffffffff :: u32) = mask 32" "(0xff :: byte) = mask 8" by (simp_all add: mask_eq_exp_minus_1)
  have "bit (ucast (drop_bit k (push_bit (32 - s) 0xffffffff :: u32)) :: byte) n \<longleftrightarrow> 32 - s \<le> k + n"
    unfolding masks using n assms by (auto simp: bit_simps)
  moreover have "bit (push_bit (8 - min (s - (24 - k)) 8) 0xff :: byte) n \<longleftrightarrow> 8 - min (s - (24 - k)) 8 \<le> n"
    unfolding masks using n by (auto simp: bit_simps)
  moreover have "32 - s \<le> k + n \<longleftrightarrow> 8 - min (s - (24 - k)) 8 \<le> n" using n assms by (auto simp: min_def)
  ultimately show "bit (ucast (drop_bit k (push_bit (32 - s) 0xffffffff :: u32)) :: byte) n =
      bit (push_bit (8 - min (s - (24 - k)) 8) 0xff :: byte) n" by simp
qed

lemma in_mask_bytes:
  assumes "s \<le> 32" "length c = 4"
  shows "in_bytes (in_mask s) = ptocidr_masks s c"
proof -
  obtain w x y z where c: "c = [w, x, y, z]" using assms(2) by (auto simp: length_Suc_conv eval_nat_numeral)
  have step: "ptocidr_masks s (z # c) = push_bit (8 - min s 8) 0xff # ptocidr_masks (s - 8) c" for s z c
    by (simp add: Let_def min_def)
  have masks: "ptocidr_masks s c = map (\<lambda>k. push_bit (8 - min (s - (24 - k)) 8) 0xff) [24, 16, 8, 0]"
    unfolding c step by simp
  show ?thesis
  proof (cases "s = 0")
    case True
    then show ?thesis unfolding masks by (simp add: in_mask_def in_bytes_def)
  next
    case False
    have "drop_bit 0 v = v" for v :: u32 by simp
    with False have "in_bytes (in_mask s) = map (\<lambda>k. ucast (drop_bit k (push_bit (32 - s) 0xffffffff :: u32))) [24, 16, 8, 0]"
      by (simp add: in_mask_def in_bytes_htonl) (simp add: in_bytes_def)
    also have "\<dots> = map (\<lambda>k. push_bit (8 - min (s - (24 - k)) 8) 0xff) [24, 16, 8, 0]"
      using False assms(1) by (intro map_cong refl in_mask_byte) auto
    finally show ?thesis unfolding masks .
  qed
qed


subsection \<open>Networks and prefixes\<close>

lemma length_in_bytes: "length (in_bytes w) = 4"
  by (simp add: in_bytes_def)

lemma length_addr_bits: "length (addr_bits bs) = 8 * length bs"
  by (induction bs) (simp_all add: addr_bits_def length_bits_of_byte)

definition sockaddr_ok :: "sockaddr \<Rightarrow> bool" where
  "sockaddr_ok sa \<longleftrightarrow> (case sa of Sockaddr_in6 _ addr \<Rightarrow> length addr = 16 | _ \<Rightarrow> True)"

definition prefix_of :: "sockaddr \<Rightarrow> nat \<Rightarrow> sockaddr \<Rightarrow> bool" where
  "prefix_of base s sa \<longleftrightarrow> sa_family sa = sa_family base \<and>
     take s (addr_bits (sockaddr_bytes sa)) = take s (addr_bits (sockaddr_bytes base))"

lemma masked_in:
  assumes "s \<le> 32"
  shows "v AND in_mask s = w AND in_mask s \<longleftrightarrow> take s (addr_bits (in_bytes v)) = take s (addr_bits (in_bytes w))"
    and "v AND in_mask s = v \<longleftrightarrow> True \<notin> set (drop s (addr_bits (in_bytes v)))"
proof -
  let ?m = "ptocidr_masks s (in_bytes v)"
  have m: "in_bytes (x AND in_mask s) = bytes_and (in_bytes x) ?m" for x
    by (simp only: in_bytes_and in_mask_bytes [OF assms length_in_bytes [of v]])
  have "v AND in_mask s = w AND in_mask s \<longleftrightarrow> bytes_and (in_bytes v) ?m = bytes_and (in_bytes w) ?m"
    by (metis m in_bytes_inj)
  also have "\<dots> \<longleftrightarrow> take s (addr_bits (in_bytes v)) = take s (addr_bits (in_bytes w))"
    by (rule masked_bits) (simp_all add: length_in_bytes)
  finally show "v AND in_mask s = w AND in_mask s \<longleftrightarrow> take s (addr_bits (in_bytes v)) = take s (addr_bits (in_bytes w))" .
  have "v AND in_mask s = v \<longleftrightarrow> bytes_and (in_bytes v) ?m = in_bytes v"
    by (metis m in_bytes_inj)
  also have "\<dots> \<longleftrightarrow> True \<notin> set (drop s (addr_bits (in_bytes v)))"
    by (rule masked_own_bits) simp
  finally show "v AND in_mask s = v \<longleftrightarrow> True \<notin> set (drop s (addr_bits (in_bytes v)))" .
qed

lemma ptocidr_in_prefix:
  assumes "ptocidr_in addr s = (rc, cidr)" "s \<le> 32"
  shows "rc = (if True \<in> set (drop s (addr_bits (in_bytes addr))) then NGX_DONE else NGX_OK)"
    and "cidr_matches sa cidr \<longleftrightarrow> prefix_of (Sockaddr_in port addr) s sa"
proof -
  have "rc = (if addr AND in_mask s = addr then NGX_OK else NGX_DONE) \<and> cidr = Cidr_in (addr AND in_mask s) (in_mask s)"
    using assms(1) unfolding ptocidr_in_def in_mask_def [symmetric] Let_def
    by (cases "addr = addr AND in_mask s") (simp_all add: eq_commute)
  then show "rc = (if True \<in> set (drop s (addr_bits (in_bytes addr))) then NGX_DONE else NGX_OK)"
    "cidr_matches sa cidr \<longleftrightarrow> prefix_of (Sockaddr_in port addr) s sa"
    by (simp_all add: masked_in [OF assms(2)], cases sa) (simp_all add: prefix_of_def masked_in [OF assms(2)])
qed

lemma ptocidr_in6_prefix:
  assumes "ptocidr_in6 addr s = (rc, cidr)" "length addr = 16" "sockaddr_ok sa"
  shows "rc = (if True \<in> set (drop s (addr_bits addr)) then NGX_DONE else NGX_OK)"
    and "cidr_matches sa cidr \<longleftrightarrow> prefix_of (Sockaddr_in6 port addr) s sa"
proof -
  let ?m = "ptocidr_masks s addr"
  have "rc = (if bytes_and addr ?m = addr then NGX_OK else NGX_DONE) \<and> cidr = Cidr_in6 (bytes_and addr ?m) ?m"
    using assms(1) unfolding ptocidr_in6_def Let_def by (cases "addr = bytes_and addr ?m") auto
  with masked_own_bits [of addr addr s] masked_bits [of _ addr addr s] assms(2,3)
  show "rc = (if True \<in> set (drop s (addr_bits addr)) then NGX_DONE else NGX_OK)"
    "cidr_matches sa cidr \<longleftrightarrow> prefix_of (Sockaddr_in6 port addr) s sa"
    by (simp_all, cases sa) (simp_all add: prefix_of_def sockaddr_ok_def)
qed

lemma ptocidr_masks_whole: "8 * length c \<le> s \<Longrightarrow> ptocidr_masks s c = replicate (length c) 0xff"
proof (induction c arbitrary: s)
  case (Cons z c)
  have "push_bit (8 - min s 8) 0xff = (0xff :: byte)" using Cons.prems by simp
  with Cons show ?case by (cases "c = []") (auto simp: Let_def min_def)
qed simp

lemma all_ones: "(0xffffffff :: u32) = - 1" "(0xff :: byte) = - 1"
  by simp_all

lemma ptocidr_whole:
  "ptocidr_in addr 32 = (NGX_OK, Cidr_in addr 0xffffffff)"
  "length addr6 = 16 \<Longrightarrow> ptocidr_in6 addr6 128 = (NGX_OK, Cidr_in6 addr6 (replicate 16 0xff))"
proof -
  have "htonl 0xffffffff = 0xffffffff" by (simp add: htonl_def)
  moreover have "addr AND 0xffffffff = addr" unfolding all_ones by simp
  ultimately show "ptocidr_in addr 32 = (NGX_OK, Cidr_in addr 0xffffffff)" by (simp add: ptocidr_in_def Let_def)
  have "bytes_and bs (replicate (length bs) 0xff) = bs" for bs
    unfolding all_ones by (induction bs) (simp_all add: bytes_and_def)
  then show "length addr6 = 16 \<Longrightarrow> ptocidr_in6 addr6 128 = (NGX_OK, Cidr_in6 addr6 (replicate 16 0xff))"
    by (simp add: ptocidr_in6_def Let_def ptocidr_masks_whole) metis
qed

text \<open>The text of a network: an address and, behind a slash, the number of bits.\<close>

definition network_text :: "byte list \<Rightarrow> sockaddr \<Rightarrow> nat \<Rightarrow> bool" where
  "network_text cs base s \<longleftrightarrow>
     ngx_parse_addr (takeWhile (\<lambda>b. b \<noteq> chr_slash) cs) = Some base \<and>
     s \<le> 8 * length (sockaddr_bytes base) \<and>
     (if chr_slash \<in> set cs then ngx_atoi (tl (dropWhile (\<lambda>b. b \<noteq> chr_slash) cs)) = Some (int s)
      else s = 8 * length (sockaddr_bytes base))"

lemma ngx_strlchr_cases:
  obtains (none) "ngx_strlchr cs c = None" "c \<notin> set cs" "takeWhile (\<lambda>b. b \<noteq> c) cs = cs"
    | (some) i where "ngx_strlchr cs c = Some i" "c \<in> set cs" "takeWhile (\<lambda>b. b \<noteq> c) cs = take i cs"
      "tl (dropWhile (\<lambda>b. b \<noteq> c) cs) = drop (i + 1) cs"
proof (cases "ngx_strlchr cs c")
  case None
  then have "c \<notin> set cs" by (induction cs c rule: ngx_strlchr.induct) (auto split: if_splits)
  moreover from this have "takeWhile (\<lambda>b. b \<noteq> c) cs = cs" by (auto simp: takeWhile_eq_all_conv)
  ultimately show ?thesis using None none by simp
next
  case (Some i)
  note at = ngx_strlchr_takeWhile [OF Some]
  have "cs = take i cs @ drop i cs" by simp
  then have "dropWhile (\<lambda>b. b \<noteq> c) cs = drop i cs"
    using at by (metis append_same_eq same_append_eq takeWhile_dropWhile_id)
  moreover have "c \<in> set cs" using at by (metis nth_mem)
  ultimately show ?thesis using Some at some [of i] by (simp add: drop_Suc tl_drop)
qed

lemma ngx_ptocidr_network:
  assumes "ngx_ptocidr cs = Some r"
  shows "\<exists>base s. network_text cs base s \<and>
    (case base of Sockaddr_in port addr \<Rightarrow> s \<le> 32 \<and> r = ptocidr_in addr s
     | Sockaddr_in6 port addr \<Rightarrow> length addr = 16 \<and> r = ptocidr_in6 addr s | _ \<Rightarrow> False)"
proof -
  let ?host = "takeWhile (\<lambda>b. b \<noteq> chr_slash) cs"
  show ?thesis
  proof (cases "ngx_inet_addr ?host = INADDR_NONE")
    case False
    then have parsed: "ngx_parse_addr ?host = Some (Sockaddr_in 0 (ngx_inet_addr ?host))" by (simp add: ngx_parse_addr_def)
    show ?thesis
    proof (cases rule: ngx_strlchr_cases [of cs chr_slash])
      case none
      note host = none(3)
      have "r = (NGX_OK, Cidr_in (ngx_inet_addr cs) 0xffffffff)"
        using assms False [unfolded host] none(1) by (simp add: ngx_ptocidr_def Let_def)
      then show ?thesis using parsed none(2)
        by (intro exI [of _ "Sockaddr_in 0 (ngx_inet_addr cs)"] exI [of _ 32])
          (simp add: network_text_def host ptocidr_whole length_in_bytes)
    next
      case (some i)
      then obtain v where "ngx_atoi (drop (i + 1) cs) = Some v" "v \<le> 32" "r = ptocidr_in (ngx_inet_addr ?host) (nat v)"
        using assms False by (auto simp: ngx_ptocidr_def Let_def split: option.splits if_splits)
      with some parsed ngx_atoi_range [of "drop (i + 1) cs" v] show ?thesis
        by (auto simp: network_text_def length_in_bytes intro!: exI [of _ "nat v"])
    qed
  next
    case True
    show ?thesis
    proof (cases rule: ngx_strlchr_cases [of cs chr_slash])
      case none
      note host = none(3)
      obtain a where a: "ngx_inet6_addr cs = Some a" "r = (NGX_OK, Cidr_in6 a (replicate 16 0xff))"
        using assms True [unfolded host] none(1) by (simp add: ngx_ptocidr_def Let_def split: option.splits)
      with True [unfolded host] have "ngx_parse_addr cs = Some (Sockaddr_in6 0 a)" by (simp add: ngx_parse_addr_def)
      with none(2) a(2) length_inet6_addr [OF a(1)] show ?thesis
        by (intro exI [of _ "Sockaddr_in6 0 a"] exI [of _ 128]) (simp add: network_text_def host ptocidr_whole)
    next
      case (some i)
      with True assms obtain a v where a: "ngx_inet6_addr ?host = Some a" "ngx_atoi (drop (i + 1) cs) = Some v" "v \<le> 128"
        "r = ptocidr_in6 a (nat v)"
        by (auto simp: ngx_ptocidr_def Let_def split: option.splits if_splits)
      with True have "ngx_parse_addr ?host = Some (Sockaddr_in6 0 a)" by (simp add: ngx_parse_addr_def)
      with some a length_inet6_addr [OF a(1)] ngx_atoi_range [OF a(2)] show ?thesis
        by (auto simp: network_text_def intro!: exI [of _ "nat v"])
    qed
  qed
qed


text \<open>An IPv6 address that stands for an IPv4 one is looked for as its last four bytes.\<close>

lemma mapped_address:
  assumes "IN6_IS_ADDR_V4MAPPED p" "length p = 16"
  shows "sa_family (cidr_match_address (Sockaddr_in6 port p)) = AF_INET"
    "sockaddr_bytes (cidr_match_address (Sockaddr_in6 port p)) = drop 12 p"
proof -
  let ?w = "push_bit 24 (ucast (p ! 12)) + push_bit 16 (ucast (p ! 13)) + push_bit 8 (ucast (p ! 14)) + ucast (p ! 15) :: u32"
  have "?w = in_word [p ! 15, p ! 14, p ! 13, p ! 12]"
    by (simp add: in_word_Cons push_bit_eq_mult algebra_simps) (simp add: in_word_def)
  then have "in_bytes (htonl ?w) = [p ! 12, p ! 13, p ! 14, p ! 15]"
    by (simp only: in_bytes_htonl in_word_bytes rev.simps append.simps)
  moreover have "drop 12 p = [p ! 12, p ! 13, p ! 14, p ! 15]"
    using assms(2) by (simp add: Cons_nth_drop_Suc [symmetric])
  ultimately show "sa_family (cidr_match_address (Sockaddr_in6 port p)) = AF_INET"
    "sockaddr_bytes (cidr_match_address (Sockaddr_in6 port p)) = drop 12 p"
    using assms(1) by (simp_all add: Let_def)
qed

lemma cidr_match_address_ok: "sockaddr_ok sa \<Longrightarrow> sockaddr_ok (cidr_match_address sa)"
  by (cases sa) (simp_all add: sockaddr_ok_def Let_def)

subsection \<open>Properties\<close>



text \<open>
  C24. The text of an address with a port, as \<^verbatim>\<open>ngx_sock_ntop\<close> writes it, is read back by \<^verbatim>\<open>ngx_parse_addr_port\<close> as
  the same address and port, when the port is not zero and the address has a text that can be read.
\<close>

theorem ngx_addr_port_roundtrip:
  assumes "ntohs (sa_port sa) \<noteq> 0"
    and "case sa of Sockaddr_in _ addr \<Rightarrow> addr \<noteq> INADDR_NONE \<and> NGX_INET_ADDRSTRLEN + 6 \<le> len
      | Sockaddr_in6 _ addr \<Rightarrow> length addr = 16 \<and> addr \<notin> inet6_refused \<and> NGX_INET6_ADDRSTRLEN \<le> len
      | Sockaddr_un _ \<Rightarrow> False"
  shows "ngx_parse_addr_port (ngx_sock_ntop sa len True) = Some sa"
proof (cases sa)
  case (Sockaddr_in port addr)
  with assms read_sock_in [of addr port len] show ?thesis by simp
next
  case (Sockaddr_in6 port addr)
  with assms read_sock_in6 [of addr port len] show ?thesis by simp
qed (use assms(2) in simp)

theorem ngx_addr_port_roundtrip_witness:
  "ngx_parse_addr_port (ngx_sock_ntop (Sockaddr_in (htons 80) (in_word [127, 0, 0, 1])) 21 True) =
     Some (Sockaddr_in (htons 80) (in_word [127, 0, 0, 1]))"
  using ngx_addr_port_roundtrip [of "Sockaddr_in (htons 80) (in_word [127, 0, 0, 1])" 21]
  by (simp add: ntohs_def in_word_NONE NGX_INET_ADDRSTRLEN_def)

end
