(* ===== verification/Ngx_Url.thy ===== *)
theory Ngx_Url
  imports Ngx_Addr
begin

section \<open>URLs\<close>

text \<open>
  \<^verbatim>\<open>ngx_parse_url\<close> and what it calls, \<^verbatim>\<open>ngx_inet_resolve_host\<close> included, in \<^verbatim>\<open>src/core/ngx_inet.c\<close>. The answer of
  \<^verbatim>\<open>getaddrinfo\<close> is a parameter. The callers zero the structure before they set the URL, the default port and the
  flags; strings that point into the URL are the bytes they cover.
\<close>

datatype url_error =
    No_path | Path_too_long | Invalid_host | Invalid_port | No_host | Host_not_found | Invalid_address

text \<open>An address with its name.\<close>

record ngx_addr =
  addr_sockaddr :: sockaddr
  addr_name :: "byte list"

record ngx_url =
  u_url :: "byte list"
  u_host :: "byte list"
  u_port_text :: "byte list"
  u_uri :: "byte list"
  u_port :: u16
  u_default_port :: u16
  u_family :: address_family
  u_listen :: bool
  u_uri_part :: bool
  u_no_resolve :: bool
  u_no_port :: bool
  u_wildcard :: bool
  u_sockaddr :: sockaddr
  u_addrs :: "ngx_addr list"
  u_err :: "url_error option"

type_synonym url_result = "ngx_rc \<times> ngx_url"

definition url_fail :: "url_error \<Rightarrow> ngx_url \<Rightarrow> url_result" where
  "url_fail e u = (NGX_ERROR, u\<lparr>u_err := Some e\<rparr>)"

subsection \<open>Unix domain sockets\<close>

text \<open>\<^verbatim>\<open>ngx_cpystrn\<close> copies the path up to a zero in it and appends one.\<close>

definition unix_sockaddr :: "byte list \<Rightarrow> sockaddr" where
  "unix_sockaddr path =
     Sockaddr_un (let p = takeWhile (\<lambda>b. b \<noteq> 0) path in p @ replicate (sun_path_size - length p) 0)"

definition ngx_parse_unix_domain_url :: "ngx_url \<Rightarrow> url_result" where
  "ngx_parse_unix_domain_url u =
     (let path = drop 5 (u_url u);
          uri = (if u_uri_part u then ngx_strlchr path chr_colon else None);
          u = (case uri of Some i \<Rightarrow> u\<lparr>u_uri := drop (i + 1) path\<rparr> | None \<Rightarrow> u);
          len = (case uri of Some i \<Rightarrow> i | None \<Rightarrow> length path)
      in if len = 0 then url_fail No_path u
         else
           let u = u\<lparr>u_host := take len path\<rparr>; len = len + 1
           in if len > sun_path_size then url_fail Path_too_long u
              else
                let sa = unix_sockaddr (take (len - 1) path)
                in (NGX_OK, u\<lparr>u_sockaddr := sa, u_family := AF_UNIX,
                              u_addrs := [\<lparr>addr_sockaddr = sa, addr_name = take (len + 4) (u_url u)\<rparr>]\<rparr>))"

subsection \<open>Names\<close>

text \<open>The addresses of a name, those of IPv4 first, each with the port and its text.\<close>

definition resolved_addr :: "u16 \<Rightarrow> sockaddr \<Rightarrow> ngx_addr" where
  "resolved_addr port sa =
     (let sa = ngx_inet_set_port sa port;
          len = (case sa of Sockaddr_in _ _ \<Rightarrow> NGX_INET_ADDRSTRLEN + 6 | _ \<Rightarrow> NGX_INET6_ADDRSTRLEN + 8)
      in \<lparr>addr_sockaddr = sa, addr_name = ngx_sock_ntop sa len True\<rparr>)"

definition ngx_inet_resolve_host :: "(byte list \<Rightarrow> sockaddr list option) \<Rightarrow> ngx_url \<Rightarrow> url_result" where
  "ngx_inet_resolve_host getaddrinfo u =
     (case getaddrinfo (takeWhile (\<lambda>b. b \<noteq> 0) (u_host u)) of
        None \<Rightarrow> url_fail Host_not_found u
      | Some res \<Rightarrow>
          if filter (\<lambda>sa. sa_family sa = AF_INET \<or> sa_family sa = AF_INET6) res = [] then url_fail Host_not_found u
          else
            (NGX_OK, u\<lparr>u_addrs :=
               map (resolved_addr (u_port u)) (filter (\<lambda>sa. sa_family sa = AF_INET) res) @
               map (resolved_addr (u_port u)) (filter (\<lambda>sa. sa_family sa = AF_INET6) res)\<rparr>))"

subsection \<open>Hosts\<close>

definition any_address :: "sockaddr \<Rightarrow> bool" where
  "any_address sa =
     (case sa of
        Sockaddr_in6 _ addr \<Rightarrow> addr = replicate 16 0
      | Sockaddr_in _ addr \<Rightarrow> addr = INADDR_ANY
      | Sockaddr_un _ \<Rightarrow> False)"

text \<open>The name of an address that was given as text: \<^verbatim>\<open>%V:%d\<close> of the host and the port.\<close>

definition host_name :: "ngx_url \<Rightarrow> byte list" where
  "host_name u = inet_sprintf ''%V:%d'' [Arg_text (u_host u), Arg_word (ucast (u_port u))]"

text \<open>The end of \<^verbatim>\<open>ngx_parse_inet_url\<close>, from the test of the host on.\<close>

definition inet_url_host :: "(byte list \<Rightarrow> sockaddr list option) \<Rightarrow> byte list \<Rightarrow> ngx_url \<Rightarrow> url_result" where
  "inet_url_host getaddrinfo host u =
     (if host = [] then url_fail No_host u
      else
        let u = u\<lparr>u_host := host\<rparr>; port = sa_port (u_sockaddr u)
        in if u_listen u \<and> host = [chr_star] then
             (NGX_OK, u\<lparr>u_sockaddr := Sockaddr_in port INADDR_ANY, u_wildcard := True\<rparr>)
           else
             let addr = ngx_inet_addr host; sa = Sockaddr_in port addr; u = u\<lparr>u_sockaddr := sa\<rparr>
             in if addr \<noteq> INADDR_NONE then
                  let u = (if addr = INADDR_ANY then u\<lparr>u_wildcard := True\<rparr> else u)
                  in (NGX_OK, u\<lparr>u_addrs := [\<lparr>addr_sockaddr = sa, addr_name = host_name u\<rparr>]\<rparr>)
                else if u_no_resolve u then (NGX_OK, u)
                else
                  (case ngx_inet_resolve_host getaddrinfo u of
                     (NGX_OK, u) \<Rightarrow>
                       let sa = addr_sockaddr (hd (u_addrs u)); u = u\<lparr>u_family := sa_family sa, u_sockaddr := sa\<rparr>
                       in (NGX_OK, if any_address sa then u\<lparr>u_wildcard := True\<rparr> else u)
                   | (_, u) \<Rightarrow> (NGX_ERROR, u)))"

definition url_port :: "u16 \<Rightarrow> byte list \<Rightarrow> ngx_url \<Rightarrow> ngx_url" where
  "url_port n cs u = u\<lparr>u_port := n, u_sockaddr := Sockaddr_in (htons n) 0, u_port_text := cs\<rparr>"

text \<open>Where the URI begins: at the first slash or question mark.\<close>

definition inet_url_uri :: "byte list \<Rightarrow> nat option" where
  "inet_url_uri cs =
     (let uri = ngx_strlchr cs chr_slash
      in case ngx_strlchr cs chr_quest of
           Some args \<Rightarrow> (case uri of None \<Rightarrow> Some args | Some i \<Rightarrow> if args < i then Some args else Some i)
         | None \<Rightarrow> uri)"

definition port_number :: "byte list \<Rightarrow> u16 option" where
  "port_number cs =
     (case ngx_atoi cs of None \<Rightarrow> None | Some n \<Rightarrow> if n < 1 \<or> n > 65535 then None else Some (word_of_int n))"

definition ngx_parse_inet_url :: "(byte list \<Rightarrow> sockaddr list option) \<Rightarrow> ngx_url \<Rightarrow> url_result" where
  "ngx_parse_inet_url getaddrinfo u =
     (let u = u\<lparr>u_sockaddr := Sockaddr_in 0 0, u_family := AF_INET\<rparr>; cs = u_url u;
          port = ngx_strlchr cs chr_colon; uri = inet_url_uri cs
      in if uri \<noteq> None \<and> (u_listen u \<or> \<not> u_uri_part u) then url_fail Invalid_host u
         else
           let u = (case uri of Some i \<Rightarrow> u\<lparr>u_uri := drop i cs\<rparr> | None \<Rightarrow> u);
               stop = (case uri of Some i \<Rightarrow> i | None \<Rightarrow> length cs);
               port = (case (uri, port) of (Some i, Some p) \<Rightarrow> if i < p then None else port | _ \<Rightarrow> port)
           in case port of
                Some p \<Rightarrow>
                  let txt = take (stop - (p + 1)) (drop (p + 1) cs)
                  in (case port_number txt of
                        None \<Rightarrow> url_fail Invalid_port u
                      | Some n \<Rightarrow> inet_url_host getaddrinfo (take p cs) (url_port n txt u))
              | None \<Rightarrow>
                  if uri = None \<and> u_listen u \<and> ngx_atoi cs \<noteq> None then
                    (case port_number cs of
                       None \<Rightarrow> url_fail Invalid_port u
                     | Some n \<Rightarrow> (NGX_OK, (url_port n cs u)\<lparr>u_wildcard := True\<rparr>))
                  else
                    inet_url_host getaddrinfo (take stop cs)
                      (u\<lparr>u_no_port := True, u_port := u_default_port u,
                         u_sockaddr := Sockaddr_in (htons (u_default_port u)) 0\<rparr>))"

subsection \<open>IPv6\<close>

text \<open>The port behind the brackets, or the default.\<close>

definition inet6_url_port :: "byte list \<Rightarrow> ngx_url \<Rightarrow> url_error + ngx_url" where
  "inet6_url_port port u =
     (case port of
        [] \<Rightarrow> Inr (u\<lparr>u_no_port := True, u_port := u_default_port u,
                   u_sockaddr := Sockaddr_in6 (htons (u_default_port u)) (replicate 16 0)\<rparr>)
      | c # txt \<Rightarrow>
          if c \<noteq> chr_colon then Inl Invalid_host
          else
            (case port_number txt of
               None \<Rightarrow> Inl Invalid_port
             | Some n \<Rightarrow> Inr (u\<lparr>u_port := n, u_sockaddr := Sockaddr_in6 (htons n) (replicate 16 0), u_port_text := txt\<rparr>)))"

definition inet6_url_host :: "nat \<Rightarrow> ngx_url \<Rightarrow> url_result" where
  "inet6_url_host len u =
     (if len = 0 then url_fail No_host u
      else
        let u = u\<lparr>u_host := take (len + 2) (u_url u)\<rparr>
        in case ngx_inet6_addr (take len (drop 1 (u_url u))) of
             None \<Rightarrow> url_fail Invalid_address u
           | Some addr \<Rightarrow>
               let sa = Sockaddr_in6 (sa_port (u_sockaddr u)) addr;
                   u = (if any_address sa then u\<lparr>u_wildcard := True\<rparr> else u)
               in (NGX_OK, u\<lparr>u_sockaddr := sa, u_family := AF_INET6,
                             u_addrs := [\<lparr>addr_sockaddr = sa, addr_name = host_name u\<rparr>]\<rparr>))"

definition ngx_parse_inet6_url :: "ngx_url \<Rightarrow> url_result" where
  "ngx_parse_inet6_url u =
     (let u = u\<lparr>u_sockaddr := Sockaddr_in6 0 (replicate 16 0)\<rparr>
      in case ngx_strlchr (drop 1 (u_url u)) 0x5d of
           None \<Rightarrow> url_fail Invalid_host u
         | Some len \<Rightarrow>
             let rest = drop (len + 2) (u_url u); uri = ngx_strlchr rest chr_slash
             in if uri \<noteq> None \<and> (u_listen u \<or> \<not> u_uri_part u) then url_fail Invalid_host u
                else
                  let u = (case uri of Some i \<Rightarrow> u\<lparr>u_uri := drop i rest\<rparr> | None \<Rightarrow> u);
                      port = (case uri of Some i \<Rightarrow> take i rest | None \<Rightarrow> rest)
                  in case inet6_url_port port u of
                       Inl e \<Rightarrow> url_fail e u
                     | Inr u \<Rightarrow> inet6_url_host len u)"

subsection \<open>The parser\<close>

definition ngx_parse_url :: "(byte list \<Rightarrow> sockaddr list option) \<Rightarrow> ngx_url \<Rightarrow> url_result" where
  "ngx_parse_url getaddrinfo u =
     (let cs = u_url u
      in if 5 \<le> length cs \<and> map ngx_tolower (take 5 cs) = bytes_of ''unix:'' then ngx_parse_unix_domain_url u
         else if cs \<noteq> [] \<and> hd cs = 0x5b then ngx_parse_inet6_url u
         else ngx_parse_inet_url getaddrinfo u)"

subsection \<open>What a host leaves\<close>

text \<open>A structure as the callers hand it over.\<close>

definition fresh_url :: "ngx_url \<Rightarrow> bool" where
  "fresh_url u \<longleftrightarrow> u_host u = [] \<and> u_port_text u = [] \<and> u_uri u = [] \<and> \<not> u_no_port u \<and> \<not> u_wildcard u \<and> u_addrs u = []"

definition addrs_port :: "ngx_url \<Rightarrow> bool" where
  "addrs_port u \<longleftrightarrow> (\<forall>a \<in> set (u_addrs u). ngx_inet_get_port (addr_sockaddr a) = u_port u)"

lemma get_set_port: "sa_family sa \<noteq> AF_UNIX \<Longrightarrow> ngx_inet_get_port (ngx_inet_set_port sa port) = port"
  by (cases sa) (simp_all add: ntohs_def)

lemma set_port_family: "sa_family (ngx_inet_set_port sa port) = sa_family sa"
  by (cases sa) simp_all

lemma resolve_host_result:
  assumes "ngx_inet_resolve_host getaddrinfo u = (NGX_OK, u')"
  shows "\<exists>addrs. u' = u\<lparr>u_addrs := addrs\<rparr> \<and> addrs \<noteq> [] \<and> sa_family (addr_sockaddr (hd addrs)) \<noteq> AF_UNIX \<and> addrs_port u'"
proof -
  obtain res where res: "getaddrinfo (takeWhile (\<lambda>b. b \<noteq> 0) (u_host u)) = Some res"
    using assms by (auto simp: ngx_inet_resolve_host_def url_fail_def split: option.splits)
  define l where "l = filter (\<lambda>sa. sa_family sa = AF_INET) res @ filter (\<lambda>sa. sa_family sa = AF_INET6) res"
  let ?a = "map (resolved_addr (u_port u)) l"
  have fam: "sa_family sa \<noteq> AF_UNIX" if "sa \<in> set l" for sa using that by (auto simp: l_def)
  have "filter (\<lambda>sa. sa_family sa = AF_INET \<or> sa_family sa = AF_INET6) res = [] \<longleftrightarrow> l = []"
    by (auto simp: filter_empty_conv l_def)
  then have "l \<noteq> []" "u' = u\<lparr>u_addrs := ?a\<rparr>"
    using assms res by (auto simp: ngx_inet_resolve_host_def url_fail_def l_def split: if_splits)
  moreover from this have "sa_family (addr_sockaddr (hd ?a)) \<noteq> AF_UNIX"
    using fam [of "hd l"] by (simp add: hd_map resolved_addr_def Let_def set_port_family)
  moreover have "addrs_port (u\<lparr>u_addrs := ?a\<rparr>)"
    using fam get_set_port by (auto simp: addrs_port_def resolved_addr_def Let_def)
  ultimately show ?thesis by auto
qed

lemma inet_url_host_result:
  assumes "inet_url_host getaddrinfo host u = (NGX_OK, u')"
    and "u_sockaddr u = Sockaddr_in (htons (u_port u)) 0" "u_addrs u = []" "\<not> u_wildcard u" "u_family u = AF_INET"
  shows "host \<noteq> [] \<and> u_host u' = host \<and> u_port_text u' = u_port_text u \<and> u_uri u' = u_uri u \<and> u_port u' = u_port u
    \<and> u_no_port u' = u_no_port u \<and> addrs_port u' \<and> u_family u' \<noteq> AF_UNIX
    \<and> (u_addrs u' = [] \<longrightarrow> u_listen u \<and> u_wildcard u' \<or> u_no_resolve u)"
proof -
  let ?u = "u\<lparr>u_host := host, u_sockaddr := Sockaddr_in (htons (u_port u)) (ngx_inet_addr host)\<rparr>"
  have host: "host \<noteq> []" using assms(1) by (auto simp: inet_url_host_def url_fail_def)
  consider (star) "u_listen u" "host = [chr_star]"
    | (literal) "\<not> (u_listen u \<and> host = [chr_star])" "ngx_inet_addr host \<noteq> INADDR_NONE"
    | (no_resolve) "\<not> (u_listen u \<and> host = [chr_star])" "ngx_inet_addr host = INADDR_NONE" "u_no_resolve u"
    | (resolve) "\<not> (u_listen u \<and> host = [chr_star])" "ngx_inet_addr host = INADDR_NONE" "\<not> u_no_resolve u" by blast
  then show ?thesis
  proof cases
    case star
    with assms host show ?thesis by (auto simp: inet_url_host_def addrs_port_def)
  next
    case literal
    with assms host show ?thesis by (auto simp: inet_url_host_def addrs_port_def Let_def ntohs_def split: if_splits)
  next
    case no_resolve
    with assms host show ?thesis by (auto simp: inet_url_host_def addrs_port_def Let_def)
  next
    case resolve
    with assms host obtain v where v: "ngx_inet_resolve_host getaddrinfo ?u = (NGX_OK, v)"
      "u' = (let sa = addr_sockaddr (hd (u_addrs v)); w = v\<lparr>u_family := sa_family sa, u_sockaddr := sa\<rparr>
             in if any_address sa then w\<lparr>u_wildcard := True\<rparr> else w)"
      by (auto simp: inet_url_host_def Let_def split: prod.splits ngx_rc.splits)
    with resolve_host_result [OF v(1)] host show ?thesis by (auto simp: Let_def addrs_port_def)
  qed
qed

lemma port_number_Some:
  "port_number cs = Some n \<Longrightarrow> ngx_atoi cs = Some (int (unat n)) \<and> n \<noteq> 0"
proof -
  assume "port_number cs = Some n"
  then obtain v where v: "ngx_atoi cs = Some v" "1 \<le> v" "v \<le> 65535" "n = word_of_int v"
    by (auto simp: port_number_def split: option.splits if_splits)
  then have "int (unat n) = v" by (simp add: unsigned_of_int take_bit_int_eq_self flip: uint_nat)
  with v show ?thesis by auto
qed

lemma ngx_strlchr_split: "ngx_strlchr cs c = Some p \<Longrightarrow> p < length cs \<and> cs = take p cs @ c # drop (p + 1) cs"
  using ngx_strlchr_takeWhile [of cs c p] id_take_nth_drop [of p cs] by simp

lemma inet_url_uri_less: "inet_url_uri cs = Some i \<Longrightarrow> i < length cs"
  using ngx_strlchr_split [of cs chr_slash] ngx_strlchr_split [of cs chr_quest]
  by (auto simp: inet_url_uri_def Let_def split: option.splits if_splits)

lemma inet_url_uri_char: "inet_url_uri cs = Some i \<Longrightarrow> cs ! i \<noteq> chr_colon"
  using ngx_strlchr_takeWhile [of cs chr_slash i] ngx_strlchr_takeWhile [of cs chr_quest i]
  by (auto simp: inet_url_uri_def Let_def split: option.splits if_splits)

lemma port_between:
  assumes "ngx_strlchr cs chr_colon = Some p" "p < i" "i \<le> length cs"
  shows "take p cs @ chr_colon # take (i - (p + 1)) (drop (p + 1) cs) @ drop i cs = cs"
proof -
  have "take (i - (p + 1)) (drop (p + 1) cs) @ drop i cs = drop (p + 1) cs"
    using assms(2) append_take_drop_id [of "i - (p + 1)" "drop (p + 1) cs"] by simp
  with ngx_strlchr_split [OF assms(1)] show ?thesis by simp
qed

text \<open>The parts of a URL make it up again.\<close>

definition url_parts :: "ngx_url \<Rightarrow> ngx_url \<Rightarrow> bool" where
  "url_parts u u' \<longleftrightarrow>
     u_url u = u_host u' @ (if u_no_port u' \<or> u_host u' = [] then [] else [chr_colon]) @ u_port_text u' @ u_uri u' \<and>
     (if u_no_port u' then u_port_text u' = [] \<and> u_port u' = u_default_port u
      else ngx_atoi (u_port_text u') = Some (int (unat (u_port u'))) \<and> u_port u' \<noteq> 0) \<and>
     addrs_port u' \<and>
     (u_addrs u' = [] \<longrightarrow> u_listen u \<and> u_wildcard u' \<or> u_no_resolve u)"

lemma inet_url_parts:
  assumes "ngx_parse_inet_url getaddrinfo u = (NGX_OK, u')" "fresh_url u"
  shows "url_parts u u' \<and> u_family u' \<noteq> AF_UNIX"
proof -
  define cs where "cs = u_url u"
  define uri where "uri = inet_url_uri cs"
  define stop where "stop = (case uri of Some i \<Rightarrow> i | None \<Rightarrow> length cs)"
  define v where "v = (case uri of Some i \<Rightarrow> u\<lparr>u_sockaddr := Sockaddr_in 0 0, u_family := AF_INET, u_uri := drop i cs\<rparr>
    | None \<Rightarrow> u\<lparr>u_sockaddr := Sockaddr_in 0 0, u_family := AF_INET\<rparr>)"
  define port where "port = (case (uri, ngx_strlchr cs chr_colon) of (Some i, Some p) \<Rightarrow> if i < p then None else Some p | (_, q) \<Rightarrow> q)"
  have stop: "stop \<le> length cs" using inet_url_uri_less [of cs] by (auto simp: stop_def uri_def split: option.splits)
  have v: "u_uri v = drop stop cs" "u_host v = []" "u_port_text v = []" "\<not> u_no_port v" "\<not> u_wildcard v" "u_addrs v = []"
    "u_family v = AF_INET" "u_listen v = u_listen u" "u_no_resolve v = u_no_resolve u" "u_default_port v = u_default_port u"
    using assms(2) by (auto simp: v_def stop_def fresh_url_def split: option.splits)
  have run: "(case port of
      Some p \<Rightarrow> (case port_number (take (stop - (p + 1)) (drop (p + 1) cs)) of
          None \<Rightarrow> url_fail Invalid_port v
        | Some n \<Rightarrow> inet_url_host getaddrinfo (take p cs) (url_port n (take (stop - (p + 1)) (drop (p + 1) cs)) v))
    | None \<Rightarrow>
        if uri = None \<and> u_listen u \<and> ngx_atoi cs \<noteq> None then
          (case port_number cs of None \<Rightarrow> url_fail Invalid_port v
           | Some n \<Rightarrow> (NGX_OK, (url_port n cs v)\<lparr>u_wildcard := True\<rparr>))
        else inet_url_host getaddrinfo (take stop cs)
          (v\<lparr>u_no_port := True, u_port := u_default_port v, u_sockaddr := Sockaddr_in (htons (u_default_port v)) 0\<rparr>))
    = (NGX_OK, u')"
    using assms(1) unfolding ngx_parse_inet_url_def Let_def cs_def [symmetric] simp_thms
    by (cases uri; cases "ngx_strlchr cs chr_colon")
      (auto simp: uri_def v_def port_def stop_def cs_def url_fail_def cong: option.case_cong split: if_splits)
  show ?thesis
  proof (cases port)
    case None
    let ?w = "v\<lparr>u_no_port := True, u_port := u_default_port v, u_sockaddr := Sockaddr_in (htons (u_default_port v)) 0\<rparr>"
    show ?thesis
    proof (cases "uri = None \<and> u_listen u \<and> ngx_atoi cs \<noteq> None")
      case True
      with run None obtain n where n: "port_number cs = Some n" "u' = (url_port n cs v)\<lparr>u_wildcard := True\<rparr>"
        by (auto simp: url_fail_def split: option.splits)
      with True v port_number_Some [OF n(1)] show ?thesis
        by (auto simp: url_parts_def url_port_def addrs_port_def stop_def cs_def)
    next
      case False
      with run None have "inet_url_host getaddrinfo (take stop cs) ?w = (NGX_OK, u')" by auto
      from inet_url_host_result [OF this] v show ?thesis
        by (auto simp: url_parts_def cs_def)
    qed
  next
    case (Some p)
    let ?txt = "take (stop - (p + 1)) (drop (p + 1) cs)"
    have p: "ngx_strlchr cs chr_colon = Some p" "p < stop"
      using Some ngx_strlchr_takeWhile [of cs chr_colon p] inet_url_uri_char [of cs]
      by (auto simp: port_def stop_def uri_def not_less le_less split: option.splits if_splits)
    from run Some obtain n where n: "port_number ?txt = Some n" "inet_url_host getaddrinfo (take p cs) (url_port n ?txt v) = (NGX_OK, u')"
      by (auto simp: url_fail_def split: option.splits)
    have "take p cs @ chr_colon # ?txt @ drop stop cs = u_url u"
      using port_between [OF p stop] by (simp only: cs_def)
    moreover have "u_sockaddr (url_port n ?txt v) = Sockaddr_in (htons (u_port (url_port n ?txt v))) 0"
      "u_addrs (url_port n ?txt v) = []" "\<not> u_wildcard (url_port n ?txt v)" "u_family (url_port n ?txt v) = AF_INET"
      using v by (simp_all add: url_port_def)
    ultimately show ?thesis
      using inet_url_host_result [OF n(2)] port_number_Some [OF n(1)] v
      by (simp add: url_parts_def) (simp add: url_port_def)
  qed
qed

lemma inet6_url_port_result:
  assumes "inet6_url_port port u = Inr w" "u_port_text u = []" "\<not> u_no_port u"
  shows "u_url w = u_url u \<and> u_uri w = u_uri u \<and> u_sockaddr w = Sockaddr_in6 (htons (u_port w)) (replicate 16 0) \<and>
    port = (if u_no_port w then [] else [chr_colon]) @ u_port_text w \<and>
    (if u_no_port w then u_port_text w = [] \<and> u_port w = u_default_port u
     else ngx_atoi (u_port_text w) = Some (int (unat (u_port w))) \<and> u_port w \<noteq> 0)"
  using assms port_number_Some [of "tl port"] by (cases port) (auto simp: inet6_url_port_def split: if_splits option.splits)

lemma inet6_url_host_result:
  assumes "inet6_url_host len w = (NGX_OK, u')" "u_sockaddr w = Sockaddr_in6 (htons (u_port w)) (replicate 16 0)"
  shows "u_host u' = take (len + 2) (u_url w) \<and> u_host u' \<noteq> [] \<and> u_port_text u' = u_port_text w \<and> u_uri u' = u_uri w \<and>
    u_port u' = u_port w \<and> u_no_port u' = u_no_port w \<and> u_addrs u' \<noteq> [] \<and> addrs_port u' \<and> u_family u' = AF_INET6"
proof -
  obtain addr where "ngx_inet6_addr (take len (drop 1 (u_url w))) = Some addr" "len \<noteq> 0"
    using assms(1) by (auto simp: inet6_url_host_def Let_def url_fail_def split: option.splits if_splits)
  moreover from this have "u_url w \<noteq> []" by (auto simp: ngx_inet6_addr_def)
  ultimately show ?thesis
    using assms
    by (cases "any_address (Sockaddr_in6 (htons (u_port w)) addr)")
      (auto simp: inet6_url_host_def Let_def addrs_port_def ntohs_def)
qed

lemma inet6_url_parts:
  assumes "ngx_parse_inet6_url u = (NGX_OK, u')" "fresh_url u"
  shows "url_parts u u' \<and> u_family u' \<noteq> AF_UNIX"
proof -
  obtain len where len: "ngx_strlchr (drop 1 (u_url u)) 0x5d = Some len"
    using assms(1) by (auto simp: ngx_parse_inet6_url_def Let_def url_fail_def split: option.splits)
  define rest where "rest = drop (len + 2) (u_url u)"
  define uri where "uri = ngx_strlchr rest chr_slash"
  define port where "port = (case uri of Some i \<Rightarrow> take i rest | None \<Rightarrow> rest)"
  define v where "v = (case uri of Some i \<Rightarrow> u\<lparr>u_sockaddr := Sockaddr_in6 0 (replicate 16 0), u_uri := drop i rest\<rparr>
    | None \<Rightarrow> u\<lparr>u_sockaddr := Sockaddr_in6 0 (replicate 16 0)\<rparr>)"
  have "rest = port @ u_uri v" "u_url v = u_url u" "u_port_text v = []" "\<not> u_no_port v" "u_default_port v = u_default_port u"
    using assms(2) by (auto simp: port_def v_def fresh_url_def split: option.splits)
  moreover have "u_url u = take (len + 2) (u_url u) @ rest" unfolding rest_def by (rule append_take_drop_id [symmetric])
  moreover obtain w where "inet6_url_port port v = Inr w" "inet6_url_host len w = (NGX_OK, u')"
    using assms(1) len unfolding ngx_parse_inet6_url_def Let_def
    by (auto simp: rest_def uri_def port_def v_def url_fail_def split: option.splits if_splits sum.splits)
  ultimately show ?thesis
    using inet6_url_port_result [of port v w] inet6_url_host_result [of len w u']
    by (auto simp: url_parts_def)
qed

text \<open>The path of a Unix domain socket fits with its terminating zero.\<close>

lemma unix_url_fits:
  assumes "ngx_parse_unix_domain_url u = (NGX_OK, u')"
  shows "\<exists>path. u_sockaddr u' = Sockaddr_un path \<and> length path = sun_path_size \<and> 0 \<in> set path"
proof -
  define path where "path = drop 5 (u_url u)"
  define n where "n = (case if u_uri_part u then ngx_strlchr path chr_colon else None of Some i \<Rightarrow> i | None \<Rightarrow> length path)"
  have "n < sun_path_size" "u_sockaddr u' = unix_sockaddr (take n path)"
    using assms unfolding ngx_parse_unix_domain_url_def Let_def path_def [symmetric] n_def [symmetric]
    by (auto simp: url_fail_def split: if_splits)
  moreover have "length (takeWhile (\<lambda>b. b \<noteq> 0) (take n path)) \<le> n"
    using length_takeWhile_le [of _ "take n path"] by (rule order.trans) simp
  ultimately show ?thesis by (auto simp: unix_sockaddr_def Let_def)
qed

subsection \<open>Properties\<close>


definition sample_url :: "byte list \<Rightarrow> ngx_url" where
  "sample_url cs =
     \<lparr>u_url = cs, u_host = [], u_port_text = [], u_uri = [], u_port = 0, u_default_port = 80, u_family = AF_INET,
      u_listen = False, u_uri_part = True, u_no_resolve = True, u_no_port = False, u_wildcard = False,
      u_sockaddr = Sockaddr_in 0 0, u_addrs = [], u_err = None\<rparr>"


end
