(* ===== verification/Spec2Isabelle.thy ===== *)
theory Spec2Isabelle
  imports Http_V2_Encode Ngx_Crc32 Ngx_Murmurhash Ngx_Parse Ngx_Base64 Ngx_Utf8 Http_Request_Line Http_Header_Line Http_Body_Filter Http_Complex_Uri Http_Upstream_Rr Http_V2_Table Ngx_Radix_Tree Ngx_Http_Time Http_Find_Config Ngx_Url
begin

text \<open>
  \<^bold>\<open>A verification library of the core routines of nginx.\<close>

  The repository is a collection of C programs kept for study. Its bulk is nginx 1.14.0
  (\<^verbatim>\<open>src/nginx/nginx-1.14.0-research-master\<close>; all file names below are relative to its directory \<^verbatim>\<open>src\<close>), and this
  library models the part of nginx that computes: what is read from and written to the network, how a request
  finds its location and its upstream server, and the data structures and number formats under both. The rest,
  input and output, processes, configuration at large and the calls of other libraries, is listed under
  ``Not modelled''.

  \<^bold>\<open>How the program hangs together.\<close> A connection's bytes go through the parsers of HTTP/1 (\<^verbatim>\<open>http/ngx_http_parse.c\<close>) or
  through the header compression of HTTP/2 (\<^verbatim>\<open>http/v2\<close>). The parsers keep their state in the request and are
  called again when more bytes have come. The request line yields a URI, which is normalised; the find-config
  phase looks the URI up among the locations of the server, a tree that the configuration phase built from
  queues; a proxied request is then given to a server of a group by weighted round robin. The small routines of
  \<^verbatim>\<open>core\<close>, numbers, formats, times, base64, UTF-8, hashes, addresses, radix trees and queues, are called from all of these.

  \<^bold>\<open>Theories and sources.\<close>

  \<^item> \<open>Prelude\<close>: bytes and words at their widths, C characters, return codes, the collections of rewrite rules.
  \<^item> \<open>Ngx_String\<close>, \<open>Ngx_Atoi\<close>, \<open>Ngx_Sprintf\<close>, \<open>Ngx_Base64\<close>, \<open>Ngx_Utf8\<close>: \<^verbatim>\<open>core/ngx_string.c\<close>. Reading numbers is exact
    and refuses overflow; formatted output stays within its buffer and its numbers are read back; both base64
    alphabets and UTF-8 round-trip.
  \<^item> \<open>Ngx_Parse\<close>: \<^verbatim>\<open>core/ngx_parse.c\<close>, sizes, offsets and intervals with units.
  \<^item> \<open>Ngx_Gmtime\<close>, \<open>Ngx_Http_Time\<close>: \<^verbatim>\<open>core/ngx_times.c\<close> and \<^verbatim>\<open>core/ngx_parse_time.c\<close>. The calendar against a day-by-day
    specification, and the times of HTTP written and read back.
  \<^item> \<open>Block_Hash\<close>, \<open>Ngx_Crc32\<close>, \<open>Ngx_Murmurhash\<close>: \<^verbatim>\<open>core/ngx_crc32.c\<close>, \<^verbatim>\<open>core/ngx_crc32.h\<close>, \<^verbatim>\<open>core/ngx_murmurhash.c\<close>. The tables
    are the polynomial's, and a checksum sees every change of one byte.
  \<^item> \<open>Ngx_Radix_Tree\<close>: \<^verbatim>\<open>core/ngx_radix_tree.c\<close>, refined from a partial map of prefixes, for 32 and 128 bits.
  \<^item> \<open>Ngx_Inet\<close>, \<open>Ngx_Addr\<close>, \<open>Ngx_Url\<close>: \<^verbatim>\<open>core/ngx_inet.c\<close>, the texts of IPv4 and IPv6 addresses, with ports, as networks and
    in URLs. What is written is read back, a network matches the addresses that begin with its bits, and a URL is
    cut into parts that make it up.
  \<^item> \<open>Ngx_Queue\<close>: \<^verbatim>\<open>core/ngx_queue.h\<close> and \<^verbatim>\<open>core/ngx_queue.c\<close>, rings in an explicit store of links; each macro is a list
    operation, and the sort in place ends and is stable.
  \<^item> \<open>Prefix_Code\<close>, \<open>Http_V2_Huff_Decode_Table\<close>, \<open>Http_V2_Huff_Encode_Table\<close>, \<open>Http_V2_Huff_Check\<close>, \<open>Http_V2_Huff_Decode\<close>,
    \<open>Http_V2_Huff_Encode\<close>: \<^verbatim>\<open>http/v2/ngx_http_v2_huff_decode.c\<close> and \<^verbatim>\<open>ngx_http_v2_huff_encode.c\<close> with their tables, checked
    entry by entry against the code words. The decoder accepts what the codes spell, and reads back the encoder.
  \<^item> \<open>Http_V2_Encode\<close>, \<open>Http_V2_Table\<close>: \<^verbatim>\<open>ngx_http_v2_encode.c\<close>, the integer reader of \<^verbatim>\<open>ngx_http_v2.c\<close> and
    \<^verbatim>\<open>ngx_http_v2_table.c\<close>; the dynamic table in its two rings refines a list of fields.
  \<^item> \<open>Http_Scan\<close>, \<open>Http_Request_Line\<close>, \<open>Http_Header_Line\<close>, \<open>Http_Chunked\<close>, \<open>Http_Complex_Uri\<close>: the state machines of
    \<^verbatim>\<open>http/ngx_http_parse.c\<close>, state by state. Input may be cut anywhere; what is accepted, where the parts of a line lie,
    what a chunked body carries, and that a URI comes out normal.
  \<^item> \<open>Http_Body_Filter\<close>: the loop over the buffers of a chunked body in \<^verbatim>\<open>http/ngx_http_request_body.c\<close>.
  \<^item> \<open>Http_Upstream_Rr\<close>: the choice of a server in \<^verbatim>\<open>http/ngx_http_upstream_round_robin.c\<close>: in a cycle every server is picked
    as often as its weight says, and none is picked that is down or was tried.
  \<^item> \<open>Http_Location_Conf\<close>, \<open>Http_Location_Tree\<close>, \<open>Http_Locations\<close>: the locations of a level in \<^verbatim>\<open>http/ngx_http.c\<close>: their
    order, the joining, nesting and tree building, and \<^verbatim>\<open>ngx_http_core_find_static_location\<close> of
    \<^verbatim>\<open>http/ngx_http_core_module.c\<close>, which finds what a plain choice among the configured locations selects.
  \<^item> \<open>Http_Find_Location\<close>, \<open>Http_Core_Location\<close>, \<open>Http_Find_Config\<close>: the passes over nested locations, the lookup with regular
    expressions and nesting, the directives that make locations, the find-config phase and named locations.

  \<^bold>\<open>Conventions.\<close> Machine integers are words of their width where wrap-around can happen. A pointer with a length is the
  list of the bytes between; a string with a terminating zero contains it. Errors are values of a sum or option
  type, or return codes. Loops of the source are recursive functions on the remaining input or on a measure;
  those that need a well-formed ring to end are partial functions, and the theorems about them state that they
  return. Structures that the code changes in place are records that are returned changed, but for the queues,
  whose links live in a store because the macros alias. The build is that for 64-bit Unix with PCRE, without debugging
  and with a file system that distinguishes case.

  \<^bold>\<open>Interfaces.\<close> Each is a locale with its laws, interpreted where the code provides them. \<open>comparison\<close> states what
  \<^verbatim>\<open>ngx_queue_sort\<close> needs of its callback and gives stability (\<open>loc_cmp\<close>, on \<^verbatim>\<open>ngx_http_cmp_locations\<close>).
  \<open>scan_invariant\<close> gives the outcome of a resumable scan from one law per step (\<open>rl\<close>, the request line, and
  \<open>hl\<close>, the header line). \<open>prefix_code\<close>, extended by \<open>table_decoder\<close>, states the code words of a Huffman code and a
  decoder that reads them byte by byte (\<open>huff\<close>). \<open>checked_digits\<close> is the accumulation of digits with a cutoff
  (\<open>dec\<close> and \<open>hex\<close>); \<open>base64_alphabet\<close> a pair of tables that invert each other (\<open>std\<close> and \<open>url\<close>); \<open>crc_table\<close> the division
  of a chunk of bits by the polynomial (\<open>t16\<close> and \<open>t256\<close>); \<open>block_hash\<close> an invertible step of a checksum (\<open>crc\<close> and
  \<open>murmur\<close>); \<open>radix_walk\<close> the path of a key through a tree (\<open>walk32\<close> and \<open>walk128\<close>).

  \<^bold>\<open>Parameters and bounds.\<close> Matching and compiling regular expressions is PCRE's and a parameter of the definitions, and so is
  what \<^verbatim>\<open>getaddrinfo\<close> answers for a name.
  Memory is taken to be available: the branches for a failed allocation are left out. Recursions need no fuel:
  each terminates on a measure. Hypotheses on sizes state the widths of the fields of the code: a location's name
  fits in a byte's count, a dynamic table in its ring, a year in four digits.

  \<^bold>\<open>Not modelled.\<close> Sockets, files, events, processes, shared memory and locks; pools and chains of buffers; TLS, PCRE and the
  other libraries; the configuration language beyond the directives for locations; the resolver; most HTTP
  modules, the mail and stream proxies; the framing of HTTP/2; red-black trees and hash tables. The other programs of
  the repository: cJSON, tinyhttpd and webbench, which mostly do input and output, and C++ template libraries.
\<close>

end
